(* ===== verification/Prelude.thy ===== *)
theory Prelude
  imports Complex_Main "HOL-Library.Char_ord" "HOL-Library.List_Lexorder"
begin

text \<open>
  Shared vocabulary of the development: Python exceptions as values (\<open>py_error\<close>), the
  result type \<open>'a res\<close> with its sequencing operators, and the list and option lemmas the
  component theories rely on.

  An exception carries the literal text of its message up to the first interpolated value:
  this is the part the program itself ever inspects (\<open>_safe_probe_error\<close> tests prefixes,
  \<open>_endpoint_failure_reason\<close> reads the constant reason of a continuity error).
\<close>

named_theorems res_simps \<open>inversion of sequenced computations\<close>
named_theorems model_defs \<open>definitions a component proof unfolds by default\<close>

section \<open>Exceptions\<close>

text \<open>
  One constructor per exception class the indexer raises or catches. The class hierarchy is
  given by the \<open>is_*\<close> predicates: \<open>RpcContinuityError\<close> is an \<open>RpcError\<close>, \<open>TimeoutError\<close> is an
  \<open>OSError\<close>, the finalized-data, chain-identity and coverage errors are \<open>DatabaseError\<close>s, and
  the two advisory-lock errors are \<open>FatalIndexerError\<close>s.
\<close>

datatype py_error =
    RpcError string
  | RpcContinuityError string
  | OSError
  | TimeoutError
  | ValueError string
  | TypeError
  | AttributeError
  | KeyError
  | OverflowError
  | RuntimeError string
  | DatabaseError string
  | FinalizedDataConflict string
  | ChainIdentityError string
  | RealmActivityCoverageError string
  | RealmCallCoverageError string
  | OperationalError
  | InterfaceError
  | IntegrityError string
  | ProgrammingError
  | DataError
  | FatalIndexerError string
  | TransientIndexerError
  | AdvisoryLockHeld
  | AdvisoryLockLost
  | ValopersPersistenceError string
  | ValopersChainIdentityError string
  | StaleValopersSnapshot string
  | ValopersSnapshotConflict string
  | ValopersStoredStateError string
  | GovernanceParseError string
  | GovernancePersistenceError string
  | GovernanceChainIdentityError string
  | IncompleteGovernanceSnapshot string
  | StaleGovernanceSnapshot string
  | GovernanceSnapshotConflict string
  | GovernanceStoredStateError string
  | FatalGovernanceUpdaterError string
  | AllGovernanceRpcAttemptsFailed string
  | MetadataParseError string
  | MetadataPersistenceError string
  | StaleMetadataSnapshot string
  | KeyboardInterrupt

fun is_RpcError :: "py_error \<Rightarrow> bool" where
  "is_RpcError (RpcError _) = True"
| "is_RpcError (RpcContinuityError _) = True"
| "is_RpcError (AllGovernanceRpcAttemptsFailed _) = True"
| "is_RpcError _ = False"

fun is_OSError :: "py_error \<Rightarrow> bool" where
  "is_OSError OSError = True"
| "is_OSError TimeoutError = True"
| "is_OSError _ = False"

fun is_DatabaseError :: "py_error \<Rightarrow> bool" where
  "is_DatabaseError (DatabaseError _) = True"
| "is_DatabaseError (FinalizedDataConflict _) = True"
| "is_DatabaseError (ChainIdentityError _) = True"
| "is_DatabaseError (RealmActivityCoverageError _) = True"
| "is_DatabaseError (RealmCallCoverageError _) = True"
| "is_DatabaseError _ = False"

section \<open>Results\<close>

type_synonym 'a res = "py_error + 'a"

definition bindE :: "'a res \<Rightarrow> ('a \<Rightarrow> 'b res) \<Rightarrow> 'b res" where
  "bindE m f = (case m of Inl e \<Rightarrow> Inl e | Inr x \<Rightarrow> f x)"

text \<open>\<open>guardE b e\<close> raises \<open>e\<close> when \<open>b\<close> fails.\<close>

definition guardE :: "bool \<Rightarrow> py_error \<Rightarrow> unit res" where
  "guardE b e = (if b then Inr () else Inl e)"

lemma bindE_simps [simp]:
  "bindE (Inl e) f = Inl e"
  "bindE (Inr x) f = f x"
  by (simp_all add: bindE_def)

lemma bindE_Inr_iff [res_simps]: "bindE m f = Inr y \<longleftrightarrow> (\<exists>x. m = Inr x \<and> f x = Inr y)"
  by (cases m) auto

lemma bindE_Inl_iff: "bindE m f = Inl e \<longleftrightarrow> m = Inl e \<or> (\<exists>x. m = Inr x \<and> f x = Inl e)"
  by (cases m) auto

lemma bindE_assoc: "bindE (bindE m f) g = bindE m (\<lambda>x. bindE (f x) g)"
  by (cases m) auto

lemma bindE_cong [fundef_cong]:
  "m = n \<Longrightarrow> (\<And>x. n = Inr x \<Longrightarrow> f x = g x) \<Longrightarrow> bindE m f = bindE n g"
  by (cases n) auto

lemma guardE_simps [simp]:
  "guardE True e = Inr ()"
  "guardE False e = Inl e"
  by (simp_all add: guardE_def)

lemma guardE_Inr_iff [res_simps]: "guardE b e = Inr u \<longleftrightarrow> b"
  by (cases b) auto

text \<open>A loop whose body may raise: the first exception ends it.\<close>

fun mapE :: "('a \<Rightarrow> 'b res) \<Rightarrow> 'a list \<Rightarrow> 'b list res" where
  "mapE f [] = Inr []"
| "mapE f (x # xs) = bindE (f x) (\<lambda>y. bindE (mapE f xs) (\<lambda>ys. Inr (y # ys)))"

fun foldE :: "('a \<Rightarrow> 's \<Rightarrow> 's res) \<Rightarrow> 'a list \<Rightarrow> 's \<Rightarrow> 's res" where
  "foldE f [] s = Inr s"
| "foldE f (x # xs) s = bindE (f x s) (foldE f xs)"

definition checkE :: "('a \<Rightarrow> unit res) \<Rightarrow> 'a list \<Rightarrow> unit res" where
  "checkE f xs = bindE (mapE f xs) (\<lambda>_. Inr ())"

lemma mapE_cong [fundef_cong]:
  "xs = ys \<Longrightarrow> (\<And>x. x \<in> set ys \<Longrightarrow> f x = g x) \<Longrightarrow> mapE f xs = mapE g ys"
  by (induction ys arbitrary: xs) auto

lemma foldE_cong [fundef_cong]:
  "xs = ys \<Longrightarrow> s = t \<Longrightarrow> (\<And>x u. x \<in> set ys \<Longrightarrow> f x u = g x u) \<Longrightarrow> foldE f xs s = foldE g ys t"
proof (induction ys arbitrary: xs s t)
  case (Cons y ys)
  then show ?case by (cases "g y t") auto
qed simp

lemma mapE_Inr_length: "mapE f xs = Inr ys \<Longrightarrow> length ys = length xs"
  by (induction xs arbitrary: ys) (auto simp: bindE_Inr_iff)

lemma mapE_Inr_nth: "mapE f xs = Inr ys \<Longrightarrow> i < length xs \<Longrightarrow> f (xs ! i) = Inr (ys ! i)"
  by (induction xs arbitrary: ys i) (auto simp: bindE_Inr_iff nth_Cons split: nat.splits)

lemma mapE_Inr_set: "mapE f xs = Inr ys \<Longrightarrow> y \<in> set ys \<Longrightarrow> \<exists>x \<in> set xs. f x = Inr y"
  by (induction xs arbitrary: ys) (auto simp: bindE_Inr_iff)

lemma mapE_Inr_in: "mapE f xs = Inr ys \<Longrightarrow> x \<in> set xs \<Longrightarrow> \<exists>y \<in> set ys. f x = Inr y"
  by (induction xs arbitrary: ys) (auto simp: bindE_Inr_iff)

lemma mapE_total: "(\<And>x. x \<in> set xs \<Longrightarrow> f x = Inr (g x)) \<Longrightarrow> mapE f xs = Inr (map g xs)"
  by (induction xs) auto

lemma mapE_Inl_in: "mapE f xs = Inl e \<Longrightarrow> \<exists>x \<in> set xs. f x = Inl e"
  by (induction xs) (auto simp: bindE_Inl_iff)

lemma checkE_Nil [simp]: "checkE f [] = Inr ()"
  by (simp add: checkE_def)

lemma checkE_Cons [simp]: "checkE f (x # xs) = bindE (f x) (\<lambda>_. checkE f xs)"
  by (simp add: checkE_def bindE_assoc)

lemma checkE_Inr_iff [res_simps]: "checkE f xs = Inr u \<longleftrightarrow> (\<forall>x \<in> set xs. f x = Inr ())"
  by (induction xs) (auto simp: bindE_Inr_iff)

text \<open>An invariant of the body is an invariant of the loop.\<close>

lemma foldE_invariant:
  assumes "foldE f xs s = Inr t" and "P s"
    and "\<And>x s t. x \<in> set xs \<Longrightarrow> P s \<Longrightarrow> f x s = Inr t \<Longrightarrow> P t"
  shows "P t"
  using assms
proof (induction xs arbitrary: s)
  case (Cons x xs)
  then obtain u where u: "f x s = Inr u" "foldE f xs u = Inr t"
    by (auto simp: bindE_Inr_iff)
  with Cons.prems have "P u" by (meson list.set_intros(1))
  with u Cons show ?case by (meson list.set_intros(2))
qed simp

lemma foldE_Inr_in: "foldE f xs s = Inr t \<Longrightarrow> x \<in> set xs \<Longrightarrow> \<exists>u v. f x u = Inr v"
  by (induction xs arbitrary: s) (auto simp: bindE_Inr_iff)

lemma foldE_append: "foldE f (xs @ ys) s = bindE (foldE f xs s) (foldE f ys)"
proof (induction xs arbitrary: s)
  case (Cons x xs)
  show ?case by (cases "f x s") (simp_all add: Cons.IH)
qed simp

section \<open>Lists\<close>

text \<open>\<open>enumerate\<close> of Python, from index 0.\<close>

abbreviation enum0 :: "'a list \<Rightarrow> (nat \<times> 'a) list" where
  "enum0 xs \<equiv> List.enumerate 0 xs"

lemma set_enum0: "(i, x) \<in> set (enum0 xs) \<longleftrightarrow> i < length xs \<and> xs ! i = x"
  by (auto simp: in_set_enumerate_eq)

lemma snd_enum0: "snd ` set (enum0 xs) = set xs"
  by (metis list.set_map map_snd_enumerate)

lemma map_snd_filter_enum0: "map snd (filter (\<lambda>x. P (snd x)) (enum0 xs)) = filter P xs"
proof -
  have "map snd (filter (P \<circ> snd) (enum0 xs)) = filter P (map snd (enum0 xs))"
    by (rule filter_map [symmetric])
  then show ?thesis by (simp add: comp_def)
qed

lemma set_filter_enum0: "snd ` set (filter (\<lambda>x. P (snd x)) (enum0 xs)) = {x \<in> set xs. P x}"
  using arg_cong [OF map_snd_filter_enum0 [of P xs], of set] by simp

lemma hd_sort_key_le:
  assumes "x \<in> set xs"
  shows "f (hd (sort_key f xs)) \<le> f x"
proof -
  from assms have "sort_key f xs \<noteq> []" by (metis empty_iff empty_set set_sort)
  then obtain y ys where ys: "sort_key f xs = y # ys" by (cases "sort_key f xs") auto
  have "sorted (map f (y # ys))" by (metis sorted_sort_key ys)
  moreover have "x \<in> set (y # ys)" by (metis assms set_sort ys)
  ultimately show ?thesis by (auto simp: ys)
qed

end
