(* ===== verification/Py_Float.thy ===== *)
theory Py_Float
  imports Prelude
begin

text \<open>
  Python floats (IEEE 754 binary64) as the program uses them: latencies are subtracted,
  divided, scaled and compared, and floats of a JSON payload are printed back by
  \<open>json.dumps\<close>. A finite float is the rational it denotes (the two zeros are identified);
  every arithmetic result is rounded to the nearest representable value, ties to even.
\<close>

section \<open>Values\<close>

datatype pyfloat = Fin rat | PInf | NInf | NaN

fun bit_length :: "nat \<Rightarrow> nat" where
  "bit_length n = (if n = 0 then 0 else Suc (bit_length (n div 2)))"

declare bit_length.simps [simp del]

definition pow2 :: "int \<Rightarrow> rat" where
  "pow2 k = (if 0 \<le> k then 2 ^ nat k else 1 / 2 ^ nat (- k))"

text \<open>\<open>ilog2 x\<close> is the integer logarithm of a positive rational.\<close>

definition ilog2 :: "rat \<Rightarrow> int" where
  "ilog2 x = (let (n, d) = quotient_of x;
                  e = int (bit_length (nat n)) - int (bit_length (nat d))
              in if pow2 e \<le> x then e else e - 1)"

definition round_half_even :: "rat \<Rightarrow> int" where
  "round_half_even x =
     (let f = \<lfloor>x\<rfloor>; r = x - of_int f
      in if r < 1 / 2 then f else if 1 / 2 < r then f + 1 else if even f then f else f + 1)"

text \<open>
  53 significant bits, the smallest quantum \<open>2 ^ -1074\<close> (subnormals), overflow to infinity.
\<close>

definition rnd :: "rat \<Rightarrow> pyfloat" where
  "rnd x =
     (if x = 0 then Fin 0
      else let q = pow2 (max (ilog2 \<bar>x\<bar> - 52) (-1074));
               v = of_int (round_half_even (x / q)) * q
           in if 2 ^ 1024 \<le> v then PInf else if v \<le> - (2 ^ 1024) then NInf else Fin v)"

section \<open>Comparison\<close>

fun f_le :: "pyfloat \<Rightarrow> pyfloat \<Rightarrow> bool" where
  "f_le (Fin a) (Fin b) = (a \<le> b)"
| "f_le NaN _ = False"
| "f_le _ NaN = False"
| "f_le NInf _ = True"
| "f_le _ PInf = True"
| "f_le _ _ = False"

definition f_isfinite :: "pyfloat \<Rightarrow> bool" where
  "f_isfinite f = (case f of Fin _ \<Rightarrow> True | _ \<Rightarrow> False)"

section \<open>Printing\<close>

fun digits_of_nat :: "nat \<Rightarrow> string" where
  "digits_of_nat n =
     (if n < 10 then [char_of (48 + n)] else digits_of_nat (n div 10) @ [char_of (48 + n mod 10)])"

declare digits_of_nat.simps [simp del]

definition str_int :: "int \<Rightarrow> string" where
  "str_int i = (if i < 0 then ''-'' @ digits_of_nat (nat (- i)) else digits_of_nat (nat i))"

definition pow10 :: "int \<Rightarrow> rat" where
  "pow10 k = (if 0 \<le> k then 10 ^ nat k else 1 / 10 ^ nat (- k))"

text \<open>\<open>ilog10 x\<close>: the decimal exponent of a positive rational, found from its digit counts.\<close>

definition ilog10 :: "rat \<Rightarrow> int" where
  "ilog10 x = (let (n, d) = quotient_of x;
                   e = int (length (digits_of_nat (nat n))) - int (length (digits_of_nat (nat d)))
               in if pow10 e \<le> x then e else e - 1)"

text \<open>
  \<open>repr\<close> prints the shortest decimal that reads back as the same float: the digits for
  \<open>p\<close> significant places are tried for \<open>p = 1, 2, \<dots>\<close>; 17 places are always enough.
\<close>

fun shortest :: "nat \<Rightarrow> nat \<Rightarrow> rat \<Rightarrow> int \<times> nat" where
  "shortest 0 p x = (ilog10 x, nat (round_half_even (x / pow10 (ilog10 x - 16))))"
| "shortest (Suc k) p x =
     (let e = ilog10 x; m = round_half_even (x / pow10 (e - int p + 1));
          (e', m') = (if m = 10 ^ p then (e + 1, 10 ^ (p - 1)) else (e, m))
      in if rnd (of_int m' * pow10 (e' - int p + 1)) = Fin x then (e', nat m')
         else shortest k (Suc p) x)"

definition pad2 :: "string \<Rightarrow> string" where
  "pad2 s = (if length s < 2 then CHR ''0'' # s else s)"

definition repr_pos :: "rat \<Rightarrow> string" where
  "repr_pos x =
     (let (e, m) = shortest 17 1 x; ds = digits_of_nat m; pt = e + 1
      in if pt \<le> -4 \<or> 16 < pt then
           (if length ds = 1 then ds else [hd ds] @ ''.'' @ tl ds) @ ''e'' @
           (if e < 0 then ''-'' else ''+'') @ pad2 (digits_of_nat (nat \<bar>e\<bar>))
         else if pt \<le> 0 then ''0.'' @ replicate (nat (- pt)) (CHR ''0'') @ ds
         else if int (length ds) \<le> pt then ds @ replicate (nat pt - length ds) (CHR ''0'') @ ''.0''
         else take (nat pt) ds @ ''.'' @ drop (nat pt) ds)"

definition repr_float :: "pyfloat \<Rightarrow> string" where
  "repr_float f =
     (case f of
        Fin x \<Rightarrow> if x = 0 then ''0.0'' else if x < 0 then ''-'' @ repr_pos (- x) else repr_pos x
      | PInf \<Rightarrow> ''Infinity'' | NInf \<Rightarrow> ''-Infinity'' | NaN \<Rightarrow> ''NaN'')"

section \<open>Facts\<close>

lemma pow2_pos [simp]: "0 < pow2 k"
  by (simp add: pow2_def)

lemma round_half_even_nonneg: "0 \<le> x \<Longrightarrow> 0 \<le> round_half_even x"
  by (auto simp: round_half_even_def Let_def)

lemma rnd_nonneg:
  assumes "0 \<le> x"
  shows "rnd x = PInf \<or> (\<exists>v \<ge> 0. rnd x = Fin v)"
proof (cases "x = 0")
  case False
  define q where "q = pow2 (max (ilog2 \<bar>x\<bar> - 52) (-1074))"
  define v where "v = of_int (round_half_even (x / q)) * q"
  have q: "0 < q" by (simp add: q_def)
  then have "0 \<le> round_half_even (x / q)"
    using assms by (intro round_half_even_nonneg) simp
  with q have v: "0 \<le> v" by (simp add: v_def)
  have "\<not> v \<le> - (2 ^ 1024)" using v by (smt (verit) neg_0_le_iff_le not_numeral_le_zero
      order_trans power_eq_0_iff zero_le_power zero_neq_numeral order_antisym zero_le_numeral)
  with v False show ?thesis
    unfolding rnd_def Let_def q_def [symmetric] v_def [symmetric] by auto
qed (simp add: rnd_def)

lemma digits_of_nat_ne [simp]: "digits_of_nat n \<noteq> []"
  by (subst digits_of_nat.simps) simp

end
