(* ===== verification/Py_Text.thy ===== *)
theory Py_Text
  imports Py_Float "HOL-Library.Word"
begin

text \<open>
  Python \<open>str\<close> and \<open>bytes\<close> operations the program calls. A string is a list of code points;
  HOL's \<open>char\<close> covers the code points 0 to 255 (Latin-1), on which the character classes
  below agree with Python's Unicode tables. \<open>bytes\<close> are lists of 8-bit words.
\<close>

type_synonym bytes = "8 word list"

section \<open>Character classes\<close>

definition is_space :: "char \<Rightarrow> bool" where
  "is_space c = (let n = of_char c :: nat in
     (9 \<le> n \<and> n \<le> 13) \<or> (28 \<le> n \<and> n \<le> 32) \<or> n = 133 \<or> n = 160)"

definition is_printable :: "char \<Rightarrow> bool" where
  "is_printable c = (let n = of_char c :: nat in
     \<not> (n \<le> 31 \<or> (127 \<le> n \<and> n \<le> 160) \<or> n = 173))"

text \<open>\<open>str.isdigit\<close> accepts the superscript digits, which \<open>int()\<close> does not read.\<close>

definition is_decimal :: "char \<Rightarrow> bool" where
  "is_decimal c = (let n = of_char c :: nat in 48 \<le> n \<and> n \<le> 57)"

definition is_digit :: "char \<Rightarrow> bool" where
  "is_digit c = (is_decimal c \<or> (of_char c :: nat) \<in> {178, 179, 185})"

definition digit_val :: "char \<Rightarrow> nat" where
  "digit_val c = of_char c - 48"

definition py_isdigit :: "string \<Rightarrow> bool" where
  "py_isdigit s = (s \<noteq> [] \<and> list_all is_digit s)"

definition lower_char :: "char \<Rightarrow> char" where
  "lower_char c = (let n = of_char c :: nat in
     if (65 \<le> n \<and> n \<le> 90) \<or> (192 \<le> n \<and> n \<le> 222 \<and> n \<noteq> 215) then char_of (n + 32) else c)"

text \<open>
  Three Latin-1 letters have an upper-case form outside Latin-1 (or two letters); they are
  left alone here. The program only compares the result with a hexadecimal string, which
  contains none of them either way.
\<close>

definition upper_char :: "char \<Rightarrow> char" where
  "upper_char c = (let n = of_char c :: nat in
     if (97 \<le> n \<and> n \<le> 122) \<or> (224 \<le> n \<and> n \<le> 254 \<and> n \<noteq> 247) then char_of (n - 32) else c)"

definition py_lower :: "string \<Rightarrow> string" where
  "py_lower = map lower_char"

definition py_upper :: "string \<Rightarrow> string" where
  "py_upper = map upper_char"

section \<open>Stripping, splitting, searching\<close>

definition strip_by :: "(char \<Rightarrow> bool) \<Rightarrow> string \<Rightarrow> string" where
  "strip_by p s = rev (dropWhile p (rev (dropWhile p s)))"

definition py_strip :: "string \<Rightarrow> string" where
  "py_strip = strip_by is_space"

definition startswith :: "string \<Rightarrow> string \<Rightarrow> bool" where
  "startswith s p = (take (length p) s = p)"

fun contains_str :: "string \<Rightarrow> string \<Rightarrow> bool" where
  "contains_str [] p = (p = [])"
| "contains_str (c # s) p = (startswith (c # s) p \<or> contains_str s p)"

fun split_on :: "char \<Rightarrow> string \<Rightarrow> string list" where
  "split_on d [] = [[]]"
| "split_on d (c # s) =
     (if c = d then [] # split_on d s
      else case split_on d s of [] \<Rightarrow> [[c]] | w # ws \<Rightarrow> (c # w) # ws)"

definition is_line_break :: "char \<Rightarrow> bool" where
  "is_line_break c = ((of_char c :: nat) \<in> {10, 11, 12, 13, 28, 29, 30, 133})"

text \<open>\<open>str.splitlines\<close>: a carriage return followed by a line feed is one break, and a final break opens no line.\<close>

fun splitlines_acc :: "string \<Rightarrow> string \<Rightarrow> string list" where
  "splitlines_acc acc [] = (if acc = [] then [] else [rev acc])"
| "splitlines_acc acc [c] = (if is_line_break c then [rev acc] else [rev (c # acc)])"
| "splitlines_acc acc (c # d # s) =
     (if c = CHR 0x0D \<and> d = CHR 0x0A then rev acc # splitlines_acc [] s
      else if is_line_break c then rev acc # splitlines_acc [] (d # s)
      else splitlines_acc (c # acc) (d # s))"

definition py_splitlines :: "string \<Rightarrow> string list" where
  "py_splitlines = splitlines_acc []"

section \<open>Integers from text\<close>

definition int_space :: "char \<Rightarrow> bool" where
  "int_space c = (let n = of_char c :: nat in (9 \<le> n \<and> n \<le> 13) \<or> n = 32 \<or> n = 133 \<or> n = 160)"

text \<open>Digits with single underscores between them.\<close>

fun digit_run :: "string \<Rightarrow> string option" where
  "digit_run [] = None"
| "digit_run [c] = (if is_decimal c then Some [c] else None)"
| "digit_run (c # d # s) =
     (if \<not> is_decimal c then None
      else if d = CHR ''_'' then map_option ((#) c) (digit_run s)
      else map_option ((#) c) (digit_run (d # s)))"

definition nat_of_digits :: "string \<Rightarrow> nat" where
  "nat_of_digits s = foldl (\<lambda>a c. 10 * a + digit_val c) 0 s"

text \<open>
  \<open>int(s)\<close>: surrounding whitespace, a sign, digits; more than 4300 digits are refused
  (\<open>sys.int_info.default_max_str_digits\<close>).
\<close>

definition max_str_digits :: nat where
  "max_str_digits = 4300"

definition py_int_of_str :: "string \<Rightarrow> int option" where
  "py_int_of_str s =
     (let t = strip_by int_space s;
          (neg, u) = (case t of c # r \<Rightarrow> if c = CHR ''-'' then (True, r)
                                        else if c = CHR ''+'' then (False, r) else (False, t)
                      | [] \<Rightarrow> (False, []))
      in case digit_run u of
           None \<Rightarrow> None
         | Some ds \<Rightarrow> if max_str_digits < length ds then None
                      else Some (if neg then - int (nat_of_digits ds) else int (nat_of_digits ds)))"

section \<open>Bytes\<close>

definition utf8_len :: "string \<Rightarrow> nat" where
  "utf8_len s = sum_list (map (\<lambda>c. if (of_char c :: nat) < 128 then 1 else 2) s)"

definition hex_digit :: "nat \<Rightarrow> char" where
  "hex_digit n = (if n < 10 then char_of (48 + n) else char_of (55 + n))"

text \<open>\<open>bytes.hex().upper()\<close>.\<close>

fun hex_upper :: "bytes \<Rightarrow> string" where
  "hex_upper [] = []"
| "hex_upper (b # bs) = hex_digit (unat b div 16) # hex_digit (unat b mod 16) # hex_upper bs"

definition is_hex :: "char \<Rightarrow> bool" where
  "is_hex c = (let n = of_char c :: nat in
     (48 \<le> n \<and> n \<le> 57) \<or> (65 \<le> n \<and> n \<le> 70) \<or> (97 \<le> n \<and> n \<le> 102))"

definition is_upper_hex :: "char \<Rightarrow> bool" where
  "is_upper_hex c = (let n = of_char c :: nat in (48 \<le> n \<and> n \<le> 57) \<or> (65 \<le> n \<and> n \<le> 70))"

text \<open>\<open>bytes.fromhex\<close> succeeds: pairs of hexadecimal digits, ASCII whitespace only between pairs.\<close>

definition is_ascii_space :: "char \<Rightarrow> bool" where
  "is_ascii_space c = (let n = of_char c :: nat in (9 \<le> n \<and> n \<le> 13) \<or> n = 32)"

fun fromhex_ok :: "string \<Rightarrow> bool" where
  "fromhex_ok [] = True"
| "fromhex_ok [c] = is_ascii_space c"
| "fromhex_ok (c # d # s) =
     (if is_ascii_space c then fromhex_ok (d # s) else is_hex c \<and> is_hex d \<and> fromhex_ok s)"

section \<open>Base64\<close>

definition b64_val :: "char \<Rightarrow> nat option" where
  "b64_val c = (let n = of_char c :: nat in
     if 65 \<le> n \<and> n \<le> 90 then Some (n - 65)
     else if 97 \<le> n \<and> n \<le> 122 then Some (n - 71)
     else if 48 \<le> n \<and> n \<le> 57 then Some (n + 4)
     else if n = 43 then Some 62 else if n = 47 then Some 63 else None)"

definition is_b64 :: "char \<Rightarrow> bool" where
  "is_b64 c = (b64_val c \<noteq> None)"

definition sextet :: "char \<Rightarrow> nat" where
  "sextet c = (case b64_val c of Some v \<Rightarrow> v | None \<Rightarrow> 0)"

definition byte_of :: "nat \<Rightarrow> 8 word" where
  "byte_of n = word_of_nat n"

fun b64_bytes :: "string \<Rightarrow> bytes" where
  "b64_bytes (a # b # c # d # s) =
     (let n = sextet a * 262144 + sextet b * 4096 + sextet c * 64 + sextet d
      in byte_of (n div 65536) # byte_of (n div 256) # byte_of n # b64_bytes s)"
| "b64_bytes [a, b, c] =
     (let n = sextet a * 4096 + sextet b * 64 + sextet c in [byte_of (n div 1024), byte_of (n div 4)])"
| "b64_bytes [a, b] = [byte_of ((sextet a * 64 + sextet b) div 16)]"
| "b64_bytes _ = []"

text \<open>
  \<open>base64.b64decode(s, validate=True)\<close> as CPython 3.11 implements it: alphabet characters,
  then padding to a multiple of four (surplus padding after a complete group is accepted);
  \<open>None\<close> stands for the \<open>binascii.Error\<close> or \<open>ValueError\<close> every caller turns into one branch.
\<close>

definition b64decode :: "string \<Rightarrow> bytes option" where
  "b64decode s =
     (let ds = takeWhile is_b64 s; pad = dropWhile is_b64 s; n = length ds; p = length pad
      in if list_all (\<lambda>c. c = CHR ''='') pad \<and>
            ((n = 0 \<and> p = 0) \<or> (0 < n \<and> n mod 4 = 0) \<or> (n mod 4 = 2 \<and> p = 2) \<or> (n mod 4 = 3 \<and> p = 1))
         then Some (b64_bytes ds) else None)"

section \<open>Facts\<close>

lemma length_hex_upper [simp]: "length (hex_upper bs) = 2 * length bs"
  by (induction bs) auto

lemma hex_digit_upper: "n < 16 \<Longrightarrow> is_upper_hex (hex_digit n)"
  by (auto simp: hex_digit_def is_upper_hex_def of_char_of take_bit_nat_eq_self Let_def)

lemma unat_byte_div: "unat (b :: 8 word) div 16 < 16"
  using unsigned_less [of b, where ?'a = nat] by simp

lemma hex_upper_alphabet: "list_all is_upper_hex (hex_upper bs)"
  by (induction bs) (simp_all add: hex_digit_upper unat_byte_div)

lemma hex_digit_inj: "m < 16 \<Longrightarrow> n < 16 \<Longrightarrow> hex_digit m = hex_digit n \<Longrightarrow> m = n"
  by (simp add: hex_digit_def char_of_eq_iff of_char_of take_bit_nat_eq_self split: if_splits)

lemma hex_upper_inj: "hex_upper as = hex_upper bs \<Longrightarrow> as = bs"
proof (induction as arbitrary: bs)
  case Nil
  then show ?case by (cases bs) auto
next
  case (Cons a as)
  then obtain b bs' where bs: "bs = b # bs'" by (cases bs) auto
  with Cons.prems have "unat a div 16 = unat b div 16" "unat a mod 16 = unat b mod 16"
    by (auto intro: hex_digit_inj simp: unat_byte_div)
  then have "unat a = unat b" by (metis div_mult_mod_eq)
  then have "a = b" by (simp add: word_unat_eq_iff)
  with Cons bs show ?case by simp
qed

lemma upper_hex_upper_id: "is_upper_hex c \<Longrightarrow> upper_char c = c"
  by (auto simp: is_upper_hex_def upper_char_def Let_def)

lemma py_upper_hex_upper [simp]: "py_upper (hex_upper bs) = hex_upper bs"
  using hex_upper_alphabet [of bs]
  by (auto simp: py_upper_def list_all_iff upper_hex_upper_id intro: map_idI)

lemma upper_char_idem [simp]: "upper_char (upper_char c) = upper_char c"
proof -
  have "of_char c < (256 :: nat)" using nat_of_char_less_256 [of c] by simp
  then show ?thesis
    by (auto simp: upper_char_def Let_def of_char_of take_bit_nat_eq_self)
qed

lemma py_upper_idem [simp]: "py_upper (py_upper s) = py_upper s"
  by (simp add: py_upper_def)

lemma length_py_upper [simp]: "length (py_upper s) = length s"
  by (simp add: py_upper_def)

lemma length_b64_bytes: "length (b64_bytes s) = 3 * length s div 4"
  by (induction s rule: b64_bytes.induct) (auto simp: Let_def)

lemma not_b64_pad [simp]: "\<not> is_b64 (CHR ''='')"
  by (simp add: is_b64_def b64_val_def)

lemma b64decode_pad1:
  assumes "list_all is_b64 ds" and "length ds mod 4 = 3"
  shows "b64decode (ds @ ''='') = Some (b64_bytes ds)"
proof -
  have "takeWhile is_b64 (ds @ ''='') = ds" "dropWhile is_b64 (ds @ ''='') = ''=''"
    using assms(1) by (auto simp: takeWhile_append dropWhile_append list_all_iff)
  with assms(2) show ?thesis by (simp add: b64decode_def)
qed

lemma b64decode_pad2:
  assumes "list_all is_b64 ds" and "length ds mod 4 = 2"
  shows "b64decode (ds @ ''=='') = Some (b64_bytes ds)"
proof -
  have "takeWhile is_b64 (ds @ ''=='') = ds" "dropWhile is_b64 (ds @ ''=='') = ''==''"
    using assms(1) by (auto simp: takeWhile_append dropWhile_append list_all_iff)
  with assms(2) show ?thesis by (simp add: b64decode_def)
qed

end
