(* ===== verification/Py_Json.thy ===== *)
theory Py_Json
  imports Py_Text
begin

text \<open>
  JSON-shaped Python values (what \<open>json.loads\<close> returns, and \<open>None\<close> as \<open>JNull\<close>) and the
  operations on them: truthiness, \<open>dict.get\<close>, equality across numeric types, \<open>len\<close>,
  iteration, \<open>int()\<close>, hashing and \<open>json.dumps\<close>. An object is the list of its items in
  insertion order; its keys are distinct.
\<close>

datatype json =
    JNull
  | JBool bool
  | JInt int
  | JFloat pyfloat
  | JStr string
  | JList "json list"
  | JObj "(string \<times> json) list"

type_synonym jobj = "(string \<times> json) list"

section \<open>Truth, lookup\<close>

fun truthy :: "json \<Rightarrow> bool" where
  "truthy JNull = False"
| "truthy (JBool b) = b"
| "truthy (JInt i) = (i \<noteq> 0)"
| "truthy (JFloat f) = (f \<noteq> Fin 0)"
| "truthy (JStr s) = (s \<noteq> [])"
| "truthy (JList xs) = (xs \<noteq> [])"
| "truthy (JObj kvs) = (kvs \<noteq> [])"

text \<open>\<open>a or b\<close>.\<close>

definition py_or :: "json \<Rightarrow> json \<Rightarrow> json" where
  "py_or a b = (if truthy a then a else b)"

definition is_dict :: "json \<Rightarrow> bool" where
  "is_dict j = (case j of JObj _ \<Rightarrow> True | _ \<Rightarrow> False)"

definition is_list :: "json \<Rightarrow> bool" where
  "is_list j = (case j of JList _ \<Rightarrow> True | _ \<Rightarrow> False)"

definition is_str :: "json \<Rightarrow> bool" where
  "is_str j = (case j of JStr _ \<Rightarrow> True | _ \<Rightarrow> False)"

text \<open>\<open>d.get(k)\<close> and \<open>d.get(k, default)\<close> on a dict.\<close>

definition oget :: "jobj \<Rightarrow> string \<Rightarrow> json" where
  "oget kvs k = (case map_of kvs k of None \<Rightarrow> JNull | Some v \<Rightarrow> v)"

definition oget_default :: "jobj \<Rightarrow> string \<Rightarrow> json \<Rightarrow> json" where
  "oget_default kvs k d = (case map_of kvs k of None \<Rightarrow> d | Some v \<Rightarrow> v)"

text \<open>The same on a value that may not be a dict: Python raises \<open>AttributeError\<close>.\<close>

definition as_dict :: "json \<Rightarrow> jobj res" where
  "as_dict j = (case j of JObj kvs \<Rightarrow> Inr kvs | _ \<Rightarrow> Inl AttributeError)"

definition jget :: "json \<Rightarrow> string \<Rightarrow> json res" where
  "jget j k = bindE (as_dict j) (\<lambda>kvs. Inr (oget kvs k))"

definition jget_default :: "json \<Rightarrow> string \<Rightarrow> json \<Rightarrow> json res" where
  "jget_default j k d = bindE (as_dict j) (\<lambda>kvs. Inr (oget_default kvs k d))"

text \<open>\<open>d[k]\<close>: \<open>KeyError\<close> on a dict, \<open>TypeError\<close> on what has no string subscript.\<close>

definition jsub :: "json \<Rightarrow> string \<Rightarrow> json res" where
  "jsub j k = (case j of JObj kvs \<Rightarrow> (case map_of kvs k of None \<Rightarrow> Inl KeyError | Some v \<Rightarrow> Inr v)
               | _ \<Rightarrow> Inl TypeError)"

text \<open>\<open>isinstance\<close> guards that raise their own exception.\<close>

definition dict_or :: "py_error \<Rightarrow> json \<Rightarrow> jobj res" where
  "dict_or e j = (case j of JObj kvs \<Rightarrow> Inr kvs | _ \<Rightarrow> Inl e)"

definition list_or :: "py_error \<Rightarrow> json \<Rightarrow> json list res" where
  "list_or e j = (case j of JList xs \<Rightarrow> Inr xs | _ \<Rightarrow> Inl e)"

definition str_or :: "py_error \<Rightarrow> json \<Rightarrow> string res" where
  "str_or e j = (case j of JStr s \<Rightarrow> Inr s | _ \<Rightarrow> Inl e)"

lemma kind_or_Inr_iff [res_simps]:
  "dict_or e j = Inr kvs \<longleftrightarrow> j = JObj kvs"
  "list_or e j = Inr xs \<longleftrightarrow> j = JList xs"
  "str_or e j = Inr s \<longleftrightarrow> j = JStr s"
  by (cases j; simp add: dict_or_def list_or_def str_or_def)+

lemma kind_or_simps [simp]:
  "dict_or e (JObj kvs) = Inr kvs"
  "list_or e (JList xs) = Inr xs"
  "str_or e (JStr s) = Inr s"
  by (simp_all add: dict_or_def list_or_def str_or_def)

section \<open>Equality, hashing, length, iteration\<close>

fun num_val :: "json \<Rightarrow> pyfloat option" where
  "num_val (JBool b) = Some (Fin (if b then 1 else 0))"
| "num_val (JInt i) = Some (Fin (of_int i))"
| "num_val (JFloat f) = Some f"
| "num_val _ = None"

lemma size_obj_value [termination_simp]: "(k, v) \<in> set kvs \<Longrightarrow> size v < Suc (size_list (size_prod (\<lambda>_. 0) size) kvs)"
  by (induction kvs) auto

lemma size_list_item [termination_simp]: "v \<in> set xs \<Longrightarrow> size v < Suc (size_list size xs)"
  by (induction xs) auto

lemma size_zip_item [termination_simp]: "(a, b) \<in> set (zip xs ys) \<Longrightarrow> size a < Suc (size_list size xs)"
  by (auto dest: set_zip_leftD size_list_item)

text \<open>\<open>==\<close>: numbers by value across \<open>bool\<close>, \<open>int\<close> and \<open>float\<close>; dicts regardless of order.\<close>

fun py_eq :: "json \<Rightarrow> json \<Rightarrow> bool" where
  "py_eq JNull b = (b = JNull)"
| "py_eq (JStr s) b = (b = JStr s)"
| "py_eq (JList xs) b =
     (case b of JList ys \<Rightarrow> length xs = length ys \<and> (\<forall>(x, y) \<in> set (zip xs ys). py_eq x y)
      | _ \<Rightarrow> False)"
| "py_eq (JObj xs) b =
     (case b of JObj ys \<Rightarrow> length xs = length ys \<and>
        (\<forall>(k, v) \<in> set xs. case map_of ys k of None \<Rightarrow> False | Some w \<Rightarrow> py_eq v w)
      | _ \<Rightarrow> False)"
| "py_eq a b = (case (num_val a, num_val b) of (Some f, Some g) \<Rightarrow> f = g \<and> f \<noteq> NaN | _ \<Rightarrow> False)"

definition is_hashable :: "json \<Rightarrow> bool" where
  "is_hashable j = (\<not> is_dict j \<and> \<not> is_list j)"

text \<open>\<open>x in S\<close> for a set of strings: unhashable operands raise \<open>TypeError\<close>.\<close>

definition in_str_set :: "json \<Rightarrow> string list \<Rightarrow> bool res" where
  "in_str_set j S = (if is_hashable j then Inr (\<exists>s \<in> set S. j = JStr s) else Inl TypeError)"

definition py_len :: "json \<Rightarrow> nat res" where
  "py_len j = (case j of JStr s \<Rightarrow> Inr (length s) | JList xs \<Rightarrow> Inr (length xs)
               | JObj kvs \<Rightarrow> Inr (length kvs) | _ \<Rightarrow> Inl TypeError)"

definition py_iter :: "json \<Rightarrow> json list res" where
  "py_iter j = (case j of JList xs \<Rightarrow> Inr xs | JStr s \<Rightarrow> Inr (map (\<lambda>c. JStr [c]) s)
                | JObj kvs \<Rightarrow> Inr (map (\<lambda>kv. JStr (fst kv)) kvs) | _ \<Rightarrow> Inl TypeError)"

text \<open>\<open>int(v)\<close> with the exceptions it raises.\<close>

definition trunc_rat :: "rat \<Rightarrow> int" where
  "trunc_rat r = (if 0 \<le> r then \<lfloor>r\<rfloor> else \<lceil>r\<rceil>)"

definition py_int :: "json \<Rightarrow> int res" where
  "py_int j =
     (case j of
        JInt i \<Rightarrow> Inr i
      | JBool b \<Rightarrow> Inr (if b then 1 else 0)
      | JFloat f \<Rightarrow> (case f of Fin r \<Rightarrow> Inr (trunc_rat r) | NaN \<Rightarrow> Inl (ValueError ''cannot convert'')
                     | _ \<Rightarrow> Inl OverflowError)
      | JStr s \<Rightarrow> (case py_int_of_str s of Some i \<Rightarrow> Inr i | None \<Rightarrow> Inl (ValueError ''invalid literal''))
      | _ \<Rightarrow> Inl TypeError)"

section \<open>json.dumps\<close>

definition lower_hex_digit :: "nat \<Rightarrow> char" where
  "lower_hex_digit n = (if n < 10 then char_of (48 + n) else char_of (87 + n))"

definition u_escape :: "char \<Rightarrow> string" where
  "u_escape c = (let n = of_char c :: nat in
     [CHR 0x5C] @ ''u00'' @ [lower_hex_digit (n div 16), lower_hex_digit (n mod 16)])"

definition esc_char :: "bool \<Rightarrow> char \<Rightarrow> string" where
  "esc_char ascii c =
     (let n = of_char c :: nat in
      if n = 34 then [CHR 0x5C, c] else if n = 92 then [CHR 0x5C, c]
      else if n = 10 then [CHR 0x5C, CHR ''n''] else if n = 13 then [CHR 0x5C, CHR ''r'']
      else if n = 9 then [CHR 0x5C, CHR ''t''] else if n = 12 then [CHR 0x5C, CHR ''f'']
      else if n = 8 then [CHR 0x5C, CHR ''b'']
      else if n < 32 \<or> (ascii \<and> 126 < n) then u_escape c else [c])"

definition quote_str :: "bool \<Rightarrow> string \<Rightarrow> string" where
  "quote_str ascii s = [CHR 0x22] @ concat (map (esc_char ascii) s) @ [CHR 0x22]"

fun join_with :: "string \<Rightarrow> string list \<Rightarrow> string" where
  "join_with sep [] = []"
| "join_with sep [x] = x"
| "join_with sep (x # xs) = x @ sep @ join_with sep xs"

text \<open>The formatting arguments of \<open>json.dumps\<close>.\<close>

record dump_opts =
  ensure_ascii :: bool
  item_sep :: string
  key_sep :: string
  sort_keys :: bool

definition default_opts :: dump_opts where
  "default_opts = \<lparr>ensure_ascii = True, item_sep = '', '', key_sep = '': '', sort_keys = False\<rparr>"

definition compact_opts :: dump_opts where
  "compact_opts = \<lparr>ensure_ascii = True, item_sep = '','', key_sep = '':'', sort_keys = False\<rparr>"

fun json_dumps :: "dump_opts \<Rightarrow> json \<Rightarrow> string" where
  "json_dumps p JNull = ''null''"
| "json_dumps p (JBool b) = (if b then ''true'' else ''false'')"
| "json_dumps p (JInt i) = str_int i"
| "json_dumps p (JFloat f) = repr_float f"
| "json_dumps p (JStr s) = quote_str (ensure_ascii p) s"
| "json_dumps p (JList xs) = ''['' @ join_with (item_sep p) (map (json_dumps p) xs) @ '']''"
| "json_dumps p (JObj kvs) =
     (let items = map (\<lambda>(k, v). (k, quote_str (ensure_ascii p) k @ key_sep p @ json_dumps p v)) kvs
      in ''{'' @ join_with (item_sep p) (map snd (if sort_keys p then sort_key fst items else items)) @ ''}'')"

section \<open>Facts\<close>

lemma oget_simps [simp]:
  "oget [] k = JNull"
  "oget ((a, v) # kvs) k = (if k = a then v else oget kvs k)"
  by (simp_all add: oget_def)

lemma oget_default_simps [simp]:
  "oget_default [] k d = d"
  "oget_default ((a, v) # kvs) k d = (if k = a then v else oget_default kvs k d)"
  by (simp_all add: oget_default_def)

lemma as_dict_simps [simp]:
  "as_dict (JObj kvs) = Inr kvs"
  "as_dict JNull = Inl AttributeError"
  "as_dict (JStr s) = Inl AttributeError"
  "as_dict (JInt i) = Inl AttributeError"
  "as_dict (JBool b) = Inl AttributeError"
  "as_dict (JList xs) = Inl AttributeError"
  "as_dict (JFloat f) = Inl AttributeError"
  by (simp_all add: as_dict_def)

lemma as_dict_Inr_iff [res_simps]: "as_dict j = Inr kvs \<longleftrightarrow> j = JObj kvs"
  by (cases j) auto

lemma jget_obj [simp]: "jget (JObj kvs) k = Inr (oget kvs k)"
  by (simp add: jget_def)

lemma jget_default_obj [simp]: "jget_default (JObj kvs) k d = Inr (oget_default kvs k d)"
  by (simp add: jget_default_def)

lemma jsub_obj [simp]:
  "jsub (JObj kvs) k = (case map_of kvs k of None \<Rightarrow> Inl KeyError | Some v \<Rightarrow> Inr v)"
  by (simp add: jsub_def)

lemma kind_simps [simp]:
  "is_dict (JObj kvs)" "\<not> is_dict JNull" "\<not> is_dict (JStr s)" "\<not> is_dict (JInt i)"
  "\<not> is_dict (JBool b)" "\<not> is_dict (JList xs)" "\<not> is_dict (JFloat f)"
  "is_list (JList xs)" "\<not> is_list JNull" "\<not> is_list (JStr s)" "\<not> is_list (JInt i)"
  "\<not> is_list (JBool b)" "\<not> is_list (JObj kvs)" "\<not> is_list (JFloat f)"
  "is_str (JStr s)" "\<not> is_str JNull" "\<not> is_str (JList xs)" "\<not> is_str (JInt i)"
  "\<not> is_str (JBool b)" "\<not> is_str (JObj kvs)" "\<not> is_str (JFloat f)"
  by (simp_all add: is_dict_def is_list_def is_str_def)

lemma kind_iff:
  "is_dict j \<longleftrightarrow> (\<exists>kvs. j = JObj kvs)"
  "is_list j \<longleftrightarrow> (\<exists>xs. j = JList xs)"
  "is_str j \<longleftrightarrow> (\<exists>s. j = JStr s)"
  by (cases j; simp)+

lemma py_or_truthy [simp]: "truthy a \<Longrightarrow> py_or a b = a"
  by (simp add: py_or_def)

lemma py_or_falsy [simp]: "\<not> truthy a \<Longrightarrow> py_or a b = b"
  by (simp add: py_or_def)

text \<open>
  Equality is reflexive on values with distinct object keys and no NaN, which is what makes
  the re-processing of stored data conflict-free.
\<close>

fun json_wf :: "json \<Rightarrow> bool" where
  "json_wf (JFloat f) = (f \<noteq> NaN)"
| "json_wf (JList xs) = (\<forall>x \<in> set xs. json_wf x)"
| "json_wf (JObj kvs) = (distinct (map fst kvs) \<and> (\<forall>(k, v) \<in> set kvs. json_wf v))"
| "json_wf _ = True"

lemma py_eq_refl: "json_wf j \<Longrightarrow> py_eq j j"
proof (induction j rule: json_wf.induct)
  case (2 xs)
  then show ?case by (auto simp: zip_same)
next
  case (3 kvs)
  then show ?case by fastforce
qed auto

end
