(* ===== verification/Inspect_Rpc.thy ===== *)
theory Inspect_Rpc
  imports Py_Json
begin

text \<open>
  \<open>scripts/inspect_rpc.py\<close>: the payload parsers every indexer component shares, the signing
  summary, the environment readers and the pooled HTTP client. A payload is the JSON object
  \<open>GnoRpcClient.get\<close> returns; what the HTTP exchange itself yields is an input
  (\<open>http_outcome\<close>).
\<close>

section \<open>Small readers\<close>

definition result :: "jobj \<Rightarrow> jobj" where
  "result payload = (case oget_default payload ''result'' (JObj payload) of JObj d \<Rightarrow> d | _ \<Rightarrow> [])"

text \<open>\<open>TypeError\<close> and \<open>ValueError\<close> become \<open>None\<close>; the \<open>OverflowError\<close> of an infinite float escapes.\<close>

definition to_int :: "json \<Rightarrow> int option res" where
  "to_int v = (case py_int v of
      Inr i \<Rightarrow> Inr (Some i)
    | Inl TypeError \<Rightarrow> Inr None
    | Inl (ValueError m) \<Rightarrow> Inr None
    | Inl e \<Rightarrow> Inl e)"

definition decode_base64 :: "json \<Rightarrow> bytes res" where
  "decode_base64 v =
     (case v of
        JStr s \<Rightarrow> if s = [] then Inl (RpcError ''Malformed RPC response: missing '')
                  else (case b64decode s of
                          None \<Rightarrow> Inl (RpcError ''Malformed RPC response: invalid base64 in '')
                        | Some bs \<Rightarrow> Inr bs)
      | _ \<Rightarrow> Inl (RpcError ''Malformed RPC response: missing ''))"

definition validate_payload :: "json \<Rightarrow> jobj res" where
  "validate_payload payload =
     (case payload of
        JObj kvs \<Rightarrow> if truthy (oget kvs ''error'') then Inl (RpcError ''RPC returned an error for '')
                    else Inr kvs
      | _ \<Rightarrow> Inl (RpcError ''RPC response for ''))"

section \<open>Status\<close>

record status =
  st_chain_id :: json
  st_latest_height :: "int option"
  st_node_version :: json
  st_catching_up :: json

definition parse_status :: "jobj \<Rightarrow> status res" where
  "parse_status payload =
     (let data = result payload;
          node_info = py_or (oget data ''node_info'') (JObj []);
          sync_info = py_or (oget data ''sync_info'') (JObj [])
      in bindE (jget node_info ''network'') (\<lambda>chain.
         bindE (jget sync_info ''latest_block_height'') (\<lambda>raw.
         bindE (to_int raw) (\<lambda>height.
         bindE (if truthy (oget data ''build_version'') then Inr (oget data ''build_version'')
                else jget node_info ''version'') (\<lambda>version.
         bindE (jget sync_info ''catching_up'') (\<lambda>catching.
         Inr \<lparr>st_chain_id = chain, st_latest_height = height, st_node_version = version,
              st_catching_up = catching\<rparr>))))))"

definition validate_status_for_health :: "status \<Rightarrow> string \<Rightarrow> unit res" where
  "validate_status_for_health st expected =
     bindE (guardE (truthy (st_chain_id st)) (RpcError ''malformed status: missing chain ID'')) (\<lambda>_.
     bindE (guardE (st_latest_height st \<noteq> None) (RpcError ''malformed status: missing latest height'')) (\<lambda>_.
     bindE (guardE (st_catching_up st = JBool True \<or> st_catching_up st = JBool False)
              (RpcError ''malformed status: missing catching_up boolean'')) (\<lambda>_.
     bindE (guardE (st_chain_id st = JStr expected) (RpcError ''wrong chain ID: expected '')) (\<lambda>_.
     guardE (st_catching_up st \<noteq> JBool True) (RpcError ''endpoint is catching up'')))))"

section \<open>Block\<close>

record raw_tx =
  rt_index :: nat
  rt_raw_base64 :: string
  rt_encoded_size_chars :: nat
  rt_decoded_size_bytes :: nat
  rt_raw_preview :: string
  rt_base64_decoded :: bool

text \<open>A transaction that is not a string is printed with \<open>json.dumps(tx, sort_keys=True)\<close>.\<close>

definition tx_text :: "json \<Rightarrow> string" where
  "tx_text tx = (case tx of JStr s \<Rightarrow> s | _ \<Rightarrow> json_dumps (default_opts\<lparr>sort_keys := True\<rparr>) tx)"

definition parse_transactions :: "json list \<Rightarrow> raw_tx list" where
  "parse_transactions txs =
     map (\<lambda>(i, tx). let s = tx_text tx; d = b64decode s in
            \<lparr>rt_index = i, rt_raw_base64 = s, rt_encoded_size_chars = length s,
             rt_decoded_size_bytes = (case d of None \<Rightarrow> 0 | Some bs \<Rightarrow> length bs),
             rt_raw_preview = take 120 s, rt_base64_decoded = (d \<noteq> None)\<rparr>) (enum0 txs)"

record block_info =
  bi_hash_base64 :: string
  bi_hash_hex :: string
  bi_height :: "int option"
  bi_time :: json
  bi_proposer_address :: json
  bi_tx_count :: int
  bi_transactions :: "raw_tx list"

definition legacy_parse_block :: "jobj \<Rightarrow> block_info res" where
  "legacy_parse_block payload =
     (let data = result payload; block = py_or (oget data ''block'') (JObj []) in
      bindE (jget block ''header'') (\<lambda>h. let header = py_or h (JObj []) in
      bindE (jget_default block ''data'' (JObj [])) (\<lambda>bdata.
      bindE (jget bdata ''txs'') (\<lambda>t. let txs = py_or t (JList []) in
      bindE (jget_default (oget_default data ''block_meta'' (JObj [])) ''block_id'' (JObj [])) (\<lambda>bid.
      bindE (jget bid ''hash'') (\<lambda>hash.
      bindE (decode_base64 hash) (\<lambda>hash_bytes.
      bindE (jget header ''num_txs'') (\<lambda>n.
      bindE (to_int n) (\<lambda>num_txs.
      case num_txs of
        None \<Rightarrow> Inl (RpcError ''Malformed block response: missing result.block.header.num_txs'')
      | Some k \<Rightarrow>
          bindE (py_len txs) (\<lambda>len.
          bindE (guardE (k = int len) (RpcError ''Block transaction count mismatch: header num_txs='')) (\<lambda>_.
          bindE (jget header ''height'') (\<lambda>rh.
          bindE (to_int rh) (\<lambda>height.
          bindE (jget header ''time'') (\<lambda>time.
          bindE (jget header ''proposer_address'') (\<lambda>proposer.
          bindE (py_iter txs) (\<lambda>items.
          Inr \<lparr>bi_hash_base64 = (case hash of JStr s \<Rightarrow> s | _ \<Rightarrow> []),
               bi_hash_hex = hex_upper hash_bytes, bi_height = height, bi_time = time,
               bi_proposer_address = proposer, bi_tx_count = k,
               bi_transactions = parse_transactions items\<rparr>))))))))))))))))"

section \<open>Commit and validators\<close>

record commit_info =
  ci_height :: int
  ci_header_height :: int
  ci_precommits :: "json list"
  ci_canonical :: bool

definition parse_commit :: "jobj \<Rightarrow> commit_info res" where
  "parse_commit payload =
     (let data = result payload in
      case oget data ''signed_header'' of
        JObj sh \<Rightarrow>
          (case (oget sh ''header'', oget sh ''commit'') of
             (JObj header, JObj commit) \<Rightarrow>
               (case oget commit ''precommits'' of
                  JList precommits \<Rightarrow>
                    bindE (to_int (oget header ''height'')) (\<lambda>h.
                    case h of
                      None \<Rightarrow> Inl (RpcError ''Malformed commit response: missing signed_header.header.height'')
                    | Some height \<Rightarrow>
                        (case oget data ''canonical'' of
                           JBool c \<Rightarrow> Inr \<lparr>ci_height = height, ci_header_height = height,
                                           ci_precommits = precommits, ci_canonical = c\<rparr>
                         | _ \<Rightarrow> Inl (RpcError ''Malformed commit response: result.canonical must be a boolean'')))
                | _ \<Rightarrow> Inl (RpcError ''Malformed commit response: missing signed_header.commit.precommits''))
           | _ \<Rightarrow> Inl (RpcError ''Malformed commit response: missing signed_header.header or signed_header.commit''))
      | _ \<Rightarrow> Inl (RpcError ''Malformed commit response: missing result.signed_header''))"

definition after_last_dot :: "string \<Rightarrow> string" where
  "after_last_dot s = rev (takeWhile (\<lambda>c. c \<noteq> CHR ''.'') (rev s))"

definition normalize_pub_key_type :: "json \<Rightarrow> string option" where
  "normalize_pub_key_type t =
     (case t of
        JStr s \<Rightarrow> if s = ''/tm.PubKeyEd25519'' then Some ''Ed25519''
                  else Some (dropWhile (\<lambda>c. c = CHR ''/'') (after_last_dot s))
      | _ \<Rightarrow> None)"

record validator_info =
  vi_address :: json
  vi_voting_power :: "int option"
  vi_proposer_priority :: "int option"
  vi_pub_key_type :: json
  vi_pub_key_display_type :: "string option"
  vi_pub_key_value :: json

definition parse_validator :: "json \<Rightarrow> validator_info res" where
  "parse_validator val =
     bindE (jget val ''pub_key'') (\<lambda>pk. let pub_key = py_or pk (JObj []) in
     bindE (jget val ''address'') (\<lambda>address.
     bindE (jget val ''voting_power'') (\<lambda>vp. bindE (to_int vp) (\<lambda>power.
     bindE (jget val ''proposer_priority'') (\<lambda>pp. bindE (to_int pp) (\<lambda>priority.
     bindE (jget pub_key ''@type'') (\<lambda>t1.
     bindE (if truthy t1 then Inr t1 else jget pub_key ''type'') (\<lambda>ktype.
     bindE (jget pub_key ''value'') (\<lambda>kval.
     Inr \<lparr>vi_address = address, vi_voting_power = power, vi_proposer_priority = priority,
          vi_pub_key_type = ktype, vi_pub_key_display_type = normalize_pub_key_type ktype,
          vi_pub_key_value = kval\<rparr>)))))))))"

record validators_info =
  vs_block_height :: int
  vs_total :: "int option"
  vs_validators :: "validator_info list"

definition parse_validators :: "jobj \<Rightarrow> validators_info res" where
  "parse_validators payload =
     (let data = result payload in
      bindE (py_iter (py_or (oget data ''validators'') (JList []))) (\<lambda>vals.
      bindE (mapE parse_validator vals) (\<lambda>parsed.
      bindE (to_int (oget data ''block_height'')) (\<lambda>h.
      case h of
        None \<Rightarrow> Inl (RpcError ''Malformed validators response: missing result.block_height'')
      | Some height \<Rightarrow>
          bindE (to_int (oget data ''total'')) (\<lambda>total.
          Inr \<lparr>vs_block_height = height, vs_total = total, vs_validators = parsed\<rparr>)))))"

section \<open>Signers\<close>

definition signer_address :: "json \<Rightarrow> json" where
  "signer_address sig =
     (case sig of JObj kvs \<Rightarrow> py_or (oget kvs ''validator_address'') (oget kvs ''address'') | _ \<Rightarrow> JNull)"

definition signature_signed :: "json \<Rightarrow> bool" where
  "signature_signed sig =
     (case sig of
        JObj kvs \<Rightarrow>
          if oget kvs ''absent'' = JBool True then False
          else if truthy (oget kvs ''signature'') then True
          else py_eq (oget kvs ''block_id_flag'') (JInt 2) \<or>
               oget kvs ''block_id_flag'' \<in> {JStr ''2'', JStr ''BLOCK_ID_FLAG_COMMIT'', JStr ''BlockIDFlagCommit''}
      | _ \<Rightarrow> False)"

text \<open>A set of hashable values, and membership in it; unhashable members raise \<open>TypeError\<close>.\<close>

definition hash_all :: "json list \<Rightarrow> json list res" where
  "hash_all xs = (if list_all is_hashable xs then Inr xs else Inl TypeError)"

definition in_set :: "json \<Rightarrow> json list \<Rightarrow> bool res" where
  "in_set x S = (if is_hashable x then Inr (list_ex (py_eq x) S) else Inl TypeError)"

definition filterE :: "('a \<Rightarrow> bool res) \<Rightarrow> 'a list \<Rightarrow> 'a list res" where
  "filterE p xs = bindE (mapE (\<lambda>x. bindE (p x) (\<lambda>b. Inr (b, x))) xs)
                        (\<lambda>bxs. Inr (map snd (filter fst bxs)))"

section \<open>Signing summary\<close>

record rpc_summary =
  su_chain_id :: json
  su_latest_height :: int
  su_signing_height :: int
  su_block :: block_info
  su_validators_height :: int
  su_commit_height :: int
  su_canonical :: bool
  su_validators :: "validator_info list"
  su_commit_signatures :: "json list"
  su_signed_validators :: "validator_info list"
  su_missed_validators :: "validator_info list"

definition build_summary :: "jobj \<Rightarrow> jobj \<Rightarrow> jobj \<Rightarrow> jobj \<Rightarrow> rpc_summary res" where
  "build_summary status_payload block_payload commit_payload validators_payload =
     bindE (parse_status status_payload) (\<lambda>st.
     bindE (legacy_parse_block block_payload) (\<lambda>block.
     bindE (parse_commit commit_payload) (\<lambda>commit.
     bindE (parse_validators validators_payload) (\<lambda>vd.
     case (if st_latest_height st \<in> {None, Some 0} then bi_height block else st_latest_height st) of
       None \<Rightarrow> Inl (RpcError ''Latest height is unavailable'')
     | Some latest \<Rightarrow>
         (let signing = latest - 1; vals = vs_validators vd in
          bindE (guardE (1 \<le> signing) (RpcError ''Latest height is too low for H-1 signing analysis'')) (\<lambda>_.
          bindE (guardE (ci_height commit = signing) (RpcError ''Commit height mismatch: expected '')) (\<lambda>_.
          bindE (guardE (vs_block_height vd = signing) (RpcError ''Validator-set height mismatch: expected '')) (\<lambda>_.
          bindE (hash_all (map signer_address
                   (filter (\<lambda>sig. truthy (signer_address sig) \<and> signature_signed sig) (ci_precommits commit)))) (\<lambda>signed.
          bindE (hash_all (filter truthy (map vi_address vals))) (\<lambda>all.
          bindE (filterE (\<lambda>v. in_set (vi_address v) signed) vals) (\<lambda>signed_vals.
          bindE (filterE (\<lambda>v. in_set (vi_address v) (filter (\<lambda>a. \<not> list_ex (py_eq a) signed) all)) vals) (\<lambda>missed_vals.
          Inr \<lparr>su_chain_id = st_chain_id st, su_latest_height = latest, su_signing_height = signing,
               su_block = block, su_validators_height = vs_block_height vd, su_commit_height = ci_height commit,
               su_canonical = ci_canonical commit, su_validators = vals,
               su_commit_signatures = ci_precommits commit, su_signed_validators = signed_vals,
               su_missed_validators = missed_vals\<rparr>))))))))))))"

text \<open>\<open>fetch_summary\<close>: the block of the latest height, commit and validators one height below.\<close>

definition fetch_summary :: "(string \<Rightarrow> int \<Rightarrow> jobj res) \<Rightarrow> jobj \<Rightarrow> rpc_summary res" where
  "fetch_summary get status_payload =
     bindE (parse_status status_payload) (\<lambda>st.
     case st_latest_height st of
       None \<Rightarrow> Inl (RpcError ''/status did not include latest_block_height'')
     | Some latest \<Rightarrow>
         bindE (guardE (1 \<le> latest - 1) (RpcError ''Latest height is too low for H-1 signing analysis'')) (\<lambda>_.
         bindE (get ''block'' latest) (\<lambda>block.
         bindE (get ''commit'' (latest - 1)) (\<lambda>commit.
         bindE (get ''validators'' (latest - 1)) (\<lambda>validators.
         build_summary status_payload block commit validators)))))"

section \<open>Environment\<close>

type_synonym env = "string \<rightharpoonup> string"

definition env_get :: "env \<Rightarrow> string \<Rightarrow> string \<Rightarrow> string" where
  "env_get e k d = (case e k of None \<Rightarrow> d | Some v \<Rightarrow> v)"

definition strip_char :: "char \<Rightarrow> string \<Rightarrow> string" where
  "strip_char c = strip_by (\<lambda>x. x = c)"

definition load_dotenv_line :: "env \<Rightarrow> string \<Rightarrow> env" where
  "load_dotenv_line e line =
     (let stripped = py_strip line in
      if stripped = [] \<or> startswith stripped ''#'' \<or> CHR ''='' \<notin> set stripped then e
      else let key = py_strip (takeWhile (\<lambda>c. c \<noteq> CHR ''='') stripped);
               value = strip_char (CHR 0x27) (strip_char (CHR 0x22)
                         (py_strip (tl (dropWhile (\<lambda>c. c \<noteq> CHR ''='') stripped))))
           in if key \<noteq> [] \<and> e key = None then e(key \<mapsto> value) else e)"

text \<open>The file is \<open>None\<close> when \<open>.env\<close> does not exist.\<close>

definition load_dotenv :: "string option \<Rightarrow> env \<Rightarrow> env" where
  "load_dotenv file e = (case file of None \<Rightarrow> e | Some text \<Rightarrow> foldl load_dotenv_line e (py_splitlines text))"

definition configured_rpc_urls :: "env \<Rightarrow> string list" where
  "configured_rpc_urls e =
     (let urls = filter (\<lambda>u. u \<noteq> []) (map py_strip (split_on (CHR '','') (env_get e ''GNO_RPC_URLS'' [])));
          legacy = py_strip (env_get e ''GNO_RPC_URL'' [])
      in if urls = [] \<and> legacy \<noteq> [] then [legacy] else urls)"

definition configured_chain_id :: "env \<Rightarrow> string" where
  "configured_chain_id e =
     (let v = py_strip (env_get e ''GNO_CHAIN_ID'' ''pearl-1'') in if v = [] then ''pearl-1'' else v)"

definition configured_max_height_lag :: "env \<Rightarrow> int res" where
  "configured_max_height_lag e =
     (case py_int_of_str (py_strip (env_get e ''RPC_MAX_HEIGHT_LAG'' ''10'')) of
        None \<Rightarrow> Inl (RpcError ''RPC_MAX_HEIGHT_LAG must be an integer'')
      | Some lag \<Rightarrow> if lag < 0 then Inl (RpcError ''RPC_MAX_HEIGHT_LAG must not be negative'') else Inr lag)"

section \<open>Facts\<close>

lemma to_int_JInt [simp]: "to_int (JInt i) = Inr (Some i)"
  by (simp add: to_int_def py_int_def)

lemma to_int_JNull [simp]: "to_int JNull = Inr None"
  by (simp add: to_int_def py_int_def)

lemma decode_base64_Inr: "decode_base64 v = Inr bs \<longleftrightarrow> (\<exists>s. v = JStr s \<and> s \<noteq> [] \<and> b64decode s = Some bs)"
  by (cases v) (auto simp: decode_base64_def split: option.splits)

lemma py_len_iter: "py_len v = Inr n \<Longrightarrow> py_iter v = Inr xs \<Longrightarrow> n = length xs"
  by (auto simp: py_len_def py_iter_def split: json.splits)

lemma legacy_parse_block_facts:
  assumes "legacy_parse_block payload = Inr b"
  shows "\<exists>bs. b64decode (bi_hash_base64 b) = Some bs \<and> bi_hash_hex b = hex_upper bs"
    and "bi_hash_base64 b \<noteq> []"
    and "bi_tx_count b = int (length (bi_transactions b))"
proof -
  have plen: "\<And>xs. length (parse_transactions xs) = length xs"
    by (simp add: parse_transactions_def)
  from assms show "\<exists>bs. b64decode (bi_hash_base64 b) = Some bs \<and> bi_hash_hex b = hex_upper bs"
    and "bi_hash_base64 b \<noteq> []"
    by (auto simp: legacy_parse_block_def Let_def res_simps decode_base64_Inr split: option.splits)
  from assms show "bi_tx_count b = int (length (bi_transactions b))"
    by (auto simp: legacy_parse_block_def Let_def res_simps plen split: option.splits)
      (erule (1) py_len_iter)
qed

end
