(* ===== verification/Invariants.thy ===== *)
theory Invariants
  imports Prelude
begin

text \<open>
  The contract a stateful component gives its clients: start states and steps, and a
  predicate that holds at the start and that every step keeps. Whatever is reachable then
  satisfies it. Each component with a step relation interprets this locale.
\<close>

locale inductive_invariant =
  fixes init :: "'s \<Rightarrow> bool"
    and step :: "'s \<Rightarrow> 's \<Rightarrow> bool"
    and inv :: "'s \<Rightarrow> bool"
  assumes init_inv: "init s \<Longrightarrow> inv s"
    and step_inv: "step s t \<Longrightarrow> inv s \<Longrightarrow> inv t"
begin

lemma steps_inv: "step\<^sup>*\<^sup>* s t \<Longrightarrow> inv s \<Longrightarrow> inv t"
  by (induction rule: rtranclp_induct) (auto intro: step_inv)

lemma reachable_inv: "init s \<Longrightarrow> step\<^sup>*\<^sup>* s t \<Longrightarrow> inv t"
  by (blast intro: init_inv steps_inv)

end

text \<open>
  A store whose contents may only grow along a preorder: a loop of steps that each respect the
  order respects it.
\<close>

locale store_order =
  fixes le :: "'s \<Rightarrow> 's \<Rightarrow> bool"
  assumes le_refl: "le s s"
    and le_trans: "le s t \<Longrightarrow> le t u \<Longrightarrow> le s u"
begin

lemma foldE_le:
  assumes "foldE f xs s = Inr t" and "\<And>x s t. x \<in> set xs \<Longrightarrow> f x s = Inr t \<Longrightarrow> le s t"
  shows "le s t"
  by (rule foldE_invariant [OF assms(1), where P = "le s"]) (auto intro: le_refl le_trans assms(2))

end

text \<open>
  A loop whose steps each settle their own item: a step repeated changes nothing, and an item that is
  settled stays settled under the steps of items with another key. Running the loop again over
  its own result then changes nothing.
\<close>

locale settling =
  fixes f :: "'a \<Rightarrow> 's \<Rightarrow> 's res"
    and key :: "'a \<Rightarrow> 'k"
    and good :: "'a \<Rightarrow> bool"
  assumes settle: "good x \<Longrightarrow> f x s = Inr t \<Longrightarrow> f x t = Inr t"
    and stays: "good x \<Longrightarrow> good y \<Longrightarrow> key x \<noteq> key y \<Longrightarrow> f x s = Inr s \<Longrightarrow> f y s = Inr t \<Longrightarrow> f x t = Inr t"
begin

lemma fixed_point: "(\<And>x. x \<in> set xs \<Longrightarrow> f x s = Inr s) \<Longrightarrow> foldE f xs s = Inr s"
  by (induction xs) auto

lemma stays_fold:
  "good x \<Longrightarrow> \<forall>y \<in> set ys. good y \<and> key x \<noteq> key y \<Longrightarrow> f x s = Inr s \<Longrightarrow> foldE f ys s = Inr t \<Longrightarrow> f x t = Inr t"
proof (induction ys arbitrary: s)
  case (Cons y ys)
  then obtain u where u: "f y s = Inr u" "foldE f ys u = Inr t" by (auto simp: bindE_Inr_iff)
  with Cons.prems have "f x u = Inr u" by (auto intro: stays)
  with Cons u show ?case by simp
qed simp

lemma foldE_settled:
  assumes "foldE f xs s = Inr t" and "distinct (map key xs)" and "\<forall>x \<in> set xs. good x"
  shows "x \<in> set xs \<Longrightarrow> f x t = Inr t"
  using assms
proof (induction xs arbitrary: s)
  case (Cons y ys)
  then obtain u where u: "f y s = Inr u" "foldE f ys u = Inr t" by (auto simp: bindE_Inr_iff)
  show ?case
  proof (cases "x \<in> set ys")
    case True
    with Cons u show ?thesis by simp
  next
    case False
    with Cons.prems have "x = y" by simp
    moreover have "f y u = Inr u" using settle u(1) Cons.prems(4) by simp
    ultimately show ?thesis using stays_fold [of y ys u t] u(2) Cons.prems(3,4) by force
  qed
qed simp

lemma foldE_idempotent:
  assumes "foldE f xs s = Inr t" and "distinct (map key xs)" and "\<forall>x \<in> set xs. good x"
  shows "foldE f xs t = Inr t"
  by (rule fixed_point) (rule foldE_settled [OF assms])

end

end
