(* ===== verification/Rpc_Client.thy ===== *)
theory Rpc_Client
  imports Inspect_Rpc Invariants
begin

text \<open>
  The pooled HTTP client of \<open>scripts/inspect_rpc.py\<close> (\<open>GnoRpcClient\<close>). The lock-protected
  fields are a record; \<open>out\<close> (the sessions callers hold) and \<open>next_session\<close> (a supply of
  fresh identities) are ghost fields. Each method body under the lock is one operation, and
  \<open>pool_step\<close> interleaves the operations of any number of caller threads.
\<close>

definition SESSION_POOL_MAX_SIZE :: nat where
  "SESSION_POOL_MAX_SIZE = 12"

record pool =
  idle_sessions :: "nat list"
  session_count :: int
  pool_closed :: bool
  out :: "nat list"
  next_session :: nat

definition new_pool :: pool where
  "new_pool = \<lparr>idle_sessions = [], session_count = 0, pool_closed = False, out = [], next_session = 0\<rparr>"

section \<open>Operations\<close>

text \<open>The locked part of \<open>_checkout_session\<close>; \<open>None\<close>: the caller goes on to wait for a returned session.\<close>

definition checkout_session :: "pool \<Rightarrow> (nat option \<times> pool) res" where
  "checkout_session p =
     (if pool_closed p then Inl (RpcError ''RPC client is closed'')
      else case idle_sessions p of
             s # rest \<Rightarrow> Inr (Some s, p\<lparr>idle_sessions := rest, out := s # out p\<rparr>)
           | [] \<Rightarrow> if session_count p < int SESSION_POOL_MAX_SIZE
                   then Inr (Some (next_session p),
                             p\<lparr>session_count := session_count p + 1, out := next_session p # out p,
                               next_session := Suc (next_session p)\<rparr>)
                   else Inr (None, p))"

text \<open>The wait on the queue, at the moment it ends: a session is there, or the timeout expired.\<close>

definition checkout_wait :: "pool \<Rightarrow> (nat \<times> pool) res" where
  "checkout_wait p =
     (case idle_sessions p of
        s # rest \<Rightarrow> Inr (s, p\<lparr>idle_sessions := rest, out := s # out p\<rparr>)
      | [] \<Rightarrow> Inl (RpcError ''RPC HTTP session pool exhausted''))"

text \<open>\<open>_return_session\<close>; \<open>put_nowait\<close> on a full queue would raise.\<close>

definition return_session :: "bool \<Rightarrow> nat \<Rightarrow> pool \<Rightarrow> pool res" where
  "return_session cookies_cleared s p =
     (let q = p\<lparr>out := remove1 s (out p)\<rparr> in
      if \<not> cookies_cleared then Inr (q\<lparr>session_count := session_count p - 1\<rparr>)
      else if pool_closed p then Inr (q\<lparr>session_count := session_count p - 1\<rparr>)
      else if length (idle_sessions p) < SESSION_POOL_MAX_SIZE
           then Inr (q\<lparr>idle_sessions := s # idle_sessions p\<rparr>)
           else Inl (RuntimeError ''queue.Full''))"

definition close_client :: "pool \<Rightarrow> pool" where
  "close_client p =
     (if pool_closed p then p
      else p\<lparr>pool_closed := True, idle_sessions := [],
             session_count := session_count p - int (length (idle_sessions p))\<rparr>)"

text \<open>What one HTTP exchange yields, and the mapping of its failures in \<open>get\<close>.\<close>

datatype http_outcome = HttpTimeout | HttpRequestError | HttpInvalidJson | HttpPayload json

definition http_result :: "http_outcome \<Rightarrow> jobj res" where
  "http_result o1 = (case o1 of
      HttpTimeout \<Rightarrow> Inl (RpcError ''RPC request timed out for '')
    | HttpRequestError \<Rightarrow> Inl (RpcError ''RPC request failed for '')
    | HttpInvalidJson \<Rightarrow> Inl (RpcError ''RPC response for '')
    | HttpPayload j \<Rightarrow> validate_payload j)"

text \<open>One whole \<open>get\<close> call run without interleaving.\<close>

definition client_get :: "http_outcome \<Rightarrow> bool \<Rightarrow> pool \<Rightarrow> jobj res \<times> pool" where
  "client_get o1 cookies_cleared p =
     (if pool_closed p then (Inl (RpcError ''RPC client is closed''), p)
      else case bindE (checkout_session p) (\<lambda>(got, q).
                  case got of Some s \<Rightarrow> Inr (s, q) | None \<Rightarrow> checkout_wait q) of
             Inl e \<Rightarrow> (Inl e, p)
           | Inr (s, q) \<Rightarrow>
               (case return_session cookies_cleared s q of
                  Inl e \<Rightarrow> (Inl e, q)
                | Inr r \<Rightarrow> (http_result o1, r)))"

section \<open>Interleaved callers\<close>

inductive pool_step :: "pool \<Rightarrow> pool \<Rightarrow> bool" where
  checkout: "checkout_session p = Inr (got, q) \<Longrightarrow> pool_step p q"
| wait_over: "checkout_wait p = Inr (s, q) \<Longrightarrow> pool_step p q"
| give_back: "s \<in> set (out p) \<Longrightarrow> return_session ok s p = Inr q \<Longrightarrow> pool_step p q"
| shut: "pool_step p (close_client p)"

inductive_cases pool_stepE: "pool_step p q"

definition pool_inv :: "pool \<Rightarrow> bool" where
  "pool_inv p \<longleftrightarrow>
     session_count p = int (length (idle_sessions p) + length (out p)) \<and>
     session_count p \<le> int SESSION_POOL_MAX_SIZE \<and>
     distinct (idle_sessions p @ out p) \<and>
     (\<forall>s \<in> set (idle_sessions p @ out p). s < next_session p) \<and>
     (pool_closed p \<longrightarrow> idle_sessions p = [])"

lemma checkout_session_inv: "checkout_session p = Inr (got, q) \<Longrightarrow> pool_inv p \<Longrightarrow> pool_inv q"
  by (fastforce simp: checkout_session_def pool_inv_def split: if_splits list.splits)

lemma checkout_wait_inv: "checkout_wait p = Inr (s, q) \<Longrightarrow> pool_inv p \<Longrightarrow> pool_inv q"
  by (auto simp: checkout_wait_def pool_inv_def split: list.splits)

lemma return_session_inv:
  assumes "return_session ok s p = Inr q" and s: "s \<in> set (out p)" and "pool_inv p"
  shows "pool_inv q"
proof -
  from s have "length (out p) = Suc (length (remove1 s (out p)))"
    using length_pos_if_in_set [OF s] by (simp add: length_remove1)
  moreover have "set (remove1 s (out p)) \<subseteq> set (out p)" by (rule set_remove1_subset)
  ultimately show ?thesis
    using assms by (auto simp: return_session_def pool_inv_def Let_def split: if_splits)
qed

lemma close_client_inv: "pool_inv p \<Longrightarrow> pool_inv (close_client p)"
  by (auto simp: close_client_def pool_inv_def)

lemma pool_step_inv: "pool_step p q \<Longrightarrow> pool_inv p \<Longrightarrow> pool_inv q"
  by (erule pool_stepE)
    (auto intro: checkout_session_inv checkout_wait_inv return_session_inv close_client_inv)

interpretation session_pool: inductive_invariant "\<lambda>p. p = new_pool" pool_step pool_inv
proof unfold_locales
  show "\<And>p. p = new_pool \<Longrightarrow> pool_inv p"
    by (simp add: new_pool_def pool_inv_def SESSION_POOL_MAX_SIZE_def)
qed (rule pool_step_inv)

lemma pool_inv_room: "pool_inv p \<Longrightarrow> s \<in> set (out p) \<Longrightarrow> length (idle_sessions p) < SESSION_POOL_MAX_SIZE"
  by (cases "out p") (auto simp: pool_inv_def)

lemma return_session_total:
  assumes "pool_inv p" and "s \<in> set (out p)"
  shows "\<exists>q. return_session ok s p = Inr q"
  using pool_inv_room [OF assms] by (simp add: return_session_def Let_def)

lemma client_get_balanced:
  assumes inv: "pool_inv p" and "\<not> pool_closed p" and "length (out p) < SESSION_POOL_MAX_SIZE"
  shows "\<exists>r. client_get o1 ok p = (http_result o1, r) \<and> pool_inv r \<and> out r = out p"
proof -
  obtain s q where co: "checkout_session p = Inr (Some s, q)" and out: "out q = s # out p"
    using assms by (cases "idle_sessions p") (auto simp: checkout_session_def pool_inv_def)
  from co inv have q: "pool_inv q" by (rule checkout_session_inv)
  from return_session_total [OF q, of s ok] out obtain r where r: "return_session ok s q = Inr r"
    by auto
  then have "out r = out p" using out by (auto simp: return_session_def Let_def split: if_splits)
  moreover have "pool_inv r" using r q out by (auto intro: return_session_inv)
  ultimately show ?thesis using assms(2) co r by (simp add: client_get_def)
qed

end
