(* ===== verification/Tx_Summary.thy ===== *)
theory Tx_Summary
  imports Py_Json
begin

text \<open>
  \<open>indexer/transaction_summary.py\<close>: the bounded, chain-neutral summary contract. Every
  adapter output passes through \<open>normalize_summary\<close>, which returns a summary within the
  size limits or the generic fallback, and never raises.
\<close>

definition SCHEMA_VERSION :: int where "SCHEMA_VERSION = 1"
definition MAX_MESSAGES :: nat where "MAX_MESSAGES = 20"
definition MAX_LABEL_LENGTH :: nat where "MAX_LABEL_LENGTH = 80"
definition MAX_TYPE_LENGTH :: nat where "MAX_TYPE_LENGTH = 160"
definition MAX_TOKEN_LENGTH :: nat where "MAX_TOKEN_LENGTH = 64"
definition MAX_MESSAGE_FIELDS :: nat where "MAX_MESSAGE_FIELDS = 17"
definition MAX_VALUE_LENGTH :: nat where "MAX_VALUE_LENGTH = 160"
definition MAX_PACKAGE_PATH_LENGTH :: nat where "MAX_PACKAGE_PATH_LENGTH = 256"
definition MAX_SUMMARY_BYTES :: nat where "MAX_SUMMARY_BYTES = 16384"
definition MAX_INTEGER_BITS :: nat where "MAX_INTEGER_BITS = 256"
definition MAX_MESSAGE_COUNT :: int where "MAX_MESSAGE_COUNT = 100000"

lemmas summary_limits = MAX_MESSAGES_def MAX_LABEL_LENGTH_def MAX_TYPE_LENGTH_def MAX_TOKEN_LENGTH_def
  MAX_MESSAGE_FIELDS_def MAX_VALUE_LENGTH_def MAX_PACKAGE_PATH_LENGTH_def MAX_SUMMARY_BYTES_def
  MAX_INTEGER_BITS_def MAX_MESSAGE_COUNT_def

definition PARSE_STATUSES :: "string list" where
  "PARSE_STATUSES = [''unparsed'', ''parsed'', ''unsupported'', ''invalid'']"

definition REQUIRED_FIELDS :: "string list" where
  "REQUIRED_FIELDS = [''schema_version'', ''chain_family'', ''parse_status'', ''message_count'',
     ''messages_truncated'', ''primary'', ''messages'']"

definition REQUIRED_PRIMARY_FIELDS :: "string list" where
  "REQUIRED_PRIMARY_FIELDS = [''type'', ''category'', ''action'', ''label'']"

definition FORBIDDEN_KEY_PARTS :: "string list" where
  "FORBIDDEN_KEY_PARTS = [''base64'', ''signature'', ''raw_transaction'', ''raw_tx'', ''decoded_bytes'']"

record tx_summary =
  sm_chain_family :: string
  sm_parse_status :: string
  sm_message_count :: "int option"
  sm_messages_truncated :: bool
  sm_type :: string
  sm_category :: string
  sm_action :: string
  sm_label :: string
  sm_messages :: "jobj list"

text \<open>The summary as the dict the program passes around and stores.\<close>

definition summary_json :: "tx_summary \<Rightarrow> json" where
  "summary_json s = JObj
     [(''schema_version'', JInt SCHEMA_VERSION), (''chain_family'', JStr (sm_chain_family s)),
      (''parse_status'', JStr (sm_parse_status s)),
      (''message_count'', (case sm_message_count s of None \<Rightarrow> JNull | Some n \<Rightarrow> JInt n)),
      (''messages_truncated'', JBool (sm_messages_truncated s)),
      (''primary'', JObj [(''type'', JStr (sm_type s)), (''category'', JStr (sm_category s)),
                          (''action'', JStr (sm_action s)), (''label'', JStr (sm_label s))]),
      (''messages'', JList (map JObj (sm_messages s)))]"

definition generic_summary :: "string \<Rightarrow> tx_summary" where
  "generic_summary status =
     \<lparr>sm_chain_family = ''unknown'',
      sm_parse_status = (if status \<in> set PARSE_STATUSES then status else ''unparsed''),
      sm_message_count = None, sm_messages_truncated = False, sm_type = ''unknown'',
      sm_category = ''unknown'', sm_action = ''unknown'', sm_label = ''Transaction'', sm_messages = []\<rparr>"

text \<open>The compact UTF-8 size of a summary.\<close>

definition summary_size_bytes :: "tx_summary \<Rightarrow> nat" where
  "summary_size_bytes s = utf8_len (json_dumps (compact_opts\<lparr>ensure_ascii := False\<rparr>) (summary_json s))"

section \<open>Normalisation\<close>

definition clean_text :: "string \<Rightarrow> string" where
  "clean_text s = filter is_printable (py_strip s)"

text \<open>\<open>_text\<close>.\<close>

definition text_field :: "json \<Rightarrow> nat \<Rightarrow> string res" where
  "text_field v limit =
     (case v of
        JStr s \<Rightarrow> (let printable = clean_text s in
                   if printable = [] then Inl (ValueError ''summary text must not be empty'')
                   else Inr (take limit printable))
      | _ \<Rightarrow> Inl (ValueError ''summary text must be a string''))"

definition value_limit :: "string \<Rightarrow> nat" where
  "value_limit safe_key =
     (if safe_key = ''type'' then MAX_TYPE_LENGTH
      else if safe_key = ''label'' then MAX_LABEL_LENGTH
      else if safe_key = ''package_path'' then MAX_PACKAGE_PATH_LENGTH else MAX_VALUE_LENGTH)"

text \<open>One item of the message: its value within the limits, or an exception.\<close>

definition normalize_value :: "jobj \<Rightarrow> string \<Rightarrow> json \<Rightarrow> json res" where
  "normalize_value message safe_key v =
     (case v of
        JStr s \<Rightarrow>
          bindE (text_field v (value_limit safe_key)) (\<lambda>t.
          if safe_key = ''package_path'' \<and> oget message ''package_path_complete'' = JBool True \<and> t \<noteq> s
          then Inl (ValueError ''complete package path must not be altered'') else Inr (JStr t))
      | JNull \<Rightarrow> Inr v
      | JBool _ \<Rightarrow> Inr v
      | JInt i \<Rightarrow> if MAX_INTEGER_BITS < bit_length (nat \<bar>i\<bar>)
                  then Inl (ValueError ''message integer exceeds size limit'') else Inr v
      | JFloat f \<Rightarrow> if f_isfinite f then Inr v else Inl (ValueError ''message values must be JSON-safe scalars'')
      | _ \<Rightarrow> Inl (ValueError ''message values must be JSON-safe scalars''))"

definition unsafe_key :: "string \<Rightarrow> bool" where
  "unsafe_key key = list_ex (contains_str (py_lower key)) FORBIDDEN_KEY_PARTS"

definition normalize_item :: "jobj \<Rightarrow> string \<times> json \<Rightarrow> jobj \<Rightarrow> jobj res" where
  "normalize_item message kv acc =
     (if unsafe_key (fst kv) then Inl (ValueError ''unsafe message field'')
      else bindE (text_field (JStr (fst kv)) MAX_TOKEN_LENGTH) (\<lambda>safe_key.
           if safe_key \<in> fst ` set acc then Inl (ValueError ''message keys collide after normalization'')
           else bindE (normalize_value message safe_key (snd kv)) (\<lambda>v. Inr (acc @ [(safe_key, v)]))))"

definition normalize_message :: "json \<Rightarrow> jobj res" where
  "normalize_message m =
     (case m of
        JObj message \<Rightarrow>
          if MAX_MESSAGE_FIELDS < length message then Inl (ValueError ''invalid message summary'')
          else bindE (foldE (normalize_item message) message []) (\<lambda>acc.
               if ''package_path_complete'' \<in> fst ` set message \<and>
                  (oget message ''package_path_complete'' \<notin> {JBool True, JBool False} \<or>
                   ''package_path'' \<notin> fst ` set acc)
               then Inl (ValueError ''invalid package path completeness marker'') else Inr acc)
      | _ \<Rightarrow> Inl (ValueError ''invalid message summary''))"

text \<open>The size loop: messages are dropped from the end while the summary is too large.\<close>

fun drop_oversize :: "nat \<Rightarrow> tx_summary \<Rightarrow> tx_summary" where
  "drop_oversize 0 s = s"
| "drop_oversize (Suc k) s =
     (if sm_messages s \<noteq> [] \<and> MAX_SUMMARY_BYTES < summary_size_bytes s
      then drop_oversize k (s\<lparr>sm_messages := butlast (sm_messages s), sm_messages_truncated := True\<rparr>)
      else s)"

definition valid_count :: "json \<Rightarrow> int option res" where
  "valid_count c =
     (case c of
        JNull \<Rightarrow> Inr None
      | JInt n \<Rightarrow> if 0 \<le> n \<and> n \<le> MAX_MESSAGE_COUNT then Inr (Some n)
                  else Inl (ValueError ''invalid message count'')
      | _ \<Rightarrow> Inl (ValueError ''invalid message count''))"

text \<open>The normalised dict before the size loop.\<close>

definition assemble_summary :: "jobj \<Rightarrow> jobj \<Rightarrow> json list \<Rightarrow> int option \<Rightarrow> tx_summary res" where
  "assemble_summary c primary messages count =
     bindE (mapE normalize_message (take MAX_MESSAGES messages)) (\<lambda>normalized.
     bindE (text_field (oget c ''chain_family'') MAX_TOKEN_LENGTH) (\<lambda>family.
     bindE (text_field (oget primary ''type'') MAX_TYPE_LENGTH) (\<lambda>ty.
     bindE (text_field (oget primary ''category'') MAX_TOKEN_LENGTH) (\<lambda>category.
     bindE (text_field (oget primary ''action'') MAX_TOKEN_LENGTH) (\<lambda>action.
     bindE (text_field (oget primary ''label'') MAX_LABEL_LENGTH) (\<lambda>label.
     Inr \<lparr>sm_chain_family = family,
          sm_parse_status = (case oget c ''parse_status'' of JStr p \<Rightarrow> p | _ \<Rightarrow> []),
          sm_message_count = count,
          sm_messages_truncated =
            (oget c ''messages_truncated'' = JBool True \<or> MAX_MESSAGES < length messages \<or>
             (case count of None \<Rightarrow> False | Some n \<Rightarrow> int (length normalized) < n)),
          sm_type = ty, sm_category = category, sm_action = action, sm_label = label,
          sm_messages = normalized\<rparr>))))))"

definition try_normalize :: "json \<Rightarrow> tx_summary res" where
  "try_normalize cand =
     bindE (dict_or (ValueError ''missing summary fields'') cand) (\<lambda>c.
     bindE (guardE (set REQUIRED_FIELDS \<subseteq> fst ` set c) (ValueError ''missing summary fields'')) (\<lambda>_.
     bindE (guardE (py_eq (oget c ''schema_version'') (JInt SCHEMA_VERSION))
              (ValueError ''unsupported summary version or status'')) (\<lambda>_.
     bindE (in_str_set (oget c ''parse_status'') PARSE_STATUSES) (\<lambda>known.
     bindE (guardE known (ValueError ''unsupported summary version or status'')) (\<lambda>_.
     bindE (guardE (oget c ''messages_truncated'' \<in> {JBool True, JBool False})
              (ValueError ''invalid truncation marker'')) (\<lambda>_.
     bindE (valid_count (oget c ''message_count'')) (\<lambda>count.
     bindE (dict_or (ValueError ''invalid primary summary'') (oget c ''primary'')) (\<lambda>primary.
     bindE (guardE (set REQUIRED_PRIMARY_FIELDS \<subseteq> fst ` set primary) (ValueError ''invalid primary summary'')) (\<lambda>_.
     bindE (list_or (ValueError ''invalid messages'') (oget c ''messages'')) (\<lambda>messages.
     bindE (guardE (case count of None \<Rightarrow> True | Some n \<Rightarrow> int (length messages) \<le> n)
              (ValueError ''message count is smaller than supplied messages'')) (\<lambda>_.
     bindE (assemble_summary c primary messages count) (\<lambda>s0.
     let s = drop_oversize (length (sm_messages s0)) s0
     in bindE (guardE (summary_size_bytes s \<le> MAX_SUMMARY_BYTES)
                 (ValueError ''summary exceeds total size limit'')) (\<lambda>_. Inr s)))))))))))))"

text \<open>\<open>normalize_summary\<close>: the exceptions raised above are all caught.\<close>

definition normalize_summary :: "json \<Rightarrow> string \<Rightarrow> tx_summary" where
  "normalize_summary cand fallback =
     (case try_normalize cand of Inr s \<Rightarrow> s | Inl _ \<Rightarrow> generic_summary fallback)"

section \<open>The contract\<close>

definition text_ok :: "nat \<Rightarrow> string \<Rightarrow> bool" where
  "text_ok limit s \<longleftrightarrow> s \<noteq> [] \<and> length s \<le> limit \<and> list_all is_printable s"

definition value_ok :: "string \<Rightarrow> json \<Rightarrow> bool" where
  "value_ok key v =
     (case v of
        JStr s \<Rightarrow> text_ok (value_limit key) s
      | JInt i \<Rightarrow> bit_length (nat \<bar>i\<bar>) \<le> MAX_INTEGER_BITS
      | JFloat f \<Rightarrow> f_isfinite f
      | JList _ \<Rightarrow> False | JObj _ \<Rightarrow> False | _ \<Rightarrow> True)"

definition message_ok :: "jobj \<Rightarrow> bool" where
  "message_ok m \<longleftrightarrow> length m \<le> MAX_MESSAGE_FIELDS \<and> distinct (map fst m) \<and>
     (\<forall>(k, v) \<in> set m. text_ok MAX_TOKEN_LENGTH k \<and> value_ok k v)"

definition summary_ok :: "tx_summary \<Rightarrow> bool" where
  "summary_ok s \<longleftrightarrow>
     sm_parse_status s \<in> set PARSE_STATUSES \<and> length (sm_messages s) \<le> MAX_MESSAGES \<and>
     (\<forall>m \<in> set (sm_messages s). message_ok m) \<and>
     text_ok MAX_TOKEN_LENGTH (sm_chain_family s) \<and> text_ok MAX_TYPE_LENGTH (sm_type s) \<and>
     text_ok MAX_TOKEN_LENGTH (sm_category s) \<and> text_ok MAX_TOKEN_LENGTH (sm_action s) \<and>
     text_ok MAX_LABEL_LENGTH (sm_label s) \<and>
     (\<forall>n. sm_message_count s = Some n \<longrightarrow> int (length (sm_messages s)) \<le> n \<and> n \<le> MAX_MESSAGE_COUNT \<and>
        (\<not> sm_messages_truncated s \<longrightarrow> int (length (sm_messages s)) = n)) \<and>
     summary_size_bytes s \<le> MAX_SUMMARY_BYTES"

lemma text_field_ok: "text_field v limit = Inr t \<Longrightarrow> 0 < limit \<Longrightarrow> text_ok limit t"
  by (auto simp: text_field_def text_ok_def clean_text_def Let_def list_all_iff
      dest: in_set_takeD split: json.splits if_splits)

lemma value_limit_pos [simp]: "0 < value_limit k"
  by (simp add: value_limit_def summary_limits)

lemma normalize_value_ok: "normalize_value message k v = Inr w \<Longrightarrow> value_ok k w"
  by (auto simp: normalize_value_def value_ok_def res_simps text_field_ok not_less
      split: json.splits if_splits)

definition items_ok :: "jobj \<Rightarrow> bool" where
  "items_ok m \<longleftrightarrow> distinct (map fst m) \<and> (\<forall>(k, v) \<in> set m. text_ok MAX_TOKEN_LENGTH k \<and> value_ok k v)"

lemma normalize_item_ok:
  "normalize_item message kv acc = Inr acc' \<Longrightarrow> items_ok acc \<Longrightarrow> items_ok acc' \<and> length acc' = Suc (length acc)"
  using text_field_ok [of "JStr (fst kv)" MAX_TOKEN_LENGTH] normalize_value_ok
  by (force simp: normalize_item_def items_ok_def res_simps MAX_TOKEN_LENGTH_def split: if_splits)

lemma normalize_items_ok:
  "foldE (normalize_item message) kvs acc = Inr acc' \<Longrightarrow> items_ok acc \<Longrightarrow>
   items_ok acc' \<and> length acc' = length acc + length kvs"
  by (induction kvs arbitrary: acc) (fastforce simp: res_simps dest: normalize_item_ok)+

lemma normalize_message_ok: "normalize_message m = Inr msg \<Longrightarrow> message_ok msg"
  using normalize_items_ok [of _ _ "[]"]
  by (fastforce simp: normalize_message_def message_ok_def items_ok_def res_simps
      split: json.splits if_splits)

lemma drop_oversize_keeps:
  "sm_chain_family (drop_oversize k s) = sm_chain_family s"
  "sm_parse_status (drop_oversize k s) = sm_parse_status s"
  "sm_message_count (drop_oversize k s) = sm_message_count s"
  "sm_type (drop_oversize k s) = sm_type s"
  "sm_category (drop_oversize k s) = sm_category s"
  "sm_action (drop_oversize k s) = sm_action s"
  "sm_label (drop_oversize k s) = sm_label s"
  by (induction k arbitrary: s) auto

lemma drop_oversize_messages:
  "\<exists>j \<le> length (sm_messages s). sm_messages (drop_oversize k s) = take j (sm_messages s) \<and>
     (sm_messages_truncated (drop_oversize k s) \<longleftrightarrow> sm_messages_truncated s \<or> j < length (sm_messages s))"
proof (induction k arbitrary: s)
  case (Suc k)
  show ?case
  proof (cases "sm_messages s \<noteq> [] \<and> MAX_SUMMARY_BYTES < summary_size_bytes s")
    case True
    from Suc [of "s\<lparr>sm_messages := butlast (sm_messages s), sm_messages_truncated := True\<rparr>"]
    obtain j where j: "j \<le> length (sm_messages s) - 1"
      "sm_messages (drop_oversize (Suc k) s) = take j (butlast (sm_messages s))"
      "sm_messages_truncated (drop_oversize (Suc k) s)"
      using True by auto
    have "take j (butlast (sm_messages s)) = take j (sm_messages s)"
      using j(1) by (simp add: butlast_conv_take)
    moreover have "length (sm_messages s) - 1 < length (sm_messages s)" using True by simp
    ultimately show ?thesis using j by (intro exI [of _ j]) auto
  qed auto
qed auto

text \<open>The loop runs until the summary fits or has no message left.\<close>

lemma drop_oversize_fits:
  "length (sm_messages s) \<le> k \<Longrightarrow>
   sm_messages (drop_oversize k s) = [] \<or> summary_size_bytes (drop_oversize k s) \<le> MAX_SUMMARY_BYTES"
  by (induction k arbitrary: s) auto

lemma try_normalize_ok:
  assumes "try_normalize cand = Inr s"
  shows "summary_ok s"
proof -
  obtain c primary messages count s0 where
      s: "s = drop_oversize (length (sm_messages s0)) s0" "summary_size_bytes s \<le> MAX_SUMMARY_BYTES"
    and asm: "assemble_summary c primary messages count = Inr s0"
    and count: "valid_count (oget c ''message_count'') = Inr count"
      "case count of None \<Rightarrow> True | Some n \<Rightarrow> int (length messages) \<le> n"
    and status: "in_str_set (oget c ''parse_status'') PARSE_STATUSES = Inr True"
    using assms unfolding try_normalize_def Let_def by (auto simp: res_simps)
  define normalized where "normalized = sm_messages s0"
  have msgs: "mapE normalize_message (take MAX_MESSAGES messages) = Inr normalized"
    and cnt: "sm_message_count s0 = count"
    and trunc: "sm_messages_truncated s0 \<longleftrightarrow> (oget c ''messages_truncated'' = JBool True \<or>
        MAX_MESSAGES < length messages \<or> (case count of None \<Rightarrow> False | Some n \<Rightarrow> int (length normalized) < n))"
    and stat: "sm_parse_status s0 = (case oget c ''parse_status'' of JStr p \<Rightarrow> p | _ \<Rightarrow> [])"
    and texts: "text_field (oget c ''chain_family'') MAX_TOKEN_LENGTH = Inr (sm_chain_family s0)"
      "text_field (oget primary ''type'') MAX_TYPE_LENGTH = Inr (sm_type s0)"
      "text_field (oget primary ''category'') MAX_TOKEN_LENGTH = Inr (sm_category s0)"
      "text_field (oget primary ''action'') MAX_TOKEN_LENGTH = Inr (sm_action s0)"
      "text_field (oget primary ''label'') MAX_LABEL_LENGTH = Inr (sm_label s0)"
    using asm unfolding normalized_def by (auto simp: assemble_summary_def res_simps split: option.split)
  obtain j where j: "j \<le> length normalized" "sm_messages s = take j normalized"
    "sm_messages_truncated s \<longleftrightarrow> sm_messages_truncated s0 \<or> j < length normalized"
    using drop_oversize_messages [of s0 "length (sm_messages s0)"] s(1) by (auto simp: normalized_def)
  have len: "length normalized = min (length messages) MAX_MESSAGES"
    using mapE_Inr_length [OF msgs] by simp
  have "\<forall>m \<in> set normalized. message_ok m"
    using mapE_Inr_set [OF msgs] normalize_message_ok by blast
  then have "\<forall>m \<in> set (sm_messages s). message_ok m" by (auto simp: j dest: in_set_takeD)
  moreover have "sm_parse_status s \<in> set PARSE_STATUSES"
    using status stat by (auto simp: in_str_set_def s(1) drop_oversize_keeps split: if_splits)
  moreover have "int (length (sm_messages s)) \<le> n \<and> n \<le> MAX_MESSAGE_COUNT \<and>
      (\<not> sm_messages_truncated s \<longrightarrow> int (length (sm_messages s)) = n)" if "sm_message_count s = Some n" for n
  proof -
    have c: "count = Some n" using that cnt by (simp add: s(1) drop_oversize_keeps)
    then have "n \<le> MAX_MESSAGE_COUNT" using count(1) by (auto simp: valid_count_def split: json.splits if_splits)
    moreover have "int (length (sm_messages s)) \<le> n" using j len count(2) c by auto
    moreover have "int (length (sm_messages s)) = n" if "\<not> sm_messages_truncated s"
      using that j len count(2) c trunc by auto
    ultimately show ?thesis by blast
  qed
  moreover have "length (sm_messages s) \<le> MAX_MESSAGES" using j len by simp
  ultimately show ?thesis
    using texts [THEN text_field_ok] s(2)
    by (simp add: summary_ok_def s(1) drop_oversize_keeps summary_limits)
qed

lemma utf8_len_le: "utf8_len s \<le> 2 * length s"
  by (induction s) (auto simp: utf8_len_def)

lemma generic_summary_size:
  assumes "status \<in> set PARSE_STATUSES"
  shows "summary_size_bytes (generic_summary status) \<le> MAX_SUMMARY_BYTES"
proof -
  have "length (json_dumps (compact_opts\<lparr>ensure_ascii := False\<rparr>) (summary_json (generic_summary status))) \<le> 8192"
    using assms
    by (auto simp: PARSE_STATUSES_def generic_summary_def summary_json_def compact_opts_def
        quote_str_def esc_char_def SCHEMA_VERSION_def str_int_def digits_of_nat.simps)
  then show ?thesis
    using utf8_len_le [of "json_dumps (compact_opts\<lparr>ensure_ascii := False\<rparr>) (summary_json (generic_summary status))"]
    by (simp add: summary_size_bytes_def MAX_SUMMARY_BYTES_def)
qed

section \<open>Stability\<close>

text \<open>
  A summary already in normal form: within the limits, its texts unchanged by stripping and
  filtering, its keys safe and its completeness markers well placed.
\<close>

definition stable_message :: "jobj \<Rightarrow> bool" where
  "stable_message m \<longleftrightarrow> message_ok m \<and>
     (\<forall>(k, v) \<in> set m. \<not> unsafe_key k \<and> clean_text k = k \<and> (\<forall>s. v = JStr s \<longrightarrow> clean_text s = s)) \<and>
     (''package_path_complete'' \<in> fst ` set m \<longrightarrow>
        oget m ''package_path_complete'' \<in> {JBool True, JBool False} \<and> ''package_path'' \<in> fst ` set m)"

definition stable_summary :: "tx_summary \<Rightarrow> bool" where
  "stable_summary s \<longleftrightarrow> summary_ok s \<and> (\<forall>m \<in> set (sm_messages s). stable_message m) \<and>
     clean_text (sm_chain_family s) = sm_chain_family s \<and> clean_text (sm_type s) = sm_type s \<and>
     clean_text (sm_category s) = sm_category s \<and> clean_text (sm_action s) = sm_action s \<and>
     clean_text (sm_label s) = sm_label s"

lemma text_field_stable: "text_ok limit t \<Longrightarrow> clean_text t = t \<Longrightarrow> text_field (JStr t) limit = Inr t"
  by (simp add: text_field_def text_ok_def Let_def)

lemma normalize_value_stable:
  "value_ok k v \<Longrightarrow> \<forall>s. v = JStr s \<longrightarrow> clean_text s = s \<Longrightarrow> normalize_value m k v = Inr v"
  by (cases v) (auto simp: normalize_value_def value_ok_def text_field_stable)

lemma normalize_items_stable:
  assumes "distinct (map fst (acc @ kvs))"
    and "\<forall>(k, v) \<in> set kvs. text_ok MAX_TOKEN_LENGTH k \<and> value_ok k v \<and> \<not> unsafe_key k \<and> clean_text k = k \<and>
           (\<forall>s. v = JStr s \<longrightarrow> clean_text s = s)"
  shows "foldE (normalize_item m) kvs acc = Inr (acc @ kvs)"
  using assms
proof (induction kvs arbitrary: acc)
  case (Cons kv kvs)
  obtain k v where kv: "kv = (k, v)" by (cases kv)
  from Cons.prems have k: "k \<notin> fst ` set acc" "text_field (JStr k) MAX_TOKEN_LENGTH = Inr k"
      "normalize_value m k v = Inr v" "\<not> unsafe_key k"
    by (auto simp: kv text_field_stable normalize_value_stable)
  then have "normalize_item m kv acc = Inr (acc @ [kv])" by (simp add: normalize_item_def kv)
  moreover have "foldE (normalize_item m) kvs (acc @ [kv]) = Inr ((acc @ [kv]) @ kvs)"
    using Cons.prems by (intro Cons.IH) auto
  ultimately show ?case by simp
qed simp

lemma normalize_message_stable:
  assumes "stable_message m"
  shows "normalize_message (JObj m) = Inr m"
proof -
  have "foldE (normalize_item m) m [] = Inr ([] @ m)"
    using assms by (intro normalize_items_stable) (auto simp: stable_message_def message_ok_def)
  with assms show ?thesis by (auto simp: normalize_message_def stable_message_def message_ok_def)
qed

lemma normalize_messages_stable:
  "\<forall>m \<in> set ms. stable_message m \<Longrightarrow> mapE normalize_message (map JObj ms) = Inr ms"
  by (induction ms) (auto simp: normalize_message_stable)

lemma assemble_stable:
  assumes st: "stable_summary s" and c: "JObj c = summary_json s"
    and p: "JObj primary = oget c ''primary''"
  shows "assemble_summary c primary (map JObj (sm_messages s)) (sm_message_count s) = Inr s"
proof -
  have "length (sm_messages s) \<le> MAX_MESSAGES" using st by (simp add: stable_summary_def summary_ok_def)
  then have "mapE normalize_message (take MAX_MESSAGES (map JObj (sm_messages s))) = Inr (sm_messages s)"
    using st by (simp add: stable_summary_def normalize_messages_stable)
  moreover have "sm_messages_truncated s \<or> \<not> (case sm_message_count s of None \<Rightarrow> False
      | Some n \<Rightarrow> int (length (sm_messages s)) < n)"
    using st by (auto simp: stable_summary_def summary_ok_def split: option.splits)
  ultimately show ?thesis
    using st c p \<open>length (sm_messages s) \<le> MAX_MESSAGES\<close>
    by (auto simp: assemble_summary_def summary_json_def text_field_stable stable_summary_def summary_ok_def)
qed

section \<open>Properties\<close>

lemma generic_summary_ok: "summary_ok (generic_summary st)"
proof -
  define t where "t = sm_parse_status (generic_summary st)"
  have t: "t \<in> set PARSE_STATUSES" by (simp add: t_def generic_summary_def PARSE_STATUSES_def)
  have "generic_summary st = generic_summary t"
    using t by (simp add: t_def generic_summary_def)
  then have "summary_size_bytes (generic_summary st) \<le> MAX_SUMMARY_BYTES"
    using generic_summary_size [OF t] by simp
  then show ?thesis
    by (simp add: summary_ok_def) (simp add: generic_summary_def PARSE_STATUSES_def text_ok_def
        summary_limits is_printable_def)
qed

lemma normalize_summary_ok: "summary_ok (normalize_summary cand fallback)"
  by (cases "try_normalize cand") (simp_all add: normalize_summary_def generic_summary_ok try_normalize_ok)

text \<open>C18: whatever an adapter returns, the normalised summary is within every limit of the contract: a known
  status, at most 20 messages of at most 17 distinct, printable, bounded keys with bounded scalar values,
  bounded primary texts, a message count that is not below the number of kept messages and equals it
  unless truncation is flagged, and at most 16384 UTF-8 bytes of compact JSON.\<close>

theorem normalize_summary_bounded: "summary_ok (normalize_summary cand fallback)"
  by (rule normalize_summary_ok)

text \<open>normalisation is the identity on a summary already in normal form, so the repeated
  normalisation of a stored summary (in the parser, the writer and the catalog) changes nothing.\<close>

theorem normalize_summary_stable:
  assumes "stable_summary s"
  shows "normalize_summary (summary_json s) fallback = s"
proof -
  obtain c where c: "summary_json s = JObj c" by (simp add: summary_json_def)
  obtain primary where p: "oget c ''primary'' = JObj primary"
    using c by (auto simp: summary_json_def)
  have ok: "summary_ok s" using assms by (simp add: stable_summary_def)
  have "drop_oversize k s = s" for k using ok by (cases k) (auto simp: summary_ok_def)
  moreover have "valid_count (oget c ''message_count'') = Inr (sm_message_count s)"
    using ok c by (auto simp: summary_json_def valid_count_def summary_ok_def split: option.splits)
  moreover have "case sm_message_count s of None \<Rightarrow> True | Some n \<Rightarrow> int (length (map JObj (sm_messages s))) \<le> n"
    using ok by (auto simp: summary_ok_def split: option.splits)
  ultimately have "try_normalize (summary_json s) = Inr s"
    using ok assemble_stable [OF assms c [symmetric] p [symmetric]] p c
    by (auto simp: try_normalize_def summary_json_def in_str_set_def is_hashable_def REQUIRED_FIELDS_def
        REQUIRED_PRIMARY_FIELDS_def summary_ok_def)
  then show ?thesis by (simp add: normalize_summary_def)
qed

definition demo_summary :: tx_summary where
  "demo_summary = (generic_summary ''parsed'')\<lparr>sm_chain_family := ''gno'', sm_message_count := Some 1,
     sm_messages := [[(''type'', JStr ''gno.vm.MsgCall'')]]\<rparr>"

lemma demo_summary_stable: "stable_summary demo_summary"
proof -
  have "length (json_dumps (compact_opts\<lparr>ensure_ascii := False\<rparr>) (summary_json demo_summary)) \<le> 8192"
    by (simp add: demo_summary_def PARSE_STATUSES_def generic_summary_def summary_json_def compact_opts_def
        quote_str_def esc_char_def SCHEMA_VERSION_def str_int_def digits_of_nat.simps)
  then have "summary_size_bytes demo_summary \<le> MAX_SUMMARY_BYTES"
    using utf8_len_le [of "json_dumps (compact_opts\<lparr>ensure_ascii := False\<rparr>) (summary_json demo_summary)"]
    by (simp add: summary_size_bytes_def MAX_SUMMARY_BYTES_def)
  then show ?thesis
    by (simp add: stable_summary_def summary_ok_def stable_message_def message_ok_def value_ok_def value_limit_def)
      (simp add: demo_summary_def generic_summary_def PARSE_STATUSES_def text_ok_def summary_limits is_printable_def
        clean_text_def py_strip_def strip_by_def is_space_def unsafe_key_def FORBIDDEN_KEY_PARTS_def
        startswith_def py_lower_def lower_char_def value_limit_def)
qed

theorem normalize_summary_stable_witness:
  "stable_summary demo_summary \<and> normalize_summary (summary_json demo_summary) ''unparsed'' = demo_summary"
  using demo_summary_stable normalize_summary_stable [OF demo_summary_stable] by simp

text \<open>the forbidden-field filter looks at the raw key, before unprintable characters are removed, so a
  message may carry a forbidden field name past it: the key \<open>base\<close>, NUL, \<open>64\<close> is accepted and stored
  under the forbidden name \<open>base64\<close>.\<close>

theorem forbidden_key_filter_bypassed:
  "normalize_message (JObj [(''base'' @ [CHR 0x00] @ ''64'', JStr ''x'')]) = Inr [(''base64'', JStr ''x'')] \<and>
   unsafe_key ''base64''"
  by (simp add: normalize_message_def normalize_item_def normalize_value_def text_field_def clean_text_def
      py_strip_def strip_by_def is_space_def is_printable_def unsafe_key_def FORBIDDEN_KEY_PARTS_def
      startswith_def py_lower_def lower_char_def summary_limits value_limit_def)

end
