(* ===== verification/Accounts.thy ===== *)
theory Accounts
  imports Tx_Summary "HOL-Library.Product_Lexorder"
begin

text \<open>
  \<open>api/network_profile.py\<close> (bech32 account addresses) and
  \<open>indexer/transaction_participants.py\<close> (the accounts a summary mentions).
\<close>

unbundle bit_operations_syntax

section \<open>Account addresses\<close>

definition BECH32_CHARSET :: string where
  "BECH32_CHARSET = ''qpzry9x8gf2tvdw0s3jn54khce6mua7l''"

record network_profile =
  chain_family :: string
  profile_chain_id :: string
  account_hrp :: string
  account_payload_length :: nat
  native_denom :: string
  native_symbol :: string
  native_decimals :: nat

definition gno_profile :: "string \<Rightarrow> network_profile" where
  "gno_profile c = \<lparr>chain_family = ''gno'', profile_chain_id = c, account_hrp = ''g'',
     account_payload_length = 20, native_denom = ''ugnot'', native_symbol = ''GNOT'', native_decimals = 6\<rparr>"

definition generators :: "int list" where
  "generators = [0x3B6A57B2, 0x26508E6D, 0x1EA119FA, 0x3D4233DD, 0x2A1462B3]"

definition polymod_step :: "int \<Rightarrow> int \<Rightarrow> int" where
  "polymod_step checksum v =
     (let top = drop_bit 25 checksum
      in foldl (\<lambda>c (i, g). if drop_bit i top AND 1 \<noteq> 0 then c XOR g else c)
               (push_bit 5 (checksum AND 0x1FFFFFF) XOR v) (enum0 generators))"

definition polymod :: "int list \<Rightarrow> int" where
  "polymod values = foldl polymod_step 1 values"

definition expand_hrp :: "string \<Rightarrow> int list" where
  "expand_hrp hrp = map (\<lambda>c. drop_bit 5 (of_char c)) hrp @ [0] @ map (\<lambda>c. of_char c AND 31) hrp"

text \<open>
  The inner loop of \<open>_convert_bits\<close>: while \<open>bits >= to_bits\<close> a group is emitted. (With
  \<open>to_bits = 0\<close> the Python loop would not end; the program only passes 8.)
\<close>

function conv_emit :: "nat \<Rightarrow> int \<Rightarrow> nat \<Rightarrow> int list \<Rightarrow> nat \<times> int list" where
  "conv_emit to_bits acc bits out =
     (if to_bits = 0 \<or> bits < to_bits then (bits, out)
      else conv_emit to_bits acc (bits - to_bits)
             (out @ [drop_bit (bits - to_bits) acc AND (2 ^ to_bits - 1)]))"
  by pat_completeness auto
termination
  by (relation "measure (\<lambda>(to_bits, acc, bits, out). bits)") auto

declare conv_emit.simps [simp del]

fun conv_loop :: "nat \<Rightarrow> nat \<Rightarrow> int \<Rightarrow> nat \<Rightarrow> int list \<Rightarrow> int list \<Rightarrow> (int \<times> nat \<times> int list) option" where
  "conv_loop from_bits to_bits acc bits out [] = Some (acc, bits, out)"
| "conv_loop from_bits to_bits acc bits out (v # vs) =
     (if v < 0 \<or> drop_bit from_bits v \<noteq> 0 then None
      else let acc' = push_bit from_bits acc OR v;
               (bits', out') = conv_emit to_bits acc' (bits + from_bits) out
           in conv_loop from_bits to_bits acc' bits' out' vs)"

definition convert_bits :: "int list \<Rightarrow> nat \<Rightarrow> nat \<Rightarrow> bool \<Rightarrow> int list option" where
  "convert_bits values from_bits to_bits pad =
     (case conv_loop from_bits to_bits 0 0 [] values of
        None \<Rightarrow> None
      | Some (acc, bits, out) \<Rightarrow>
          (let rest = push_bit (to_bits - bits) acc AND (2 ^ to_bits - 1) in
           if pad \<and> bits \<noteq> 0 then Some (out @ [rest])
           else if from_bits \<le> bits \<or> rest \<noteq> 0 then None else Some out))"

definition rfind :: "char \<Rightarrow> string \<Rightarrow> nat option" where
  "rfind c s = (if c \<in> set s then Some (length s - 1 - length (takeWhile (\<lambda>x. x \<noteq> c) (rev s))) else None)"

definition charset_index :: "char \<Rightarrow> int option" where
  "charset_index c = (if c \<in> set BECH32_CHARSET
     then Some (int (length (takeWhile (\<lambda>x. x \<noteq> c) BECH32_CHARSET))) else None)"

definition validate_account_address :: "string \<Rightarrow> network_profile \<Rightarrow> bool" where
  "validate_account_address address profile =
     (if \<not> (8 \<le> length address \<and> length address \<le> 90) \<or> address \<noteq> py_lower address then False
      else if list_ex (\<lambda>c. of_char c < (33 :: nat) \<or> (126 :: nat) < of_char c) address then False
      else case rfind (CHR ''1'') address of
             None \<Rightarrow> False
           | Some separator \<Rightarrow>
               if separator < 1 \<or> length address < separator + 7 \<or> take separator address \<noteq> account_hrp profile
               then False
               else let cs = drop (separator + 1) address in
                    if list_ex (\<lambda>c. charset_index c = None) cs then False
                    else let values = map (\<lambda>c. the (charset_index c)) cs in
                         if polymod (expand_hrp (account_hrp profile) @ values) \<noteq> 1 then False
                         else case convert_bits (take (length values - 6) values) 5 8 False of
                                None \<Rightarrow> False
                              | Some payload \<Rightarrow> length payload = account_payload_length profile)"

section \<open>Address shape\<close>

lemma conv_emit_spec:
  "0 < to_bits \<Longrightarrow> conv_emit to_bits acc bits out = (b, o') \<Longrightarrow>
   b = bits mod to_bits \<and> length o' = length out + bits div to_bits"
proof (induction to_bits acc bits out arbitrary: b o' rule: conv_emit.induct)
  case (1 to_bits acc bits out)
  show ?case
  proof (cases "bits < to_bits")
    case True
    with "1.prems" show ?thesis by (simp add: conv_emit.simps [of to_bits acc bits])
  next
    case False
    then show ?thesis
      using "1.IH" [of b o'] "1.prems"
      by (simp add: conv_emit.simps [of to_bits acc bits] le_mod_geq le_div_geq)
  qed
qed

lemma conv_loop_spec:
  "0 < to_bits \<Longrightarrow> conv_loop from_bits to_bits acc bits out vs = Some (acc', bits', out') \<Longrightarrow> bits < to_bits \<Longrightarrow>
   bits' = (bits + length vs * from_bits) mod to_bits \<and>
   length out' = length out + (bits + length vs * from_bits) div to_bits"
proof (induction from_bits to_bits acc bits out vs rule: conv_loop.induct)
  case (2 from_bits to_bits acc bits out v vs)
  obtain b ob where emit: "conv_emit to_bits (push_bit from_bits acc OR v) (bits + from_bits) out = (b, ob)"
    by fastforce
  note e = conv_emit_spec [OF "2.prems"(1) emit]
  have v: "\<not> (v < 0 \<or> drop_bit from_bits v \<noteq> 0)" using "2.prems"(2) by (auto split: if_splits)
  with "2.prems" emit have "conv_loop from_bits to_bits (push_bit from_bits acc OR v) b ob vs = Some (acc', bits', out')"
    by simp
  with "2.IH" [OF v refl emit [symmetric] refl] "2.prems"(1) e
  have "bits' = (b + length vs * from_bits) mod to_bits \<and>
        length out' = length ob + (b + length vs * from_bits) div to_bits" by simp
  moreover have "bits + length (v # vs) * from_bits = (b + length vs * from_bits) + to_bits * ((bits + from_bits) div to_bits)"
    using e by (simp add: algebra_simps)
  moreover have "(x + to_bits * q) mod to_bits = x mod to_bits" "(x + to_bits * q) div to_bits = q + x div to_bits" for x q
    using "2.prems"(1) by simp_all
  ultimately show ?case using e by (metis add.assoc)
qed simp

lemma convert_bits_length:
  assumes "convert_bits vs 5 8 False = Some out"
  shows "length out = 5 * length vs div 8" and "5 * length vs mod 8 < 5"
proof -
  obtain acc bits o' where l: "conv_loop 5 8 0 0 [] vs = Some (acc, bits, o')" and "o' = out" "bits < 5"
    using assms by (auto simp: convert_bits_def Let_def split: option.splits if_splits)
  with conv_loop_spec [OF _ l] show "length out = 5 * length vs div 8" "5 * length vs mod 8 < 5"
    by (simp_all add: mult.commute)
qed

lemma rfind_Some: "rfind c s = Some i \<Longrightarrow> i < length s \<and> s ! i = c"
proof -
  assume r: "rfind c s = Some i"
  define k where "k = length (takeWhile (\<lambda>x. x \<noteq> c) (rev s))"
  have mem: "c \<in> set (rev s)" and i: "i = length s - 1 - k" using r by (auto simp: rfind_def k_def split: if_splits)
  have k: "k < length (rev s)"
  proof (rule ccontr)
    assume "\<not> k < length (rev s)"
    then have "k = length (rev s)" using length_takeWhile_le [of "\<lambda>x. x \<noteq> c" "rev s"] by (simp add: k_def)
    then have "takeWhile (\<lambda>x. x \<noteq> c) (rev s) = rev s" by (metis k_def take_all_iff takeWhile_eq_take order_refl)
    with mem show False by (metis (mono_tags, lifting) takeWhile_eq_all_conv)
  qed
  then have "rev s ! k = c" using nth_length_takeWhile [of "\<lambda>x. x \<noteq> c" "rev s"] by (simp add: k_def)
  with k i show ?thesis by (simp add: rev_nth)
qed

lemma charset_index_in: "charset_index c \<noteq> None \<Longrightarrow> c \<in> set BECH32_CHARSET"
  by (auto simp: charset_index_def split: if_splits)

section \<open>Participants\<close>

text \<open>A participant row is the tuple (message index, role, address); tuples sort lexicographically.\<close>

type_synonym participant = "nat \<times> string \<times> string"

definition message_participants :: "nat \<times> jobj \<Rightarrow> participant list" where
  "message_participants im =
     concat (map (\<lambda>role. case oget (snd im) role of
               JStr a \<Rightarrow> if validate_account_address a (gno_profile []) then [(fst im, role, a)] else []
             | _ \<Rightarrow> []) [''sender'', ''recipient''])"

definition extract_transaction_participants :: "json \<Rightarrow> participant list" where
  "extract_transaction_participants summary =
     (case summary of
        JObj s \<Rightarrow>
          if oget s ''parse_status'' \<noteq> JStr ''parsed'' then []
          else (case oget s ''messages'' of
                  JList messages \<Rightarrow>
                    if MAX_MESSAGES < length messages \<or> list_ex (\<lambda>m. \<not> is_dict m) messages then []
                    else sort (remdups (concat (map (\<lambda>(i, m). message_participants
                           (i, case m of JObj kvs \<Rightarrow> kvs | _ \<Rightarrow> [])) (enum0 messages))))
                | _ \<Rightarrow> [])
      | _ \<Rightarrow> [])"

definition account_address_shape :: "string \<Rightarrow> bool" where
  "account_address_shape a \<longleftrightarrow> length a = 40 \<and> take 2 a = ''g1'' \<and> list_all (\<lambda>c. c \<in> set BECH32_CHARSET) (drop 2 a)"

definition sample_address :: string where
  "sample_address = ''g1'' @ replicate 32 (CHR ''q'') @ ''qluuxe''"

lemma sample_address_valid: "validate_account_address sample_address (gno_profile c)"
  unfolding validate_account_address_def gno_profile_def sample_address_def by code_simp

section \<open>Properties\<close>

text \<open>C19: an address accepted by the bech32 validation of the Gno profile has exactly the shape the
  database columns demand: \<open>g1\<close> followed by 38 characters of the bech32 alphabet.\<close>

theorem valid_address_shape:
  assumes "validate_account_address a (gno_profile c)"
  shows "account_address_shape a"
proof -
  obtain sep out where sep: "rfind (CHR ''1'') a = Some sep" "take sep a = ''g''"
    and len: "sep + 7 \<le> length a"
    and cs: "list_all (\<lambda>c. charset_index c \<noteq> None) (drop (sep + 1) a)"
    and conv: "convert_bits (take (length (drop (sep + 1) a) - 6) (map (\<lambda>c. the (charset_index c)) (drop (sep + 1) a))) 5 8 False = Some out"
      "length out = 20"
    using assms
    by (auto simp: validate_account_address_def gno_profile_def Let_def list_ex_iff list_all_iff
        split: if_splits option.splits)
  have "sep = 1" using arg_cong [OF sep(2), of length] len by simp
  define n where "n = length a - 8"
  have "5 * n div 8 = 20" "5 * n mod 8 < 5"
    using convert_bits_length [OF conv(1)] conv(2) \<open>sep = 1\<close> by (simp_all add: n_def)
  then have "n = 32" by presburger
  then have "length a = 40" by (simp add: n_def)
  moreover have "take 2 a = ''g1''"
    using sep \<open>sep = 1\<close> rfind_Some [OF sep(1)]
    by (cases a) (auto simp: numeral_2_eq_2 take_Suc_conv_app_nth)
  moreover have "list_all (\<lambda>c. c \<in> set BECH32_CHARSET) (drop 2 a)"
    using cs charset_index_in \<open>sep = 1\<close> by (auto simp: list_all_iff numeral_2_eq_2)
  ultimately show ?thesis by (simp add: account_address_shape_def)
qed

lemma message_participants_iff:
  "x \<in> set (message_participants (i, m)) \<longleftrightarrow>
   (\<exists>role a. x = (i, role, a) \<and> role \<in> {''sender'', ''recipient''} \<and> oget m role = JStr a \<and>
      validate_account_address a (gno_profile []))"
  by (auto simp: message_participants_def split: json.splits if_splits)

lemma participants_parsed:
  assumes "list_all is_dict ms" "length ms \<le> MAX_MESSAGES"
    and "oget s ''parse_status'' = JStr ''parsed''" "oget s ''messages'' = JList ms"
  shows "(i, role, a) \<in> set (extract_transaction_participants (JObj s)) \<longleftrightarrow>
      role \<in> {''sender'', ''recipient''} \<and> i < length ms \<and>
      (\<exists>m. ms ! i = JObj m \<and> oget m role = JStr a) \<and> validate_account_address a (gno_profile [])"
proof -
  have nd: "\<not> list_ex (\<lambda>m. \<not> is_dict m) ms" using assms(1) by (auto simp: list_all_iff list_ex_iff)
  have "(i, role, a) \<in> set (extract_transaction_participants (JObj s)) \<longleftrightarrow>
    (\<exists>j m. j < length ms \<and> ms ! j = m \<and>
       (i, role, a) \<in> set (message_participants (j, case m of JObj kvs \<Rightarrow> kvs | _ \<Rightarrow> [])))"
    using assms nd by (auto simp: extract_transaction_participants_def in_set_enumerate_eq image_iff Bex_def)
  moreover have "is_dict (ms ! i)" if "i < length ms" using assms(1) that by (simp add: list_all_length)
  ultimately show ?thesis
    by (auto simp: message_participants_iff split: json.splits)
qed

theorem valid_address_shape_witness: "account_address_shape sample_address"
  using valid_address_shape [OF sample_address_valid] .

text \<open>the participant rows of a parsed summary are strictly sorted (so without duplicates), and
  they are exactly the well-formed addresses: there is a row (index, role, address) if and only if the role
  is \<open>sender\<close> or \<open>recipient\<close>, the index is that of a message, that message carries the
  string address in that role, and the address passes the bech32 validation.\<close>

theorem participants_exact:
  assumes "oget s ''parse_status'' = JStr ''parsed''" and "oget s ''messages'' = JList ms"
    and "list_all is_dict ms" and "length ms \<le> MAX_MESSAGES"
  shows "sorted_wrt (<) (extract_transaction_participants (JObj s)) \<and>
    (\<forall>i role a. (i, role, a) \<in> set (extract_transaction_participants (JObj s)) \<longleftrightarrow>
      role \<in> {''sender'', ''recipient''} \<and> i < length ms \<and>
      (\<exists>m. ms ! i = JObj m \<and> oget m role = JStr a) \<and> validate_account_address a (gno_profile []))"
proof
  show "sorted_wrt (<) (extract_transaction_participants (JObj s))"
    using assms by (simp add: extract_transaction_participants_def strict_sorted_iff)
qed (intro allI, rule participants_parsed [OF assms(3,4,1,2)])

theorem participants_exact_witness:
  "(0, ''sender'', sample_address) \<in> set (extract_transaction_participants (JObj
     [(''parse_status'', JStr ''parsed''), (''messages'', JList [JObj [(''sender'', JStr sample_address)]])]))"
  using participants_exact [of "[(''parse_status'', JStr ''parsed''), (''messages'', JList [JObj [(''sender'', JStr sample_address)]])]"
      "[JObj [(''sender'', JStr sample_address)]]"] sample_address_valid [of "[]"]
  by (simp add: oget_def MAX_MESSAGES_def)

end
