(* ===== verification/Py_Effects.thy ===== *)
theory Py_Effects
  imports Prelude
begin

text \<open>
  Computations that change a state and may raise: what happened before an exception stays, as in the program.
\<close>

type_synonym ('w, 'a) act = "'w \<Rightarrow> 'a res \<times> 'w"

definition retS :: "'a \<Rightarrow> ('w, 'a) act" where
  "retS x w = (Inr x, w)"

definition bindS :: "('w, 'a) act \<Rightarrow> ('a \<Rightarrow> ('w, 'b) act) \<Rightarrow> ('w, 'b) act" where
  "bindS m f w = (case m w of (Inl e, w') \<Rightarrow> (Inl e, w') | (Inr x, w') \<Rightarrow> f x w')"

text \<open>A computation that does not touch the state.\<close>

definition liftS :: "'a res \<Rightarrow> ('w, 'a) act" where
  "liftS r w = (r, w)"

definition modifyS :: "('w \<Rightarrow> 'w) \<Rightarrow> ('w, unit) act" where
  "modifyS f w = (Inr (), f w)"

lemma bindS_snd:
  assumes "bindS m f w = (r, w')"
  obtains (raised) e where "m w = (Inl e, w')" "r = Inl e"
    | (ran) x w1 where "m w = (Inr x, w1)" "f x w1 = (r, w')"
  using assms by (cases "m w"; cases "fst (m w)") (auto simp: bindS_def)

lemma bindS_Inr: "m w = (Inr x, w1) \<Longrightarrow> bindS m f w = f x w1"
  by (simp add: bindS_def)

end
