(* ===== verification/Hashes.thy ===== *)
theory Hashes
  imports Py_Text
begin

text \<open>
  The two \<open>hashlib\<close> digests the program computes: SHA-256 of the decoded transaction bytes
  (\<open>parse_tx\<close>) and the 8-byte personalised BLAKE2b of the chain id (\<open>advisory_lock_key\<close>),
  written out over machine words from FIPS 180-4 and RFC 7693.
\<close>

unbundle bit_operations_syntax

section \<open>SHA-256\<close>

type_synonym w32 = "32 word"

definition sha_k :: "w32 list" where
  "sha_k =
     [1116352408, 1899447441, 3049323471, 3921009573, 961987163, 1508970993, 2453635748, 2870763221,
      3624381080, 310598401, 607225278, 1426881987, 1925078388, 2162078206, 2614888103, 3248222580,
      3835390401, 4022224774, 264347078, 604807628, 770255983, 1249150122, 1555081692, 1996064986,
      2554220882, 2821834349, 2952996808, 3210313671, 3336571891, 3584528711, 113926993, 338241895,
      666307205, 773529912, 1294757372, 1396182291, 1695183700, 1986661051, 2177026350, 2456956037,
      2730485921, 2820302411, 3259730800, 3345764771, 3516065817, 3600352804, 4094571909, 275423344,
      430227734, 506948616, 659060556, 883997877, 958139571, 1322822218, 1537002063, 1747873779,
      1955562222, 2024104815, 2227730452, 2361852424, 2428436474, 2756734187, 3204031479, 3329325298]"

definition sha_h0 :: "w32 list" where
  "sha_h0 = [0x6a09e667, 0xbb67ae85, 0x3c6ef372, 0xa54ff53a, 0x510e527f, 0x9b05688c, 0x1f83d9ab, 0x5be0cd19]"

definition rotr32 :: "nat \<Rightarrow> w32 \<Rightarrow> w32" where
  "rotr32 n x = drop_bit n x OR push_bit (32 - n) x"

text \<open>A byte string as big-endian words, after the one bit, the zero padding and the bit length.\<close>

fun be_words :: "bytes \<Rightarrow> w32 list" where
  "be_words (a # b # c # d # bs) =
     word_of_nat (unat a * 16777216 + unat b * 65536 + unat c * 256 + unat d) # be_words bs"
| "be_words _ = []"

definition be_bytes :: "nat \<Rightarrow> nat \<Rightarrow> bytes" where
  "be_bytes k n = map (\<lambda>i. word_of_nat (n div 256 ^ (k - 1 - i))) [0..<k]"

definition sha_pad :: "bytes \<Rightarrow> bytes" where
  "sha_pad m = m @ [0x80] @ replicate ((119 - length m mod 64) mod 64) 0 @ be_bytes 8 (8 * length m)"

text \<open>The message schedule, extended one word at a time from the 16 words of a block.\<close>

fun sha_sched :: "nat \<Rightarrow> w32 list \<Rightarrow> w32 list" where
  "sha_sched 0 w = w"
| "sha_sched (Suc k) w =
     (let n = length w; x15 = w ! (n - 15); x2 = w ! (n - 2);
          s0 = rotr32 7 x15 XOR rotr32 18 x15 XOR drop_bit 3 x15;
          s1 = rotr32 17 x2 XOR rotr32 19 x2 XOR drop_bit 10 x2
      in sha_sched k (w @ [w ! (n - 16) + s0 + w ! (n - 7) + s1]))"

definition sha_round :: "w32 list \<Rightarrow> w32 \<times> w32 \<Rightarrow> w32 list" where
  "sha_round st kw =
     (case st of
        [a, b, c, d, e, f, g, h] \<Rightarrow>
          (let s1 = rotr32 6 e XOR rotr32 11 e XOR rotr32 25 e;
               ch = (e AND f) XOR (NOT e AND g);
               t1 = h + s1 + ch + fst kw + snd kw;
               s0 = rotr32 2 a XOR rotr32 13 a XOR rotr32 22 a;
               maj = (a AND b) XOR (a AND c) XOR (b AND c)
           in [t1 + (s0 + maj), a, b, c, d + t1, e, f, g])
      | _ \<Rightarrow> st)"

definition sha_block :: "w32 list \<Rightarrow> w32 list \<Rightarrow> w32 list" where
  "sha_block hs block = map2 (+) hs (foldl sha_round hs (zip sha_k (sha_sched 48 block)))"

fun sha_blocks :: "nat \<Rightarrow> w32 list \<Rightarrow> w32 list \<Rightarrow> w32 list" where
  "sha_blocks 0 hs ws = hs"
| "sha_blocks (Suc k) hs ws = sha_blocks k (sha_block hs (take 16 ws)) (drop 16 ws)"

definition sha256 :: "bytes \<Rightarrow> bytes" where
  "sha256 m =
     (let ws = be_words (sha_pad m)
      in concat (map (\<lambda>w. be_bytes 4 (unat w)) (sha_blocks (length ws div 16) sha_h0 ws)))"

section \<open>BLAKE2b\<close>

type_synonym w64 = "64 word"

definition blake_iv :: "w64 list" where
  "blake_iv = [0x6a09e667f3bcc908, 0xbb67ae8584caa73b, 0x3c6ef372fe94f82b, 0xa54ff53a5f1d36f1,
      0x510e527fade682d1, 0x9b05688c2b3e6c1f, 0x1f83d9abfb41bd6b, 0x5be0cd19137e2179]"

definition blake_sigma :: "nat list list" where
  "blake_sigma =
     [[0, 1, 2, 3, 4, 5, 6, 7, 8, 9, 10, 11, 12, 13, 14, 15],
      [14, 10, 4, 8, 9, 15, 13, 6, 1, 12, 0, 2, 11, 7, 5, 3],
      [11, 8, 12, 0, 5, 2, 15, 13, 10, 14, 3, 6, 7, 1, 9, 4],
      [7, 9, 3, 1, 13, 12, 11, 14, 2, 6, 5, 10, 4, 0, 15, 8],
      [9, 0, 5, 7, 2, 4, 10, 15, 14, 1, 11, 12, 6, 8, 3, 13],
      [2, 12, 6, 10, 0, 11, 8, 3, 4, 13, 7, 5, 15, 14, 1, 9],
      [12, 5, 1, 15, 14, 13, 4, 10, 0, 7, 6, 3, 9, 2, 8, 11],
      [13, 11, 7, 14, 12, 1, 3, 9, 5, 0, 15, 4, 8, 6, 2, 10],
      [6, 15, 14, 9, 11, 3, 0, 8, 12, 2, 13, 7, 1, 4, 10, 5],
      [10, 2, 8, 4, 7, 6, 1, 5, 15, 11, 9, 14, 3, 12, 13, 0]]"

definition rotr64 :: "nat \<Rightarrow> w64 \<Rightarrow> w64" where
  "rotr64 n x = drop_bit n x OR push_bit (64 - n) x"

definition blake_g :: "nat \<Rightarrow> nat \<Rightarrow> nat \<Rightarrow> nat \<Rightarrow> w64 \<Rightarrow> w64 \<Rightarrow> w64 list \<Rightarrow> w64 list" where
  "blake_g ia ib ic j x y v =
     (let a = v ! ia + v ! ib + x; d = rotr64 32 (v ! j XOR a);
          c = v ! ic + d; b = rotr64 24 (v ! ib XOR c);
          a' = a + b + y; d' = rotr64 16 (d XOR a');
          c' = c + d'; b' = rotr64 63 (b XOR c')
      in v[ia := a', ib := b', ic := c', j := d'])"

definition blake_round :: "w64 list \<Rightarrow> w64 list \<Rightarrow> nat list \<Rightarrow> w64 list" where
  "blake_round m v s =
     (let g = (\<lambda>ia ib ic j i v. blake_g ia ib ic j (m ! (s ! (2 * i))) (m ! (s ! (2 * i + 1))) v)
      in g 3 4 9 14 7 (g 2 7 8 13 6 (g 1 6 11 12 5 (g 0 5 10 15 4
           (g 3 7 11 15 3 (g 2 6 10 14 2 (g 1 5 9 13 1 (g 0 4 8 12 0 v))))))))"

definition blake_compress :: "w64 list \<Rightarrow> w64 list \<Rightarrow> nat \<Rightarrow> bool \<Rightarrow> w64 list" where
  "blake_compress h m t fin =
     (let v0 = h @ blake_iv;
          v1 = v0[12 := v0 ! 12 XOR word_of_nat t];
          v2 = (if fin then v1[14 := NOT (v1 ! 14)] else v1);
          v = foldl (blake_round m) v2 (blake_sigma @ take 2 blake_sigma)
      in map (\<lambda>i. h ! i XOR v ! i XOR v ! (i + 8)) [0..<8])"

fun le_nat :: "bytes \<Rightarrow> nat" where
  "le_nat [] = 0"
| "le_nat (b # bs) = unat b + 256 * le_nat bs"

definition le_words :: "bytes \<Rightarrow> w64 list" where
  "le_words bs = map (\<lambda>i. word_of_nat (le_nat (take 8 (drop (8 * i) bs)))) [0..<16]"

fun blake_blocks :: "nat \<Rightarrow> w64 list \<Rightarrow> nat \<Rightarrow> bytes \<Rightarrow> w64 list" where
  "blake_blocks 0 h t bs = h"
| "blake_blocks (Suc k) h t bs =
     (if length bs \<le> 128
      then blake_compress h (le_words (bs @ replicate (128 - length bs) 0)) (t + length bs) True
      else blake_blocks k (blake_compress h (le_words (take 128 bs)) (t + 128) False) (t + 128) (drop 128 bs))"

text \<open>
  \<open>blake2b(data, digest_size=8, person=p)\<close>: digest length 8, fan-out and depth 1 in the
  first parameter word, the 8 personalisation bytes (zero padded to 16) in the seventh and
  eighth; the digest is the first state word, little-endian. \<open>length data div 128 + 1\<close>
  blocks are always enough.
\<close>

definition blake2b_8 :: "bytes \<Rightarrow> bytes \<Rightarrow> bytes" where
  "blake2b_8 person data =
     (let pp = person @ replicate (16 - length person) 0;
          h = blake_iv[0 := blake_iv ! 0 XOR 0x01010008,
                       6 := blake_iv ! 6 XOR word_of_nat (le_nat (take 8 pp)),
                       7 := blake_iv ! 7 XOR word_of_nat (le_nat (take 8 (drop 8 pp)))];
          w = blake_blocks (length data div 128 + 1) h 0 data ! 0
      in map (\<lambda>i. word_of_nat (unat w div 256 ^ i)) [0..<8])"

section \<open>Digest sizes\<close>

lemma length_be_bytes [simp]: "length (be_bytes k n) = k"
  by (simp add: be_bytes_def)

lemma length_foldl_sha_round: "length (foldl sha_round st kws) = length st"
proof (induction kws arbitrary: st)
  case (Cons kw kws)
  have "length (sha_round st kw) = length st"
    by (simp add: sha_round_def Let_def split: list.split)
  with Cons show ?case by simp
qed simp

lemma length_sha_blocks: "length (sha_blocks k hs ws) = length hs"
  by (induction k arbitrary: hs ws) (simp_all add: sha_block_def length_foldl_sha_round)

lemma length_sha256 [simp]: "length (sha256 m) = 32"
proof -
  have "\<And>ws k hs. length (concat (map (\<lambda>w. be_bytes 4 (unat w)) (sha_blocks k hs ws))) = 4 * length hs"
    by (simp add: length_concat comp_def sum_list_triv length_sha_blocks)
  moreover have "length sha_h0 = 8" by (simp add: sha_h0_def)
  ultimately show ?thesis by (simp add: sha256_def Let_def)
qed

lemma length_blake2b_8 [simp]: "length (blake2b_8 p d) = 8"
  by (simp add: blake2b_8_def Let_def)

end
