(* ===== verification/Parsers.thy ===== *)
theory Parsers
  imports Inspect_Rpc Tx_Summary Hashes "HOL-Library.AList" "HOL-Library.Product_Lexorder"
begin

text \<open>
  \<open>indexer/parsers.py\<close>: transactions, block identifiers, the classification of every active
  validator's vote, execution results, and the consistent record of one height. The
  transaction decoder is a parameter, as in the code: \<open>None\<close>, or a function from the base64
  text and the decoded length to a value or an exception.
\<close>

section \<open>Transactions\<close>

type_synonym decoder = "(string \<Rightarrow> nat \<Rightarrow> json res) option"

record parsed_tx =
  tx_index :: nat
  tx_raw_base64 :: string
  tx_raw_base64_length :: nat
  tx_decoded_bytes :: "bytes option"
  tx_decoded_byte_length :: "nat option"
  tx_decode_status :: string
  tx_hash_hex :: "string option"
  tx_payload_summary :: tx_summary

definition decode_summary :: "decoder \<Rightarrow> string \<Rightarrow> nat \<Rightarrow> tx_summary" where
  "decode_summary transaction_decoder raw_base64 len =
     (case transaction_decoder of
        None \<Rightarrow> generic_summary ''unparsed''
      | Some decode \<Rightarrow>
          (case decode raw_base64 len of
             Inl _ \<Rightarrow> generic_summary ''unparsed''
           | Inr candidate \<Rightarrow>
               if candidate = JNull then generic_summary ''unparsed''
               else let normalized = normalize_summary candidate ''unparsed'' in
                    if sm_parse_status normalized \<in> {''parsed'', ''unsupported''} then normalized
                    else generic_summary ''unparsed''))"

definition parse_tx :: "nat \<Rightarrow> json \<Rightarrow> decoder \<Rightarrow> parsed_tx" where
  "parse_tx index tx transaction_decoder =
     (let raw_base64 = tx_text tx in
      case b64decode raw_base64 of
        None \<Rightarrow>
          \<lparr>tx_index = index, tx_raw_base64 = raw_base64, tx_raw_base64_length = length raw_base64,
           tx_decoded_bytes = None, tx_decoded_byte_length = None, tx_decode_status = ''invalid_base64'',
           tx_hash_hex = None, tx_payload_summary = generic_summary ''invalid''\<rparr>
      | Some decoded \<Rightarrow>
          \<lparr>tx_index = index, tx_raw_base64 = raw_base64, tx_raw_base64_length = length raw_base64,
           tx_decoded_bytes = Some decoded, tx_decoded_byte_length = Some (length decoded),
           tx_decode_status = ''decoded'', tx_hash_hex = Some (hex_upper (sha256 decoded)),
           tx_payload_summary = decode_summary transaction_decoder raw_base64 (length decoded)\<rparr>)"

record parsed_block =
  pb_hash_base64 :: string
  pb_hash_hex :: string
  pb_height :: "int option"
  pb_time :: json
  pb_proposer_address :: json
  pb_tx_count :: int
  pb_transactions :: "parsed_tx list"

text \<open>The second, tolerant walk to the transactions: \<open>a.get(k) or {}\<close>.\<close>

definition get_or_empty :: "json \<Rightarrow> string \<Rightarrow> json res" where
  "get_or_empty j k = bindE (jget j k) (\<lambda>v. Inr (py_or v (JObj [])))"

definition block_txs :: "jobj \<Rightarrow> json list res" where
  "block_txs payload =
     bindE (get_or_empty (JObj payload) ''result'') (\<lambda>r.
     bindE (get_or_empty r ''block'') (\<lambda>b.
     bindE (get_or_empty b ''data'') (\<lambda>d.
     bindE (jget d ''txs'') (\<lambda>txs. py_iter (py_or txs (JList []))))))"

definition parse_block :: "jobj \<Rightarrow> decoder \<Rightarrow> parsed_block res" where
  "parse_block payload transaction_decoder =
     bindE (legacy_parse_block payload) (\<lambda>parsed.
     bindE (block_txs payload) (\<lambda>txs.
     Inr \<lparr>pb_hash_base64 = bi_hash_base64 parsed, pb_hash_hex = bi_hash_hex parsed, pb_height = bi_height parsed,
          pb_time = bi_time parsed, pb_proposer_address = bi_proposer_address parsed, pb_tx_count = bi_tx_count parsed,
          pb_transactions = map (\<lambda>(i, tx). parse_tx i tx transaction_decoder) (enum0 txs)\<rparr>))"

section \<open>Block identifiers\<close>

definition ZERO_HASHES :: "string list" where
  "ZERO_HASHES = [[], ''AA=='', ''AAA='', ''AAAA'', replicate 43 (CHR ''A'') @ ''='']"

record normalized_block_id =
  nb_hash_base64 :: "string option"
  nb_hash_hex :: "string option"
  nb_parts_total :: "int option"
  nb_parts_hash_base64 :: "string option"
  nb_parts_hash_hex :: "string option"
  nb_is_zero :: bool

definition str_opt :: "json \<Rightarrow> string option" where
  "str_opt j = (case j of JStr s \<Rightarrow> Some s | _ \<Rightarrow> None)"

text \<open>\<open>h is None or h in ZERO_HASHES\<close>.\<close>

definition zero_hash :: "json \<Rightarrow> bool res" where
  "zero_hash h = (if h = JNull then Inr True else in_str_set h ZERO_HASHES)"

text \<open>Short-circuit conjunction of conditions that may raise.\<close>

definition andE :: "bool res \<Rightarrow> bool res \<Rightarrow> bool res" where
  "andE a b = bindE a (\<lambda>x. if x then b else Inr False)"

definition nonempty_str :: "py_error \<Rightarrow> json \<Rightarrow> string res" where
  "nonempty_str e j = bindE (str_or e j) (\<lambda>s. bindE (guardE (s \<noteq> []) e) (\<lambda>_. Inr s))"

definition normalize_block_id :: "json \<Rightarrow> normalized_block_id res" where
  "normalize_block_id block_id =
     bindE (dict_or (RpcError ''Malformed '') block_id) (\<lambda>b.
     let block_hash = py_or (oget b ''hash'') (oget b ''Hash'') in
     bindE (dict_or (RpcError ''Malformed '')
              (py_or (oget b ''parts'') (py_or (oget b ''parts_header'') (py_or (oget b ''PartsHeader'') (JObj []))))) (\<lambda>parts.
     bindE (to_int (py_or (oget parts ''total'') (oget parts ''Total''))) (\<lambda>parts_total.
     let parts_hash = py_or (oget parts ''hash'') (oget parts ''Hash'') in
     bindE (andE (zero_hash block_hash) (andE (Inr (parts_total \<in> {None, Some 0})) (zero_hash parts_hash))) (\<lambda>is_zero.
     if is_zero
     then Inr \<lparr>nb_hash_base64 = str_opt block_hash, nb_hash_hex = None, nb_parts_total = parts_total,
               nb_parts_hash_base64 = str_opt parts_hash, nb_parts_hash_hex = None, nb_is_zero = True\<rparr>
     else
       bindE (nonempty_str (RpcError ''Malformed '') block_hash) (\<lambda>bh.
       bindE (guardE (case parts_total of None \<Rightarrow> False | Some n \<Rightarrow> 0 \<le> n) (RpcError ''Malformed '')) (\<lambda>_.
       bindE (nonempty_str (RpcError ''Malformed '') parts_hash) (\<lambda>ph.
       bindE (decode_base64 block_hash) (\<lambda>bh_bytes.
       bindE (decode_base64 parts_hash) (\<lambda>ph_bytes.
       Inr \<lparr>nb_hash_base64 = Some bh, nb_hash_hex = Some (hex_upper bh_bytes), nb_parts_total = parts_total,
            nb_parts_hash_base64 = Some ph, nb_parts_hash_hex = Some (hex_upper ph_bytes), nb_is_zero = False\<rparr>)))))))))"

definition block_ids_match :: "normalized_block_id \<Rightarrow> normalized_block_id \<Rightarrow> bool" where
  "block_ids_match left right =
     (\<not> nb_is_zero left \<and> \<not> nb_is_zero right \<and> nb_hash_base64 left = nb_hash_base64 right \<and>
      nb_parts_total left = nb_parts_total right \<and> nb_parts_hash_base64 left = nb_parts_hash_base64 right)"

section \<open>Votes\<close>

record vote_record =
  sr_height :: int
  sr_signing_address :: json
  sr_vote_status :: string
  sr_signed :: bool
  sr_hash_base64 :: "string option"
  sr_hash_hex :: "string option"
  sr_parts_total :: "int option"
  sr_parts_hash_base64 :: "string option"
  sr_parts_hash_hex :: "string option"
  sr_is_zero :: bool
  sr_matches_commit :: bool
  sr_signature :: "string option"
  sr_raw_precommit :: json

definition signature_row ::
  "int \<Rightarrow> json \<Rightarrow> string \<Rightarrow> bool \<Rightarrow> normalized_block_id option \<Rightarrow> bool \<Rightarrow> bool \<Rightarrow> string option \<Rightarrow> json \<Rightarrow> vote_record" where
  "signature_row height address status is_signed block_id is_zero matches_commit signature raw_precommit =
     \<lparr>sr_height = height, sr_signing_address = address, sr_vote_status = status, sr_signed = is_signed,
      sr_hash_base64 = Option.bind block_id nb_hash_base64, sr_hash_hex = Option.bind block_id nb_hash_hex,
      sr_parts_total = Option.bind block_id nb_parts_total,
      sr_parts_hash_base64 = Option.bind block_id nb_parts_hash_base64,
      sr_parts_hash_hex = Option.bind block_id nb_parts_hash_hex, sr_is_zero = is_zero,
      sr_matches_commit = matches_commit, sr_signature = signature, sr_raw_precommit = raw_precommit\<rparr>"

definition precommit_block_id :: "jobj \<Rightarrow> json" where
  "precommit_block_id precommit =
     py_or (oget precommit ''block_id'') (py_or (oget precommit ''blockID'') (oget precommit ''BlockID''))"

definition precommit_signature :: "jobj \<Rightarrow> string option" where
  "precommit_signature precommit = str_opt (oget precommit ''signature'')"

definition SUPPORTED_SIGNATURE_KEY_TYPES :: "string list" where
  "SUPPORTED_SIGNATURE_KEY_TYPES = [''/tm.PubKeyEd25519'', ''/tm.PubKeySecp256k1'']"

definition usable_signature :: "string option \<Rightarrow> json \<Rightarrow> bool res" where
  "usable_signature signature public_key_type =
     bindE (in_str_set public_key_type SUPPORTED_SIGNATURE_KEY_TYPES) (\<lambda>supported.
     Inr (supported \<and>
          (case signature of
             None \<Rightarrow> False
           | Some s \<Rightarrow> s \<noteq> [] \<and> (case b64decode s of None \<Rightarrow> False | Some bs \<Rightarrow> length bs = 64))))"

definition classify_precommit ::
  "int \<Rightarrow> json \<Rightarrow> jobj \<Rightarrow> normalized_block_id \<Rightarrow> json \<Rightarrow> vote_record res" where
  "classify_precommit height address precommit commit_block_id public_key_type =
     (case normalize_block_id (precommit_block_id precommit) of
        Inl e \<Rightarrow>
          if is_RpcError e
          then Inr (signature_row height address ''invalid'' False None False False
                      (precommit_signature precommit) (JObj precommit))
          else Inl e
      | Inr vote_block_id \<Rightarrow>
          (let signature = precommit_signature precommit in
           bindE (usable_signature signature public_key_type) (\<lambda>signature_ok.
           let matches_commit = block_ids_match vote_block_id commit_block_id in
           Inr (if matches_commit \<and> signature_ok
                then signature_row height address ''commit'' True (Some vote_block_id) False True signature JNull
                else if nb_is_zero vote_block_id
                then signature_row height address ''nil'' False (Some vote_block_id) True False signature (JObj precommit)
                else signature_row height address ''invalid'' False (Some vote_block_id) False matches_commit
                       signature (JObj precommit)))))"

text \<open>
  Sets and dictionaries keyed by addresses. An address is any truthy JSON value the response
  holds; membership is Python equality, and a list or dict raises \<open>TypeError\<close>.
\<close>

definition py_set :: "json list \<Rightarrow> json list" where
  "py_set xs = foldl (\<lambda>acc x. if list_ex (py_eq x) acc then acc else acc @ [x]) [] xs"

definition dict_get :: "(json \<times> 'a) list \<Rightarrow> json \<Rightarrow> 'a option" where
  "dict_get kvs k = map_option snd (List.find (\<lambda>kv. py_eq k (fst kv)) kvs)"

text \<open>
  \<open>sorted\<close>: strings by code points, numbers by value, a mixture raises \<open>TypeError\<close>. (NaN, whose
  position Python leaves to the sorting algorithm, is placed last.)
\<close>

definition num_rank :: "json \<Rightarrow> nat \<times> rat" where
  "num_rank j = (case num_val j of Some (Fin r) \<Rightarrow> (1, r) | Some NInf \<Rightarrow> (0, 0) | Some PInf \<Rightarrow> (2, 0) | _ \<Rightarrow> (3, 0))"

definition str_of :: "json \<Rightarrow> string" where
  "str_of j = (case j of JStr s \<Rightarrow> s | _ \<Rightarrow> [])"

definition py_sorted :: "json list \<Rightarrow> json list res" where
  "py_sorted xs =
     (if list_all is_str xs then Inr (sort_key str_of xs)
      else if list_all (\<lambda>x. num_val x \<noteq> None) xs then Inr (sort_key num_rank xs)
      else if length xs \<le> 1 then Inr xs else Inl TypeError)"

record vote_scan =
  vt_malformed :: nat
  vt_outside :: "json list"
  vt_seen :: "(json \<times> jobj) list"
  vt_duplicates :: "json list"

definition scan_precommit :: "json list \<Rightarrow> json \<Rightarrow> vote_scan \<Rightarrow> vote_scan res" where
  "scan_precommit active precommit st =
     (case precommit of
        JNull \<Rightarrow> Inr st
      | JObj p \<Rightarrow>
          (let address = signer_address precommit in
           if \<not> truthy address then Inr (st\<lparr>vt_malformed := vt_malformed st + 1\<rparr>)
           else bindE (in_set address active) (\<lambda>known.
                if \<not> known then Inr (st\<lparr>vt_outside := vt_outside st @ [address]\<rparr>)
                else if dict_get (vt_seen st) address \<noteq> None
                then Inr (st\<lparr>vt_duplicates := vt_duplicates st @ [address]\<rparr>)
                else Inr (st\<lparr>vt_seen := vt_seen st @ [(address, p)]\<rparr>)))
      | _ \<Rightarrow> Inr (st\<lparr>vt_malformed := vt_malformed st + 1\<rparr>))"

definition commit_block_id :: "jobj \<Rightarrow> normalized_block_id res" where
  "commit_block_id commit_payload =
     bindE (get_or_empty (JObj commit_payload) ''result'') (\<lambda>r.
     bindE (jget_default r ''signed_header'' (JObj [])) (\<lambda>sh.
     bindE (jget_default sh ''commit'' (JObj [])) (\<lambda>c.
     bindE (jget c ''block_id'') normalize_block_id)))"

text \<open>\<open>validator_key_types.get(address)\<close>: a later validator with the same address replaces an earlier one.\<close>

definition validator_key_type :: "validator_info list \<Rightarrow> json \<Rightarrow> json" where
  "validator_key_type validators address =
     (case dict_get (rev (map (\<lambda>v. (vi_address v, vi_pub_key_type v)) (filter (\<lambda>v. truthy (vi_address v)) validators))) address of
        None \<Rightarrow> JNull | Some t \<Rightarrow> t)"

definition vote_row ::
  "int \<Rightarrow> vote_scan \<Rightarrow> normalized_block_id \<Rightarrow> validator_info list \<Rightarrow> json \<Rightarrow> vote_record res" where
  "vote_row height scan commit_id validators address =
     (case dict_get (vt_seen scan) address of
        None \<Rightarrow> Inr (signature_row height address ''absent'' False None False False None JNull)
      | Some precommit \<Rightarrow>
          if list_ex (py_eq address) (vt_duplicates scan)
          then Inr (signature_row height address ''invalid'' False None False False None (JObj precommit))
          else classify_precommit height address precommit commit_id (validator_key_type validators address))"

definition classify_votes :: "int \<Rightarrow> jobj \<Rightarrow> json list \<Rightarrow> validator_info list \<Rightarrow> vote_record list res" where
  "classify_votes height commit_payload precommits validators =
     bindE (hash_all (filter truthy (map vi_address validators))) (\<lambda>addresses.
     let active = py_set addresses in
     bindE (commit_block_id commit_payload) (\<lambda>commit_id.
     bindE (foldE (scan_precommit active) precommits
              \<lparr>vt_malformed = 0, vt_outside = [], vt_seen = [], vt_duplicates = []\<rparr>) (\<lambda>scan.
     bindE (guardE (vt_malformed scan = 0) (RpcError ''Malformed non-null precommit: '')) (\<lambda>_.
     bindE (if vt_outside scan = [] then Inr ()
            else if list_all is_str (vt_outside scan) then Inl (RpcError ''Signer outside active validator set: '')
            else Inl TypeError) (\<lambda>_.
     bindE (py_sorted active) (\<lambda>ordered.
     mapE (vote_row height scan commit_id validators) ordered))))))"

section \<open>Execution results\<close>

definition MAX_RESULT_TEXT_BYTES :: nat where "MAX_RESULT_TEXT_BYTES = 65536"
definition MAX_RESULT_JSON_BYTES :: nat where "MAX_RESULT_JSON_BYTES = 262144"

text \<open>NUL is replaced by the six characters of its JSON escape.\<close>

definition sanitize_text :: "string \<Rightarrow> string" where
  "sanitize_text s = concat (map (\<lambda>c. if c = CHR 0x00 then CHR 0x5C # ''u0000'' else [c]) s)"

text \<open>In the dict comprehension a later item with the same sanitised key replaces the value of an earlier one.\<close>

fun sanitize_rpc_value :: "json \<Rightarrow> json" where
  "sanitize_rpc_value (JStr s) = JStr (sanitize_text s)"
| "sanitize_rpc_value (JObj kvs) =
     JObj (fold (\<lambda>(k, v). AList.update k v) (map (\<lambda>(k, v). (sanitize_text k, sanitize_rpc_value v)) kvs) [])"
| "sanitize_rpc_value (JList xs) = JList (map sanitize_rpc_value xs)"
| "sanitize_rpc_value v = v"

definition bounded :: "json \<Rightarrow> nat \<Rightarrow> json res" where
  "bounded v limit =
     (if v = JNull then Inr JNull
      else bindE (guardE (is_str v \<or> is_dict v \<or> is_list v) (RpcError ''Malformed block_results '')) (\<lambda>_.
           let sanitized = sanitize_rpc_value v;
               encoded = (case sanitized of JStr s \<Rightarrow> utf8_len s | _ \<Rightarrow> utf8_len (json_dumps compact_opts sanitized))
           in bindE (guardE (encoded \<le> limit) (RpcError ''block_results '')) (\<lambda>_. Inr sanitized)))"

text \<open>\<open>len(str(parsed))\<close>; more than 4300 digits make \<open>str\<close> raise.\<close>

definition gas_range :: "int \<Rightarrow> int res" where
  "gas_range parsed =
     bindE (guardE (0 \<le> parsed) (RpcError ''Malformed block_results '')) (\<lambda>_.
     let digits = length (str_int parsed) in
     bindE (guardE (digits \<le> max_str_digits) (ValueError ''Exceeds the limit'')) (\<lambda>_.
     bindE (guardE (digits \<le> 78) (RpcError ''Malformed block_results '')) (\<lambda>_. Inr parsed)))"

definition gas :: "json \<Rightarrow> int res" where
  "gas v =
     (case v of
        JInt i \<Rightarrow> gas_range i
      | JStr s \<Rightarrow>
          bindE (guardE (s \<noteq> [] \<and> py_isdigit s) (RpcError ''Malformed block_results '')) (\<lambda>_.
          bindE (py_int v) gas_range)
      | _ \<Rightarrow> Inl (RpcError ''Malformed block_results ''))"

record execution_result =
  er_block_height :: int
  er_tx_index :: nat
  er_execution_status :: string
  er_gas_wanted :: int
  er_gas_used :: int
  er_error_text :: "string option"
  er_log_text :: json
  er_info_text :: json
  er_data_base64 :: json
  er_events :: json
  er_raw_result :: json

text \<open>\<open>d.get(a, d.get(b))\<close>.\<close>

definition get_alt :: "jobj \<Rightarrow> string \<Rightarrow> string \<Rightarrow> json" where
  "get_alt d a b = oget_default d a (oget d b)"

definition execution_error_text :: "json \<Rightarrow> string option res" where
  "execution_error_text error =
     (case error of
        JNull \<Rightarrow> Inr None
      | JStr s \<Rightarrow> bindE (bounded error MAX_RESULT_TEXT_BYTES) (\<lambda>b. Inr (Some (str_of b)))
      | _ \<Rightarrow> bindE (bounded error MAX_RESULT_TEXT_BYTES) (\<lambda>b. Inr (Some (json_dumps (compact_opts\<lparr>sort_keys := True\<rparr>) b))))"

definition parse_deliver_tx :: "int \<Rightarrow> nat \<times> json \<Rightarrow> execution_result res" where
  "parse_deliver_tx height = (\<lambda>(index, item).
     bindE (dict_or (RpcError ''Malformed deliver_tx['') item) (\<lambda>it.
     bindE (dict_or (RpcError ''Malformed deliver_tx['') (get_alt it ''ResponseBase'' ''response_base'')) (\<lambda>base.
     let error = get_alt base ''Error'' ''error'' in
     bindE (execution_error_text error) (\<lambda>error_text.
     bindE (guardE (case error_text of None \<Rightarrow> True | Some t \<Rightarrow> py_strip t \<noteq> []) (RpcError ''Ambiguous deliver_tx['')) (\<lambda>_.
     bindE (bounded item MAX_RESULT_JSON_BYTES) (\<lambda>raw.
     bindE (gas (get_alt it ''GasWanted'' ''gas_wanted'')) (\<lambda>gas_wanted.
     bindE (gas (get_alt it ''GasUsed'' ''gas_used'')) (\<lambda>gas_used.
     bindE (bounded (get_alt base ''Log'' ''log'') MAX_RESULT_TEXT_BYTES) (\<lambda>log_text.
     bindE (bounded (get_alt base ''Info'' ''info'') MAX_RESULT_TEXT_BYTES) (\<lambda>info_text.
     bindE (bounded (get_alt base ''Data'' ''data'') MAX_RESULT_TEXT_BYTES) (\<lambda>data_base64.
     bindE (bounded (get_alt base ''Events'' ''events'') MAX_RESULT_JSON_BYTES) (\<lambda>events.
     Inr \<lparr>er_block_height = height, er_tx_index = index,
          er_execution_status = (if error = JNull then ''success'' else ''failed''),
          er_gas_wanted = gas_wanted, er_gas_used = gas_used, er_error_text = error_text,
          er_log_text = log_text, er_info_text = info_text, er_data_base64 = data_base64,
          er_events = events, er_raw_result = raw\<rparr>))))))))))))"

definition deliver_list :: "jobj \<Rightarrow> json res" where
  "deliver_list result_obj =
     (case oget result_obj ''results'' of
        JNull \<Rightarrow> Inr (JList [])
      | JObj rs \<Rightarrow> (let deliver = get_alt rs ''deliver_tx'' ''deliverTx'' in
                    Inr (if deliver = JNull then JList [] else deliver))
      | _ \<Rightarrow> Inl (RpcError ''Malformed block_results results''))"

definition parse_execution_results :: "int \<Rightarrow> json \<Rightarrow> nat \<Rightarrow> execution_result list res" where
  "parse_execution_results height payload tx_count =
     bindE (dict_or (RpcError ''Malformed block_results: expected object'') payload) (\<lambda>p.
     bindE (dict_or (RpcError ''Malformed block_results result'') (oget p ''result'')) (\<lambda>res.
     bindE (gas (py_or (oget res ''height'') (oget res ''Height''))) (\<lambda>result_height.
     bindE (guardE (result_height = height) (RpcError ''block_results height mismatch while parsing '')) (\<lambda>_.
     bindE (deliver_list res) (\<lambda>deliver.
     bindE (list_or (RpcError ''Transaction/result count mismatch at height '') deliver) (\<lambda>items.
     bindE (guardE (length items = tx_count) (RpcError ''Transaction/result count mismatch at height '')) (\<lambda>_.
     mapE (parse_deliver_tx height) (enum0 items))))))))"

section \<open>One height\<close>

record parsed_height =
  ph_height :: int
  ph_block :: parsed_block
  ph_transactions :: "parsed_tx list"
  ph_execution_results :: "execution_result list"
  ph_validators :: "validator_info list"
  ph_signatures :: "vote_record list"
  ph_raw_block :: jobj

definition parse_height :: "int \<Rightarrow> jobj \<Rightarrow> jobj \<Rightarrow> jobj \<Rightarrow> jobj \<Rightarrow> decoder \<Rightarrow> parsed_height res" where
  "parse_height height block_payload block_results_payload commit_payload validators_payload transaction_decoder =
     bindE (parse_block block_payload transaction_decoder) (\<lambda>block.
     bindE (parse_commit commit_payload) (\<lambda>commit.
     bindE (parse_validators validators_payload) (\<lambda>vd.
     bindE (guardE (pb_height block = Some height \<and> ci_height commit = height \<and> vs_block_height vd = height)
              (RpcError ''Height mismatch while parsing '')) (\<lambda>_.
     bindE (classify_votes height commit_payload (ci_precommits commit) (vs_validators vd)) (\<lambda>signatures.
     bindE (parse_execution_results height (JObj block_results_payload) (length (pb_transactions block))) (\<lambda>execution_results.
     Inr \<lparr>ph_height = height, ph_block = block, ph_transactions = pb_transactions block,
          ph_execution_results = execution_results, ph_validators = vs_validators vd,
          ph_signatures = signatures, ph_raw_block = block_payload\<rparr>))))))"

section \<open>Votes: the scan\<close>

text \<open>The precommits a validator address signed, in order.\<close>

definition votes_by :: "string \<Rightarrow> json list \<Rightarrow> jobj list" where
  "votes_by a pcs = List.map_filter (\<lambda>pc. case pc of JObj p \<Rightarrow> if signer_address pc = JStr a then Some p else None | _ \<Rightarrow> None) pcs"

lemma votes_by_snoc: "votes_by a (pcs @ [pc]) = votes_by a pcs @ votes_by a [pc]"
  by (simp add: votes_by_def map_filter_def)

lemma votes_by_Nil [simp]: "votes_by a [] = []"
  by (simp add: votes_by_def map_filter_simps)

lemma votes_by_single:
  "votes_by a [pc] = (case pc of JObj p \<Rightarrow> if signer_address pc = JStr a then [p] else [] | _ \<Rightarrow> [])"
  by (simp add: votes_by_def map_filter_simps split: json.splits)

definition scan_inv :: "json list \<Rightarrow> json list \<Rightarrow> vote_scan \<Rightarrow> bool" where
  "scan_inv active pcs st \<longleftrightarrow>
     (\<forall>a. JStr a \<in> set active \<longrightarrow>
        dict_get (vt_seen st) (JStr a) = (case votes_by a pcs of [] \<Rightarrow> None | p # _ \<Rightarrow> Some p) \<and>
        (list_ex (py_eq (JStr a)) (vt_duplicates st) \<longleftrightarrow> 2 \<le> length (votes_by a pcs)))"

lemma dict_get_snoc:
  "dict_get (kvs @ [(k', v)]) k = (case dict_get kvs k of None \<Rightarrow> if py_eq k k' then Some v else None | Some w \<Rightarrow> Some w)"
  by (induction kvs) (auto simp: dict_get_def)

lemma in_set_strings: "list_all is_str active \<Longrightarrow> in_set x active = Inr True \<Longrightarrow> \<exists>a. x = JStr a \<and> x \<in> set active"
  by (cases x) (auto simp: in_set_def is_hashable_def list_ex_iff list_all_iff kind_iff split: if_splits)

lemma scan_step_inv:
  assumes "list_all is_str active" and "scan_precommit active pc st = Inr st'" and "scan_inv active pcs st"
    and "JStr [] \<notin> set active"
  shows "scan_inv active (pcs @ [pc]) st'"
proof (cases "\<exists>p. pc = JObj p \<and> truthy (signer_address pc) \<and> in_set (signer_address pc) active = Inr True")
  case True
  then obtain p a where pc: "pc = JObj p" and a: "signer_address pc = JStr a" "JStr a \<in> set active" "a \<noteq> []"
    using in_set_strings [OF assms(1)] by (metis truthy.simps(5))
  have known: "in_set (JStr a) active = Inr True" using True a by simp
  have vs: "votes_by b (pcs @ [pc]) = (if b = a then votes_by a pcs @ [p] else votes_by b pcs)" for b
    using pc a(1) by (simp add: votes_by_snoc votes_by_single)
  have st': "st' = (if dict_get (vt_seen st) (JStr a) \<noteq> None then st\<lparr>vt_duplicates := vt_duplicates st @ [JStr a]\<rparr>
                    else st\<lparr>vt_seen := vt_seen st @ [(JStr a, p)]\<rparr>)"
    using assms(2) pc a known by (auto simp: scan_precommit_def Let_def)
  have inv: "dict_get (vt_seen st) (JStr b) = (case votes_by b pcs of [] \<Rightarrow> None | p # _ \<Rightarrow> Some p)"
    "list_ex (py_eq (JStr b)) (vt_duplicates st) \<longleftrightarrow> 2 \<le> length (votes_by b pcs)" if "JStr b \<in> set active" for b
    using assms(3) that by (auto simp: scan_inv_def)
  show ?thesis
  proof (cases "votes_by a pcs")
    case Nil
    then show ?thesis
      using st' inv a by (auto simp: scan_inv_def vs dict_get_snoc split: list.splits)
  next
    case (Cons q qs)
    then show ?thesis
      using st' inv a by (auto simp: scan_inv_def vs)
  qed
next
  case False
  then have "votes_by b (pcs @ [pc]) = votes_by b pcs" if "JStr b \<in> set active" for b
    using that assms(4) by (auto simp: votes_by_snoc votes_by_single in_set_def is_hashable_def list_ex_iff split: json.splits)
  moreover have "vt_seen st' = vt_seen st" "vt_duplicates st' = vt_duplicates st"
    using assms(2) False by (auto simp: scan_precommit_def Let_def res_simps split: json.splits if_splits)
  ultimately show ?thesis using assms(3) by (auto simp: scan_inv_def)
qed

lemma scan_fold_inv:
  assumes "list_all is_str active" "JStr [] \<notin> set active"
    and "foldE (scan_precommit active) pcs st0 = Inr st" "scan_inv active [] st0"
  shows "scan_inv active pcs st"
  using assms(3)
proof (induction pcs arbitrary: st rule: rev_induct)
  case (snoc pc pcs)
  then show ?case
    using scan_step_inv [OF assms(1) _ _ assms(2)] by (auto simp: foldE_append res_simps)
qed (use assms(4) in simp)

lemma py_set_strings:
  assumes "list_all is_str xs"
  shows "distinct (py_set xs) \<and> set (py_set xs) = set xs"
  using assms
proof (induction xs rule: rev_induct)
  case (snoc x xs)
  moreover have "list_ex (py_eq x) (py_set xs) \<longleftrightarrow> x \<in> set (py_set xs)"
    using snoc.prems by (auto simp: list_ex_iff list_all_iff kind_iff)
  ultimately show ?case by (auto simp: py_set_def)
qed (simp add: py_set_def)

lemma JStr_str_of: "is_str x \<Longrightarrow> JStr (str_of x) = x"
  by (cases x) (simp_all add: str_of_def)

lemma py_sorted_strings:
  assumes "list_all is_str xs" "distinct xs" "py_sorted xs = Inr ys"
  shows "set ys = set xs" and "map str_of ys = sorted_list_of_set (str_of ` set xs)"
proof -
  have ys: "ys = sort_key str_of xs" using assms by (simp add: py_sorted_def)
  then show "set ys = set xs" by simp
  have "inj_on str_of (set xs)" using assms(1) by (metis JStr_str_of inj_onI list_all_iff)
  then have "distinct (map str_of ys)" using assms(2) by (simp add: ys distinct_map)
  moreover have "sorted (map str_of ys)" "set (map str_of ys) = str_of ` set xs" by (simp_all add: ys)
  ultimately show "map str_of ys = sorted_list_of_set (str_of ` set xs)"
    using sorted_list_of_set.idem_if_sorted_distinct by metis
qed

lemma signature_row_sel [simp]:
  "sr_height (signature_row h a st sg b z m si raw) = h"
  "sr_signing_address (signature_row h a st sg b z m si raw) = a"
  "sr_vote_status (signature_row h a st sg b z m si raw) = st"
  "sr_signed (signature_row h a st sg b z m si raw) = sg"
  "sr_is_zero (signature_row h a st sg b z m si raw) = z"
  "sr_matches_commit (signature_row h a st sg b z m si raw) = m"
  "sr_signature (signature_row h a st sg b z m si raw) = si"
  "sr_raw_precommit (signature_row h a st sg b z m si raw) = raw"
  "sr_hash_base64 (signature_row h a st sg b z m si raw) = Option.bind b nb_hash_base64"
  "sr_hash_hex (signature_row h a st sg b z m si raw) = Option.bind b nb_hash_hex"
  "sr_parts_total (signature_row h a st sg b z m si raw) = Option.bind b nb_parts_total"
  "sr_parts_hash_base64 (signature_row h a st sg b z m si raw) = Option.bind b nb_parts_hash_base64"
  "sr_parts_hash_hex (signature_row h a st sg b z m si raw) = Option.bind b nb_parts_hash_hex"
  by (simp_all add: signature_row_def)

lemma mapE_map: "mapE f xs = Inr ys \<Longrightarrow> (\<And>x y. f x = Inr y \<Longrightarrow> g y = h x) \<Longrightarrow> map g ys = map h xs"
  by (induction xs arbitrary: ys) (auto simp: res_simps)

text \<open>What a commit vote is: the only precommit of the address, for the committed block, signed by 64 bytes
  under a supported key type.\<close>

definition commit_vote :: "json list \<Rightarrow> normalized_block_id \<Rightarrow> json \<Rightarrow> string \<Rightarrow> bool" where
  "commit_vote pcs cid ktype a \<longleftrightarrow>
     (\<exists>p vid. votes_by a pcs = [p] \<and> normalize_block_id (precommit_block_id p) = Inr vid \<and>
        block_ids_match vid cid \<and> usable_signature (precommit_signature p) ktype = Inr True)"

lemma classify_precommit_facts:
  assumes "classify_precommit h a p cid kt = Inr r"
  shows "sr_height r = h" "sr_signing_address r = a" "sr_signed r \<longleftrightarrow> sr_vote_status r = ''commit''"
    "sr_vote_status r \<noteq> ''absent''"
    "sr_vote_status r = ''commit'' \<longleftrightarrow> (\<exists>vid. normalize_block_id (precommit_block_id p) = Inr vid \<and>
       block_ids_match vid cid \<and> usable_signature (precommit_signature p) kt = Inr True)"
proof -
  have "sr_height r = h \<and> sr_signing_address r = a \<and> (sr_signed r \<longleftrightarrow> sr_vote_status r = ''commit'') \<and>
    sr_vote_status r \<noteq> ''absent'' \<and>
    (sr_vote_status r = ''commit'' \<longleftrightarrow> (\<exists>vid. normalize_block_id (precommit_block_id p) = Inr vid \<and>
       block_ids_match vid cid \<and> usable_signature (precommit_signature p) kt = Inr True))"
  proof (cases "normalize_block_id (precommit_block_id p)")
    case (Inl e)
    with assms show ?thesis by (auto simp: classify_precommit_def split: if_splits)
  next
    case (Inr vid)
    then obtain ok where ok: "usable_signature (precommit_signature p) kt = Inr ok"
      using assms by (auto simp: classify_precommit_def Let_def res_simps)
    note r = assms [unfolded classify_precommit_def Inr Let_def sum.case ok bindE_simps, THEN sum.inject(2) [THEN iffD1], symmetric]
    show ?thesis unfolding r using Inr ok by simp
  qed
  then show "sr_height r = h" "sr_signing_address r = a" "sr_signed r \<longleftrightarrow> sr_vote_status r = ''commit''"
    "sr_vote_status r \<noteq> ''absent''"
    "sr_vote_status r = ''commit'' \<longleftrightarrow> (\<exists>vid. normalize_block_id (precommit_block_id p) = Inr vid \<and>
       block_ids_match vid cid \<and> usable_signature (precommit_signature p) kt = Inr True)" by simp_all
qed

lemma vote_row_facts:
  assumes "vote_row h scan cid vals (JStr a) = Inr r" and "scan_inv active pcs scan" and "JStr a \<in> set active"
  shows "sr_height r = h" "sr_signing_address r = JStr a" "sr_signed r \<longleftrightarrow> sr_vote_status r = ''commit''"
    "sr_vote_status r = ''absent'' \<longleftrightarrow> votes_by a pcs = []"
    "sr_vote_status r = ''commit'' \<longleftrightarrow> commit_vote pcs cid (validator_key_type vals (JStr a)) a"
proof -
  have seen: "dict_get (vt_seen scan) (JStr a) = (case votes_by a pcs of [] \<Rightarrow> None | p # _ \<Rightarrow> Some p)"
    and dup: "list_ex (py_eq (JStr a)) (vt_duplicates scan) \<longleftrightarrow> 2 \<le> length (votes_by a pcs)"
    using assms(2,3) by (auto simp: scan_inv_def)
  consider "votes_by a pcs = []" | p where "votes_by a pcs = [p]" | p q ps where "votes_by a pcs = p # q # ps"
    by (metis list.exhaust)
  then have "sr_height r = h \<and> sr_signing_address r = JStr a \<and> (sr_signed r \<longleftrightarrow> sr_vote_status r = ''commit'') \<and>
    (sr_vote_status r = ''absent'' \<longleftrightarrow> votes_by a pcs = []) \<and>
    (sr_vote_status r = ''commit'' \<longleftrightarrow> commit_vote pcs cid (validator_key_type vals (JStr a)) a)"
  proof cases
    case 1
    with assms(1) seen show ?thesis by (auto simp: vote_row_def commit_vote_def)
  next
    case (2 p)
    with assms(1) seen dup have "classify_precommit h (JStr a) p cid (validator_key_type vals (JStr a)) = Inr r"
      by (simp add: vote_row_def)
    from classify_precommit_facts [OF this] 2 show ?thesis by (simp add: commit_vote_def)
  next
    case (3 p q ps)
    with assms(1) seen dup show ?thesis by (auto simp: vote_row_def commit_vote_def)
  qed
  then show "sr_height r = h" "sr_signing_address r = JStr a" "sr_signed r \<longleftrightarrow> sr_vote_status r = ''commit''"
    "sr_vote_status r = ''absent'' \<longleftrightarrow> votes_by a pcs = []"
    "sr_vote_status r = ''commit'' \<longleftrightarrow> commit_vote pcs cid (validator_key_type vals (JStr a)) a" by simp_all
qed

lemma classify_votes_run:
  assumes "classify_votes h cp pcs vals = Inr rows" and "\<forall>v \<in> set vals. is_str (vi_address v)"
  obtains cid scan active as where "commit_block_id cp = Inr cid" and "scan_inv active pcs scan"
    and "JStr ` set as = set active" and "as = sorted_list_of_set {a. a \<noteq> [] \<and> JStr a \<in> vi_address ` set vals}"
    and "mapE (vote_row h scan cid vals) (map JStr as) = Inr rows"
proof -
  define addrs where "addrs = filter truthy (map vi_address vals)"
  have str: "list_all is_str addrs" using assms(2) by (auto simp: addrs_def list_all_iff)
  define active where "active = py_set addrs"
  have act: "distinct active" "set active = set addrs" using py_set_strings [OF str] by (simp_all add: active_def)
  have stra: "list_all is_str active" using str act by (simp add: list_all_iff)
  have ne: "JStr [] \<notin> set active" by (auto simp: act addrs_def)
  obtain cid scan ordered where cid: "commit_block_id cp = Inr cid"
    and fold: "foldE (scan_precommit active) pcs \<lparr>vt_malformed = 0, vt_outside = [], vt_seen = [], vt_duplicates = []\<rparr> = Inr scan"
    and ord: "py_sorted active = Inr ordered" and rows: "mapE (vote_row h scan cid vals) ordered = Inr rows"
    using assms(1) by (auto simp: classify_votes_def hash_all_def res_simps Let_def active_def addrs_def split: if_splits)
  note os = py_sorted_strings [OF stra act(1) ord]
  have inv: "scan_inv active pcs scan"
    by (rule scan_fold_inv [OF stra ne fold]) (simp add: scan_inv_def dict_get_def)
  have str_id: "map JStr (map str_of ordered) = ordered"
    using os(1) stra by (auto simp: list_all_iff JStr_str_of intro!: map_idI)
  have addresses: "str_of ` set active = {a. a \<noteq> [] \<and> JStr a \<in> vi_address ` set vals}"
    using assms(2) by (force simp: act addrs_def str_of_def kind_iff)
  show ?thesis
  proof (rule that [OF cid inv])
    show "JStr ` set (map str_of ordered) = set active" using arg_cong [OF str_id, of set] os(1) by (simp add: image_image)
    show "map str_of ordered = sorted_list_of_set {a. a \<noteq> [] \<and> JStr a \<in> vi_address ` set vals}"
      using os(2) by (simp add: addresses)
    show "mapE (vote_row h scan cid vals) (map JStr (map str_of ordered)) = Inr rows" using rows str_id by simp
  qed
qed

text \<open>C12: the vote rows of a height are exactly one per active validator address, in increasing order; a row is
  absent if and only if no precommit carries the address; it counts as signed if and only if it is a commit
  vote; and it is a commit vote if and only if the address has exactly one precommit, whose BlockID matches the
  commit's BlockID and whose signature is 64 bytes under a supported key type.\<close>

theorem classify_votes_exact:
  assumes "classify_votes h cp pcs vals = Inr rows" and "\<forall>v \<in> set vals. is_str (vi_address v)"
  shows "map sr_signing_address rows = map JStr (sorted_list_of_set {a. a \<noteq> [] \<and> JStr a \<in> vi_address ` set vals}) \<and>
    (\<exists>cid. commit_block_id cp = Inr cid \<and>
      (\<forall>r \<in> set rows. \<exists>a. sr_signing_address r = JStr a \<and> sr_height r = h \<and>
         (sr_vote_status r = ''absent'' \<longleftrightarrow> votes_by a pcs = []) \<and>
         (sr_signed r \<longleftrightarrow> sr_vote_status r = ''commit'') \<and>
         (sr_vote_status r = ''commit'' \<longleftrightarrow> commit_vote pcs cid (validator_key_type vals (JStr a)) a)))"
proof -
  obtain cid scan active as where
    cid: "commit_block_id cp = Inr cid" and inv: "scan_inv active pcs scan" and act: "JStr ` set as = set active"
    and as: "as = sorted_list_of_set {a. a \<noteq> [] \<and> JStr a \<in> vi_address ` set vals}"
    and rows: "mapE (vote_row h scan cid vals) (map JStr as) = Inr rows"
    by (rule classify_votes_run [OF assms])
  have in_active: "JStr a \<in> set active" if "a \<in> set as" for a using that act by blast
  have facts: "\<exists>a. sr_signing_address r = JStr a \<and> sr_height r = h \<and>
         (sr_vote_status r = ''absent'' \<longleftrightarrow> votes_by a pcs = []) \<and>
         (sr_signed r \<longleftrightarrow> sr_vote_status r = ''commit'') \<and>
         (sr_vote_status r = ''commit'' \<longleftrightarrow> commit_vote pcs cid (validator_key_type vals (JStr a)) a)" if "r \<in> set rows" for r
  proof -
    from mapE_Inr_set [OF rows that] obtain a where "vote_row h scan cid vals (JStr a) = Inr r" "a \<in> set as" by auto
    from vote_row_facts [OF this(1) inv in_active [OF this(2)]] show ?thesis by blast
  qed
  have "map sr_signing_address rows = map JStr as"
  proof (rule nth_equalityI)
    fix i assume "i < length (map sr_signing_address rows)"
    then have i: "i < length as" "i < length rows" using mapE_Inr_length [OF rows] by simp_all
    with mapE_Inr_nth [OF rows, of i] have "vote_row h scan cid vals (JStr (as ! i)) = Inr (rows ! i)" by simp
    from vote_row_facts(2) [OF this inv in_active [OF nth_mem [OF i(1)]]] i
    show "map sr_signing_address rows ! i = map JStr as ! i" by simp
  qed (use mapE_Inr_length [OF rows] in simp)
  with cid facts as show ?thesis by blast
qed

section \<open>Votes and the database constraints\<close>

text \<open>The CHECK constraints of table \<open>validator_signatures\<close> (\<open>database/schema.sql\<close>).\<close>

definition validator_signature_check :: "vote_record \<Rightarrow> bool" where
  "validator_signature_check r =
     (sr_vote_status r \<in> {''commit'', ''nil'', ''absent'', ''invalid''} \<and>
      (case sr_parts_total r of None \<Rightarrow> True | Some n \<Rightarrow> 0 \<le> n) \<and>
      (sr_signed r \<longleftrightarrow> sr_vote_status r = ''commit'' \<and> sr_matches_commit r) \<and>
      (sr_vote_status r = ''commit'' \<longrightarrow> sr_matches_commit r \<and> \<not> sr_is_zero r \<and> sr_hash_base64 r \<noteq> None \<and>
         sr_hash_hex r \<noteq> None \<and> sr_parts_total r \<noteq> None \<and> sr_parts_hash_base64 r \<noteq> None \<and>
         sr_parts_hash_hex r \<noteq> None \<and> sr_signature r \<noteq> None) \<and>
      (sr_vote_status r = ''nil'' \<longrightarrow> \<not> sr_signed r \<and> sr_is_zero r \<and> \<not> sr_matches_commit r) \<and>
      (sr_vote_status r = ''absent'' \<longrightarrow> \<not> sr_signed r \<and> \<not> sr_is_zero r \<and> \<not> sr_matches_commit r \<and>
         sr_hash_base64 r = None \<and> sr_hash_hex r = None \<and> sr_parts_total r = None \<and>
         sr_parts_hash_base64 r = None \<and> sr_parts_hash_hex r = None \<and> sr_signature r = None \<and> sr_raw_precommit r = JNull) \<and>
      (sr_vote_status r = ''invalid'' \<longrightarrow> \<not> sr_signed r \<and> \<not> sr_matches_commit r) \<and>
      (case sr_hash_hex r of None \<Rightarrow> True | Some h \<Rightarrow> h = py_upper h) \<and>
      (case sr_parts_hash_hex r of None \<Rightarrow> True | Some h \<Rightarrow> h = py_upper h))"

lemma normalize_block_id_facts:
  assumes "normalize_block_id b = Inr n"
  shows "nb_is_zero n \<Longrightarrow> nb_parts_total n \<in> {None, Some 0} \<and> nb_hash_hex n = None \<and> nb_parts_hash_hex n = None"
    and "\<not> nb_is_zero n \<Longrightarrow> \<exists>k hb hx pb px. 0 \<le> k \<and> nb_parts_total n = Some k \<and> nb_hash_base64 n = Some hb \<and>
       nb_hash_hex n = Some (hex_upper hx) \<and> nb_parts_hash_base64 n = Some pb \<and> nb_parts_hash_hex n = Some (hex_upper px)"
  using assms
  by (auto simp: normalize_block_id_def res_simps Let_def andE_def split: if_splits option.splits)

lemma usable_signature_Some: "usable_signature s kt = Inr True \<Longrightarrow> s \<noteq> None"
  by (cases s) (simp_all add: usable_signature_def res_simps)

lemma classify_precommit_check:
  assumes "classify_precommit h a p cid kt = Inr r"
  shows "validator_signature_check r \<longleftrightarrow> \<not> (sr_vote_status r = ''invalid'' \<and> sr_matches_commit r)"
proof (cases "normalize_block_id (precommit_block_id p)")
  case (Inl e)
  with assms show ?thesis by (auto simp: classify_precommit_def validator_signature_check_def split: if_splits)
next
  case (Inr vid)
  then obtain ok where ok: "usable_signature (precommit_signature p) kt = Inr ok"
    using assms by (auto simp: classify_precommit_def Let_def res_simps)
  note r = assms [unfolded classify_precommit_def Inr Let_def sum.case ok bindE_simps, THEN sum.inject(2) [THEN iffD1], symmetric]
  show ?thesis
  proof (cases "nb_is_zero vid")
    case True
    then show ?thesis using normalize_block_id_facts(1) [OF Inr True]
      unfolding r by (auto simp: validator_signature_check_def block_ids_match_def)
  next
    case False
    then show ?thesis using normalize_block_id_facts(2) [OF Inr False] usable_signature_Some ok
      unfolding r by (auto simp: validator_signature_check_def)
  qed
qed

lemma vote_row_check:
  "vote_row h scan cid vals a = Inr r \<Longrightarrow>
   validator_signature_check r \<longleftrightarrow> \<not> (sr_vote_status r = ''invalid'' \<and> sr_matches_commit r)"
  by (auto simp: vote_row_def validator_signature_check_def dest: classify_precommit_check
      split: option.splits if_splits)

text \<open>every vote row satisfies all CHECK constraints of table \<open>validator_signatures\<close>, with one exception: an
  invalid vote whose BlockID matches the commit.\<close>

theorem vote_rows_storable:
  assumes "classify_votes h cp pcs vals = Inr rows" and "r \<in> set rows"
  shows "validator_signature_check r \<longleftrightarrow> \<not> (sr_vote_status r = ''invalid'' \<and> sr_matches_commit r)"
proof -
  from assms(1) obtain scan cid ordered where "mapE (vote_row h scan cid vals) ordered = Inr rows"
    by (auto simp: classify_votes_def res_simps Let_def)
  from mapE_Inr_set [OF this assms(2)] show ?thesis by (blast dest: vote_row_check)
qed

text \<open>C16: the exception happens: a precommit for the committed block whose signature is unusable (an unsupported key
  type, or not 64 bytes) is classified as invalid but keeps the BlockID match, a row the database refuses.\<close>

theorem unusable_signature_refused:
  assumes "normalize_block_id (precommit_block_id p) = Inr vid" and "block_ids_match vid cid"
    and "usable_signature (precommit_signature p) kt = Inr False"
  shows "\<exists>r. classify_precommit h a p cid kt = Inr r \<and> sr_vote_status r = ''invalid'' \<and> \<not> validator_signature_check r"
  using assms
  by (auto simp: classify_precommit_def Let_def block_ids_match_def validator_signature_check_def)

section \<open>Execution results\<close>

fun no_nul :: "json \<Rightarrow> bool" where
  "no_nul (JStr s) = (CHR 0x00 \<notin> set s)"
| "no_nul (JList xs) = (\<forall>x \<in> set xs. no_nul x)"
| "no_nul (JObj kvs) = (\<forall>(k, v) \<in> set kvs. CHR 0x00 \<notin> set k \<and> no_nul v)"
| "no_nul _ = True"

lemma sanitize_text_no_nul: "CHR 0x00 \<notin> set (sanitize_text s)"
  by (induction s) (auto simp: sanitize_text_def)

lemma update_all:
  "(\<forall>(k, v) \<in> set kvs. P k v) \<Longrightarrow> P k v \<Longrightarrow> \<forall>(k, v) \<in> set (AList.update k v kvs). P k v"
  by (induction kvs) auto

lemma fold_update_all:
  "(\<forall>(k, v) \<in> set items. P k v) \<Longrightarrow> (\<forall>(k, v) \<in> set acc. P k v) \<Longrightarrow>
   \<forall>(k, v) \<in> set (fold (\<lambda>(k, v). AList.update k v) items acc). P k v"
proof (induction items arbitrary: acc)
  case (Cons kv items)
  show ?case
    using Cons.IH [of "AList.update (fst kv) (snd kv) acc"] Cons.prems update_all [of acc P "fst kv" "snd kv"]
    by (cases kv) simp
qed simp

lemma sanitize_no_nul: "no_nul (sanitize_rpc_value v)"
proof (induction v rule: sanitize_rpc_value.induct)
  case (2 kvs)
  have "\<forall>(k, v) \<in> set (fold (\<lambda>(k, v). AList.update k v)
      (map (\<lambda>(k, v). (sanitize_text k, sanitize_rpc_value v)) kvs) []). CHR 0x00 \<notin> set k \<and> no_nul v"
    by (rule fold_update_all) (use 2 sanitize_text_no_nul in auto)
  then show ?case by simp
qed (simp_all add: sanitize_text_no_nul)

text \<open>The encoded size the limit is about.\<close>

definition encoded_size :: "json \<Rightarrow> nat" where
  "encoded_size v = (case v of JNull \<Rightarrow> 0 | JStr s \<Rightarrow> utf8_len s | _ \<Rightarrow> utf8_len (json_dumps compact_opts v))"

lemma bounded_facts:
  assumes "bounded v limit = Inr w"
  shows "no_nul w" and "encoded_size w \<le> limit" and "w = JNull \<longleftrightarrow> v = JNull"
  using assms sanitize_no_nul [of v]
  by (cases v; auto simp: bounded_def encoded_size_def res_simps Let_def)+

lemma digits_bound: "n < 10 ^ length (digits_of_nat n)"
proof (induction n rule: digits_of_nat.induct)
  case (1 n)
  show ?case
  proof (cases "n < 10")
    case False
    with 1 have "n div 10 < 10 ^ length (digits_of_nat (n div 10))" by simp
    then have "n < 10 * 10 ^ length (digits_of_nat (n div 10))" by (simp add: div_less_iff_less_mult mult.commute)
    with False show ?thesis by (simp add: digits_of_nat.simps [of n])
  qed (simp add: digits_of_nat.simps [of n])
qed

lemma gas_range_bounds: "gas_range i = Inr g \<Longrightarrow> 0 \<le> g \<and> g < 10 ^ 78"
proof -
  assume "gas_range i = Inr g"
  then have g: "g = i" "0 \<le> i" "length (digits_of_nat (nat i)) \<le> 78"
    by (auto simp: gas_range_def res_simps Let_def str_int_def)
  have "nat i < 10 ^ 78"
    using digits_bound [of "nat i"] power_increasing [OF g(3), of "10 :: nat"] by linarith
  with g show ?thesis by (simp add: nat_less_iff)
qed

lemma gas_bounds: "gas v = Inr g \<Longrightarrow> 0 \<le> g \<and> g < 10 ^ 78"
  by (cases v) (auto simp: gas_def res_simps dest!: gas_range_bounds)

text \<open>The CHECK constraints of table \<open>transaction_execution_results\<close>; \<open>btrim\<close> trims spaces.\<close>

definition execution_result_check :: "execution_result \<Rightarrow> bool" where
  "execution_result_check r =
     (er_execution_status r \<in> {''success'', ''failed''} \<and> 0 \<le> er_gas_wanted r \<and> 0 \<le> er_gas_used r \<and>
      (er_execution_status r = ''success'' \<and> er_error_text r = None \<or>
       er_execution_status r = ''failed'' \<and>
       (case er_error_text r of None \<Rightarrow> False | Some t \<Rightarrow> strip_by (\<lambda>c. c = CHR '' '') t \<noteq> [])))"

lemma strip_by_Nil_iff: "strip_by p s = [] \<longleftrightarrow> list_all p s"
proof
  assume "strip_by p s = []"
  then have "dropWhile p s = []" using hd_dropWhile [of p s]
    by (auto simp: strip_by_def dropWhile_eq_Nil_conv)
  then show "list_all p s" by (simp add: dropWhile_eq_Nil_conv list_all_iff)
qed (auto simp: strip_by_def list_all_iff dropWhile_eq_Nil_conv dest: set_dropWhileD)

lemma execution_error_text_facts:
  "execution_error_text e = Inr t \<Longrightarrow> t = None \<longleftrightarrow> e = JNull"
  by (cases e) (auto simp: execution_error_text_def res_simps)

lemma py_strip_blank: "py_strip t \<noteq> [] \<Longrightarrow> strip_by (\<lambda>c. c = CHR '' '') t \<noteq> []"
proof -
  have "is_space (CHR '' '')" by (simp add: is_space_def)
  then show "py_strip t \<noteq> [] \<Longrightarrow> strip_by (\<lambda>c. c = CHR '' '') t \<noteq> []"
    unfolding py_strip_def strip_by_Nil_iff list_all_iff by metis
qed

text \<open>A stored result row: its position, the constraints, the column widths and the text limits.\<close>

definition result_row_ok :: "int \<Rightarrow> nat \<Rightarrow> execution_result \<Rightarrow> bool" where
  "result_row_ok h i r \<longleftrightarrow>
     er_block_height r = h \<and> er_tx_index r = i \<and> execution_result_check r \<and>
     er_gas_wanted r < 10 ^ 78 \<and> er_gas_used r < 10 ^ 78 \<and>
     list_all (\<lambda>v. no_nul v \<and> encoded_size v \<le> MAX_RESULT_JSON_BYTES) [er_raw_result r, er_events r] \<and>
     list_all (\<lambda>v. no_nul v \<and> encoded_size v \<le> MAX_RESULT_TEXT_BYTES) [er_log_text r, er_info_text r, er_data_base64 r]"

lemma parse_deliver_tx_ok:
  assumes "parse_deliver_tx h (i, item) = Inr r"
  shows "result_row_ok h i r"
proof -
  obtain it base et raw gw gu lt inf dat ev where
    et: "execution_error_text (get_alt base ''Error'' ''error'') = Inr et"
      "case et of None \<Rightarrow> True | Some t \<Rightarrow> py_strip t \<noteq> []"
    and b: "bounded item MAX_RESULT_JSON_BYTES = Inr raw"
      "bounded (get_alt base ''Log'' ''log'') MAX_RESULT_TEXT_BYTES = Inr lt"
      "bounded (get_alt base ''Info'' ''info'') MAX_RESULT_TEXT_BYTES = Inr inf"
      "bounded (get_alt base ''Data'' ''data'') MAX_RESULT_TEXT_BYTES = Inr dat"
      "bounded (get_alt base ''Events'' ''events'') MAX_RESULT_JSON_BYTES = Inr ev"
    and g: "gas (get_alt it ''GasWanted'' ''gas_wanted'') = Inr gw" "gas (get_alt it ''GasUsed'' ''gas_used'') = Inr gu"
    and r: "\<lparr>er_block_height = h, er_tx_index = i,
          er_execution_status = (if get_alt base ''Error'' ''error'' = JNull then ''success'' else ''failed''),
          er_gas_wanted = gw, er_gas_used = gu, er_error_text = et, er_log_text = lt, er_info_text = inf,
          er_data_base64 = dat, er_events = ev, er_raw_result = raw\<rparr> = r"
    using assms unfolding parse_deliver_tx_def prod.case Let_def res_simps sum.inject
    apply -
    apply (elim exE conjE)
    apply (rule that)
    apply assumption+
    done
  note gb = gas_bounds [OF g(1)] gas_bounds [OF g(2)]
  have "execution_result_check r"
    using et execution_error_text_facts [OF et(1)] gb py_strip_blank
    by (auto simp: execution_result_check_def r [symmetric] split: option.splits)
  then show ?thesis
    using gb b [THEN bounded_facts(1)] b [THEN bounded_facts(2)] by (simp add: result_row_ok_def r [symmetric])
qed

lemma results_rows:
  assumes "parse_execution_results h payload n = Inr rs"
  shows "length rs = n \<and> (\<forall>i < n. result_row_ok h i (rs ! i))"
proof -
  obtain items where items: "length items = n" "mapE (parse_deliver_tx h) (enum0 items) = Inr rs"
    using assms by (auto simp: parse_execution_results_def res_simps)
  then have "length rs = n" using mapE_Inr_length by fastforce
  moreover have "parse_deliver_tx h (i, items ! i) = Inr (rs ! i)" if "i < n" for i
    using mapE_Inr_nth [OF items(2), of i] that items(1) by (simp add: nth_enumerate_eq)
  ultimately show ?thesis using parse_deliver_tx_ok by blast
qed

text \<open>C15: accepted execution results are in one-to-one correspondence with the transactions of the block: as many
  as expected, the i-th at index i of this height; each satisfies the CHECK constraints of table
  \<open>transaction_execution_results\<close>, its gas values fit the 78 digits of the column, and no stored text holds a NUL
  character or exceeds its byte limit.\<close>

theorem execution_results_exact:
  assumes "parse_execution_results h payload n = Inr rs"
  shows "length rs = n \<and> (\<forall>i < n. result_row_ok h i (rs ! i))"
  by (rule results_rows [OF assms])

section \<open>Transactions and heights\<close>

lemma parse_tx_indices: "map tx_index (map (\<lambda>(i, tx). parse_tx i tx dec) (enum0 txs)) = [0..<length txs]"
  by (rule nth_equalityI) (auto simp: nth_enumerate_eq parse_tx_def Let_def split: option.splits)

lemma vote_row_height: "vote_row h scan cid vals a = Inr r \<Longrightarrow> sr_height r = h"
  by (auto simp: vote_row_def dest: classify_precommit_facts(1) split: option.splits if_splits)

text \<open>The CHECK constraints of table \<open>transactions\<close>.\<close>

definition transaction_check :: "parsed_tx \<Rightarrow> bool" where
  "transaction_check t =
     (tx_raw_base64_length t = length (tx_raw_base64 t) \<and>
      (tx_decode_status t = ''decoded'' \<and> (\<exists>bs \<in> set_option (tx_decoded_bytes t). tx_decoded_byte_length t = Some (length bs)) \<or>
       tx_decode_status t \<in> {''invalid_base64'', ''not_attempted''} \<and> tx_decoded_bytes t = None \<and> tx_decoded_byte_length t = None) \<and>
      (case tx_hash_hex t of None \<Rightarrow> True | Some h \<Rightarrow> length h = 64 \<and> list_all is_upper_hex h) \<and>
      (tx_decode_status t = ''decoded'' \<and> tx_hash_hex t \<noteq> None \<or>
       tx_decode_status t \<in> {''invalid_base64'', ''not_attempted''} \<and> tx_hash_hex t = None))"

text \<open>whatever the block carries as a transaction and whatever the decoder does, its parsed record satisfies the
  CHECK constraints of table \<open>transactions\<close> and its summary the bounded contract.\<close>

theorem parse_tx_storable:
  "transaction_check (parse_tx i tx dec) \<and> summary_ok (tx_payload_summary (parse_tx i tx dec))"
  using hex_upper_alphabet generic_summary_ok normalize_summary_ok
  by (auto simp: parse_tx_def transaction_check_def decode_summary_def Let_def split: option.splits sum.splits)

lemma block_txs_legacy:
  assumes "legacy_parse_block payload = Inr b" and "map_of payload ''result'' \<noteq> None" and "block_txs payload = Inr txs"
  shows "bi_tx_count b = int (length txs)"
proof (cases "\<exists>d. map_of payload ''result'' = Some (JObj d)")
  case True
  then obtain d where d: "oget payload ''result'' = JObj d" "result payload = d"
    by (auto simp: oget_def result_def oget_default_def)
  obtain blk where blk: "py_or (oget d ''block'') (JObj []) = JObj blk"
    using assms(1) by (auto simp: legacy_parse_block_def d Let_def res_simps jget_def)
  obtain bd where bd: "oget_default blk ''data'' (JObj []) = JObj bd"
    using assms(1) by (auto simp: legacy_parse_block_def d Let_def blk res_simps jget_def)
  have dat: "py_or (oget blk ''data'') (JObj []) = JObj bd"
    using bd by (auto simp: oget_default_def oget_def py_or_def split: option.splits)
  have res: "py_or (JObj d) (JObj []) = JObj d" by (simp add: py_or_def)
  have len: "py_len (py_or (oget bd ''txs'') (JList [])) = Inr (nat (bi_tx_count b))" "0 \<le> bi_tx_count b"
    using assms(1) by (auto simp: legacy_parse_block_def d Let_def blk bd res_simps split: option.splits)
  have "py_iter (py_or (oget bd ''txs'') (JList [])) = Inr txs"
    using assms(3) by (simp add: block_txs_def get_or_empty_def d res blk dat)
  with len show ?thesis using py_len_iter by fastforce
next
  case False
  then have "result payload = []" using assms(2) by (auto simp: result_def oget_default_def split: json.splits)
  with assms(1) show ?thesis by (simp add: legacy_parse_block_def decode_base64_def)
qed

lemma block_txs_no_result: "map_of payload ''result'' = None \<Longrightarrow> block_txs payload = Inr txs \<Longrightarrow> txs = []"
  by (simp add: block_txs_def get_or_empty_def oget_def py_or_def py_iter_def)

text \<open>C14: an accepted height is consistent: block, votes and results are of this height, every transaction of the
  block has exactly one parsed record and one execution result at its index, and the header's transaction count is
  their number. The count alone needs the payload to have the \<open>result\<close> object of a JSON-RPC answer: for a payload
  without it the block is read from the payload itself and the transactions from the absent \<open>result\<close>, so that none is
  parsed whatever the header announces; everything else holds of such a payload too.\<close>

theorem parse_height_consistent:
  assumes "parse_height h bp rp cp vp dec = Inr ph"
  shows "ph_height ph = h \<and> pb_height (ph_block ph) = Some h \<and>
    ph_transactions ph = pb_transactions (ph_block ph) \<and>
    (map_of bp ''result'' \<noteq> None \<longrightarrow> pb_tx_count (ph_block ph) = int (length (ph_transactions ph))) \<and>
    (map_of bp ''result'' = None \<longrightarrow> ph_transactions ph = []) \<and>
    map tx_index (ph_transactions ph) = [0..<length (ph_transactions ph)] \<and>
    map er_tx_index (ph_execution_results ph) = [0..<length (ph_transactions ph)] \<and>
    list_all (\<lambda>r. er_block_height r = h) (ph_execution_results ph) \<and>
    list_all (\<lambda>r. sr_height r = h) (ph_signatures ph)"
proof -
  obtain block and c :: commit_info and vd :: validators_info and sigs ers where
    b: "parse_block bp dec = Inr block" "pb_height block = Some h"
    and v: "classify_votes h cp (ci_precommits c) (vs_validators vd) = Inr sigs"
    and e: "parse_execution_results h (JObj rp) (length (pb_transactions block)) = Inr ers"
    and ph: "\<lparr>ph_height = h, ph_block = block, ph_transactions = pb_transactions block,
      ph_execution_results = ers, ph_validators = vs_validators vd, ph_signatures = sigs, ph_raw_block = bp\<rparr> = ph"
    using assms(1) unfolding parse_height_def res_simps sum.inject
    apply -
    apply (elim exE conjE)
    apply (rule that)
    apply assumption+
    done
  have t: "map_of bp ''result'' \<noteq> None \<longrightarrow> pb_tx_count block = int (length (pb_transactions block))"
      "map tx_index (pb_transactions block) = [0..<length (pb_transactions block)]"
    using b(1) block_txs_legacy parse_tx_indices by (auto simp: parse_block_def res_simps)
  moreover have "map_of bp ''result'' = None \<longrightarrow> pb_transactions block = []"
    using b(1) by (auto simp: parse_block_def res_simps enumerate_simps dest!: block_txs_no_result)
  moreover have "length ers = length (pb_transactions block)" and r: "\<forall>i < length ers. result_row_ok h i (ers ! i)"
    using results_rows [OF e] by simp_all
  moreover from this(2) have "map er_tx_index ers = [0..<length ers]" "list_all (\<lambda>r. er_block_height r = h) ers"
    by (auto simp: result_row_ok_def list_all_length intro: nth_equalityI)
  moreover have "list_all (\<lambda>r. sr_height r = h) sigs"
    using v by (auto simp: classify_votes_def res_simps Let_def list_all_iff dest!: mapE_Inr_set vote_row_height)
  ultimately show ?thesis using b(2) by (simp flip: ph)
qed

section \<open>A concrete height\<close>

text \<open>Height 5: one transaction, two validators of which the first votes for the block and the second is absent.\<close>

definition sample_hash :: string where "sample_hash = replicate 43 (CHR ''B'') @ ''=''"
definition sample_signature :: string where "sample_signature = replicate 86 (CHR ''B'') @ ''==''"

definition sample_block_id :: jobj where
  "sample_block_id = [(''hash'', JStr sample_hash), (''parts'', JObj [(''total'', JInt 1), (''hash'', JStr sample_hash)])]"

definition sample_vote :: jobj where
  "sample_vote = [(''validator_address'', JStr ''val1''), (''block_id'', JObj sample_block_id), (''signature'', JStr sample_signature)]"

definition sample_block_payload :: jobj where
  "sample_block_payload = [(''result'', JObj
     [(''block_meta'', JObj [(''block_id'', JObj [(''hash'', JStr sample_hash)])]),
      (''block'', JObj [(''header'', JObj [(''num_txs'', JInt 1), (''height'', JInt 5)]),
                        (''data'', JObj [(''txs'', JList [JStr ''AA==''])])])])]"

definition sample_commit_payload :: jobj where
  "sample_commit_payload = [(''result'', JObj
     [(''signed_header'', JObj [(''header'', JObj [(''height'', JInt 5)]),
        (''commit'', JObj [(''block_id'', JObj sample_block_id), (''precommits'', JList [JObj sample_vote, JNull])])]),
      (''canonical'', JBool True)])]"

definition sample_validators_payload :: jobj where
  "sample_validators_payload = [(''result'', JObj [(''block_height'', JInt 5), (''validators'', JList
     [JObj [(''address'', JStr ''val1''), (''pub_key'', JObj [(''@type'', JStr ''/tm.PubKeyEd25519'')])],
      JObj [(''address'', JStr ''val2'')]])])]"

definition sample_results_payload :: jobj where
  "sample_results_payload = [(''result'', JObj [(''height'', JInt 5), (''results'', JObj [(''deliver_tx'', JList
     [JObj [(''ResponseBase'', JObj []), (''GasWanted'', JInt 10), (''GasUsed'', JInt 7)]])])])]"

lemma sample_hash_decodes: "\<exists>bs. b64decode sample_hash = Some bs \<and> length bs = 32"
proof -
  have "list_all is_b64 (replicate 43 (CHR ''B''))" by (simp add: list_all_iff is_b64_def b64_val_def)
  then have "b64decode sample_hash = Some (b64_bytes (replicate 43 (CHR ''B'')))"
    unfolding sample_hash_def by (rule b64decode_pad1) simp
  then show ?thesis by (simp add: length_b64_bytes)
qed

lemma sample_signature_decodes: "\<exists>bs. b64decode sample_signature = Some bs \<and> length bs = 64"
proof -
  have "list_all is_b64 (replicate 86 (CHR ''B''))" by (simp add: list_all_iff is_b64_def b64_val_def)
  then have "b64decode sample_signature = Some (b64_bytes (replicate 86 (CHR ''B'')))"
    unfolding sample_signature_def by (rule b64decode_pad2) simp
  then show ?thesis by (simp add: length_b64_bytes)
qed

lemma sample_hash_nonzero: "sample_hash \<noteq> []" "sample_hash \<notin> set ZERO_HASHES"
  by (simp_all add: sample_hash_def ZERO_HASHES_def numeral_eq_Suc)

lemma sample_signature_ne: "sample_signature \<noteq> []"
  by (simp add: sample_signature_def)

lemma sample_id: "\<exists>n. normalize_block_id (JObj sample_block_id) = Inr n \<and> \<not> nb_is_zero n"
proof -
  obtain bs where "b64decode sample_hash = Some bs" using sample_hash_decodes by blast
  then show ?thesis using sample_hash_nonzero
    by (simp add: normalize_block_id_def sample_block_id_def zero_hash_def in_str_set_def is_hashable_def andE_def
        nonempty_str_def decode_base64_def)
qed

definition sample_validators :: "validator_info list" where
  "sample_validators =
     [\<lparr>vi_address = JStr ''val1'', vi_voting_power = None, vi_proposer_priority = None,
       vi_pub_key_type = JStr ''/tm.PubKeyEd25519'', vi_pub_key_display_type = Some ''Ed25519'', vi_pub_key_value = JNull\<rparr>,
      \<lparr>vi_address = JStr ''val2'', vi_voting_power = None, vi_proposer_priority = None,
       vi_pub_key_type = JNull, vi_pub_key_display_type = None, vi_pub_key_value = JNull\<rparr>]"

lemma sample_votes:
  "\<exists>r0 r1. classify_votes 5 sample_commit_payload [JObj sample_vote, JNull] sample_validators = Inr [r0, r1] \<and>
     sr_vote_status r0 = ''commit'' \<and> sr_vote_status r1 = ''absent''"
proof -
  obtain n where n: "normalize_block_id (JObj sample_block_id) = Inr n" "\<not> nb_is_zero n" using sample_id by blast
  obtain bs where bs: "b64decode sample_signature = Some bs" "length bs = 64" using sample_signature_decodes by blast
  have cid: "commit_block_id sample_commit_payload = Inr n"
    using n by (simp add: commit_block_id_def sample_commit_payload_def get_or_empty_def)
  have vid: "precommit_block_id sample_vote = JObj sample_block_id"
    by (simp add: precommit_block_id_def sample_vote_def sample_block_id_def)
  have sig: "precommit_signature sample_vote = Some sample_signature"
    by (simp add: precommit_signature_def sample_vote_def str_opt_def)
  have "usable_signature (Some sample_signature) (JStr ''/tm.PubKeyEd25519'') = Inr True"
    using bs sample_signature_ne
    by (simp add: usable_signature_def in_str_set_def is_hashable_def SUPPORTED_SIGNATURE_KEY_TYPES_def)
  moreover have "block_ids_match n n" using n by (simp add: block_ids_match_def)
  ultimately have row: "classify_precommit 5 (JStr ''val1'') sample_vote n (JStr ''/tm.PubKeyEd25519'') =
      Inr (signature_row 5 (JStr ''val1'') ''commit'' True (Some n) False True (Some sample_signature) JNull)"
    by (simp add: classify_precommit_def vid n sig)
  have signer: "signer_address (JObj sample_vote) = JStr ''val1''" by (simp add: signer_address_def sample_vote_def)
  have kt: "validator_key_type sample_validators (JStr ''val1'') = JStr ''/tm.PubKeyEd25519''"
    by (simp add: validator_key_type_def sample_validators_def dict_get_def)
  have addrs: "filter truthy (map vi_address sample_validators) = [JStr ''val1'', JStr ''val2'']"
    by (simp add: sample_validators_def)
  have act: "py_set [JStr ''val1'', JStr ''val2''] = [JStr ''val1'', JStr ''val2'']" by (simp add: py_set_def)
  have "classify_votes 5 sample_commit_payload [JObj sample_vote, JNull] sample_validators =
     Inr [signature_row 5 (JStr ''val1'') ''commit'' True (Some n) False True (Some sample_signature) JNull,
          signature_row 5 (JStr ''val2'') ''absent'' False None False False None JNull]"
    by (simp add: classify_votes_def addrs hash_all_def is_hashable_def cid scan_precommit_def signer in_set_def
        dict_get_def py_sorted_def str_of_def vote_row_def row kt act)
  then show ?thesis by simp
qed

theorem classify_votes_exact_witness:
  "\<exists>rows. classify_votes 5 sample_commit_payload [JObj sample_vote, JNull] sample_validators = Inr rows \<and>
     map sr_signing_address rows = map JStr (sorted_list_of_set {a. a \<noteq> [] \<and> JStr a \<in> vi_address ` set sample_validators})"
proof -
  obtain r0 r1 where v: "classify_votes 5 sample_commit_payload [JObj sample_vote, JNull] sample_validators = Inr [r0, r1]"
    using sample_votes by blast
  have "\<forall>v \<in> set sample_validators. is_str (vi_address v)" by (simp add: sample_validators_def)
  from classify_votes_exact [OF v this] v show ?thesis by blast
qed

theorem vote_rows_storable_witness:
  "\<exists>rows r. classify_votes 5 sample_commit_payload [JObj sample_vote, JNull] sample_validators = Inr rows \<and>
     r \<in> set rows \<and> validator_signature_check r"
proof -
  obtain r0 r1 where v: "classify_votes 5 sample_commit_payload [JObj sample_vote, JNull] sample_validators = Inr [r0, r1]"
    and c: "sr_vote_status r0 = ''commit''" using sample_votes by blast
  have "validator_signature_check r0" using vote_rows_storable [OF v, of r0] c by simp
  with v show ?thesis by auto
qed

theorem unusable_signature_refused_witness:
  "\<exists>cid r. classify_precommit 5 (JStr ''val1'') sample_vote cid (JStr ''/tm.PubKeyOther'') = Inr r \<and>
     sr_vote_status r = ''invalid'' \<and> \<not> validator_signature_check r"
proof -
  obtain n where n: "normalize_block_id (JObj sample_block_id) = Inr n" "\<not> nb_is_zero n" using sample_id by blast
  have "precommit_block_id sample_vote = JObj sample_block_id"
    by (simp add: precommit_block_id_def sample_vote_def sample_block_id_def)
  moreover have "block_ids_match n n" using n by (simp add: block_ids_match_def)
  moreover have "usable_signature (precommit_signature sample_vote) (JStr ''/tm.PubKeyOther'') = Inr False"
    by (simp add: usable_signature_def in_str_set_def is_hashable_def SUPPORTED_SIGNATURE_KEY_TYPES_def)
  ultimately show ?thesis using unusable_signature_refused [of sample_vote n n] n by metis
qed

lemma sample_results: "\<exists>rs. parse_execution_results 5 (JObj sample_results_payload) 1 = Inr rs"
proof -
  have "gas (JInt 10) = Inr 10" "gas (JInt 7) = Inr 7" "gas (JInt 5) = Inr 5"
    by (simp_all add: gas_def gas_range_def str_int_def digits_of_nat.simps max_str_digits_def)
  then show ?thesis
    by (simp add: parse_execution_results_def sample_results_payload_def deliver_list_def get_alt_def enumerate_simps
        parse_deliver_tx_def execution_error_text_def bounded_def sanitize_text_def compact_opts_def utf8_len_def
        quote_str_def esc_char_def str_int_def digits_of_nat.simps MAX_RESULT_JSON_BYTES_def)
qed

theorem execution_results_exact_witness:
  "\<exists>r. parse_execution_results 5 (JObj sample_results_payload) 1 = Inr [r] \<and> result_row_ok 5 0 r"
proof -
  obtain rs where rs: "parse_execution_results 5 (JObj sample_results_payload) 1 = Inr rs" using sample_results by blast
  from execution_results_exact [OF rs] obtain r where "rs = [r]" "result_row_ok 5 0 r"
    by (auto simp: length_Suc_conv)
  with rs show ?thesis by blast
qed

lemma sample_height: "\<exists>ph. parse_height 5 sample_block_payload sample_results_payload sample_commit_payload
    sample_validators_payload None = Inr ph \<and> length (ph_transactions ph) = 1"
proof -
  obtain bs where "b64decode sample_hash = Some bs" using sample_hash_decodes by blast
  then obtain b where b: "parse_block sample_block_payload None = Inr b" "pb_height b = Some 5" "length (pb_transactions b) = 1"
    using sample_hash_nonzero
    by (simp add: parse_block_def legacy_parse_block_def sample_block_payload_def result_def decode_base64_def py_len_def
        py_iter_def block_txs_def get_or_empty_def enumerate_simps)
  have c: "parse_commit sample_commit_payload = Inr \<lparr>ci_height = 5, ci_header_height = 5,
      ci_precommits = [JObj sample_vote, JNull], ci_canonical = True\<rparr>"
    by (simp add: parse_commit_def sample_commit_payload_def result_def)
  have v: "parse_validators sample_validators_payload = Inr \<lparr>vs_block_height = 5, vs_total = None, vs_validators = sample_validators\<rparr>"
    by (simp add: parse_validators_def sample_validators_payload_def result_def py_iter_def parse_validator_def
        normalize_pub_key_type_def sample_validators_def)
  obtain r0 r1 where "classify_votes 5 sample_commit_payload [JObj sample_vote, JNull] sample_validators = Inr [r0, r1]"
    using sample_votes by blast
  with b c v sample_results show ?thesis by (auto simp: parse_height_def)
qed

theorem parse_height_consistent_witness:
  "\<exists>ph. parse_height 5 sample_block_payload sample_results_payload sample_commit_payload
     sample_validators_payload None = Inr ph \<and> pb_tx_count (ph_block ph) = 1 \<and> map er_tx_index (ph_execution_results ph) = [0]"
proof -
  obtain ph where ph: "parse_height 5 sample_block_payload sample_results_payload sample_commit_payload
     sample_validators_payload None = Inr ph" "length (ph_transactions ph) = 1" using sample_height by blast
  have "map_of sample_block_payload ''result'' \<noteq> None" by (simp add: sample_block_payload_def)
  with parse_height_consistent [OF ph(1)] ph show ?thesis by simp
qed

end
