(* ===== verification/Realm_Catalog.thy ===== *)
theory Realm_Catalog
  imports Accounts "HOL-Library.AList" "HOL-Library.Sublist"
begin

text \<open>
  \<open>indexer/realm_catalog.py\<close>: canonical package paths, the observations a summary yields,
  their aggregation per block, the qpaths response and the MsgCall locators.
\<close>

section \<open>Paths\<close>

definition path_char :: "char \<Rightarrow> bool" where
  "path_char c = (let n = of_char c :: nat in (33 \<le> n \<and> n \<le> 46) \<or> (48 \<le> n \<and> n \<le> 126))"

text \<open>
  \<open>_PATH_RE\<close>: \<open>gno.land\<close>, \<open>r\<close> or \<open>p\<close>, then one or more non-empty segments of printable
  ASCII without the slash; the group \<open>kind\<close> is the second component.
\<close>

definition path_re_kind :: "string \<Rightarrow> string option" where
  "path_re_kind s =
     (case split_on (CHR ''/'') s of
        h # k # seg # segs \<Rightarrow>
          if h = ''gno.land'' \<and> k \<in> {''r'', ''p''} \<and> list_all (\<lambda>w. w \<noteq> [] \<and> list_all path_char w) (seg # segs)
          then Some k else None
      | _ \<Rightarrow> None)"

definition address_char :: "char \<Rightarrow> bool" where
  "address_char c = (c \<in> set ''023456789acdefghjklmnpqrstuvwxyz'')"

text \<open>\<open>_ADDRESS_RE\<close>.\<close>

definition address_re :: "string \<Rightarrow> bool" where
  "address_re s = (length s = 40 \<and> take 2 s = ''g1'' \<and> list_all address_char (drop 2 s))"

definition is_complete_package_path :: "json \<Rightarrow> json \<Rightarrow> bool" where
  "is_complete_package_path message path =
     (case message of
        JObj m \<Rightarrow>
          (let completeness = oget m ''package_path_complete'' in
           completeness = JBool True \<or>
           (completeness = JNull \<and> (case path of JStr p \<Rightarrow> length p < 160 | _ \<Rightarrow> False)))
      | _ \<Rightarrow> False)"

definition path_kind :: "json \<Rightarrow> string option" where
  "path_kind path =
     (case path of
        JStr s \<Rightarrow>
          if \<not> (1 \<le> length s \<and> length s \<le> 256) then None
          else if list_ex is_space s \<or> CHR ''?'' \<in> set s \<or> CHR ''#'' \<in> set s then None
          else (case path_re_kind s of
                  None \<Rightarrow> None
                | Some k \<Rightarrow> Some (if k = ''r'' then ''realm'' else ''package''))
      | _ \<Rightarrow> None)"

definition namespace_key :: "json \<Rightarrow> string option" where
  "namespace_key path =
     (if path_kind path \<noteq> Some ''realm'' then None
      else case path of JStr s \<Rightarrow> Some (split_on (CHR ''/'') s ! 2) | _ \<Rightarrow> None)"

section \<open>Observations\<close>

record realm_observation =
  ob_path :: string
  ob_kind :: string
  ob_message_index :: nat
  ob_type :: string
  ob_sender :: "string option"

definition observe_sender :: "json \<Rightarrow> string option" where
  "observe_sender j = (case j of JStr s \<Rightarrow> if address_re s then Some s else None | _ \<Rightarrow> None)"

definition observe_message :: "nat \<Rightarrow> json \<Rightarrow> realm_observation option" where
  "observe_message index message =
     (case message of
        JObj m \<Rightarrow>
          (let message_type = oget m ''type''; path = oget m ''package_path'' in
           if \<not> is_complete_package_path message path then None
           else case (path_kind path, path) of
                  (Some kind, JStr p) \<Rightarrow>
                    (let sender = observe_sender (oget m ''sender'') in
                     if message_type = JStr ''gno.vm.MsgAddPackage''
                     then Some \<lparr>ob_path = p, ob_kind = kind, ob_message_index = index, ob_type = ''deployment'', ob_sender = sender\<rparr>
                     else if message_type = JStr ''gno.vm.MsgCall'' \<and> kind = ''realm''
                     then Some \<lparr>ob_path = p, ob_kind = kind, ob_message_index = index, ob_type = ''call'', ob_sender = sender\<rparr>
                     else None)
                | _ \<Rightarrow> None)
      | _ \<Rightarrow> None)"

definition parsed_messages :: "json \<Rightarrow> json list" where
  "parsed_messages payload_summary =
     (case payload_summary of
        JObj s \<Rightarrow>
          if oget s ''parse_status'' \<noteq> JStr ''parsed'' then []
          else (case oget s ''messages'' of JList ms \<Rightarrow> take MAX_MESSAGES ms | _ \<Rightarrow> [])
      | _ \<Rightarrow> [])"

definition extract_observations :: "json \<Rightarrow> realm_observation list" where
  "extract_observations payload_summary =
     List.map_filter (\<lambda>(i, m). observe_message i m) (enum0 (parsed_messages payload_summary))"

section \<open>Aggregation\<close>

record agg_value =
  ag_kind :: string
  ag_first :: nat
  ag_deploy :: "nat option"
  ag_deployer :: "string option"
  ag_last :: "nat option"
  ag_success :: nat
  ag_failed :: nat
  ag_unknown :: nat

record path_aggregate =
  pa_path :: string
  pa_kind :: string
  pa_first_tx_index :: nat
  pa_deploy_tx_index :: "nat option"
  pa_deployer_address :: "string option"
  pa_last_activity_tx_index :: "nat option"
  pa_call_count :: nat
  pa_successful_call_count :: nat
  pa_failed_call_count :: nat
  pa_unknown_result_call_count :: nat

text \<open>One turn of the inner loop: transaction index, its execution status, the observation.\<close>

type_synonym agg_event = "nat \<times> string option \<times> realm_observation"

definition agg_default :: "agg_event \<Rightarrow> agg_value" where
  "agg_default = (\<lambda>(tx_index, status, o'). \<lparr>ag_kind = ob_kind o', ag_first = tx_index, ag_deploy = None,
     ag_deployer = None, ag_last = None, ag_success = 0, ag_failed = 0, ag_unknown = 0\<rparr>)"

definition count_status :: "string option \<Rightarrow> agg_value \<Rightarrow> agg_value" where
  "count_status status v =
     (if status = Some ''success'' then v\<lparr>ag_success := ag_success v + 1\<rparr>
      else if status = Some ''failed'' then v\<lparr>ag_failed := ag_failed v + 1\<rparr>
      else v\<lparr>ag_unknown := ag_unknown v + 1\<rparr>)"

definition agg_update :: "agg_event \<Rightarrow> agg_value \<Rightarrow> agg_value" where
  "agg_update = (\<lambda>(tx_index, status, o') v0.
     (let v = v0\<lparr>ag_first := min (ag_first v0) tx_index\<rparr> in
      if ob_type o' = ''deployment'' \<and> (case ag_deploy v of None \<Rightarrow> True | Some d \<Rightarrow> tx_index < d)
      then v\<lparr>ag_deploy := Some tx_index, ag_deployer := ob_sender o'\<rparr>
      else if ob_type o' = ''call''
      then count_status status
             (v\<lparr>ag_last := Some (case ag_last v of None \<Rightarrow> tx_index | Some l \<Rightarrow> max l tx_index)\<rparr>)
      else v))"

definition ev_path :: "agg_event \<Rightarrow> string" where
  "ev_path e = ob_path (snd (snd e))"

definition agg_entry :: "agg_event \<Rightarrow> agg_value option \<Rightarrow> agg_value" where
  "agg_entry e old = agg_update e (case old of None \<Rightarrow> agg_default e | Some v \<Rightarrow> v)"

definition agg_step :: "agg_event \<Rightarrow> (string \<times> agg_value) list \<Rightarrow> (string \<times> agg_value) list" where
  "agg_step e kvs = AList.update (ev_path e) (agg_entry e (map_of kvs (ev_path e))) kvs"

definition block_events :: "(nat \<times> json \<times> string option) list \<Rightarrow> agg_event list" where
  "block_events txs = concat (map (\<lambda>(tx_index, summary, status).
     map (\<lambda>o'. (tx_index, status, o')) (extract_observations summary)) txs)"

definition agg_row :: "string \<times> agg_value \<Rightarrow> path_aggregate" where
  "agg_row = (\<lambda>(path, v). \<lparr>pa_path = path, pa_kind = ag_kind v, pa_first_tx_index = ag_first v,
     pa_deploy_tx_index = ag_deploy v, pa_deployer_address = ag_deployer v,
     pa_last_activity_tx_index = ag_last v,
     pa_call_count = ag_success v + ag_failed v + ag_unknown v, pa_successful_call_count = ag_success v,
     pa_failed_call_count = ag_failed v, pa_unknown_result_call_count = ag_unknown v\<rparr>)"

definition aggregate_block :: "(nat \<times> json \<times> string option) list \<Rightarrow> path_aggregate list" where
  "aggregate_block txs = map agg_row (sort_key fst (fold agg_step (block_events txs) []))"

section \<open>The qpaths response\<close>

definition MAX_QPATHS_BYTES :: nat where "MAX_QPATHS_BYTES = 2570000"

fun collect_qpaths :: "string list \<Rightarrow> (string \<times> string) list \<Rightarrow> (string \<times> string) list res" where
  "collect_qpaths [] paths = Inr paths"
| "collect_qpaths (raw_path # rest) paths =
     (if raw_path = [] then collect_qpaths rest paths
      else case path_kind (JStr raw_path) of
             None \<Rightarrow> Inl (ValueError ''qpaths_invalid_path'')
           | Some kind \<Rightarrow>
               (let paths' = AList.update raw_path kind paths in
                if 10000 < length paths' then Inl (ValueError ''qpaths_too_many_paths'')
                else collect_qpaths rest paths'))"

definition parse_qpaths :: "string \<Rightarrow> (string \<times> string) list res" where
  "parse_qpaths payload =
     bindE (guardE (utf8_len payload \<le> MAX_QPATHS_BYTES) (ValueError ''qpaths_too_large'')) (\<lambda>_.
     bindE (collect_qpaths (py_splitlines payload) []) (\<lambda>paths.
     bindE (guardE (paths \<noteq> []) (ValueError ''qpaths_empty'')) (\<lambda>_.
     Inr (sort_key fst paths))))"

section \<open>Realm calls\<close>

record realm_call =
  rc_path :: string
  rc_message_index :: nat
  rc_caller :: "string option"
  rc_function :: "string option"
  rc_args_count :: "int option"
  rc_send :: "string option"

text \<open>Optional fields: \<open>Some None\<close> absent, \<open>Some (Some v)\<close> accepted, \<open>None\<close> the message is skipped.\<close>

definition opt_caller :: "json \<Rightarrow> string option option" where
  "opt_caller j = (case j of JNull \<Rightarrow> Some None | JStr s \<Rightarrow> if address_re s then Some (Some s) else None | _ \<Rightarrow> None)"

definition opt_text160 :: "json \<Rightarrow> string option option" where
  "opt_text160 j = (case j of JNull \<Rightarrow> Some None
     | JStr s \<Rightarrow> if s = [] \<or> 160 < length s then None else Some (Some s) | _ \<Rightarrow> None)"

definition opt_args_count :: "json \<Rightarrow> int option option" where
  "opt_args_count j = (case j of JNull \<Rightarrow> Some None
     | JInt i \<Rightarrow> if 0 \<le> i \<and> i \<le> 100000 then Some (Some i) else None | _ \<Rightarrow> None)"

definition call_of_message :: "nat \<Rightarrow> json \<Rightarrow> realm_call option" where
  "call_of_message index message =
     (case message of
        JObj m \<Rightarrow>
          if oget m ''type'' \<noteq> JStr ''gno.vm.MsgCall'' then None
          else let path = oget m ''package_path'' in
               if \<not> is_complete_package_path message path \<or> path_kind path \<noteq> Some ''realm'' then None
               else (case (path, opt_caller (oget m ''sender''), opt_text160 (oget m ''function''),
                           opt_args_count (oget m ''args_count''), opt_text160 (oget m ''send'')) of
                       (JStr p, Some caller, Some function, Some args_count, Some send) \<Rightarrow>
                         Some \<lparr>rc_path = p, rc_message_index = index, rc_caller = caller,
                               rc_function = function, rc_args_count = args_count, rc_send = send\<rparr>
                     | _ \<Rightarrow> None)
      | _ \<Rightarrow> None)"

definition extract_realm_calls :: "json \<Rightarrow> realm_call list" where
  "extract_realm_calls payload_summary =
     List.map_filter (\<lambda>(i, m). call_of_message i m) (enum0 (parsed_messages payload_summary))"

section \<open>Aggregation, path by path\<close>

lemma map_of_agg_fold:
  "map_of (fold agg_step evs kvs) p =
   fold (\<lambda>e old. Some (agg_entry e old)) (filter (\<lambda>e. ev_path e = p) evs) (map_of kvs p)"
  by (induction evs arbitrary: kvs) (auto simp: agg_step_def update_conv')

lemma agg_fold_keys:
  "distinct (map fst kvs) \<Longrightarrow> distinct (map fst (fold agg_step evs kvs))"
  "set (map fst (fold agg_step evs kvs)) = set (map fst kvs) \<union> ev_path ` set evs"
  by (induction evs arbitrary: kvs) (auto simp: agg_step_def distinct_update dom_update)

text \<open>What the row of a path must be, read off the path's events.\<close>

definition ev_calls :: "agg_event list \<Rightarrow> agg_event list" where
  "ev_calls evs = filter (\<lambda>e. ob_type (snd (snd e)) = ''call'') evs"

definition ev_deploys :: "agg_event list \<Rightarrow> agg_event list" where
  "ev_deploys evs = filter (\<lambda>e. ob_type (snd (snd e)) = ''deployment'') evs"

definition count_calls :: "(string option \<Rightarrow> bool) \<Rightarrow> agg_event list \<Rightarrow> nat" where
  "count_calls P evs = length (filter (\<lambda>e. P (fst (snd e))) (ev_calls evs))"

text \<open>The earliest deployment: the first event among those with the least transaction index.\<close>

definition earliest :: "agg_event list \<Rightarrow> agg_event option" where
  "earliest evs = List.find (\<lambda>e. fst e = Min (fst ` set evs)) evs"

definition first_deploy :: "agg_event list \<Rightarrow> agg_event option" where
  "first_deploy evs = earliest (ev_deploys evs)"

definition agg_spec :: "agg_event list \<Rightarrow> agg_value \<Rightarrow> bool" where
  "agg_spec evs v \<longleftrightarrow>
     ag_first v = Min (fst ` set evs) \<and>
     ag_deploy v = map_option fst (first_deploy evs) \<and>
     ag_deployer v = Option.bind (first_deploy evs) (\<lambda>e. ob_sender (snd (snd e))) \<and>
     ag_last v = (if ev_calls evs = [] then None else Some (Max (fst ` set (ev_calls evs)))) \<and>
     ag_success v = count_calls (\<lambda>s. s = Some ''success'') evs \<and>
     ag_failed v = count_calls (\<lambda>s. s = Some ''failed'') evs \<and>
     ag_unknown v = count_calls (\<lambda>s. s \<noteq> Some ''success'' \<and> s \<noteq> Some ''failed'') evs"

lemma find_append: "List.find P (xs @ ys) = (case List.find P xs of None \<Rightarrow> List.find P ys | Some x \<Rightarrow> Some x)"
  by (induction xs) auto

lemma earliest_Nil [simp]: "earliest [] = None"
  by (simp add: earliest_def)

lemma earliest_Some: "evs \<noteq> [] \<Longrightarrow> \<exists>e. earliest evs = Some e \<and> e \<in> set evs \<and> fst e = Min (fst ` set evs)"
proof -
  assume "evs \<noteq> []"
  then have "Min (fst ` set evs) \<in> fst ` set evs" by (intro Min_in) auto
  then have "earliest evs \<noteq> None" by (metis (mono_tags, lifting) earliest_def find_None_iff imageE)
  then obtain e where e: "earliest evs = Some e" by (cases "earliest evs") simp_all
  then have "e \<in> set evs \<and> fst e = Min (fst ` set evs)"
    unfolding earliest_def find_Some_iff by fastforce
  with e show ?thesis by blast
qed

lemma earliest_snoc:
  "earliest (evs @ [e]) = (case earliest evs of None \<Rightarrow> Some e | Some d \<Rightarrow> if fst e < fst d then Some e else Some d)"
proof (cases "evs = []")
  case True
  then show ?thesis by (simp add: earliest_def)
next
  case False
  then obtain d where d: "earliest evs = Some d" "fst d = Min (fst ` set evs)"
    using earliest_Some by blast
  have m: "Min (fst ` set (evs @ [e])) = min (fst e) (fst d)"
    using False d(2) by simp
  show ?thesis
  proof (cases "fst e < fst d")
    case True
    then have "fst x \<noteq> fst e" if "x \<in> set evs" for x
      using that d(2) Min_le [of "fst ` set evs" "fst x"] by (metis List.finite_set finite_imageI image_eqI not_less)
    then have "List.find (\<lambda>x. fst x = fst e) evs = None" unfolding find_None_iff by blast
    with True d(1) m show ?thesis by (simp add: earliest_def find_append)
  next
    case f: False
    then have "min (fst e) (fst d) = Min (fst ` set evs)" using d(2) by simp
    with f d(1) m show ?thesis by (simp add: earliest_def find_append)
  qed
qed

lemma ev_filters_snoc [simp]:
  "ev_calls (evs @ [e]) = ev_calls evs @ (if ob_type (snd (snd e)) = ''call'' then [e] else [])"
  "ev_deploys (evs @ [e]) = ev_deploys evs @ (if ob_type (snd (snd e)) = ''deployment'' then [e] else [])"
  "count_calls P (evs @ [e]) = count_calls P evs + (if ob_type (snd (snd e)) = ''call'' \<and> P (fst (snd e)) then 1 else 0)"
  by (simp_all add: ev_calls_def ev_deploys_def count_calls_def)

lemma first_deploy_snoc:
  "first_deploy (evs @ [e]) =
   (if ob_type (snd (snd e)) = ''deployment''
    then (case first_deploy evs of None \<Rightarrow> Some e | Some d \<Rightarrow> if fst e < fst d then Some e else Some d)
    else first_deploy evs)"
  by (simp add: first_deploy_def earliest_snoc)

lemma Max_snoc: "xs \<noteq> [] \<Longrightarrow> Max (f ` set (xs @ [x])) = max (Max (f ` set xs)) (f x)"
  for f :: "'a \<Rightarrow> nat"
  by (simp add: max.commute)

lemma agg_entry_first: "agg_spec [e] (agg_entry e None)"
  by (cases e) (auto simp: agg_spec_def agg_entry_def agg_default_def agg_update_def Let_def first_deploy_def
      earliest_def ev_deploys_def ev_calls_def count_calls_def count_status_def)

lemma agg_entry_next:
  assumes "agg_spec evs v" and "evs \<noteq> []"
  shows "agg_spec (evs @ [e]) (agg_entry e (Some v))"
proof -
  obtain i st ob where e: "e = (i, st, ob)" by (cases e) auto
  have first: "Min (fst ` set (evs @ [e])) = min (Min (fst ` set evs)) i"
    using assms(2) e by (simp add: min.commute)
  have last: "Max (fst ` set (ev_calls evs @ [e])) = (if ev_calls evs = [] then i else max (Max (fst ` set (ev_calls evs))) i)"
    using e by (simp add: max.commute)
  show ?thesis
    using assms(1) unfolding agg_spec_def first first_deploy_snoc ev_filters_snoc
    by (cases "first_deploy evs"; cases "ob_type ob = ''call''"; cases "ob_type ob = ''deployment''")
      (auto simp: e agg_entry_def agg_update_def count_status_def Let_def last)
qed

lemma agg_fold_spec:
  "evs \<noteq> [] \<Longrightarrow> \<exists>v. fold (\<lambda>e old. Some (agg_entry e old)) evs None = Some v \<and> agg_spec evs v"
proof (induction evs rule: rev_induct)
  case (snoc e evs)
  show ?case
  proof (cases "evs = []")
    case True
    then show ?thesis by (simp add: agg_entry_first)
  next
    case False
    with snoc.IH obtain v where "fold (\<lambda>e old. Some (agg_entry e old)) evs None = Some v" "agg_spec evs v" by blast
    with agg_entry_next [OF _ False] show ?thesis by simp
  qed
qed simp

lemma observe_message_kind:
  "observe_message i m = Some ob \<Longrightarrow> path_kind (JStr (ob_path ob)) = Some (ob_kind ob)"
  by (auto simp: observe_message_def Let_def split: json.splits if_splits option.splits)

lemma extract_observations_kind:
  "ob \<in> set (extract_observations s) \<Longrightarrow> path_kind (JStr (ob_path ob)) = Some (ob_kind ob)"
  by (auto simp: extract_observations_def map_filter_def intro: observe_message_kind split: option.splits)

lemma block_events_kind:
  "e \<in> set (block_events txs) \<Longrightarrow> path_kind (JStr (ev_path e)) = Some (ob_kind (snd (snd e)))"
  by (auto simp: block_events_def ev_path_def dest: extract_observations_kind)

lemma ag_kind_update [simp]: "ag_kind (agg_update e v) = ag_kind v"
  by (simp add: agg_update_def count_status_def Let_def split: prod.splits)

lemma ag_kind_entry:
  "ag_kind (agg_entry e old) = (case old of None \<Rightarrow> ob_kind (snd (snd e)) | Some v \<Rightarrow> ag_kind v)"
  by (cases e; cases old) (simp_all add: agg_entry_def agg_default_def)

lemma agg_fold_kind:
  assumes "\<forall>e \<in> set evs. ob_kind (snd (snd e)) = k" and "\<forall>v. old = Some v \<longrightarrow> ag_kind v = k"
    and "fold (\<lambda>e old. Some (agg_entry e old)) evs old = Some v"
  shows "ag_kind v = k"
  using assms
proof (induction evs arbitrary: old)
  case (Cons e evs)
  have "ag_kind (agg_entry e old) = k"
    using Cons.prems(1,2) by (simp add: ag_kind_entry split: option.splits)
  then show ?case using Cons.IH [of "Some (agg_entry e old)"] Cons.prems by simp
qed simp

section \<open>Properties\<close>

text \<open>The reference row of a path, read off the events of the whole block.\<close>

definition spec_row :: "agg_event list \<Rightarrow> string \<Rightarrow> path_aggregate" where
  "spec_row all p =
     (let evs = filter (\<lambda>e. ev_path e = p) all in
      \<lparr>pa_path = p, pa_kind = the (path_kind (JStr p)), pa_first_tx_index = Min (fst ` set evs),
       pa_deploy_tx_index = map_option fst (first_deploy evs),
       pa_deployer_address = Option.bind (first_deploy evs) (\<lambda>e. ob_sender (snd (snd e))),
       pa_last_activity_tx_index = (if ev_calls evs = [] then None else Some (Max (fst ` set (ev_calls evs)))),
       pa_call_count = length (ev_calls evs),
       pa_successful_call_count = count_calls (\<lambda>s. s = Some ''success'') evs,
       pa_failed_call_count = count_calls (\<lambda>s. s = Some ''failed'') evs,
       pa_unknown_result_call_count = count_calls (\<lambda>s. s \<noteq> Some ''success'' \<and> s \<noteq> Some ''failed'') evs\<rparr>)"

lemma count_calls_total:
  "count_calls (\<lambda>s. s = Some ''success'') evs + count_calls (\<lambda>s. s = Some ''failed'') evs +
   count_calls (\<lambda>s. s \<noteq> Some ''success'' \<and> s \<noteq> Some ''failed'') evs = length (ev_calls evs)"
proof -
  have "length (filter (\<lambda>e. P (f e)) xs) + length (filter (\<lambda>e. Q (f e)) xs) + length (filter (\<lambda>e. \<not> P (f e) \<and> \<not> Q (f e)) xs) = length xs"
    if "\<And>s. \<not> (P s \<and> Q s)" for P Q :: "'b \<Rightarrow> bool" and f :: "'a \<Rightarrow> 'b" and xs
    using that by (induction xs) auto
  from this [of "\<lambda>s. s = Some ''success''" "\<lambda>s. s = Some ''failed''"] show ?thesis
    by (simp add: count_calls_def)
qed

lemma agg_row_spec:
  assumes "(p, v) \<in> set (fold agg_step (block_events txs) [])"
  shows "agg_row (p, v) = spec_row (block_events txs) p"
proof -
  define es where "es = filter (\<lambda>e. ev_path e = p) (block_events txs)"
  have "p \<in> ev_path ` set (block_events txs)"
    using assms agg_fold_keys(2) [of "block_events txs" "[]"] by force
  then have ne: "es \<noteq> []" by (auto simp: es_def filter_empty_conv)
  have "map_of (fold agg_step (block_events txs) []) p = Some v"
    using assms agg_fold_keys(1) [of "[]" "block_events txs"] by simp
  then have f: "fold (\<lambda>e old. Some (agg_entry e old)) es None = Some v"
    by (simp add: map_of_agg_fold es_def)
  have "path_kind (JStr p) = Some (ob_kind (snd (snd e)))" if "e \<in> set es" for e
    using that block_events_kind [of e txs] by (simp add: es_def)
  then have "ag_kind v = the (path_kind (JStr p))" using agg_fold_kind [OF _ _ f] ne by simp
  moreover have "agg_spec es v" using agg_fold_spec [OF ne] f by simp
  ultimately show ?thesis
    using count_calls_total [of es]
    by (simp add: agg_row_def spec_row_def agg_spec_def Let_def flip: es_def)
qed

lemma aggregate_block_table:
  "aggregate_block txs =
     map (spec_row (block_events txs)) (sorted_list_of_set (ev_path ` set (block_events txs)))"
proof -
  define kvs where "kvs = sort_key fst (fold agg_step (block_events txs) [])"
  have "distinct (map fst kvs)" "set (map fst kvs) = ev_path ` set (block_events txs)" "sorted (map fst kvs)"
    using agg_fold_keys(1) [of "[]" "block_events txs"] agg_fold_keys(2) [of "block_events txs" "[]"]
    by (simp_all add: kvs_def distinct_map sorted_sort_key)
  then have keys: "map fst kvs = sorted_list_of_set (ev_path ` set (block_events txs))"
    using sorted_list_of_set.idem_if_sorted_distinct by metis
  have "aggregate_block txs = map agg_row kvs" by (simp add: aggregate_block_def kvs_def)
  also have "\<dots> = map (spec_row (block_events txs) \<circ> fst) kvs"
    using agg_row_spec [of "fst kv" "snd kv" txs for kv] by (simp add: kvs_def)
  finally show ?thesis by (simp add: keys flip: map_map)
qed

text \<open>C17: the aggregation of a block is exactly the reference table: one row per observed path, in
  strictly increasing order of the paths, whose call counters count the path's MsgCall observations by
  execution status (and add up), whose first index is the least transaction index seen, whose last activity
  is the greatest index of a call, and whose deployment is the earliest one with its sender.\<close>

theorem aggregate_block_exact:
  "aggregate_block txs =
     map (spec_row (block_events txs)) (sorted_list_of_set (ev_path ` set (block_events txs)))"
  by (rule aggregate_block_table)

lemma aggregate_block_paths: "distinct (map pa_path (aggregate_block txs))"
proof -
  have "pa_path \<circ> spec_row evs = id" for evs by (auto simp: spec_row_def Let_def)
  then show ?thesis by (simp add: aggregate_block_table)
qed

section \<open>Locators and paths\<close>

text \<open>The CHECK constraints of table \<open>realm_call_index\<close> on the extracted columns (\<open>database/schema.sql\<close>).\<close>

definition realm_path_check :: "string \<Rightarrow> bool" where
  "realm_path_check p = (1 \<le> length p \<and> length p \<le> 256 \<and> path_re_kind p = Some ''r'' \<and>
     CHR ''?'' \<notin> set p \<and> CHR ''#'' \<notin> set p)"

definition opt_check :: "('a \<Rightarrow> bool) \<Rightarrow> 'a option \<Rightarrow> bool" where
  "opt_check P v = (case v of None \<Rightarrow> True | Some x \<Rightarrow> P x)"

definition text160_check :: "string \<Rightarrow> bool" where
  "text160_check s = (1 \<le> length s \<and> length s \<le> 160)"

definition realm_call_index_check :: "realm_call \<Rightarrow> bool" where
  "realm_call_index_check c =
     (rc_message_index c \<le> 19 \<and> realm_path_check (rc_path c) \<and>
      opt_check address_re (rc_caller c) \<and> opt_check text160_check (rc_function c) \<and>
      opt_check (\<lambda>n. 0 \<le> n \<and> n \<le> 100000) (rc_args_count c) \<and> opt_check text160_check (rc_send c))"

lemma path_kind_realm: "path_kind (JStr p) = Some ''realm'' \<Longrightarrow> realm_path_check p"
  by (auto simp: path_kind_def realm_path_check_def path_re_kind_def split: if_splits option.splits list.splits)

lemma opt_fields_check:
  "opt_caller j = Some v \<Longrightarrow> opt_check address_re v"
  "opt_text160 j = Some v \<Longrightarrow> opt_check text160_check v"
  "opt_args_count j = Some w \<Longrightarrow> opt_check (\<lambda>n. 0 \<le> n \<and> n \<le> 100000) w"
  by (cases j; fastforce simp: opt_caller_def opt_text160_def opt_args_count_def opt_check_def text160_check_def
      Suc_le_eq split: if_splits)+

lemma call_of_message_facts:
  assumes "call_of_message i m = Some c"
  shows "rc_message_index c = i" and "realm_path_check (rc_path c)" and "opt_check address_re (rc_caller c)"
    and "opt_check text160_check (rc_function c)" and "opt_check text160_check (rc_send c)"
    and "opt_check (\<lambda>n. 0 \<le> n \<and> n \<le> 100000) (rc_args_count c)"
    and "\<exists>ob. observe_message i m = Some ob \<and> ob_type ob = ''call'' \<and> ob_path ob = rc_path c \<and> ob_message_index ob = i"
  using assms
  by (auto simp: call_of_message_def observe_message_def Let_def intro: path_kind_realm opt_fields_check
      split: json.splits if_splits option.splits)

lemma map_filter_enum_sorted:
  assumes "\<And>i m a. f (i, m) = Some a \<Longrightarrow> idx a = i"
  shows "sorted_wrt (<) (map idx (List.map_filter f (List.enumerate n xs))) \<and>
         (\<forall>a \<in> set (List.map_filter f (List.enumerate n xs)). n \<le> idx a \<and> idx a < n + length xs)"
proof (induction xs arbitrary: n)
  case (Cons x xs)
  show ?case
  proof (cases "f (n, x)")
    case None
    with Cons.IH [of "Suc n"] show ?thesis by (auto simp: map_filter_simps Suc_le_eq)
  next
    case (Some a)
    with Cons.IH [of "Suc n"] assms [OF Some] show ?thesis by (auto simp: map_filter_simps Suc_le_eq)
  qed
qed (simp add: map_filter_simps)

lemma subseq_map_filter:
  assumes "\<And>x a. f x = Some a \<Longrightarrow> \<exists>b. g x = Some b \<and> P b \<and> k b = h a"
  shows "subseq (map h (List.map_filter f xs)) (map k (filter P (List.map_filter g xs)))"
proof (induction xs)
  case (Cons x xs)
  show ?case
  proof (cases "f x")
    case None
    with Cons.IH show ?thesis by (auto simp: map_filter_simps split: option.splits)
  next
    case (Some a)
    with assms [OF Some] Cons.IH show ?thesis by (auto simp: map_filter_simps)
  qed
qed (simp add: map_filter_simps)

lemma parsed_messages_bound: "length (parsed_messages s) \<le> 20"
  by (auto simp: parsed_messages_def MAX_MESSAGES_def split: json.splits)

text \<open>the MsgCall locators of any value are in strictly increasing message order, each satisfies
  every CHECK constraint of table \<open>realm_call_index\<close> on the extracted columns, and they are a subsequence of the
  call observations the catalog counts, so the locator index never holds a call the counters miss.\<close>

theorem realm_calls_indexable:
  "sorted_wrt (<) (map rc_message_index (extract_realm_calls s)) \<and>
   list_all realm_call_index_check (extract_realm_calls s) \<and>
   subseq (map (\<lambda>c. (rc_path c, rc_message_index c)) (extract_realm_calls s))
     (map (\<lambda>ob. (ob_path ob, ob_message_index ob))
        (filter (\<lambda>ob. ob_type ob = ''call'') (extract_observations s)))"
proof (intro conjI)
  let ?f = "\<lambda>(i, m). call_of_message i m"
  have idx: "rc_message_index a = i" if "?f (i, m) = Some a" for i m a
    using that call_of_message_facts(1) by simp
  note en = map_filter_enum_sorted [of ?f rc_message_index 0 "parsed_messages s", OF idx]
  show "sorted_wrt (<) (map rc_message_index (extract_realm_calls s))"
    using en by (simp add: extract_realm_calls_def)
  have "realm_call_index_check c" if "c \<in> set (extract_realm_calls s)" for c
  proof -
    from that obtain i m where "call_of_message i m = Some c"
      by (auto simp: extract_realm_calls_def map_filter_def split: option.splits)
    moreover from that en have "rc_message_index c < length (parsed_messages s)"
      by (simp add: extract_realm_calls_def)
    ultimately show ?thesis
      using call_of_message_facts [of i m c] parsed_messages_bound [of s] by (simp add: realm_call_index_check_def)
  qed
  then show "list_all realm_call_index_check (extract_realm_calls s)" by (simp add: list_all_iff)
  show "subseq (map (\<lambda>c. (rc_path c, rc_message_index c)) (extract_realm_calls s))
     (map (\<lambda>ob. (ob_path ob, ob_message_index ob)) (filter (\<lambda>ob. ob_type ob = ''call'') (extract_observations s)))"
    unfolding extract_realm_calls_def extract_observations_def
    by (rule subseq_map_filter) (use call_of_message_facts(1,7) in fastforce)
qed

lemma collect_qpaths_spec:
  assumes "collect_qpaths ls acc = Inr out" and "distinct (map fst acc)" and "length acc \<le> 10000"
    and "\<forall>(p, k) \<in> set acc. path_kind (JStr p) = Some k"
  shows "distinct (map fst out) \<and> length out \<le> 10000 \<and> (\<forall>(p, k) \<in> set out. path_kind (JStr p) = Some k) \<and>
     fst ` set out = fst ` set acc \<union> (set ls - {[]})"
  using assms
proof (induction ls acc rule: collect_qpaths.induct)
  case (2 raw rest paths)
  show ?case
  proof (cases "raw = []")
    case True
    with 2 show ?thesis by simp
  next
    case False
    with "2.prems"(1) obtain kind where k: "path_kind (JStr raw) = Some kind"
      and len: "length (AList.update raw kind paths) \<le> 10000"
      and rec: "collect_qpaths rest (AList.update raw kind paths) = Inr out"
      by (auto simp: Let_def split: option.splits if_splits)
    have "\<forall>(p, k) \<in> set (AList.update raw kind paths). path_kind (JStr p) = Some k"
      using "2.prems"(4) k by (induction paths) auto
    moreover have "fst ` set (AList.update raw kind paths) = insert raw (fst ` set paths)"
      using dom_update [of raw kind paths] by simp
    ultimately show ?thesis
      using "2.IH"(2) [OF False k refl _ rec] len "2.prems"(2) False by (auto simp: distinct_update)
  qed
qed auto

text \<open>a qpaths response is accepted as a whole or refused: an accepted one yields between one and ten
  thousand rows, strictly sorted by path, that pair exactly the non-empty lines of the response with the catalog
  kind of each.\<close>

theorem parse_qpaths_exact:
  assumes "parse_qpaths payload = Inr rows"
  shows "rows \<noteq> [] \<and> length rows \<le> 10000 \<and> sorted_wrt (<) (map fst rows) \<and>
    fst ` set rows = set (py_splitlines payload) - {[]} \<and>
    (\<forall>(p, k) \<in> set rows. path_kind (JStr p) = Some k)"
proof -
  obtain ps where c: "collect_qpaths (py_splitlines payload) [] = Inr ps" and "ps \<noteq> []" and rows: "rows = sort_key fst ps"
    using assms by (auto simp: parse_qpaths_def bindE_Inr_iff guardE_Inr_iff)
  have spec: "distinct (map fst ps)" "length ps \<le> 10000" "\<forall>(p, k) \<in> set ps. path_kind (JStr p) = Some k"
    "fst ` set ps = set (py_splitlines payload) - {[]}"
    using collect_qpaths_spec [OF c] by simp_all
  have "rows \<noteq> []" using \<open>ps \<noteq> []\<close> by (metis rows length_0_conv length_sort)
  moreover have "sorted_wrt (<) (map fst rows)"
    using spec(1) by (simp add: rows strict_sorted_iff distinct_map)
  ultimately show ?thesis using spec by (simp add: rows)
qed

theorem parse_qpaths_exact_witness:
  "\<exists>rows. parse_qpaths ''gno.land/r/demo'' = Inr rows \<and> rows \<noteq> [] \<and> sorted_wrt (<) (map fst rows)"
proof -
  have p: "parse_qpaths ''gno.land/r/demo'' = Inr [(''gno.land/r/demo'', ''realm'')]"
  proof -
    have "py_splitlines ''gno.land/r/demo'' = [''gno.land/r/demo'']" by code_simp
    moreover have "path_kind (JStr ''gno.land/r/demo'') = Some ''realm''" by code_simp
    ultimately show ?thesis by (simp add: parse_qpaths_def utf8_len_def MAX_QPATHS_BYTES_def)
  qed
  with parse_qpaths_exact [OF p] show ?thesis by blast
qed

end
