(* ===== verification/Db_Tables.thy ===== *)
theory Db_Tables
  imports Parsers Realm_Catalog
begin

text \<open>
  The tables the indexer writes, as \<open>database/schema.sql\<close> declares them: a table is the list of
  its rows by primary key. The driver and the server are parameters (\<open>pg\<close>): how a Python
  value is bound to a text, jsonb, timestamptz or boolean column. CHECK, UNIQUE, NOT NULL and foreign
  key constraints are part of the schema and raise \<open>IntegrityError\<close> with the constraint's name;
  a number outside its column's range raises \<open>DataError\<close>. The bookkeeping columns
  \<open>inserted_at\<close>, \<open>updated_at\<close>, \<open>last_checked_at\<close> and the like, set to \<open>now()\<close>, are left out.
\<close>

section \<open>Binding\<close>

record pg =
  bind_text :: "json \<Rightarrow> string option res"
  bind_jsonb :: "json \<Rightarrow> json res"
  bind_time :: "json \<Rightarrow> string option res"
  bind_bool :: "json \<Rightarrow> bool option res"

definition not_null :: "string \<Rightarrow> 'a option \<Rightarrow> 'a res" where
  "not_null column v = (case v of None \<Rightarrow> Inl (IntegrityError column) | Some x \<Rightarrow> Inr x)"

definition text_nn :: "pg \<Rightarrow> string \<Rightarrow> json \<Rightarrow> string res" where
  "text_nn p column v = bindE (bind_text p v) (not_null column)"

definition text_opt :: "pg \<Rightarrow> string option \<Rightarrow> string option res" where
  "text_opt p v = bind_text p (case v of None \<Rightarrow> JNull | Some s \<Rightarrow> JStr s)"

text \<open>\<open>_json(value)\<close>: \<open>None\<close> stays NULL, everything else is serialised and cast to jsonb.\<close>

definition json_param :: "pg \<Rightarrow> json \<Rightarrow> json res" where
  "json_param p v = (if v = JNull then Inr JNull else bind_jsonb p v)"

definition int4 :: "int \<Rightarrow> bool" where "int4 i = (- (2 ^ 31) \<le> i \<and> i < 2 ^ 31)"
definition int8 :: "int \<Rightarrow> bool" where "int8 i = (- (2 ^ 63) \<le> i \<and> i < 2 ^ 63)"
definition numeric78 :: "int \<Rightarrow> bool" where "numeric78 i = (\<bar>i\<bar> < 10 ^ 78)"

definition in_range :: "bool \<Rightarrow> unit res" where
  "in_range b = guardE b DataError"

definition constraint :: "string \<Rightarrow> bool \<Rightarrow> unit res" where
  "constraint name b = guardE b (IntegrityError name)"

lemma binding_Inr [res_simps]:
  "not_null c v = Inr x \<longleftrightarrow> v = Some x"
  "in_range b = Inr u \<longleftrightarrow> b"
  "constraint n b = Inr u \<longleftrightarrow> b"
  by (auto simp: not_null_def in_range_def constraint_def guardE_Inr_iff split: option.splits)

section \<open>Rows\<close>

record block_row =
  br_hash_base64 :: string
  br_hash_hex :: string
  br_time :: string
  br_proposer :: "string option"
  br_tx_count :: int
  br_raw :: json

record tx_row =
  tr_raw_base64 :: string
  tr_raw_length :: nat
  tr_bytes :: "bytes option"
  tr_byte_length :: "nat option"
  tr_status :: string
  tr_hash :: "string option"
  tr_summary :: json

record result_row =
  xr_status :: string
  xr_gas_wanted :: int
  xr_gas_used :: int
  xr_error :: "string option"
  xr_log :: "string option"
  xr_info :: "string option"
  xr_data :: "string option"
  xr_events :: json
  xr_raw :: json
  xr_endpoint :: "int option"

record validator_row =
  vr_key_type :: string
  vr_key_value :: string
  vr_first_seen :: int
  vr_last_seen :: int

record member_row =
  mr_voting_power :: int
  mr_priority :: "int option"
  mr_index :: nat
  mr_raw :: json

record sig_row =
  sg_status :: string
  sg_signed :: bool
  sg_hash_base64 :: "string option"
  sg_hash_hex :: "string option"
  sg_parts_total :: "int option"
  sg_parts_hash_base64 :: "string option"
  sg_parts_hash_hex :: "string option"
  sg_is_zero :: bool
  sg_matches_commit :: bool
  sg_signature :: "string option"
  sg_raw :: json

record catalog_row =
  cr_path_kind :: string
  cr_seen_via_rpc :: bool
  cr_seen_via_tx :: bool
  cr_rpc_visible :: bool
  cr_deployer :: "string option"
  cr_deploy_height :: "int option"
  cr_deploy_tx_index :: "nat option"
  cr_first_seen :: "int option"
  cr_last_height :: "int option"
  cr_last_tx_index :: "nat option"
  cr_last_at :: "string option"
  cr_calls :: nat
  cr_successful :: nat
  cr_failed :: nat
  cr_unknown :: nat
  cr_last_counted :: "int option"

record endpoint_row =
  ep_id :: int
  ep_url :: string
  ep_chain :: string
  ep_enabled :: bool
  ep_selected :: bool
  ep_height :: "int option"
  ep_lag :: "int option"
  ep_catching_up :: "bool option"
  ep_healthy :: bool
  ep_error :: "string option"
  ep_latency :: "int option"

record check_row =
  ck_endpoint :: int
  ck_chain :: string
  ck_height :: "int option"
  ck_lag :: "int option"
  ck_catching_up :: "bool option"
  ck_healthy :: bool
  ck_selected :: bool
  ck_switch_reason :: "string option"
  ck_error :: "string option"

record state_row =
  is_chain :: string
  is_last_finalized :: int
  is_finalized_tip :: int
  is_endpoint :: "int option"

type_synonym ('k, 'v) table = "('k \<times> 'v) list"

text \<open>
  Two tables are grouped by a prefix of their primary key, the unit in which they are rewritten:
  the participants by (height, transaction index), the call locators by (chain, height).
\<close>

record db =
  blocks :: "(int, block_row) table"
  transactions :: "(int \<times> nat, tx_row) table"
  participants :: "(int \<times> nat, participant list) table"
  results :: "(int \<times> nat, result_row) table"
  validators :: "(string, validator_row) table"
  members :: "(int \<times> string, member_row) table"
  signatures :: "(int \<times> string, sig_row) table"
  endpoints :: "endpoint_row list"
  endpoint_checks :: "check_row list"
  next_endpoint :: int
  indexer_state :: "state_row option"
  catalog :: "(string \<times> string, catalog_row) table"
  catalog_state :: "(string, int option \<times> int option) table"
  call_index :: "(string \<times> int, (nat \<times> nat, realm_call) table) table"
  call_state :: "(string, int \<times> int) table"

definition empty_db :: db where
  "empty_db = \<lparr>blocks = [], transactions = [], participants = [], results = [], validators = [], members = [],
     signatures = [], endpoints = [], endpoint_checks = [], next_endpoint = 1, indexer_state = None, catalog = [],
     catalog_state = [], call_index = [], call_state = []\<rparr>"

section \<open>Row constraints\<close>

definition check_block :: "int \<Rightarrow> block_row \<Rightarrow> unit res" where
  "check_block height r =
     bindE (in_range (int8 height \<and> int4 (br_tx_count r))) (\<lambda>_.
     bindE (constraint ''blocks_tx_count_check'' (0 \<le> br_tx_count r)) (\<lambda>_.
     constraint ''blocks_block_hash_hex_uppercase'' (br_hash_hex r = py_upper (br_hash_hex r))))"

text \<open>The other unique keys of a table: no other row has the same value.\<close>

definition unique_key :: "string \<Rightarrow> ('v \<Rightarrow> 'a) \<Rightarrow> 'v \<Rightarrow> ('k, 'v) table \<Rightarrow> unit res" where
  "unique_key name f r t = constraint name (\<not> list_ex (\<lambda>kv. f (snd kv) = f r) t)"

definition check_tx :: "tx_row \<Rightarrow> unit res" where
  "check_tx r =
     bindE (constraint ''transactions_raw_base64_length_matches'' (tr_raw_length r = length (tr_raw_base64 r))) (\<lambda>_.
     bindE (constraint ''transactions_decode_status_consistent''
       (tr_status r = ''decoded'' \<and> tr_bytes r \<noteq> None \<and> tr_byte_length r = map_option length (tr_bytes r) \<or>
        tr_status r \<in> {''invalid_base64'', ''not_attempted''} \<and> tr_bytes r = None \<and> tr_byte_length r = None)) (\<lambda>_.
     bindE (constraint ''transactions_tx_hash_hex_format''
       (opt_check (\<lambda>h. length h = 64 \<and> list_all is_upper_hex h) (tr_hash r))) (\<lambda>_.
     constraint ''transactions_tx_hash_consistent''
       (tr_status r = ''decoded'' \<and> tr_hash r \<noteq> None \<or>
        tr_status r \<in> {''invalid_base64'', ''not_attempted''} \<and> tr_hash r = None))))"

definition check_participant :: "int \<Rightarrow> participant \<Rightarrow> unit res" where
  "check_participant height = (\<lambda>(message_index, role, address).
     bindE (constraint ''transaction_participants_block_height_check'' (0 < height)) (\<lambda>_.
     bindE (constraint ''transaction_participants_message_index_check'' (message_index \<le> 19)) (\<lambda>_.
     bindE (constraint ''transaction_participants_role_check'' (role \<in> {''sender'', ''recipient''})) (\<lambda>_.
     constraint ''transaction_participants_address_check'' (address_re address)))))"

definition check_result :: "result_row \<Rightarrow> unit res" where
  "check_result r =
     bindE (in_range (numeric78 (xr_gas_wanted r) \<and> numeric78 (xr_gas_used r))) (\<lambda>_.
     bindE (constraint ''transaction_execution_results_status_check'' (xr_status r \<in> {''success'', ''failed''})) (\<lambda>_.
     bindE (constraint ''transaction_execution_results_gas_wanted_check'' (0 \<le> xr_gas_wanted r)) (\<lambda>_.
     bindE (constraint ''transaction_execution_results_gas_used_check'' (0 \<le> xr_gas_used r)) (\<lambda>_.
     constraint ''transaction_execution_results_error_check''
       (xr_status r = ''success'' \<and> xr_error r = None \<or>
        xr_status r = ''failed'' \<and> (case xr_error r of None \<Rightarrow> False | Some t \<Rightarrow> strip_by (\<lambda>c. c = CHR '' '') t \<noteq> []))))))"

definition check_validator :: "validator_row \<Rightarrow> unit res" where
  "check_validator r =
     bindE (in_range (int8 (vr_first_seen r) \<and> int8 (vr_last_seen r))) (\<lambda>_.
     bindE (constraint ''validators_first_seen_height_check'' (0 \<le> vr_first_seen r)) (\<lambda>_.
     constraint ''validators_last_seen_height_check'' (vr_first_seen r \<le> vr_last_seen r)))"

definition check_member :: "member_row \<Rightarrow> unit res" where
  "check_member r =
     bindE (in_range (numeric78 (mr_voting_power r) \<and> opt_check numeric78 (mr_priority r))) (\<lambda>_.
     constraint ''validator_set_members_voting_power_check'' (0 \<le> mr_voting_power r))"

definition check_signature :: "sig_row \<Rightarrow> unit res" where
  "check_signature r =
     bindE (in_range (opt_check int4 (sg_parts_total r))) (\<lambda>_.
     bindE (constraint ''validator_signatures_vote_status_check'' (sg_status r \<in> {''commit'', ''nil'', ''absent'', ''invalid''})) (\<lambda>_.
     bindE (constraint ''validator_signatures_vote_block_id_parts_total_check'' (opt_check (\<lambda>n. 0 \<le> n) (sg_parts_total r))) (\<lambda>_.
     bindE (constraint ''validator_signatures_signed_only_matching_commit''
       (sg_signed r = (sg_status r = ''commit'' \<and> sg_matches_commit r))) (\<lambda>_.
     bindE (constraint ''validator_signatures_commit_vote_consistent''
       (sg_status r = ''commit'' \<longrightarrow> sg_matches_commit r \<and> \<not> sg_is_zero r \<and> sg_hash_base64 r \<noteq> None \<and> sg_hash_hex r \<noteq> None \<and>
          sg_parts_total r \<noteq> None \<and> sg_parts_hash_base64 r \<noteq> None \<and> sg_parts_hash_hex r \<noteq> None \<and> sg_signature r \<noteq> None)) (\<lambda>_.
     bindE (constraint ''validator_signatures_nil_vote_consistent''
       (sg_status r = ''nil'' \<longrightarrow> \<not> sg_signed r \<and> sg_is_zero r \<and> \<not> sg_matches_commit r)) (\<lambda>_.
     bindE (constraint ''validator_signatures_absent_vote_consistent''
       (sg_status r = ''absent'' \<longrightarrow> \<not> sg_signed r \<and> \<not> sg_is_zero r \<and> \<not> sg_matches_commit r \<and> sg_hash_base64 r = None \<and>
          sg_hash_hex r = None \<and> sg_parts_total r = None \<and> sg_parts_hash_base64 r = None \<and> sg_parts_hash_hex r = None \<and>
          sg_signature r = None \<and> sg_raw r = JNull)) (\<lambda>_.
     bindE (constraint ''validator_signatures_invalid_vote_consistent''
       (sg_status r = ''invalid'' \<longrightarrow> \<not> sg_signed r \<and> \<not> sg_matches_commit r)) (\<lambda>_.
     bindE (constraint ''validator_signatures_vote_hash_hex_uppercase'' (opt_check (\<lambda>h. h = py_upper h) (sg_hash_hex r))) (\<lambda>_.
     constraint ''validator_signatures_vote_parts_hash_hex_uppercase'' (opt_check (\<lambda>h. h = py_upper h) (sg_parts_hash_hex r)))))))))))"

definition catalog_path_check :: "string \<Rightarrow> string \<Rightarrow> bool" where
  "catalog_path_check path kind =
     (1 \<le> length path \<and> length path \<le> 256 \<and> path_re_kind path \<noteq> None \<and> CHR ''?'' \<notin> set path \<and> CHR ''#'' \<notin> set path \<and>
      (kind = ''realm'' \<and> path_re_kind path = Some ''r'' \<or> kind = ''package'' \<and> path_re_kind path = Some ''p''))"

definition check_catalog :: "string \<Rightarrow> catalog_row \<Rightarrow> unit res" where
  "check_catalog path r =
     bindE (in_range (opt_check int8 (cr_first_seen r))) (\<lambda>_.
     bindE (constraint ''realm_catalog_path_kind_check'' (cr_path_kind r \<in> {''realm'', ''package''})) (\<lambda>_.
     bindE (constraint ''realm_catalog_path_check'' (catalog_path_check path (cr_path_kind r))) (\<lambda>_.
     bindE (constraint ''realm_catalog_deployer_check'' (opt_check address_re (cr_deployer r))) (\<lambda>_.
     bindE (constraint ''realm_catalog_deploy_position_check''
       ((cr_deploy_height r = None) = (cr_deploy_tx_index r = None) \<and> opt_check (\<lambda>h. 0 < h) (cr_deploy_height r))) (\<lambda>_.
     bindE (constraint ''realm_catalog_activity_position_check''
       ((cr_last_height r = None) = (cr_last_tx_index r = None) \<and> (cr_last_height r = None) = (cr_last_at r = None) \<and>
        opt_check (\<lambda>h. 0 < h) (cr_last_height r))) (\<lambda>_.
     bindE (constraint ''realm_catalog_counters_check'' (cr_successful r + cr_failed r + cr_unknown r = cr_calls r)) (\<lambda>_.
     bindE (constraint ''realm_catalog_counted_height_check''
       (cr_calls r = 0 \<and> cr_last_counted r = None \<or> 0 < cr_calls r \<and> (case cr_last_counted r of None \<Rightarrow> False | Some h \<Rightarrow> 0 < h))) (\<lambda>_.
     bindE (constraint ''realm_catalog_first_seen_check'' (opt_check (\<lambda>h. 0 < h) (cr_first_seen r))) (\<lambda>_.
     bindE (constraint ''realm_catalog_rpc_visibility_check'' (\<not> cr_rpc_visible r \<or> cr_seen_via_rpc r)) (\<lambda>_.
     constraint ''realm_catalog_transaction_metadata_check''
       (cr_seen_via_tx r \<or> cr_deployer r = None \<and> cr_deploy_height r = None \<and> cr_first_seen r = None \<and>
        cr_last_height r = None \<and> cr_calls r = 0)))))))))))"

definition check_call :: "string \<Rightarrow> int \<Rightarrow> realm_call \<Rightarrow> unit res" where
  "check_call chain_id height c =
     bindE (in_range (int8 height)) (\<lambda>_.
     bindE (constraint ''realm_call_index_chain_id_check'' (1 \<le> length chain_id \<and> length chain_id \<le> 128)) (\<lambda>_.
     bindE (constraint ''realm_call_index_block_height_check'' (0 < height)) (\<lambda>_.
     constraint ''realm_call_index'' (realm_call_index_check c))))"

definition check_call_state :: "string \<Rightarrow> int \<times> int \<Rightarrow> unit res" where
  "check_call_state chain_id = (\<lambda>(from_height, through_height).
     bindE (in_range (int8 through_height)) (\<lambda>_.
     bindE (constraint ''realm_call_index_state_chain_id_check'' (1 \<le> length chain_id \<and> length chain_id \<le> 128)) (\<lambda>_.
     bindE (constraint ''realm_call_index_state_from_height_check'' (0 < from_height)) (\<lambda>_.
     constraint ''realm_call_index_state_range_check'' (from_height \<le> through_height)))))"

definition check_state :: "state_row \<Rightarrow> unit res" where
  "check_state r =
     bindE (in_range (int8 (is_last_finalized r) \<and> int8 (is_finalized_tip r))) (\<lambda>_.
     bindE (constraint ''indexer_state_last_finalized_height_check'' (0 \<le> is_last_finalized r)) (\<lambda>_.
     constraint ''indexer_state_finalized_tip_height_check'' (is_last_finalized r \<le> is_finalized_tip r)))"

section \<open>Tables\<close>

text \<open>\<open>INSERT ... ON CONFLICT (key) DO UPDATE\<close>: \<open>upd\<close> maps the existing row to the new one.\<close>

definition upsert :: "'k \<Rightarrow> 'v \<Rightarrow> ('v \<Rightarrow> 'v) \<Rightarrow> ('k, 'v) table \<Rightarrow> ('k, 'v) table" where
  "upsert k new upd t = (case map_of t k of None \<Rightarrow> AList.update k new t | Some old \<Rightarrow> AList.update k (upd old) t)"

lemma map_of_upsert:
  "map_of (upsert k new upd t) k' =
   (if k' = k then Some (case map_of t k of None \<Rightarrow> new | Some old \<Rightarrow> upd old) else map_of t k')"
  by (simp add: upsert_def update_conv' split: option.splits)

text \<open>The rows of a group; a group that does not exist has none.\<close>

definition group :: "'k \<Rightarrow> ('k, 'v list) table \<Rightarrow> 'v list" where
  "group k t = (case map_of t k of None \<Rightarrow> [] | Some g \<Rightarrow> g)"

lemma group_update [simp]: "group k (AList.update k' g t) = (if k = k' then g else group k t)"
  by (simp add: group_def update_conv')

end
