(* ===== verification/Db_Write.thy ===== *)
theory Db_Write
  imports Db_Tables
begin

text \<open>
  \<open>write_height_cursor\<close> of \<open>indexer/database.py\<close> and everything it calls: the checkpoint, the
  conflict checks against finalized data, the upserts, the two coverage ranges. Each function
  takes the database of the running transaction and returns the new one or raises; the
  transaction itself (\<open>PostgresDatabase.write_height\<close>) commits the result or keeps the old
  database. The advisory transaction lock taken by \<open>lock_realm_call_index\<close> orders this writer
  and the rebuild scripts; within one transaction it has no effect.
\<close>

section \<open>Checkpoint\<close>

definition get_checkpoint_cursor :: "db \<Rightarrow> string \<Rightarrow> int option res" where
  "get_checkpoint_cursor d chain_id =
     (case indexer_state d of
        None \<Rightarrow> Inr None
      | Some row \<Rightarrow>
          bindE (guardE (is_chain row = chain_id) (ChainIdentityError ''Existing indexer_state chain_id='')) (\<lambda>_.
          Inr (Some (is_last_finalized row))))"

record checkpoint_anchor =
  an_height :: int
  an_hash :: string

definition get_checkpoint_anchor_cursor :: "db \<Rightarrow> string \<Rightarrow> checkpoint_anchor option res" where
  "get_checkpoint_anchor_cursor d chain_id =
     (case indexer_state d of
        None \<Rightarrow> Inr None
      | Some row \<Rightarrow>
          bindE (guardE (is_chain row = chain_id) (ChainIdentityError ''Existing indexer_state chain_id='')) (\<lambda>_.
          case map_of (blocks d) (is_last_finalized row) of
            None \<Rightarrow> Inl (DatabaseError ''Checkpoint block is missing at height '')
          | Some b \<Rightarrow>
              bindE (guardE (length (br_hash_hex b) = 64 \<and> list_all is_upper_hex (br_hash_hex b))
                       (DatabaseError ''Checkpoint block hash is malformed at height '')) (\<lambda>_.
              Inr (Some \<lparr>an_height = is_last_finalized row, an_hash = br_hash_hex b\<rparr>))))"

definition verify_checkpoint_sequence :: "int \<Rightarrow> int option \<Rightarrow> unit res" where
  "verify_checkpoint_sequence height checkpoint =
     (case checkpoint of
        None \<Rightarrow> Inr ()
      | Some c \<Rightarrow> guardE (height \<le> c + 1) (DatabaseError ''Refusing to skip from checkpoint ''))"

definition advance_checkpoint ::
  "db \<Rightarrow> int \<Rightarrow> int option \<Rightarrow> string \<Rightarrow> int \<Rightarrow> int option \<Rightarrow> db res" where
  "advance_checkpoint d height checkpoint chain_id finalized_tip endpoint_id =
     (if (case checkpoint of None \<Rightarrow> False | Some c \<Rightarrow> height \<le> c) then Inr d
      else
        bindE (guardE (case checkpoint of None \<Rightarrow> True | Some c \<Rightarrow> height = c + 1) (DatabaseError ''Height '')) (\<lambda>_.
        let new = \<lparr>is_chain = chain_id, is_last_finalized = height, is_finalized_tip = finalized_tip, is_endpoint = endpoint_id\<rparr> in
        bindE (check_state new) (\<lambda>_.
        let row = (case indexer_state d of
                     None \<Rightarrow> new
                   | Some old \<Rightarrow> old\<lparr>is_last_finalized := max (is_last_finalized old) height,
                                    is_finalized_tip := finalized_tip, is_endpoint := endpoint_id\<rparr>) in
        bindE (check_state row) (\<lambda>_.
        bindE (constraint ''indexer_state_selected_rpc_endpoint_id_fkey''
                 (opt_check (\<lambda>i. i \<in> ep_id ` set (endpoints d)) endpoint_id)) (\<lambda>_.
        Inr (d\<lparr>indexer_state := Some row\<rparr>))))))"

section \<open>Conflicts with finalized data\<close>

definition verify_block_conflict :: "db \<Rightarrow> parsed_height \<Rightarrow> bool res" where
  "verify_block_conflict d ph =
     (case map_of (blocks d) (ph_height ph) of
        None \<Rightarrow> Inr False
      | Some row \<Rightarrow>
          bindE (guardE (br_hash_base64 row = pb_hash_base64 (ph_block ph) \<and> br_hash_hex row = pb_hash_hex (ph_block ph))
                   (FinalizedDataConflict ''Conflicting finalized block hash at height '')) (\<lambda>_. Inr True))"

text \<open>The second components of the keys of one height (\<open>_fetch_single_column_set\<close>).\<close>

definition keys_at :: "int \<Rightarrow> (int \<times> 'a, 'v) table \<Rightarrow> 'a list" where
  "keys_at h t = map (\<lambda>kv. snd (fst kv)) (filter (\<lambda>kv. fst (fst kv) = h) t)"

definition verify_child_key_sets :: "db \<Rightarrow> parsed_height \<Rightarrow> bool \<Rightarrow> unit res" where
  "verify_child_key_sets d ph existing_height =
     (if \<not> existing_height then Inr ()
      else
        bindE (guardE (set (keys_at (ph_height ph) (transactions d)) = tx_index ` set (ph_transactions ph))
                 (FinalizedDataConflict ''Conflicting transaction index set at height '')) (\<lambda>_.
        bindE (hash_all (map vi_address (ph_validators ph))) (\<lambda>incoming_members.
        bindE (guardE (JStr ` set (keys_at (ph_height ph) (members d)) = set incoming_members)
                 (FinalizedDataConflict ''Conflicting validator-set member set at height '')) (\<lambda>_.
        bindE (hash_all (map sr_signing_address (ph_signatures ph))) (\<lambda>incoming_signatures.
        guardE (JStr ` set (keys_at (ph_height ph) (signatures d)) = set incoming_signatures)
          (FinalizedDataConflict ''Conflicting validator signature set at height ''))))))"

definition verify_transaction_conflicts :: "db \<Rightarrow> parsed_height \<Rightarrow> unit res" where
  "verify_transaction_conflicts d ph = checkE (\<lambda>t.
     case map_of (transactions d) (ph_height ph, tx_index t) of
       None \<Rightarrow> Inr ()
     | Some row \<Rightarrow>
         guardE ((tr_raw_base64 row, tr_raw_length row, tr_byte_length row, tr_status row, tr_hash row) =
                 (tx_raw_base64 t, tx_raw_base64_length t, tx_decoded_byte_length t, tx_decode_status t, tx_hash_hex t))
           (FinalizedDataConflict ''Conflicting transaction at height '')) (ph_transactions ph)"

definition opt_json :: "string option \<Rightarrow> json" where
  "opt_json v = (case v of None \<Rightarrow> JNull | Some s \<Rightarrow> JStr s)"

definition verify_execution_result_conflicts :: "db \<Rightarrow> parsed_height \<Rightarrow> unit res" where
  "verify_execution_result_conflicts d ph = checkE (\<lambda>r.
     case map_of (results d) (ph_height ph, er_tx_index r) of
       None \<Rightarrow> Inr ()
     | Some row \<Rightarrow>
         guardE (xr_status row = er_execution_status r \<and> xr_gas_wanted row = er_gas_wanted r \<and>
                 xr_gas_used row = er_gas_used r \<and> xr_error row = er_error_text r \<and>
                 opt_json (xr_log row) = er_log_text r \<and> opt_json (xr_info row) = er_info_text r \<and>
                 opt_json (xr_data row) = er_data_base64 r \<and> py_eq (xr_events row) (er_events r) \<and>
                 py_eq (xr_raw row) (er_raw_result r))
           (FinalizedDataConflict ''Conflicting execution result at height '')) (ph_execution_results ph)"

text \<open>\<open>WHERE signing_address = %s\<close> with the address as it came: NULL matches no row.\<close>

definition by_address :: "pg \<Rightarrow> (string \<Rightarrow> 'v option) \<Rightarrow> json \<Rightarrow> 'v option res" where
  "by_address p find_row address = bindE (bind_text p address) (\<lambda>a. Inr (Option.bind a find_row))"

definition key_type_param :: "validator_info \<Rightarrow> json" where
  "key_type_param v = py_or (vi_pub_key_type v) (JStr ''unknown'')"

definition key_value_param :: "validator_info \<Rightarrow> json" where
  "key_value_param v = py_or (vi_pub_key_value v) (JStr [])"

definition voting_power_param :: "validator_info \<Rightarrow> int" where
  "voting_power_param v = (case vi_voting_power v of None \<Rightarrow> 0 | Some n \<Rightarrow> n)"

definition verify_validator_conflicts :: "pg \<Rightarrow> db \<Rightarrow> parsed_height \<Rightarrow> unit res" where
  "verify_validator_conflicts p d ph = checkE (\<lambda>v.
     bindE (by_address p (map_of (validators d)) (vi_address v)) (\<lambda>found.
     case found of
       None \<Rightarrow> Inr ()
     | Some row \<Rightarrow> guardE (JStr (vr_key_type row) = key_type_param v \<and> JStr (vr_key_value row) = key_value_param v)
                     (FinalizedDataConflict ''Conflicting validator identity for ''))) (ph_validators ph)"

definition verify_member_conflicts :: "pg \<Rightarrow> db \<Rightarrow> parsed_height \<Rightarrow> unit res" where
  "verify_member_conflicts p d ph = checkE (\<lambda>(index, v).
     bindE (by_address p (\<lambda>a. map_of (members d) (ph_height ph, a)) (vi_address v)) (\<lambda>found.
     case found of
       None \<Rightarrow> Inr ()
     | Some row \<Rightarrow> guardE ((mr_voting_power row, mr_priority row, mr_index row) =
                             (voting_power_param v, vi_proposer_priority v, index))
                     (FinalizedDataConflict ''Conflicting validator-set member at height ''))) (enum0 (ph_validators ph))"

definition same_vote :: "sig_row \<Rightarrow> vote_record \<Rightarrow> bool" where
  "same_vote row s =
     (sg_status row = sr_vote_status s \<and> sg_signed row = sr_signed s \<and> sg_hash_base64 row = sr_hash_base64 s \<and>
      sg_hash_hex row = sr_hash_hex s \<and> sg_parts_total row = sr_parts_total s \<and>
      sg_parts_hash_base64 row = sr_parts_hash_base64 s \<and> sg_parts_hash_hex row = sr_parts_hash_hex s \<and>
      sg_is_zero row = sr_is_zero s \<and> sg_matches_commit row = sr_matches_commit s \<and> sg_signature row = sr_signature s)"

definition verify_signature_conflicts :: "pg \<Rightarrow> db \<Rightarrow> parsed_height \<Rightarrow> unit res" where
  "verify_signature_conflicts p d ph = checkE (\<lambda>s.
     bindE (by_address p (\<lambda>a. map_of (signatures d) (ph_height ph, a)) (sr_signing_address s)) (\<lambda>found.
     case found of
       None \<Rightarrow> Inr ()
     | Some row \<Rightarrow> guardE (same_vote row s) (FinalizedDataConflict ''Conflicting validator signature at height '')))
     (ph_signatures ph)"

definition verify_finalized_conflicts :: "pg \<Rightarrow> db \<Rightarrow> parsed_height \<Rightarrow> unit res" where
  "verify_finalized_conflicts p d ph =
     bindE (verify_block_conflict d ph) (\<lambda>existing_height.
     bindE (verify_child_key_sets d ph existing_height) (\<lambda>_.
     bindE (verify_transaction_conflicts d ph) (\<lambda>_.
     bindE (verify_execution_result_conflicts d ph) (\<lambda>_.
     bindE (verify_validator_conflicts p d ph) (\<lambda>_.
     bindE (verify_member_conflicts p d ph) (\<lambda>_.
     verify_signature_conflicts p d ph))))))"

section \<open>Block and transactions\<close>

text \<open>The proposed row: the parameters bound, the row constraints checked (before any key conflict is looked at).\<close>

definition bound_block :: "pg \<Rightarrow> parsed_height \<Rightarrow> block_row res" where
  "bound_block p ph =
     (let block = ph_block ph in
      bindE (text_nn p ''block_hash_base64'' (JStr (pb_hash_base64 block))) (\<lambda>hash_base64.
      bindE (text_nn p ''block_hash_hex'' (JStr (pb_hash_hex block))) (\<lambda>hash_hex.
      bindE (bindE (bind_time p (pb_time block)) (not_null ''time_utc'')) (\<lambda>time.
      bindE (bind_text p (pb_proposer_address block)) (\<lambda>proposer.
      bindE (json_param p (JObj (ph_raw_block ph))) (\<lambda>raw.
      let row = \<lparr>br_hash_base64 = hash_base64, br_hash_hex = hash_hex, br_time = time, br_proposer = proposer,
                 br_tx_count = pb_tx_count block, br_raw = raw\<rparr> in
      bindE (check_block (ph_height ph) row) (\<lambda>_. Inr row)))))))"

definition upsert_block :: "pg \<Rightarrow> parsed_height \<Rightarrow> db \<Rightarrow> db res" where
  "upsert_block p ph d =
     bindE (bound_block p ph) (\<lambda>row.
     case map_of (blocks d) (ph_height ph) of
       Some old \<Rightarrow> Inr d
     | None \<Rightarrow>
         bindE (unique_key ''blocks_block_hash_base64_unique'' br_hash_base64 row (blocks d)) (\<lambda>_.
         bindE (unique_key ''blocks_block_hash_hex_unique'' br_hash_hex row (blocks d)) (\<lambda>_.
         Inr (d\<lparr>blocks := AList.update (ph_height ph) row (blocks d)\<rparr>))))"

definition summary_param :: "parsed_tx \<Rightarrow> tx_summary" where
  "summary_param t = normalize_summary (summary_json (tx_payload_summary t))
     (if tx_decode_status t = ''invalid_base64'' then ''invalid'' else ''unparsed'')"

definition insert_participant :: "int \<Rightarrow> participant \<Rightarrow> participant list \<Rightarrow> participant list res" where
  "insert_participant height pt rows =
     bindE (check_participant height pt) (\<lambda>_. Inr (if pt \<in> set rows then rows else rows @ [pt]))"

definition bound_tx :: "pg \<Rightarrow> parsed_tx \<Rightarrow> tx_row res" where
  "bound_tx p t =
     bindE (text_nn p ''raw_base64'' (JStr (tx_raw_base64 t))) (\<lambda>raw_base64.
     bindE (json_param p (summary_json (summary_param t))) (\<lambda>summary.
     let row = \<lparr>tr_raw_base64 = raw_base64, tr_raw_length = tx_raw_base64_length t, tr_bytes = tx_decoded_bytes t,
                tr_byte_length = tx_decoded_byte_length t, tr_status = tx_decode_status t, tr_hash = tx_hash_hex t,
                tr_summary = summary\<rparr> in
     bindE (check_tx row) (\<lambda>_. Inr row)))"

definition upsert_transaction :: "pg \<Rightarrow> int \<Rightarrow> parsed_tx \<Rightarrow> db \<Rightarrow> db res" where
  "upsert_transaction p height t d =
     bindE (bound_tx p t) (\<lambda>row.
     bindE (constraint ''transactions_block_height_fkey'' (map_of (blocks d) height \<noteq> None)) (\<lambda>_.
     bindE (foldE (insert_participant height) (extract_transaction_participants (summary_json (summary_param t))) []) (\<lambda>rows.
     Inr (d\<lparr>transactions := upsert (height, tx_index t) row (\<lambda>old. old\<lparr>tr_summary := tr_summary row\<rparr>) (transactions d),
            participants := AList.update (height, tx_index t) rows (participants d)\<rparr>))))"

definition bound_result :: "pg \<Rightarrow> int option \<Rightarrow> execution_result \<Rightarrow> result_row res" where
  "bound_result p endpoint_id r =
     bindE (text_opt p (er_error_text r)) (\<lambda>error_text.
     bindE (bind_text p (er_log_text r)) (\<lambda>log_text.
     bindE (bind_text p (er_info_text r)) (\<lambda>info_text.
     bindE (bind_text p (er_data_base64 r)) (\<lambda>data_base64.
     bindE (json_param p (er_events r)) (\<lambda>events.
     bindE (json_param p (er_raw_result r)) (\<lambda>raw.
     let row = \<lparr>xr_status = er_execution_status r, xr_gas_wanted = er_gas_wanted r, xr_gas_used = er_gas_used r,
                xr_error = error_text, xr_log = log_text, xr_info = info_text, xr_data = data_base64,
                xr_events = events, xr_raw = raw, xr_endpoint = endpoint_id\<rparr> in
     bindE (check_result row) (\<lambda>_. Inr row)))))))"

definition upsert_result :: "pg \<Rightarrow> int \<Rightarrow> int option \<Rightarrow> execution_result \<Rightarrow> db \<Rightarrow> db res" where
  "upsert_result p height endpoint_id r d =
     bindE (bound_result p endpoint_id r) (\<lambda>row.
     case map_of (results d) (height, er_tx_index r) of
       Some old \<Rightarrow> Inr d
     | None \<Rightarrow>
         bindE (constraint ''transaction_execution_results_block_height_tx_index_fkey''
                  (map_of (transactions d) (height, er_tx_index r) \<noteq> None)) (\<lambda>_.
         bindE (constraint ''transaction_execution_results_source_rpc_endpoint_id_fkey''
                  (opt_check (\<lambda>i. i \<in> ep_id ` set (endpoints d)) endpoint_id)) (\<lambda>_.
         Inr (d\<lparr>results := AList.update (height, er_tx_index r) row (results d)\<rparr>))))"

definition upsert_transactions :: "pg \<Rightarrow> parsed_height \<Rightarrow> int option \<Rightarrow> db \<Rightarrow> db res" where
  "upsert_transactions p ph endpoint_id d =
     bindE (foldE (upsert_transaction p (ph_height ph)) (ph_transactions ph) d)
       (foldE (upsert_result p (ph_height ph) endpoint_id) (ph_execution_results ph))"

section \<open>Realm calls and catalog\<close>

definition insert_realm_call ::
  "db \<Rightarrow> string \<Rightarrow> int \<Rightarrow> nat \<times> realm_call \<Rightarrow> (nat \<times> nat, realm_call) table \<Rightarrow> (nat \<times> nat, realm_call) table res" where
  "insert_realm_call d chain_id height = (\<lambda>(index, call) rows.
     let position = (index, rc_message_index call) in
     bindE (guardE (position \<notin> fst ` set rows) (DatabaseError ''Duplicate Realm call position in finalized height'')) (\<lambda>_.
     bindE (check_call chain_id height call) (\<lambda>_.
     bindE (constraint ''realm_call_index_block_height_tx_index_fkey'' (map_of (transactions d) (height, index) \<noteq> None)) (\<lambda>_.
     Inr (rows @ [(position, call)])))))"

definition height_calls :: "parsed_height \<Rightarrow> (nat \<times> realm_call) list" where
  "height_calls ph = concat (map (\<lambda>t. map (\<lambda>c. (tx_index t, c))
     (extract_realm_calls (summary_json (summary_param t)))) (ph_transactions ph))"

text \<open>
  The locators of the height are deleted and inserted again; the positions inserted so far are
  those of the rows, so the duplicate test is the one of the local set \<open>positions\<close> (and of the
  primary key).
\<close>

definition replace_realm_calls_for_height :: "parsed_height \<Rightarrow> string \<Rightarrow> db \<Rightarrow> db res" where
  "replace_realm_calls_for_height ph chain_id d =
     bindE (foldE (insert_realm_call d chain_id (ph_height ph)) (height_calls ph) []) (\<lambda>rows.
     Inr (d\<lparr>call_index := AList.update (chain_id, ph_height ph) rows (call_index d)\<rparr>))"

text \<open>SQL row comparison \<open>(a, b) < (c, d)\<close> with NULLs: not true when a component that decides is NULL.\<close>

definition pos_less :: "int option \<Rightarrow> nat option \<Rightarrow> int option \<Rightarrow> nat option \<Rightarrow> bool" where
  "pos_less h i h' i' = (case (h, i, h', i') of
     (Some a, Some b, Some c, Some d) \<Rightarrow> a < c \<or> (a = c \<and> b < d) | _ \<Rightarrow> False)"

definition least_opt :: "int option \<Rightarrow> int option \<Rightarrow> int option" where
  "least_opt a b = (case (a, b) of (Some x, Some y) \<Rightarrow> Some (min x y) | (None, y) \<Rightarrow> y | (x, None) \<Rightarrow> x)"

definition counts_now :: "catalog_row \<Rightarrow> catalog_row \<Rightarrow> bool" where
  "counts_now new old = (case cr_last_counted new of
     None \<Rightarrow> False | Some h \<Rightarrow> (case cr_last_counted old of None \<Rightarrow> 0 | Some l \<Rightarrow> l) < h)"

definition deploy_earlier :: "catalog_row \<Rightarrow> catalog_row \<Rightarrow> bool" where
  "deploy_earlier new old = (cr_deploy_height old = None \<or>
     pos_less (cr_deploy_height new) (cr_deploy_tx_index new) (cr_deploy_height old) (cr_deploy_tx_index old))"

definition activity_later :: "catalog_row \<Rightarrow> catalog_row \<Rightarrow> bool" where
  "activity_later new old = (cr_last_height new \<noteq> None \<and> (cr_last_height old = None \<or>
     pos_less (cr_last_height old) (cr_last_tx_index old) (cr_last_height new) (cr_last_tx_index new)))"

definition activity_not_before :: "catalog_row \<Rightarrow> catalog_row \<Rightarrow> bool" where
  "activity_not_before new old = (case (cr_last_height new, cr_last_height old) of
     (None, _) \<Rightarrow> False | (Some n, None) \<Rightarrow> True | (Some n, Some l) \<Rightarrow> l \<le> n)"

text \<open>The \<open>DO UPDATE SET\<close> of \<open>upsert_transaction_catalog_aggregates\<close>: \<open>new\<close> is EXCLUDED.\<close>

definition merge_catalog :: "catalog_row \<Rightarrow> catalog_row \<Rightarrow> catalog_row" where
  "merge_catalog new old =
     old\<lparr>cr_path_kind := cr_path_kind new, cr_seen_via_tx := True,
         cr_first_seen := least_opt (cr_first_seen old) (cr_first_seen new),
         cr_deployer := (if deploy_earlier new old then cr_deployer new else cr_deployer old),
         cr_deploy_height := (if deploy_earlier new old then cr_deploy_height new else cr_deploy_height old),
         cr_deploy_tx_index := (if deploy_earlier new old then cr_deploy_tx_index new else cr_deploy_tx_index old),
         cr_last_height := (if activity_later new old then cr_last_height new else cr_last_height old),
         cr_last_tx_index := (if activity_later new old then cr_last_tx_index new else cr_last_tx_index old),
         cr_last_at := (if activity_not_before new old then cr_last_at new else cr_last_at old),
         cr_calls := cr_calls old + (if counts_now new old then cr_calls new else 0),
         cr_successful := cr_successful old + (if counts_now new old then cr_successful new else 0),
         cr_failed := cr_failed old + (if counts_now new old then cr_failed new else 0),
         cr_unknown := cr_unknown old + (if counts_now new old then cr_unknown new else 0),
         cr_last_counted := (if counts_now new old then cr_last_counted new else cr_last_counted old)\<rparr>"

definition aggregate_row :: "int \<Rightarrow> string option \<Rightarrow> path_aggregate \<Rightarrow> catalog_row" where
  "aggregate_row height block_time a =
     \<lparr>cr_path_kind = pa_kind a, cr_seen_via_rpc = False, cr_seen_via_tx = True, cr_rpc_visible = False,
      cr_deployer = pa_deployer_address a,
      cr_deploy_height = map_option (\<lambda>_. height) (pa_deploy_tx_index a), cr_deploy_tx_index = pa_deploy_tx_index a,
      cr_first_seen = Some height, cr_last_height = (if pa_call_count a = 0 then None else Some height),
      cr_last_tx_index = pa_last_activity_tx_index a, cr_last_at = (if pa_call_count a = 0 then None else block_time),
      cr_calls = pa_call_count a, cr_successful = pa_successful_call_count a, cr_failed = pa_failed_call_count a,
      cr_unknown = pa_unknown_result_call_count a,
      cr_last_counted = (if pa_call_count a = 0 then None else Some height)\<rparr>"

definition upsert_catalog_aggregate :: "pg \<Rightarrow> string \<Rightarrow> int \<Rightarrow> json \<Rightarrow> path_aggregate \<Rightarrow> db \<Rightarrow> db res" where
  "upsert_catalog_aggregate p chain_id height block_time a d =
     bindE (if pa_call_count a = 0 then Inr None else bind_time p block_time) (\<lambda>time.
     let new = aggregate_row height time a in
     bindE (check_catalog (pa_path a) new) (\<lambda>_.
     let row = (case map_of (catalog d) (chain_id, pa_path a) of None \<Rightarrow> new | Some old \<Rightarrow> merge_catalog new old) in
     bindE (check_catalog (pa_path a) row) (\<lambda>_.
     Inr (d\<lparr>catalog := AList.update (chain_id, pa_path a) row (catalog d)\<rparr>))))"

definition upsert_transaction_catalog_aggregates ::
  "pg \<Rightarrow> string \<Rightarrow> int \<Rightarrow> json \<Rightarrow> path_aggregate list \<Rightarrow> db \<Rightarrow> db res" where
  "upsert_transaction_catalog_aggregates p chain_id height block_time aggregates d =
     bindE (guardE (1 \<le> height) (ValueError ''height must be positive'')) (\<lambda>_.
     foldE (upsert_catalog_aggregate p chain_id height block_time) aggregates d)"

text \<open>\<open>statuses.get(index)\<close>: a later result of the same index replaces an earlier one.\<close>

definition result_status :: "parsed_height \<Rightarrow> nat \<Rightarrow> string option" where
  "result_status ph index = map_of (rev (map (\<lambda>r. (er_tx_index r, er_execution_status r)) (ph_execution_results ph))) index"

definition height_summaries :: "parsed_height \<Rightarrow> (nat \<times> json \<times> string option) list" where
  "height_summaries ph =
     map (\<lambda>t. (tx_index t, summary_json (summary_param t), result_status ph (tx_index t))) (ph_transactions ph)"

definition upsert_realm_catalog :: "pg \<Rightarrow> parsed_height \<Rightarrow> string \<Rightarrow> db \<Rightarrow> db res" where
  "upsert_realm_catalog p ph chain_id d =
     upsert_transaction_catalog_aggregates p chain_id (ph_height ph) (pb_time (ph_block ph))
       (aggregate_block (height_summaries ph)) d"

section \<open>Coverage\<close>

definition require_chain_height :: "string \<Rightarrow> int \<Rightarrow> unit res" where
  "require_chain_height chain_id height =
     bindE (guardE (py_strip chain_id \<noteq> []) (ValueError ''chain_id must be a non-empty string'')) (\<lambda>_.
     guardE (1 \<le> height) (ValueError ''height must be a positive integer''))"

text \<open>A result is the previous and new end of the range and whether it moved.\<close>

type_synonym coverage_result = "int option \<times> int option \<times> bool"

definition advance_realm_activity_coverage :: "string \<Rightarrow> int \<Rightarrow> db \<Rightarrow> (coverage_result \<times> db) res" where
  "advance_realm_activity_coverage chain_id height d =
     bindE (require_chain_height chain_id height) (\<lambda>_.
     case map_of (catalog_state d) chain_id of
       None \<Rightarrow> Inr ((None, None, False), d)
     | Some (None, None) \<Rightarrow> Inr ((None, None, False), d)
     | Some (Some from_height, Some previous) \<Rightarrow>
         if height \<le> previous then Inr ((Some previous, Some previous, False), d)
         else bindE (guardE (height = previous + 1) (RealmActivityCoverageError ''Realm activity coverage for chain '')) (\<lambda>_.
              bindE (in_range (int8 height)) (\<lambda>_.
              bindE (constraint ''realm_catalog_state_activity_range_check'' (0 < from_height \<and> from_height \<le> height)) (\<lambda>_.
              Inr ((Some previous, Some height, True),
                   d\<lparr>catalog_state := AList.update chain_id (Some from_height, Some height) (catalog_state d)\<rparr>))))
     | Some _ \<Rightarrow> Inl (RealmActivityCoverageError ''Incompatible Realm activity coverage state for chain ''))"

definition advance_realm_call_coverage :: "string \<Rightarrow> int \<Rightarrow> bool \<Rightarrow> db \<Rightarrow> (coverage_result \<times> db) res" where
  "advance_realm_call_coverage chain_id height initialize_if_missing d =
     bindE (require_chain_height chain_id height) (\<lambda>_.
     case map_of (call_state d) chain_id of
       None \<Rightarrow>
         if initialize_if_missing
         then bindE (check_call_state chain_id (height, height)) (\<lambda>_.
              Inr ((None, Some height, True), d\<lparr>call_state := AList.update chain_id (height, height) (call_state d)\<rparr>))
         else Inr ((None, None, False), d)
     | Some (from_height, previous) \<Rightarrow>
         if height \<le> previous then Inr ((Some previous, Some previous, False), d)
         else bindE (guardE (height = previous + 1) (RealmCallCoverageError ''Realm call coverage for chain '')) (\<lambda>_.
              bindE (check_call_state chain_id (from_height, height)) (\<lambda>_.
              Inr ((Some previous, Some height, True),
                   d\<lparr>call_state := AList.update chain_id (from_height, height) (call_state d)\<rparr>))))"

section \<open>Validators and votes\<close>

definition int_json :: "int option \<Rightarrow> json" where
  "int_json v = (case v of None \<Rightarrow> JNull | Some i \<Rightarrow> JInt i)"

definition validator_json :: "validator_info \<Rightarrow> json" where
  "validator_json v = JObj [(''address'', vi_address v), (''voting_power'', int_json (vi_voting_power v)),
     (''proposer_priority'', int_json (vi_proposer_priority v)), (''pub_key_type'', vi_pub_key_type v),
     (''pub_key_display_type'', opt_json (vi_pub_key_display_type v)), (''pub_key_value'', vi_pub_key_value v)]"

text \<open>The row of the validator after the upsert: the proposed one, or the old one with the seen range widened.\<close>

definition next_validator_row :: "int \<Rightarrow> validator_row \<Rightarrow> (string, validator_row) table \<Rightarrow> string \<Rightarrow> validator_row res" where
  "next_validator_row height new t address =
     (case map_of t address of
        None \<Rightarrow> bindE (unique_key ''validators_public_key_unique'' (\<lambda>r. (vr_key_type r, vr_key_value r)) new t) (\<lambda>_. Inr new)
      | Some old \<Rightarrow>
          (let row = old\<lparr>vr_first_seen := min (vr_first_seen old) height, vr_last_seen := max (vr_last_seen old) height\<rparr>
           in bindE (check_validator row) (\<lambda>_. Inr row)))"

definition bound_validator :: "pg \<Rightarrow> int \<Rightarrow> validator_info \<Rightarrow> (string \<times> validator_row) res" where
  "bound_validator p height v =
     bindE (text_nn p ''signing_address'' (vi_address v)) (\<lambda>address.
     bindE (text_nn p ''public_key_type'' (key_type_param v)) (\<lambda>key_type.
     bindE (text_nn p ''public_key_value'' (key_value_param v)) (\<lambda>key_value.
     let row = \<lparr>vr_key_type = key_type, vr_key_value = key_value, vr_first_seen = height, vr_last_seen = height\<rparr> in
     bindE (check_validator row) (\<lambda>_. Inr (address, row)))))"

definition bound_member :: "pg \<Rightarrow> nat \<Rightarrow> validator_info \<Rightarrow> member_row res" where
  "bound_member p index v =
     bindE (json_param p (validator_json v)) (\<lambda>raw.
     let row = \<lparr>mr_voting_power = voting_power_param v, mr_priority = vi_proposer_priority v, mr_index = index, mr_raw = raw\<rparr> in
     bindE (check_member row) (\<lambda>_. Inr row))"

definition upsert_validator_member :: "pg \<Rightarrow> int \<Rightarrow> nat \<times> validator_info \<Rightarrow> db \<Rightarrow> db res" where
  "upsert_validator_member p height = (\<lambda>(index, v) d.
     bindE (bound_validator p height v) (\<lambda>(address, new).
     bindE (next_validator_row height new (validators d) address) (\<lambda>row.
     bindE (bound_member p index v) (\<lambda>member.
     Inr (d\<lparr>validators := AList.update address row (validators d),
            members := upsert (height, address) member (\<lambda>old. old) (members d)\<rparr>)))))"

definition upsert_validators_and_members :: "pg \<Rightarrow> parsed_height \<Rightarrow> db \<Rightarrow> db res" where
  "upsert_validators_and_members p ph d =
     foldE (upsert_validator_member p (ph_height ph)) (enum0 (ph_validators ph)) d"

definition bound_signature :: "pg \<Rightarrow> vote_record \<Rightarrow> (string \<times> sig_row) res" where
  "bound_signature p s =
     bindE (text_nn p ''signing_address'' (sr_signing_address s)) (\<lambda>address.
     bindE (text_opt p (sr_hash_base64 s)) (\<lambda>hash_base64.
     bindE (text_opt p (sr_hash_hex s)) (\<lambda>hash_hex.
     bindE (text_opt p (sr_parts_hash_base64 s)) (\<lambda>parts_hash_base64.
     bindE (text_opt p (sr_parts_hash_hex s)) (\<lambda>parts_hash_hex.
     bindE (text_opt p (sr_signature s)) (\<lambda>signature.
     bindE (json_param p (sr_raw_precommit s)) (\<lambda>raw.
     let row = \<lparr>sg_status = sr_vote_status s, sg_signed = sr_signed s, sg_hash_base64 = hash_base64,
                sg_hash_hex = hash_hex, sg_parts_total = sr_parts_total s, sg_parts_hash_base64 = parts_hash_base64,
                sg_parts_hash_hex = parts_hash_hex, sg_is_zero = sr_is_zero s,
                sg_matches_commit = sr_matches_commit s, sg_signature = signature, sg_raw = raw\<rparr> in
     bindE (check_signature row) (\<lambda>_. Inr (address, row)))))))))"

definition upsert_signature :: "pg \<Rightarrow> int \<Rightarrow> vote_record \<Rightarrow> db \<Rightarrow> db res" where
  "upsert_signature p height s d =
     bindE (bound_signature p s) (\<lambda>(address, row).
     case map_of (signatures d) (height, address) of
       Some old \<Rightarrow> Inr d
     | None \<Rightarrow>
         bindE (constraint ''validator_signatures_height_signing_address_fkey'' (map_of (members d) (height, address) \<noteq> None)) (\<lambda>_.
         Inr (d\<lparr>signatures := AList.update (height, address) row (signatures d)\<rparr>)))"

definition upsert_signatures :: "pg \<Rightarrow> parsed_height \<Rightarrow> db \<Rightarrow> db res" where
  "upsert_signatures p ph d = foldE (upsert_signature p (ph_height ph)) (ph_signatures ph) d"

section \<open>One height\<close>

definition write_height_cursor :: "pg \<Rightarrow> parsed_height \<Rightarrow> string \<Rightarrow> int \<Rightarrow> int option \<Rightarrow> db \<Rightarrow> db res" where
  "write_height_cursor p ph chain_id finalized_tip endpoint_id d =
     bindE (get_checkpoint_cursor d chain_id) (\<lambda>checkpoint.
     bindE (verify_checkpoint_sequence (ph_height ph) checkpoint) (\<lambda>_.
     bindE (verify_finalized_conflicts p d ph) (\<lambda>_.
     bindE (upsert_block p ph d) (\<lambda>d1.
     bindE (upsert_transactions p ph endpoint_id d1) (\<lambda>d2.
     bindE (replace_realm_calls_for_height ph chain_id d2) (\<lambda>d3.
     bindE (upsert_realm_catalog p ph chain_id d3) (\<lambda>d4.
     bindE (advance_realm_call_coverage chain_id (ph_height ph) (checkpoint = None) d4) (\<lambda>(_, d5).
     bindE (advance_realm_activity_coverage chain_id (ph_height ph) d5) (\<lambda>(_, d6).
     bindE (upsert_validators_and_members p ph d6) (\<lambda>d7.
     bindE (upsert_signatures p ph d7) (\<lambda>d8.
     advance_checkpoint d8 (ph_height ph) checkpoint chain_id finalized_tip endpoint_id)))))))))))"

text \<open>A transaction: commit on success, roll back on an exception.\<close>

definition in_transaction :: "(db \<Rightarrow> db res) \<Rightarrow> db \<Rightarrow> unit res \<times> db" where
  "in_transaction f d = (case f d of Inl e \<Rightarrow> (Inl e, d) | Inr d' \<Rightarrow> (Inr (), d'))"

end
