(* ===== verification/Db_Frames.thy ===== *)
theory Db_Frames
  imports Db_Write
begin

text \<open>
  What each step of \<open>write_height_cursor\<close> writes: a step leaves the database unchanged except for its
  own tables, stated by erasing these on both sides. The frame lemmas carry the properties
  of the whole write.
\<close>

lemma foldE_proj:
  assumes "foldE f xs d = Inr d'" and "\<And>x d d'. f x d = Inr d' \<Longrightarrow> g d' = g d"
  shows "g d' = g d"
  by (rule foldE_invariant [OF assms(1), where P = "\<lambda>t. g t = g d"]) (auto dest: assms(2))

lemma upsert_block_frame: "upsert_block p ph d = Inr d' \<Longrightarrow> d'\<lparr>blocks := []\<rparr> = d\<lparr>blocks := []\<rparr>"
  by (auto simp: upsert_block_def Let_def res_simps split: option.splits)

lemma upsert_transaction_frame:
  "upsert_transaction p h t d = Inr d' \<Longrightarrow>
   d'\<lparr>transactions := [], participants := []\<rparr> = d\<lparr>transactions := [], participants := []\<rparr>"
  by (auto simp: upsert_transaction_def Let_def res_simps)

lemma upsert_result_frame: "upsert_result p h e r d = Inr d' \<Longrightarrow> d'\<lparr>results := []\<rparr> = d\<lparr>results := []\<rparr>"
  by (auto simp: upsert_result_def Let_def res_simps split: option.splits)

lemma upsert_transactions_frame:
  assumes "upsert_transactions p ph e d = Inr d'"
  shows "d'\<lparr>transactions := [], participants := [], results := []\<rparr> =
         d\<lparr>transactions := [], participants := [], results := []\<rparr>"
proof -
  obtain d1 where t: "foldE (upsert_transaction p (ph_height ph)) (ph_transactions ph) d = Inr d1"
    and r: "foldE (upsert_result p (ph_height ph) e) (ph_execution_results ph) d1 = Inr d'"
    using assms by (auto simp: upsert_transactions_def res_simps)
  have "d1\<lparr>transactions := [], participants := []\<rparr> = d\<lparr>transactions := [], participants := []\<rparr>"
    by (rule foldE_proj [OF t]) (rule upsert_transaction_frame)
  from arg_cong [OF this, of "\<lambda>x. x\<lparr>transactions := [], participants := [], results := []\<rparr>"]
  have "d1\<lparr>transactions := [], participants := [], results := []\<rparr> = d\<lparr>transactions := [], participants := [], results := []\<rparr>"
    by simp
  moreover have "d'\<lparr>results := []\<rparr> = d1\<lparr>results := []\<rparr>"
    by (rule foldE_proj [OF r]) (rule upsert_result_frame)
  from arg_cong [OF this, of "\<lambda>x. x\<lparr>transactions := [], participants := [], results := []\<rparr>"]
  have "d'\<lparr>transactions := [], participants := [], results := []\<rparr> = d1\<lparr>transactions := [], participants := [], results := []\<rparr>"
    by simp
  ultimately show ?thesis by simp
qed

lemma replace_calls_frame:
  "replace_realm_calls_for_height ph c d = Inr d' \<Longrightarrow> d'\<lparr>call_index := []\<rparr> = d\<lparr>call_index := []\<rparr>"
  by (auto simp: replace_realm_calls_for_height_def res_simps)

lemma upsert_catalog_aggregate_frame:
  "upsert_catalog_aggregate p c h tm a d = Inr d' \<Longrightarrow> d'\<lparr>catalog := []\<rparr> = d\<lparr>catalog := []\<rparr>"
  by (auto simp: upsert_catalog_aggregate_def res_simps Let_def)

lemma upsert_realm_catalog_frame:
  assumes "upsert_realm_catalog p ph c d = Inr d'"
  shows "d'\<lparr>catalog := []\<rparr> = d\<lparr>catalog := []\<rparr>"
proof -
  have "foldE (upsert_catalog_aggregate p c (ph_height ph) (pb_time (ph_block ph))) (aggregate_block (height_summaries ph)) d = Inr d'"
    using assms by (auto simp: upsert_realm_catalog_def upsert_transaction_catalog_aggregates_def res_simps)
  then show ?thesis by (rule foldE_proj) (rule upsert_catalog_aggregate_frame)
qed

lemma call_coverage_frame:
  "advance_realm_call_coverage c h i d = Inr (r, d') \<Longrightarrow> d'\<lparr>call_state := []\<rparr> = d\<lparr>call_state := []\<rparr>"
  by (auto simp: advance_realm_call_coverage_def res_simps split: option.splits if_splits)

lemma activity_coverage_frame:
  "advance_realm_activity_coverage c h d = Inr (r, d') \<Longrightarrow> d'\<lparr>catalog_state := []\<rparr> = d\<lparr>catalog_state := []\<rparr>"
  by (auto simp: advance_realm_activity_coverage_def res_simps split: option.splits if_splits)

lemma upsert_validator_member_frame:
  "upsert_validator_member p h iv d = Inr d' \<Longrightarrow>
   d'\<lparr>validators := [], members := []\<rparr> = d\<lparr>validators := [], members := []\<rparr>"
  by (auto simp: upsert_validator_member_def res_simps split: prod.splits)

lemma upsert_validators_frame:
  assumes "upsert_validators_and_members p ph d = Inr d'"
  shows "d'\<lparr>validators := [], members := []\<rparr> = d\<lparr>validators := [], members := []\<rparr>"
  using assms unfolding upsert_validators_and_members_def
  by (rule foldE_proj) (rule upsert_validator_member_frame)

lemma upsert_signature_frame:
  "upsert_signature p h s d = Inr d' \<Longrightarrow> d'\<lparr>signatures := []\<rparr> = d\<lparr>signatures := []\<rparr>"
  by (auto simp: upsert_signature_def res_simps split: option.splits prod.splits)

lemma upsert_signatures_frame:
  assumes "upsert_signatures p ph d = Inr d'"
  shows "d'\<lparr>signatures := []\<rparr> = d\<lparr>signatures := []\<rparr>"
  using assms unfolding upsert_signatures_def
  by (rule foldE_proj) (rule upsert_signature_frame)

lemma advance_checkpoint_frame:
  "advance_checkpoint d h cp c tip e = Inr d' \<Longrightarrow> d'\<lparr>indexer_state := None\<rparr> = d\<lparr>indexer_state := None\<rparr>"
  by (auto simp: advance_checkpoint_def res_simps Let_def split: if_splits option.splits)

text \<open>The frames as equations, table by table.\<close>

lemma upsert_block_fields:
  "upsert_block p ph d = Inr d' \<Longrightarrow>
   transactions d' = transactions d \<and> participants d' = participants d \<and>
   results d' = results d \<and> validators d' = validators d \<and> members d' = members d \<and>
   signatures d' = signatures d \<and> endpoints d' = endpoints d \<and>
   endpoint_checks d' = endpoint_checks d \<and> next_endpoint d' = next_endpoint d \<and>
   indexer_state d' = indexer_state d \<and> catalog d' = catalog d \<and>
   catalog_state d' = catalog_state d \<and> call_index d' = call_index d \<and> call_state d' = call_state d"
  by (drule upsert_block_frame) (cases d; cases d'; simp)

lemma upsert_transactions_fields:
  "upsert_transactions p ph e d = Inr d' \<Longrightarrow>
   blocks d' = blocks d \<and> validators d' = validators d \<and> members d' = members d \<and>
   signatures d' = signatures d \<and> endpoints d' = endpoints d \<and>
   endpoint_checks d' = endpoint_checks d \<and> next_endpoint d' = next_endpoint d \<and>
   indexer_state d' = indexer_state d \<and> catalog d' = catalog d \<and>
   catalog_state d' = catalog_state d \<and> call_index d' = call_index d \<and> call_state d' = call_state d"
  by (drule upsert_transactions_frame) (cases d; cases d'; simp)

lemma replace_calls_fields:
  "replace_realm_calls_for_height ph c d = Inr d' \<Longrightarrow>
   blocks d' = blocks d \<and> transactions d' = transactions d \<and>
   participants d' = participants d \<and> results d' = results d \<and> validators d' = validators d \<and>
   members d' = members d \<and> signatures d' = signatures d \<and> endpoints d' = endpoints d \<and>
   endpoint_checks d' = endpoint_checks d \<and> next_endpoint d' = next_endpoint d \<and>
   indexer_state d' = indexer_state d \<and> catalog d' = catalog d \<and>
   catalog_state d' = catalog_state d \<and> call_state d' = call_state d"
  by (drule replace_calls_frame) (cases d; cases d'; simp)

lemma upsert_realm_catalog_fields:
  "upsert_realm_catalog p ph c d = Inr d' \<Longrightarrow>
   blocks d' = blocks d \<and> transactions d' = transactions d \<and>
   participants d' = participants d \<and> results d' = results d \<and> validators d' = validators d \<and>
   members d' = members d \<and> signatures d' = signatures d \<and> endpoints d' = endpoints d \<and>
   endpoint_checks d' = endpoint_checks d \<and> next_endpoint d' = next_endpoint d \<and>
   indexer_state d' = indexer_state d \<and> catalog_state d' = catalog_state d \<and>
   call_index d' = call_index d \<and> call_state d' = call_state d"
  by (drule upsert_realm_catalog_frame) (cases d; cases d'; simp)

lemma call_coverage_fields:
  "advance_realm_call_coverage c h i d = Inr (r, d') \<Longrightarrow>
   blocks d' = blocks d \<and> transactions d' = transactions d \<and>
   participants d' = participants d \<and> results d' = results d \<and> validators d' = validators d \<and>
   members d' = members d \<and> signatures d' = signatures d \<and> endpoints d' = endpoints d \<and>
   endpoint_checks d' = endpoint_checks d \<and> next_endpoint d' = next_endpoint d \<and>
   indexer_state d' = indexer_state d \<and> catalog d' = catalog d \<and>
   catalog_state d' = catalog_state d \<and> call_index d' = call_index d"
  by (drule call_coverage_frame) (cases d; cases d'; simp)

lemma activity_coverage_fields:
  "advance_realm_activity_coverage c h d = Inr (r, d') \<Longrightarrow>
   blocks d' = blocks d \<and> transactions d' = transactions d \<and>
   participants d' = participants d \<and> results d' = results d \<and> validators d' = validators d \<and>
   members d' = members d \<and> signatures d' = signatures d \<and> endpoints d' = endpoints d \<and>
   endpoint_checks d' = endpoint_checks d \<and> next_endpoint d' = next_endpoint d \<and>
   indexer_state d' = indexer_state d \<and> catalog d' = catalog d \<and>
   call_index d' = call_index d \<and> call_state d' = call_state d"
  by (drule activity_coverage_frame) (cases d; cases d'; simp)

lemma upsert_validators_fields:
  "upsert_validators_and_members p ph d = Inr d' \<Longrightarrow>
   blocks d' = blocks d \<and> transactions d' = transactions d \<and>
   participants d' = participants d \<and> results d' = results d \<and> signatures d' = signatures d \<and>
   endpoints d' = endpoints d \<and> endpoint_checks d' = endpoint_checks d \<and>
   next_endpoint d' = next_endpoint d \<and> indexer_state d' = indexer_state d \<and>
   catalog d' = catalog d \<and> catalog_state d' = catalog_state d \<and>
   call_index d' = call_index d \<and> call_state d' = call_state d"
  by (drule upsert_validators_frame) (cases d; cases d'; simp)

lemma upsert_signatures_fields:
  "upsert_signatures p ph d = Inr d' \<Longrightarrow>
   blocks d' = blocks d \<and> transactions d' = transactions d \<and>
   participants d' = participants d \<and> results d' = results d \<and> validators d' = validators d \<and>
   members d' = members d \<and> endpoints d' = endpoints d \<and>
   endpoint_checks d' = endpoint_checks d \<and> next_endpoint d' = next_endpoint d \<and>
   indexer_state d' = indexer_state d \<and> catalog d' = catalog d \<and>
   catalog_state d' = catalog_state d \<and> call_index d' = call_index d \<and> call_state d' = call_state d"
  by (drule upsert_signatures_frame) (cases d; cases d'; simp)

lemma advance_checkpoint_fields:
  "advance_checkpoint d h cp c tip e = Inr d' \<Longrightarrow>
   blocks d' = blocks d \<and> transactions d' = transactions d \<and>
   participants d' = participants d \<and> results d' = results d \<and> validators d' = validators d \<and>
   members d' = members d \<and> signatures d' = signatures d \<and> endpoints d' = endpoints d \<and>
   endpoint_checks d' = endpoint_checks d \<and> next_endpoint d' = next_endpoint d \<and>
   catalog d' = catalog d \<and> catalog_state d' = catalog_state d \<and>
   call_index d' = call_index d \<and> call_state d' = call_state d"
  by (drule advance_checkpoint_frame) (cases d; cases d'; simp)

text \<open>The run of a successful write, step by step.\<close>

lemma write_height_run:
  assumes "write_height_cursor p ph c tip e d = Inr d'"
  obtains cp d1 d2 d3 d4 d5 d6 d7 d8 r5 r6 where
    "get_checkpoint_cursor d c = Inr cp" "verify_checkpoint_sequence (ph_height ph) cp = Inr ()"
    "verify_finalized_conflicts p d ph = Inr ()" "upsert_block p ph d = Inr d1"
    "upsert_transactions p ph e d1 = Inr d2" "replace_realm_calls_for_height ph c d2 = Inr d3"
    "upsert_realm_catalog p ph c d3 = Inr d4"
    "advance_realm_call_coverage c (ph_height ph) (cp = None) d4 = Inr (r5, d5)"
    "advance_realm_activity_coverage c (ph_height ph) d5 = Inr (r6, d6)"
    "upsert_validators_and_members p ph d6 = Inr d7" "upsert_signatures p ph d7 = Inr d8"
    "advance_checkpoint d8 (ph_height ph) cp c tip e = Inr d'"
  using assms unfolding write_height_cursor_def
  by (auto simp: res_simps split: prod.splits intro: that)

end
