(* ===== verification/Db_Finalized.thy ===== *)
theory Db_Finalized
  imports Db_Frames Invariants
begin

text \<open>
  Finalized data is never rewritten, the checkpoint moves by one, and every stored row keeps the
  schema's constraints.
\<close>

section \<open>Finalized data\<close>

definition rows_kept :: "('k, 'v) table \<Rightarrow> ('k, 'v) table \<Rightarrow> bool" where
  "rows_kept t t' \<longleftrightarrow> (\<forall>k r. map_of t k = Some r \<longrightarrow> map_of t' k = Some r)"

text \<open>The columns a later write may change: a transaction's summary, a validator's seen range (which only widens).\<close>

definition txs_kept :: "(int \<times> nat, tx_row) table \<Rightarrow> (int \<times> nat, tx_row) table \<Rightarrow> bool" where
  "txs_kept t t' \<longleftrightarrow> (\<forall>k r. map_of t k = Some r \<longrightarrow> 
     (\<exists>r'. map_of t' k = Some r' \<and> r'\<lparr>tr_summary := JNull\<rparr> = r\<lparr>tr_summary := JNull\<rparr>))"

definition validators_kept :: "(string, validator_row) table \<Rightarrow> (string, validator_row) table \<Rightarrow> bool" where
  "validators_kept t t' \<longleftrightarrow> (\<forall>k r. map_of t k = Some r \<longrightarrow>
     (\<exists>r'. map_of t' k = Some r' \<and> vr_key_type r' = vr_key_type r \<and> vr_key_value r' = vr_key_value r \<and>
        vr_first_seen r' \<le> vr_first_seen r \<and> vr_last_seen r \<le> vr_last_seen r'))"

definition finalized_le :: "db \<Rightarrow> db \<Rightarrow> bool" where
  "finalized_le d d' \<longleftrightarrow>
     rows_kept (blocks d) (blocks d') \<and> txs_kept (transactions d) (transactions d') \<and> rows_kept (results d) (results d') \<and>
     validators_kept (validators d) (validators d') \<and> rows_kept (members d) (members d') \<and>
     rows_kept (signatures d) (signatures d')"

lemma rows_kept_refl [simp]: "rows_kept t t"
  by (simp add: rows_kept_def)

lemma txs_kept_refl [simp]: "txs_kept t t"
  by (simp add: txs_kept_def)

lemma validators_kept_refl [simp]: "validators_kept t t"
  by (simp add: validators_kept_def)

lemma rows_kept_trans: "rows_kept t u \<Longrightarrow> rows_kept u v \<Longrightarrow> rows_kept t v"
  by (simp add: rows_kept_def)

lemma txs_kept_trans: "txs_kept t u \<Longrightarrow> txs_kept u v \<Longrightarrow> txs_kept t v"
  unfolding txs_kept_def by metis

lemma validators_kept_trans: "validators_kept t u \<Longrightarrow> validators_kept u v \<Longrightarrow> validators_kept t v"
proof -
  assume t: "validators_kept t u" and u: "validators_kept u v"
  show "validators_kept t v" unfolding validators_kept_def
  proof (intro allI impI)
    fix k r
    assume "map_of t k = Some r"
    with t obtain q where q: "map_of u k = Some q" "vr_key_type q = vr_key_type r" "vr_key_value q = vr_key_value r"
      "vr_first_seen q \<le> vr_first_seen r" "vr_last_seen r \<le> vr_last_seen q" by (auto simp: validators_kept_def)
    with u obtain w where "map_of v k = Some w" "vr_key_type w = vr_key_type q" "vr_key_value w = vr_key_value q"
      "vr_first_seen w \<le> vr_first_seen q" "vr_last_seen q \<le> vr_last_seen w" unfolding validators_kept_def by metis
    with q show "\<exists>r'. map_of v k = Some r' \<and> vr_key_type r' = vr_key_type r \<and> vr_key_value r' = vr_key_value r \<and>
        vr_first_seen r' \<le> vr_first_seen r \<and> vr_last_seen r \<le> vr_last_seen r'" by fastforce
  qed
qed

interpretation finalized: store_order finalized_le
proof
  show "finalized_le s s" for s by (simp add: finalized_le_def)
  show "finalized_le s u" if "finalized_le s t" "finalized_le t u" for s t u
    using that rows_kept_trans [of "blocks s" "blocks t" "blocks u"] txs_kept_trans [of "transactions s" "transactions t" "transactions u"]
      rows_kept_trans [of "results s" "results t" "results u"] validators_kept_trans [of "validators s" "validators t" "validators u"]
      rows_kept_trans [of "members s" "members t" "members u"] rows_kept_trans [of "signatures s" "signatures t" "signatures u"]
    by (simp add: finalized_le_def)
qed

lemma rows_kept_insert: "map_of t k = None \<Longrightarrow> rows_kept t (AList.update k r t)"
  by (auto simp: rows_kept_def update_conv')

lemma rows_kept_upsert: "rows_kept t (upsert k r (\<lambda>old. old) t)"
  by (auto simp: rows_kept_def map_of_upsert)

lemma finalized_block: "upsert_block p ph d = Inr d' \<Longrightarrow> finalized_le d d'"
  by (auto simp: upsert_block_def Let_def res_simps finalized_le_def rows_kept_insert split: option.splits)

lemma finalized_transaction: "upsert_transaction p h t d = Inr d' \<Longrightarrow> finalized_le d d'"
  by (auto simp: upsert_transaction_def Let_def res_simps finalized_le_def txs_kept_def map_of_upsert)

lemma finalized_result: "upsert_result p h e r d = Inr d' \<Longrightarrow> finalized_le d d'"
  by (auto simp: upsert_result_def Let_def res_simps finalized_le_def rows_kept_insert split: option.splits)

lemma validators_kept_update:
  "(\<And>r. map_of t a = Some r \<Longrightarrow> vr_key_type row = vr_key_type r \<and> vr_key_value row = vr_key_value r \<and>
     vr_first_seen row \<le> vr_first_seen r \<and> vr_last_seen r \<le> vr_last_seen row) \<Longrightarrow>
   validators_kept t (AList.update a row t)"
  by (auto simp: validators_kept_def update_conv')

lemma next_validator_old:
  "next_validator_row h new t a = Inr row \<Longrightarrow> map_of t a = Some r \<longrightarrow>
   row = r\<lparr>vr_first_seen := min (vr_first_seen r) h, vr_last_seen := max (vr_last_seen r) h\<rparr>"
  by (auto simp: next_validator_row_def Let_def res_simps)

lemma finalized_validator:
  assumes "upsert_validator_member p h iv d = Inr d'"
  shows "finalized_le d d'"
proof -
  obtain i v where iv: "iv = (i, v)" by (cases iv)
  obtain address new row member where row: "next_validator_row h new (validators d) address = Inr row"
    and d': "d' = d\<lparr>validators := AList.update address row (validators d),
      members := upsert (h, address) member (\<lambda>old. old) (members d)\<rparr>"
    using assms by (auto simp: iv upsert_validator_member_def res_simps split: prod.splits)
  have "validators_kept (validators d) (AList.update address row (validators d))"
    by (rule validators_kept_update) (use next_validator_old [OF row] in simp)
  then show ?thesis by (simp add: d' finalized_le_def rows_kept_upsert)
qed

lemma finalized_signature: "upsert_signature p h s d = Inr d' \<Longrightarrow> finalized_le d d'"
  by (auto simp: upsert_signature_def res_simps finalized_le_def rows_kept_insert split: option.splits prod.splits)

text \<open>The steps that touch none of these tables.\<close>

definition finalized_part :: "db \<Rightarrow> (int, block_row) table \<times> (int \<times> nat, tx_row) table \<times> (int \<times> nat, result_row) table \<times>
    (string, validator_row) table \<times> (int \<times> string, member_row) table \<times> (int \<times> string, sig_row) table" where
  "finalized_part d = (blocks d, transactions d, results d, validators d, members d, signatures d)"

lemma finalized_part_le: "finalized_part d' = finalized_part d \<Longrightarrow> finalized_le d d'"
  by (simp add: finalized_part_def finalized_le_def)

lemma finalized_part_frames:
  "replace_realm_calls_for_height ph c d = Inr d' \<Longrightarrow> finalized_part d' = finalized_part d"
  "upsert_realm_catalog p ph c d = Inr d' \<Longrightarrow> finalized_part d' = finalized_part d"
  "advance_realm_call_coverage c h i d = Inr (r, d') \<Longrightarrow> finalized_part d' = finalized_part d"
  "advance_realm_activity_coverage c h d = Inr (r, d') \<Longrightarrow> finalized_part d' = finalized_part d"
  "advance_checkpoint d h cp c tip e = Inr d' \<Longrightarrow> finalized_part d' = finalized_part d"
  by (simp_all add: finalized_part_def)
    (drule replace_calls_frame upsert_realm_catalog_frame call_coverage_frame activity_coverage_frame
      advance_checkpoint_frame, drule arg_cong [where f = finalized_part], simp add: finalized_part_def)+

lemma write_height_finalized:
  assumes "write_height_cursor p ph c tip e d = Inr d'"
  shows "finalized_le d d'"
  using assms
proof (rule write_height_run)
  fix cp d1 d2 d3 d4 d5 d6 d7 d8 r5 r6
  assume b: "upsert_block p ph d = Inr d1" and t: "upsert_transactions p ph e d1 = Inr d2"
    and rest: "replace_realm_calls_for_height ph c d2 = Inr d3" "upsert_realm_catalog p ph c d3 = Inr d4"
      "advance_realm_call_coverage c (ph_height ph) (cp = None) d4 = Inr (r5, d5)"
      "advance_realm_activity_coverage c (ph_height ph) d5 = Inr (r6, d6)"
    and v: "upsert_validators_and_members p ph d6 = Inr d7" and s: "upsert_signatures p ph d7 = Inr d8"
    and a: "advance_checkpoint d8 (ph_height ph) cp c tip e = Inr d'"
  from t obtain dt where "foldE (upsert_transaction p (ph_height ph)) (ph_transactions ph) d1 = Inr dt"
    "foldE (upsert_result p (ph_height ph) e) (ph_execution_results ph) dt = Inr d2"
    by (auto simp: upsert_transactions_def res_simps)
  then have "finalized_le d1 dt" "finalized_le dt d2"
    by (auto elim!: finalized.foldE_le intro: finalized_transaction finalized_result)
  moreover have "finalized_le d d1" by (rule finalized_block [OF b])
  moreover have "finalized_le d2 d6"
    using finalized_part_frames(1) [OF rest(1)] finalized_part_frames(2) [OF rest(2)]
      finalized_part_frames(3) [OF rest(3)] finalized_part_frames(4) [OF rest(4)]
    by (intro finalized_part_le) simp
  moreover have "finalized_le d6 d7"
    using v unfolding upsert_validators_and_members_def by (rule finalized.foldE_le) (rule finalized_validator)
  moreover have "finalized_le d7 d8"
    using s unfolding upsert_signatures_def by (rule finalized.foldE_le) (rule finalized_signature)
  moreover have "finalized_le d8 d'" using finalized_part_frames(5) [OF a] by (rule finalized_part_le)
  ultimately show ?thesis by (meson finalized.le_trans)
qed

text \<open>
  What a write may do to the stored transactions: all their columns stay, except that the summary of a transaction of
  the written height may become the bound form of the normalised summary of the transaction written at its index.
\<close>

definition summaries_rederived :: "pg \<Rightarrow> parsed_height \<Rightarrow> db \<Rightarrow> db \<Rightarrow> bool" where
  "summaries_rederived p ph d d' \<longleftrightarrow>
     (\<forall>h i r. map_of (transactions d) (h, i) = Some r \<longrightarrow>
        (\<exists>s. map_of (transactions d') (h, i) = Some (r\<lparr>tr_summary := s\<rparr>) \<and>
           (s = tr_summary r \<or> h = ph_height ph \<and>
              (\<exists>t \<in> set (ph_transactions ph). tx_index t = i \<and> json_param p (summary_json (summary_param t)) = Inr s))))"

lemma same_summary: "Q (tr_summary r) \<Longrightarrow> \<exists>s. r = r\<lparr>tr_summary := s\<rparr> \<and> Q s"
  by (rule exI [of _ "tr_summary r"]) simp

interpretation summaries: store_order "summaries_rederived p ph" for p ph
proof
  show "summaries_rederived p ph s s" for s by (auto simp: summaries_rederived_def intro: same_summary)
  show "summaries_rederived p ph s u" if "summaries_rederived p ph s t" "summaries_rederived p ph t u" for s t u
    unfolding summaries_rederived_def
  proof (intro allI impI)
    fix h i r
    assume r: "map_of (transactions s) (h, i) = Some r"
    with that(1) obtain v where v: "map_of (transactions t) (h, i) = Some (r\<lparr>tr_summary := v\<rparr>)"
      "v = tr_summary r \<or> h = ph_height ph \<and>
        (\<exists>t \<in> set (ph_transactions ph). tx_index t = i \<and> json_param p (summary_json (summary_param t)) = Inr v)"
      unfolding summaries_rederived_def by blast
    with that(2) obtain w where "map_of (transactions u) (h, i) = Some (r\<lparr>tr_summary := v\<rparr>\<lparr>tr_summary := w\<rparr>)"
      "w = v \<or> h = ph_height ph \<and>
        (\<exists>t \<in> set (ph_transactions ph). tx_index t = i \<and> json_param p (summary_json (summary_param t)) = Inr w)"
      unfolding summaries_rederived_def by fastforce
    with v(2) show "\<exists>w. map_of (transactions u) (h, i) = Some (r\<lparr>tr_summary := w\<rparr>) \<and>
      (w = tr_summary r \<or> h = ph_height ph \<and>
        (\<exists>t \<in> set (ph_transactions ph). tx_index t = i \<and> json_param p (summary_json (summary_param t)) = Inr w))"
      by auto
  qed
qed

lemma summaries_cong: "transactions d' = transactions d \<Longrightarrow> summaries_rederived p ph d d'"
  using summaries.le_refl [of p ph d] by (simp add: summaries_rederived_def)

lemma summaries_transaction:
  assumes "t \<in> set (ph_transactions ph)" and "upsert_transaction p (ph_height ph) t d = Inr d'"
  shows "summaries_rederived p ph d d'"
proof -
  obtain row where row: "bound_tx p t = Inr row" and d': "transactions d' =
      upsert (ph_height ph, tx_index t) row (\<lambda>old. old\<lparr>tr_summary := tr_summary row\<rparr>) (transactions d)"
    using assms(2) by (auto simp: upsert_transaction_def res_simps)
  from row have "json_param p (summary_json (summary_param t)) = Inr (tr_summary row)"
    by (auto simp: bound_tx_def res_simps Let_def)
  with assms(1) show ?thesis by (auto simp: summaries_rederived_def d' map_of_upsert intro: same_summary)
qed

lemma write_height_summaries:
  assumes "write_height_cursor p ph c tip e d = Inr d'"
  shows "summaries_rederived p ph d d'"
  using assms
proof (rule write_height_run)
  fix cp d1 d2 d3 d4 d5 d6 d7 d8 r5 r6
  assume b: "upsert_block p ph d = Inr d1" and t: "upsert_transactions p ph e d1 = Inr d2"
    and rest: "replace_realm_calls_for_height ph c d2 = Inr d3" "upsert_realm_catalog p ph c d3 = Inr d4"
      "advance_realm_call_coverage c (ph_height ph) (cp = None) d4 = Inr (r5, d5)"
      "advance_realm_activity_coverage c (ph_height ph) d5 = Inr (r6, d6)"
    and v: "upsert_validators_and_members p ph d6 = Inr d7" and s: "upsert_signatures p ph d7 = Inr d8"
    and a: "advance_checkpoint d8 (ph_height ph) cp c tip e = Inr d'"
  from t obtain dt where txs: "foldE (upsert_transaction p (ph_height ph)) (ph_transactions ph) d1 = Inr dt"
    and results: "foldE (upsert_result p (ph_height ph) e) (ph_execution_results ph) dt = Inr d2"
    by (auto simp: upsert_transactions_def res_simps)
  have "summaries_rederived p ph d1 dt" by (rule summaries.foldE_le [OF txs]) (rule summaries_transaction)
  moreover have "transactions d2 = transactions dt"
    by (rule foldE_invariant [OF results, where P = "\<lambda>d. transactions d = transactions dt"])
      (auto simp: upsert_result_def Let_def res_simps split: option.splits)
  moreover have "transactions d1 = transactions d" using upsert_block_frame [OF b, THEN arg_cong, of transactions] by simp
  moreover have "transactions d6 = transactions d2"
    using finalized_part_frames(1) [OF rest(1)] finalized_part_frames(2) [OF rest(2)]
      finalized_part_frames(3) [OF rest(3)] finalized_part_frames(4) [OF rest(4)] by (simp add: finalized_part_def)
  moreover have "transactions d8 = transactions d6"
    using upsert_validators_frame [OF v, THEN arg_cong, of transactions] upsert_signatures_frame [OF s, THEN arg_cong, of transactions] by simp
  moreover have "transactions d' = transactions d8" using finalized_part_frames(5) [OF a] by (simp add: finalized_part_def)
  ultimately show ?thesis by (simp add: summaries_rederived_def)
qed

section \<open>Checkpoint\<close>

definition control_part :: "db \<Rightarrow> state_row option \<times> endpoint_row list" where
  "control_part d = (indexer_state d, endpoints d)"

lemma write_control:
  assumes "write_height_cursor p ph c tip e d = Inr d'"
  obtains cp d8 where "get_checkpoint_cursor d c = Inr cp" "verify_checkpoint_sequence (ph_height ph) cp = Inr ()"
    "indexer_state d8 = indexer_state d" "advance_checkpoint d8 (ph_height ph) cp c tip e = Inr d'"
  using assms
proof (rule write_height_run)
  fix cp d1 d2 d3 d4 d5 d6 d7 d8 r5 r6
  assume cp: "get_checkpoint_cursor d c = Inr cp" "verify_checkpoint_sequence (ph_height ph) cp = Inr ()"
    and s: "upsert_block p ph d = Inr d1" "upsert_transactions p ph e d1 = Inr d2"
      "replace_realm_calls_for_height ph c d2 = Inr d3" "upsert_realm_catalog p ph c d3 = Inr d4"
      "advance_realm_call_coverage c (ph_height ph) (cp = None) d4 = Inr (r5, d5)"
      "advance_realm_activity_coverage c (ph_height ph) d5 = Inr (r6, d6)"
      "upsert_validators_and_members p ph d6 = Inr d7" "upsert_signatures p ph d7 = Inr d8"
    and a: "advance_checkpoint d8 (ph_height ph) cp c tip e = Inr d'"
  have "indexer_state d8 = indexer_state d"
    using s(1) [THEN upsert_block_frame, THEN arg_cong, of indexer_state]
      s(2) [THEN upsert_transactions_frame, THEN arg_cong, of indexer_state]
      s(3) [THEN replace_calls_frame, THEN arg_cong, of indexer_state]
      s(4) [THEN upsert_realm_catalog_frame, THEN arg_cong, of indexer_state]
      s(5) [THEN call_coverage_frame, THEN arg_cong, of indexer_state]
      s(6) [THEN activity_coverage_frame, THEN arg_cong, of indexer_state]
      s(7) [THEN upsert_validators_frame, THEN arg_cong, of indexer_state]
      s(8) [THEN upsert_signatures_frame, THEN arg_cong, of indexer_state] by simp
  with cp a show thesis by (intro that)
qed

lemma advance_checkpoint_value:
  assumes "advance_checkpoint d8 h cp c tip e = Inr d'" and "get_checkpoint_cursor d c = Inr cp"
    and "indexer_state d8 = indexer_state d"
  shows "get_checkpoint_cursor d' c = Inr (Some (case cp of None \<Rightarrow> h | Some k \<Rightarrow> max k h))"
proof (cases "indexer_state d")
  case None
  then have "cp = None" using assms(2) by (simp add: get_checkpoint_cursor_def)
  with assms None show ?thesis by (auto simp: advance_checkpoint_def get_checkpoint_cursor_def Let_def res_simps)
next
  case (Some row)
  then have row: "is_chain row = c" "cp = Some (is_last_finalized row)"
    using assms(2) by (auto simp: get_checkpoint_cursor_def res_simps)
  with assms Some show ?thesis
    by (auto simp: advance_checkpoint_def get_checkpoint_cursor_def Let_def res_simps max_def split: if_splits)
qed

section \<open>Properties\<close>

text \<open>C1: a height is written only if it does not skip past the checkpoint, and a successful write leaves the
  checkpoint at the greater of its old value and the height: it never moves back, moves forward by exactly one, and
  starts at the first height written.\<close>

theorem checkpoint_advances:
  assumes "write_height_cursor p ph c tip e d = Inr d'"
  shows "\<exists>cp. get_checkpoint_cursor d c = Inr cp \<and>
    (case cp of None \<Rightarrow> True | Some k \<Rightarrow> ph_height ph \<le> k + 1) \<and>
    get_checkpoint_cursor d' c = Inr (Some (case cp of None \<Rightarrow> ph_height ph | Some k \<Rightarrow> max k (ph_height ph)))"
  using assms
proof (rule write_control)
  fix cp d8
  assume "get_checkpoint_cursor d c = Inr cp" "verify_checkpoint_sequence (ph_height ph) cp = Inr ()"
    "indexer_state d8 = indexer_state d" "advance_checkpoint d8 (ph_height ph) cp c tip e = Inr d'"
  then show ?thesis using advance_checkpoint_value
    by (auto simp: verify_checkpoint_sequence_def res_simps split: option.splits)
qed

text \<open>C2: a successful write keeps every finalized row: blocks, execution results, validator-set members and votes
  are unchanged, validators keep their key and their seen range only widens, and transactions are unchanged but for one
  derived column: the summary of a transaction of the very height that is written again may be derived anew, from the
  transaction that is written at its index. The transactions of every other height keep their summary too.\<close>

theorem finalized_rows_kept:
  assumes "write_height_cursor p ph c tip e d = Inr d'"
  shows "finalized_le d d' \<and>
    (\<forall>h i r. map_of (transactions d) (h, i) = Some r \<and> h \<noteq> ph_height ph \<longrightarrow> map_of (transactions d') (h, i) = Some r) \<and>
    (\<forall>i r. map_of (transactions d) (ph_height ph, i) = Some r \<longrightarrow>
       (\<exists>s. map_of (transactions d') (ph_height ph, i) = Some (r\<lparr>tr_summary := s\<rparr>) \<and>
          (s = tr_summary r \<or>
           (\<exists>t \<in> set (ph_transactions ph). tx_index t = i \<and> json_param p (summary_json (summary_param t)) = Inr s))))"
proof -
  have kept: "summaries_rederived p ph d d'" by (rule write_height_summaries [OF assms])
  have "map_of (transactions d') (h, i) = Some r" if "map_of (transactions d) (h, i) = Some r" "h \<noteq> ph_height ph" for h i r
    using kept [unfolded summaries_rederived_def, rule_format, OF that(1)] that(2) by auto
  moreover have "\<exists>s. map_of (transactions d') (ph_height ph, i) = Some (r\<lparr>tr_summary := s\<rparr>) \<and> (s = tr_summary r \<or>
      (\<exists>t \<in> set (ph_transactions ph). tx_index t = i \<and> json_param p (summary_json (summary_param t)) = Inr s))"
    if "map_of (transactions d) (ph_height ph, i) = Some r" for i r
    using kept [unfolded summaries_rederived_def, rule_format, OF that] by simp
  ultimately show ?thesis using write_height_finalized [OF assms] by blast
qed

text \<open>C3: data that contradicts a finalized block is refused before anything is written: if the stored block of the
  height has another hash, the write raises the finalized-data conflict and the database stays as it was (a chain
  mismatch or a gap in the heights is reported first).\<close>

theorem conflicting_block_refused:
  assumes "map_of (blocks d) (ph_height ph) = Some row" and "br_hash_hex row \<noteq> pb_hash_hex (ph_block ph)"
    and "get_checkpoint_cursor d c = Inr cp" and "verify_checkpoint_sequence (ph_height ph) cp = Inr ()"
  shows "in_transaction (write_height_cursor p ph c tip e) d =
    (Inl (FinalizedDataConflict ''Conflicting finalized block hash at height ''), d)"
  using assms
  by (simp add: in_transaction_def write_height_cursor_def verify_finalized_conflicts_def verify_block_conflict_def)

section \<open>A height written to an empty database\<close>

definition sample_pg :: pg where
  "sample_pg = \<lparr>bind_text = (\<lambda>v. case v of JNull \<Rightarrow> Inr None | JStr s \<Rightarrow> Inr (Some s) | _ \<Rightarrow> Inl ProgrammingError),
     bind_jsonb = (\<lambda>v. if py_eq v v then Inr v else Inl DataError),
     bind_time = (\<lambda>v. case v of JNull \<Rightarrow> Inr None | JStr s \<Rightarrow> Inr (Some s) | _ \<Rightarrow> Inl DataError),
     bind_bool = (\<lambda>v. case v of JNull \<Rightarrow> Inr None | JBool b \<Rightarrow> Inr (Some b) | _ \<Rightarrow> Inl ProgrammingError)\<rparr>"

definition sample_height :: parsed_height where
  "sample_height = \<lparr>ph_height = 5,
     ph_block = \<lparr>pb_hash_base64 = ''aGFzaA=='', pb_hash_hex = replicate 64 (CHR ''A''), pb_height = Some 5,
       pb_time = JStr ''2026-01-01T00:00:00Z'', pb_proposer_address = JNull, pb_tx_count = 0, pb_transactions = []\<rparr>,
     ph_transactions = [], ph_execution_results = [],
     ph_validators = [\<lparr>vi_address = JStr ''val1'', vi_voting_power = Some 10, vi_proposer_priority = Some 0,
       vi_pub_key_type = JStr ''ed25519'', vi_pub_key_display_type = Some ''Ed25519'', vi_pub_key_value = JStr ''key''\<rparr>],
     ph_signatures = [signature_row 5 (JStr ''val1'') ''absent'' False None False False None JNull],
     ph_raw_block = []\<rparr>"

definition sample_block_row :: block_row where
  "sample_block_row = \<lparr>br_hash_base64 = ''aGFzaA=='', br_hash_hex = replicate 64 (CHR ''A''), br_time = ''2026-01-01T00:00:00Z'',
     br_proposer = None, br_tx_count = 0, br_raw = JObj []\<rparr>"

definition sample_written :: db where
  "sample_written = empty_db
    \<lparr>blocks := [(5, sample_block_row)],
     validators := [(''val1'', \<lparr>vr_key_type = ''ed25519'', vr_key_value = ''key'', vr_first_seen = 5, vr_last_seen = 5\<rparr>)],
     members := [((5, ''val1''), \<lparr>mr_voting_power = 10, mr_priority = Some 0, mr_index = 0,
       mr_raw = validator_json (hd (ph_validators sample_height))\<rparr>)],
     signatures := [((5, ''val1''), \<lparr>sg_status = ''absent'', sg_signed = False, sg_hash_base64 = None, sg_hash_hex = None,
       sg_parts_total = None, sg_parts_hash_base64 = None, sg_parts_hash_hex = None, sg_is_zero = False,
       sg_matches_commit = False, sg_signature = None, sg_raw = JNull\<rparr>)],
     indexer_state := Some \<lparr>is_chain = ''c'', is_last_finalized = 5, is_finalized_tip = 6, is_endpoint = None\<rparr>,
     call_index := [((''c'', 5), [])],
     call_state := [(''c'', (5, 5))]\<rparr>"

lemma sample_checks:
  "verify_finalized_conflicts sample_pg empty_db sample_height = Inr ()"
  by (simp add: verify_finalized_conflicts_def verify_block_conflict_def sample_height_def verify_child_key_sets_def
     verify_transaction_conflicts_def verify_execution_result_conflicts_def verify_validator_conflicts_def
     verify_member_conflicts_def verify_signature_conflicts_def empty_db_def by_address_def sample_pg_def)

lemma sample_binds:
  "bound_block sample_pg sample_height = Inr sample_block_row"
  by (simp add: bound_block_def text_nn_def not_null_def sample_pg_def sample_height_def json_param_def check_block_def in_range_def
     constraint_def int8_def int4_def py_upper_def upper_char_def sample_block_row_def)

lemmas sample_ops = write_height_cursor_def get_checkpoint_cursor_def verify_checkpoint_sequence_def upsert_block_def sample_binds
  unique_key_def constraint_def upsert_transactions_def replace_realm_calls_for_height_def height_calls_def upsert_realm_catalog_def 
  upsert_transaction_catalog_aggregates_def height_summaries_def aggregate_block_def block_events_def
  advance_realm_call_coverage_def advance_realm_activity_coverage_def require_chain_height_def check_call_state_def in_range_def int8_def
  upsert_validators_and_members_def upsert_validator_member_def bound_validator_def text_nn_def not_null_def next_validator_row_def
  bound_member_def json_param_def check_validator_def check_member_def numeric78_def opt_check_def upsert_def
  upsert_signatures_def upsert_signature_def bound_signature_def text_opt_def check_signature_def
  advance_checkpoint_def check_state_def key_type_param_def key_value_param_def voting_power_param_def validator_json_def

lemma sample_chain_named: "py_strip ''c'' \<noteq> []"
  by code_simp

lemma sample_write: "write_height_cursor sample_pg sample_height ''c'' 6 None empty_db = Inr sample_written"
  unfolding write_height_cursor_def sample_checks
  apply (simp add: sample_ops)
  apply (simp add: sample_ops empty_db_def sample_height_def sample_pg_def sample_chain_named)
  apply (simp add: sample_written_def empty_db_def sample_height_def validator_json_def int_json_def opt_json_def)
  done

theorem checkpoint_advances_witness:
  "get_checkpoint_cursor empty_db ''c'' = Inr None \<and> get_checkpoint_cursor sample_written ''c'' = Inr (Some 5)"
  using checkpoint_advances [OF sample_write] by (simp add: empty_db_def get_checkpoint_cursor_def sample_height_def)

text \<open>Height 6 written over a database that holds height 5 with a transaction.\<close>

definition stored_height_row :: tx_row where
  "stored_height_row = \<lparr>tr_raw_base64 = ''AA=='', tr_raw_length = 4, tr_bytes = Some [0], tr_byte_length = Some 1,
     tr_status = ''decoded'', tr_hash = Some (replicate 64 (CHR ''A'')), tr_summary = JObj []\<rparr>"

definition stored_height :: db where
  "stored_height = sample_written\<lparr>transactions := [((5, 0), stored_height_row)]\<rparr>"

definition following_height :: parsed_height where
  "following_height = sample_height\<lparr>ph_height := 6, ph_block := (ph_block sample_height)\<lparr>pb_hash_base64 := ''bmV4dA=='',
     pb_hash_hex := replicate 64 (CHR ''B''), pb_height := Some 6\<rparr>,
     ph_signatures := [signature_row 6 (JStr ''val1'') ''absent'' False None False False None JNull]\<rparr>"

definition next_block_row :: block_row where
  "next_block_row = sample_block_row\<lparr>br_hash_base64 := ''bmV4dA=='', br_hash_hex := replicate 64 (CHR ''B'')\<rparr>"

lemma next_binds: "bound_block sample_pg following_height = Inr next_block_row"
  by (simp add: bound_block_def text_nn_def not_null_def sample_pg_def following_height_def sample_height_def json_param_def check_block_def
     in_range_def constraint_def int8_def int4_def py_upper_def upper_char_def sample_block_row_def next_block_row_def)

lemma next_checks: "verify_finalized_conflicts sample_pg stored_height following_height = Inr ()"
  by (simp add: verify_finalized_conflicts_def verify_block_conflict_def sample_height_def following_height_def verify_child_key_sets_def
     verify_transaction_conflicts_def verify_execution_result_conflicts_def verify_validator_conflicts_def
     verify_member_conflicts_def verify_signature_conflicts_def stored_height_def sample_written_def empty_db_def by_address_def sample_pg_def
     key_type_param_def key_value_param_def)

lemma next_write: "\<exists>d'. write_height_cursor sample_pg following_height ''c'' 7 None stored_height = Inr d'"
  unfolding write_height_cursor_def next_checks
  apply (simp add: sample_ops next_binds)
  apply (simp add: sample_ops stored_height_def sample_written_def empty_db_def following_height_def sample_height_def sample_pg_def sample_chain_named
    int_json_def opt_json_def sample_block_row_def next_block_row_def)
  done

theorem finalized_rows_kept_witness:
  "\<exists>d'. write_height_cursor sample_pg following_height ''c'' 7 None stored_height = Inr d' \<and>
     map_of (blocks d') 5 = Some sample_block_row \<and> map_of (transactions d') (5, 0) = Some stored_height_row"
proof -
  obtain d' where d': "write_height_cursor sample_pg following_height ''c'' 7 None stored_height = Inr d'" using next_write by blast
  from finalized_rows_kept [OF d'] d' show ?thesis
    by (auto simp: finalized_le_def rows_kept_def stored_height_def sample_written_def following_height_def)
qed

theorem conflicting_block_refused_witness:
  "in_transaction (write_height_cursor sample_pg (sample_height
       \<lparr>ph_block := (ph_block sample_height)\<lparr>pb_hash_hex := replicate 64 (CHR ''B'')\<rparr>\<rparr>) ''c'' 6 None) sample_written =
     (Inl (FinalizedDataConflict ''Conflicting finalized block hash at height ''), sample_written)"
  by (rule conflicting_block_refused [of _ _ sample_block_row _ "Some 5"])
    (simp_all add: sample_written_def sample_height_def sample_block_row_def get_checkpoint_cursor_def
      verify_checkpoint_sequence_def)
end
