(* ===== verification/Rpc.thy ===== *)
theory Rpc
  imports Inspect_Rpc "HOL-Library.Product_Lexorder"
begin

text \<open>
  \<open>indexer/rpc.py\<close>: probing the configured endpoints, ranking and selecting them, and
  proving that an endpoint continues the stored chain. A client object is identified by
  the URL it was built for; what an endpoint answers is an input (\<open>rpc_net\<close> for the
  height queries of one cycle, a reply and a measured duration per probed position).
\<close>

type_synonym rpc_net = "string \<Rightarrow> string \<Rightarrow> int \<Rightarrow> jobj res"

section \<open>Probe results\<close>

text \<open>
  \<open>oid\<close> stands for object identity (\<open>is\<close>): the position of the probe in the configured
  URL list. \<open>has_client\<close> says \<open>client is not None\<close>, \<open>client_open\<close> that it was not closed.
\<close>

record rpc_probe =
  oid :: nat
  url :: string
  healthy :: bool
  selected :: bool
  p_chain_id :: json
  latest_height :: "int option"
  observed_lag :: "int option"
  catching_up :: json
  error_message :: "string option"
  has_client :: bool
  client_open :: bool
  status_payload :: "jobj option"
  response_seconds :: "pyfloat option"

definition safe_probe_error :: "py_error \<Rightarrow> string" where
  "safe_probe_error e =
     (let message = (case e of RpcError m \<Rightarrow> m | RpcContinuityError m \<Rightarrow> m | _ \<Rightarrow> []) in
      if startswith message ''wrong chain ID'' then ''wrong chain ID''
      else if startswith message ''malformed status'' then ''malformed status''
      else if message = ''endpoint is catching up'' then ''endpoint is catching up''
      else ''rpc_error'')"

definition failed_probe :: "nat \<Rightarrow> string \<Rightarrow> rpc_probe" where
  "failed_probe i u =
     \<lparr>oid = i, url = u, healthy = False, selected = False, p_chain_id = JNull, latest_height = None,
      observed_lag = None, catching_up = JNull, error_message = Some ''rpc_error'', has_client = False,
      client_open = False, status_payload = None, response_seconds = None\<rparr>"

definition unhealthy_probe :: "nat \<Rightarrow> string \<Rightarrow> status option \<Rightarrow> py_error \<Rightarrow> pyfloat \<Rightarrow> rpc_probe" where
  "unhealthy_probe i u st e dur =
     \<lparr>oid = i, url = u, healthy = False, selected = False,
      p_chain_id = (case st of None \<Rightarrow> JNull | Some x \<Rightarrow> st_chain_id x),
      latest_height = (case st of None \<Rightarrow> None | Some x \<Rightarrow> st_latest_height x),
      observed_lag = None,
      catching_up = (case st of None \<Rightarrow> JNull | Some x \<Rightarrow> st_catching_up x),
      error_message = Some (safe_probe_error e), has_client = True, client_open = False,
      status_payload = None, response_seconds = Some dur\<rparr>"

text \<open>
  \<open>_probe_endpoint\<close>: an \<open>RpcError\<close> of the request, the parser or the health check is
  turned into an unhealthy probe (keeping the fields of the status when it was parsed); any
  other exception escapes.
\<close>

definition probe_endpoint :: "nat \<Rightarrow> string \<Rightarrow> string \<Rightarrow> jobj res \<Rightarrow> pyfloat \<Rightarrow> rpc_probe res" where
  "probe_endpoint i u expected reply dur =
     (if u = [] then Inl (RpcError ''RPC URL is required'')
      else case reply of
        Inl e \<Rightarrow> if is_RpcError e then Inr (unhealthy_probe i u None e dur) else Inl e
      | Inr payload \<Rightarrow>
          (case parse_status payload of
             Inl e \<Rightarrow> if is_RpcError e then Inr (unhealthy_probe i u None e dur) else Inl e
           | Inr st \<Rightarrow>
               (case validate_status_for_health st expected of
                  Inl e \<Rightarrow> if is_RpcError e then Inr (unhealthy_probe i u (Some st) e dur) else Inl e
                | Inr _ \<Rightarrow>
                    Inr \<lparr>oid = i, url = u, healthy = True, selected = False, p_chain_id = st_chain_id st,
                         latest_height = st_latest_height st, observed_lag = None,
                         catching_up = st_catching_up st, error_message = None, has_client = True,
                         client_open = True, status_payload = Some payload, response_seconds = Some dur\<rparr>)))"

section \<open>Lag, rank, selection\<close>

definition with_lag :: "int \<Rightarrow> int \<Rightarrow> rpc_probe \<Rightarrow> rpc_probe" where
  "with_lag highest max_lag p =
     (if \<not> healthy p then p
      else case latest_height p of
             None \<Rightarrow> p
           | Some h \<Rightarrow>
               (let lag = highest - h in
                if max_lag < lag
                then p\<lparr>healthy := False, observed_lag := Some lag, error_message := Some ''stale endpoint'',
                       client_open := False\<rparr>
                else p\<lparr>observed_lag := Some lag\<rparr>))"

text \<open>
  \<open>_probe_rank\<close>: the duration, infinite when it is missing, not finite or negative, then the
  position. An infinite duration is the leading 1.
\<close>

definition probe_rank :: "rpc_probe \<Rightarrow> nat \<Rightarrow> nat \<times> rat \<times> nat" where
  "probe_rank p i = (case response_seconds p of
      Some (Fin d) \<Rightarrow> if d < 0 then (1, 0, i) else (0, d, i)
    | _ \<Rightarrow> (1, 0, i))"

definition item_rank :: "nat \<times> rpc_probe \<Rightarrow> nat \<times> rat \<times> nat" where
  "item_rank ip = probe_rank (snd ip) (fst ip)"

definition within_lag :: "int \<Rightarrow> rpc_probe \<Rightarrow> bool" where
  "within_lag max_lag p = (healthy p \<and> (case observed_lag p of None \<Rightarrow> False | Some l \<Rightarrow> l \<le> max_lag))"

definition selected_probe_index :: "rpc_probe list \<Rightarrow> int \<Rightarrow> nat option" where
  "selected_probe_index probes max_lag =
     (let suitable = filter (\<lambda>ip. within_lag max_lag (snd ip)) (enum0 probes)
      in if suitable = [] then None else Some (fst (hd (sort_key item_rank suitable))))"

definition healthy_heights :: "rpc_probe list \<Rightarrow> int list" where
  "healthy_heights probes =
     List.map_filter (\<lambda>p. if healthy p then latest_height p else None) probes"

definition max_list :: "int list \<Rightarrow> int" where
  "max_list xs = fold max (tl xs) (hd xs)"

text \<open>One slot of the executor: whatever escapes \<open>_probe_endpoint\<close> is a generic failure.\<close>

definition raw_probe :: "(nat \<Rightarrow> jobj res) \<Rightarrow> (nat \<Rightarrow> pyfloat) \<Rightarrow> string \<Rightarrow> nat \<times> string \<Rightarrow> rpc_probe" where
  "raw_probe reply dur chain_id iu =
     (case probe_endpoint (fst iu) (snd iu) chain_id (reply (fst iu)) (dur (fst iu)) of
        Inr p \<Rightarrow> p | Inl _ \<Rightarrow> failed_probe (fst iu) (snd iu))"

definition probe_rpc_endpoints ::
  "(nat \<Rightarrow> jobj res) \<Rightarrow> (nat \<Rightarrow> pyfloat) \<Rightarrow> string list \<Rightarrow> string \<Rightarrow> int \<Rightarrow> rpc_probe list res" where
  "probe_rpc_endpoints reply dur urls chain_id max_lag =
     (if urls = [] then Inl (RpcError ''Set GNO_RPC_URLS to a comma-separated RPC list, or temporarily set legacy GNO_RPC_URL'')
      else let raw = map (raw_probe reply dur chain_id) (enum0 urls);
               heights = healthy_heights raw
           in if heights = [] then Inr raw
              else let lagged = map (with_lag (max_list heights) max_lag) raw;
                       sel = selected_probe_index lagged max_lag
                   in Inr (map (\<lambda>(i, p). p\<lparr>selected := (Some i = sel)\<rparr>) (enum0 lagged)))"

record selected_rpc =
  sel_url :: string
  sel_status :: jobj
  sel_latest_height :: int
  sel_finalized_tip :: int
  sel_probes :: "rpc_probe list"

definition selected_rpc_from_probes :: "rpc_probe list \<Rightarrow> selected_rpc res" where
  "selected_rpc_from_probes probes =
     (if healthy_heights probes = [] then Inl (RpcError ''All RPC endpoints are rejected or unavailable'')
      else case find selected probes of
             None \<Rightarrow> Inl (RpcError ''No suitable RPC endpoint is within RPC_MAX_HEIGHT_LAG='')
           | Some p \<Rightarrow>
               (case (has_client p, status_payload p, latest_height p) of
                  (True, Some st, Some h) \<Rightarrow>
                    Inr \<lparr>sel_url = url p, sel_status = st, sel_latest_height = h,
                         sel_finalized_tip = h - 1, sel_probes = probes\<rparr>
                | _ \<Rightarrow> Inl (RpcError ''Selected RPC probe is missing successful payload data'')))"

definition select_rpc ::
  "(nat \<Rightarrow> jobj res) \<Rightarrow> (nat \<Rightarrow> pyfloat) \<Rightarrow> string list \<Rightarrow> string \<Rightarrow> int \<Rightarrow> selected_rpc res" where
  "select_rpc reply dur urls chain_id max_lag =
     bindE (probe_rpc_endpoints reply dur urls chain_id max_lag) selected_rpc_from_probes"

definition is_suitable :: "rpc_probe \<Rightarrow> bool" where
  "is_suitable p =
     (healthy p \<and> has_client p \<and> status_payload p \<noteq> None \<and> latest_height p \<noteq> None \<and>
      (case observed_lag p of None \<Rightarrow> False | Some l \<Rightarrow> 0 \<le> l) \<and>
      error_message p \<noteq> Some ''stale endpoint'')"

definition suitable_rpc_probes :: "rpc_probe list \<Rightarrow> rpc_probe list" where
  "suitable_rpc_probes probes =
     map snd (sort_key item_rank (filter (\<lambda>ip. is_suitable (snd ip)) (enum0 probes)))"

definition suitable_rpc_candidates :: "rpc_probe list \<Rightarrow> selected_rpc list" where
  "suitable_rpc_candidates probes =
     map (\<lambda>p. \<lparr>sel_url = url p, sel_status = the (status_payload p), sel_latest_height = the (latest_height p),
               sel_finalized_tip = the (latest_height p) - 1, sel_probes = [p]\<rparr>) (suitable_rpc_probes probes)"

section \<open>Continuity with the stored chain\<close>

definition canonical_block_hash_hex :: "jobj \<Rightarrow> string res" where
  "canonical_block_hash_hex payload =
     (case bindE (jsub (JObj payload) ''result'') (\<lambda>r. bindE (jsub r ''block_meta'') (\<lambda>m.
           bindE (jsub m ''block_id'') (\<lambda>b. jsub b ''hash''))) of
        Inl _ \<Rightarrow> Inl (RpcContinuityError ''malformed_block_hash'')
      | Inr v \<Rightarrow>
          if \<not> is_str v \<or> v = JStr [] then Inl (RpcContinuityError ''missing_block_hash'')
          else (case decode_base64 v of
                  Inl _ \<Rightarrow> Inl (RpcContinuityError ''malformed_block_hash'')
                | Inr bs \<Rightarrow> if length bs \<noteq> 32 then Inl (RpcContinuityError ''malformed_block_hash'')
                            else Inr (hex_upper bs)))"

definition parent_block_hash_hex :: "jobj \<Rightarrow> string res" where
  "parent_block_hash_hex payload =
     (case bindE (jsub (JObj payload) ''result'') (\<lambda>r. bindE (jsub r ''block'') (\<lambda>b.
           bindE (jsub b ''header'') (\<lambda>h. bindE (as_dict h) (\<lambda>header.
           bindE (as_dict (py_or (py_or (oget header ''last_block_id'') (oget header ''last_block_id_hash''))
                             (oget header ''lastBlockID''))) (\<lambda>bid.
           Inr (py_or (oget bid ''hash'') (oget bid ''Hash'')))))))
      of Inl _ \<Rightarrow> Inl (RpcContinuityError ''missing_parent_hash'')
       | Inr v \<Rightarrow>
           if \<not> is_str v \<or> v = JStr [] then Inl (RpcContinuityError ''missing_parent_hash'')
           else (case decode_base64 v of
                   Inl _ \<Rightarrow> Inl (RpcContinuityError ''malformed_parent_hash'')
                 | Inr bs \<Rightarrow> if length bs \<noteq> 32 then Inl (RpcContinuityError ''malformed_parent_hash'')
                             else Inr (hex_upper bs)))"

definition verify_parent_continuity :: "jobj \<Rightarrow> string \<Rightarrow> string res" where
  "verify_parent_continuity payload expected =
     bindE (parent_block_hash_hex payload) (\<lambda>actual.
     bindE (guardE (actual = py_upper expected) (RpcContinuityError ''parent_hash_mismatch'')) (\<lambda>_.
     canonical_block_hash_hex payload))"

definition verify_checkpoint_anchor :: "rpc_net \<Rightarrow> string \<Rightarrow> int \<Rightarrow> string \<Rightarrow> unit res" where
  "verify_checkpoint_anchor net u height expected =
     bindE (guardE (length expected = 64) (RpcContinuityError ''malformed_checkpoint_hash'')) (\<lambda>_.
     bindE (guardE (fromhex_ok expected) (RpcContinuityError ''malformed_checkpoint_hash'')) (\<lambda>_.
     bindE (case bindE (net u ''block'' height) canonical_block_hash_hex of
              Inr actual \<Rightarrow> Inr actual
            | Inl (RpcContinuityError r) \<Rightarrow> Inl (RpcContinuityError r)
            | Inl (RpcError m) \<Rightarrow> Inl (RpcContinuityError ''checkpoint_unavailable'')
            | Inl e \<Rightarrow> Inl e) (\<lambda>actual.
     guardE (actual = py_upper expected) (RpcContinuityError ''checkpoint_hash_mismatch''))))"

text \<open>The four height queries run in parallel; the first failing one in this order is raised.\<close>

definition fetch_height :: "rpc_net \<Rightarrow> string \<Rightarrow> int \<Rightarrow> (jobj \<times> jobj \<times> jobj \<times> jobj) res" where
  "fetch_height net u height =
     bindE (net u ''block'' height) (\<lambda>b.
     bindE (net u ''block_results'' height) (\<lambda>r.
     bindE (net u ''commit'' height) (\<lambda>c.
     bindE (net u ''validators'' height) (\<lambda>v. Inr (b, r, c, v)))))"

section \<open>Selection facts\<close>

definition probe_ok :: "string \<Rightarrow> rpc_probe \<Rightarrow> bool" where
  "probe_ok chain_id p =
     (healthy p \<longrightarrow> has_client p \<and> client_open p \<and> status_payload p \<noteq> None \<and> latest_height p \<noteq> None \<and>
        p_chain_id p = JStr chain_id \<and> catching_up p = JBool False \<and> error_message p = None)"

lemma raw_probe_url [simp]: "url (raw_probe reply dur c iu) = snd iu"
  by (auto simp: raw_probe_def probe_endpoint_def failed_probe_def unhealthy_probe_def
      split: sum.splits if_splits)

lemma raw_probe_ok: "probe_ok c (raw_probe reply dur c iu)"
  by (auto simp: probe_ok_def raw_probe_def probe_endpoint_def failed_probe_def unhealthy_probe_def
      validate_status_for_health_def res_simps split: sum.splits if_splits)

lemma raw_probe_not_selected [simp]: "\<not> selected (raw_probe reply dur c iu)"
  by (auto simp: raw_probe_def probe_endpoint_def failed_probe_def unhealthy_probe_def
      split: sum.splits if_splits)

lemma with_lag_url [simp]: "url (with_lag h m p) = url p"
  by (auto simp: with_lag_def Let_def split: option.splits)

lemma with_lag_ok: "probe_ok c p \<Longrightarrow> probe_ok c (with_lag h m p)"
  by (auto simp: with_lag_def probe_ok_def Let_def split: option.splits if_splits)

lemma with_lag_within:
  "probe_ok c p \<Longrightarrow> within_lag m (with_lag h m p) \<longleftrightarrow> healthy (with_lag h m p)"
  by (auto simp: with_lag_def within_lag_def probe_ok_def Let_def split: option.splits if_splits)

lemma with_lag_bounds:
  "healthy (with_lag h m p) \<Longrightarrow> latest_height p = Some k \<Longrightarrow> healthy p \<and> observed_lag (with_lag h m p) = Some (h - k) \<and> h - k \<le> m"
  by (auto simp: with_lag_def Let_def split: option.splits if_splits)

lemma fold_max_ge: "(a :: int) \<le> fold max xs a"
  by (induction xs arbitrary: a) (auto intro: order_trans [OF max.cobounded2])

lemma max_list_ge: "x \<in> set xs \<Longrightarrow> x \<le> max_list xs"
proof -
  have step: "\<And>a. x \<in> set ys \<Longrightarrow> x \<le> fold max ys a" for ys
    by (induction ys) (auto intro: order_trans [OF max.cobounded1 fold_max_ge])
  show "x \<in> set xs \<Longrightarrow> x \<le> max_list xs"
    by (cases xs) (auto simp: max_list_def fold_max_ge step)
qed

lemma max_list_in: "xs \<noteq> [] \<Longrightarrow> max_list xs \<in> set xs"
proof -
  have step: "fold max ys a \<in> insert a (set ys)" for ys and a :: int
    by (induction ys arbitrary: a) (auto simp: max_def)
  assume "xs \<noteq> []"
  then show ?thesis using step [of "tl xs" "hd xs"] by (cases xs) (auto simp: max_list_def)
qed

lemma healthy_heights_in:
  "h \<in> set (healthy_heights ps) \<longleftrightarrow> (\<exists>p \<in> set ps. healthy p \<and> latest_height p = Some h)"
  by (induction ps) (auto simp: healthy_heights_def map_filter_simps split: option.splits)

lemma healthy_heights_empty:
  "\<forall>p \<in> set ps. probe_ok c p \<Longrightarrow> healthy_heights ps = [] \<longleftrightarrow> (\<forall>p \<in> set ps. \<not> healthy p)"
  by (induction ps) (auto simp: healthy_heights_def map_filter_simps probe_ok_def split: option.splits)

lemma selected_probe_index_Some:
  assumes "selected_probe_index ps m = Some i"
  shows "i < length ps" and "within_lag m (ps ! i)"
    and "\<And>j. j < length ps \<Longrightarrow> within_lag m (ps ! j) \<Longrightarrow> probe_rank (ps ! i) i \<le> probe_rank (ps ! j) j"
proof -
  define S where "S = filter (\<lambda>ip. within_lag m (snd ip)) (enum0 ps)"
  from assms have ne: "S \<noteq> []" and i: "i = fst (hd (sort_key item_rank S))"
    by (auto simp: selected_probe_index_def S_def [symmetric] Let_def split: if_splits)
  have mem: "hd (sort_key item_rank S) \<in> set S"
    by (metis hd_in_set length_0_conv length_sort ne set_sort)
  then obtain p where hd: "hd (sort_key item_rank S) = (i, p)" by (metis i prod.collapse)
  with mem have p: "i < length ps" "p = ps ! i" "within_lag m p"
    by (auto simp: S_def set_enum0)
  then show "i < length ps" "within_lag m (ps ! i)" by auto
  fix j assume "j < length ps" "within_lag m (ps ! j)"
  then have "(j, ps ! j) \<in> set S" by (auto simp: S_def set_enum0)
  from hd_sort_key_le [OF this, of item_rank] show "probe_rank (ps ! i) i \<le> probe_rank (ps ! j) j"
    using p hd by (simp add: item_rank_def)
qed

lemma selected_probe_index_None:
  "selected_probe_index ps m = None \<longleftrightarrow> (\<forall>p \<in> set ps. \<not> within_lag m p)"
proof -
  have "filter (\<lambda>ip. within_lag m (snd ip)) (enum0 ps) = [] \<longleftrightarrow> filter (within_lag m) ps = []"
    by (metis map_is_Nil_conv map_snd_filter_enum0)
  then show ?thesis by (simp add: selected_probe_index_def Let_def filter_empty_conv)
qed

lemma probe_rank_inj: "probe_rank p i = probe_rank q j \<Longrightarrow> i = j"
  by (auto simp: probe_rank_def split: option.splits pyfloat.splits if_splits)

text \<open>The selection depends on the lag test and the rank of each position only.\<close>

lemma selected_probe_index_cong:
  assumes len: "length ps = length qs"
    and eq: "\<And>j. j < length ps \<Longrightarrow> within_lag m (ps ! j) = within_lag m (qs ! j) \<and> probe_rank (ps ! j) j = probe_rank (qs ! j) j"
  shows "selected_probe_index ps m = selected_probe_index qs m"
proof (cases "selected_probe_index ps m")
  case None
  then have "\<forall>q \<in> set qs. \<not> within_lag m q"
    using len eq nth_mem [of _ ps] by (fastforce simp: selected_probe_index_None in_set_conv_nth [of _ qs])
  with None show ?thesis by (simp add: selected_probe_index_None [symmetric])
next
  case (Some i)
  note si = selected_probe_index_Some [OF Some]
  with eq have "within_lag m (qs ! i)" by blast
  with si(1) len obtain i' where i': "selected_probe_index qs m = Some i'"
    by (cases "selected_probe_index qs m") (auto simp: selected_probe_index_None)
  note si' = selected_probe_index_Some [OF i']
  have "probe_rank (ps ! i) i \<le> probe_rank (ps ! i') i'" and "probe_rank (qs ! i') i' \<le> probe_rank (qs ! i) i"
    using si si' len eq by auto
  with eq si(1) si'(1) len have "probe_rank (ps ! i) i = probe_rank (ps ! i') i'" by (auto intro: antisym)
  then have "i = i'" by (rule probe_rank_inj)
  with Some i' show ?thesis by simp
qed

lemma suitable_rpc_probes_set: "set (suitable_rpc_probes ps) = {p \<in> set ps. is_suitable p}"
  using set_filter_enum0 [of is_suitable ps] by (simp add: suitable_rpc_probes_def)

text \<open>
  The shape of a probe cycle's result: one probe per URL, each the raw probe of its position
  with the lag against the highest healthy height and the selection flag filled in.
\<close>

lemma probe_rpc_endpoints_nth:
  assumes "probe_rpc_endpoints reply dur urls c m = Inr ps" and "i < length ps"
    and "healthy_heights (map (raw_probe reply dur c) (enum0 urls)) = hs" and "hs \<noteq> []"
    and "lagged = map (with_lag (max_list hs) m) (map (raw_probe reply dur c) (enum0 urls))"
  shows "ps ! i = (lagged ! i)\<lparr>selected := (Some i = selected_probe_index lagged m)\<rparr>"
    and "length ps = length lagged"
  using assms
  by (auto simp: probe_rpc_endpoints_def Let_def nth_enumerate_eq split: if_splits)

lemma probe_rpc_endpoints_none_healthy:
  assumes "probe_rpc_endpoints reply dur urls c m = Inr ps"
    and "healthy_heights (map (raw_probe reply dur c) (enum0 urls)) = []"
  shows "ps = map (raw_probe reply dur c) (enum0 urls)"
  using assms by (auto simp: probe_rpc_endpoints_def Let_def split: if_splits)

lemma probe_rpc_endpoints_length: "probe_rpc_endpoints reply dur urls c m = Inr ps \<Longrightarrow> length ps = length urls"
  by (auto simp: probe_rpc_endpoints_def Let_def split: if_splits)

lemma lagged_bounds:
  assumes "p \<in> set raw" and "probe_ok c p" and "hs = healthy_heights raw"
    and "healthy (with_lag (max_list hs) m p)"
  shows "\<exists>l. observed_lag (with_lag (max_list hs) m p) = Some l \<and> 0 \<le> l \<and> l \<le> m"
proof -
  have "healthy p" using assms(4) by (auto simp: with_lag_def Let_def split: option.splits if_splits)
  with assms(2) obtain k where k: "latest_height p = Some k" by (auto simp: probe_ok_def)
  with assms \<open>healthy p\<close> have "k \<le> max_list hs" by (auto intro!: max_list_ge simp: healthy_heights_in)
  with with_lag_bounds [OF assms(4) k] show ?thesis by auto
qed

lemma probe_of_cycle:
  assumes "probe_rpc_endpoints reply dur urls c m = Inr ps" and "i < length ps" and "healthy (ps ! i)"
  shows "probe_ok c (ps ! i)" and "within_lag m (ps ! i)"
    and "\<exists>l. observed_lag (ps ! i) = Some l \<and> 0 \<le> l \<and> l \<le> m"
proof -
  define raw where "raw = map (raw_probe reply dur c) (enum0 urls)"
  define lagged where "lagged = map (with_lag (max_list (healthy_heights raw)) m) raw"
  have ok: "\<And>p. p \<in> set raw \<Longrightarrow> probe_ok c p" by (auto simp: raw_def raw_probe_ok)
  have len: "length raw = length ps" using probe_rpc_endpoints_length [OF assms(1)] by (simp add: raw_def)
  have "healthy_heights raw \<noteq> []"
  proof
    assume none: "healthy_heights raw = []"
    then have "ps = raw" using assms(1) probe_rpc_endpoints_none_healthy by (simp add: raw_def)
    with none assms(2,3) ok show False by (metis healthy_heights_empty nth_mem)
  qed
  then have psi: "ps ! i = (lagged ! i)\<lparr>selected := (Some i = selected_probe_index lagged m)\<rparr>"
    using assms(1,2) by (auto simp: lagged_def raw_def intro: probe_rpc_endpoints_nth)
  have li: "lagged ! i = with_lag (max_list (healthy_heights raw)) m (raw ! i)" and mem: "raw ! i \<in> set raw"
    using assms(2) len by (simp_all add: lagged_def)
  from ok [OF mem] have "probe_ok c (lagged ! i)" by (simp add: li with_lag_ok)
  then show "probe_ok c (ps ! i)" by (simp add: psi probe_ok_def)
  have h: "healthy (lagged ! i)" using assms(3) by (simp add: psi)
  then show "within_lag m (ps ! i)"
    using with_lag_within [OF ok [OF mem], of m "max_list (healthy_heights raw)"]
    by (simp add: psi li within_lag_def)
  show "\<exists>l. observed_lag (ps ! i) = Some l \<and> 0 \<le> l \<and> l \<le> m"
    using lagged_bounds [OF mem ok [OF mem] refl] h by (simp add: psi li)
qed

lemma selected_of_cycle:
  assumes "probe_rpc_endpoints reply dur urls c m = Inr ps" and "i < length ps"
  shows "selected (ps ! i) \<longleftrightarrow> selected_probe_index ps m = Some i"
proof -
  define raw where "raw = map (raw_probe reply dur c) (enum0 urls)"
  define lagged where "lagged = map (with_lag (max_list (healthy_heights raw)) m) raw"
  show ?thesis
  proof (cases "healthy_heights raw = []")
    case True
    then have ps: "ps = raw" using assms(1) probe_rpc_endpoints_none_healthy by (simp add: raw_def)
    have "\<forall>p \<in> set raw. \<not> healthy p"
      using True healthy_heights_empty [of raw c] by (auto simp: raw_def raw_probe_ok)
    then have "selected_probe_index ps m = None"
      by (simp add: selected_probe_index_None within_lag_def ps)
    moreover have "\<not> selected (ps ! i)" using ps assms(2) by (simp add: raw_def)
    ultimately show ?thesis by simp
  next
    case False
    note nth = probe_rpc_endpoints_nth [OF assms(1) _ refl False [unfolded raw_def] refl,
        folded raw_def, folded lagged_def]
    have len: "length ps = length lagged" using assms(2) by (rule nth(2))
    have "selected_probe_index ps m = selected_probe_index lagged m"
      using nth(1) by (intro selected_probe_index_cong len) (simp add: within_lag_def probe_rank_def)
    with nth(1) [OF assms(2)] show ?thesis by auto
  qed
qed

section \<open>Properties\<close>

text \<open>C13: when a probe cycle selects an endpoint, that endpoint answered with the expected chain id,
  is not catching up, has an open client, lags the best healthy height by at most the configured
  bound (and never a negative amount), and no healthy endpoint of the cycle ranks before it; it is
  the only selected probe.\<close>

theorem selected_probe_best:
  assumes "probe_rpc_endpoints reply dur urls c m = Inr ps" and "i < length ps" and "selected (ps ! i)"
  shows "healthy (ps ! i) \<and> p_chain_id (ps ! i) = JStr c \<and> catching_up (ps ! i) = JBool False \<and>
         client_open (ps ! i) \<and> (\<exists>l. observed_lag (ps ! i) = Some l \<and> 0 \<le> l \<and> l \<le> m) \<and>
         (\<forall>j < length ps. healthy (ps ! j) \<longrightarrow> probe_rank (ps ! i) i \<le> probe_rank (ps ! j) j) \<and>
         (\<forall>j < length ps. selected (ps ! j) \<longrightarrow> j = i)"
proof -
  have si: "selected_probe_index ps m = Some i" using assms selected_of_cycle by blast
  from selected_probe_index_Some(2) [OF si] have h: "healthy (ps ! i)" by (simp add: within_lag_def)
  note cyc = probe_of_cycle [OF assms(1,2) h]
  have "probe_rank (ps ! i) i \<le> probe_rank (ps ! j) j" if "j < length ps" "healthy (ps ! j)" for j
    using that selected_probe_index_Some(3) [OF si that(1)] probe_of_cycle(2) [OF assms(1)] by blast
  moreover have "j = i" if "j < length ps" "selected (ps ! j)" for j
    using that si selected_of_cycle [OF assms(1) that(1)] by auto
  ultimately show ?thesis using cyc(1,3) h by (auto simp: probe_ok_def)
qed

text \<open>a probe cycle with a non-negative lag bound always selects an endpoint when some endpoint is
  healthy before the staleness test, and \<open>select_rpc\<close> then returns it with the finalized tip one below
  its latest height.\<close>

theorem select_rpc_returns:
  assumes "probe_rpc_endpoints reply dur urls c m = Inr ps" and "0 \<le> m"
    and "healthy (raw_probe reply dur c (k, urls ! k))" and "k < length urls"
  shows "\<exists>sel. select_rpc reply dur urls c m = Inr sel \<and> sel_finalized_tip sel = sel_latest_height sel - 1 \<and>
               (\<exists>p \<in> set ps. selected p \<and> url p = sel_url sel \<and> latest_height p = Some (sel_latest_height sel))"
proof -
  define raw where "raw = map (raw_probe reply dur c) (enum0 urls)"
  define hs where "hs = healthy_heights raw"
  have ok: "\<forall>p \<in> set raw. probe_ok c p" by (auto simp: raw_def raw_probe_ok)
  have "raw_probe reply dur c (k, urls ! k) \<in> set raw"
    using assms(4) by (auto simp: raw_def set_enum0)
  with assms(3) ok have ne: "hs \<noteq> []" by (auto simp: hs_def healthy_heights_empty)
  from max_list_in [OF this] obtain b where b: "b \<in> set raw" "healthy b" "latest_height b = Some (max_list hs)"
    by (auto simp: hs_def healthy_heights_in)
  then obtain i where i: "i < length raw" "raw ! i = b" by (auto simp: in_set_conv_nth)
  have len: "length ps = length raw" using probe_rpc_endpoints_length [OF assms(1)] by (simp add: raw_def)
  note nth = probe_rpc_endpoints_nth(1) [OF assms(1) _ refl ne [unfolded hs_def raw_def] refl,
      folded raw_def, folded hs_def]
  have psi: "healthy (ps ! i)" "latest_height (ps ! i) \<noteq> None"
    using nth [of i] i b assms(2) len by (auto simp: with_lag_def Let_def)
  with i len probe_of_cycle(2) [OF assms(1)] obtain j where j: "selected_probe_index ps m = Some j"
    by (metis not_None_eq nth_mem selected_probe_index_None)
  have jl: "j < length ps" using selected_probe_index_Some(1) [OF j] .
  with j have "selected (ps ! j)" using selected_of_cycle [OF assms(1)] by blast
  with jl obtain p where p: "find selected ps = Some p" "p \<in> set ps" "selected p"
    by (metis find_None_iff2 find_Some_iff not_None_eq nth_mem)
  then obtain q where q: "q < length ps" "p = ps ! q" by (auto simp: in_set_conv_nth)
  with p have "probe_ok c p" "healthy p"
    using selected_of_cycle [OF assms(1)] selected_probe_index_Some(2) probe_of_cycle(1) [OF assms(1)]
    by (auto simp: within_lag_def)
  moreover from psi obtain h where "latest_height (ps ! i) = Some h" by auto
  with psi i len have "h \<in> set (healthy_heights ps)"
    by (auto simp: healthy_heights_in intro!: bexI [of _ "ps ! i"])
  then have "healthy_heights ps \<noteq> []" by auto
  ultimately show ?thesis
    using p assms(1) by (auto simp: select_rpc_def selected_rpc_from_probes_def probe_ok_def)
qed

text \<open>the failover order is exactly the suitable probes, sorted by measured latency (probes without a
  usable latency last) and by position on ties; every one of them still has an open client and is within
  the lag bound of the cycle.\<close>

theorem suitable_probes_sorted:
  assumes "probe_rpc_endpoints reply dur urls c m = Inr ps"
  shows "set (suitable_rpc_probes ps) = {p \<in> set ps. healthy p} \<and>
         (\<exists>ips. suitable_rpc_probes ps = map snd ips \<and> sorted (map item_rank ips)) \<and>
         (\<forall>p \<in> set (suitable_rpc_probes ps). client_open p \<and> within_lag m p \<and> p_chain_id p = JStr c)"
proof -
  have suit: "is_suitable (ps ! i)" if "i < length ps" "healthy (ps ! i)" for i
  proof -
    note cyc = probe_of_cycle [OF assms that]
    show ?thesis using cyc that by (auto simp: is_suitable_def probe_ok_def)
  qed
  then have "set (suitable_rpc_probes ps) = {p \<in> set ps. healthy p}"
    by (auto simp: suitable_rpc_probes_set is_suitable_def in_set_conv_nth)
  moreover have "sorted (map item_rank (sort_key item_rank (filter (\<lambda>ip. is_suitable (snd ip)) (enum0 ps))))"
    by simp
  ultimately show ?thesis
    using probe_of_cycle(1,2) [OF assms]
    unfolding suitable_rpc_probes_def by (fastforce simp: probe_ok_def in_set_conv_nth)
qed

text \<open>a block accepted by the parent-continuity check names the expected parent and yields a canonical
  hash of 64 upper-case hexadecimal digits.\<close>

theorem parent_continuity_sound:
  assumes "verify_parent_continuity payload expected = Inr h"
  shows "parent_block_hash_hex payload = Inr (py_upper expected) \<and> canonical_block_hash_hex payload = Inr h \<and>
         length h = 64 \<and> list_all is_upper_hex h"
  using assms hex_upper_alphabet
  by (auto simp: verify_parent_continuity_def canonical_block_hash_hex_def res_simps
      split: sum.splits if_splits)

section \<open>A concrete cycle\<close>

text \<open>Two endpoints of chain \<open>pearl-1\<close>: one at height 42, one answering an application error.\<close>

definition demo_status :: jobj where
  "demo_status =
     [(''result'', JObj [(''node_info'', JObj [(''network'', JStr ''pearl-1'')]),
        (''sync_info'', JObj [(''latest_block_height'', JInt 42), (''catching_up'', JBool False)])])]"

definition demo_reply :: "nat \<Rightarrow> jobj res" where
  "demo_reply i = (if i = 0 then Inr demo_status else Inl (RpcError ''RPC request failed for ''))"

definition demo_dur :: "nat \<Rightarrow> pyfloat" where
  "demo_dur i = Fin (1 / 8)"

definition demo_probe :: rpc_probe where
  "demo_probe =
     \<lparr>oid = 0, url = ''http://a'', healthy = True, selected = True, p_chain_id = JStr ''pearl-1'',
      latest_height = Some 42, observed_lag = Some 0, catching_up = JBool False, error_message = None,
      has_client = True, client_open = True, status_payload = Some demo_status,
      response_seconds = Some (Fin (1 / 8))\<rparr>"

lemma demo_raw:
  "raw_probe demo_reply demo_dur ''pearl-1'' (0, ''http://a'') = demo_probe\<lparr>selected := False, observed_lag := None\<rparr>"
  "\<not> healthy (raw_probe demo_reply demo_dur ''pearl-1'' (Suc 0, ''http://b''))"
  by (simp_all add: raw_probe_def probe_endpoint_def demo_reply_def demo_status_def demo_dur_def demo_probe_def
      parse_status_def result_def validate_status_for_health_def unhealthy_probe_def)

lemma demo_cycle:
  "probe_rpc_endpoints demo_reply demo_dur [''http://a'', ''http://b''] ''pearl-1'' 10 =
     Inr [demo_probe, raw_probe demo_reply demo_dur ''pearl-1'' (Suc 0, ''http://b'')]"
  using demo_raw
  by (simp add: probe_rpc_endpoints_def Let_def enumerate_simps healthy_heights_def map_filter_simps
      max_list_def with_lag_def selected_probe_index_def within_lag_def demo_probe_def)

theorem selected_probe_best_witness:
  "\<exists>ps. probe_rpc_endpoints demo_reply demo_dur [''http://a'', ''http://b''] ''pearl-1'' 10 = Inr ps \<and>
        0 < length ps \<and> selected (ps ! 0) \<and> (\<forall>j < length ps. selected (ps ! j) \<longrightarrow> j = 0)"
proof -
  have sel: "selected ([demo_probe, raw_probe demo_reply demo_dur ''pearl-1'' (Suc 0, ''http://b'')] ! 0)"
    by (simp add: demo_probe_def)
  from selected_probe_best [OF demo_cycle _ sel] show ?thesis using demo_cycle sel by auto
qed

theorem select_rpc_returns_witness:
  "\<exists>sel. select_rpc demo_reply demo_dur [''http://a'', ''http://b''] ''pearl-1'' 10 = Inr sel \<and>
         sel_finalized_tip sel = sel_latest_height sel - 1"
  using select_rpc_returns [OF demo_cycle, of 0] by (auto simp: demo_raw demo_probe_def)

theorem suitable_probes_sorted_witness:
  "\<exists>ps. probe_rpc_endpoints demo_reply demo_dur [''http://a'', ''http://b''] ''pearl-1'' 10 = Inr ps \<and>
        set (suitable_rpc_probes ps) = {p \<in> set ps. healthy p} \<and> demo_probe \<in> set (suitable_rpc_probes ps)"
  using suitable_probes_sorted [OF demo_cycle] demo_cycle by (auto simp: demo_probe_def)

definition demo_hash_b64 :: string where
  "demo_hash_b64 = replicate 43 (CHR ''B'') @ ''=''"

definition demo_block :: jobj where
  "demo_block =
     [(''result'', JObj [(''block_meta'', JObj [(''block_id'', JObj [(''hash'', JStr demo_hash_b64)])]),
        (''block'', JObj [(''header'', JObj [(''last_block_id'', JObj [(''hash'', JStr demo_hash_b64)])])])])]"

lemma demo_decode: "\<exists>bs. decode_base64 (JStr demo_hash_b64) = Inr bs \<and> length bs = 32"
proof -
  have "list_all is_b64 (replicate 43 (CHR ''B''))" by (simp add: list_all_iff is_b64_def b64_val_def)
  then have "b64decode demo_hash_b64 = Some (b64_bytes (replicate 43 (CHR ''B'')))"
    unfolding demo_hash_b64_def by (rule b64decode_pad1) simp
  then show ?thesis
    by (auto simp: decode_base64_Inr length_b64_bytes demo_hash_b64_def)
qed

theorem parent_continuity_sound_witness:
  "\<exists>e h. verify_parent_continuity demo_block e = Inr h \<and> length h = 64"
proof -
  obtain bs where bs: "decode_base64 (JStr demo_hash_b64) = Inr bs" "length bs = 32"
    using demo_decode by blast
  have ne: "demo_hash_b64 \<noteq> []" by (simp add: demo_hash_b64_def)
  have "verify_parent_continuity demo_block (hex_upper bs) = Inr (hex_upper bs)"
    using bs ne by (simp add: verify_parent_continuity_def parent_block_hash_hex_def
        canonical_block_hash_hex_def demo_block_def)
  then show ?thesis using parent_continuity_sound by blast
qed

end
