(* ===== verification/Db_Endpoints.thy ===== *)
theory Db_Endpoints
  imports Db_Finalized Rpc
begin

text \<open>
  The endpoint bookkeeping of \<open>indexer/database.py\<close>: the probe cycle, the selection of an endpoint
  and the record of a runtime failure, on tables \<open>rpc_endpoints\<close> and \<open>rpc_endpoint_checks\<close>. URLs, chain
  ids and reasons come from the configuration and the program and are bound as they are; what an endpoint
  answered (\<open>catching_up\<close>) is bound by the driver. The lemmas show that at most one endpoint per chain is
  selected, and what each operation does to the selection.
\<close>

section \<open>Latency\<close>

text \<open>\<open>math.floor(seconds * 1000 + 0.5)\<close>: a product that overflows to infinity has no floor.\<close>

definition response_seconds_to_latency_ms :: "pyfloat option \<Rightarrow> int option res" where
  "response_seconds_to_latency_ms value =
     (case value of
        Some (Fin seconds) \<Rightarrow>
          if seconds < 0 then Inr None
          else (case rnd (seconds * 1000) of
                  Fin ms \<Rightarrow> (case rnd (ms + 1 / 2) of Fin x \<Rightarrow> Inr (Some (min \<lfloor>x\<rfloor> 30000)) | _ \<Rightarrow> Inl OverflowError)
                | _ \<Rightarrow> Inl OverflowError)
      | _ \<Rightarrow> Inr None)"

section \<open>Constraints\<close>

definition secret_params :: "string list" where
  "secret_params = [''password='', ''token='', ''apikey='', ''api_key='', ''secret='']"

definition check_observed :: "string \<Rightarrow> int option \<Rightarrow> int option \<Rightarrow> unit res" where
  "check_observed table height lag =
     bindE (in_range (opt_check int8 height \<and> opt_check int8 lag)) (\<lambda>_.
     bindE (constraint (table @ ''_latest_observed_height_check'') (opt_check (\<lambda>h. 0 \<le> h) height)) (\<lambda>_.
     constraint (table @ ''_observed_lag_check'') (opt_check (\<lambda>l. 0 \<le> l) lag)))"

definition check_endpoint :: "endpoint_row \<Rightarrow> unit res" where
  "check_endpoint r =
     bindE (check_observed ''rpc_endpoints'' (ep_height r) (ep_lag r)) (\<lambda>_.
     bindE (constraint ''rpc_endpoints_latency_ms_check'' (opt_check (\<lambda>l. 0 \<le> l \<and> l \<le> 30000) (ep_latency r))) (\<lambda>_.
     constraint ''rpc_endpoints_no_secret_url'' (\<not> list_ex (contains_str (py_lower (ep_url r))) secret_params)))"

text \<open>The partial unique index: one selected row per chain.\<close>

definition one_selected :: "endpoint_row \<Rightarrow> endpoint_row list \<Rightarrow> unit res" where
  "one_selected row rows = constraint ''rpc_endpoints_one_selected_per_chain_idx''
     (\<not> (ep_selected row \<and> list_ex (\<lambda>r. ep_id r \<noteq> ep_id row \<and> ep_selected r \<and> ep_chain r = ep_chain row) rows))"

section \<open>Single statements\<close>

definition current_selected_endpoint_id :: "db \<Rightarrow> string \<Rightarrow> int option" where
  "current_selected_endpoint_id d chain_id =
     map_option ep_id (find (\<lambda>r. ep_chain r = chain_id \<and> ep_selected r) (endpoints d))"

definition get_selected_rpc_url :: "db \<Rightarrow> string \<Rightarrow> string option" where
  "get_selected_rpc_url d chain_id =
     map_option ep_url (find (\<lambda>r. ep_chain r = chain_id \<and> ep_selected r \<and> ep_enabled r) (endpoints d))"

text \<open>The columns both statements copy from the probe.\<close>

definition observe :: "endpoint_row \<Rightarrow> endpoint_row \<Rightarrow> endpoint_row" where
  "observe new old = old\<lparr>ep_height := ep_height new, ep_lag := ep_lag new, ep_catching_up := ep_catching_up new,
     ep_healthy := ep_healthy new, ep_error := ep_error new, ep_latency := ep_latency new\<rparr>"

definition probe_row :: "pg \<Rightarrow> int \<Rightarrow> string \<Rightarrow> bool \<Rightarrow> rpc_probe \<Rightarrow> endpoint_row res" where
  "probe_row p i chain_id is_selected probe =
     bindE (response_seconds_to_latency_ms (response_seconds probe)) (\<lambda>latency.
     bindE (bind_bool p (catching_up probe)) (\<lambda>catching.
     Inr \<lparr>ep_id = i, ep_url = url probe, ep_chain = chain_id, ep_enabled = True, ep_selected = is_selected,
          ep_height = latest_height probe, ep_lag = observed_lag probe, ep_catching_up = catching,
          ep_healthy = healthy probe, ep_error = error_message probe, ep_latency = latency\<rparr>))"

text \<open>
  \<open>INSERT ... ON CONFLICT (url) DO UPDATE\<close>: the proposed row is checked first, an identity value is drawn in
  both cases; the update leaves \<open>is_selected\<close> as it is.
\<close>

definition upsert_rpc_endpoint :: "pg \<Rightarrow> string \<Rightarrow> bool \<Rightarrow> rpc_probe \<Rightarrow> db \<Rightarrow> (int \<times> db) res" where
  "upsert_rpc_endpoint p chain_id is_selected probe d =
     (let existing = find (\<lambda>r. ep_url r = url probe) (endpoints d) in
      bindE (guardE (case existing of None \<Rightarrow> True | Some r \<Rightarrow> ep_chain r = chain_id) (ChainIdentityError ''Existing RPC URL '')) (\<lambda>_.
      bindE (probe_row p (next_endpoint d) chain_id is_selected probe) (\<lambda>new.
      bindE (check_endpoint new) (\<lambda>_.
      case existing of
        None \<Rightarrow>
          bindE (one_selected new (endpoints d)) (\<lambda>_.
          Inr (ep_id new, d\<lparr>endpoints := endpoints d @ [new], next_endpoint := next_endpoint d + 1\<rparr>))
      | Some old \<Rightarrow>
          Inr (ep_id old,
            d\<lparr>endpoints := map (\<lambda>r. if ep_url r = url probe then (observe new r)\<lparr>ep_enabled := True\<rparr> else r) (endpoints d),
              next_endpoint := next_endpoint d + 1\<rparr>)))))"

definition clear_selected :: "string \<Rightarrow> db \<Rightarrow> db" where
  "clear_selected chain_id d =
     d\<lparr>endpoints := map (\<lambda>r. if ep_chain r = chain_id \<and> ep_selected r then r\<lparr>ep_selected := False\<rparr> else r) (endpoints d)\<rparr>"

definition mark_rpc_endpoint_selected :: "pg \<Rightarrow> int \<Rightarrow> rpc_probe \<Rightarrow> db \<Rightarrow> db res" where
  "mark_rpc_endpoint_selected p i probe d =
     (case find (\<lambda>r. ep_id r = i) (endpoints d) of
        None \<Rightarrow> Inr d
      | Some old \<Rightarrow>
          bindE (probe_row p i (ep_chain old) True probe) (\<lambda>new.
          let row = (observe new old)\<lparr>ep_selected := True\<rparr> in
          bindE (check_endpoint row) (\<lambda>_.
          bindE (one_selected row (endpoints d)) (\<lambda>_.
          Inr (d\<lparr>endpoints := map (\<lambda>r. if ep_id r = i then row else r) (endpoints d)\<rparr>)))))"

definition insert_rpc_endpoint_check :: "pg \<Rightarrow> int \<Rightarrow> string \<Rightarrow> rpc_probe \<Rightarrow> string option \<Rightarrow> db \<Rightarrow> db res" where
  "insert_rpc_endpoint_check p i chain_id probe switch_reason d =
     bindE (bind_bool p (catching_up probe)) (\<lambda>catching.
     bindE (check_observed ''rpc_endpoint_checks'' (latest_height probe) (observed_lag probe)) (\<lambda>_.
     bindE (constraint ''rpc_endpoint_checks_rpc_endpoint_id_fkey'' (i \<in> ep_id ` set (endpoints d))) (\<lambda>_.
     Inr (d\<lparr>endpoint_checks := endpoint_checks d @
       [\<lparr>ck_endpoint = i, ck_chain = chain_id, ck_height = latest_height probe, ck_lag = observed_lag probe,
         ck_catching_up = catching, ck_healthy = healthy probe, ck_selected = selected probe,
         ck_switch_reason = switch_reason, ck_error = error_message probe\<rparr>]\<rparr>))))"

section \<open>The three operations\<close>

definition disable_unconfigured :: "string \<Rightarrow> string list \<Rightarrow> db \<Rightarrow> db" where
  "disable_unconfigured chain_id configured d =
     d\<lparr>endpoints := map (\<lambda>r. if ep_chain r = chain_id \<and> ep_url r \<notin> set configured
                              then r\<lparr>ep_enabled := False, ep_selected := False\<rparr> else r) (endpoints d)\<rparr>"

definition upsert_probed :: "pg \<Rightarrow> string \<Rightarrow> rpc_probe \<Rightarrow> (string \<times> int) list \<times> db \<Rightarrow> ((string \<times> int) list \<times> db) res" where
  "upsert_probed p chain_id probe = (\<lambda>(endpoint_ids, d).
     bindE (upsert_rpc_endpoint p chain_id False probe d) (\<lambda>(i, d'). Inr ((url probe, i) # endpoint_ids, d')))"

definition endpoint_id_of :: "(string \<times> int) list \<Rightarrow> rpc_probe \<Rightarrow> int res" where
  "endpoint_id_of endpoint_ids probe = (case map_of endpoint_ids (url probe) of None \<Rightarrow> Inl KeyError | Some i \<Rightarrow> Inr i)"

definition record_rpc_probe_cycle_cursor :: "pg \<Rightarrow> string \<Rightarrow> rpc_probe list \<Rightarrow> db \<Rightarrow> (int option \<times> db) res" where
  "record_rpc_probe_cycle_cursor p chain_id probes d =
     (let selected_probe = find selected probes;
          d0 = disable_unconfigured chain_id (map url probes) d;
          previous_selected_id = current_selected_endpoint_id d0 chain_id in
      bindE (foldE (upsert_probed p chain_id) probes ([], d0)) (\<lambda>(endpoint_ids, d1).
      bindE (case selected_probe of None \<Rightarrow> Inr None | Some s \<Rightarrow> bindE (endpoint_id_of endpoint_ids s) (\<lambda>i. Inr (Some i)))
        (\<lambda>selected_endpoint_id.
      let switch_reason = (if selected_endpoint_id \<noteq> None \<and> previous_selected_id \<noteq> None \<and>
                              previous_selected_id \<noteq> selected_endpoint_id
                           then Some ''RPC endpoint switch'' else None) in
      bindE (case (selected_probe, selected_endpoint_id) of
               (Some s, Some i) \<Rightarrow> mark_rpc_endpoint_selected p i s (clear_selected chain_id d1)
             | _ \<Rightarrow> Inr d1) (\<lambda>d2.
      bindE (foldE (\<lambda>probe d. bindE (endpoint_id_of endpoint_ids probe) (\<lambda>i.
               insert_rpc_endpoint_check p i chain_id probe (if selected probe then switch_reason else None) d)) probes d2) (\<lambda>d3.
      Inr (selected_endpoint_id, d3))))))"

definition select_rpc_endpoint_cursor :: "pg \<Rightarrow> string \<Rightarrow> rpc_probe \<Rightarrow> string \<Rightarrow> db \<Rightarrow> (int \<times> db) res" where
  "select_rpc_endpoint_cursor p chain_id probe reason d =
     bindE (upsert_rpc_endpoint p chain_id False probe d) (\<lambda>(i, d1).
     if current_selected_endpoint_id d1 chain_id = Some i
     then bindE (mark_rpc_endpoint_selected p i probe d1) (\<lambda>d2. Inr (i, d2))
     else
       bindE (mark_rpc_endpoint_selected p i probe (clear_selected chain_id d1)) (\<lambda>d2.
       bindE (insert_rpc_endpoint_check p i chain_id (probe\<lparr>selected := True\<rparr>) (Some (take 80 reason)) d2) (\<lambda>d3.
       Inr (i, d3))))"

definition fail_endpoint :: "int \<Rightarrow> string \<Rightarrow> int option \<Rightarrow> db \<Rightarrow> db" where
  "fail_endpoint i reason latency d =
     d\<lparr>endpoints := map (\<lambda>r. if ep_id r = i
        then r\<lparr>ep_enabled := True, ep_selected := False, ep_healthy := False, ep_error := Some reason, ep_latency := latency\<rparr>
        else r) (endpoints d)\<rparr>"

definition record_rpc_runtime_failure_cursor :: "pg \<Rightarrow> string \<Rightarrow> rpc_probe \<Rightarrow> string \<Rightarrow> db \<Rightarrow> ((int \<times> bool) \<times> db) res" where
  "record_rpc_runtime_failure_cursor p chain_id probe reason d =
     (let current_id = current_selected_endpoint_id d chain_id;
          failed = probe\<lparr>healthy := False, selected := False, error_message := Some (take 80 reason)\<rparr> in
      bindE (upsert_rpc_endpoint p chain_id False failed d) (\<lambda>(i, d1).
      bindE (response_seconds_to_latency_ms (response_seconds probe)) (\<lambda>latency.
      bindE (insert_rpc_endpoint_check p i chain_id failed None (fail_endpoint i (take 80 reason) latency d1)) (\<lambda>d2.
      Inr ((i, current_id = Some i), d2)))))"

section \<open>At most one endpoint per chain is selected\<close>

definition eps_ok :: "endpoint_row list \<Rightarrow> int \<Rightarrow> bool" where
  "eps_ok rows n \<longleftrightarrow> distinct (map ep_id rows) \<and> distinct (map ep_url rows) \<and>
     (\<forall>r \<in> set rows. ep_id r < n \<and> (ep_selected r \<longrightarrow> ep_enabled r)) \<and>
     (\<forall>r \<in> set rows. \<forall>s \<in> set rows. ep_selected r \<and> ep_selected s \<and> ep_chain r = ep_chain s \<longrightarrow> ep_id r = ep_id s)"

definition endpoint_inv :: "db \<Rightarrow> bool" where
  "endpoint_inv d = eps_ok (endpoints d) (next_endpoint d)"

lemma eps_okD:
  assumes "eps_ok rows n"
  shows "distinct (map ep_id rows)" "distinct (map ep_url rows)" "r \<in> set rows \<Longrightarrow> ep_id r < n"
    "r \<in> set rows \<Longrightarrow> ep_selected r \<Longrightarrow> ep_enabled r"
    "r \<in> set rows \<Longrightarrow> s \<in> set rows \<Longrightarrow> ep_selected r \<Longrightarrow> ep_selected s \<Longrightarrow> ep_chain r = ep_chain s \<Longrightarrow> ep_id r = ep_id s"
  using assms unfolding eps_ok_def by blast+

lemma eps_okI:
  assumes "distinct (map ep_id rows)" "distinct (map ep_url rows)" "\<And>r. r \<in> set rows \<Longrightarrow> ep_id r < n"
    "\<And>r. r \<in> set rows \<Longrightarrow> ep_selected r \<Longrightarrow> ep_enabled r"
    "\<And>r s. r \<in> set rows \<Longrightarrow> s \<in> set rows \<Longrightarrow> ep_selected r \<Longrightarrow> ep_selected s \<Longrightarrow> ep_chain r = ep_chain s \<Longrightarrow> ep_id r = ep_id s"
  shows "eps_ok rows n"
  using assms unfolding eps_ok_def by blast

lemma eps_ok_map:
  assumes "eps_ok rows n" and "n \<le> m"
    and keep: "\<And>r. ep_id (f r) = ep_id r \<and> ep_url (f r) = ep_url r \<and> ep_chain (f r) = ep_chain r"
    and sel: "\<And>r. ep_selected (f r) \<Longrightarrow> ep_selected r \<and> (ep_enabled r \<longrightarrow> ep_enabled (f r))"
  shows "eps_ok (map f rows) m"
proof -
  note D = eps_okD [OF assms(1)]
  have k: "ep_id (f r) = ep_id r" "ep_url (f r) = ep_url r" "ep_chain (f r) = ep_chain r" for r
    using keep by blast+
  show ?thesis
  proof (rule eps_okI)
    show "distinct (map ep_id (map f rows))" "distinct (map ep_url (map f rows))"
      using D(1,2) by (simp_all add: comp_def k)
  next
    fix r assume "r \<in> set (map f rows)"
    then obtain r0 where r0: "r0 \<in> set rows" "r = f r0" by auto
    show "ep_id r < m" using D(3) [OF r0(1)] assms(2) by (simp add: r0(2) k)
    show "ep_enabled r" if "ep_selected r" using D(4) [OF r0(1)] sel [of r0] that r0(2) by blast
    fix s assume "s \<in> set (map f rows)" "ep_selected r" "ep_selected s" and c: "ep_chain r = ep_chain s"
    then obtain s0 where s0: "s0 \<in> set rows" "s = f s0" by auto
    have "ep_selected r0" "ep_selected s0" using sel [of r0] sel [of s0] r0 s0 \<open>ep_selected r\<close> \<open>ep_selected s\<close> by blast+
    with D(5) [OF r0(1) s0(1)] c show "ep_id r = ep_id s" by (simp add: r0(2) s0(2) k)
  qed
qed

lemma eps_ok_append:
  assumes "eps_ok rows n" and "ep_id r = n" and "ep_url r \<notin> ep_url ` set rows" and "\<not> ep_selected r"
  shows "eps_ok (rows @ [r]) (n + 1)"
proof -
  note D = eps_okD [OF assms(1)]
  have "ep_id r \<notin> ep_id ` set rows" using D(3) assms(2) by force
  then have "distinct (map ep_id (rows @ [r]))" "distinct (map ep_url (rows @ [r]))" using D(1,2) assms(3) by simp_all
  moreover have "ep_id s < n + 1" if "s \<in> set (rows @ [r])" for s
    using that assms(2) by (auto dest: D(3))
  moreover have old: "s \<in> set rows" if "s \<in> set (rows @ [r])" "ep_selected s" for s using that assms(4) by auto
  ultimately show ?thesis by (intro eps_okI) (blast intro: D(4,5))+
qed

lemma eps_ok_select:
  assumes "eps_ok rows n" and same: "\<And>r. r \<in> set rows \<Longrightarrow> ep_id r = i \<Longrightarrow> ep_url r = ep_url row \<and> ep_chain r = ep_chain row"
    and row: "ep_id row = i" "ep_enabled row" "ep_selected row" and one: "one_selected row rows = Inr u"
  shows "eps_ok (map (\<lambda>r. if ep_id r = i then row else r) rows) n"
proof -
  note D = eps_okD [OF assms(1)]
  let ?f = "\<lambda>r. if ep_id r = i then row else r"
  have others: "ep_chain r \<noteq> ep_chain row" if "r \<in> set rows" "ep_id r \<noteq> i" "ep_selected r" for r
    using one row that by (auto simp: one_selected_def res_simps list_ex_iff)
  have k: "ep_id (?f r) = ep_id r" "r \<in> set rows \<Longrightarrow> ep_url (?f r) = ep_url r" for r using same row(1) by auto
  show ?thesis
  proof (rule eps_okI)
    have "map ep_id (map ?f rows) = map ep_id rows" "map ep_url (map ?f rows) = map ep_url rows"
      using k by simp_all
    with D(1,2) show "distinct (map ep_id (map ?f rows))" "distinct (map ep_url (map ?f rows))" by argo+
  next
    fix r assume "r \<in> set (map ?f rows)"
    then obtain r0 where r0: "r0 \<in> set rows" "r = ?f r0" by auto
    show "ep_id r < n" using D(3) [OF r0(1)] k(1) [of r0] r0(2) by simp
    show "ep_enabled r" if "ep_selected r" using D(4) [OF r0(1)] row(2) r0(2) that by (simp split: if_splits)
    fix s assume "s \<in> set (map ?f rows)" and sel: "ep_selected r" "ep_selected s" and c: "ep_chain r = ep_chain s"
    then obtain s0 where s0: "s0 \<in> set rows" "s = ?f s0" by auto
    show "ep_id r = ep_id s"
      using others [OF r0(1)] others [OF s0(1)] D(5) [OF r0(1) s0(1)] sel c r0(2) s0(2) row(1)
      by (cases "ep_id r0 = i"; cases "ep_id s0 = i") simp_all
  qed
qed

lemma observe_sel [simp]:
  "ep_id (observe new old) = ep_id old" "ep_url (observe new old) = ep_url old" "ep_chain (observe new old) = ep_chain old"
  "ep_enabled (observe new old) = ep_enabled old" "ep_selected (observe new old) = ep_selected old"
  by (simp_all add: observe_def)

lemma probe_row_sel:
  assumes "probe_row p i chain_id b probe = Inr r"
  shows "ep_id r = i" "ep_url r = url probe" "ep_chain r = chain_id" "ep_selected r = b" "ep_enabled r"
  using assms by (auto simp: probe_row_def res_simps)

lemma find_url_None: "find (\<lambda>r. ep_url r = u) rows = None \<longleftrightarrow> u \<notin> ep_url ` set rows"
  by (auto simp: find_None_iff)

lemma upsert_endpoint_inv:
  assumes "upsert_rpc_endpoint p c False probe d = Inr (i, d')" and "endpoint_inv d"
  shows "endpoint_inv d'"
proof (cases "find (\<lambda>r. ep_url r = url probe) (endpoints d)")
  case None
  with assms show ?thesis
    by (auto simp: upsert_rpc_endpoint_def endpoint_inv_def res_simps find_url_None probe_row_sel intro!: eps_ok_append)
next
  case (Some old)
  with assms show ?thesis
    by (auto simp: upsert_rpc_endpoint_def endpoint_inv_def res_simps intro!: eps_ok_map [where n = "next_endpoint d"] split: if_splits)
qed

lemma mark_endpoint_inv:
  assumes "mark_rpc_endpoint_selected p i probe d = Inr d'" and "endpoint_inv d"
    and "\<And>r. r \<in> set (endpoints d) \<Longrightarrow> ep_id r = i \<Longrightarrow> ep_enabled r"
  shows "endpoint_inv d'"
proof (cases "find (\<lambda>r. ep_id r = i) (endpoints d)")
  case None
  with assms show ?thesis by (simp add: mark_rpc_endpoint_selected_def)
next
  case (Some old)
  then have old: "old \<in> set (endpoints d)" "ep_id old = i" by (auto simp: find_Some_iff)
  have same: "r = old" if "r \<in> set (endpoints d)" "ep_id r = i" for r
    using assms(2) old that unfolding endpoint_inv_def eps_ok_def by (metis distinct_map inj_onD)
  from assms(1) Some obtain new where "probe_row p i (ep_chain old) True probe = Inr new"
    and one: "one_selected ((observe new old)\<lparr>ep_selected := True\<rparr>) (endpoints d) = Inr ()"
    and d': "d' = d\<lparr>endpoints := map (\<lambda>r. if ep_id r = i then (observe new old)\<lparr>ep_selected := True\<rparr> else r) (endpoints d)\<rparr>"
    by (auto simp: mark_rpc_endpoint_selected_def Let_def res_simps)
  have "eps_ok (map (\<lambda>r. if ep_id r = i then (observe new old)\<lparr>ep_selected := True\<rparr> else r) (endpoints d)) (next_endpoint d)"
    using assms(2) one old assms(3) unfolding endpoint_inv_def
    by (intro eps_ok_select) (auto dest: same)
  then show ?thesis by (simp add: d' endpoint_inv_def)
qed

lemma clear_selected_inv: "endpoint_inv d \<Longrightarrow> endpoint_inv (clear_selected c d)"
  by (auto simp: endpoint_inv_def clear_selected_def intro!: eps_ok_map [where n = "next_endpoint d"] split: if_splits)

lemma disable_unconfigured_inv: "endpoint_inv d \<Longrightarrow> endpoint_inv (disable_unconfigured c us d)"
  by (auto simp: endpoint_inv_def disable_unconfigured_def intro!: eps_ok_map [where n = "next_endpoint d"] split: if_splits)

lemma fail_endpoint_inv: "endpoint_inv d \<Longrightarrow> endpoint_inv (fail_endpoint i reason latency d)"
  by (auto simp: endpoint_inv_def fail_endpoint_def intro!: eps_ok_map [where n = "next_endpoint d"] split: if_splits)

lemma insert_check_endpoints:
  "insert_rpc_endpoint_check p i c probe reason d = Inr d' \<Longrightarrow> endpoints d' = endpoints d \<and> next_endpoint d' = next_endpoint d"
  by (auto simp: insert_rpc_endpoint_check_def res_simps)

section \<open>The selection as a map from chains to URLs\<close>

definition sel :: "db \<Rightarrow> string \<Rightarrow> string \<Rightarrow> bool" where
  "sel d c u \<longleftrightarrow> (\<exists>r \<in> set (endpoints d). ep_chain r = c \<and> ep_selected r \<and> ep_url r = u)"

lemma selected_url_iff:
  assumes "endpoint_inv d"
  shows "get_selected_rpc_url d c = Some u \<longleftrightarrow> sel d c u"
proof -
  note D = eps_okD [OF assms [unfolded endpoint_inv_def]]
  have inj: "r = s" if "r \<in> set (endpoints d)" "s \<in> set (endpoints d)" "ep_id r = ep_id s" for r s
    using D(1) that by (simp add: distinct_map inj_on_def)
  show ?thesis
  proof
    assume "get_selected_rpc_url d c = Some u"
    then show "sel d c u" by (auto simp: get_selected_rpc_url_def sel_def find_Some_iff)
  next
    assume "sel d c u"
    then obtain r where r: "r \<in> set (endpoints d)" "ep_chain r = c" "ep_selected r" "ep_url r = u" by (auto simp: sel_def)
    let ?P = "\<lambda>r. ep_chain r = c \<and> ep_selected r \<and> ep_enabled r"
    have "?P r" using r D(4) by blast
    with r(1) obtain s where s: "find ?P (endpoints d) = Some s" by (cases "find ?P (endpoints d)") (auto simp: find_None_iff)
    then have "s \<in> set (endpoints d)" "?P s" by (auto simp: find_Some_iff)
    with r have "s = r" by (intro inj D(5)) auto
    with s r(4) show "get_selected_rpc_url d c = Some u" by (simp add: get_selected_rpc_url_def)
  qed
qed

lemma current_selected_iff:
  assumes "endpoint_inv d" and "r \<in> set (endpoints d)" and "ep_chain r = c"
  shows "current_selected_endpoint_id d c = Some (ep_id r) \<longleftrightarrow> ep_selected r"
proof -
  note D = eps_okD [OF assms(1) [unfolded endpoint_inv_def]]
  let ?P = "\<lambda>r. ep_chain r = c \<and> ep_selected r"
  have inj: "r = s" if "s \<in> set (endpoints d)" "ep_id r = ep_id s" for s
    using D(1) assms(2) that by (simp add: distinct_map inj_on_def)
  show ?thesis
  proof (cases "find ?P (endpoints d)")
    case None
    then have "\<not> ep_selected r" using assms(2,3) by (auto simp: find_None_iff)
    with None show ?thesis by (simp add: current_selected_endpoint_id_def)
  next
    case (Some s)
    then have "s \<in> set (endpoints d)" "?P s" by (auto simp: find_Some_iff)
    moreover from \<open>s \<in> set (endpoints d)\<close> \<open>?P s\<close> have "ep_selected r \<Longrightarrow> ep_id s = ep_id r"
      using D(5) [of s r] assms(2,3) by simp
    moreover have "ep_id s = ep_id r \<Longrightarrow> r = s" using inj [of s] \<open>s \<in> set (endpoints d)\<close> by argo
    ultimately have "ep_id s = ep_id r \<longleftrightarrow> ep_selected r" by blast
    with Some show ?thesis by (simp add: current_selected_endpoint_id_def)
  qed
qed

text \<open>The selection after an update that keeps URL and chain.\<close>

lemma sel_map:
  assumes "endpoints d' = map f (endpoints d)" and "\<And>r. r \<in> set (endpoints d) \<Longrightarrow> ep_url (f r) = ep_url r \<and> ep_chain (f r) = ep_chain r"
  shows "sel d' c u \<longleftrightarrow> (\<exists>r \<in> set (endpoints d). ep_chain r = c \<and> ep_url r = u \<and> ep_selected (f r))"
  using assms by (auto simp: sel_def)

lemma upsert_endpoint_effect:
  assumes "upsert_rpc_endpoint p c False probe d = Inr (i, d')"
  shows "sel d' = sel d"
    and "\<exists>r \<in> set (endpoints d'). ep_id r = i \<and> ep_url r = url probe \<and> ep_chain r = c \<and> ep_enabled r"
    and "r \<in> set (endpoints d) \<Longrightarrow> \<exists>r' \<in> set (endpoints d'). ep_id r' = ep_id r \<and> ep_url r' = ep_url r \<and>
       ep_chain r' = ep_chain r \<and> (ep_enabled r \<longrightarrow> ep_enabled r')"
proof -
  have "sel d' = sel d \<and> (\<exists>r \<in> set (endpoints d'). ep_id r = i \<and> ep_url r = url probe \<and> ep_chain r = c \<and> ep_enabled r) \<and>
    (r \<in> set (endpoints d) \<longrightarrow> (\<exists>r' \<in> set (endpoints d'). ep_id r' = ep_id r \<and> ep_url r' = ep_url r \<and>
       ep_chain r' = ep_chain r \<and> (ep_enabled r \<longrightarrow> ep_enabled r')))"
  proof (cases "find (\<lambda>r. ep_url r = url probe) (endpoints d)")
    case None
    then obtain new where new: "probe_row p (next_endpoint d) c False probe = Inr new"
      and d': "i = ep_id new" "endpoints d' = endpoints d @ [new]"
      using assms by (auto simp: upsert_rpc_endpoint_def res_simps)
    then show ?thesis using probe_row_sel [OF new] by (auto simp: sel_def fun_eq_iff)
  next
    case (Some old)
    then have old: "old \<in> set (endpoints d)" "ep_url old = url probe" by (auto simp: find_Some_iff)
    obtain new where c: "ep_chain old = c" and i: "i = ep_id old" and d'': "d' = d
      \<lparr>endpoints := map (\<lambda>r. if ep_url r = url probe then (observe new r)\<lparr>ep_enabled := True\<rparr> else r) (endpoints d),
       next_endpoint := next_endpoint d + 1\<rparr>"
      using assms Some by (auto simp: upsert_rpc_endpoint_def bindE_Inr_iff guardE_Inr_iff)
    let ?f = "\<lambda>r. if ep_url r = url probe then (observe new r)\<lparr>ep_enabled := True\<rparr> else r"
    have d': "endpoints d' = map ?f (endpoints d)" by (simp add: d'')
    have k: "ep_url (?f r) = ep_url r" "ep_chain (?f r) = ep_chain r" "ep_selected (?f r) = ep_selected r" for r by simp_all
    have "sel d' = sel d"
      unfolding fun_eq_iff by (subst sel_map [OF d']) (use k in \<open>auto simp: sel_def\<close>)
    moreover have "\<exists>r \<in> set (endpoints d'). ep_id r = i \<and> ep_url r = url probe \<and> ep_chain r = c \<and> ep_enabled r"
      unfolding d' set_map using old c i by (intro bexI [of _ "?f old"] imageI) simp_all
    moreover have "\<exists>r' \<in> set (endpoints d'). ep_id r' = ep_id r \<and> ep_url r' = ep_url r \<and> ep_chain r' = ep_chain r \<and>
        (ep_enabled r \<longrightarrow> ep_enabled r')" if "r \<in> set (endpoints d)"
      unfolding d' set_map using that by (intro bexI [of _ "?f r"] imageI) simp_all
    ultimately show ?thesis by blast
  qed
  then show "sel d' = sel d"
    and "\<exists>r \<in> set (endpoints d'). ep_id r = i \<and> ep_url r = url probe \<and> ep_chain r = c \<and> ep_enabled r"
    and "r \<in> set (endpoints d) \<Longrightarrow> \<exists>r' \<in> set (endpoints d'). ep_id r' = ep_id r \<and> ep_url r' = ep_url r \<and>
       ep_chain r' = ep_chain r \<and> (ep_enabled r \<longrightarrow> ep_enabled r')"
    by blast+
qed

lemma clear_selected_sel: "sel (clear_selected c d) c' u \<longleftrightarrow> sel d c' u \<and> c' \<noteq> c"
proof -
  let ?f = "\<lambda>r. if ep_chain r = c \<and> ep_selected r then r\<lparr>ep_selected := False\<rparr> else r"
  have "ep_selected (?f r) \<longleftrightarrow> ep_selected r \<and> ep_chain r \<noteq> c" for r by auto
  then show ?thesis by (subst sel_map [of _ ?f d]) (auto simp: sel_def clear_selected_def)
qed

lemma disable_unconfigured_sel: "sel (disable_unconfigured c us d) c' u \<longleftrightarrow> sel d c' u \<and> (c' = c \<longrightarrow> u \<in> set us)"
proof -
  let ?f = "\<lambda>r. if ep_chain r = c \<and> ep_url r \<notin> set us then r\<lparr>ep_enabled := False, ep_selected := False\<rparr> else r"
  have "ep_selected (?f r) \<longleftrightarrow> ep_selected r \<and> (ep_chain r = c \<longrightarrow> ep_url r \<in> set us)" for r by simp
  then show ?thesis by (subst sel_map [of _ ?f d]) (auto simp: sel_def disable_unconfigured_def)
qed

lemma row_unique:
  assumes "endpoint_inv d" and "r \<in> set (endpoints d)" and "s \<in> set (endpoints d)" and "ep_id r = ep_id s"
  shows "r = s"
  using eps_okD(1) [OF assms(1) [unfolded endpoint_inv_def]] assms(2-) by (simp add: distinct_map inj_on_def)

lemma url_unique:
  assumes "endpoint_inv d" and "r \<in> set (endpoints d)" and "s \<in> set (endpoints d)" and "ep_url r = ep_url s"
  shows "r = s"
  using eps_okD(2) [OF assms(1) [unfolded endpoint_inv_def]] assms(2-) by (simp add: distinct_map inj_on_def)

lemma mark_sel:
  assumes "mark_rpc_endpoint_selected p i probe d = Inr d'" and "endpoint_inv d"
    and row: "r \<in> set (endpoints d)" "ep_id r = i" "ep_url r = u" "ep_chain r = c"
  shows "sel d' c' v \<longleftrightarrow> sel d c' v \<or> c' = c \<and> v = u"
proof -
  have find: "find (\<lambda>r. ep_id r = i) (endpoints d) = Some r"
    using row row_unique [OF assms(2)] by (cases "find (\<lambda>r. ep_id r = i) (endpoints d)") (auto simp: find_None_iff find_Some_iff)
  obtain new where d'':
    "d' = d\<lparr>endpoints := map (\<lambda>s. if ep_id s = i then (observe new r)\<lparr>ep_selected := True\<rparr> else s) (endpoints d)\<rparr>"
    using assms(1) find by (auto simp: mark_rpc_endpoint_selected_def Let_def bindE_Inr_iff)
  let ?f = "\<lambda>s. if ep_id s = i then (observe new r)\<lparr>ep_selected := True\<rparr> else s"
  have d': "endpoints d' = map ?f (endpoints d)" by (simp add: d'')
  have same: "s = r" if "s \<in> set (endpoints d)" "ep_id s = i" for s using row_unique [OF assms(2) that(1) row(1)] that(2) row(2) by simp
  have "sel d' c' v \<longleftrightarrow> (\<exists>s \<in> set (endpoints d). ep_chain s = c' \<and> ep_url s = v \<and> (ep_selected s \<or> ep_id s = i))"
    by (subst sel_map [OF d']) (auto dest: same)
  also have "\<dots> \<longleftrightarrow> sel d c' v \<or> c' = c \<and> v = u"
    unfolding sel_def using row same by blast
  finally show ?thesis .
qed

lemma fail_endpoint_sel:
  assumes "endpoint_inv d" and row: "r \<in> set (endpoints d)" "ep_id r = i" "ep_url r = u" "ep_chain r = c"
  shows "sel (fail_endpoint i reason latency d) c' v \<longleftrightarrow> sel d c' v \<and> \<not> (c' = c \<and> v = u)"
proof -
  have url: "s = r" if "s \<in> set (endpoints d)" "ep_url s = u" for s
    using url_unique [OF assms(1) that(1) row(1)] that(2) row(3) by simp
  have "sel (fail_endpoint i reason latency d) c' v \<longleftrightarrow>
      (\<exists>s \<in> set (endpoints d). ep_id s \<noteq> i \<and> ep_chain s = c' \<and> ep_selected s \<and> ep_url s = v)"
    by (subst sel_map [of _ "\<lambda>r. if ep_id r = i
        then r\<lparr>ep_enabled := True, ep_selected := False, ep_healthy := False, ep_error := Some reason, ep_latency := latency\<rparr>
        else r" d]) (auto simp: fail_endpoint_def)
  also have "\<dots> \<longleftrightarrow> sel d c' v \<and> \<not> (c' = c \<and> v = u)"
    unfolding sel_def using row url row_unique [OF assms(1)] by blast
  finally show ?thesis .
qed

lemma sel_cong: "endpoints d' = endpoints d \<Longrightarrow> sel d' = sel d"
  by (simp add: sel_def fun_eq_iff)

lemma inv_cong: "endpoints d' = endpoints d \<Longrightarrow> next_endpoint d' = next_endpoint d \<Longrightarrow> endpoint_inv d' = endpoint_inv d"
  by (simp add: endpoint_inv_def)

text \<open>The row of a configured endpoint: known by id, URL and chain, and enabled.\<close>

definition has_endpoint :: "db \<Rightarrow> int \<Rightarrow> string \<Rightarrow> string \<Rightarrow> bool" where
  "has_endpoint d i u c \<longleftrightarrow> (\<exists>r \<in> set (endpoints d). ep_id r = i \<and> ep_url r = u \<and> ep_chain r = c \<and> ep_enabled r)"

lemma upsert_has_endpoint:
  assumes "upsert_rpc_endpoint p c False probe d = Inr (i, d')"
  shows "has_endpoint d' i (url probe) c" and "has_endpoint d j u c' \<Longrightarrow> has_endpoint d' j u c'"
  using upsert_endpoint_effect(2,3) [OF assms] unfolding has_endpoint_def by metis+

lemma clear_has_endpoint: "has_endpoint d i u c \<Longrightarrow> has_endpoint (clear_selected c' d) i u c"
proof -
  let ?f = "\<lambda>r. if ep_chain r = c' \<and> ep_selected r then r\<lparr>ep_selected := False\<rparr> else r"
  assume "has_endpoint d i u c"
  then obtain r where "r \<in> set (endpoints d)" "ep_id r = i" "ep_url r = u" "ep_chain r = c" "ep_enabled r"
    by (auto simp: has_endpoint_def)
  then show ?thesis unfolding has_endpoint_def clear_selected_def by (intro bexI [of _ "?f r"]) simp_all
qed

text \<open>The id returned by the upsert is the one of the row that had the URL before, or a fresh one.\<close>

lemma upsert_endpoint_id:
  assumes "upsert_rpc_endpoint p c False probe d = Inr (i, d')"
  shows "(\<exists>r \<in> set (endpoints d). ep_id r = i \<and> ep_url r = url probe \<and> ep_chain r = c) \<or>
     i = next_endpoint d \<and> url probe \<notin> ep_url ` set (endpoints d)"
proof (cases "find (\<lambda>r. ep_url r = url probe) (endpoints d)")
  case None
  then have "url probe \<notin> ep_url ` set (endpoints d)" by (simp add: find_url_None)
  moreover have "i = next_endpoint d" using assms None
    by (auto simp: upsert_rpc_endpoint_def bindE_Inr_iff dest: probe_row_sel)
  ultimately show ?thesis by blast
next
  case (Some old)
  then have "old \<in> set (endpoints d)" "ep_url old = url probe" by (auto simp: find_Some_iff)
  then show ?thesis using assms Some by (auto simp: upsert_rpc_endpoint_def bindE_Inr_iff guardE_Inr_iff)
qed

lemma mark_effect:
  assumes "mark_rpc_endpoint_selected p i probe d = Inr d'" and "endpoint_inv d" and "has_endpoint d i u c"
  shows "endpoint_inv d'" and "sel d' c' v \<longleftrightarrow> sel d c' v \<or> c' = c \<and> v = u"
proof -
  from assms(3) obtain r where r: "r \<in> set (endpoints d)" "ep_id r = i" "ep_url r = u" "ep_chain r = c" "ep_enabled r"
    by (auto simp: has_endpoint_def)
  have "ep_enabled s" if "s \<in> set (endpoints d)" "ep_id s = i" for s
    using row_unique [OF assms(2) that(1) r(1)] that(2) r(2,5) by simp
  then show "endpoint_inv d'" by (rule mark_endpoint_inv [OF assms(1,2)])
  show "sel d' c' v \<longleftrightarrow> sel d c' v \<or> c' = c \<and> v = u" by (rule mark_sel [OF assms(1,2) r(1-4)])
qed

lemma select_effect:
  assumes "select_rpc_endpoint_cursor p c probe reason d = Inr (i, d')" and "endpoint_inv d"
  shows "endpoint_inv d'" and "sel d' c' v \<longleftrightarrow> (if c' = c then v = url probe else sel d c' v)"
proof -
  obtain d1 where up: "upsert_rpc_endpoint p c False probe d = Inr (i, d1)"
    and rest: "current_selected_endpoint_id d1 c = Some i \<Longrightarrow> mark_rpc_endpoint_selected p i probe d1 = Inr d'"
      "current_selected_endpoint_id d1 c \<noteq> Some i \<Longrightarrow>
        \<exists>d2. mark_rpc_endpoint_selected p i probe (clear_selected c d1) = Inr d2 \<and>
          endpoints d' = endpoints d2 \<and> next_endpoint d' = next_endpoint d2"
    using assms(1) by (auto simp: select_rpc_endpoint_cursor_def bindE_Inr_iff split: if_splits dest!: insert_check_endpoints)
  have inv: "endpoint_inv d1" by (rule upsert_endpoint_inv [OF up assms(2)])
  note has = upsert_has_endpoint(1) [OF up]
  have s1: "sel d1 = sel d" by (rule upsert_endpoint_effect(1) [OF up])
  have "endpoint_inv d' \<and> (sel d' c' v \<longleftrightarrow> (if c' = c then v = url probe else sel d c' v))"
  proof (cases "current_selected_endpoint_id d1 c = Some i")
    case True
    from has obtain r where r: "r \<in> set (endpoints d1)" "ep_id r = i" "ep_url r = url probe" "ep_chain r = c"
      by (auto simp: has_endpoint_def)
    with True have "ep_selected r" using current_selected_iff [OF inv r(1,4)] by simp
    with r have "sel d1 c (url probe)" by (auto simp: sel_def)
    then have "sel d1 c w \<Longrightarrow> w = url probe" for w using selected_url_iff [OF inv] by (metis option.inject)
    with \<open>sel d1 c (url probe)\<close> have "sel d1 c v \<longleftrightarrow> v = url probe" by blast
    then show ?thesis unfolding mark_effect(2) [OF rest(1) [OF True] inv has] s1 [symmetric]
      using mark_effect(1) [OF rest(1) [OF True] inv has] by auto
  next
    case False
    then obtain d2 where d2: "mark_rpc_endpoint_selected p i probe (clear_selected c d1) = Inr d2"
      "endpoints d' = endpoints d2" "next_endpoint d' = next_endpoint d2" using rest(2) by blast
    from mark_effect [OF d2(1) clear_selected_inv [OF inv] clear_has_endpoint [OF has]]
    show ?thesis unfolding sel_cong [OF d2(2)] inv_cong [OF d2(2,3)] clear_selected_sel s1 by auto
  qed
  then show "endpoint_inv d'" and "sel d' c' v \<longleftrightarrow> (if c' = c then v = url probe else sel d c' v)" by blast+
qed

lemma runtime_failure_effect:
  assumes "record_rpc_runtime_failure_cursor p c probe reason d = Inr ((i, b), d')" and "endpoint_inv d"
  shows "endpoint_inv d'" and "sel d' c' v \<longleftrightarrow> sel d c' v \<and> \<not> (c' = c \<and> v = url probe)" and "b \<longleftrightarrow> sel d c (url probe)"
proof -
  let ?failed = "probe\<lparr>healthy := False, selected := False, error_message := Some (take 80 reason)\<rparr>"
  obtain d1 latency where up: "upsert_rpc_endpoint p c False ?failed d = Inr (i, d1)"
    and d': "endpoints d' = endpoints (fail_endpoint i (take 80 reason) latency d1)"
      "next_endpoint d' = next_endpoint (fail_endpoint i (take 80 reason) latency d1)"
    and b: "b \<longleftrightarrow> current_selected_endpoint_id d c = Some i"
    using assms(1) by (auto simp: record_rpc_runtime_failure_cursor_def Let_def bindE_Inr_iff dest!: insert_check_endpoints)
  have inv: "endpoint_inv d1" by (rule upsert_endpoint_inv [OF up assms(2)])
  have s1: "sel d1 = sel d" by (rule upsert_endpoint_effect(1) [OF up])
  obtain r where r: "r \<in> set (endpoints d1)" "ep_id r = i" "ep_url r = url probe" "ep_chain r = c"
    using upsert_has_endpoint(1) [OF up] by (auto simp: has_endpoint_def)
  show "endpoint_inv d'" unfolding inv_cong [OF d'] by (rule fail_endpoint_inv [OF inv])
  show "sel d' c' v \<longleftrightarrow> sel d c' v \<and> \<not> (c' = c \<and> v = url probe)"
    unfolding sel_cong [OF d'(1)] using fail_endpoint_sel [OF inv r] s1 by simp
  show "b \<longleftrightarrow> sel d c (url probe)"
    using upsert_endpoint_id [OF up]
  proof
    assume "\<exists>r \<in> set (endpoints d). ep_id r = i \<and> ep_url r = url ?failed \<and> ep_chain r = c"
    then obtain s where s: "s \<in> set (endpoints d)" "ep_id s = i" "ep_url s = url probe" "ep_chain s = c" by auto
    have "t = s" if "t \<in> set (endpoints d)" "ep_url t = url probe" for t
      using url_unique [OF assms(2) that(1) s(1)] that(2) s(3) by simp
    then have "sel d c (url probe) \<longleftrightarrow> ep_selected s" unfolding sel_def using s by blast
    then show ?thesis using current_selected_iff [OF assms(2) s(1,4)] s(2) b by simp
  next
    assume new: "i = next_endpoint d \<and> url ?failed \<notin> ep_url ` set (endpoints d)"
    then have "\<not> sel d c (url probe)" by (auto simp: sel_def image_iff)
    moreover have "current_selected_endpoint_id d c \<noteq> Some i"
    proof
      assume "current_selected_endpoint_id d c = Some i"
      then obtain s where "find (\<lambda>r. ep_chain r = c \<and> ep_selected r) (endpoints d) = Some s" "ep_id s = i"
        by (auto simp: current_selected_endpoint_id_def)
      then have s: "s \<in> set (endpoints d)" "ep_id s = i" by (auto simp: find_Some_iff)
      show False using s(2) eps_okD(3) [OF assms(2) [unfolded endpoint_inv_def] s(1)] new by simp
    qed
    ultimately show ?thesis using b by simp
  qed
qed

lemma probe_upserts:
  assumes "foldE (upsert_probed p c) probes ([], d) = Inr (ids, d')" and "endpoint_inv d"
  shows "endpoint_inv d' \<and> sel d' = sel d \<and> (\<forall>(u, i) \<in> set ids. has_endpoint d' i u c)"
proof -
  let ?P = "\<lambda>(ids, e). endpoint_inv e \<and> sel e = sel d \<and> (\<forall>(u, i) \<in> set ids. has_endpoint e i u c)"
  have "?P (ids, d')"
  proof (rule foldE_invariant [OF assms(1), where P = ?P])
    show "?P ([], d)" using assms(2) by simp
    fix probe s t assume s: "?P s" and step: "upsert_probed p c probe s = Inr t"
    obtain is1 e where se: "s = (is1, e)" by (cases s)
    then obtain i e' where up: "upsert_rpc_endpoint p c False probe e = Inr (i, e')" and t: "t = ((url probe, i) # is1, e')"
      using step by (auto simp: upsert_probed_def bindE_Inr_iff)
    show "?P t" unfolding t
      using s upsert_endpoint_inv [OF up] upsert_endpoint_effect(1) [OF up] upsert_has_endpoint [OF up] by (auto simp: se)
  qed
  then show ?thesis by simp
qed

lemma insert_checks_endpoints:
  assumes "foldE (\<lambda>probe d. bindE (endpoint_id_of ids probe) (\<lambda>i. insert_rpc_endpoint_check p i c probe (reason probe) d)) probes d = Inr d'"
  shows "endpoints d' = endpoints d \<and> next_endpoint d' = next_endpoint d"
  by (rule foldE_invariant [OF assms]) (auto simp: bindE_Inr_iff dest!: insert_check_endpoints)

lemma probe_cycle_effect:
  assumes "record_rpc_probe_cycle_cursor p c probes d = Inr (i, d')" and "endpoint_inv d"
  shows "endpoint_inv d'" and "sel d' c' v \<longleftrightarrow> (if c' \<noteq> c then sel d c' v else case find selected probes of
      None \<Rightarrow> sel d c v \<and> v \<in> url ` set probes | Some s \<Rightarrow> v = url s)"
proof -
  let ?d0 = "disable_unconfigured c (map url probes) d"
  obtain ids d1 sid d2 where up: "foldE (upsert_probed p c) probes ([], ?d0) = Inr (ids, d1)"
    and sid: "(case find selected probes of None \<Rightarrow> Inr None | Some s \<Rightarrow> bindE (endpoint_id_of ids s) (\<lambda>i. Inr (Some i))) = Inr sid"
    and d2: "(case (find selected probes, sid) of
               (Some s, Some i) \<Rightarrow> mark_rpc_endpoint_selected p i s (clear_selected c d1)
             | _ \<Rightarrow> Inr d1) = Inr d2"
    and d': "endpoints d' = endpoints d2" "next_endpoint d' = next_endpoint d2"
    using assms(1) unfolding record_rpc_probe_cycle_cursor_def Let_def
    by (auto simp only: bindE_Inr_iff prod.case prod.inject sum.inject split_paired_Ex dest!: insert_checks_endpoints)
  have none: "find selected probes = None \<Longrightarrow> d2 = d1" using d2 by simp
  have some: "\<exists>j. map_of ids (url s) = Some j \<and> mark_rpc_endpoint_selected p j s (clear_selected c d1) = Inr d2"
    if "find selected probes = Some s" for s
    using sid d2 that by (auto simp: bindE_Inr_iff endpoint_id_of_def split: option.splits)
  note u = probe_upserts [OF up disable_unconfigured_inv [OF assms(2)]]
  have "endpoint_inv d2 \<and> (sel d2 c' v \<longleftrightarrow> (if c' \<noteq> c then sel d c' v else case find selected probes of
      None \<Rightarrow> sel d c v \<and> v \<in> url ` set probes | Some s \<Rightarrow> v = url s))"
  proof (cases "find selected probes")
    case None
    with u none show ?thesis by (auto simp: disable_unconfigured_sel)
  next
    case (Some s)
    then obtain j where j: "map_of ids (url s) = Some j" "mark_rpc_endpoint_selected p j s (clear_selected c d1) = Inr d2"
      using some by blast
    have has: "has_endpoint d1 j (url s) c" using u map_of_SomeD [OF j(1)] by blast
    have inv: "endpoint_inv d1" using u by blast
    note m = mark_effect [OF j(2) clear_selected_inv [OF inv] clear_has_endpoint [OF has]]
    show ?thesis unfolding m(2) clear_selected_sel using m(1) u Some by (auto simp: disable_unconfigured_sel)
  qed
  then show "endpoint_inv d'" and "sel d' c' v \<longleftrightarrow> (if c' \<noteq> c then sel d c' v else case find selected probes of
      None \<Rightarrow> sel d c v \<and> v \<in> url ` set probes | Some s \<Rightarrow> v = url s)"
    unfolding sel_cong [OF d'(1)] inv_cong [OF d'] by blast+
qed

text \<open>The selection of a database in which the invariant holds is determined by \<open>sel\<close>.\<close>

lemma selection_eq:
  assumes "endpoint_inv d" and "\<And>c u. sel d c u \<longleftrightarrow> m c = Some u"
  shows "get_selected_rpc_url d = m"
proof
  fix c
  show "get_selected_rpc_url d c = m c"
    using selected_url_iff [OF assms(1), of c] assms(2) [of c] by (cases "m c"; cases "get_selected_rpc_url d c") auto
qed

section \<open>A selection never fails half way\<close>

text \<open>An update of a row with the columns of an accepted probe is accepted.\<close>

lemma check_observed_table: "check_observed t h l = Inr () \<longleftrightarrow> check_observed t' h l = Inr ()"
  by (simp add: check_observed_def res_simps)

lemma check_endpoint_observe:
  assumes "check_endpoint new = Inr ()" and "ep_url old = ep_url new"
  shows "check_endpoint ((observe new old)\<lparr>ep_selected := b\<rparr>) = Inr ()"
  using assms by (simp add: check_endpoint_def observe_def)

lemma upsert_endpoint_probe:
  assumes "upsert_rpc_endpoint p c False probe d = Inr (i, d')"
  obtains new where "probe_row p (next_endpoint d) c False probe = Inr new" "check_endpoint new = Inr ()"
  using assms by (auto simp: upsert_rpc_endpoint_def Let_def bindE_Inr_iff)

lemma mark_total:
  assumes "endpoint_inv d" and has: "has_endpoint d i (url probe) c" and free: "\<And>v. sel d c v \<Longrightarrow> v = url probe"
    and new: "probe_row p j c b probe = Inr new" "check_endpoint new = Inr ()"
  shows "\<exists>d'. mark_rpc_endpoint_selected p i probe d = Inr d'"
proof -
  from has obtain r where r: "r \<in> set (endpoints d)" "ep_id r = i" "ep_url r = url probe" "ep_chain r = c"
    by (auto simp: has_endpoint_def)
  have find: "find (\<lambda>r. ep_id r = i) (endpoints d) = Some r"
    using r row_unique [OF assms(1)] by (cases "find (\<lambda>r. ep_id r = i) (endpoints d)") (auto simp: find_None_iff find_Some_iff)
  obtain new' where new': "probe_row p i c True probe = Inr new'" "observe new' r = observe new r"
    using new(1) by (auto simp: probe_row_def bindE_Inr_iff observe_def)
  let ?row = "(observe new r)\<lparr>ep_selected := True\<rparr>"
  have "check_endpoint ?row = Inr ()"
    using new(2) probe_row_sel(2) [OF new(1)] r(3) by (intro check_endpoint_observe) simp_all
  moreover have "\<not> (ep_id s \<noteq> i \<and> ep_selected s \<and> ep_chain s = c)" if "s \<in> set (endpoints d)" for s
  proof
    assume s: "ep_id s \<noteq> i \<and> ep_selected s \<and> ep_chain s = c"
    with that have "ep_url s = url probe" using free unfolding sel_def by blast
    with s show False using url_unique [OF assms(1) that r(1)] r by simp
  qed
  then have "one_selected ?row (endpoints d) = Inr ()"
    using r(2,4) by (auto simp: one_selected_def binding_Inr list_ex_iff)
  ultimately show ?thesis using find new' r(4) by (simp add: mark_rpc_endpoint_selected_def Let_def)
qed

lemma mark_keeps_ids:
  assumes "mark_rpc_endpoint_selected p i probe d = Inr d'"
  shows "ep_id ` set (endpoints d') = ep_id ` set (endpoints d)"
proof (cases "find (\<lambda>r. ep_id r = i) (endpoints d)")
  case (Some old)
  then have "ep_id old = i" by (auto simp: find_Some_iff)
  with assms Some have "map ep_id (endpoints d') = map ep_id (endpoints d)"
    by (auto simp: mark_rpc_endpoint_selected_def Let_def bindE_Inr_iff)
  then show ?thesis by (metis set_map)
qed (use assms in \<open>simp add: mark_rpc_endpoint_selected_def\<close>)

lemma insert_check_total:
  assumes "probe_row p j c b probe = Inr new" and "check_endpoint new = Inr ()" and "i \<in> ep_id ` set (endpoints d)"
  shows "\<exists>d'. insert_rpc_endpoint_check p i c (probe\<lparr>selected := x\<rparr>) reason d = Inr d'"
proof -
  obtain catching where "bind_bool p (catching_up probe) = Inr catching" "ep_height new = latest_height probe" "ep_lag new = observed_lag probe"
    using assms(1) by (auto simp: probe_row_def bindE_Inr_iff)
  moreover from this have "check_observed ''rpc_endpoint_checks'' (latest_height probe) (observed_lag probe) = Inr ()"
    using assms(2) check_observed_table by (fastforce simp: check_endpoint_def bindE_Inr_iff)
  ultimately show ?thesis using assms(3) by (simp add: insert_rpc_endpoint_check_def constraint_def)
qed

lemma select_total:
  assumes "upsert_rpc_endpoint p c False probe d = Inr (i, d1)" and "endpoint_inv d"
  shows "\<exists>d'. select_rpc_endpoint_cursor p c probe reason d = Inr (i, d')"
proof -
  have inv: "endpoint_inv d1" by (rule upsert_endpoint_inv [OF assms])
  note has = upsert_has_endpoint(1) [OF assms(1)]
  obtain new where new: "probe_row p (next_endpoint d) c False probe = Inr new" "check_endpoint new = Inr ()"
    by (rule upsert_endpoint_probe [OF assms(1)])
  show ?thesis
  proof (cases "current_selected_endpoint_id d1 c = Some i")
    case True
    from has obtain r where r: "r \<in> set (endpoints d1)" "ep_id r = i" "ep_url r = url probe" "ep_chain r = c"
      by (auto simp: has_endpoint_def)
    with True have "ep_selected r" using current_selected_iff [OF inv r(1,4)] by simp
    with r have "sel d1 c (url probe)" by (auto simp: sel_def)
    then have "v = url probe" if "sel d1 c v" for v using selected_url_iff [OF inv] that by (metis option.inject)
    from mark_total [OF inv has this new] True assms(1) show ?thesis by (auto simp: select_rpc_endpoint_cursor_def)
  next
    case False
    have "\<not> sel (clear_selected c d1) c v" for v by (simp add: clear_selected_sel)
    then obtain d2 where d2: "mark_rpc_endpoint_selected p i probe (clear_selected c d1) = Inr d2"
      using mark_total [OF clear_selected_inv [OF inv] clear_has_endpoint [OF has] _ new] by blast
    have "i \<in> ep_id ` set (endpoints d2)"
      using clear_has_endpoint [OF has, of c] unfolding mark_keeps_ids [OF d2] has_endpoint_def by blast
    from insert_check_total [OF new this, of True "Some (take 80 reason)"] d2 False assms(1)
    show ?thesis by (auto simp: select_rpc_endpoint_cursor_def)
  qed
qed

section \<open>Reachable databases\<close>

text \<open>The transactions of the indexer: a height, a probe cycle, a selection, a runtime failure.\<close>

inductive db_step :: "pg \<Rightarrow> db \<Rightarrow> db \<Rightarrow> bool" for p :: pg where
  write_height: "write_height_cursor p ph c tip e d = Inr d' \<Longrightarrow> db_step p d d'"
| probe_cycle: "record_rpc_probe_cycle_cursor p c probes d = Inr (i, d') \<Longrightarrow> db_step p d d'"
| select_endpoint: "select_rpc_endpoint_cursor p c probe reason d = Inr (j, d') \<Longrightarrow> db_step p d d'"
| runtime_failure: "record_rpc_runtime_failure_cursor p c probe reason d = Inr (jb, d') \<Longrightarrow> db_step p d d'"

inductive_cases db_stepE: "db_step p d d'"

lemma write_endpoints:
  assumes "write_height_cursor p ph c tip e d = Inr d'"
  shows "endpoints d' = endpoints d" "next_endpoint d' = next_endpoint d"
  using assms
  by (auto elim!: write_height_run dest!: upsert_block_fields upsert_transactions_fields replace_calls_fields
      upsert_realm_catalog_fields call_coverage_fields activity_coverage_fields upsert_validators_fields
      upsert_signatures_fields advance_checkpoint_fields)

lemma db_step_inv: "db_step p d d' \<Longrightarrow> endpoint_inv d \<Longrightarrow> endpoint_inv d'"
proof (erule db_stepE)
  fix ph c tip e
  assume "write_height_cursor p ph c tip e d = Inr d'" and "endpoint_inv d"
  then show "endpoint_inv d'" using inv_cong [OF write_endpoints] by blast
next
  fix c probe reason jb
  assume "record_rpc_runtime_failure_cursor p c probe reason d = Inr (jb, d')" and "endpoint_inv d"
  then show "endpoint_inv d'" by (cases jb) (auto dest: runtime_failure_effect(1))
qed (blast intro: probe_cycle_effect(1) select_effect(1))+

lemma empty_db_endpoints: "endpoint_inv empty_db"
  by (simp add: endpoint_inv_def eps_ok_def empty_db_def)

interpretation endpoint_table: inductive_invariant "\<lambda>d. d = empty_db" "db_step p" endpoint_inv for p
  by unfold_locales (auto intro: empty_db_endpoints db_step_inv)

section \<open>Endpoint bookkeeping leaves the chain alone\<close>

definition chain_part :: "db \<Rightarrow> db" where
  "chain_part d = d\<lparr>endpoints := [], endpoint_checks := [], next_endpoint := 0\<rparr>"

lemma chain_part_simps [simp]:
  "chain_part (d\<lparr>endpoints := x\<rparr>) = chain_part d" "chain_part (d\<lparr>endpoint_checks := y\<rparr>) = chain_part d"
  "chain_part (d\<lparr>next_endpoint := n\<rparr>) = chain_part d"
  by (simp_all add: chain_part_def)

lemma chain_part_ops:
  "upsert_rpc_endpoint p c b probe d = Inr (i, d') \<Longrightarrow> chain_part d' = chain_part d"
  "mark_rpc_endpoint_selected p i probe d = Inr d' \<Longrightarrow> chain_part d' = chain_part d"
  "insert_rpc_endpoint_check p i c probe reason d = Inr d' \<Longrightarrow> chain_part d' = chain_part d"
  "chain_part (clear_selected c d) = chain_part d"
  "chain_part (disable_unconfigured c us d) = chain_part d"
  "chain_part (fail_endpoint i reason2 latency d) = chain_part d"
  by (auto simp: upsert_rpc_endpoint_def mark_rpc_endpoint_selected_def insert_rpc_endpoint_check_def Let_def bindE_Inr_iff
      clear_selected_def disable_unconfigured_def fail_endpoint_def split: option.splits)

lemma select_chain_part: "select_rpc_endpoint_cursor p c probe reason d = Inr (i, d') \<Longrightarrow> chain_part d' = chain_part d"
  by (auto simp: select_rpc_endpoint_cursor_def bindE_Inr_iff chain_part_ops split: if_splits dest!: chain_part_ops(1-3))

lemma failure_chain_part: "record_rpc_runtime_failure_cursor p c probe reason d = Inr (ib, d') \<Longrightarrow> chain_part d' = chain_part d"
  by (auto simp: record_rpc_runtime_failure_cursor_def Let_def bindE_Inr_iff chain_part_ops dest!: chain_part_ops(1-3))

lemma probe_cycle_chain_part:
  assumes "record_rpc_probe_cycle_cursor p c probes d = Inr (i, d')"
  shows "chain_part d' = chain_part d"
proof -
  let ?d0 = "disable_unconfigured c (map url probes) d"
  obtain ids d1 sid d2 reason where up: "foldE (upsert_probed p c) probes ([], ?d0) = Inr (ids, d1)"
    and d2: "(case (find selected probes, sid) of
               (Some s, Some i) \<Rightarrow> mark_rpc_endpoint_selected p i s (clear_selected c d1)
             | _ \<Rightarrow> Inr d1) = Inr d2"
    and d': "foldE (\<lambda>probe d. bindE (endpoint_id_of ids probe) (\<lambda>i.
               insert_rpc_endpoint_check p i c probe (if selected probe then reason else None) d)) probes d2 = Inr d'"
    using assms unfolding record_rpc_probe_cycle_cursor_def Let_def
    by (auto simp only: bindE_Inr_iff prod.case prod.inject sum.inject split_paired_Ex)
  have "chain_part (snd (ids, d1)) = chain_part (snd ([] :: (string \<times> int) list, ?d0))"
    by (rule foldE_proj [OF up]) (auto simp: upsert_probed_def bindE_Inr_iff dest: chain_part_ops(1))
  moreover have "chain_part d2 = chain_part d1" using d2 by (auto simp: chain_part_ops split: option.splits dest: chain_part_ops(2))
  moreover have "chain_part d' = chain_part d2"
    by (rule foldE_proj [OF d']) (auto simp: bindE_Inr_iff dest: chain_part_ops(3))
  ultimately show ?thesis by (simp add: chain_part_ops)
qed

lemma chain_part_fields:
  assumes "chain_part d' = chain_part d"
  shows "blocks d' = blocks d" "indexer_state d' = indexer_state d" "transactions d' = transactions d"
    "results d' = results d" "validators d' = validators d" "members d' = members d" "signatures d' = signatures d"
  using assms by (simp_all add: chain_part_def) (cases d; cases d'; simp)+

lemma chain_part_finalized: "chain_part d' = chain_part d \<Longrightarrow> finalized_le d d'"
  using chain_part_fields [of d' d] by (simp add: finalized_le_def)

lemma db_step_finalized: "db_step p d d' \<Longrightarrow> finalized_le d d'"
  by (erule db_stepE)
    (auto intro: write_height_finalized chain_part_finalized select_chain_part probe_cycle_chain_part failure_chain_part)

lemma db_steps_finalized: "(db_step p)\<^sup>*\<^sup>* d d' \<Longrightarrow> finalized_le d d'"
  by (induction rule: rtranclp_induct) (auto intro: finalized.le_refl finalized.le_trans db_step_finalized)

section \<open>Properties\<close>

text \<open>C10: in every database the indexer can reach by its transactions, at most one endpoint of a chain is
  selected, ids and URLs are unique, and the selected endpoint is enabled, so that the persisted selection read
  at start is the selected row.\<close>

theorem one_selected_endpoint:
  assumes "(db_step p)\<^sup>*\<^sup>* empty_db d" and "r \<in> set (endpoints d)" and "ep_selected r"
  shows "get_selected_rpc_url d (ep_chain r) = Some (ep_url r) \<and>
    (\<forall>s \<in> set (endpoints d). ep_selected s \<and> ep_chain s = ep_chain r \<or> ep_url s = ep_url r \<or> ep_id s = ep_id r \<longrightarrow> s = r)"
proof -
  have inv: "endpoint_inv d" using endpoint_table.reachable_inv assms(1) by blast
  note D = eps_okD [OF inv [unfolded endpoint_inv_def]]
  have "s = r" if s: "s \<in> set (endpoints d)" "ep_selected s \<and> ep_chain s = ep_chain r \<or> ep_url s = ep_url r \<or> ep_id s = ep_id r" for s
    using s(2)
  proof (elim disjE)
    assume "ep_selected s \<and> ep_chain s = ep_chain r"
    then have "ep_id s = ep_id r" using D(5) [OF s(1) assms(2)] assms(3) by simp
    then show ?thesis by (rule row_unique [OF inv s(1) assms(2)])
  qed (auto intro: url_unique [OF inv s(1) assms(2)] row_unique [OF inv s(1) assms(2)])
  moreover have "sel d (ep_chain r) (ep_url r)" using assms(2,3) by (auto simp: sel_def)
  ultimately show ?thesis using selected_url_iff [OF inv] by blast
qed

text \<open>selecting an endpoint refines an update of the map from chains to selected URLs, and it always succeeds once
  the endpoint's row is accepted: the partial unique index is never violated, because the old selection is cleared
  first.\<close>

theorem select_endpoint_refines:
  assumes "endpoint_inv d" and "upsert_rpc_endpoint p c False probe d = Inr (i, d1)"
  shows "\<exists>d'. select_rpc_endpoint_cursor p c probe reason d = Inr (i, d') \<and> endpoint_inv d' \<and>
    get_selected_rpc_url d' = (get_selected_rpc_url d)(c \<mapsto> url probe)"
proof -
  obtain d' where d': "select_rpc_endpoint_cursor p c probe reason d = Inr (i, d')" using select_total [OF assms(2,1)] by blast
  note e = select_effect [OF d' assms(1)]
  have "get_selected_rpc_url d' = (get_selected_rpc_url d)(c \<mapsto> url probe)"
    by (rule selection_eq [OF e(1)]) (auto simp: e(2) selected_url_iff [OF assms(1)])
  with d' e(1) show ?thesis by blast
qed

text \<open>recording a runtime failure takes the failing endpoint out of the selection and leaves every other selection
  alone; the returned flag says whether it was the selected one, which is when the process forgets its endpoint id.\<close>

theorem runtime_failure_refines:
  assumes "endpoint_inv d" and "record_rpc_runtime_failure_cursor p c probe reason d = Inr ((i, was_selected), d')"
  shows "endpoint_inv d' \<and> was_selected = (get_selected_rpc_url d c = Some (url probe)) \<and>
    get_selected_rpc_url d' = (if was_selected then (get_selected_rpc_url d)(c := None) else get_selected_rpc_url d)"
proof -
  note e = runtime_failure_effect [OF assms(2,1)]
  have "get_selected_rpc_url d' = (if was_selected then (get_selected_rpc_url d)(c := None) else get_selected_rpc_url d)"
    by (rule selection_eq [OF e(1)]) (use e(3) in \<open>auto simp: e(2) selected_url_iff [OF assms(1), symmetric]\<close>)
  with e(1,3) show ?thesis by (simp add: selected_url_iff [OF assms(1)])
qed

text \<open>C11: a probe cycle keeps the selection of every other chain; for its own chain it selects the selected probe when
  there is one, and otherwise keeps the old selection exactly if it is still configured.\<close>

theorem probe_cycle_refines:
  assumes "endpoint_inv d" and "record_rpc_probe_cycle_cursor p c probes d = Inr (i, d')"
  shows "endpoint_inv d' \<and> get_selected_rpc_url d' = (get_selected_rpc_url d)(c := (case find selected probes of
      Some s \<Rightarrow> Some (url s)
    | None \<Rightarrow> (case get_selected_rpc_url d c of Some u \<Rightarrow> if u \<in> url ` set probes then Some u else None | None \<Rightarrow> None)))"
proof -
  note e = probe_cycle_effect [OF assms(2,1)]
  have "get_selected_rpc_url d' = (get_selected_rpc_url d)(c := (case find selected probes of
      Some s \<Rightarrow> Some (url s)
    | None \<Rightarrow> (case get_selected_rpc_url d c of Some u \<Rightarrow> if u \<in> url ` set probes then Some u else None | None \<Rightarrow> None)))"
    by (rule selection_eq [OF e(1)]) (auto simp: e(2) selected_url_iff [OF assms(1), symmetric] split: option.splits)
  with e(1) show ?thesis by blast
qed

text \<open>a stored latency is between 0 and 30000 milliseconds, as the column's CHECK demands; a duration whose
  product with 1000 is no longer finite has no latency but an \<open>OverflowError\<close>.\<close>

theorem latency_bounded:
  "case response_seconds_to_latency_ms v of Inr (Some ms) \<Rightarrow> 0 \<le> ms \<and> ms \<le> 30000 | Inr None \<Rightarrow> True | Inl e \<Rightarrow> e = OverflowError"
proof (cases "\<exists>seconds \<ge> 0. v = Some (Fin seconds)")
  case True
  then obtain seconds where v: "v = Some (Fin seconds)" "0 \<le> seconds" by blast
  consider "rnd (seconds * 1000) = PInf" | ms where "0 \<le> ms" "rnd (seconds * 1000) = Fin ms"
    using rnd_nonneg [of "seconds * 1000"] v(2) by auto
  then show ?thesis
  proof cases
    case 2
    then show ?thesis using rnd_nonneg [of "ms + 1 / 2"] v by (auto simp: response_seconds_to_latency_ms_def)
  qed (use v in \<open>simp add: response_seconds_to_latency_ms_def\<close>)
next
  case False
  then have "response_seconds_to_latency_ms v = Inr None"
    by (auto simp: response_seconds_to_latency_ms_def split: option.splits pyfloat.splits)
  then show ?thesis by simp
qed

text \<open>one configured endpoint that reports a negative height makes every probe cycle fail: no probe of the cycle is
  recorded, whatever the other endpoints answered.\<close>

theorem negative_height_blocks_cycle:
  assumes "probe \<in> set probes" and "latest_height probe = Some h" and "h < 0"
  shows "record_rpc_probe_cycle_cursor p c probes d \<noteq> Inr x"
proof
  assume "record_rpc_probe_cycle_cursor p c probes d = Inr x"
  then obtain s t where "foldE (upsert_probed p c) probes s = Inr t"
    by (auto simp: record_rpc_probe_cycle_cursor_def Let_def bindE_Inr_iff)
  then obtain u v where "upsert_probed p c probe u = Inr v" using foldE_Inr_in assms(1) by metis
  then obtain e i e' where "upsert_rpc_endpoint p c False probe e = Inr (i, e')"
    by (auto simp: upsert_probed_def bindE_Inr_iff split: prod.splits)
  then obtain new where "probe_row p (next_endpoint e) c False probe = Inr new" and check: "check_endpoint new = Inr ()"
    by (rule upsert_endpoint_probe)
  then have "ep_height new = Some h" using assms(2) by (auto simp: probe_row_def bindE_Inr_iff)
  with check assms(3) show False by (simp add: check_endpoint_def check_observed_def res_simps opt_check_def)
qed

section \<open>A first selection\<close>

text \<open>The endpoint of the demonstration cycle, without a measured duration.\<close>

definition sample_probe :: rpc_probe where
  "sample_probe = demo_probe\<lparr>response_seconds := None\<rparr>"

definition sample_endpoint :: endpoint_row where
  "sample_endpoint = \<lparr>ep_id = 1, ep_url = ''http://a'', ep_chain = ''pearl-1'', ep_enabled = True, ep_selected = False,
     ep_height = Some 42, ep_lag = Some 0, ep_catching_up = Some False, ep_healthy = True, ep_error = None, ep_latency = None\<rparr>"

lemma sample_endpoint_ok: "check_endpoint sample_endpoint = Inr ()"
proof -
  have "\<not> list_ex (contains_str (py_lower ''http://a'')) secret_params" by code_simp
  then show ?thesis
    by (simp add: sample_endpoint_def check_endpoint_def check_observed_def in_range_def constraint_def opt_check_def int8_def)
qed

lemma sample_probe_row: "probe_row sample_pg 1 ''pearl-1'' False sample_probe = Inr sample_endpoint"
  by (simp add: probe_row_def sample_probe_def demo_probe_def sample_pg_def response_seconds_to_latency_ms_def sample_endpoint_def)

lemma sample_upsert:
  "upsert_rpc_endpoint sample_pg ''pearl-1'' False sample_probe empty_db =
     Inr (1, empty_db\<lparr>endpoints := [sample_endpoint], next_endpoint := 2\<rparr>)"
  using sample_probe_row sample_endpoint_ok
  by (simp add: upsert_rpc_endpoint_def empty_db_def one_selected_def constraint_def sample_endpoint_def)

lemma sample_reachable:
  obtains d where "(db_step sample_pg)\<^sup>*\<^sup>* empty_db d" "endpoint_inv d" "get_selected_rpc_url d ''pearl-1'' = Some ''http://a''"
proof -
  obtain d where d: "select_rpc_endpoint_cursor sample_pg ''pearl-1'' sample_probe ''initial_selection'' empty_db = Inr (1, d)"
    using select_total [OF sample_upsert empty_db_endpoints] by blast
  note e = select_effect [OF d empty_db_endpoints]
  have "sel d ''pearl-1'' ''http://a''" by (simp add: e(2) sample_probe_def demo_probe_def)
  then have "get_selected_rpc_url d ''pearl-1'' = Some ''http://a''" by (simp add: selected_url_iff [OF e(1)])
  moreover have "(db_step sample_pg)\<^sup>*\<^sup>* empty_db d" using db_step.select_endpoint [OF d] by blast
  ultimately show ?thesis using e(1) that by blast
qed

theorem one_selected_endpoint_witness:
  "\<exists>d r. (db_step sample_pg)\<^sup>*\<^sup>* empty_db d \<and> r \<in> set (endpoints d) \<and> get_selected_rpc_url d (ep_chain r) = Some ''http://a''"
proof (rule sample_reachable)
  fix d assume d: "(db_step sample_pg)\<^sup>*\<^sup>* empty_db d" "endpoint_inv d" "get_selected_rpc_url d ''pearl-1'' = Some ''http://a''"
  then obtain r where r: "r \<in> set (endpoints d)" "ep_selected r" "ep_url r = ''http://a''"
    by (auto simp: selected_url_iff sel_def)
  have "get_selected_rpc_url d (ep_chain r) = Some (ep_url r)" using one_selected_endpoint [OF d(1) r(1,2)] by (rule conjunct1)
  with d(1) r(1,3) show ?thesis by metis
qed

theorem select_endpoint_refines_witness:
  "\<exists>d'. select_rpc_endpoint_cursor sample_pg ''pearl-1'' sample_probe ''initial_selection'' empty_db = Inr (1, d') \<and>
     get_selected_rpc_url d' ''pearl-1'' = Some ''http://a''"
  using select_endpoint_refines [OF empty_db_endpoints sample_upsert, of "''initial_selection''"]
  by (auto simp: sample_probe_def demo_probe_def)

lemma sample_failure:
  "\<exists>d'. record_rpc_runtime_failure_cursor sample_pg ''pearl-1'' sample_probe reason empty_db = Inr ((1, False), d')"
proof -
  let ?failed = "sample_probe\<lparr>healthy := False, selected := False, error_message := Some (take 80 reason)\<rparr>"
  let ?row = "sample_endpoint\<lparr>ep_healthy := False, ep_error := Some (take 80 reason)\<rparr>"
  have "probe_row sample_pg 1 ''pearl-1'' False ?failed = Inr ?row"
    by (simp add: probe_row_def sample_probe_def demo_probe_def sample_pg_def sample_endpoint_def
        response_seconds_to_latency_ms_def)
  moreover have "check_endpoint ?row = Inr ()" using sample_endpoint_ok by (simp add: check_endpoint_def)
  moreover have "url ?failed = ''http://a''" by (simp add: sample_probe_def demo_probe_def)
  ultimately have "upsert_rpc_endpoint sample_pg ''pearl-1'' False ?failed empty_db =
      Inr (1, empty_db\<lparr>endpoints := [?row], next_endpoint := 2\<rparr>)"
    by (simp add: upsert_rpc_endpoint_def empty_db_def one_selected_def constraint_def sample_endpoint_def)
  then show ?thesis
    by (simp add: record_rpc_runtime_failure_cursor_def insert_rpc_endpoint_check_def sample_probe_def demo_probe_def
        sample_pg_def response_seconds_to_latency_ms_def check_observed_def in_range_def constraint_def opt_check_def int8_def
        fail_endpoint_def sample_endpoint_def current_selected_endpoint_id_def empty_db_def)
qed

theorem runtime_failure_refines_witness:
  "\<exists>d'. record_rpc_runtime_failure_cursor sample_pg ''pearl-1'' sample_probe ''timeout'' empty_db = Inr ((1, False), d') \<and>
     get_selected_rpc_url d' = get_selected_rpc_url empty_db"
proof -
  obtain d' where d': "record_rpc_runtime_failure_cursor sample_pg ''pearl-1'' sample_probe ''timeout'' empty_db = Inr ((1, False), d')"
    using sample_failure by blast
  with runtime_failure_refines [OF empty_db_endpoints d'] show ?thesis by auto
qed

lemma sample_cycle:
  "\<exists>i d'. record_rpc_probe_cycle_cursor sample_pg ''pearl-1'' [sample_probe] empty_db = Inr (i, d')"
proof -
  let ?d1 = "empty_db\<lparr>endpoints := [sample_endpoint], next_endpoint := 2\<rparr>"
  have inv: "endpoint_inv ?d1" by (rule upsert_endpoint_inv [OF sample_upsert empty_db_endpoints])
  have url: "url sample_probe = ''http://a''" "selected sample_probe" by (simp_all add: sample_probe_def demo_probe_def)
  have "has_endpoint (clear_selected ''pearl-1'' ?d1) 1 (url sample_probe) ''pearl-1''"
    by (rule clear_has_endpoint [OF upsert_has_endpoint(1) [OF sample_upsert]])
  then obtain d2 where d2: "mark_rpc_endpoint_selected sample_pg 1 sample_probe (clear_selected ''pearl-1'' ?d1) = Inr d2"
    using mark_total [OF clear_selected_inv [OF inv] _ _ sample_probe_row sample_endpoint_ok] by (auto simp: clear_selected_sel)
  have "1 \<in> ep_id ` set (endpoints d2)"
    unfolding mark_keeps_ids [OF d2] by (simp add: clear_selected_def sample_endpoint_def)
  then obtain d3 where "insert_rpc_endpoint_check sample_pg 1 ''pearl-1'' sample_probe None d2 = Inr d3"
    using insert_check_total [OF sample_probe_row sample_endpoint_ok, of 1 d2 True None] by (auto simp: sample_probe_def demo_probe_def)
  moreover have "disable_unconfigured ''pearl-1'' [''http://a''] empty_db = empty_db"
    "current_selected_endpoint_id empty_db ''pearl-1'' = None"
    by (simp_all add: disable_unconfigured_def current_selected_endpoint_id_def empty_db_def)
  ultimately show ?thesis using sample_upsert d2 url
    by (simp add: record_rpc_probe_cycle_cursor_def upsert_probed_def endpoint_id_of_def)
qed

theorem probe_cycle_refines_witness:
  "\<exists>i d'. record_rpc_probe_cycle_cursor sample_pg ''pearl-1'' [sample_probe] empty_db = Inr (i, d') \<and>
     get_selected_rpc_url d' ''pearl-1'' = Some ''http://a''"
proof -
  obtain i d' where d': "record_rpc_probe_cycle_cursor sample_pg ''pearl-1'' [sample_probe] empty_db = Inr (i, d')"
    using sample_cycle by blast
  with probe_cycle_refines [OF empty_db_endpoints d'] show ?thesis by (auto simp: sample_probe_def demo_probe_def)
qed

theorem negative_height_blocks_cycle_witness:
  "\<nexists>x. record_rpc_probe_cycle_cursor sample_pg ''pearl-1'' [sample_probe, sample_probe\<lparr>latest_height := Some (- 1)\<rparr>] empty_db = Inr x"
  using negative_height_blocks_cycle [of "sample_probe\<lparr>latest_height := Some (- 1)\<rparr>"
      "[sample_probe, sample_probe\<lparr>latest_height := Some (- 1)\<rparr>]" "- 1"] by simp

end
