(* ===== verification/Db_Reprocess.thy ===== *)
theory Db_Reprocess
  imports Db_Finalized
begin

text \<open>
  Reprocessing a height: writing the same parsed height again is accepted and changes nothing.
  Every loop of the write settles (\<open>settling\<close>): a step that has run leaves its item in a state
  the same step does not change.
\<close>

section \<open>Tables\<close>

lemma update_fix_iff: "AList.update k v t = t \<longleftrightarrow> map_of t k = Some v"
proof
  assume "AList.update k v t = t"
  then show "map_of t k = Some v" by (metis update_conv' fun_upd_same)
next
  assume "map_of t k = Some v"
  then show "AList.update k v t = t" by (induction t) (auto split: if_splits)
qed

lemma upsert_fix_iff: "upsert k new upd t = t \<longleftrightarrow> (\<exists>old. map_of t k = Some old \<and> upd old = old)"
proof (cases "map_of t k")
  case None
  then show ?thesis by (auto simp: upsert_def update_fix_iff)
next
  case (Some old)
  then show ?thesis by (auto simp: upsert_def update_fix_iff)
qed

section \<open>Transactions\<close>

definition tx_settled :: "pg \<Rightarrow> int \<Rightarrow> parsed_tx \<Rightarrow> db \<Rightarrow> bool" where
  "tx_settled p h t s \<longleftrightarrow> (\<exists>row rows old. bound_tx p t = Inr row \<and> map_of (blocks s) h \<noteq> None \<and>
     foldE (insert_participant h) (extract_transaction_participants (summary_json (summary_param t))) [] = Inr rows \<and>
     map_of (transactions s) (h, tx_index t) = Some old \<and> tr_summary old = tr_summary row \<and>
     map_of (participants s) (h, tx_index t) = Some rows)"

lemma tx_fix: "tx_settled p h t s \<Longrightarrow> upsert_transaction p h t s = Inr s"
  by (auto simp: tx_settled_def upsert_transaction_def constraint_def update_fix_iff upsert_fix_iff)

lemma tx_settle: "upsert_transaction p h t s = Inr u \<Longrightarrow> tx_settled p h t u"
  by (auto simp: tx_settled_def upsert_transaction_def res_simps map_of_upsert update_conv' split: option.splits)

lemma tx_fix_iff: "upsert_transaction p h t s = Inr s \<longleftrightarrow> tx_settled p h t s"
  using tx_fix tx_settle by blast

interpretation tx_loop: settling "upsert_transaction p h" tx_index "\<lambda>_. True" for p h
proof
  show "upsert_transaction p h x t = Inr t" if "upsert_transaction p h x s = Inr t" for x s t
    using that tx_fix tx_settle by blast
  show "upsert_transaction p h x t = Inr t"
    if "tx_index x \<noteq> tx_index y" "upsert_transaction p h x s = Inr s" "upsert_transaction p h y s = Inr t" for x y s t
  proof (rule tx_fix)
    have "map_of (blocks t) h = map_of (blocks s) h" "map_of (transactions t) (h, tx_index x) = map_of (transactions s) (h, tx_index x)"
      "map_of (participants t) (h, tx_index x) = map_of (participants s) (h, tx_index x)"
      using that(1,3) by (auto simp: upsert_transaction_def Let_def res_simps map_of_upsert update_conv')
    with that(2) show "tx_settled p h x t" by (simp add: tx_fix_iff tx_settled_def)
  qed
qed

section \<open>Results and votes\<close>

definition result_settled :: "pg \<Rightarrow> int \<Rightarrow> int option \<Rightarrow> execution_result \<Rightarrow> db \<Rightarrow> bool" where
  "result_settled p h e r s \<longleftrightarrow> (\<exists>row. bound_result p e r = Inr row) \<and> map_of (results s) (h, er_tx_index r) \<noteq> None"

lemma result_fix: "result_settled p h e r s \<Longrightarrow> upsert_result p h e r s = Inr s"
  by (auto simp: result_settled_def upsert_result_def)

lemma result_settle: "upsert_result p h e r s = Inr u \<Longrightarrow> result_settled p h e r u"
  by (cases "map_of (results s) (h, er_tx_index r)") (auto simp: result_settled_def upsert_result_def res_simps update_conv')

interpretation result_loop: settling "upsert_result p h e" er_tx_index "\<lambda>_. True" for p h e
proof
  show "upsert_result p h e x t = Inr t" if "upsert_result p h e x s = Inr t" for x s t
    using that result_fix result_settle by blast
  show "upsert_result p h e x t = Inr t"
    if "er_tx_index x \<noteq> er_tx_index y" "upsert_result p h e x s = Inr s" "upsert_result p h e y s = Inr t" for x y s t
  proof (rule result_fix)
    have "map_of (results t) (h, er_tx_index x) = map_of (results s) (h, er_tx_index x)"
      using that(1,3) by (auto simp: upsert_result_def res_simps update_conv' split: option.splits)
    with result_settle [OF that(2)] show "result_settled p h e x t" by (simp add: result_settled_def)
  qed
qed

definition sig_settled :: "pg \<Rightarrow> int \<Rightarrow> vote_record \<Rightarrow> db \<Rightarrow> bool" where
  "sig_settled p h x s \<longleftrightarrow> (\<exists>a row. bound_signature p x = Inr (a, row) \<and> map_of (signatures s) (h, a) \<noteq> None)"

lemma sig_fix: "sig_settled p h x s \<Longrightarrow> upsert_signature p h x s = Inr s"
  by (auto simp: sig_settled_def upsert_signature_def)

lemma sig_settle: "upsert_signature p h x s = Inr u \<Longrightarrow> sig_settled p h x u"
proof -
  assume u: "upsert_signature p h x s = Inr u"
  then obtain a row where "bound_signature p x = Inr (a, row)" by (auto simp: upsert_signature_def res_simps)
  with u show ?thesis
    by (cases "map_of (signatures s) (h, a)") (auto simp: sig_settled_def upsert_signature_def res_simps update_conv')
qed

lemma bound_signature_address: "bound_signature p x = Inr (a, row) \<Longrightarrow> bind_text p (sr_signing_address x) = Inr (Some a)"
  by (auto simp: bound_signature_def res_simps Let_def text_nn_def)

interpretation sig_loop: settling "upsert_signature p h" "\<lambda>x. bind_text p (sr_signing_address x)" "\<lambda>_. True" for p h
proof
  show "upsert_signature p h x t = Inr t" if "upsert_signature p h x s = Inr t" for x s t
    using that sig_fix sig_settle by blast
  show "upsert_signature p h x t = Inr t"
    if k: "bind_text p (sr_signing_address x) \<noteq> bind_text p (sr_signing_address y)"
      and x: "upsert_signature p h x s = Inr s" and y: "upsert_signature p h y s = Inr t" for x y s t
  proof (rule sig_fix)
    obtain a row where a: "bound_signature p x = Inr (a, row)" "map_of (signatures s) (h, a) \<noteq> None"
      using sig_settle [OF x] by (auto simp: sig_settled_def)
    obtain b row' where b: "bound_signature p y = Inr (b, row')" using y by (auto simp: upsert_signature_def res_simps)
    have "a \<noteq> b" using k bound_signature_address [OF a(1)] bound_signature_address [OF b] by auto
    then have "map_of (signatures t) (h, a) = map_of (signatures s) (h, a)"
      using y b by (auto simp: upsert_signature_def res_simps update_conv' split: option.splits)
    with a show "sig_settled p h x t" by (auto simp: sig_settled_def)
  qed
qed

section \<open>Validators\<close>

definition val_settled :: "pg \<Rightarrow> int \<Rightarrow> nat \<times> validator_info \<Rightarrow> db \<Rightarrow> bool" where
  "val_settled p h iv s \<longleftrightarrow> (\<exists>a new row member. bound_validator p h (snd iv) = Inr (a, new) \<and>
     map_of (validators s) a = Some row \<and> check_validator row = Inr () \<and> vr_first_seen row \<le> h \<and> h \<le> vr_last_seen row \<and>
     bound_member p (fst iv) (snd iv) = Inr member \<and> map_of (members s) (h, a) \<noteq> None)"

lemma val_fix: "val_settled p h iv s \<Longrightarrow> upsert_validator_member p h iv s = Inr s"
  by (cases iv) (auto simp: val_settled_def upsert_validator_member_def next_validator_row_def Let_def update_fix_iff upsert_fix_iff)

lemma bound_validator_check: "bound_validator p h v = Inr (a, new) \<Longrightarrow>
    check_validator new = Inr () \<and> vr_first_seen new = h \<and> vr_last_seen new = h \<and> bind_text p (vi_address v) = Inr (Some a)"
  by (auto simp: bound_validator_def res_simps Let_def text_nn_def)

lemma next_validator_spec:
  "next_validator_row h new t a = Inr row \<Longrightarrow> check_validator new = Inr () \<Longrightarrow> vr_first_seen new = h \<Longrightarrow> vr_last_seen new = h \<Longrightarrow>
   check_validator row = Inr () \<and> vr_first_seen row \<le> h \<and> h \<le> vr_last_seen row"
  by (auto simp: next_validator_row_def Let_def res_simps split: option.splits)

lemma val_settle: "upsert_validator_member p h iv s = Inr u \<Longrightarrow> val_settled p h iv u"
proof -
  assume u: "upsert_validator_member p h iv s = Inr u"
  obtain a new row member where b: "bound_validator p h (snd iv) = Inr (a, new)"
    and n: "next_validator_row h new (validators s) a = Inr row" and m: "bound_member p (fst iv) (snd iv) = Inr member"
    and u': "u = s\<lparr>validators := AList.update a row (validators s), members := upsert (h, a) member (\<lambda>old. old) (members s)\<rparr>"
    using u by (auto simp: upsert_validator_member_def res_simps split: prod.splits)
  show ?thesis using next_validator_spec [OF n] bound_validator_check [OF b] b m
    by (auto simp: val_settled_def u' update_conv' map_of_upsert)
qed

interpretation val_loop: settling "upsert_validator_member p h" "\<lambda>iv. bind_text p (vi_address (snd iv))" "\<lambda>_. True" for p h
proof
  show "upsert_validator_member p h x t = Inr t" if "upsert_validator_member p h x s = Inr t" for x s t
    using that val_fix val_settle by blast
  show "upsert_validator_member p h x t = Inr t"
    if k: "bind_text p (vi_address (snd x)) \<noteq> bind_text p (vi_address (snd y))"
      and x: "upsert_validator_member p h x s = Inr s" and y: "upsert_validator_member p h y s = Inr t" for x y s t
  proof (rule val_fix)
    obtain a new row member where a: "bound_validator p h (snd x) = Inr (a, new)" "map_of (validators s) a = Some row"
      "check_validator row = Inr ()" "vr_first_seen row \<le> h" "h \<le> vr_last_seen row"
      "bound_member p (fst x) (snd x) = Inr member" "map_of (members s) (h, a) \<noteq> None"
      using val_settle [OF x] by (auto simp: val_settled_def)
    obtain b nb where b: "bound_validator p h (snd y) = Inr (b, nb)"
      using y by (auto simp: upsert_validator_member_def res_simps split: prod.splits)
    have "a \<noteq> b" using k bound_validator_check [OF a(1)] bound_validator_check [OF b] by auto
    then have "map_of (validators t) a = map_of (validators s) a" "map_of (members t) (h, a) = map_of (members s) (h, a)"
      using y b by (auto simp: upsert_validator_member_def res_simps update_conv' map_of_upsert split: prod.splits)
    with a show "val_settled p h x t" by (auto simp: val_settled_def)
  qed
qed

section \<open>Catalog\<close>

lemma pos_less_irrefl [simp]: "\<not> pos_less h i h i"
  by (auto simp: pos_less_def split: option.splits)

lemma least_opt_idem [simp]: "least_opt (least_opt a b) b = least_opt a b" "least_opt a a = a"
  by (auto simp: least_opt_def split: option.splits)

lemma merge_sel [simp]:
  "cr_path_kind (merge_catalog new old) = cr_path_kind new"
  "cr_seen_via_tx (merge_catalog new old)"
  "cr_seen_via_rpc (merge_catalog new old) = cr_seen_via_rpc old"
  "cr_rpc_visible (merge_catalog new old) = cr_rpc_visible old"
  "cr_first_seen (merge_catalog new old) = least_opt (cr_first_seen old) (cr_first_seen new)"
  "cr_deployer (merge_catalog new old) = (if deploy_earlier new old then cr_deployer new else cr_deployer old)"
  "cr_deploy_height (merge_catalog new old) = (if deploy_earlier new old then cr_deploy_height new else cr_deploy_height old)"
  "cr_deploy_tx_index (merge_catalog new old) = (if deploy_earlier new old then cr_deploy_tx_index new else cr_deploy_tx_index old)"
  "cr_last_height (merge_catalog new old) = (if activity_later new old then cr_last_height new else cr_last_height old)"
  "cr_last_tx_index (merge_catalog new old) = (if activity_later new old then cr_last_tx_index new else cr_last_tx_index old)"
  "cr_last_at (merge_catalog new old) = (if activity_not_before new old then cr_last_at new else cr_last_at old)"
  "cr_calls (merge_catalog new old) = cr_calls old + (if counts_now new old then cr_calls new else 0)"
  "cr_successful (merge_catalog new old) = cr_successful old + (if counts_now new old then cr_successful new else 0)"
  "cr_failed (merge_catalog new old) = cr_failed old + (if counts_now new old then cr_failed new else 0)"
  "cr_unknown (merge_catalog new old) = cr_unknown old + (if counts_now new old then cr_unknown new else 0)"
  "cr_last_counted (merge_catalog new old) = (if counts_now new old then cr_last_counted new else cr_last_counted old)"
  by (simp_all add: merge_catalog_def)

lemma merge_conditions:
  "deploy_earlier new (merge_catalog new old) \<Longrightarrow> deploy_earlier new old"
  "activity_later new (merge_catalog new old) \<Longrightarrow> activity_later new old"
  "activity_not_before new (merge_catalog new old) \<Longrightarrow> activity_not_before new old"
  "\<not> counts_now new (merge_catalog new old)"
proof -
  show "deploy_earlier new old" if m: "deploy_earlier new (merge_catalog new old)"
  proof (rule ccontr)
    assume n: "\<not> deploy_earlier new old"
    from m have "deploy_earlier new old"
      unfolding deploy_earlier_def [of new "merge_catalog new old"] merge_sel if_not_P [OF n] by (unfold deploy_earlier_def)
    with n show False ..
  qed
  show later: "activity_later new old" if m: "activity_later new (merge_catalog new old)"
  proof (rule ccontr)
    assume n: "\<not> activity_later new old"
    from m have "activity_later new old"
      unfolding activity_later_def [of new "merge_catalog new old"] merge_sel if_not_P [OF n] by (unfold activity_later_def)
    with n show False ..
  qed
  show "activity_not_before new old" if m: "activity_not_before new (merge_catalog new old)"
  proof (cases "activity_later new old")
    case True
    then show ?thesis by (auto simp: activity_later_def activity_not_before_def pos_less_def split: option.splits)
  next
    case False
    with m show ?thesis by (simp add: activity_not_before_def)
  qed
  show "\<not> counts_now new (merge_catalog new old)"
  proof (cases "counts_now new old")
    case True
    then show ?thesis unfolding counts_now_def [of new "merge_catalog new old"] merge_sel by (simp split: option.splits)
  next
    case False
    then show ?thesis unfolding counts_now_def [of new "merge_catalog new old"] merge_sel by (simp add: counts_now_def)
  qed
qed

lemma merge_catalog_idem: "merge_catalog new (merge_catalog new old) = merge_catalog new old"
  using merge_conditions [of new old] by (intro catalog_row.equality) simp_all

lemma merge_catalog_self: "cr_seen_via_tx new \<Longrightarrow> merge_catalog new new = new"
proof -
  assume "cr_seen_via_tx new"
  moreover have "\<not> counts_now new new" by (auto simp: counts_now_def split: option.splits)
  ultimately show ?thesis by (intro catalog_row.equality) simp_all
qed

definition cat_settled :: "pg \<Rightarrow> string \<Rightarrow> int \<Rightarrow> json \<Rightarrow> path_aggregate \<Rightarrow> db \<Rightarrow> bool" where
  "cat_settled p c h tm a s \<longleftrightarrow> (\<exists>time row. (if pa_call_count a = 0 then Inr None else bind_time p tm) = Inr time \<and>
     check_catalog (pa_path a) (aggregate_row h time a) = Inr () \<and>
     map_of (catalog s) (c, pa_path a) = Some row \<and> check_catalog (pa_path a) row = Inr () \<and>
     merge_catalog (aggregate_row h time a) row = row)"

lemma cat_fix: "cat_settled p c h tm a s \<Longrightarrow> upsert_catalog_aggregate p c h tm a s = Inr s"
  unfolding cat_settled_def upsert_catalog_aggregate_def Let_def
  by (elim exE conjE) (simp add: update_fix_iff)

lemma aggregate_row_seen [simp]: "cr_seen_via_tx (aggregate_row h time a)"
  by (simp add: aggregate_row_def)

lemma cat_settle: "upsert_catalog_aggregate p c h tm a s = Inr u \<Longrightarrow> cat_settled p c h tm a u"
proof -
  assume u: "upsert_catalog_aggregate p c h tm a s = Inr u"
  obtain time row where t: "(if pa_call_count a = 0 then Inr None else bind_time p tm) = Inr time"
    "check_catalog (pa_path a) (aggregate_row h time a) = Inr ()" "check_catalog (pa_path a) row = Inr ()"
    and row: "row = (case map_of (catalog s) (c, pa_path a) of None \<Rightarrow> aggregate_row h time a | Some old \<Rightarrow> merge_catalog (aggregate_row h time a) old)"
    and u': "u = s\<lparr>catalog := AList.update (c, pa_path a) row (catalog s)\<rparr>"
    using u unfolding upsert_catalog_aggregate_def Let_def res_simps sum.inject by auto
  have "merge_catalog (aggregate_row h time a) row = row"
    by (simp add: row merge_catalog_self merge_catalog_idem split: option.splits)
  with t show ?thesis by (auto simp: cat_settled_def u' update_conv')
qed

interpretation cat_loop: settling "upsert_catalog_aggregate p c h tm" pa_path "\<lambda>_. True" for p c h tm
proof
  show "upsert_catalog_aggregate p c h tm x t = Inr t" if "upsert_catalog_aggregate p c h tm x s = Inr t" for x s t
    using that cat_fix cat_settle by blast
  show "upsert_catalog_aggregate p c h tm x t = Inr t"
    if "pa_path x \<noteq> pa_path y" "upsert_catalog_aggregate p c h tm x s = Inr s" "upsert_catalog_aggregate p c h tm y s = Inr t" for x y s t
  proof (rule cat_fix)
    have "map_of (catalog t) (c, pa_path x) = map_of (catalog s) (c, pa_path x)"
      using that(1,3) by (auto simp: upsert_catalog_aggregate_def res_simps Let_def update_conv')
    with cat_settle [OF that(2)] show "cat_settled p c h tm x t" by (simp add: cat_settled_def)
  qed
qed

section \<open>The driver\<close>

text \<open>
  What reprocessing relies on of the driver and the server: a bound text reads back as the value it was bound from,
  and a jsonb value reads back as an equal value.
\<close>

definition pg_faithful :: "pg \<Rightarrow> bool" where
  "pg_faithful p \<longleftrightarrow> (\<forall>j v. bind_text p j = Inr v \<longrightarrow> opt_json v = j) \<and> (\<forall>j v. bind_jsonb p j = Inr v \<longrightarrow> py_eq v j)"

lemma opt_json_inject [simp]: "opt_json a = opt_json b \<longleftrightarrow> a = b" "opt_json a = JStr s \<longleftrightarrow> a = Some s"
  "opt_json a = JNull \<longleftrightarrow> a = None"
  by (auto simp: opt_json_def split: option.splits)

lemma faithful_binds:
  assumes "pg_faithful p"
  shows "text_nn p c j = Inr s \<Longrightarrow> JStr s = j"
    and "text_opt p v = Inr w \<Longrightarrow> w = v"
    and "bind_text p j = Inr w \<Longrightarrow> opt_json w = j"
    and "json_param p j = Inr k \<Longrightarrow> py_eq k j"
  using assms
  by (force simp: pg_faithful_def text_nn_def text_opt_def json_param_def res_simps opt_json_def split: option.splits if_splits)+

section \<open>Stored rows agree with the parsed height\<close>

lemma block_stored:
  assumes "pg_faithful p" and "verify_block_conflict d ph = Inr b" and "upsert_block p ph d = Inr d1"
  shows "\<exists>row. map_of (blocks d1) (ph_height ph) = Some row \<and> br_hash_base64 row = pb_hash_base64 (ph_block ph) \<and>
     br_hash_hex row = pb_hash_hex (ph_block ph)"
proof (cases "map_of (blocks d) (ph_height ph)")
  case None
  then show ?thesis using assms(3) faithful_binds(1) [OF assms(1)]
    by (fastforce simp: upsert_block_def bound_block_def Let_def res_simps update_conv')
next
  case (Some row)
  then show ?thesis using assms(2,3) by (auto simp: verify_block_conflict_def upsert_block_def res_simps)
qed

text \<open>The finalized columns of a transaction row are those of the parsed transaction.\<close>

definition tx_agrees :: "parsed_tx \<Rightarrow> tx_row \<Rightarrow> bool" where
  "tx_agrees t row \<longleftrightarrow> (tr_raw_base64 row, tr_raw_length row, tr_byte_length row, tr_status row, tr_hash row) =
     (tx_raw_base64 t, tx_raw_base64_length t, tx_decoded_byte_length t, tx_decode_status t, tx_hash_hex t)"

lemma tx_agrees_summary [simp]: "tx_agrees t (row\<lparr>tr_summary := x\<rparr>) \<longleftrightarrow> tx_agrees t row"
  by (simp add: tx_agrees_def)

lemma bound_tx_agrees: "pg_faithful p \<Longrightarrow> bound_tx p t = Inr row \<Longrightarrow> tx_agrees t row"
  by (auto simp: bound_tx_def res_simps Let_def tx_agrees_def dest!: faithful_binds(1))

definition tx_ok :: "int \<Rightarrow> parsed_tx \<Rightarrow> db \<Rightarrow> bool" where
  "tx_ok h t d \<longleftrightarrow> (\<forall>row. map_of (transactions d) (h, tx_index t) = Some row \<longrightarrow> tx_agrees t row)"

lemma verify_tx_iff:
  "verify_transaction_conflicts d ph = Inr () \<longleftrightarrow> (\<forall>t \<in> set (ph_transactions ph). tx_ok (ph_height ph) t d)"
  by (auto simp: verify_transaction_conflicts_def res_simps tx_ok_def tx_agrees_def split: option.splits)

lemma tx_ok_step:
  assumes "pg_faithful p" and "upsert_transaction p h y s = Inr u" and "tx_ok h t s"
    and "tx_index t = tx_index y \<Longrightarrow> t = y"
  shows "tx_ok h t u"
proof -
  obtain row where row: "bound_tx p y = Inr row" using assms(2) by (auto simp: upsert_transaction_def res_simps)
  then have agr: "tx_agrees y row" using bound_tx_agrees assms(1) by blast
  have u: "transactions u = upsert (h, tx_index y) row (\<lambda>old. old\<lparr>tr_summary := tr_summary row\<rparr>) (transactions s)"
    using assms(2) row by (auto simp: upsert_transaction_def res_simps)
  show ?thesis
  proof (cases "tx_index t = tx_index y")
    case True
    with assms(3,4) agr show ?thesis by (auto simp: tx_ok_def u map_of_upsert split: option.splits)
  next
    case False
    with assms(3) show ?thesis by (simp add: tx_ok_def u map_of_upsert)
  qed
qed

text \<open>The same for results, votes, validators and members.\<close>

definition result_ok :: "int \<Rightarrow> execution_result \<Rightarrow> db \<Rightarrow> bool" where
  "result_ok h r d \<longleftrightarrow> (\<forall>row. map_of (results d) (h, er_tx_index r) = Some row \<longrightarrow>
     xr_status row = er_execution_status r \<and> xr_gas_wanted row = er_gas_wanted r \<and> xr_gas_used row = er_gas_used r \<and>
     xr_error row = er_error_text r \<and> opt_json (xr_log row) = er_log_text r \<and> opt_json (xr_info row) = er_info_text r \<and>
     opt_json (xr_data row) = er_data_base64 r \<and> py_eq (xr_events row) (er_events r) \<and> py_eq (xr_raw row) (er_raw_result r))"

lemma verify_result_iff:
  "verify_execution_result_conflicts d ph = Inr () \<longleftrightarrow> (\<forall>r \<in> set (ph_execution_results ph). result_ok (ph_height ph) r d)"
  by (auto simp: verify_execution_result_conflicts_def res_simps result_ok_def split: option.splits)

lemma result_ok_step:
  assumes "pg_faithful p" and "upsert_result p h e y s = Inr u" and "result_ok h r s"
    and "er_tx_index r = er_tx_index y \<Longrightarrow> r = y"
  shows "result_ok h r u"
proof (cases "map_of (results s) (h, er_tx_index y)")
  case (Some row)
  then show ?thesis using assms(2,3) by (auto simp: upsert_result_def res_simps)
next
  case None
  obtain row where row: "bound_result p e y = Inr row" and u: "u = s\<lparr>results := AList.update (h, er_tx_index y) row (results s)\<rparr>"
    using assms(2) None by (auto simp: upsert_result_def res_simps)
  have "xr_status row = er_execution_status y \<and> xr_gas_wanted row = er_gas_wanted y \<and> xr_gas_used row = er_gas_used y \<and>
     xr_error row = er_error_text y \<and> opt_json (xr_log row) = er_log_text y \<and> opt_json (xr_info row) = er_info_text y \<and>
     opt_json (xr_data row) = er_data_base64 y \<and> py_eq (xr_events row) (er_events y) \<and> py_eq (xr_raw row) (er_raw_result y)"
    using row by (auto simp: bound_result_def res_simps Let_def dest!: faithful_binds(2,3,4) [OF assms(1)])
  then show ?thesis using assms(3,4) by (auto simp: result_ok_def u update_conv')
qed

definition sig_ok :: "pg \<Rightarrow> int \<Rightarrow> vote_record \<Rightarrow> db \<Rightarrow> bool" where
  "sig_ok p h x d \<longleftrightarrow> (\<exists>a. bind_text p (sr_signing_address x) = Inr a \<and>
     (\<forall>row. Option.bind a (\<lambda>s. map_of (signatures d) (h, s)) = Some row \<longrightarrow> same_vote row x))"

lemma verify_sig_iff:
  "verify_signature_conflicts p d ph = Inr () \<longleftrightarrow> (\<forall>x \<in> set (ph_signatures ph). sig_ok p (ph_height ph) x d)"
proof -
  have "bindE (by_address p (\<lambda>a. map_of (signatures d) (ph_height ph, a)) (sr_signing_address x)) (\<lambda>found.
     case found of None \<Rightarrow> Inr () | Some row \<Rightarrow> guardE (same_vote row x) (FinalizedDataConflict m)) = Inr () \<longleftrightarrow>
     sig_ok p (ph_height ph) x d" for x m
    by (auto simp: by_address_def res_simps sig_ok_def split: option.splits)
  then show ?thesis by (simp add: verify_signature_conflicts_def res_simps)
qed

lemma bound_signature_same:
  assumes "pg_faithful p" and "bound_signature p x = Inr (a, row)"
  shows "same_vote row x"
  using assms(2) by (auto simp: bound_signature_def res_simps Let_def same_vote_def dest!: faithful_binds(2) [OF assms(1)])

lemma sig_ok_step:
  assumes "pg_faithful p" and "upsert_signature p h y s = Inr u" and "sig_ok p h x s"
    and "bind_text p (sr_signing_address x) = bind_text p (sr_signing_address y) \<Longrightarrow> x = y"
  shows "sig_ok p h x u"
proof -
  obtain b row where b: "bound_signature p y = Inr (b, row)" using assms(2) by (auto simp: upsert_signature_def res_simps)
  note bb = bound_signature_address [OF b] bound_signature_same [OF assms(1) b]
  show ?thesis
  proof (cases "map_of (signatures s) (h, b)")
    case (Some r)
    then show ?thesis using assms(2,3) b by (simp add: upsert_signature_def)
  next
    case None
    then have u: "u = s\<lparr>signatures := AList.update (h, b) row (signatures s)\<rparr>"
      using assms(2) b by (auto simp: upsert_signature_def res_simps)
    obtain a where a: "bind_text p (sr_signing_address x) = Inr a"
      "\<forall>r. Option.bind a (\<lambda>s'. map_of (signatures s) (h, s')) = Some r \<longrightarrow> same_vote r x" using assms(3) by (auto simp: sig_ok_def)
    show ?thesis using a bb assms(4) by (cases a) (auto simp: sig_ok_def u update_conv')
  qed
qed

definition key_ok :: "pg \<Rightarrow> validator_info \<Rightarrow> db \<Rightarrow> bool" where
  "key_ok p v d \<longleftrightarrow> (\<exists>a. bind_text p (vi_address v) = Inr a \<and>
     (\<forall>row. Option.bind a (map_of (validators d)) = Some row \<longrightarrow>
        JStr (vr_key_type row) = key_type_param v \<and> JStr (vr_key_value row) = key_value_param v))"

lemma verify_key_iff:
  "verify_validator_conflicts p d ph = Inr () \<longleftrightarrow> (\<forall>v \<in> set (ph_validators ph). key_ok p v d)"
proof -
  have "bindE (by_address p (map_of (validators d)) (vi_address v)) (\<lambda>found. case found of None \<Rightarrow> Inr ()
     | Some row \<Rightarrow> guardE (JStr (vr_key_type row) = key_type_param v \<and> JStr (vr_key_value row) = key_value_param v) m) = Inr () \<longleftrightarrow>
     key_ok p v d" for v m
    by (auto simp: by_address_def res_simps key_ok_def split: option.splits)
  then show ?thesis by (simp add: verify_validator_conflicts_def res_simps)
qed

definition member_ok :: "pg \<Rightarrow> int \<Rightarrow> nat \<times> validator_info \<Rightarrow> db \<Rightarrow> bool" where
  "member_ok p h iv d \<longleftrightarrow> (\<exists>a. bind_text p (vi_address (snd iv)) = Inr a \<and>
     (\<forall>row. Option.bind a (\<lambda>s. map_of (members d) (h, s)) = Some row \<longrightarrow>
        mr_voting_power row = voting_power_param (snd iv) \<and> mr_priority row = vi_proposer_priority (snd iv) \<and> mr_index row = fst iv))"

lemma verify_member_iff:
  "verify_member_conflicts p d ph = Inr () \<longleftrightarrow> (\<forall>iv \<in> set (enum0 (ph_validators ph)). member_ok p (ph_height ph) iv d)"
proof -
  have "(case iv of (index, v) \<Rightarrow> bindE (by_address p (\<lambda>a. map_of (members d) (ph_height ph, a)) (vi_address v)) (\<lambda>found.
     case found of None \<Rightarrow> Inr ()
     | Some row \<Rightarrow> guardE ((mr_voting_power row, mr_priority row, mr_index row) = (voting_power_param v, vi_proposer_priority v, index)) m)) = Inr () \<longleftrightarrow>
     member_ok p (ph_height ph) iv d" for iv m
    by (cases iv) (auto simp: by_address_def res_simps member_ok_def split: option.splits)
  then show ?thesis by (simp only: verify_member_conflicts_def checkE_Inr_iff)
qed

definition val_ok :: "pg \<Rightarrow> int \<Rightarrow> nat \<times> validator_info \<Rightarrow> db \<Rightarrow> bool" where
  "val_ok p h iv d \<longleftrightarrow> key_ok p (snd iv) d \<and> member_ok p h iv d"

lemma val_ok_step:
  assumes "pg_faithful p" and "upsert_validator_member p h y s = Inr u" and "val_ok p h x s"
    and "bind_text p (vi_address (snd x)) = bind_text p (vi_address (snd y)) \<Longrightarrow> x = y"
  shows "val_ok p h x u"
proof -
  obtain b new row member where b: "bound_validator p h (snd y) = Inr (b, new)"
    and n: "next_validator_row h new (validators s) b = Inr row" and m: "bound_member p (fst y) (snd y) = Inr member"
    and u: "u = s\<lparr>validators := AList.update b row (validators s), members := upsert (h, b) member (\<lambda>old. old) (members s)\<rparr>"
    using assms(2) by (auto simp: upsert_validator_member_def res_simps split: prod.splits)
  have key: "JStr (vr_key_type new) = key_type_param (snd y)" "JStr (vr_key_value new) = key_value_param (snd y)"
    using b by (auto simp: bound_validator_def res_simps Let_def dest!: faithful_binds(1) [OF assms(1)])
  have mem: "mr_voting_power member = voting_power_param (snd y)" "mr_priority member = vi_proposer_priority (snd y)"
      "mr_index member = fst y"
    using m by (auto simp: bound_member_def res_simps Let_def)
  have bb: "bind_text p (vi_address (snd y)) = Inr (Some b)" using bound_validator_check [OF b] by simp
  show ?thesis
  proof (cases "x = y")
    case True
    have "vr_key_type row = vr_key_type r \<and> vr_key_value row = vr_key_value r" if "map_of (validators s) b = Some r" for r
      using n that by (auto simp: next_validator_row_def Let_def res_simps)
    moreover have "row = new" if "map_of (validators s) b = None"
      using n that by (auto simp: next_validator_row_def res_simps)
    ultimately show ?thesis
      using assms(3) True bb key mem
      by (cases "map_of (validators s) b"; cases "map_of (members s) (h, b)")
        (auto simp: val_ok_def key_ok_def member_ok_def u update_conv' map_of_upsert)
  next
    case False
    with assms(4) have ne: "bind_text p (vi_address (snd x)) \<noteq> bind_text p (vi_address (snd y))" by blast
    obtain a where a: "bind_text p (vi_address (snd x)) = Inr a" using assms(3) by (auto simp: val_ok_def key_ok_def)
    with ne bb have "a \<noteq> Some b" by auto
    then have "Option.bind a (map_of (validators u)) = Option.bind a (map_of (validators s))"
      "Option.bind a (\<lambda>s'. map_of (members u) (h, s')) = Option.bind a (\<lambda>s'. map_of (members s) (h, s'))"
      by (cases a; simp add: u update_conv' map_of_upsert)+
    with assms(3) a show ?thesis by (simp add: val_ok_def key_ok_def member_ok_def)
  qed
qed

end
