(* ===== verification/Hysteresis.thy ===== *)
theory Hysteresis
  imports Rpc Invariants "HOL-Library.Multiset"
begin

text \<open>
  The endpoint selection state of \<open>indexer/runner.py\<close>: an endpoint keeps its place until another one has
  been clearly faster for three consecutive cycles. \<open>order_indexer_candidates\<close> mutates the state it is given; here
  it returns the new one. Python compares probes with \<open>is\<close>: by \<open>oid\<close>.
\<close>

section \<open>State\<close>

record selection_state =
  ss_selected_url :: "string option"
  ss_candidate_url :: "string option"
  ss_candidate_streak :: nat

definition new_selection_state :: "string option \<Rightarrow> selection_state" where
  "new_selection_state u = \<lparr>ss_selected_url = u, ss_candidate_url = None, ss_candidate_streak = 0\<rparr>"

text \<open>\<open>0.050\<close> is the double nearest to 1/20; \<open>0.25\<close> is exact.\<close>

definition RPC_HYSTERESIS_MIN_IMPROVEMENT_SECONDS :: pyfloat where
  "RPC_HYSTERESIS_MIN_IMPROVEMENT_SECONDS = rnd (1 / 20)"

definition RPC_HYSTERESIS_MIN_RELATIVE_IMPROVEMENT :: pyfloat where
  "RPC_HYSTERESIS_MIN_RELATIVE_IMPROVEMENT = Fin (1 / 4)"

definition RPC_HYSTERESIS_CONFIRMATION_CYCLES :: nat where
  "RPC_HYSTERESIS_CONFIRMATION_CYCLES = 3"

definition valid_latency :: "pyfloat option \<Rightarrow> rat option" where
  "valid_latency value = (case value of Some (Fin x) \<Rightarrow> if 0 \<le> x then Some x else None | _ \<Rightarrow> None)"

definition drop_candidate :: "selection_state \<Rightarrow> selection_state" where
  "drop_candidate state = state\<lparr>ss_candidate_url := None, ss_candidate_streak := 0\<rparr>"

definition qualifies :: "rat \<Rightarrow> rat \<Rightarrow> bool" where
  "qualifies current other =
     (let improvement = rnd (current - other);
          relative = (case improvement of
             Fin i \<Rightarrow> if current = 0 then Fin 0 else rnd (i / current) | _ \<Rightarrow> NaN)
      in f_le RPC_HYSTERESIS_MIN_IMPROVEMENT_SECONDS improvement \<and> f_le RPC_HYSTERESIS_MIN_RELATIVE_IMPROVEMENT relative)"

definition count_candidate :: "string \<Rightarrow> selection_state \<Rightarrow> selection_state" where
  "count_candidate u state =
     (if ss_candidate_url state = Some u then state\<lparr>ss_candidate_streak := ss_candidate_streak state + 1\<rparr>
      else state\<lparr>ss_candidate_url := Some u, ss_candidate_streak := 1\<rparr>)"

section \<open>Ordering\<close>

definition order_indexer_candidates ::
  "rpc_probe list \<Rightarrow> selection_state \<Rightarrow> (rpc_probe list \<times> string) \<times> selection_state" where
  "order_indexer_candidates candidates state =
     (case find (\<lambda>p. Some (url p) = ss_selected_url state) candidates of
        None \<Rightarrow> ((candidates, if ss_selected_url state \<noteq> None then ''selected_unavailable'' else ''initial_selection''),
                 drop_candidate state)
      | Some current \<Rightarrow>
          (case filter (\<lambda>p. oid p \<noteq> oid current) candidates of
             [] \<Rightarrow> (([current], ''initial_selection''), drop_candidate state)
           | candidate # others \<Rightarrow>
               (case (valid_latency (response_seconds current), valid_latency (response_seconds candidate)) of
                  (Some a, Some b) \<Rightarrow>
                    if \<not> qualifies a b
                    then ((current # candidate # others, ''initial_selection''), drop_candidate state)
                    else (let state' = count_candidate (url candidate) state in
                          if ss_candidate_streak state' < RPC_HYSTERESIS_CONFIRMATION_CYCLES
                          then ((current # candidate # others, ''initial_selection''), state')
                          else ((candidate # current # filter (\<lambda>p. oid p \<noteq> oid candidate) others, ''latency_hysteresis''), state'))
                | _ \<Rightarrow> ((current # candidate # others, ''initial_selection''), drop_candidate state))))"

definition record_selection_success :: "selection_state \<Rightarrow> string \<Rightarrow> bool \<Rightarrow> selection_state" where
  "record_selection_success state successful_url fallback_occurred =
     (let adopted = (Some successful_url \<noteq> ss_selected_url state);
          state1 = (if adopted then state\<lparr>ss_selected_url := Some successful_url\<rparr> else state)
      in if adopted \<or> fallback_occurred then drop_candidate state1 else state1)"

section \<open>Facts\<close>

lemma drop_candidate_sel [simp]:
  "ss_selected_url (drop_candidate s) = ss_selected_url s"
  "ss_candidate_url (drop_candidate s) = None"
  "ss_candidate_streak (drop_candidate s) = 0"
  by (simp_all add: drop_candidate_def)

lemma count_candidate_sel [simp]: "ss_selected_url (count_candidate u s) = ss_selected_url s"
  by (simp add: count_candidate_def)

text \<open>Splitting off one probe of a list with distinct identities.\<close>

lemma mset_split_oid:
  assumes "distinct (map oid ps)" and "p \<in> set ps"
  shows "mset (p # filter (\<lambda>q. oid q \<noteq> oid p) ps) = mset ps"
  using assms
proof (induction ps)
  case (Cons q ps)
  show ?case
  proof (cases "p = q")
    case True
    with Cons.prems have "filter (\<lambda>r. oid r \<noteq> oid p) ps = ps" by (auto simp: filter_id_conv image_iff)
    with True show ?thesis by simp
  next
    case False
    with Cons.prems have "p \<in> set ps" "oid q \<noteq> oid p" by force+
    with Cons show ?thesis by (simp add: add_mset_commute)
  qed
qed simp

lemma order_candidates_perm:
  assumes "distinct (map oid ps)"
  shows "mset (fst (fst (order_indexer_candidates ps s))) = mset ps"
proof (cases "find (\<lambda>p. Some (url p) = ss_selected_url s) ps")
  case None
  then show ?thesis by (simp add: order_indexer_candidates_def)
next
  case (Some current)
  then have cur: "current \<in> set ps" by (auto simp: find_Some_iff)
  note split = mset_split_oid [OF assms cur]
  show ?thesis
  proof (cases "filter (\<lambda>p. oid p \<noteq> oid current) ps")
    case Nil
    with split Some show ?thesis by (simp add: order_indexer_candidates_def)
  next
    case (Cons candidate others)
    have "distinct (map oid (candidate # others))" unfolding Cons [symmetric] using assms by (rule distinct_map_filter)
    then have "filter (\<lambda>p. oid p \<noteq> oid candidate) others = others" by (auto simp: filter_id_conv image_iff)
    with split Some Cons show ?thesis
      by (auto simp: order_indexer_candidates_def Let_def add_mset_commute split: option.splits)
  qed
qed

text \<open>
  \<open>favours cs v u\<close>: among the candidates \<open>cs\<close> the endpoint \<open>v\<close> is available and the best other endpoint, \<open>u\<close>, is
  faster by the two margins.
\<close>

definition favours :: "rpc_probe list \<Rightarrow> string option \<Rightarrow> string \<Rightarrow> bool" where
  "favours cs v u \<longleftrightarrow> (\<exists>current candidate others a b.
     find (\<lambda>p. Some (url p) = v) cs = Some current \<and> filter (\<lambda>p. oid p \<noteq> oid current) cs = candidate # others \<and>
     url candidate = u \<and> valid_latency (response_seconds current) = Some a \<and>
     valid_latency (response_seconds candidate) = Some b \<and> qualifies a b)"

lemma order_not_favoured:
  assumes "\<nexists>u. favours cs (ss_selected_url s) u"
  shows "snd (order_indexer_candidates cs s) = drop_candidate s \<and>
    snd (fst (order_indexer_candidates cs s)) \<noteq> ''latency_hysteresis'' \<and>
    (\<forall>current. find (\<lambda>p. Some (url p) = ss_selected_url s) cs = Some current \<longrightarrow>
      hd (fst (fst (order_indexer_candidates cs s))) = current)"
proof (cases "find (\<lambda>p. Some (url p) = ss_selected_url s) cs")
  case None
  then show ?thesis by (simp add: order_indexer_candidates_def)
next
  case (Some current)
  show ?thesis
  proof (cases "filter (\<lambda>p. oid p \<noteq> oid current) cs")
    case Nil
    with Some show ?thesis by (simp add: order_indexer_candidates_def)
  next
    case (Cons candidate others)
    with Some assms have "\<not> (valid_latency (response_seconds current) = Some a \<and>
        valid_latency (response_seconds candidate) = Some b \<and> qualifies a b)" for a b
      unfolding favours_def by blast
    with Some Cons show ?thesis by (auto simp: order_indexer_candidates_def split: option.splits)
  qed
qed

lemma order_favoured:
  assumes "favours cs (ss_selected_url s) u"
  shows "snd (order_indexer_candidates cs s) = count_candidate u s"
    and "ss_candidate_streak (count_candidate u s) < 3 \<Longrightarrow> snd (fst (order_indexer_candidates cs s)) \<noteq> ''latency_hysteresis'' \<and>
      Some (url (hd (fst (fst (order_indexer_candidates cs s))))) = ss_selected_url s"
    and "3 \<le> ss_candidate_streak (count_candidate u s) \<Longrightarrow> snd (fst (order_indexer_candidates cs s)) = ''latency_hysteresis'' \<and>
      url (hd (fst (fst (order_indexer_candidates cs s)))) = u"
proof -
  obtain current candidate others a b where f: "find (\<lambda>p. Some (url p) = ss_selected_url s) cs = Some current"
    "filter (\<lambda>p. oid p \<noteq> oid current) cs = candidate # others" "url candidate = u"
    "valid_latency (response_seconds current) = Some a" "valid_latency (response_seconds candidate) = Some b" "qualifies a b"
    using assms unfolding favours_def by blast
  have cur: "Some (url current) = ss_selected_url s" using f(1) by (auto simp: find_Some_iff)
  note run = order_indexer_candidates_def f(1,2,4) f(5) [unfolded f(3)] f(6) Let_def RPC_HYSTERESIS_CONFIRMATION_CYCLES_def
  show "snd (order_indexer_candidates cs s) = count_candidate u s" using f(3,5) by (simp add: run)
  show "snd (fst (order_indexer_candidates cs s)) \<noteq> ''latency_hysteresis'' \<and>
      Some (url (hd (fst (fst (order_indexer_candidates cs s))))) = ss_selected_url s"
    if "ss_candidate_streak (count_candidate u s) < 3" using that f(3,5) cur by (simp add: run)
  show "snd (fst (order_indexer_candidates cs s)) = ''latency_hysteresis'' \<and>
      url (hd (fst (fst (order_indexer_candidates cs s)))) = u"
    if "3 \<le> ss_candidate_streak (count_candidate u s)" using that f(3,5) by (simp add: run)
qed

lemma order_keeps_selected:
  assumes "v \<in> set cs" and "ss_selected_url s = Some (url v)" and "\<nexists>u. favours cs (ss_selected_url s) u"
  shows "url (hd (fst (fst (order_indexer_candidates cs s)))) = url v"
proof -
  obtain current where cur: "find (\<lambda>p. Some (url p) = ss_selected_url s) cs = Some current"
    using assms(1,2) by (cases "find (\<lambda>p. Some (url p) = ss_selected_url s) cs") (auto simp: find_None_iff)
  then have "Some (url current) = ss_selected_url s" by (auto simp: find_Some_iff)
  with order_not_favoured [OF assms(3)] cur assms(2) show ?thesis by simp
qed

section \<open>The streak\<close>

text \<open>
  The life of a selection state, with the candidate lists it has seen, latest first: an ordering, an adopted success,
  a rejection.
\<close>

inductive selection_step :: "rpc_probe list list \<times> selection_state \<Rightarrow> rpc_probe list list \<times> selection_state \<Rightarrow> bool" where
  order: "selection_step (h, s) (cs # h, snd (order_indexer_candidates cs s))"
| success: "selection_step (h, s) (h, record_selection_success s u fallback)"
| reject: "selection_step (h, s) (h, drop_candidate s)"

inductive_cases selection_stepE: "selection_step x y"

definition streak_inv :: "rpc_probe list list \<times> selection_state \<Rightarrow> bool" where
  "streak_inv = (\<lambda>(h, s). ss_candidate_streak s \<le> length h \<and> (ss_candidate_streak s = 0) = (ss_candidate_url s = None) \<and>
     (\<forall>u i. ss_candidate_url s = Some u \<and> i < ss_candidate_streak s \<longrightarrow> favours (h ! i) (ss_selected_url s) u))"

lemma streak_inv_order:
  assumes "streak_inv (h, s)"
  shows "streak_inv (cs # h, snd (order_indexer_candidates cs s))"
proof (cases "\<exists>u. favours cs (ss_selected_url s) u")
  case False
  then show ?thesis using order_not_favoured [of cs s] by (simp add: streak_inv_def)
next
  case True
  then obtain u where u: "favours cs (ss_selected_url s) u" by blast
  then show ?thesis unfolding order_favoured(1) [OF u] using assms
    by (auto simp: streak_inv_def count_candidate_def nth_Cons split: nat.splits)
qed

lemma streak_inv_step: "selection_step x y \<Longrightarrow> streak_inv x \<Longrightarrow> streak_inv y"
proof (erule selection_stepE)
  fix h s u fallback
  assume "x = (h, s)" "y = (h, record_selection_success s u fallback)" "streak_inv x"
  then show "streak_inv y" by (auto simp: streak_inv_def record_selection_success_def Let_def)
qed (auto simp: streak_inv_order, simp add: streak_inv_def)

interpretation hysteresis: inductive_invariant
  "\<lambda>x. \<exists>u. x = ([], new_selection_state u)" selection_step streak_inv
proof
  show "streak_inv x" if "\<exists>u. x = ([], new_selection_state u)" for x
    using that by (auto simp: streak_inv_def new_selection_state_def)
qed (rule streak_inv_step)

section \<open>Properties\<close>

text \<open>the ordering only reorders the candidates, and as long as the selected endpoint is available it stays first
  unless the ordering announces a latency switch.\<close>

theorem selected_endpoint_stays_first:
  assumes "distinct (map oid cs)" and "order_indexer_candidates cs s = ((cs', reason), s')"
    and "v \<in> set cs" and "ss_selected_url s = Some (url v)" and "reason \<noteq> ''latency_hysteresis''"
  shows "mset cs' = mset cs \<and> url (hd cs') = url v"
proof -
  have "mset cs' = mset cs" using order_candidates_perm [OF assms(1), of s] assms(2) by simp
  moreover obtain current where cur: "find (\<lambda>p. Some (url p) = ss_selected_url s) cs = Some current"
    using assms(3,4) by (cases "find (\<lambda>p. Some (url p) = ss_selected_url s) cs") (auto simp: find_None_iff)
  then have "Some (url current) = ss_selected_url s" by (auto simp: find_Some_iff)
  moreover have "url (hd cs') = url current"
  proof (cases "\<exists>u. favours cs (ss_selected_url s) u")
    case False
    then show ?thesis using order_not_favoured [of cs s] cur assms(2) by simp
  next
    case True
    then obtain u where u: "favours cs (ss_selected_url s) u" by blast
    show ?thesis using order_favoured(2,3) [OF u] assms(2,4,5) \<open>Some (url current) = ss_selected_url s\<close>
      by (cases "ss_candidate_streak (count_candidate u s) < 3") auto
  qed
  ultimately show ?thesis using assms(4) by simp
qed

text \<open>C9: as long as the selected endpoint is available, another one is put before it only after three orderings in a
  row: whenever an ordering puts another endpoint first, or announces a switch for latency, the best alternative was
  that endpoint in this ordering and in the two before it, each time available together with the selected endpoint and
  faster by both margins, and the ordering announces the switch; a rejection or an adopted endpoint in between starts
  the count again.\<close>

theorem switch_needs_three_cycles:
  assumes "selection_step\<^sup>*\<^sup>* ([], new_selection_state initial) (h, s)"
    and "order_indexer_candidates cs s = ((cs', reason), s')"
    and "(\<exists>v \<in> set cs. ss_selected_url s = Some (url v) \<and> url (hd cs') \<noteq> url v) \<or> reason = ''latency_hysteresis''"
  shows "reason = ''latency_hysteresis'' \<and> (\<exists>h1 h2 h'. h = h1 # h2 # h' \<and>
    (\<forall>x \<in> {cs, h1, h2}. favours x (ss_selected_url s) (url (hd cs'))))"
proof -
  have inv: "streak_inv (h, s)" by (rule hysteresis.reachable_inv [OF _ assms(1)]) blast
  obtain u where u: "favours cs (ss_selected_url s) u"
    using order_not_favoured [of cs s] order_keeps_selected [of _ cs s] assms(2,3) by fastforce
  have three: "3 \<le> ss_candidate_streak (count_candidate u s)" using order_favoured(2) [OF u] assms(2,3) by force
  then have hd: "reason = ''latency_hysteresis''" "url (hd cs') = u" using order_favoured(3) [OF u] assms(2) by simp_all
  from three have s: "ss_candidate_url s = Some u" "2 \<le> ss_candidate_streak s"
    by (auto simp: count_candidate_def split: if_splits)
  with inv have len: "2 \<le> length h" and fav: "\<And>i. i < ss_candidate_streak s \<Longrightarrow> favours (h ! i) (ss_selected_url s) u"
    by (auto simp: streak_inv_def)
  obtain h1 h2 h' where h: "h = h1 # h2 # h'" using len by (cases h; cases "tl h") auto
  have "favours h1 (ss_selected_url s) u" "favours h2 (ss_selected_url s) u"
    using fav [of 0] fav [of 1] s(2) by (simp_all add: h)
  with u h hd show ?thesis by simp
qed

section \<open>A switch after three cycles\<close>

text \<open>Two endpoints, the selected one answering in one second, the other in a quarter.\<close>

definition slow_probe :: rpc_probe where
  "slow_probe = demo_probe\<lparr>oid := 0, url := ''http://a'', response_seconds := Some (Fin 1)\<rparr>"

definition fast_probe :: rpc_probe where
  "fast_probe = demo_probe\<lparr>oid := 1, url := ''http://b'', response_seconds := Some (Fin (1 / 4))\<rparr>"

lemma rnd_three_quarters: "rnd (3 / 4) = Fin (3 / 4)"
proof -
  have "ilog2 \<bar>3 / 4\<bar> = - 1" by code_simp
  then show ?thesis by (simp add: rnd_def pow2_def round_half_even_def Let_def)
qed

lemma rnd_twentieth: "rnd (1 / 20) = Fin (3602879701896397 / 72057594037927936)"
proof -
  have "ilog2 \<bar>1 / 20\<bar> = - 5" by code_simp
  moreover have "\<lfloor>36028797018963968 / 5 :: rat\<rfloor> = 7205759403792793" by (rule floor_unique) simp_all
  ultimately show ?thesis by (simp add: rnd_def pow2_def round_half_even_def Let_def)
qed

lemma demo_order:
  "order_indexer_candidates [slow_probe, fast_probe] \<lparr>ss_selected_url = Some ''http://a'', ss_candidate_url = cu, ss_candidate_streak = k\<rparr> =
     (if cu = Some ''http://b''
      then ((if k + 1 < 3 then [slow_probe, fast_probe] else [fast_probe, slow_probe],
             if k + 1 < 3 then ''initial_selection'' else ''latency_hysteresis''),
            \<lparr>ss_selected_url = Some ''http://a'', ss_candidate_url = Some ''http://b'', ss_candidate_streak = k + 1\<rparr>)
      else (([slow_probe, fast_probe], ''initial_selection''),
            \<lparr>ss_selected_url = Some ''http://a'', ss_candidate_url = Some ''http://b'', ss_candidate_streak = 1\<rparr>))"
  using rnd_three_quarters rnd_twentieth
  by (simp add: order_indexer_candidates_def slow_probe_def fast_probe_def valid_latency_def qualifies_def Let_def
      RPC_HYSTERESIS_MIN_IMPROVEMENT_SECONDS_def RPC_HYSTERESIS_MIN_RELATIVE_IMPROVEMENT_def
      RPC_HYSTERESIS_CONFIRMATION_CYCLES_def count_candidate_def)

lemma demo_two_cycles:
  "selection_step\<^sup>*\<^sup>* ([], new_selection_state (Some ''http://a''))
     ([[slow_probe, fast_probe], [slow_probe, fast_probe]],
      \<lparr>ss_selected_url = Some ''http://a'', ss_candidate_url = Some ''http://b'', ss_candidate_streak = 2\<rparr>)"
proof -
  have "selection_step ([], new_selection_state (Some ''http://a'')) ([[slow_probe, fast_probe]],
      \<lparr>ss_selected_url = Some ''http://a'', ss_candidate_url = Some ''http://b'', ss_candidate_streak = 1\<rparr>)"
    using selection_step.order [of "[]" "new_selection_state (Some ''http://a'')" "[slow_probe, fast_probe]"]
    by (simp add: new_selection_state_def demo_order)
  moreover have "selection_step ([[slow_probe, fast_probe]],
      \<lparr>ss_selected_url = Some ''http://a'', ss_candidate_url = Some ''http://b'', ss_candidate_streak = 1\<rparr>)
     ([[slow_probe, fast_probe], [slow_probe, fast_probe]],
      \<lparr>ss_selected_url = Some ''http://a'', ss_candidate_url = Some ''http://b'', ss_candidate_streak = 2\<rparr>)"
    using selection_step.order [of "[[slow_probe, fast_probe]]" "\<lparr>ss_selected_url = Some ''http://a'',
      ss_candidate_url = Some ''http://b'', ss_candidate_streak = 1\<rparr>" "[slow_probe, fast_probe]"]
    by (simp add: demo_order numeral_2_eq_2)
  ultimately show ?thesis by (meson converse_rtranclp_into_rtranclp rtranclp.rtrancl_refl)
qed

theorem selected_endpoint_stays_first_witness:
  "url (hd (fst (fst (order_indexer_candidates [slow_probe, fast_probe] (new_selection_state (Some ''http://a'')))))) = ''http://a''"
proof -
  have "order_indexer_candidates [slow_probe, fast_probe] (new_selection_state (Some ''http://a'')) =
      (([slow_probe, fast_probe], ''initial_selection''),
       \<lparr>ss_selected_url = Some ''http://a'', ss_candidate_url = Some ''http://b'', ss_candidate_streak = 1\<rparr>)"
    by (simp add: new_selection_state_def demo_order)
  from selected_endpoint_stays_first [OF _ this, of slow_probe] this show ?thesis
    by (simp add: slow_probe_def fast_probe_def new_selection_state_def)
qed

theorem switch_needs_three_cycles_witness:
  "\<exists>s. selection_step\<^sup>*\<^sup>* ([], new_selection_state (Some ''http://a'')) ([[slow_probe, fast_probe], [slow_probe, fast_probe]], s) \<and>
     ss_selected_url s = Some (url slow_probe) \<and>
     fst (order_indexer_candidates [slow_probe, fast_probe] s) = ([fast_probe, slow_probe], ''latency_hysteresis'') \<and>
     favours [slow_probe, fast_probe] (Some ''http://a'') ''http://b''"
proof -
  let ?s = "\<lparr>ss_selected_url = Some ''http://a'', ss_candidate_url = Some ''http://b'', ss_candidate_streak = 2\<rparr>"
  have run: "order_indexer_candidates [slow_probe, fast_probe] ?s =
      (([fast_probe, slow_probe], ''latency_hysteresis''), ?s\<lparr>ss_candidate_streak := 3\<rparr>)" by (simp add: demo_order)
  have urls: "url slow_probe = ''http://a''" "url fast_probe = ''http://b''" by (simp_all add: slow_probe_def fast_probe_def)
  have moved: "(\<exists>v \<in> set [slow_probe, fast_probe]. ss_selected_url ?s = Some (url v) \<and> url (hd [fast_probe, slow_probe]) \<noteq> url v)
      \<or> ''latency_hysteresis'' = ''latency_hysteresis''" by (simp add: urls)
  from switch_needs_three_cycles [OF demo_two_cycles run moved] demo_two_cycles run show ?thesis
    by (auto simp: urls)
qed

end
