(* ===== verification/Indexer_World.thy ===== *)
theory Indexer_World
  imports Py_Effects Db_Endpoints Db_Reprocess Hysteresis
begin

text \<open>
  The process state of the continuous indexer and the methods of \<open>PostgresDatabase\<close> it calls. A method opens a
  connection, runs one cursor function in one transaction and commits. The server may fail at any connection (an
  input): the connection is refused, the transaction is rolled back, or it is committed but the confirmation is lost;
  each raises psycopg's \<open>OperationalError\<close>. The stop flag is set by a signal (an input): from the poll number
  \<open>re_stop_at\<close> on, every read of it is true.
\<close>

section \<open>Environment and state\<close>

datatype db_fault = Refused | Rolled_Back | Confirmation_Lost

record cycle_env =
  ce_reply :: "nat \<Rightarrow> jobj res"
  ce_dur :: "nat \<Rightarrow> pyfloat"
  ce_net :: rpc_net

record run_env =
  re_pg :: pg
  re_fault :: "nat \<Rightarrow> db_fault option"
  re_stop_at :: "nat option"
  re_cycle :: "nat \<Rightarrow> cycle_env"
  re_decoder :: decoder

record world =
  w_db :: db
  w_endpoint_id :: "int option"
  w_conn :: nat
  w_polls :: nat
  w_sel :: selection_state

definition new_world :: "db \<Rightarrow> world" where
  "new_world d = \<lparr>w_db = d, w_endpoint_id = None, w_conn = 0, w_polls = 0, w_sel = new_selection_state None\<rparr>"

text \<open>A read of \<open>stop.requested\<close>, or the result of \<open>stop.wait\<close>.\<close>

definition stop_requested :: "run_env \<Rightarrow> world \<Rightarrow> bool" where
  "stop_requested en w = (case re_stop_at en of None \<Rightarrow> False | Some k \<Rightarrow> k \<le> w_polls w)"

definition polled :: "world \<Rightarrow> world" where
  "polled w = w\<lparr>w_polls := w_polls w + 1\<rparr>"

section \<open>Transactions\<close>

text \<open>\<open>assign\<close> is what the method does with the cursor's result before it commits.\<close>

definition transact :: "run_env \<Rightarrow> (db \<Rightarrow> ('a \<times> db) res) \<Rightarrow> ('a \<Rightarrow> world \<Rightarrow> world) \<Rightarrow> (world, 'a) act" where
  "transact en f assign w =
     (let w1 = w\<lparr>w_conn := w_conn w + 1\<rparr>; fault = re_fault en (w_conn w) in
      if fault = Some Refused then (Inl OperationalError, w1)
      else case f (w_db w) of
             Inl e \<Rightarrow> (Inl e, w1)
           | Inr (x, d) \<Rightarrow>
               (case fault of
                  None \<Rightarrow> (Inr x, (assign x w1)\<lparr>w_db := d\<rparr>)
                | Some Rolled_Back \<Rightarrow> (Inl OperationalError, (assign x w1)\<lparr>w_db := w_db w\<rparr>)
                | _ \<Rightarrow> (Inl OperationalError, (assign x w1)\<lparr>w_db := d\<rparr>)))"

definition query :: "run_env \<Rightarrow> (db \<Rightarrow> 'a res) \<Rightarrow> (world, 'a) act" where
  "query en f = transact en (\<lambda>d. bindE (f d) (\<lambda>x. Inr (x, d))) (\<lambda>_ w. w)"

definition get_checkpoint :: "run_env \<Rightarrow> string \<Rightarrow> (world, int option) act" where
  "get_checkpoint en chain_id = query en (\<lambda>d. get_checkpoint_cursor d chain_id)"

definition get_checkpoint_anchor :: "run_env \<Rightarrow> string \<Rightarrow> (world, checkpoint_anchor option) act" where
  "get_checkpoint_anchor en chain_id = query en (\<lambda>d. get_checkpoint_anchor_cursor d chain_id)"

definition read_selected_rpc_url :: "run_env \<Rightarrow> string \<Rightarrow> (world, string option) act" where
  "read_selected_rpc_url en chain_id = query en (\<lambda>d. Inr (get_selected_rpc_url d chain_id))"

text \<open>The probe cycle assigns the selected id before it commits, the other two methods after.\<close>

definition record_rpc_probe_cycle :: "run_env \<Rightarrow> string \<Rightarrow> rpc_probe list \<Rightarrow> (world, unit) act" where
  "record_rpc_probe_cycle en chain_id probes =
     bindS (transact en (record_rpc_probe_cycle_cursor (re_pg en) chain_id probes) (\<lambda>i w. w\<lparr>w_endpoint_id := i\<rparr>)) (\<lambda>_. retS ())"

definition select_rpc_endpoint :: "run_env \<Rightarrow> string \<Rightarrow> rpc_probe \<Rightarrow> string \<Rightarrow> (world, unit) act" where
  "select_rpc_endpoint en chain_id probe reason =
     bindS (transact en (select_rpc_endpoint_cursor (re_pg en) chain_id probe reason) (\<lambda>_ w. w)) (\<lambda>i.
     modifyS (\<lambda>w. w\<lparr>w_endpoint_id := Some i\<rparr>))"

definition record_rpc_runtime_failure :: "run_env \<Rightarrow> string \<Rightarrow> rpc_probe \<Rightarrow> string \<Rightarrow> (world, unit) act" where
  "record_rpc_runtime_failure en chain_id probe reason =
     bindS (transact en (record_rpc_runtime_failure_cursor (re_pg en) chain_id probe reason) (\<lambda>_ w. w)) (\<lambda>(_, was_selected).
     modifyS (\<lambda>w. if was_selected then w\<lparr>w_endpoint_id := None\<rparr> else w))"

definition write_height :: "run_env \<Rightarrow> parsed_height \<Rightarrow> string \<Rightarrow> int \<Rightarrow> (world, unit) act" where
  "write_height en parsed chain_id finalized_tip w =
     transact en (\<lambda>d. bindE (write_height_cursor (re_pg en) parsed chain_id finalized_tip (w_endpoint_id w) d) (\<lambda>d'. Inr ((), d')))
       (\<lambda>_ w. w) w"

section \<open>What a transaction does to the database\<close>

lemma transact_db:
  assumes "transact en f assign w = (r, w')" and "\<And>x v. w_db (assign x v) = w_db v"
  shows "w_db w' = w_db w \<and> (\<forall>x. r = Inr x \<longrightarrow> f (w_db w) = Inr (x, w_db w)) \<or> (\<exists>x. f (w_db w) = Inr (x, w_db w') \<and> (r = Inr x \<or> r = Inl OperationalError))"
proof (cases "f (w_db w)")
  case (Inl e)
  with assms show ?thesis by (auto simp: transact_def Let_def split: if_splits)
next
  case (Inr xd)
  with assms show ?thesis by (cases xd) (auto simp: transact_def Let_def split: if_splits option.splits db_fault.splits)
qed

lemma transact_Inr:
  assumes "transact en f assign w = (Inr x, w')"
  shows "f (w_db w) = Inr (x, w_db w')"
  using assms by (auto simp: transact_def Let_def split: if_splits sum.splits prod.splits option.splits db_fault.splits)

text \<open>An invariant of the cursor function is an invariant of the transaction, whatever its outcome.\<close>

lemma transact_inv:
  assumes "transact en f assign w = (r, w')" and "\<And>x v. w_db (assign x v) = w_db v"
    and "\<And>x d. f (w_db w) = Inr (x, d) \<Longrightarrow> P d" and "P (w_db w)"
  shows "P (w_db w')"
  using transact_db [OF assms(1,2)] assms(3,4) by metis

lemma query_db: "query en f w = (r, w') \<Longrightarrow> w_db w' = w_db w"
  unfolding query_def by (drule transact_db) (auto simp: bindE_Inr_iff)

lemma query_Inr: "query en f w = (Inr x, w') \<Longrightarrow> f (w_db w) = Inr x"
  unfolding query_def by (drule transact_Inr) (auto simp: bindE_Inr_iff)

text \<open>A fault-free step.\<close>

lemma transact_ok:
  "re_fault en (w_conn w) = None \<Longrightarrow> f (w_db w) = Inr (x, d) \<Longrightarrow>
   transact en f assign w = (Inr x, (assign x (w\<lparr>w_conn := w_conn w + 1\<rparr>))\<lparr>w_db := d\<rparr>)"
  by (simp add: transact_def)

lemma query_ok:
  "re_fault en (w_conn w) = None \<Longrightarrow> f (w_db w) = Inr x \<Longrightarrow> query en f w = (Inr x, w\<lparr>w_conn := w_conn w + 1\<rparr>)"
  unfolding query_def by (subst transact_ok) auto

end
