(* ===== verification/Runner.thy ===== *)
theory Runner
  imports Indexer_World
begin

text \<open>
  One cycle of the continuous indexer, \<open>run_cycle\<close> of \<open>indexer/runner.py\<close>: probe the endpoints, record the cycle,
  then either confirm an endpoint at the tip or process a batch of heights, failing over between endpoints. The
  endpoints of one cycle answer through \<open>ce_net\<close>, a function of URL, method and height (the cycle asks no endpoint the
  same question twice). The local variables of the loops are a record; log lines are left out.
\<close>

section \<open>Configuration and results\<close>

record continuous_config =
  cc_start_height :: "int option"
  cc_batch_size :: int
  cc_poll_interval_seconds :: int
  cc_error_backoff_seconds :: int
  cc_max_backoff_seconds :: int
  cc_hard_max_heights :: int
  cc_once :: bool
  cc_max_cycles :: "int option"

record cycle_result =
  cy_processed :: "int list"
  cy_checkpoint_before :: "int option"
  cy_checkpoint_after :: "int option"
  cy_finalized_tip :: "int option"
  cy_planned_start :: "int option"
  cy_planned_end :: "int option"

definition validate_continuous_config :: "continuous_config \<Rightarrow> unit res" where
  "validate_continuous_config config =
     bindE (checkE (\<lambda>(name, value). guardE (1 \<le> value) (FatalIndexerError (name @ '' must be positive'')))
       [(''batch_size'', cc_batch_size config), (''poll_interval_seconds'', cc_poll_interval_seconds config),
        (''error_backoff_seconds'', cc_error_backoff_seconds config), (''max_backoff_seconds'', cc_max_backoff_seconds config),
        (''hard_max_heights'', cc_hard_max_heights config)]) (\<lambda>_.
     bindE (guardE (cc_batch_size config \<le> cc_hard_max_heights config)
       (FatalIndexerError ''batch_size must be <= INDEXER_HARD_MAX_HEIGHTS'')) (\<lambda>_.
     bindE (guardE (opt_check (\<lambda>h. 1 \<le> h) (cc_start_height config)) (FatalIndexerError ''start_height must be positive'')) (\<lambda>_.
     bindE (guardE (opt_check (\<lambda>n. 1 \<le> n) (cc_max_cycles config)) (FatalIndexerError ''max_cycles must be positive'')) (\<lambda>_.
     guardE (cc_error_backoff_seconds config \<le> cc_max_backoff_seconds config)
       (FatalIndexerError ''error_backoff_seconds must be <= max_backoff_seconds'')))))"

section \<open>Candidates and failures\<close>

definition height_of :: "rpc_probe \<Rightarrow> int" where
  "height_of p = (case latest_height p of None \<Rightarrow> 0 | Some h \<Rightarrow> h)"

text \<open>A suitable probe always has a height.\<close>

definition candidate_probes :: "rpc_probe list \<Rightarrow> int \<Rightarrow> rpc_probe list" where
  "candidate_probes probes required_height =
     filter (\<lambda>p. required_height - 1 \<le> height_of p) (suitable_rpc_probes probes)"

definition is_endpoint_error :: "py_error \<Rightarrow> bool" where
  "is_endpoint_error e = (is_RpcError e \<or> is_OSError e)"

definition endpoint_failure_reason :: "py_error \<Rightarrow> string" where
  "endpoint_failure_reason e = (case e of
      RpcContinuityError reason \<Rightarrow> take 80 reason
    | TimeoutError \<Rightarrow> ''timeout''
    | OSError \<Rightarrow> ''transport_error''
    | RpcError _ \<Rightarrow> ''rpc_error''
    | _ \<Rightarrow> ''malformed_payload'')"

definition activate_candidate ::
  "run_env \<Rightarrow> rpc_net \<Rightarrow> string \<Rightarrow> rpc_probe \<Rightarrow> (int \<times> string) option \<Rightarrow> string \<Rightarrow> (world, unit) act" where
  "activate_candidate en net chain_id probe anchor reason =
     bindS (liftS (case anchor of None \<Rightarrow> Inr () | Some (h, hash) \<Rightarrow> verify_checkpoint_anchor net (url probe) h hash)) (\<lambda>_.
     select_rpc_endpoint en chain_id probe reason)"

text \<open>\<open>reject\<close>; the caller adds the URL to the excluded ones.\<close>

definition reject_probe :: "run_env \<Rightarrow> string \<Rightarrow> rpc_probe \<Rightarrow> py_error \<Rightarrow> (world, string) act" where
  "reject_probe en chain_id probe e =
     bindS (modifyS (\<lambda>w. w\<lparr>w_sel := drop_candidate (w_sel w)\<rparr>)) (\<lambda>_.
     bindS (record_rpc_runtime_failure en chain_id probe (endpoint_failure_reason e)) (\<lambda>_.
     retS (endpoint_failure_reason e)))"

definition adopt :: "string \<Rightarrow> bool \<Rightarrow> world \<Rightarrow> world" where
  "adopt u fallback w = w\<lparr>w_sel := record_selection_success (w_sel w) u fallback\<rparr>"

section \<open>At the tip\<close>

fun confirm_tip ::
  "run_env \<Rightarrow> rpc_net \<Rightarrow> string \<Rightarrow> (int \<times> string) option \<Rightarrow> int option \<Rightarrow> string \<Rightarrow> nat \<Rightarrow> bool \<Rightarrow> rpc_probe list
    \<Rightarrow> (world, cycle_result) act" where
  "confirm_tip en net chain_id anchor checkpoint selection_reason first fallback [] w =
     (Inl (RpcError ''All RPC endpoints failed checkpoint continuity''), w)"
| "confirm_tip en net chain_id anchor checkpoint selection_reason first fallback (p # ps) w =
     (let reason = (if oid p = first then selection_reason else ''selected_unavailable'') in
      case activate_candidate en net chain_id p anchor reason w of
        (Inr _, w1) \<Rightarrow>
          (Inr \<lparr>cy_processed = [], cy_checkpoint_before = checkpoint, cy_checkpoint_after = checkpoint,
                cy_finalized_tip = Some (height_of p - 1), cy_planned_start = None, cy_planned_end = None\<rparr>,
           adopt (url p) fallback w1)
      | (Inl e, w1) \<Rightarrow>
          if is_endpoint_error e
          then bindS (reject_probe en chain_id p e) (\<lambda>_.
                 confirm_tip en net chain_id anchor checkpoint selection_reason first True ps) w1
          else (Inl e, w1))"

section \<open>A batch of heights\<close>

record loop_vars =
  lv_excluded :: "string list"
  lv_activated :: "string list"
  lv_active :: "rpc_probe option"
  lv_parent :: "string option"
  lv_pending_failed :: "string option"
  lv_pending_reason :: "string option"
  lv_processed :: "int list"

definition expected_hash :: "string option \<Rightarrow> jobj \<Rightarrow> string res" where
  "expected_hash parent payload = (case parent of
      Some expected \<Rightarrow> verify_parent_continuity payload expected
    | None \<Rightarrow> canonical_block_hash_hex payload)"

definition process_height ::
  "run_env \<Rightarrow> rpc_net \<Rightarrow> string \<Rightarrow> rpc_probe \<Rightarrow> int \<Rightarrow> string option \<Rightarrow> (world, string) act" where
  "process_height en net chain_id probe height parent =
     bindS (liftS (fetch_height net (url probe) height)) (\<lambda>(block_payload, block_results_payload, commit_payload, validators_payload).
     bindS (liftS (expected_hash parent block_payload)) (\<lambda>block_hash.
     bindS (liftS (parse_height height block_payload block_results_payload commit_payload validators_payload (re_decoder en))) (\<lambda>parsed.
     bindS (write_height en parsed chain_id (height_of probe - 1)) (\<lambda>_.
     retS block_hash))))"

definition activation_reason :: "string option \<Rightarrow> string \<Rightarrow> bool \<Rightarrow> string" where
  "activation_reason pending selection_reason is_first =
     (case pending of
        Some r \<Rightarrow> if r \<noteq> [] then r else if is_first then selection_reason else ''selected_unavailable''
      | None \<Rightarrow> if is_first then selection_reason else ''selected_unavailable'')"

text \<open>The activation of an endpoint not used before in this cycle, then the height itself.\<close>

definition attempt ::
  "run_env \<Rightarrow> rpc_net \<Rightarrow> string \<Rightarrow> string \<Rightarrow> nat \<Rightarrow> int \<Rightarrow> rpc_probe \<Rightarrow> loop_vars \<Rightarrow> world \<Rightarrow> (string res \<times> loop_vars) \<times> world" where
  "attempt en net chain_id selection_reason first height p L w =
     (case (if url p \<in> set (lv_activated L) then retS ()
            else activate_candidate en net chain_id p (map_option (\<lambda>h. (height - 1, h)) (lv_parent L))
                   (activation_reason (lv_pending_reason L) selection_reason (oid p = first))) w of
        (Inl e, w1) \<Rightarrow> ((Inl e, L), w1)
      | (Inr _, w1) \<Rightarrow>
          (case process_height en net chain_id p height (lv_parent L) w1 of
             (r, w2) \<Rightarrow> ((r, L\<lparr>lv_activated := List.insert (url p) (lv_activated L)\<rparr>), w2)))"

fun try_candidates ::
  "run_env \<Rightarrow> rpc_net \<Rightarrow> string \<Rightarrow> string \<Rightarrow> nat \<Rightarrow> int \<Rightarrow> rpc_probe list \<Rightarrow> nat \<Rightarrow> py_error option \<Rightarrow> loop_vars
    \<Rightarrow> (world, nat \<times> py_error option \<times> loop_vars) act" where
  "try_candidates en net chain_id selection_reason first height [] attempts last_error L w = (Inr (attempts, last_error, L), w)"
| "try_candidates en net chain_id selection_reason first height (p # ps) attempts last_error L w =
     (if url p \<in> set (lv_excluded L) \<or> latest_height p = None \<or> height_of p - 1 < height
      then try_candidates en net chain_id selection_reason first height ps attempts last_error L w
      else case attempt en net chain_id selection_reason first height p L w of
             ((Inr block_hash, L1), w1) \<Rightarrow>
               (Inr (attempts + 1, last_error,
                     L1\<lparr>lv_active := Some p, lv_parent := Some block_hash, lv_processed := lv_processed L1 @ [height],
                        lv_pending_failed := None, lv_pending_reason := None\<rparr>),
                adopt (url p) (lv_pending_failed L \<noteq> None) w1)
           | ((Inl e, L1), w1) \<Rightarrow>
               if is_endpoint_error e
               then bindS (reject_probe en chain_id p e) (\<lambda>reason.
                      try_candidates en net chain_id selection_reason first height ps (attempts + 1) (Some e)
                        (L1\<lparr>lv_excluded := url p # lv_excluded L1, lv_pending_failed := Some (url p),
                            lv_pending_reason := Some reason\<rparr>)) w1
               else (Inl e, w1))"

definition ordered_candidates :: "rpc_probe option \<Rightarrow> rpc_probe list \<Rightarrow> rpc_probe list" where
  "ordered_candidates active candidates =
     (case active of None \<Rightarrow> candidates | Some a \<Rightarrow> a # filter (\<lambda>p. oid p \<noteq> oid a) candidates)"

fun run_heights ::
  "run_env \<Rightarrow> rpc_net \<Rightarrow> string \<Rightarrow> string \<Rightarrow> rpc_probe list \<Rightarrow> int list \<Rightarrow> loop_vars \<Rightarrow> (world, loop_vars) act" where
  "run_heights en net chain_id selection_reason candidates [] L w = (Inr L, w)"
| "run_heights en net chain_id selection_reason candidates (height # heights) L w =
     (if stop_requested en w then (Inr L, polled w)
      else case try_candidates en net chain_id selection_reason (oid (hd candidates)) height
                  (ordered_candidates (lv_active L) candidates) 0 None (L\<lparr>lv_active := None\<rparr>) (polled w) of
             (Inl e, w1) \<Rightarrow> (Inl e, w1)
           | (Inr (attempts, last_error, L1), w1) \<Rightarrow>
               if lv_active L1 = None
               then (Inl (case last_error of
                            Some e \<Rightarrow> if attempts = 1 then e else RpcError ''All RPC candidates failed at height ''
                          | None \<Rightarrow> RpcError ''All RPC candidates failed at height ''), w1)
               else run_heights en net chain_id selection_reason candidates heights L1 w1)"

section \<open>The cycle\<close>

definition process_batch ::
  "run_env \<Rightarrow> rpc_net \<Rightarrow> string \<Rightarrow> continuous_config \<Rightarrow> int option \<Rightarrow> string option \<Rightarrow> int \<Rightarrow> rpc_probe list \<Rightarrow> (world, cycle_result) act" where
  "process_batch en net chain_id config checkpoint parent next_height candidates w =
     (let ((ordered, selection_reason), sel') = order_indexer_candidates (filter (\<lambda>p. next_height \<le> height_of p - 1) candidates) (w_sel w);
          planned_end = min (max_list (map (\<lambda>p. height_of p - 1) ordered)) (next_height + cc_batch_size config - 1);
          L = \<lparr>lv_excluded = [], lv_activated = [], lv_active = None, lv_parent = parent, lv_pending_failed = None,
               lv_pending_reason = None, lv_processed = []\<rparr> in
      bindS (run_heights en net chain_id selection_reason ordered [next_height..planned_end] L) (\<lambda>L1.
      bindS (get_checkpoint en chain_id) (\<lambda>checkpoint_after.
      retS \<lparr>cy_processed = lv_processed L1, cy_checkpoint_before = checkpoint, cy_checkpoint_after = checkpoint_after,
            cy_finalized_tip = map_option (\<lambda>p. height_of p - 1) (lv_active L1),
            cy_planned_start = Some next_height, cy_planned_end = Some planned_end\<rparr>)) (w\<lparr>w_sel := sel'\<rparr>))"

definition cycle_at_tip ::
  "run_env \<Rightarrow> rpc_net \<Rightarrow> string \<Rightarrow> (int \<times> string) option \<Rightarrow> int option \<Rightarrow> rpc_probe list \<Rightarrow> (world, cycle_result) act" where
  "cycle_at_tip en net chain_id anchor checkpoint candidates w =
     (let ((ordered, selection_reason), sel') = order_indexer_candidates candidates (w_sel w)
      in confirm_tip en net chain_id anchor checkpoint selection_reason (oid (hd ordered)) False ordered (w\<lparr>w_sel := sel'\<rparr>))"

text \<open>The rest of the cycle, once the probes are recorded.\<close>

definition dispatch_cycle ::
  "run_env \<Rightarrow> rpc_net \<Rightarrow> string \<Rightarrow> continuous_config \<Rightarrow> checkpoint_anchor option \<Rightarrow> int option \<Rightarrow> rpc_probe list \<Rightarrow> (world, cycle_result) act" where
  "dispatch_cycle en net chain_id config anchor checkpoint probes =
     (let next_height = (case checkpoint of None \<Rightarrow> the (cc_start_height config) | Some c \<Rightarrow> c + 1);
          candidates = candidate_probes probes next_height in
      if candidates = [] then liftS (Inl (RpcError ''All RPC endpoints are rejected or unavailable''))
      else if max_list (map (\<lambda>p. height_of p - 1) candidates) < next_height
      then cycle_at_tip en net chain_id (map_option (\<lambda>a. (an_height a, an_hash a)) anchor) checkpoint candidates
      else process_batch en net chain_id config checkpoint (map_option an_hash anchor) next_height candidates)"

definition run_cycle ::
  "run_env \<Rightarrow> cycle_env \<Rightarrow> string \<Rightarrow> string list \<Rightarrow> int \<Rightarrow> continuous_config \<Rightarrow> (world, cycle_result) act" where
  "run_cycle en ce chain_id rpc_urls max_height_lag config =
     bindS (get_checkpoint_anchor en chain_id) (\<lambda>anchor.
     bindS (case anchor of Some a \<Rightarrow> retS (Some (an_height a)) | None \<Rightarrow> get_checkpoint en chain_id) (\<lambda>checkpoint.
     bindS (liftS (guardE (checkpoint \<noteq> None \<or> cc_start_height config \<noteq> None)
              (FatalIndexerError ''--start-height or INDEXER_START_HEIGHT is required for an empty database''))) (\<lambda>_.
     bindS (liftS (probe_rpc_endpoints (ce_reply ce) (ce_dur ce) rpc_urls chain_id max_height_lag)) (\<lambda>probes.
     bindS (record_rpc_probe_cycle en chain_id (map (\<lambda>p. p\<lparr>selected := False\<rparr>) probes)) (\<lambda>_.
     dispatch_cycle en (ce_net ce) chain_id config anchor checkpoint probes)))))"

end
