(* ===== verification/Runner_Steps.thy ===== *)
theory Runner_Steps
  imports Runner
begin

text \<open>
  Whatever a cycle does and however it ends, the database goes through transactions of the indexer only (\<open>db_step\<close>),
  so that every invariant of the transactions is one of the cycle; and no poll of the stop flag is undone.
\<close>

section \<open>A cycle is a sequence of transactions\<close>

definition steps :: "run_env \<Rightarrow> world \<Rightarrow> world \<Rightarrow> bool" where
  "steps en w w' \<longleftrightarrow> (db_step (re_pg en))\<^sup>*\<^sup>* (w_db w) (w_db w') \<and> w_polls w \<le> w_polls w'"

lemma steps_trans: "steps en u v \<Longrightarrow> steps en v w \<Longrightarrow> steps en u w"
  by (auto simp: steps_def)

lemma steps_refl [simp, intro]: "steps en w w"
  by (simp add: steps_def)

lemma steps_upd [simp]:
  "steps en u (w\<lparr>w_sel := s\<rparr>) = steps en u w" "steps en (w\<lparr>w_sel := s\<rparr>) v = steps en w v"
  "steps en u (w\<lparr>w_endpoint_id := i\<rparr>) = steps en u w" "steps en u (adopt a b w) = steps en u w"
  by (simp_all add: steps_def adopt_def)

lemma steps_polled: "steps en (polled w) w' \<Longrightarrow> steps en w w'" "steps en w (polled w)"
  by (simp_all add: steps_def polled_def)

lemma transact_polls:
  "transact en f assign w = (r, w') \<Longrightarrow> (\<And>x v. w_polls (assign x v) = w_polls v) \<Longrightarrow> w_polls w' = w_polls w"
  by (auto simp: transact_def Let_def split: if_splits sum.splits prod.splits option.splits db_fault.splits)

lemma transact_steps:
  assumes "transact en f assign w = (r, w')" and "\<And>x v. w_db (assign x v) = w_db v" and "\<And>x v. w_polls (assign x v) = w_polls v"
    and "\<And>x d. f (w_db w) = Inr (x, d) \<Longrightarrow> db_step (re_pg en) (w_db w) d"
  shows "steps en w w'"
proof -
  have "(db_step (re_pg en))\<^sup>*\<^sup>* (w_db w) (w_db w')"
    by (rule transact_inv [OF assms(1,2), where P = "(db_step (re_pg en))\<^sup>*\<^sup>* (w_db w)"]) (auto dest: assms(4))
  then show ?thesis using transact_polls [OF assms(1,3)] by (simp add: steps_def)
qed

lemma bindS_steps:
  assumes "bindS m f w = (r, w')" and "\<And>r w'. m w = (r, w') \<Longrightarrow> steps en w w'" and "\<And>x v r w'. f x v = (r, w') \<Longrightarrow> steps en v w'"
  shows "steps en w w'"
  using assms(1) by (rule bindS_snd) (auto dest: assms(2,3) intro: steps_trans)

lemma op_steps:
  "select_rpc_endpoint en c probe reason w = (r1, w') \<Longrightarrow> steps en w w'"
  "record_rpc_runtime_failure en c probe reason w = (r1, w') \<Longrightarrow> steps en w w'"
  "record_rpc_probe_cycle en c probes w = (r1, w') \<Longrightarrow> steps en w w'"
  "write_height en ph c tip w = (r1, w') \<Longrightarrow> steps en w w'"
  unfolding select_rpc_endpoint_def record_rpc_runtime_failure_def record_rpc_probe_cycle_def write_height_def
  by (erule bindS_steps transact_steps, auto simp: modifyS_def retS_def bindE_Inr_iff split: prod.splits if_splits
      intro: db_step.intros elim!: transact_steps)+

lemma activate_steps: "activate_candidate en net c probe anchor reason w = (r, w') \<Longrightarrow> steps en w w'"
  unfolding activate_candidate_def by (erule bindS_steps) (auto simp: liftS_def dest: op_steps)

lemma reject_steps: "reject_probe en c probe e w = (r, w') \<Longrightarrow> steps en w w'"
  unfolding reject_probe_def
  by (erule bindS_steps) (auto simp: modifyS_def retS_def elim!: bindS_steps dest: op_steps)

lemma process_height_steps: "process_height en net c probe h parent w = (r, w') \<Longrightarrow> steps en w w'"
  unfolding process_height_def
  by (auto elim!: bindS_steps simp: liftS_def retS_def split: prod.splits dest: op_steps)

lemma attempt_steps:
  assumes "attempt en net c reason first h p L w = (x, w')"
  shows "steps en w w'"
proof -
  obtain a w0 where act: "(if url p \<in> set (lv_activated L) then retS ()
            else activate_candidate en net c p (map_option (\<lambda>x. (h - 1, x)) (lv_parent L))
                   (activation_reason (lv_pending_reason L) reason (oid p = first))) w = (a, w0)" by fastforce
  then have "steps en w w0" by (auto simp: retS_def split: if_splits dest: activate_steps)
  moreover have "steps en w0 w'" using assms act
    by (cases a) (auto simp: attempt_def split: prod.splits dest: process_height_steps)
  ultimately show ?thesis by (rule steps_trans)
qed

lemma adopt_polled_db [simp]: "w_db (adopt u b w) = w_db w" "w_db (polled w) = w_db w"
  by (simp_all add: adopt_def polled_def)

lemma try_candidates_steps:
  "try_candidates en net c reason first h ps n e L w = (r, w') \<Longrightarrow> steps en w w'"
proof (induction ps arbitrary: n e L w)
  case (Cons p ps)
  obtain x L1 w1 where at: "attempt en net c reason first h p L w = ((x, L1), w1)" by (metis prod.exhaust)
  note s1 = attempt_steps [OF at]
  have rej: "steps en w1 w'" if "bindS (reject_probe en c p e1) k w1 = (r, w')"
    and "\<And>y v. k y v = (r, w') \<Longrightarrow> steps en v w'" for e1 k
    using that(1) by (rule bindS_snd) (auto dest: reject_steps that(2) intro: steps_trans)
  show ?case
  proof (cases "url p \<in> set (lv_excluded L) \<or> latest_height p = None \<or> height_of p - 1 < h")
    case True
    with Cons show ?thesis by auto
  next
    case False
    with Cons.prems at s1 show ?thesis
      by (cases x) (auto split: if_splits intro: steps_trans dest!: rej Cons.IH)
  qed
qed simp

lemma run_heights_steps: "run_heights en net c reason cs hs L w = (r, w') \<Longrightarrow> steps en w w'"
proof (induction hs arbitrary: L w)
  case (Cons h hs)
  show ?case
  proof (cases "stop_requested en w")
    case False
    obtain t w1 where t: "try_candidates en net c reason (oid (hd cs)) h (ordered_candidates (lv_active L) cs) 0 None
        (L\<lparr>lv_active := None\<rparr>) (polled w) = (t, w1)" by fastforce
    note s = steps_polled(1) [OF try_candidates_steps [OF t]]
    with Cons.prems False t show ?thesis
      by (cases t) (auto split: prod.splits if_splits intro: steps_trans dest!: Cons.IH)
  qed (use Cons.prems in \<open>auto intro: steps_polled(2)\<close>)
qed simp

lemma confirm_tip_steps: "confirm_tip en net c anchor cp reason first fb ps w = (r, w') \<Longrightarrow> steps en w w'"
proof (induction ps arbitrary: fb w)
  case (Cons p ps)
  obtain a w1 where a: "activate_candidate en net c p anchor (if oid p = first then reason else ''selected_unavailable'') w = (a, w1)"
    by fastforce
  note s1 = activate_steps [OF a]
  have rej: "steps en w1 w'" if "bindS (reject_probe en c p e1) (\<lambda>_. confirm_tip en net c anchor cp reason first True ps) w1 = (r, w')" for e1
    using that by (rule bindS_snd) (auto dest: reject_steps Cons.IH intro: steps_trans)
  show ?case
  proof (cases a)
    case (Inl e)
    then consider "w' = w1" | "bindS (reject_probe en c p e) (\<lambda>_. confirm_tip en net c anchor cp reason first True ps) w1 = (r, w')"
      using Cons.prems a by (cases "is_endpoint_error e") (auto simp: Let_def)
    then show ?thesis using s1 rej by cases (auto intro: steps_trans)
  qed (use Cons.prems a s1 in \<open>auto simp: Let_def\<close>)
qed simp

lemma query_steps: "query en f w = (r, w') \<Longrightarrow> steps en w w'"
  using query_db [of en f w r w'] transact_polls [of en _ _ w r w'] by (auto simp: steps_def query_def)

lemma process_batch_steps:
  assumes "process_batch en net c cfg cp parent a cs w = (r, w')"
  shows "steps en w w'"
proof -
  obtain ordered reason sel' where ord: "order_indexer_candidates (filter (\<lambda>p. a \<le> height_of p - 1) cs) (w_sel w) = ((ordered, reason), sel')"
    by (metis prod.exhaust)
  have "steps en (w\<lparr>w_sel := sel'\<rparr>) w'"
    using assms unfolding process_batch_def ord Let_def prod.case get_checkpoint_def
    by (elim bindS_steps) (auto simp: retS_def dest: run_heights_steps query_steps)
  then show ?thesis by simp
qed

lemma dispatch_steps: "dispatch_cycle en net c cfg anchor cp probes w = (r, w') \<Longrightarrow> steps en w w'"
  unfolding dispatch_cycle_def cycle_at_tip_def
  by (auto simp: Let_def liftS_def split: if_splits prod.splits dest!: confirm_tip_steps dest: process_batch_steps)

lemma run_cycle_advances: "run_cycle en ce c urls lag cfg w = (r, w') \<Longrightarrow> steps en w w'"
  unfolding run_cycle_def get_checkpoint_anchor_def get_checkpoint_def
  by (auto simp: liftS_def retS_def elim!: bindS_steps dest: query_steps op_steps dispatch_steps split: option.splits)

lemma run_cycle_steps: "run_cycle en ce c urls lag cfg w = (r, w') \<Longrightarrow> (db_step (re_pg en))\<^sup>*\<^sup>* (w_db w) (w_db w')"
  and run_cycle_polls: "run_cycle en ce c urls lag cfg w = (r, w') \<Longrightarrow> w_polls w \<le> w_polls w'"
  by (auto dest: run_cycle_advances simp: steps_def)

end
