(* ===== verification/Runner_Chain.thy ===== *)
theory Runner_Chain
  imports Runner_Steps
begin

text \<open>
  What the continuous indexer guarantees of the database: whatever the endpoints answer and wherever the server
  fails, the stored blocks form a hash-linked chain that ends at the checkpoint, finalized rows are never changed,
  and a cycle that returns has processed consecutive heights.
\<close>

section \<open>The stored chain\<close>

text \<open>Consecutive stored blocks are linked: the later one was stored from a payload that names the hash of the earlier one.\<close>

definition chain_linked :: "pg \<Rightarrow> db \<Rightarrow> bool" where
  "chain_linked p d \<longleftrightarrow> (\<forall>h r r'. map_of (blocks d) h = Some r \<and> map_of (blocks d) (h + 1) = Some r' \<longrightarrow>
     (\<exists>payload. bind_jsonb p (JObj payload) = Inr (br_raw r') \<and> parent_block_hash_hex payload = Inr (br_hash_hex r)))"

definition blocks_upto :: "db \<Rightarrow> bool" where
  "blocks_upto d \<longleftrightarrow> (case indexer_state d of
      None \<Rightarrow> blocks d = []
    | Some s \<Rightarrow> (\<forall>h r. map_of (blocks d) h = Some r \<longrightarrow> h \<le> is_last_finalized s))"

definition chain_ok :: "pg \<Rightarrow> db \<Rightarrow> bool" where
  "chain_ok p d \<longleftrightarrow> chain_linked p d \<and> blocks_upto d"

text \<open>The checkpoint at \<open>h\<close>, with the hash of its block.\<close>

definition tip_is :: "db \<Rightarrow> string \<Rightarrow> int \<Rightarrow> string \<Rightarrow> bool" where
  "tip_is d c h hash \<longleftrightarrow> get_checkpoint_cursor d c = Inr (Some h) \<and> py_upper hash = hash \<and>
     (\<exists>r. map_of (blocks d) h = Some r \<and> br_hash_hex r = hash)"

lemma write_blocks:
  assumes "write_height_cursor p ph c tip e d = Inr d'"
  obtains d1 where "upsert_block p ph d = Inr d1" "blocks d' = blocks d1"
  using assms
proof (rule write_height_run)
  fix cp d1 d2 d3 d4 d5 d6 d7 d8 r5 r6
  assume s: "upsert_block p ph d = Inr d1" "upsert_transactions p ph e d1 = Inr d2"
      "replace_realm_calls_for_height ph c d2 = Inr d3" "upsert_realm_catalog p ph c d3 = Inr d4"
      "advance_realm_call_coverage c (ph_height ph) (cp = None) d4 = Inr (r5, d5)"
      "advance_realm_activity_coverage c (ph_height ph) d5 = Inr (r6, d6)"
      "upsert_validators_and_members p ph d6 = Inr d7" "upsert_signatures p ph d7 = Inr d8"
      "advance_checkpoint d8 (ph_height ph) cp c tip e = Inr d'"
  have "blocks d' = blocks d1"
    using s(2) [THEN upsert_transactions_fields] s(3) [THEN replace_calls_fields] s(4) [THEN upsert_realm_catalog_fields]
      s(5) [THEN call_coverage_fields] s(6) [THEN activity_coverage_fields] s(7) [THEN upsert_validators_fields]
      s(8) [THEN upsert_signatures_fields] s(9) [THEN advance_checkpoint_fields] by simp
  with s(1) show thesis by (rule that)
qed

lemma bound_block_fields:
  assumes "bound_block p ph = Inr row" and "pg_faithful p"
  shows "br_hash_hex row = pb_hash_hex (ph_block ph)" "bind_jsonb p (JObj (ph_raw_block ph)) = Inr (br_raw row)"
proof -
  obtain b64 hex tm pr raw where "text_nn p ''block_hash_hex'' (JStr (pb_hash_hex (ph_block ph))) = Inr hex"
    "json_param p (JObj (ph_raw_block ph)) = Inr raw"
    "row = \<lparr>br_hash_base64 = b64, br_hash_hex = hex, br_time = tm, br_proposer = pr, br_tx_count = pb_tx_count (ph_block ph), br_raw = raw\<rparr>"
    using assms(1) unfolding bound_block_def Let_def res_simps sum.inject by metis
  then show "br_hash_hex row = pb_hash_hex (ph_block ph)" "bind_jsonb p (JObj (ph_raw_block ph)) = Inr (br_raw row)"
    using faithful_binds(1) [OF assms(2)] by (auto simp: json_param_def)
qed

text \<open>A new height stores its own block after the checkpoint.\<close>

lemma write_new_height:
  assumes w: "write_height_cursor p ph c tip e d = Inr d'" and "pg_faithful p" and "chain_ok p d"
    and cp: "get_checkpoint_cursor d c = Inr cp" and new: "\<And>k. cp = Some k \<Longrightarrow> ph_height ph = k + 1"
    and parent: "\<And>k r. cp = Some k \<Longrightarrow> map_of (blocks d) k = Some r \<Longrightarrow> parent_block_hash_hex (ph_raw_block ph) = Inr (br_hash_hex r)"
  shows "chain_ok p d'" and "get_checkpoint_cursor d' c = Inr (Some (ph_height ph))"
    and "\<exists>r. map_of (blocks d') (ph_height ph) = Some r \<and> br_hash_hex r = pb_hash_hex (ph_block ph)"
proof -
  let ?h = "ph_height ph"
  have linked: "chain_linked p d" and upto: "blocks_upto d" using assms(3) by (auto simp: chain_ok_def)
  have later: "map_of (blocks d) h = None" if "?h \<le> h" for h
  proof (cases "indexer_state d")
    case None
    with upto show ?thesis by (simp add: blocks_upto_def)
  next
    case (Some s)
    with cp have "cp = Some (is_last_finalized s)" by (auto simp: get_checkpoint_cursor_def res_simps)
    then show ?thesis using upto new Some that by (cases "map_of (blocks d) h") (fastforce simp: blocks_upto_def)+
  qed
  obtain d1 where d1: "upsert_block p ph d = Inr d1" "blocks d' = blocks d1" by (rule write_blocks [OF w])
  obtain row where row: "bound_block p ph = Inr row" and bd: "blocks d' = AList.update ?h row (blocks d)"
    using d1 later [of ?h] by (auto simp: upsert_block_def res_simps)
  have mo: "map_of (blocks d') = (map_of (blocks d))(?h \<mapsto> row)" by (simp add: bd update_conv')
  note bf = bound_block_fields [OF row assms(2)]
  show "\<exists>r. map_of (blocks d') ?h = Some r \<and> br_hash_hex r = pb_hash_hex (ph_block ph)" using bf(1) by (simp add: mo)
  show cp': "get_checkpoint_cursor d' c = Inr (Some ?h)"
  proof (rule write_control [OF w])
    fix cp1 d8 assume a: "get_checkpoint_cursor d c = Inr cp1" "indexer_state d8 = indexer_state d" "advance_checkpoint d8 ?h cp1 c tip e = Inr d'"
    have "cp1 = cp" using a(1) cp by simp
    then show ?thesis using advance_checkpoint_value [OF a(3,1,2)] new by (auto split: option.splits)
  qed
  then obtain s' where s': "indexer_state d' = Some s'" "is_last_finalized s' = ?h"
    by (auto simp: get_checkpoint_cursor_def res_simps split: option.splits)
  have "blocks_upto d'" unfolding blocks_upto_def s'(1) option.case s'(2) mo
    using later by (metis fun_upd_apply linorder_le_cases option.distinct(1) order.refl)
  moreover have "chain_linked p d'" unfolding chain_linked_def mo
  proof (intro allI impI)
    fix h r r' assume "((map_of (blocks d))(?h \<mapsto> row)) h = Some r \<and> ((map_of (blocks d))(?h \<mapsto> row)) (h + 1) = Some r'"
    then have r: "((map_of (blocks d))(?h \<mapsto> row)) h = Some r" "((map_of (blocks d))(?h \<mapsto> row)) (h + 1) = Some r'" by blast+
    have "h < ?h" using r later [of "h + 1"] by (cases "h < ?h") (auto split: if_splits)
    then have rd: "map_of (blocks d) h = Some r" using r(1) by simp
    show "\<exists>payload. bind_jsonb p (JObj payload) = Inr (br_raw r') \<and> parent_block_hash_hex payload = Inr (br_hash_hex r)"
    proof (cases "h + 1 = ?h")
      case False
      then show ?thesis using linked rd r(2) unfolding chain_linked_def by auto
    next
      case True
      have "cp = Some h"
      proof (cases cp)
        case None
        then have "indexer_state d = None" using cp by (auto simp: get_checkpoint_cursor_def res_simps split: option.splits)
        then show ?thesis using upto rd by (simp add: blocks_upto_def)
      qed (use new True in auto)
      then have "parent_block_hash_hex (ph_raw_block ph) = Inr (br_hash_hex r)" using parent rd by blast
      then show ?thesis using bf(2) r(2) True by auto
    qed
  qed
  ultimately show "chain_ok p d'" by (simp add: chain_ok_def)
qed

section \<open>The two readings of a block's hash\<close>

lemma parse_height_block:
  assumes "parse_height h bp rp cp vp dec = Inr ph"
  shows "ph_height ph = h" "ph_raw_block ph = bp" "\<exists>block. parse_block bp dec = Inr block \<and> ph_block ph = block"
proof -
  obtain block and c :: commit_info and vd :: validators_info and sigs ers where
    b: "parse_block bp dec = Inr block"
    and ph: "\<lparr>ph_height = h, ph_block = block, ph_transactions = pb_transactions block,
      ph_execution_results = ers, ph_validators = vs_validators vd, ph_signatures = sigs, ph_raw_block = bp\<rparr> = ph"
    using assms unfolding parse_height_def res_simps sum.inject
    apply -
    apply (elim exE conjE)
    apply (rule that)
    apply assumption+
    done
  show "ph_height ph = h" "ph_raw_block ph = bp" "\<exists>block. parse_block bp dec = Inr block \<and> ph_block ph = block"
    using b by (simp_all flip: ph)
qed

lemma parse_block_hash:
  assumes "parse_block bp dec = Inr block" and "canonical_block_hash_hex bp = Inr hash"
  shows "pb_hash_hex block = hash"
proof -
  obtain r m b v bs where r: "map_of bp ''result'' = Some (JObj r)" "map_of r ''block_meta'' = Some (JObj m)"
    "map_of m ''block_id'' = Some (JObj b)" "map_of b ''hash'' = Some v" "decode_base64 v = Inr bs" "hash = hex_upper bs"
    using assms(2)
    by (auto simp: canonical_block_hash_hex_def jsub_def bindE_Inr_iff split: sum.splits if_splits json.splits option.splits)
  have res: "result bp = r" by (simp add: result_def oget_default_def r)
  obtain parsed where "legacy_parse_block bp = Inr parsed" "pb_hash_hex block = bi_hash_hex parsed"
    using assms(1) by (auto simp: parse_block_def res_simps)
  moreover from this have "bi_hash_hex parsed = hash"
    unfolding legacy_parse_block_def Let_def res
    by (auto simp: res_simps jget_default_def jget_def as_dict_def oget_default_def oget_def r split: option.splits)
  ultimately show ?thesis by simp
qed

lemma canonical_hash_upper: "canonical_block_hash_hex payload = Inr hash \<Longrightarrow> py_upper hash = hash"
  using hex_upper_alphabet
  by (auto simp: canonical_block_hash_hex_def py_upper_def list_all_iff split: sum.splits if_splits intro!: map_idI upper_hex_upper_id)

section \<open>The chain under endpoint bookkeeping\<close>

lemma chain_part_cong:
  assumes "chain_part d' = chain_part d"
  shows "chain_ok p d' = chain_ok p d" "get_checkpoint_cursor d' c = get_checkpoint_cursor d c" "tip_is d' c h x = tip_is d c h x"
    "finalized_le e d' = finalized_le e d"
  using chain_part_fields [OF assms]
  by (simp_all add: chain_ok_def chain_linked_def blocks_upto_def get_checkpoint_cursor_def tip_is_def finalized_le_def
      split: option.splits)

section \<open>The steps of a cycle\<close>

lemma select_step: "select_rpc_endpoint en c probe reason w = (r, w') \<Longrightarrow> chain_part (w_db w') = chain_part (w_db w)"
  unfolding select_rpc_endpoint_def
  by (erule bindS_snd; drule transact_inv [where P = "\<lambda>d. chain_part d = chain_part (w_db w)"])
    (auto simp: modifyS_def dest: select_chain_part)

lemma failure_step: "record_rpc_runtime_failure en c probe reason w = (r, w') \<Longrightarrow> chain_part (w_db w') = chain_part (w_db w)"
  unfolding record_rpc_runtime_failure_def
  by (erule bindS_snd; drule transact_inv [where P = "\<lambda>d. chain_part d = chain_part (w_db w)"])
    (auto simp: modifyS_def split: prod.splits if_splits dest: failure_chain_part)

lemma probe_cycle_step: "record_rpc_probe_cycle en c probes w = (r, w') \<Longrightarrow> chain_part (w_db w') = chain_part (w_db w)"
  unfolding record_rpc_probe_cycle_def
  by (erule bindS_snd; drule transact_inv [where P = "\<lambda>d. chain_part d = chain_part (w_db w)"])
    (auto simp: retS_def dest: probe_cycle_chain_part)

lemma activate_step: "activate_candidate en net c probe anchor reason w = (r, w') \<Longrightarrow> chain_part (w_db w') = chain_part (w_db w)"
  unfolding activate_candidate_def by (erule bindS_snd) (auto simp: liftS_def dest: select_step)

lemma reject_step: "reject_probe en c probe e w = (r, w') \<Longrightarrow> chain_part (w_db w') = chain_part (w_db w)"
  unfolding reject_probe_def by (auto elim!: bindS_snd simp: modifyS_def retS_def dest!: failure_step)

text \<open>
  A height attempt either leaves the database as it is, or has written the height it parsed from a payload whose hash
  was checked; in the second case it does not fail with an endpoint error.
\<close>

lemma process_height_db:
  assumes "process_height en net c probe height parent w = (r, w')"
  shows "w_db w' = w_db w \<and> (\<forall>x. r \<noteq> Inr x) \<or>
    (\<exists>payload rp cp vp hash ph. expected_hash parent payload = Inr hash \<and>
       parse_height height payload rp cp vp (re_decoder en) = Inr ph \<and>
       write_height_cursor (re_pg en) ph c (height_of probe - 1) (w_endpoint_id w) (w_db w) = Inr (w_db w') \<and>
       (r = Inr hash \<or> r = Inl OperationalError))"
  using assms unfolding process_height_def
proof (rule bindS_snd)
  fix e assume "liftS (fetch_height net (url probe) height) w = (Inl e, w')" "r = Inl e"
  then show ?thesis by (simp add: liftS_def)
next
  fix x w1 assume x: "liftS (fetch_height net (url probe) height) w = (Inr x, w1)"
    and rest: "(case x of (payload, rp, cp, vp) \<Rightarrow> bindS (liftS (expected_hash parent payload)) (\<lambda>hash.
      bindS (liftS (parse_height height payload rp cp vp (re_decoder en))) (\<lambda>ph.
      bindS (write_height en ph c (height_of probe - 1)) (\<lambda>_. retS hash)))) w1 = (r, w')"
  have [simp]: "w1 = w" using x by (simp add: liftS_def)
  obtain payload rp cp vp where xx: "x = (payload, rp, cp, vp)" by (cases x)
  show ?thesis
  proof (cases "expected_hash parent payload")
    case (Inl e)
    with rest show ?thesis by (auto simp: xx bindS_def liftS_def)
  next
    case (Inr hash)
    show ?thesis
    proof (cases "parse_height height payload rp cp vp (re_decoder en)")
      case (Inl e)
      with rest Inr show ?thesis by (auto simp: xx bindS_def liftS_def)
    next
      case ph: (Inr ph)
      obtain r1 w2 where w2: "write_height en ph c (height_of probe - 1) w = (r1, w2)" by (cases "write_height en ph c (height_of probe - 1) w")
      with rest Inr ph have w': "w' = w2" "r = (case r1 of Inl e \<Rightarrow> Inl e | Inr _ \<Rightarrow> Inr hash)"
        by (auto simp: xx bindS_def liftS_def retS_def split: sum.splits)
      let ?f = "\<lambda>d. bindE (write_height_cursor (re_pg en) ph c (height_of probe - 1) (w_endpoint_id w) d) (\<lambda>d'. Inr ((), d'))"
      have "w_db w2 = w_db w \<and> (\<forall>x. r1 = Inr x \<longrightarrow> ?f (w_db w) = Inr (x, w_db w)) \<or>
          (\<exists>x. ?f (w_db w) = Inr (x, w_db w2) \<and> (r1 = Inr x \<or> r1 = Inl OperationalError))"
        by (rule transact_db [OF w2 [unfolded write_height_def]]) simp
      then show ?thesis
      proof
        assume "w_db w2 = w_db w \<and> (\<forall>x. r1 = Inr x \<longrightarrow> ?f (w_db w) = Inr (x, w_db w))"
        then show ?thesis using w' Inr ph by (cases r1) (auto simp: bindE_Inr_iff, blast)
      next
        assume "\<exists>x. ?f (w_db w) = Inr (x, w_db w2) \<and> (r1 = Inr x \<or> r1 = Inl OperationalError)"
        then show ?thesis using w' Inr ph by (fastforce simp: bindE_Inr_iff)
      qed
    qed
  qed
qed

section \<open>The loops\<close>

text \<open>Before height \<open>h\<close>: the stored chain is linked, and the expected parent is the hash at the checkpoint \<open>h - 1\<close>.\<close>

definition before :: "pg \<Rightarrow> string \<Rightarrow> int \<Rightarrow> string option \<Rightarrow> db \<Rightarrow> bool" where
  "before p c h parent d \<longleftrightarrow> chain_ok p d \<and>
     (case parent of None \<Rightarrow> get_checkpoint_cursor d c = Inr None | Some hash \<Rightarrow> tip_is d c (h - 1) hash)"

lemma before_cong:
  assumes "chain_part d' = chain_part d"
  shows "before p c h parent d' = before p c h parent d"
  unfolding before_def chain_part_cong [OF assms] ..

lemma before_chain: "before p c h parent d \<Longrightarrow> chain_ok p d"
  by (simp add: before_def)

lemma process_height_before:
  assumes run: "process_height en net c probe height parent w = (r, w')" and "pg_faithful (re_pg en)"
    and pre: "before (re_pg en) c height parent (w_db w)"
  shows "chain_ok (re_pg en) (w_db w')"
    and "r = Inr hash \<Longrightarrow> before (re_pg en) c (height + 1) (Some hash) (w_db w')"
    and "r = Inl e \<Longrightarrow> is_endpoint_error e \<Longrightarrow> w_db w' = w_db w"
proof -
  have "chain_ok (re_pg en) (w_db w') \<and> (r = Inr hash \<longrightarrow> before (re_pg en) c (height + 1) (Some hash) (w_db w')) \<and>
     (r = Inl e \<and> is_endpoint_error e \<longrightarrow> w_db w' = w_db w)"
    using process_height_db [OF run]
  proof
    assume "w_db w' = w_db w \<and> (\<forall>x. r \<noteq> Inr x)"
    then show ?thesis using pre by (auto simp: before_def)
  next
    assume "\<exists>payload rp cp vp hash ph. expected_hash parent payload = Inr hash \<and>
       parse_height height payload rp cp vp (re_decoder en) = Inr ph \<and>
       write_height_cursor (re_pg en) ph c (height_of probe - 1) (w_endpoint_id w) (w_db w) = Inr (w_db w') \<and>
       (r = Inr hash \<or> r = Inl OperationalError)"
    then obtain payload rp cp vp hash' ph where hash: "expected_hash parent payload = Inr hash'"
      and parsed: "parse_height height payload rp cp vp (re_decoder en) = Inr ph"
      and wr: "write_height_cursor (re_pg en) ph c (height_of probe - 1) (w_endpoint_id w) (w_db w) = Inr (w_db w')"
      and r: "r = Inr hash' \<or> r = Inl OperationalError" by blast
    note ph = parse_height_block [OF parsed]
    have canon: "canonical_block_hash_hex payload = Inr hash'"
      using hash by (auto simp: expected_hash_def verify_parent_continuity_def res_simps split: option.splits)
    have hex: "pb_hash_hex (ph_block ph) = hash'" using ph(3) parse_block_hash canon by blast
    have ok: "chain_ok (re_pg en) (w_db w)" using pre by (simp add: before_def)
    obtain cp where cp: "get_checkpoint_cursor (w_db w) c = Inr cp"
      using pre by (auto simp: before_def tip_is_def split: option.splits)
    have new: "ph_height ph = k + 1" if "cp = Some k" for k
      using pre cp that ph(1) by (auto simp: before_def tip_is_def split: option.splits)
    have par: "parent_block_hash_hex (ph_raw_block ph) = Inr (br_hash_hex row)"
      if "cp = Some k" "map_of (blocks (w_db w)) k = Some row" for k row
    proof (cases parent)
      case None
      then show ?thesis using pre cp that by (simp add: before_def)
    next
      case (Some hp)
      then have "tip_is (w_db w) c (height - 1) hp" using pre by (simp add: before_def)
      then have "py_upper hp = hp" "br_hash_hex row = hp" using cp that by (auto simp: tip_is_def)
      then show ?thesis using hash Some ph(2) by (auto simp: expected_hash_def verify_parent_continuity_def res_simps)
    qed
    note n = write_new_height [OF wr assms(2) ok cp new par]
    have "before (re_pg en) c (height + 1) (Some hash') (w_db w')"
      using n ph(1) hex canonical_hash_upper [OF canon] by (auto simp: before_def tip_is_def)
    then show ?thesis using n(1) r by (auto simp: is_endpoint_error_def)
  qed
  then show "chain_ok (re_pg en) (w_db w')"
    and "r = Inr hash \<Longrightarrow> before (re_pg en) c (height + 1) (Some hash) (w_db w')"
    and "r = Inl e \<Longrightarrow> is_endpoint_error e \<Longrightarrow> w_db w' = w_db w" by blast+
qed

text \<open>An attempt changes nothing but the activated endpoints in the loop variables.\<close>

lemma attempt_vars:
  assumes "attempt en net c reason first h p L w = ((r, L1), w1)"
  shows "lv_parent L1 = lv_parent L" "lv_processed L1 = lv_processed L" "lv_active L1 = lv_active L" "lv_excluded L1 = lv_excluded L"
  using assms unfolding attempt_def by (auto split: prod.splits sum.splits)

lemma attempt_before:
  assumes "attempt en net c reason first h p L w = ((r, L1), w1)" and "pg_faithful (re_pg en)"
    and pre: "before (re_pg en) c h (lv_parent L) (w_db w)"
  shows "chain_ok (re_pg en) (w_db w1)"
    and "r = Inr hash \<Longrightarrow> before (re_pg en) c (h + 1) (Some hash) (w_db w1)"
    and "r = Inl e \<Longrightarrow> is_endpoint_error e \<Longrightarrow> before (re_pg en) c h (lv_parent L) (w_db w1)"
proof -
  obtain a w0 where act: "(if url p \<in> set (lv_activated L) then retS ()
            else activate_candidate en net c p (map_option (\<lambda>x. (h - 1, x)) (lv_parent L))
                   (activation_reason (lv_pending_reason L) reason (oid p = first))) w = (a, w0)" by fastforce
  then have cp: "chain_part (w_db w0) = chain_part (w_db w)" by (auto simp: retS_def split: if_splits dest: activate_step)
  have pre0: "before (re_pg en) c h (lv_parent L) (w_db w0)" using pre before_cong [OF cp] by simp
  have "chain_ok (re_pg en) (w_db w1) \<and> (r = Inr hash \<longrightarrow> before (re_pg en) c (h + 1) (Some hash) (w_db w1)) \<and>
     (r = Inl e \<and> is_endpoint_error e \<longrightarrow> before (re_pg en) c h (lv_parent L) (w_db w1))"
  proof (cases a)
    case (Inl x)
    then have "r = Inl x" "w1 = w0" using assms(1) act by (auto simp: attempt_def)
    then show ?thesis using pre0 by (auto simp: before_def)
  next
    case (Inr x)
    then have "process_height en net c p h (lv_parent L) w0 = (r, w1)" using assms(1) act by (auto simp: attempt_def split: prod.splits)
    note ph = process_height_before [OF this assms(2) pre0]
    show ?thesis
    proof (intro conjI impI)
      show "chain_ok (re_pg en) (w_db w1)" by (rule ph(1))
      show "before (re_pg en) c (h + 1) (Some hash) (w_db w1)" if "r = Inr hash" using ph(2) that .
      show "before (re_pg en) c h (lv_parent L) (w_db w1)" if "r = Inl e \<and> is_endpoint_error e" using ph(3) that pre0 by auto
    qed
  qed
  then show "chain_ok (re_pg en) (w_db w1)"
    and "r = Inr hash \<Longrightarrow> before (re_pg en) c (h + 1) (Some hash) (w_db w1)"
    and "r = Inl e \<Longrightarrow> is_endpoint_error e \<Longrightarrow> before (re_pg en) c h (lv_parent L) (w_db w1)" by blast+
qed

lemma try_candidates_before:
  assumes "try_candidates en net c reason first h ps n le L w = (r, w')" and "pg_faithful (re_pg en)"
    and "before (re_pg en) c h (lv_parent L) (w_db w)" and "lv_active L = None"
  shows "chain_ok (re_pg en) (w_db w') \<and> (\<forall>n' le' L'. r = Inr (n', le', L') \<longrightarrow>
    (if lv_active L' = None then lv_processed L' = lv_processed L
     else before (re_pg en) c (h + 1) (lv_parent L') (w_db w') \<and> lv_processed L' = lv_processed L @ [h] \<and> lv_parent L' \<noteq> None))"
  using assms
proof (induction ps arbitrary: n le L w)
  case Nil
  then show ?case by (auto simp: before_def)
next
  case (Cons p ps)
  show ?case
  proof (cases "url p \<in> set (lv_excluded L) \<or> latest_height p = None \<or> height_of p - 1 < h")
    case True
    with Cons show ?thesis by (auto simp del: height_of_def)
  next
    case False
    obtain x L1 w1 where at: "attempt en net c reason first h p L w = ((x, L1), w1)"
      by (cases "attempt en net c reason first h p L w"; cases "fst (attempt en net c reason first h p L w)") auto
    note v = attempt_vars [OF at]
    note b = attempt_before [OF at Cons.prems(2,3)]
    show ?thesis
    proof (cases x)
      case (Inr hash)
      with False at Cons.prems(1) have "w' = adopt (url p) (lv_pending_failed L \<noteq> None) w1"
        "r = Inr (n + 1, le, L1\<lparr>lv_active := Some p, lv_parent := Some hash, lv_processed := lv_processed L1 @ [h],
                        lv_pending_failed := None, lv_pending_reason := None\<rparr>)" by auto
      then show ?thesis using b(1) b(2) [OF Inr] v by simp
    next
      case (Inl e)
      show ?thesis
      proof (cases "is_endpoint_error e")
        case False
        with Inl \<open>\<not> (url p \<in> set (lv_excluded L) \<or> latest_height p = None \<or> height_of p - 1 < h)\<close> at Cons.prems(1)
        have "r = Inl e" "w' = w1" by auto
        then show ?thesis using b(1) by simp
      next
        case True
        let ?k = "\<lambda>reason'. try_candidates en net c reason first h ps (n + 1) (Some e)
            (L1\<lparr>lv_excluded := url p # lv_excluded L1, lv_pending_failed := Some (url p), lv_pending_reason := Some reason'\<rparr>)"
        have run: "bindS (reject_probe en c p e) ?k w1 = (r, w')" using Cons.prems(1) False at Inl True by simp
        note b1 = b(3) [OF Inl True]
        show ?thesis using run
        proof (rule bindS_snd)
          fix e' assume rj: "reject_probe en c p e w1 = (Inl e', w')" and "r = Inl e'"
          then show ?thesis using b1 chain_part_cong(1) [OF reject_step [OF rj]] by (auto simp: before_def)
        next
          fix reason' w2 assume rj: "reject_probe en c p e w1 = (Inr reason', w2)" and k: "?k reason' w2 = (r, w')"
          have "before (re_pg en) c h (lv_parent L) (w_db w2)" using b1 before_cong [OF reject_step [OF rj]] by simp
          with Cons.IH [OF k Cons.prems(2)] v Cons.prems(4) show ?thesis by simp
        qed
      qed
    qed
  qed
qed

lemma run_heights_before:
  assumes "run_heights en net c reason cs [a..b] L w = (r, w')" and "pg_faithful (re_pg en)"
    and "before (re_pg en) c a (lv_parent L) (w_db w)"
  shows "chain_ok (re_pg en) (w_db w') \<and> (\<forall>L'. r = Inr L' \<longrightarrow> (\<exists>n \<ge> 0. a + n - 1 \<le> max b (a - 1) \<and>
    lv_processed L' = lv_processed L @ [a..a + n - 1] \<and> before (re_pg en) c (a + n) (lv_parent L') (w_db w') \<and>
    (if n = 0 then lv_parent L' = lv_parent L else lv_parent L' \<noteq> None)))"
  using assms
proof (induction "[a..b]" arbitrary: a L w)
  case Nil
  then have "b < a" by (simp add: upto_Nil2)
  from Nil have "r = Inr L" "w' = w" by (simp_all flip: Nil(1))
  with Nil(4) \<open>b < a\<close> before_chain [OF Nil(4)] show ?case by (auto intro!: exI [of _ 0])
next
  case (Cons h hs)
  then have ab: "a \<le> b" "h = a" "hs = [a + 1..b]" by (metis list.distinct(1) list.inject upto.simps)+
  have eq: "[a..b] = a # [a + 1..b]" using ab(1) by (rule upto_rec1)
  show ?case
  proof (cases "stop_requested en w")
    case True
    with Cons.prems(1) have "r = Inr L" "w' = polled w" by (simp_all add: eq)
    with Cons.prems(3) ab(1) before_chain [OF Cons.prems(3)] show ?thesis by (auto intro!: exI [of _ 0])
  next
    case False
    let ?L0 = "L\<lparr>lv_active := None\<rparr>"
    obtain t w1 where t: "try_candidates en net c reason (oid (hd cs)) a (ordered_candidates (lv_active L) cs) 0 None ?L0 (polled w) = (t, w1)"
      by fastforce
    have tb: "chain_ok (re_pg en) (w_db w1) \<and> (\<forall>n' le' L'. t = Inr (n', le', L') \<longrightarrow>
      (if lv_active L' = None then lv_processed L' = lv_processed ?L0
       else before (re_pg en) c (a + 1) (lv_parent L') (w_db w1) \<and> lv_processed L' = lv_processed ?L0 @ [a] \<and> lv_parent L' \<noteq> None))"
      using Cons.prems(3) by (intro try_candidates_before [OF t Cons.prems(2)]) simp_all
    show ?thesis
    proof (cases t)
      case (Inl e)
      with t False Cons.prems(1) have "r = Inl e" "w' = w1" by (simp_all add: eq)
      with tb show ?thesis by simp
    next
      case (Inr x)
      obtain n le' L1 where x: "x = (n, le', L1)" by (cases x)
      show ?thesis
      proof (cases "lv_active L1 = None")
        case True
        with t False Cons.prems(1) Inr x have "\<exists>e. r = Inl e" "w' = w1" by (auto simp: eq)
        with tb show ?thesis by auto
      next
        case act: False
        with t False Cons.prems(1) Inr x have rest: "run_heights en net c reason cs [a + 1..b] L1 w1 = (r, w')" by (simp add: eq)
        have b1: "before (re_pg en) c (a + 1) (lv_parent L1) (w_db w1)" "lv_processed L1 = lv_processed L @ [a]" "lv_parent L1 \<noteq> None"
          using tb Inr x act by auto
        note ih = Cons.hyps(1) [OF ab(3) rest Cons.prems(2) b1(1)]
        show ?thesis
        proof (intro conjI allI impI)
          show "chain_ok (re_pg en) (w_db w')" using ih by blast
          fix L' assume "r = Inr L'"
          with ih obtain m where m: "0 \<le> m" "a + 1 + m - 1 \<le> max b (a + 1 - 1)" "lv_processed L' = lv_processed L1 @ [a + 1..a + 1 + m - 1]"
            "before (re_pg en) c (a + 1 + m) (lv_parent L') (w_db w')" "if m = 0 then lv_parent L' = lv_parent L1 else lv_parent L' \<noteq> None" by blast
          then have par: "lv_parent L' \<noteq> None" using b1(3) by (auto split: if_splits)
          have "[a..a + (m + 1) - 1] = a # [a + 1..a + 1 + m - 1]" using m(1) upto_rec1 [of a "a + m"] by (simp add: algebra_simps)
          with m(1-4) par b1(2) ab(1) show "\<exists>n \<ge> 0. a + n - 1 \<le> max b (a - 1) \<and>
              lv_processed L' = lv_processed L @ [a..a + n - 1] \<and> before (re_pg en) c (a + n) (lv_parent L') (w_db w') \<and>
              (if n = 0 then lv_parent L' = lv_parent L else lv_parent L' \<noteq> None)"
            by (intro exI [of _ "m + 1"]) (simp add: algebra_simps)
        qed
      qed
    qed
  qed
qed

section \<open>The whole cycle\<close>

lemma confirm_tip_db:
  "confirm_tip en net c anchor cp reason first fb ps w = (r, w') \<Longrightarrow>
   chain_part (w_db w') = chain_part (w_db w) \<and> (\<forall>x. r = Inr x \<longrightarrow> cy_processed x = [] \<and> cy_checkpoint_before x = cp \<and> cy_checkpoint_after x = cp)"
proof (induction ps arbitrary: fb w)
  case (Cons p ps)
  obtain a w1 where a: "activate_candidate en net c p anchor (if oid p = first then reason else ''selected_unavailable'') w = (a, w1)"
    by fastforce
  note cp1 = activate_step [OF a]
  show ?case
  proof (cases a)
    case (Inr u)
    with a Cons.prems show ?thesis using cp1 by (auto simp: Let_def)
  next
    case (Inl e)
    show ?thesis
    proof (cases "is_endpoint_error e")
      case False
      with a Inl Cons.prems cp1 show ?thesis by (auto simp: Let_def)
    next
      case True
      let ?k = "\<lambda>_. confirm_tip en net c anchor cp reason first True ps"
      have "bindS (reject_probe en c p e) ?k w1 = (r, w')" using a Inl Cons.prems True by (simp add: Let_def)
      then show ?thesis
      proof (rule bindS_snd)
        fix e' assume "reject_probe en c p e w1 = (Inl e', w')" "r = Inl e'"
        then show ?thesis using reject_step cp1 by fastforce
      next
        fix reason' w2 assume rj: "reject_probe en c p e w1 = (Inr reason', w2)" and k: "?k reason' w2 = (r, w')"
        show ?thesis using Cons.IH [OF k] reject_step [OF rj] cp1 by simp
      qed
    qed
  qed
qed auto

text \<open>What a cycle finds: the chain is linked; the anchor is the block at the checkpoint.\<close>

lemma anchor_before:
  assumes "get_checkpoint_anchor_cursor d c = Inr (Some a)" and "chain_ok p d"
  shows "before p c (an_height a + 1) (Some (an_hash a)) d" "get_checkpoint_cursor d c = Inr (Some (an_height a))"
proof -
  obtain s b where s: "indexer_state d = Some s" "is_chain s = c" "map_of (blocks d) (is_last_finalized s) = Some b"
    "list_all is_upper_hex (br_hash_hex b)" "a = \<lparr>an_height = is_last_finalized s, an_hash = br_hash_hex b\<rparr>"
    using assms(1) by (auto simp: get_checkpoint_anchor_cursor_def res_simps split: option.splits)
  then have "py_upper (br_hash_hex b) = br_hash_hex b"
    by (auto simp: py_upper_def list_all_iff intro!: map_idI upper_hex_upper_id)
  with s assms(2) show "before p c (an_height a + 1) (Some (an_hash a)) d" "get_checkpoint_cursor d c = Inr (Some (an_height a))"
    by (auto simp: before_def tip_is_def get_checkpoint_cursor_def)
qed

lemma no_anchor:
  assumes "get_checkpoint_anchor_cursor d c = Inr None"
  shows "indexer_state d = None"
  using assms by (auto simp: get_checkpoint_anchor_cursor_def res_simps split: option.splits)

lemma process_batch_spec:
  assumes "process_batch en net c cfg cp parent a cs w = (r, w')" and "pg_faithful (re_pg en)"
    and pre: "before (re_pg en) c a parent (w_db w)" and cp: "get_checkpoint_cursor (w_db w) c = Inr cp"
  shows "chain_ok (re_pg en) (w_db w') \<and> (\<forall>x. r = Inr x \<longrightarrow> cy_checkpoint_before x = cp \<and>
    get_checkpoint_cursor (w_db w') c = Inr (cy_checkpoint_after x) \<and>
    (\<exists>n \<ge> 0. n \<le> max 0 (cc_batch_size cfg) \<and> cy_processed x = [a..a + n - 1] \<and>
      cy_checkpoint_after x = (if 0 < n then Some (a + n - 1) else cp)))"
proof -
  obtain ordered reason sel' where ord: "order_indexer_candidates (filter (\<lambda>p. a \<le> height_of p - 1) cs) (w_sel w) = ((ordered, reason), sel')"
    by (metis prod.exhaust)
  define b where "b = min (max_list (map (\<lambda>p. height_of p - 1) ordered)) (a + cc_batch_size cfg - 1)"
  define L where "L = \<lparr>lv_excluded = [], lv_activated = [], lv_active = None, lv_parent = parent, lv_pending_failed = None,
               lv_pending_reason = None, lv_processed = []\<rparr>"
  let ?w = "w\<lparr>w_sel := sel'\<rparr>"
  have run: "bindS (run_heights en net c reason ordered [a..b] L) (\<lambda>L1. bindS (get_checkpoint en c) (\<lambda>after.
      retS \<lparr>cy_processed = lv_processed L1, cy_checkpoint_before = cp, cy_checkpoint_after = after,
            cy_finalized_tip = map_option (\<lambda>p. height_of p - 1) (lv_active L1),
            cy_planned_start = Some a, cy_planned_end = Some b\<rparr>)) ?w = (r, w')"
    using assms(1) unfolding process_batch_def ord Let_def prod.case b_def L_def .
  have pre': "before (re_pg en) c a (lv_parent L) (w_db ?w)" using pre by (simp add: L_def)
  show ?thesis using run
  proof (rule bindS_snd)
    fix e assume rh: "run_heights en net c reason ordered [a..b] L ?w = (Inl e, w')" and "r = Inl e"
    then show ?thesis using run_heights_before [OF rh assms(2) pre'] by simp
  next
    fix L1 w1 assume rh: "run_heights en net c reason ordered [a..b] L ?w = (Inr L1, w1)"
      and rest: "bindS (get_checkpoint en c) (\<lambda>after.
      retS \<lparr>cy_processed = lv_processed L1, cy_checkpoint_before = cp, cy_checkpoint_after = after,
            cy_finalized_tip = map_option (\<lambda>p. height_of p - 1) (lv_active L1),
            cy_planned_start = Some a, cy_planned_end = Some b\<rparr>) w1 = (r, w')"
    from run_heights_before [OF rh assms(2) pre'] obtain n where n: "0 \<le> n" "a + n - 1 \<le> max b (a - 1)"
      "lv_processed L1 = [a..a + n - 1]" "before (re_pg en) c (a + n) (lv_parent L1) (w_db w1)"
      "if n = 0 then lv_parent L1 = parent else lv_parent L1 \<noteq> None" and ok: "chain_ok (re_pg en) (w_db w1)" by (auto simp: L_def)
    have nb: "n \<le> max 0 (cc_batch_size cfg)" using n(2) by (auto simp: b_def)
    have cp1: "get_checkpoint_cursor (w_db w1) c = Inr (if 0 < n then Some (a + n - 1) else cp)"
    proof (cases "n = 0")
      case True
      then show ?thesis using n(4,5) pre cp by (auto simp: before_def tip_is_def split: option.splits)
    next
      case False
      then obtain hash where "lv_parent L1 = Some hash" using n(5) by auto
      then show ?thesis using n(1,4) False by (simp add: before_def tip_is_def)
    qed
    show ?thesis using rest
    proof (rule bindS_snd)
      fix e assume q: "get_checkpoint en c w1 = (Inl e, w')" and "r = Inl e"
      then show ?thesis using ok query_db [OF q [unfolded get_checkpoint_def]] by simp
    next
      fix after w2 assume q: "get_checkpoint en c w1 = (Inr after, w2)"
        and ret: "retS \<lparr>cy_processed = lv_processed L1, cy_checkpoint_before = cp, cy_checkpoint_after = after,
            cy_finalized_tip = map_option (\<lambda>p. height_of p - 1) (lv_active L1),
            cy_planned_start = Some a, cy_planned_end = Some b\<rparr> w2 = (r, w')"
      have db: "w_db w' = w_db w1" using ret query_db [OF q [unfolded get_checkpoint_def]] by (simp add: retS_def)
      have after: "after = (if 0 < n then Some (a + n - 1) else cp)"
        using query_Inr [OF q [unfolded get_checkpoint_def]] cp1 by simp
      have x: "cy_processed x = [a..a + n - 1]" "cy_checkpoint_before x = cp" "cy_checkpoint_after x = after" if "r = Inr x" for x
        using ret that n(3) by (auto simp: retS_def)
      show ?thesis unfolding db using ok n(1) nb cp1 after x by metis
    qed
  qed
qed

lemma checkpoint_step:
  assumes "(case anchor of Some a \<Rightarrow> retS (Some (an_height a)) | None \<Rightarrow> get_checkpoint en c) w = (r, w')"
    and "get_checkpoint_anchor_cursor (w_db w) c = Inr anchor"
  shows "w_db w' = w_db w" "r = Inr cp \<Longrightarrow> get_checkpoint_cursor (w_db w) c = Inr cp"
proof -
  have "w_db w' = w_db w \<and> (r = Inr cp \<longrightarrow> get_checkpoint_cursor (w_db w) c = Inr cp)"
  proof (cases anchor)
    case None
    with assms(1) have "query en (\<lambda>d. get_checkpoint_cursor d c) w = (r, w')" by (simp add: get_checkpoint_def)
    then show ?thesis using query_db [of en _ w r w'] query_Inr [of en _ w cp w'] by auto
  next
    case (Some a)
    with assms have "r = Inr (Some (an_height a))" "w' = w" by (auto simp: retS_def)
    then show ?thesis using assms(2) Some
      by (auto simp: get_checkpoint_anchor_cursor_def get_checkpoint_cursor_def res_simps split: option.splits)
  qed
  then show "w_db w' = w_db w" "r = Inr cp \<Longrightarrow> get_checkpoint_cursor (w_db w) c = Inr cp" by blast+
qed

text \<open>A cycle fails early without touching the chain, or it dispatches with what it read.\<close>

lemma run_cycle_run:
  assumes "run_cycle en ce c urls lag cfg w = (r, w')"
  obtains (early) e where "r = Inl e" "chain_part (w_db w') = chain_part (w_db w)"
    | (go) anchor cp probes w1 where "get_checkpoint_anchor_cursor (w_db w) c = Inr anchor"
      "get_checkpoint_cursor (w_db w) c = Inr cp" "cp \<noteq> None \<or> cc_start_height cfg \<noteq> None"
      "probe_rpc_endpoints (ce_reply ce) (ce_dur ce) urls c lag = Inr probes"
      "chain_part (w_db w1) = chain_part (w_db w)" "dispatch_cycle en (ce_net ce) c cfg anchor cp probes w1 = (r, w')"
  using assms unfolding run_cycle_def
proof (rule bindS_snd)
  fix e assume "get_checkpoint_anchor en c w = (Inl e, w')" "r = Inl e"
  then show thesis using early query_db unfolding get_checkpoint_anchor_def by metis
next
  fix anchor w1
  let ?rest3 = "\<lambda>cp probes. bindS (record_rpc_probe_cycle en c (map (\<lambda>p. p\<lparr>selected := False\<rparr>) probes)) (\<lambda>_.
     dispatch_cycle en (ce_net ce) c cfg anchor cp probes)"
  let ?rest2 = "\<lambda>cp. bindS (liftS (probe_rpc_endpoints (ce_reply ce) (ce_dur ce) urls c lag)) (?rest3 cp)"
  let ?rest1 = "\<lambda>cp. bindS (liftS (guardE (cp \<noteq> None \<or> cc_start_height cfg \<noteq> None)
    (FatalIndexerError ''--start-height or INDEXER_START_HEIGHT is required for an empty database''))) (\<lambda>_. ?rest2 cp)"
  assume a: "get_checkpoint_anchor en c w = (Inr anchor, w1)"
    and rest: "bindS (case anchor of Some a \<Rightarrow> retS (Some (an_height a)) | None \<Rightarrow> get_checkpoint en c) ?rest1 w1 = (r, w')"
  have db1: "w_db w1 = w_db w" using query_db a unfolding get_checkpoint_anchor_def by blast
  have an: "get_checkpoint_anchor_cursor (w_db w1) c = Inr anchor"
    using query_Inr a db1 unfolding get_checkpoint_anchor_def by fastforce
  show thesis using rest
  proof (rule bindS_snd)
    fix e assume "(case anchor of Some a \<Rightarrow> retS (Some (an_height a)) | None \<Rightarrow> get_checkpoint en c) w1 = (Inl e, w')" "r = Inl e"
    then show thesis using early checkpoint_step(1) [OF _ an] db1 by metis
  next
    fix cp w2
    assume q: "(case anchor of Some a \<Rightarrow> retS (Some (an_height a)) | None \<Rightarrow> get_checkpoint en c) w1 = (Inr cp, w2)"
      and rest: "?rest1 cp w2 = (r, w')"
    note cs = checkpoint_step [OF q an]
    show thesis
    proof (cases "cp \<noteq> None \<or> cc_start_height cfg \<noteq> None")
      case False
      with rest show thesis using cs(1) db1 by (intro early) (auto simp: bindS_def liftS_def)
    next
      case start: True
      show thesis
      proof (cases "probe_rpc_endpoints (ce_reply ce) (ce_dur ce) urls c lag")
        case (Inl e)
        with rest start show thesis using cs(1) db1 by (intro early) (auto simp: bindS_def liftS_def)
      next
        case (Inr probes)
        with rest start have "?rest3 cp probes w2 = (r, w')" by (simp add: bindS_def liftS_def)
        then show thesis
        proof (rule bindS_snd)
          fix e assume "record_rpc_probe_cycle en c (map (\<lambda>p. p\<lparr>selected := False\<rparr>) probes) w2 = (Inl e, w')" "r = Inl e"
          then show thesis using early probe_cycle_step cs(1) db1 by metis
        next
          fix u w3 assume "record_rpc_probe_cycle en c (map (\<lambda>p. p\<lparr>selected := False\<rparr>) probes) w2 = (Inr u, w3)"
            "dispatch_cycle en (ce_net ce) c cfg anchor cp probes w3 = (r, w')"
          then show thesis using go an cs db1 start Inr probe_cycle_step by metis
        qed
      qed
    qed
  qed
qed

lemma run_cycle_spec:
  assumes run: "run_cycle en ce c urls lag cfg w = (r, w')" and p: "pg_faithful (re_pg en)" and ok: "chain_ok (re_pg en) (w_db w)"
  shows "chain_ok (re_pg en) (w_db w') \<and> (\<forall>x. r = Inr x \<longrightarrow>
    get_checkpoint_cursor (w_db w) c = Inr (cy_checkpoint_before x) \<and>
    get_checkpoint_cursor (w_db w') c = Inr (cy_checkpoint_after x) \<and>
    (let start = (case cy_checkpoint_before x of None \<Rightarrow> the (cc_start_height cfg) | Some k \<Rightarrow> k + 1) in
     \<exists>n \<ge> 0. n \<le> max 0 (cc_batch_size cfg) \<and> cy_processed x = [start..start + n - 1] \<and>
      cy_checkpoint_after x = (if 0 < n then Some (start + n - 1) else cy_checkpoint_before x)))"
  using run
proof (cases rule: run_cycle_run)
  case (early e)
  then show ?thesis using ok chain_part_cong(1) [OF early(2)] by simp
next
  case (go anchor cp probes w1)
  note same = chain_part_cong [OF go(5)]
  let ?next = "case cp of None \<Rightarrow> the (cc_start_height cfg) | Some k \<Rightarrow> k + 1"
  consider (none) e where "r = Inl e" "w' = w1"
    | (tip) cs ord reason first where "confirm_tip en (ce_net ce) c (map_option (\<lambda>a. (an_height a, an_hash a)) anchor) cp reason first False ord (w1\<lparr>w_sel := cs\<rparr>) = (r, w')"
    | (batch) cs where "process_batch en (ce_net ce) c cfg cp (map_option an_hash anchor) ?next cs w1 = (r, w')"
    using go(6) by (auto simp: dispatch_cycle_def Let_def liftS_def cycle_at_tip_def split: if_splits prod.splits)
  then show ?thesis
  proof cases
    case none
    then show ?thesis using ok same(1) by simp
  next
    case tip
    note t = confirm_tip_db [OF tip]
    then have "chain_part (w_db w') = chain_part (w_db w)" using go(5) by simp
    note s = chain_part_cong [OF this]
    show ?thesis using t ok go(2) by (auto simp: s Let_def intro!: exI [of _ 0])
  next
    case batch
    have "before (re_pg en) c ?next (map_option an_hash anchor) (w_db w)"
    proof (cases anchor)
      case None
      then have "cp = None" "get_checkpoint_cursor (w_db w) c = Inr None" using go(1,2) no_anchor by (auto simp: get_checkpoint_cursor_def)
      with ok None show ?thesis by (simp add: before_def)
    next
      case (Some a)
      then show ?thesis using anchor_before [OF _ ok] go(1,2) by auto
    qed
    then have "before (re_pg en) c ?next (map_option an_hash anchor) (w_db w1)" using before_cong [OF go(5)] by simp
    note spec = process_batch_spec [OF batch p this, unfolded same(2), OF go(2)]
    show ?thesis
    proof (intro conjI allI impI)
      show "chain_ok (re_pg en) (w_db w')" using spec by blast
      fix x assume "r = Inr x"
      with spec have x: "cy_checkpoint_before x = cp" "get_checkpoint_cursor (w_db w') c = Inr (cy_checkpoint_after x)"
        "\<exists>n \<ge> 0. n \<le> max 0 (cc_batch_size cfg) \<and> cy_processed x = [?next..?next + n - 1] \<and>
          cy_checkpoint_after x = (if 0 < n then Some (?next + n - 1) else cp)" by blast+
      show "get_checkpoint_cursor (w_db w) c = Inr (cy_checkpoint_before x)" using go(2) x(1) by simp
      show "get_checkpoint_cursor (w_db w') c = Inr (cy_checkpoint_after x)" by (rule x(2))
      show "let start = (case cy_checkpoint_before x of None \<Rightarrow> the (cc_start_height cfg) | Some k \<Rightarrow> k + 1) in
          \<exists>n \<ge> 0. n \<le> max 0 (cc_batch_size cfg) \<and> cy_processed x = [start..start + n - 1] \<and>
          cy_checkpoint_after x = (if 0 < n then Some (start + n - 1) else cy_checkpoint_before x)"
        unfolding Let_def x(1) by (rule x(3))
    qed
  qed
qed

section \<open>Properties\<close>

text \<open>C4: whatever the endpoints answer, wherever the server fails and however the cycle ends, the continuous indexer
  only extends a hash-linked chain: every stored block was stored from a payload that names the stored hash of the block
  before it, and no block lies beyond the checkpoint.\<close>

theorem cycle_keeps_chain_linked:
  assumes "pg_faithful (re_pg en)" and "chain_ok (re_pg en) (w_db w)" and "run_cycle en ce c urls lag cfg w = (r, w')"
  shows "chain_ok (re_pg en) (w_db w')"
  using run_cycle_spec [OF assms(3,1,2)] by blast

text \<open>C5: a cycle that returns has processed consecutive heights from the checkpoint (or the configured start) on, at
  most a batch of them, and the checkpoint it reports is the stored one, at the last processed height.\<close>

theorem cycle_processes_consecutively:
  assumes "pg_faithful (re_pg en)" and "chain_ok (re_pg en) (w_db w)" and "run_cycle en ce c urls lag cfg w = (Inr x, w')"
  shows "get_checkpoint_cursor (w_db w) c = Inr (cy_checkpoint_before x) \<and>
    get_checkpoint_cursor (w_db w') c = Inr (cy_checkpoint_after x) \<and>
    (let start = (case cy_checkpoint_before x of None \<Rightarrow> the (cc_start_height cfg) | Some k \<Rightarrow> k + 1) in
     \<exists>n \<ge> 0. n \<le> max 0 (cc_batch_size cfg) \<and> cy_processed x = [start..start + n - 1] \<and>
      cy_checkpoint_after x = (if 0 < n then Some (start + n - 1) else cy_checkpoint_before x))"
  using run_cycle_spec [OF assms(3,1,2)] by blast

text \<open>however a cycle ends, the finalized rows stay as they were and the endpoint table keeps its invariant.\<close>

theorem cycle_keeps_finalized:
  assumes "run_cycle en ce c urls lag cfg w = (r, w')" and "endpoint_inv (w_db w)"
  shows "finalized_le (w_db w) (w_db w') \<and> endpoint_inv (w_db w')"
  using db_steps_finalized [OF run_cycle_steps [OF assms(1)]] endpoint_table.steps_inv [OF run_cycle_steps [OF assms(1)] assms(2)]
  by blast


section \<open>A cycle at the tip\<close>

text \<open>An empty database, one endpoint at height 42, indexing configured to start at 43.\<close>

lemma sample_pg_faithful: "pg_faithful sample_pg"
  by (auto simp: pg_faithful_def sample_pg_def opt_json_def split: json.splits if_splits)

definition tip_env :: cycle_env where
  "tip_env = \<lparr>ce_reply = demo_reply, ce_dur = (\<lambda>_. NaN), ce_net = (\<lambda>_ _ _. Inl (RpcError ''no block''))\<rparr>"

definition quiet_env :: run_env where
  "quiet_env = \<lparr>re_pg = sample_pg, re_fault = (\<lambda>_. None), re_stop_at = None, re_cycle = (\<lambda>_. tip_env), re_decoder = None\<rparr>"

definition sample_config :: continuous_config where
  "sample_config = \<lparr>cc_start_height = Some 43, cc_batch_size = 10, cc_poll_interval_seconds = 5, cc_error_backoff_seconds = 5,
     cc_max_backoff_seconds = 60, cc_hard_max_heights = 100, cc_once = True, cc_max_cycles = None\<rparr>"

definition tip_probe :: rpc_probe where
  "tip_probe = demo_probe\<lparr>response_seconds := Some NaN\<rparr>"

lemma tip_probes:
  "probe_rpc_endpoints (ce_reply tip_env) (ce_dur tip_env) [''http://a''] ''pearl-1'' 10 = Inr [tip_probe]"
  by (simp add: tip_env_def tip_probe_def demo_probe_def probe_rpc_endpoints_def Let_def enumerate_simps healthy_heights_def map_filter_simps
      max_list_def with_lag_def selected_probe_index_def within_lag_def raw_probe_def probe_endpoint_def demo_reply_def
      demo_status_def parse_status_def result_def validate_status_for_health_def)

lemma tip_row: "probe_row sample_pg i ''pearl-1'' False (tip_probe\<lparr>selected := b\<rparr>) = Inr (sample_endpoint\<lparr>ep_id := i\<rparr>)"
  by (simp add: probe_row_def tip_probe_def demo_probe_def sample_pg_def response_seconds_to_latency_ms_def sample_endpoint_def)

lemma tip_row_ok: "check_endpoint (sample_endpoint\<lparr>ep_id := i\<rparr>) = Inr ()"
  using sample_endpoint_ok by (simp add: check_endpoint_def)

lemma tip_recorded:
  "\<exists>d. record_rpc_probe_cycle_cursor sample_pg ''pearl-1'' [tip_probe\<lparr>selected := False\<rparr>] empty_db = Inr (None, d) \<and>
     endpoints d = [sample_endpoint] \<and> next_endpoint d = 2"
proof -
  let ?d1 = "empty_db\<lparr>endpoints := [sample_endpoint], next_endpoint := 2\<rparr>"
  have url: "url tip_probe = ''http://a''" by (simp add: tip_probe_def demo_probe_def)
  have "ep_id sample_endpoint = 1" "\<not> ep_selected sample_endpoint" by (simp_all add: sample_endpoint_def)
  then have up: "upsert_rpc_endpoint sample_pg ''pearl-1'' False (tip_probe\<lparr>selected := False\<rparr>) empty_db = Inr (1, ?d1)"
    using tip_row [of 1 False] tip_row_ok [of 1] by (simp add: upsert_rpc_endpoint_def empty_db_def one_selected_def constraint_def)
  obtain d3 where d3: "insert_rpc_endpoint_check sample_pg 1 ''pearl-1'' (tip_probe\<lparr>selected := False\<rparr>) None ?d1 = Inr d3"
    using insert_check_total [OF tip_row [of 1 False] tip_row_ok [of 1], of 1 ?d1 False None] by (auto simp: sample_endpoint_def)
  note e = insert_check_endpoints [OF d3]
  have "disable_unconfigured ''pearl-1'' [''http://a''] empty_db = empty_db"
    by (simp add: disable_unconfigured_def empty_db_def)
  then have "record_rpc_probe_cycle_cursor sample_pg ''pearl-1'' [tip_probe\<lparr>selected := False\<rparr>] empty_db = Inr (None, d3)"
    using up d3 url by (simp add: record_rpc_probe_cycle_cursor_def upsert_probed_def endpoint_id_of_def)
  with e show ?thesis by simp
qed

lemma tip_selected:
  assumes "endpoints d = [sample_endpoint]" and "next_endpoint d = 2"
  shows "\<exists>i d'. select_rpc_endpoint_cursor sample_pg ''pearl-1'' tip_probe reason d = Inr (i, d')"
proof -
  have "endpoint_inv d" using assms by (simp add: endpoint_inv_def eps_ok_def sample_endpoint_def)
  moreover have "\<exists>d1. upsert_rpc_endpoint sample_pg ''pearl-1'' False tip_probe d = Inr (1, d1)"
    using tip_row [of 2 True] tip_row_ok [of 2] assms
    by (simp add: upsert_rpc_endpoint_def tip_probe_def demo_probe_def sample_endpoint_def)
  ultimately show ?thesis using select_total by metis
qed

lemma tip_cycle:
  "\<exists>x w'. run_cycle quiet_env tip_env ''pearl-1'' [''http://a''] 10 sample_config (new_world empty_db) = (Inr x, w') \<and> cy_processed x = []"
proof -
  obtain d where d: "record_rpc_probe_cycle_cursor sample_pg ''pearl-1'' [tip_probe\<lparr>selected := False\<rparr>] empty_db = Inr (None, d)"
    "endpoints d = [sample_endpoint]" "next_endpoint d = 2" using tip_recorded by blast
  obtain i d' where d': "select_rpc_endpoint_cursor sample_pg ''pearl-1'' tip_probe ''initial_selection'' d = Inr (i, d')"
    using tip_selected [OF d(2,3)] by blast
  have cand: "candidate_probes [tip_probe] 43 = [tip_probe]"
    by (simp add: candidate_probes_def suitable_rpc_probes_def enumerate_simps is_suitable_def tip_probe_def demo_probe_def height_of_def)
  let ?w = "\<lambda>d n. \<lparr>w_db = d, w_endpoint_id = None, w_conn = n, w_polls = 0, w_sel = new_selection_state None\<rparr>"
  have fault [simp]: "re_fault quiet_env n = None" "re_pg quiet_env = sample_pg" for n by (simp_all add: quiet_env_def)
  have "indexer_state empty_db = None" by (simp add: empty_db_def)
  then have 1: "get_checkpoint_anchor quiet_env ''pearl-1'' (?w empty_db 0) = (Inr None, ?w empty_db (Suc 0))"
    and 2: "get_checkpoint quiet_env ''pearl-1'' (?w empty_db (Suc 0)) = (Inr None, ?w empty_db (Suc (Suc 0)))"
    by (simp_all add: get_checkpoint_anchor_def get_checkpoint_def query_ok get_checkpoint_anchor_cursor_def get_checkpoint_cursor_def)
  have 3: "record_rpc_probe_cycle quiet_env ''pearl-1'' [tip_probe\<lparr>selected := False\<rparr>] (?w empty_db (Suc (Suc 0))) = (Inr (), ?w d (Suc (Suc (Suc 0))))"
    using d(1) by (simp add: record_rpc_probe_cycle_def bindS_def transact_ok retS_def)
  have sel: "order_indexer_candidates [tip_probe] (new_selection_state None) =
      (([tip_probe], ''initial_selection''), new_selection_state None)"
    by (simp add: order_indexer_candidates_def new_selection_state_def drop_candidate_def)
  have tip: "max_list (map (\<lambda>p. height_of p - 1) [tip_probe]) < 43" by (simp add: max_list_def height_of_def tip_probe_def demo_probe_def)
  have 4: "\<exists>x w'. cycle_at_tip quiet_env net ''pearl-1'' None None [tip_probe] (?w d (Suc (Suc (Suc 0)))) = (Inr x, w') \<and> cy_processed x = []" for net
    using d' by (simp add: cycle_at_tip_def sel activate_candidate_def bindS_def liftS_def select_rpc_endpoint_def transact_ok modifyS_def)
  have "run_cycle quiet_env tip_env ''pearl-1'' [''http://a''] 10 sample_config (new_world empty_db) =
      cycle_at_tip quiet_env (ce_net tip_env) ''pearl-1'' None None [tip_probe] (?w d (Suc (Suc (Suc 0))))"
    using 1 2 3 tip_probes cand tip by (simp add: run_cycle_def new_world_def bindS_def liftS_def sample_config_def dispatch_cycle_def Let_def)
  then show ?thesis using 4 by simp
qed

lemma empty_chain_ok: "chain_ok p empty_db"
  by (simp add: chain_ok_def chain_linked_def blocks_upto_def empty_db_def)

lemma tip_start:
  "pg_faithful (re_pg quiet_env)" "chain_ok (re_pg quiet_env) (w_db (new_world empty_db))" "endpoint_inv (w_db (new_world empty_db))"
  using sample_pg_faithful empty_chain_ok empty_db_endpoints by (simp_all add: quiet_env_def new_world_def)

theorem cycle_keeps_chain_linked_witness:
  "\<exists>x w'. run_cycle quiet_env tip_env ''pearl-1'' [''http://a''] 10 sample_config (new_world empty_db) = (Inr x, w') \<and>
     chain_ok sample_pg (w_db w')"
proof -
  obtain x w' where run: "run_cycle quiet_env tip_env ''pearl-1'' [''http://a''] 10 sample_config (new_world empty_db) = (Inr x, w')"
    using tip_cycle by blast
  from cycle_keeps_chain_linked [OF tip_start(1,2) run] run show ?thesis by (auto simp: quiet_env_def)
qed

theorem cycle_processes_consecutively_witness:
  "\<exists>x w'. run_cycle quiet_env tip_env ''pearl-1'' [''http://a''] 10 sample_config (new_world empty_db) = (Inr x, w') \<and>
     get_checkpoint_cursor (w_db w') ''pearl-1'' = Inr (cy_checkpoint_after x)"
proof -
  obtain x w' where run: "run_cycle quiet_env tip_env ''pearl-1'' [''http://a''] 10 sample_config (new_world empty_db) = (Inr x, w')"
    using tip_cycle by blast
  from cycle_processes_consecutively [OF tip_start(1,2) run] run show ?thesis by blast
qed

theorem cycle_keeps_finalized_witness:
  "\<exists>x w'. run_cycle quiet_env tip_env ''pearl-1'' [''http://a''] 10 sample_config (new_world empty_db) = (Inr x, w') \<and>
     endpoint_inv (w_db w')"
proof -
  obtain x w' where run: "run_cycle quiet_env tip_env ''pearl-1'' [''http://a''] 10 sample_config (new_world empty_db) = (Inr x, w')"
    using tip_cycle by blast
  from cycle_keeps_finalized [OF run tip_start(3)] run show ?thesis by blast
qed



end
