(* ===== verification/Runner_Loop.thy ===== *)
theory Runner_Loop
  imports Runner_Chain Hashes
begin

text \<open>
  \<open>run_continuous\<close> of \<open>indexer/runner.py\<close> and what it calls: the advisory lock with its own connection, the
  start-up reads with backoff, the cycle loop. The lock server and the liveness of the lock's session are inputs, as
  is the stop signal. A loop that may run for ever takes fuel, one unit per turn, and \<open>None\<close> is running out of it. A
  sleep is recorded in \<open>ls_waits\<close>.
\<close>

section \<open>Lock key\<close>

definition utf8_encode :: "string \<Rightarrow> bytes" where
  "utf8_encode s = concat (map (\<lambda>c. let n = of_char c :: nat in
     if n < 128 then [word_of_nat n] else [word_of_nat (192 + n div 64), word_of_nat (128 + n mod 64)]) s)"

definition be_nat :: "bytes \<Rightarrow> nat" where
  "be_nat bs = foldl (\<lambda>n b. n * 256 + unat b) 0 bs"

definition advisory_lock_key :: "string \<Rightarrow> int" where
  "advisory_lock_key chain_id =
     (let digest = blake2b_8 (utf8_encode ''utsa-gno'') (utf8_encode chain_id);
          value = int (be_nat digest)
      in if 2 ^ 63 \<le> value then value - 2 ^ 64 else value)"

section \<open>Inputs and state\<close>

datatype lock_reply = Granted | Held | Lock_Fault

record loop_env =
  le_run :: run_env
  le_acquire :: "nat \<Rightarrow> lock_reply"
  le_alive :: "nat \<Rightarrow> bool"

record loop_state =
  ls_world :: world
  ls_locked :: bool
  ls_acquires :: nat
  ls_checks :: nat
  ls_waits :: "int list"

definition new_loop_state :: "db \<Rightarrow> loop_state" where
  "new_loop_state d = \<lparr>ls_world = new_world d, ls_locked = False, ls_acquires = 0, ls_checks = 0, ls_waits = []\<rparr>"

text \<open>The connection of the lock is \<open>None\<close> exactly if \<open>ls_locked\<close> is false.\<close>

definition lock_acquire :: "loop_env \<Rightarrow> (loop_state, unit) act" where
  "lock_acquire le st =
     (let st1 = st\<lparr>ls_locked := False, ls_acquires := ls_acquires st + 1\<rparr> in
      case le_acquire le (ls_acquires st) of
        Granted \<Rightarrow> (Inr (), st1\<lparr>ls_locked := True\<rparr>)
      | Held \<Rightarrow> (Inl AdvisoryLockHeld, st1)
      | Lock_Fault \<Rightarrow> (Inl OperationalError, st1))"

definition lock_ensure_alive :: "loop_env \<Rightarrow> (loop_state, unit) act" where
  "lock_ensure_alive le st =
     (if \<not> ls_locked st then (Inl AdvisoryLockLost, st)
      else (if le_alive le (ls_checks st) then Inr () else Inl AdvisoryLockLost, st\<lparr>ls_checks := ls_checks st + 1\<rparr>))"

definition lock_close :: "loop_state \<Rightarrow> loop_state" where
  "lock_close st = st\<lparr>ls_locked := False\<rparr>"

definition loop_stop :: "loop_env \<Rightarrow> loop_state \<Rightarrow> bool" where
  "loop_stop le st = stop_requested (le_run le) (ls_world st)"

definition loop_polled :: "loop_state \<Rightarrow> loop_state" where
  "loop_polled st = st\<lparr>ls_world := polled (ls_world st)\<rparr>"

definition loop_wait :: "int \<Rightarrow> loop_state \<Rightarrow> loop_state" where
  "loop_wait seconds st = loop_polled (st\<lparr>ls_waits := ls_waits st @ [seconds]\<rparr>)"

text \<open>An action of the indexer process inside the loop.\<close>

definition in_world :: "(world, 'a) act \<Rightarrow> (loop_state, 'a) act" where
  "in_world m st = (case m (ls_world st) of (r, w) \<Rightarrow> (r, st\<lparr>ls_world := w\<rparr>))"

definition is_transient_error :: "py_error \<Rightarrow> bool" where
  "is_transient_error e = (if is_RpcError e \<or> e = TransientIndexerError \<or> is_OSError e then True
     else if is_DatabaseError e then False else e \<in> {OperationalError, InterfaceError})"

definition safe_checkpoint :: "loop_env \<Rightarrow> string \<Rightarrow> loop_state \<Rightarrow> loop_state" where
  "safe_checkpoint le chain_id st = snd (in_world (get_checkpoint (le_run le) chain_id) st)"

definition next_backoff :: "continuous_config \<Rightarrow> int \<Rightarrow> int" where
  "next_backoff config backoff = min (cc_max_backoff_seconds config) (backoff * 2)"

definition cycles_done :: "continuous_config \<Rightarrow> int \<Rightarrow> bool" where
  "cycles_done config n = (case cc_max_cycles config of None \<Rightarrow> False | Some m \<Rightarrow> m \<le> n)"

section \<open>Start\<close>

fun acquire_lock_with_backoff ::
  "nat \<Rightarrow> loop_env \<Rightarrow> continuous_config \<Rightarrow> int \<Rightarrow> int \<Rightarrow> loop_state \<Rightarrow> (bool res \<times> loop_state) option" where
  "acquire_lock_with_backoff 0 le config attempts backoff st = None"
| "acquire_lock_with_backoff (Suc fuel) le config attempts backoff st =
     (if loop_stop le st then Some (Inr False, loop_polled st)
      else case lock_acquire le (loop_polled st) of
             (Inr _, st1) \<Rightarrow> Some (Inr True, st1)
           | (Inl e, st1) \<Rightarrow>
               if e = AdvisoryLockHeld \<or> \<not> is_transient_error e then Some (Inl e, st1)
               else if cc_once config \<or> cycles_done config (attempts + 1) then Some (Inr False, st1)
               else if loop_stop le st1 then Some (Inr False, loop_wait backoff st1)
               else acquire_lock_with_backoff fuel le config (attempts + 1) (next_backoff config backoff) (loop_wait backoff st1))"

fun load_rpc_selection_state ::
  "nat \<Rightarrow> loop_env \<Rightarrow> string \<Rightarrow> continuous_config \<Rightarrow> int \<Rightarrow> loop_state \<Rightarrow> (selection_state option res \<times> loop_state) option" where
  "load_rpc_selection_state 0 le chain_id config backoff st = None"
| "load_rpc_selection_state (Suc fuel) le chain_id config backoff st =
     (if loop_stop le st then Some (Inr None, loop_polled st)
      else case lock_ensure_alive le (loop_polled st) of
             (Inl e, st1) \<Rightarrow> Some (Inl e, st1)
           | (Inr _, st1) \<Rightarrow>
               (case in_world (read_selected_rpc_url (le_run le) chain_id) st1 of
                  (Inr selected_url, st2) \<Rightarrow>
                    (case lock_ensure_alive le st2 of
                       (Inl e, st3) \<Rightarrow> Some (Inl e, st3)
                     | (Inr _, st3) \<Rightarrow> Some (Inr (Some (new_selection_state selected_url)), st3))
                | (Inl e, st2) \<Rightarrow>
                    if \<not> is_transient_error e then Some (Inl e, st2)
                    else if cc_once config then Some (Inr None, st2)
                    else if loop_stop le st2 then Some (Inr None, loop_wait backoff st2)
                    else load_rpc_selection_state fuel le chain_id config (next_backoff config backoff) (loop_wait backoff st2)))"

section \<open>The cycle loop\<close>

text \<open>The exit code after the loop.\<close>

definition finish_run :: "loop_env \<Rightarrow> string \<Rightarrow> nat \<Rightarrow> nat \<Rightarrow> loop_state \<Rightarrow> int \<times> loop_state" where
  "finish_run le chain_id attempted successful st =
     (if attempted \<noteq> 0 \<and> successful = 0 then 1 else 0, safe_checkpoint le chain_id (loop_polled st))"

fun cycle_loop ::
  "nat \<Rightarrow> loop_env \<Rightarrow> string \<Rightarrow> string list \<Rightarrow> int \<Rightarrow> continuous_config \<Rightarrow> nat \<Rightarrow> int \<Rightarrow> nat \<Rightarrow> loop_state \<Rightarrow> (int \<times> loop_state) option" where
  "cycle_loop 0 le chain_id rpc_urls max_lag config cycle backoff successful st = None"
| "cycle_loop (Suc fuel) le chain_id rpc_urls max_lag config cycle backoff successful st =
     (if loop_stop le st then Some (finish_run le chain_id cycle successful (loop_polled st))
      else if cycles_done config (int cycle) then Some (finish_run le chain_id cycle successful (loop_polled st))
      else case lock_ensure_alive le (loop_polled st) of
             (Inl e, st1) \<Rightarrow> Some (1, st1)
           | (Inr _, st1) \<Rightarrow>
               (case in_world (run_cycle (le_run le) (re_cycle (le_run le) cycle) chain_id rpc_urls max_lag config) st1 of
                  (Inl e, st2) \<Rightarrow>
                    if \<not> is_transient_error e then Some (1, st2)
                    else (let st3 = safe_checkpoint le chain_id st2 in
                          if cc_once config then Some (1, st3)
                          else if cycles_done config (int cycle + 1) then Some (finish_run le chain_id (cycle + 1) successful st3)
                          else if loop_stop le st3
                          then cycle_loop fuel le chain_id rpc_urls max_lag config (cycle + 1) (next_backoff config backoff) successful (loop_polled st3)
                          else if loop_stop le (loop_polled st3)
                          then Some (finish_run le chain_id (cycle + 1) successful (loop_wait backoff (loop_polled st3)))
                          else cycle_loop fuel le chain_id rpc_urls max_lag config (cycle + 1) (next_backoff config backoff) successful
                                 (loop_wait backoff (loop_polled st3)))
                | (Inr outcome, st2) \<Rightarrow>
                    (let backoff' = (if cy_processed outcome \<noteq> [] then cc_error_backoff_seconds config else backoff) in
                     if cc_once config then Some (finish_run le chain_id (cycle + 1) (successful + 1) st2)
                     else if loop_stop le st2 then Some (finish_run le chain_id (cycle + 1) (successful + 1) (loop_polled st2))
                     else if cy_processed outcome \<noteq> []
                     then cycle_loop fuel le chain_id rpc_urls max_lag config (cycle + 1) backoff' (successful + 1) (loop_polled st2)
                     else if cycles_done config (int cycle + 1)
                     then Some (finish_run le chain_id (cycle + 1) (successful + 1) (loop_polled st2))
                     else if loop_stop le (loop_polled st2)
                     then Some (finish_run le chain_id (cycle + 1) (successful + 1)
                                  (loop_wait (cc_poll_interval_seconds config) (loop_polled st2)))
                     else cycle_loop fuel le chain_id rpc_urls max_lag config (cycle + 1) backoff' (successful + 1)
                            (loop_wait (cc_poll_interval_seconds config) (loop_polled st2)))))"

text \<open>
  The whole run. An invalid configuration raises before the \<open>try\<close>; every other exception is exit code 1; the lock is
  closed on every way out.
\<close>

definition guarded_run ::
  "nat \<Rightarrow> loop_env \<Rightarrow> string \<Rightarrow> string list \<Rightarrow> int \<Rightarrow> continuous_config \<Rightarrow> loop_state \<Rightarrow> (int \<times> loop_state) option" where
  "guarded_run fuel le chain_id rpc_urls max_lag config st =
     (case acquire_lock_with_backoff fuel le config 0 (cc_error_backoff_seconds config) st of
        None \<Rightarrow> None
      | Some (Inr True, st1) \<Rightarrow>
          (case load_rpc_selection_state fuel le chain_id config (cc_error_backoff_seconds config) st1 of
             None \<Rightarrow> None
           | Some (Inr (Some state0), st2) \<Rightarrow>
               cycle_loop fuel le chain_id rpc_urls max_lag config 0 (cc_error_backoff_seconds config) 0
                 (st2\<lparr>ls_world := (ls_world st2)\<lparr>w_sel := state0\<rparr>\<rparr>)
           | Some (_, st2) \<Rightarrow> Some (1, st2))
      | Some (_, st1) \<Rightarrow> Some (1, st1))"

definition run_continuous ::
  "nat \<Rightarrow> loop_env \<Rightarrow> string \<Rightarrow> string list \<Rightarrow> int \<Rightarrow> continuous_config \<Rightarrow> loop_state \<Rightarrow> (int res \<times> loop_state) option" where
  "run_continuous fuel le chain_id rpc_urls max_lag config st =
     (case validate_continuous_config config of
        Inl e \<Rightarrow> Some (Inl e, st)
      | Inr _ \<Rightarrow>
          if rpc_urls = [] then Some (Inr 1, st)
          else (case guarded_run fuel le chain_id rpc_urls max_lag config st of
                  None \<Rightarrow> None
                | Some (code, st') \<Rightarrow> Some (Inr code, lock_close st')))"

section \<open>Invariants of the loop\<close>

text \<open>
  What a run keeps, as a contract: a predicate on the database and the sleeps that every cycle keeps, and every sleep
  the backoff arithmetic allows.
\<close>

locale loop_invariant =
  fixes le :: loop_env and c :: string and urls :: "string list" and lag :: int and cfg :: continuous_config
    and P :: "loop_state \<Rightarrow> bool" and W :: "int \<Rightarrow> bool"
  assumes same: "P st \<Longrightarrow> w_db (ls_world st') = w_db (ls_world st) \<Longrightarrow> ls_waits st' = ls_waits st \<Longrightarrow> P st'"
    and wait: "P st \<Longrightarrow> W s \<Longrightarrow> P (st\<lparr>ls_waits := ls_waits st @ [s]\<rparr>)"
    and cycle: "P st \<Longrightarrow> run_cycle (le_run le) ce c urls lag cfg (ls_world st) = (r, w') \<Longrightarrow> P (st\<lparr>ls_world := w'\<rparr>)"
    and first_backoff: "W (cc_error_backoff_seconds cfg)"
    and later_backoff: "W b \<Longrightarrow> W (next_backoff cfg b)"
    and poll: "W (cc_poll_interval_seconds cfg)"
begin

lemma P_polled: "P st \<Longrightarrow> P (loop_polled st)"
  by (erule same) (simp_all add: loop_polled_def)

lemma P_wait: "P st \<Longrightarrow> W s \<Longrightarrow> P (loop_wait s st)"
  unfolding loop_wait_def by (intro P_polled wait)

lemma P_acquire: "lock_acquire le st = (r, st') \<Longrightarrow> P st \<Longrightarrow> P st'"
  by (rule same [of st]) (auto simp: lock_acquire_def Let_def split: lock_reply.splits)

lemma P_alive: "lock_ensure_alive le st = (r, st') \<Longrightarrow> P st \<Longrightarrow> P st'"
  by (rule same [of st]) (auto simp: lock_ensure_alive_def split: if_splits)

lemma P_query: "in_world (query en f) st = (r, st') \<Longrightarrow> P st \<Longrightarrow> P st'"
  by (rule same [of st]) (auto simp: in_world_def split: prod.splits dest: query_db)

lemma P_safe_checkpoint: "P st \<Longrightarrow> P (safe_checkpoint le c st)"
  unfolding safe_checkpoint_def get_checkpoint_def
  by (cases "in_world (query (le_run le) (\<lambda>d. get_checkpoint_cursor d c)) st") (auto dest: P_query)

lemma P_finish: "finish_run le c n m st = (code, st') \<Longrightarrow> P st \<Longrightarrow> P st'"
  by (auto simp: finish_run_def intro: P_safe_checkpoint P_polled)

lemma P_cycle: "in_world (run_cycle (le_run le) ce c urls lag cfg) st = (r, st') \<Longrightarrow> P st \<Longrightarrow> P st'"
  by (auto simp: in_world_def split: prod.splits dest: cycle)

lemmas P_intros = P_polled P_wait P_safe_checkpoint

lemma P_acquire_lock:
  "acquire_lock_with_backoff fuel le cfg n b st = Some (r, st') \<Longrightarrow> P st \<Longrightarrow> W b \<Longrightarrow> P st'"
proof (induction fuel arbitrary: n b st)
  case (Suc fuel)
  obtain x st1 where a: "lock_acquire le (loop_polled st) = (x, st1)" by fastforce
  have "P st1" using a Suc.prems(2) by (auto intro: P_acquire P_polled)
  with Suc.prems a show ?case
    by (cases x) (auto split: if_splits intro: P_intros dest!: Suc.IH intro!: later_backoff)
qed simp

lemma P_load_state:
  "load_rpc_selection_state fuel le c cfg b st = Some (r, st') \<Longrightarrow> P st \<Longrightarrow> W b \<Longrightarrow> P st'"
proof (induction fuel arbitrary: b st)
  case (Suc fuel)
  obtain x st1 where a: "lock_ensure_alive le (loop_polled st) = (x, st1)" by fastforce
  obtain y st2 where q: "in_world (read_selected_rpc_url (le_run le) c) st1 = (y, st2)" by fastforce
  obtain z st3 where a': "lock_ensure_alive le st2 = (z, st3)" by fastforce
  have 1: "P st1" using a Suc.prems(2) by (auto intro: P_alive P_polled)
  have 2: "P st2" using q 1 unfolding read_selected_rpc_url_def by (rule P_query)
  have 3: "P st3" using a' 2 by (rule P_alive)
  from 1 2 3 Suc.prems a q a' show ?case
    by (cases x; cases y; cases z) (auto split: if_splits intro: P_intros dest!: Suc.IH intro!: later_backoff)
qed simp

lemma P_cycle_loop:
  "cycle_loop fuel le c urls lag cfg n b m st = Some (code, st') \<Longrightarrow> P st \<Longrightarrow> W b \<Longrightarrow> P st'"
proof (induction fuel arbitrary: n b m st)
  case (Suc fuel)
  obtain x st1 where a: "lock_ensure_alive le (loop_polled st) = (x, st1)" by fastforce
  obtain y st2 where q: "in_world (run_cycle (le_run le) (re_cycle (le_run le) n) c urls lag cfg) st1 = (y, st2)" by fastforce
  have 1: "P st1" using a Suc.prems(2) by (auto intro: P_alive P_polled)
  have 2: "P st2" using q 1 by (rule P_cycle)
  show ?case
  proof (cases "loop_stop le st \<or> cycles_done cfg (int n) \<or> isl x")
    case True
    then show ?thesis using Suc.prems a 1 by (auto simp: isl_def split: if_splits intro: P_intros P_finish)
  next
    case False
    then obtain u where x: "x = Inr u" by (cases x) auto
    show ?thesis
    proof (cases y)
      case (Inl e)
      with False x a q Suc.prems 2 show ?thesis
        by (auto simp: Let_def split: if_splits dest!: Suc.IH elim!: P_finish intro!: P_intros later_backoff)
    next
      case (Inr res)
      with False x a q Suc.prems 2 show ?thesis
        by (auto simp: Let_def split: if_splits dest!: Suc.IH elim!: P_finish intro!: P_intros poll first_backoff)
    qed
  qed
qed simp

lemma P_run:
  assumes "run_continuous fuel le c urls lag cfg st = Some (r, st')" and "P st"
  shows "P st'"
proof -
  have close: "P (lock_close s)" if "P s" for s by (rule same [OF that]) (simp_all add: lock_close_def)
  have guarded: "P s" if run: "guarded_run fuel le c urls lag cfg st = Some (code, s)" for code s
  proof -
    obtain a st1 where a: "acquire_lock_with_backoff fuel le cfg 0 (cc_error_backoff_seconds cfg) st = Some (a, st1)"
      using run by (auto simp: guarded_run_def split: option.splits)
    have 1: "P st1" by (rule P_acquire_lock [OF a assms(2) first_backoff])
    show ?thesis
    proof (cases "a = Inr True")
      case False
      then show ?thesis using run a 1 by (auto simp: guarded_run_def split: sum.splits bool.splits)
    next
      case True
      obtain y st2 where l: "load_rpc_selection_state fuel le c cfg (cc_error_backoff_seconds cfg) st1 = Some (y, st2)"
        using run a True by (auto simp: guarded_run_def split: option.splits)
      have 2: "P st2" by (rule P_load_state [OF l 1 first_backoff])
      have 3: "P (st2\<lparr>ls_world := (ls_world st2)\<lparr>w_sel := state0\<rparr>\<rparr>)" for state0 by (rule same [OF 2]) simp_all
      show ?thesis using run a True l 2
        by (auto simp: guarded_run_def split: sum.splits option.splits intro: P_cycle_loop [OF _ 3 first_backoff])
    qed
  qed
  show ?thesis using assms(1) guarded close assms(2)
    by (auto simp: run_continuous_def split: sum.splits if_splits option.splits)
qed

end

end
