(* ===== verification/Continuous_Run.thy ===== *)
theory Continuous_Run
  imports Runner_Loop
begin

text \<open>
  What the continuous run of \<open>Runner_Loop\<close> guarantees: the store it leaves behind, its sleeps, that it ends, and the
  lock that excludes a second indexer.
\<close>

section \<open>The lock key\<close>

lemma be_nat_append: "be_nat (bs @ [b]) = be_nat bs * 256 + unat b"
  by (simp add: be_nat_def)

lemma be_nat_less: "be_nat bs < 256 ^ length bs"
proof (induction bs rule: rev_induct)
  case (snoc b bs)
  have "unat b < 256" using unsigned_less [of b] by simp
  with snoc show ?case by (simp add: be_nat_append)
qed (simp add: be_nat_def)

section \<open>Every run ends\<close>

lemma acquire_fuel:
  "acquire_lock_with_backoff fuel le cfg n b st = Some x \<Longrightarrow> fuel \<le> fuel' \<Longrightarrow> acquire_lock_with_backoff fuel' le cfg n b st = Some x"
proof (induction fuel arbitrary: fuel' n b st)
  case (Suc fuel)
  then obtain f where "fuel' = Suc f" "fuel \<le> f" by (cases fuel') auto
  with Suc show ?case by (auto split: if_splits prod.splits sum.splits)
qed simp

lemma load_fuel:
  "load_rpc_selection_state fuel le c cfg b st = Some x \<Longrightarrow> fuel \<le> fuel' \<Longrightarrow> load_rpc_selection_state fuel' le c cfg b st = Some x"
proof (induction fuel arbitrary: fuel' b st)
  case (Suc fuel)
  then obtain f where "fuel' = Suc f" "fuel \<le> f" by (cases fuel') auto
  with Suc show ?case by (auto split: if_splits prod.splits sum.splits)
qed simp

lemma cycle_fuel:
  "cycle_loop fuel le c urls lag cfg n b m st = Some x \<Longrightarrow> fuel \<le> fuel' \<Longrightarrow> cycle_loop fuel' le c urls lag cfg n b m st = Some x"
proof (induction fuel arbitrary: fuel' n b m st)
  case (Suc fuel)
  then obtain f where "fuel' = Suc f" "fuel \<le> f" by (cases fuel') auto
  with Suc show ?case by (auto simp: Let_def split: if_splits prod.splits sum.splits)
qed simp

lemma guarded_cases:
  assumes "guarded_run fuel le c urls lag cfg st = Some y"
  obtains (no_lock) r st1 where "acquire_lock_with_backoff fuel le cfg 0 (cc_error_backoff_seconds cfg) st = Some (r, st1)"
      "r \<noteq> Inr True" "y = (1, st1)"
    | (no_state) st1 r st2 where "acquire_lock_with_backoff fuel le cfg 0 (cc_error_backoff_seconds cfg) st = Some (Inr True, st1)"
      "load_rpc_selection_state fuel le c cfg (cc_error_backoff_seconds cfg) st1 = Some (r, st2)" "\<And>s. r \<noteq> Inr (Some s)" "y = (1, st2)"
    | (ran) st1 s st2 where "acquire_lock_with_backoff fuel le cfg 0 (cc_error_backoff_seconds cfg) st = Some (Inr True, st1)"
      "load_rpc_selection_state fuel le c cfg (cc_error_backoff_seconds cfg) st1 = Some (Inr (Some s), st2)"
      "cycle_loop fuel le c urls lag cfg 0 (cc_error_backoff_seconds cfg) 0 (st2\<lparr>ls_world := (ls_world st2)\<lparr>w_sel := s\<rparr>\<rparr>) = Some y"
proof -
  obtain r st1 where acq: "acquire_lock_with_backoff fuel le cfg 0 (cc_error_backoff_seconds cfg) st = Some (r, st1)"
    using assms by (auto simp: guarded_run_def split: option.splits)
  show thesis
  proof (cases "r = Inr True")
    case False
    then have "y = (1, st1)" using assms acq by (cases r) (auto simp: guarded_run_def split: bool.splits)
    then show thesis using no_lock acq False by blast
  next
    case True
    obtain x st2 where load: "load_rpc_selection_state fuel le c cfg (cc_error_backoff_seconds cfg) st1 = Some (x, st2)"
      using assms acq True by (auto simp: guarded_run_def split: option.splits)
    show thesis
    proof (cases "\<exists>s. x = Inr (Some s)")
      case False
      then have "y = (1, st2)" using assms acq True load by (auto simp: guarded_run_def split: sum.splits option.splits)
      then show thesis using no_state acq True load False by blast
    next
      case sel: True
      then obtain s where s: "x = Inr (Some s)" by blast
      with assms acq True load have "cycle_loop fuel le c urls lag cfg 0 (cc_error_backoff_seconds cfg) 0
          (st2\<lparr>ls_world := (ls_world st2)\<lparr>w_sel := s\<rparr>\<rparr>) = Some y" by (simp add: guarded_run_def)
      then show thesis using ran acq True load s by blast
    qed
  qed
qed

lemma guarded_fuel:
  assumes "guarded_run fuel le c urls lag cfg st = Some y" and "fuel \<le> fuel'"
  shows "guarded_run fuel' le c urls lag cfg st = Some y"
  using assms(1)
proof (cases rule: guarded_cases)
  case (no_lock r st1)
  then show ?thesis using acquire_fuel [OF no_lock(1) assms(2)]
    by (cases r) (auto simp: guarded_run_def split: bool.splits)
next
  case (no_state st1 r st2)
  then show ?thesis using acquire_fuel [OF no_state(1) assms(2)] load_fuel [OF no_state(2) assms(2)]
    by (cases r) (auto simp: guarded_run_def split: option.splits)
next
  case (ran st1 s st2)
  then show ?thesis using acquire_fuel [OF ran(1) assms(2)] load_fuel [OF ran(2) assms(2)] cycle_fuel [OF ran(3) assms(2)]
    by (simp add: guarded_run_def)
qed

lemma run_fuel:
  "run_continuous fuel le c urls lag cfg st = Some x \<Longrightarrow> fuel \<le> fuel' \<Longrightarrow> run_continuous fuel' le c urls lag cfg st = Some x"
  by (auto simp: run_continuous_def split: sum.splits if_splits option.splits dest: guarded_fuel)

text \<open>The turns left until the signal: a turn that does not stop has polled at least once.\<close>

lemma world_polls [simp]:
  "w_polls (ls_world (loop_polled st)) = Suc (w_polls (ls_world st))" "w_polls (ls_world (loop_wait s st)) = Suc (w_polls (ls_world st))"
  by (simp_all add: loop_polled_def loop_wait_def polled_def)

lemma lock_polls:
  "lock_acquire le st = (r, st') \<Longrightarrow> w_polls (ls_world st') = w_polls (ls_world st)"
  "lock_ensure_alive le st = (r1, st') \<Longrightarrow> w_polls (ls_world st') = w_polls (ls_world st)"
  by (auto simp: lock_acquire_def lock_ensure_alive_def Let_def split: lock_reply.splits if_splits)

lemma query_polls: "in_world (query en f) st = (r, st') \<Longrightarrow> w_polls (ls_world st') = w_polls (ls_world st)"
  by (auto simp: in_world_def query_def split: prod.splits dest: transact_polls)

lemma checkpoint_polls [simp]: "w_polls (ls_world (safe_checkpoint le c st)) = w_polls (ls_world st)"
  unfolding safe_checkpoint_def get_checkpoint_def
  by (cases "in_world (query (le_run le) (\<lambda>d. get_checkpoint_cursor d c)) st") (auto dest: query_polls)

lemma cycle_polls: "in_world (run_cycle en ce c urls lag cfg) st = (r, st') \<Longrightarrow> w_polls (ls_world st) \<le> w_polls (ls_world st')"
  by (auto simp: in_world_def split: prod.splits dest: run_cycle_polls)

lemma acquire_returns:
  assumes "re_stop_at (le_run le) = Some k"
  shows "0 < fuel \<Longrightarrow> k < fuel + w_polls (ls_world st) \<Longrightarrow> acquire_lock_with_backoff fuel le cfg n b st \<noteq> None"
proof (induction fuel arbitrary: n b st)
  case (Suc fuel)
  obtain x st1 where a: "lock_acquire le (loop_polled st) = (x, st1)" by fastforce
  note p = lock_polls(1) [OF a]
  show ?case
  proof (cases "loop_stop le st")
    case False
    then have "0 < fuel" "k < fuel + w_polls (ls_world (loop_wait b st1))"
      using Suc.prems p by (auto simp: loop_stop_def stop_requested_def assms)
    from Suc.IH [OF this] False a show ?thesis by (cases x) auto
  qed simp
qed simp

lemma load_returns:
  assumes "re_stop_at (le_run le) = Some k"
  shows "0 < fuel \<Longrightarrow> k < fuel + w_polls (ls_world st) \<Longrightarrow> load_rpc_selection_state fuel le c cfg b st \<noteq> None"
proof (induction fuel arbitrary: b st)
  case (Suc fuel)
  obtain x st1 where a: "lock_ensure_alive le (loop_polled st) = (x, st1)" by fastforce
  obtain y st2 where q: "in_world (read_selected_rpc_url (le_run le) c) st1 = (y, st2)" by fastforce
  have p: "w_polls (ls_world st2) = Suc (w_polls (ls_world st))"
    using lock_polls(2) [OF a] query_polls [OF q [unfolded read_selected_rpc_url_def]] by simp
  show ?case
  proof (cases "loop_stop le st")
    case False
    then have "0 < fuel" "k < fuel + w_polls (ls_world (loop_wait b st2))"
      using Suc.prems p by (auto simp: loop_stop_def stop_requested_def assms)
    from Suc.IH [OF this] False a q show ?thesis
      by (cases x; cases y) (auto split: prod.splits sum.splits)
  qed simp
qed simp

lemma cycle_returns:
  assumes "re_stop_at (le_run le) = Some k"
  shows "0 < fuel \<Longrightarrow> k < fuel + w_polls (ls_world st) \<Longrightarrow> cycle_loop fuel le c urls lag cfg n b m st \<noteq> None"
proof (induction fuel arbitrary: n b m st)
  case (Suc fuel)
  obtain x st1 where a: "lock_ensure_alive le (loop_polled st) = (x, st1)" by fastforce
  obtain y st2 where q: "in_world (run_cycle (le_run le) (re_cycle (le_run le) n) c urls lag cfg) st1 = (y, st2)" by fastforce
  have p: "Suc (w_polls (ls_world st)) \<le> w_polls (ls_world st2)"
    using lock_polls(2) [OF a] cycle_polls [OF q] by simp
  show ?case
  proof (cases "loop_stop le st")
    case False
    then have f: "0 < fuel" "k \<le> fuel + w_polls (ls_world st)"
      using Suc.prems by (auto simp: loop_stop_def stop_requested_def assms)
    have IH: "cycle_loop fuel le c urls lag cfg n' b' m' s \<noteq> None" if "w_polls (ls_world st2) \<le> w_polls (ls_world s)" for n' b' m' s
      using Suc.IH [OF f(1)] f(2) p that by simp
    note IH' = IH [of "loop_polled s" for s, simplified world_polls checkpoint_polls] IH [of "loop_wait b s" for b s, simplified world_polls checkpoint_polls]
    show ?thesis
      using False a q IH' by (cases x; cases y) (simp_all add: Let_def)
  qed simp
qed simp

lemma run_returns:
  assumes "re_stop_at (le_run le) = Some k" and "k < fuel"
  shows "run_continuous fuel le c urls lag cfg st \<noteq> None"
proof -
  let ?b = "cc_error_backoff_seconds cfg"
  obtain x st1 where a: "acquire_lock_with_backoff fuel le cfg 0 ?b st = Some (x, st1)"
    using acquire_returns [OF assms(1), of fuel st cfg 0 ?b] assms(2) by auto
  obtain y st2 where l: "load_rpc_selection_state fuel le c cfg ?b st1 = Some (y, st2)"
    using load_returns [OF assms(1), of fuel st1 c cfg ?b] assms(2) by auto
  have "\<exists>z. cycle_loop fuel le c urls lag cfg 0 ?b 0 s = Some z" for s
    using cycle_returns [OF assms(1), of fuel s c urls lag cfg 0 ?b 0] assms(2) by auto
  then have "guarded_run fuel le c urls lag cfg st \<noteq> None"
    using a l by (auto simp only: guarded_run_def split: option.splits sum.splits bool.splits prod.splits)
  then show ?thesis by (auto simp: run_continuous_def split: sum.splits)
qed

text \<open>With \<open>--once\<close> every loop returns in its first turn.\<close>

lemma waits_kept:
  "ls_waits (loop_polled st) = ls_waits st"
  "lock_acquire le st = (r, st') \<Longrightarrow> ls_waits st' = ls_waits st"
  "lock_ensure_alive le st = (r1, st') \<Longrightarrow> ls_waits st' = ls_waits st"
  "in_world m st = (r2, st') \<Longrightarrow> ls_waits st' = ls_waits st"
  "ls_waits (safe_checkpoint le c st) = ls_waits st"
  by (auto simp: lock_acquire_def lock_ensure_alive_def loop_polled_def in_world_def safe_checkpoint_def Let_def
      split: lock_reply.splits if_splits prod.splits)

lemma acquire_once:
  assumes "cc_once cfg"
  shows "\<exists>x st'. acquire_lock_with_backoff (Suc fuel) le cfg n b st = Some (x, st') \<and> ls_waits st' = ls_waits st"
  using assms by (auto simp: waits_kept split: prod.splits sum.splits dest!: waits_kept(2))

lemma load_once:
  assumes "cc_once cfg"
  shows "\<exists>x st'. load_rpc_selection_state (Suc fuel) le c cfg b st = Some (x, st') \<and> ls_waits st' = ls_waits st"
  using assms by (auto simp: waits_kept split: prod.splits sum.splits dest!: waits_kept(3,4))

lemma cycle_once:
  assumes "cc_once cfg"
  shows "\<exists>x st'. cycle_loop (Suc fuel) le c urls lag cfg n b m st = Some (x, st') \<and> ls_waits st' = ls_waits st"
  using assms by (auto simp: waits_kept finish_run_def Let_def split: prod.splits sum.splits dest!: waits_kept(3,4))

lemma guarded_once:
  assumes "cc_once cfg"
  shows "\<exists>y st'. guarded_run (Suc fuel) le c urls lag cfg st = Some (y, st') \<and> ls_waits st' = ls_waits st"
proof -
  let ?b = "cc_error_backoff_seconds cfg"
  obtain x st1 where a: "acquire_lock_with_backoff (Suc fuel) le cfg 0 ?b st = Some (x, st1)" "ls_waits st1 = ls_waits st"
    using acquire_once [OF assms] by blast
  obtain y st2 where l: "load_rpc_selection_state (Suc fuel) le c cfg ?b st1 = Some (y, st2)" "ls_waits st2 = ls_waits st1"
    using load_once [OF assms] by blast
  have "\<exists>x st'. cycle_loop (Suc fuel) le c urls lag cfg 0 ?b 0 (st2\<lparr>ls_world := w\<rparr>) = Some (x, st') \<and> ls_waits st' = ls_waits st2" for w
    using cycle_once [OF assms, of fuel le c urls lag 0 ?b 0 "st2\<lparr>ls_world := w\<rparr>"] by simp
  then show ?thesis using a l
    by (auto simp only: guarded_run_def split: option.splits sum.splits bool.splits prod.splits) auto
qed

section \<open>The invariants of the continuous run\<close>

text \<open>The chain and the finalized rows, from the database \<open>d0\<close> of the start on.\<close>

interpretation stored: loop_invariant le c urls lag cfg
  "\<lambda>st. (pg_faithful (re_pg (le_run le)) \<and> chain_ok (re_pg (le_run le)) d0 \<longrightarrow> chain_ok (re_pg (le_run le)) (w_db (ls_world st))) \<and>
     finalized_le d0 (w_db (ls_world st)) \<and> (endpoint_inv d0 \<longrightarrow> endpoint_inv (w_db (ls_world st)))" "\<lambda>_. True"
  for le c urls lag cfg d0
proof
  fix st ce r w'
  assume inv: "(pg_faithful (re_pg (le_run le)) \<and> chain_ok (re_pg (le_run le)) d0 \<longrightarrow> chain_ok (re_pg (le_run le)) (w_db (ls_world st))) \<and>
     finalized_le d0 (w_db (ls_world st)) \<and> (endpoint_inv d0 \<longrightarrow> endpoint_inv (w_db (ls_world st)))"
    and run: "run_cycle (le_run le) ce c urls lag cfg (ls_world st) = (r, w')"
  note steps = run_cycle_steps [OF run]
  have "chain_ok (re_pg (le_run le)) w" if "pg_faithful (re_pg (le_run le))" "chain_ok (re_pg (le_run le)) d0" "w = w_db w'" for w
    using run_cycle_spec [OF run that(1)] inv that by blast
  moreover have "finalized_le d0 (w_db w')" using inv finalized.le_trans db_steps_finalized [OF steps] by blast
  moreover have "endpoint_inv (w_db w')" if "endpoint_inv d0"
    using endpoint_table.steps_inv [OF steps] inv that by blast
  ultimately show "(pg_faithful (re_pg (le_run le)) \<and> chain_ok (re_pg (le_run le)) d0 \<longrightarrow> chain_ok (re_pg (le_run le)) (w_db (ls_world (st\<lparr>ls_world := w'\<rparr>)))) \<and>
     finalized_le d0 (w_db (ls_world (st\<lparr>ls_world := w'\<rparr>))) \<and> (endpoint_inv d0 \<longrightarrow> endpoint_inv (w_db (ls_world (st\<lparr>ls_world := w'\<rparr>))))"
    by simp
qed auto

text \<open>The sleeps of a valid configuration.\<close>

definition wait_ok :: "continuous_config \<Rightarrow> int \<Rightarrow> bool" where
  "wait_ok cfg s \<longleftrightarrow> 1 \<le> s \<and> s \<le> max (cc_max_backoff_seconds cfg) (cc_poll_interval_seconds cfg)"

lemma valid_config:
  "validate_continuous_config cfg = Inr () \<Longrightarrow> 1 \<le> cc_batch_size cfg \<and> 1 \<le> cc_poll_interval_seconds cfg \<and>
     1 \<le> cc_error_backoff_seconds cfg \<and> cc_error_backoff_seconds cfg \<le> cc_max_backoff_seconds cfg \<and> cc_batch_size cfg \<le> cc_hard_max_heights cfg"
  by (auto simp: validate_continuous_config_def res_simps)

interpretation sleeps: loop_invariant le c urls lag cfg
  "\<lambda>st. validate_continuous_config cfg = Inr () \<longrightarrow> (\<forall>s \<in> set (ls_waits st). wait_ok cfg s)"
  "\<lambda>s. validate_continuous_config cfg = Inr () \<longrightarrow> wait_ok cfg s"
  for le c urls lag cfg
  by unfold_locales (auto simp: wait_ok_def next_backoff_def dest: valid_config)

section \<open>Properties\<close>

text \<open>C6: however the continuous indexer ends (an exit code, a refused configuration), the stored chain is still linked
  up to the checkpoint, no finalized row of the start was changed or removed (the derived summary of a transaction apart),
  the endpoint table is consistent, and the advisory lock is released.\<close>

theorem run_keeps_store:
  assumes "run_continuous fuel le c urls lag cfg (new_loop_state d) = Some (r, st')" and "pg_faithful (re_pg (le_run le))"
    and "chain_ok (re_pg (le_run le)) d" and "endpoint_inv d"
  shows "chain_ok (re_pg (le_run le)) (w_db (ls_world st')) \<and> finalized_le d (w_db (ls_world st')) \<and> endpoint_inv (w_db (ls_world st')) \<and>
    \<not> ls_locked st'"
proof -
  have "w_db (ls_world (new_loop_state d)) = d" by (simp add: new_loop_state_def new_world_def)
  then have "chain_ok (re_pg (le_run le)) (w_db (ls_world st')) \<and> finalized_le d (w_db (ls_world st')) \<and> endpoint_inv (w_db (ls_world st'))"
    using stored.P_run [OF assms(1), of d] assms(2-4) finalized.le_refl by simp
  moreover have "\<not> ls_locked st'" using assms(1)
    by (auto simp: run_continuous_def lock_close_def new_loop_state_def split: sum.splits if_splits option.splits)
  ultimately show ?thesis by blast
qed

text \<open>the exponential backoff stays within its configured bounds: every sleep of a run lasts at least a second and at
  most the larger of the maximal backoff and the poll interval.\<close>

theorem run_sleeps_bounded:
  assumes "run_continuous fuel le c urls lag cfg (new_loop_state d) = Some (r, st')" and "s \<in> set (ls_waits st')"
  shows "1 \<le> s \<and> s \<le> max (cc_max_backoff_seconds cfg) (cc_poll_interval_seconds cfg)"
proof -
  have none: "ls_waits (new_loop_state d) = []" by (simp add: new_loop_state_def)
  have "validate_continuous_config cfg = Inr ()"
    using assms none by (auto simp: run_continuous_def split: sum.splits)
  then show ?thesis using sleeps.P_run [OF assms(1)] none assms(2) by (auto simp: wait_ok_def)
qed

text \<open>C7: a stop signal ends the run: if the flag is set from its k-th reading on, the run returns within k + 1 turns of
  each loop, whatever the endpoints, the database server and the lock server do, and more fuel does not change its result.\<close>

theorem stop_signal_ends_run:
  assumes "re_stop_at (le_run le) = Some k"
  shows "\<exists>r st'. \<forall>fuel > k. run_continuous fuel le c urls lag cfg st = Some (r, st')"
proof -
  obtain r st' where "run_continuous (Suc k) le c urls lag cfg st = Some (r, st')"
    using run_returns [OF assms, of "Suc k"] by fastforce
  then show ?thesis using run_fuel by (metis Suc_leI)
qed

text \<open>a run with \<open>--once\<close> makes one attempt and returns, without any signal and without sleeping.\<close>

theorem once_returns:
  assumes "cc_once cfg"
  shows "\<exists>r st'. run_continuous (Suc fuel) le c urls lag cfg st = Some (r, st') \<and> ls_waits st' = ls_waits st"
proof -
  obtain y st' where g: "guarded_run (Suc fuel) le c urls lag cfg st = Some (y, st')" "ls_waits st' = ls_waits st"
    using guarded_once [OF assms] by blast
  then show ?thesis by (auto simp: run_continuous_def lock_close_def split: sum.splits)
qed

text \<open>mutual exclusion: when another process holds the lock of the chain, the run exits with code 1 and does not touch
  the database.\<close>

theorem held_lock_exits:
  assumes "validate_continuous_config cfg = Inr ()" and "urls \<noteq> []" and "\<not> loop_stop le st" and "le_acquire le (ls_acquires st) = Held"
  shows "\<exists>st'. run_continuous (Suc fuel) le c urls lag cfg st = Some (Inr 1, st') \<and> w_db (ls_world st') = w_db (ls_world st)"
  using assms by (simp add: run_continuous_def guarded_run_def lock_acquire_def loop_polled_def Let_def lock_close_def polled_def)

text \<open>the key of the advisory lock fits the signed 64-bit argument of \<open>pg_try_advisory_lock\<close>, for every chain id.\<close>

theorem advisory_lock_key_bounds: "- (2 ^ 63) \<le> advisory_lock_key c \<and> advisory_lock_key c < 2 ^ 63"
  using be_nat_less [of "blake2b_8 (utf8_encode ''utsa-gno'') (utf8_encode c)"]
  by (auto simp: advisory_lock_key_def Let_def)

section \<open>Concrete runs\<close>

definition quiet_loop :: loop_env where
  "quiet_loop = \<lparr>le_run = quiet_env, le_acquire = (\<lambda>_. Granted), le_alive = (\<lambda>_. True)\<rparr>"

text \<open>A lock server that is down at the first attempt, and a signal during the first sleep.\<close>

definition stopped_loop :: loop_env where
  "stopped_loop = \<lparr>le_run = quiet_env\<lparr>re_stop_at := Some 1\<rparr>, le_acquire = (\<lambda>_. Lock_Fault), le_alive = (\<lambda>_. True)\<rparr>"

lemma sample_config_valid: "validate_continuous_config sample_config = Inr ()" "validate_continuous_config (sample_config\<lparr>cc_once := False\<rparr>) = Inr ()"
  by (simp_all add: validate_continuous_config_def sample_config_def guardE_def opt_check_def)

theorem run_keeps_store_witness:
  "\<exists>r st'. run_continuous 1 quiet_loop ''pearl-1'' [''http://a''] 10 sample_config (new_loop_state empty_db) = Some (r, st') \<and>
     chain_ok sample_pg (w_db (ls_world st')) \<and> \<not> ls_locked st'"
proof -
  obtain r st' where run: "run_continuous 1 quiet_loop ''pearl-1'' [''http://a''] 10 sample_config (new_loop_state empty_db) = Some (r, st')"
    using guarded_once [of sample_config 0 quiet_loop "''pearl-1''" "[''http://a'']" 10 "new_loop_state empty_db"] sample_config_valid(1)
    by (auto simp: run_continuous_def sample_config_def)
  have "pg_faithful (re_pg (le_run quiet_loop))" "chain_ok (re_pg (le_run quiet_loop)) empty_db"
    using tip_start(1,2) by (simp_all add: quiet_loop_def new_world_def)
  from run_keeps_store [OF run this empty_db_endpoints] run show ?thesis by (auto simp: quiet_loop_def quiet_env_def)
qed

lemma stopped_run:
  "\<exists>r st'. run_continuous 1 stopped_loop ''pearl-1'' [''http://a''] 10 (sample_config\<lparr>cc_once := False\<rparr>) (new_loop_state empty_db) = Some (r, st') \<and>
     ls_waits st' = [5]"
  using sample_config_valid(2)
  by (simp add: run_continuous_def guarded_run_def new_loop_state_def new_world_def loop_stop_def stop_requested_def stopped_loop_def
      lock_acquire_def loop_polled_def polled_def is_transient_error_def cycles_done_def loop_wait_def lock_close_def sample_config_def Let_def)

theorem run_sleeps_bounded_witness:
  "\<exists>r st'. run_continuous 1 stopped_loop ''pearl-1'' [''http://a''] 10 (sample_config\<lparr>cc_once := False\<rparr>) (new_loop_state empty_db) = Some (r, st') \<and>
     (5::int) \<in> set (ls_waits st') \<and> (5::int) \<le> max (cc_max_backoff_seconds sample_config) (cc_poll_interval_seconds sample_config)"
proof -
  obtain r st' where run: "run_continuous 1 stopped_loop ''pearl-1'' [''http://a''] 10 (sample_config\<lparr>cc_once := False\<rparr>) (new_loop_state empty_db) = Some (r, st')"
    "ls_waits st' = [5]" using stopped_run by blast
  have "(5::int) \<le> max (cc_max_backoff_seconds (sample_config\<lparr>cc_once := False\<rparr>)) (cc_poll_interval_seconds (sample_config\<lparr>cc_once := False\<rparr>))"
    using run_sleeps_bounded [OF run(1), of 5] run(2) by simp
  with run show ?thesis by simp
qed

theorem stop_signal_ends_run_witness:
  "\<exists>r st'. \<forall>fuel > 1. run_continuous fuel stopped_loop ''pearl-1'' [''http://a''] 10 (sample_config\<lparr>cc_once := False\<rparr>) (new_loop_state empty_db) = Some (r, st')"
  by (rule stop_signal_ends_run) (simp add: stopped_loop_def)

theorem once_returns_witness:
  "\<exists>r st'. run_continuous 1 quiet_loop ''pearl-1'' [''http://a''] 10 sample_config (new_loop_state empty_db) = Some (r, st') \<and> ls_waits st' = []"
  using once_returns [of sample_config 0 quiet_loop "''pearl-1''" "[''http://a'']" 10 "new_loop_state empty_db"]
  by (simp add: sample_config_def new_loop_state_def)

theorem held_lock_exits_witness:
  "\<exists>st'. run_continuous 1 (quiet_loop\<lparr>le_acquire := \<lambda>_. Held\<rparr>) ''pearl-1'' [''http://a''] 10 sample_config (new_loop_state empty_db) = Some (Inr 1, st') \<and>
     w_db (ls_world st') = empty_db"
  using held_lock_exits [of sample_config "[''http://a'']" "quiet_loop\<lparr>le_acquire := \<lambda>_. Held\<rparr>" "new_loop_state empty_db" 0 "''pearl-1''" 10]
    sample_config_valid(1)
  by (simp add: loop_stop_def stop_requested_def quiet_loop_def quiet_env_def new_loop_state_def new_world_def)

end
