(* ===== verification/Execution_Backfill.thy ===== *)
theory Execution_Backfill
  imports Runner_Chain
begin

text \<open>
  \<open>indexer/execution_backfill.py\<close> and the loop of \<open>scripts/backfill_transaction_results.py\<close>: execution results are
  added for stored transactions that have none, from the first endpoint that agrees with the stored block. The probes are
  made once, before the loop; the endpoints answer through \<open>rpc_net\<close> and the server may fail at any connection, as in the
  continuous runner.
\<close>

section \<open>Heights without results\<close>

definition lacks_result :: "db \<Rightarrow> int option \<Rightarrow> int option \<Rightarrow> int \<times> nat \<Rightarrow> bool" where
  "lacks_result d start end_at = (\<lambda>(h, i). map_of (results d) (h, i) = None \<and> opt_check (\<lambda>s. s \<le> h) start \<and> opt_check (\<lambda>e. h \<le> e) end_at)"

definition missing_heights :: "db \<Rightarrow> int option \<Rightarrow> int option \<Rightarrow> int \<Rightarrow> int list res" where
  "missing_heights d start end_at limit =
     bindE (in_range (opt_check int8 start \<and> opt_check int8 end_at \<and> 0 \<le> limit \<and> int8 limit)) (\<lambda>_.
     Inr (take (nat limit) (sort (remdups (map fst (filter (lacks_result d start end_at) (map fst (transactions d))))))))"

section \<open>One height\<close>

definition tx_indices :: "db \<Rightarrow> int \<Rightarrow> nat list" where
  "tx_indices d height = sort (map snd (filter (\<lambda>k. fst k = height) (map fst (transactions d))))"

definition store_results_cursor :: "pg \<Rightarrow> int option \<Rightarrow> int \<Rightarrow> jobj \<Rightarrow> execution_result list \<Rightarrow> db \<Rightarrow> db res" where
  "store_results_cursor p endpoint_id height block_payload rs d =
     bindE (case map_of (blocks d) height of
              None \<Rightarrow> Inl (RpcError ''Local block hash mismatch at height '')
            | Some row \<Rightarrow> bindE (canonical_block_hash_hex block_payload) (\<lambda>hash.
                guardE (br_hash_hex row = hash) (RpcError ''Local block hash mismatch at height ''))) (\<lambda>_.
     bindE (guardE (tx_indices d height = [0..<length rs]) (RpcError ''Local transaction index mismatch at height '')) (\<lambda>_.
     foldE (upsert_result p height endpoint_id) rs d))"

definition backfill_attempt :: "run_env \<Rightarrow> rpc_net \<Rightarrow> int \<Rightarrow> rpc_probe \<Rightarrow> (world, unit) act" where
  "backfill_attempt en net height probe =
     bindS (liftS (net (url probe) ''block'' height)) (\<lambda>block_payload.
     bindS (liftS (net (url probe) ''block_results'' height)) (\<lambda>results_payload.
     bindS (liftS (parse_block block_payload None)) (\<lambda>block.
     bindS (liftS (parse_execution_results height (JObj results_payload) (length (pb_transactions block)))) (\<lambda>rs.
     (\<lambda>w. transact en (\<lambda>d. bindE (store_results_cursor (re_pg en) (w_endpoint_id w) height block_payload rs d) (\<lambda>d'. Inr ((), d')))
            (\<lambda>_ w. w) w)))))"

fun backfill_probes :: "run_env \<Rightarrow> rpc_net \<Rightarrow> int \<Rightarrow> rpc_probe list \<Rightarrow> (world, unit) act" where
  "backfill_probes en net height [] w = (Inl (RpcError ''Every RPC failed for backfill height ''), w)"
| "backfill_probes en net height (probe # probes) w =
     (case backfill_attempt en net height probe w of
        (Inr _, w') \<Rightarrow> (Inr (), w')
      | (Inl e, w') \<Rightarrow> if is_endpoint_error e then backfill_probes en net height probes w' else (Inl e, w'))"

definition backfill_height :: "run_env \<Rightarrow> rpc_net \<Rightarrow> rpc_probe list \<Rightarrow> int \<Rightarrow> (world, unit) act" where
  "backfill_height en net probes height = backfill_probes en net height (suitable_rpc_probes probes)"

section \<open>The loop\<close>

fun backfill_heights :: "run_env \<Rightarrow> rpc_net \<Rightarrow> rpc_probe list \<Rightarrow> int list \<Rightarrow> (world, unit) act" where
  "backfill_heights en net probes [] = retS ()"
| "backfill_heights en net probes (h # hs) = bindS (backfill_height en net probes h) (\<lambda>_. backfill_heights en net probes hs)"

text \<open>The \<open>while True\<close> of the script: \<open>None\<close> would be a run that never ends.\<close>

partial_function (option) backfill_main ::
  "run_env \<Rightarrow> rpc_net \<Rightarrow> rpc_probe list \<Rightarrow> int option \<Rightarrow> int option \<Rightarrow> int \<Rightarrow> bool \<Rightarrow> world \<Rightarrow> (int res \<times> world) option" where
  "backfill_main en net probes start end_at batch_size once w =
     (case query en (\<lambda>d. missing_heights d start end_at batch_size) w of
        (Inl e, w1) \<Rightarrow> Some (Inl e, w1)
      | (Inr heights, w1) \<Rightarrow>
          if heights = [] then Some (Inr 0, w1)
          else (case backfill_heights en net probes heights w1 of
                  (Inl e, w2) \<Rightarrow> Some (Inl e, w2)
                | (Inr _, w2) \<Rightarrow> if once then Some (Inr 0, w2) else backfill_main en net probes start end_at batch_size once w2))"

section \<open>What a height adds\<close>

text \<open>\<open>grown d d'\<close>: only results were added.\<close>

definition grown :: "db \<Rightarrow> db \<Rightarrow> bool" where
  "grown d d' = (d' = d\<lparr>results := results d'\<rparr> \<and> map_of (results d) \<subseteq>\<^sub>m map_of (results d'))"

lemma grown_refl [simp]: "grown d d"
  by (simp add: grown_def)

lemma grown_trans: "grown a b \<Longrightarrow> grown b c \<Longrightarrow> grown a c"
  unfolding grown_def by (metis db.surjective db.update_convs(4) map_le_trans)

lemma grown_facts:
  assumes "grown d d'"
  shows "transactions d' = transactions d" and "map_of (results d') k = None \<Longrightarrow> map_of (results d) k = None"
proof -
  have "d' = d\<lparr>results := results d'\<rparr>" using assms by (simp add: grown_def)
  then have "transactions d' = transactions (d\<lparr>results := results d'\<rparr>)" by (rule arg_cong)
  then show "transactions d' = transactions d" by simp
  have "map_of (results d) \<subseteq>\<^sub>m map_of (results d')" using assms by (simp add: grown_def)
  then show "map_of (results d') k = None \<Longrightarrow> map_of (results d) k = None" by (metis domIff map_le_def)
qed

lemma upsert_result_grown:
  assumes "upsert_result p h i r d = Inr d'"
  shows "grown d d' \<and> map_of (results d') (h, er_tx_index r) \<noteq> None"
proof (cases "map_of (results d) (h, er_tx_index r)")
  case None
  then obtain row where "d' = d\<lparr>results := AList.update (h, er_tx_index r) row (results d)\<rparr>"
    using assms by (auto simp: upsert_result_def res_simps)
  with None show ?thesis by (auto simp: grown_def map_le_def update_conv')
next
  case (Some row)
  then have "d' = d" using assms by (auto simp: upsert_result_def res_simps)
  with Some show ?thesis by simp
qed

lemma upsert_results_grown:
  "foldE (upsert_result p h i) rs d = Inr d' \<Longrightarrow> grown d d' \<and> (\<forall>r \<in> set rs. map_of (results d') (h, er_tx_index r) \<noteq> None)"
proof (induction rs arbitrary: d)
  case (Cons r rs)
  then obtain d1 where one: "upsert_result p h i r d = Inr d1" and rest: "foldE (upsert_result p h i) rs d1 = Inr d'"
    by (auto simp: bindE_Inr_iff)
  have "map_of (results d1) \<subseteq>\<^sub>m map_of (results d')" using Cons.IH [OF rest] by (simp add: grown_def)
  then have "map_of (results d') (h, er_tx_index r) \<noteq> None"
    using upsert_result_grown [OF one] by (metis domIff map_le_def)
  then show ?case using Cons.IH [OF rest] upsert_result_grown [OF one] by (auto intro: grown_trans)
qed simp

lemma backfill_attempt_grown:
  assumes "backfill_attempt en net h p w = (r, w')"
  shows "grown (w_db w) (w_db w')"
  using assms unfolding backfill_attempt_def
  by (elim bindS_snd) (auto simp: liftS_def store_results_cursor_def res_simps dest: upsert_results_grown
    elim!: transact_inv [where P = "grown (w_db w)"])

text \<open>After a height is backfilled every stored transaction of it has a result.\<close>

definition height_complete :: "db \<Rightarrow> int \<Rightarrow> bool" where
  "height_complete d h = (\<forall>i. (h, i) \<in> fst ` set (transactions d) \<longrightarrow> map_of (results d) (h, i) \<noteq> None)"

lemma store_results_complete:
  assumes "store_results_cursor p e h payload rs d = Inr d'" and "map er_tx_index rs = [0..<length rs]"
  shows "height_complete d' h"
proof -
  have idx: "tx_indices d h = [0..<length rs]" and st: "foldE (upsert_result p h e) rs d = Inr d'"
    using assms(1) by (auto simp: store_results_cursor_def res_simps)
  have "set (tx_indices d h) = {i. (h, i) \<in> fst ` set (transactions d)}" by (force simp: tx_indices_def)
  then have "{i. (h, i) \<in> fst ` set (transactions d)} = er_tx_index ` set rs" using idx assms(2) by (metis list.set_map)
  moreover have "transactions d' = transactions d" using upsert_results_grown [OF st] grown_facts(1) by blast
  ultimately show ?thesis using upsert_results_grown [OF st] unfolding height_complete_def by (metis (mono_tags, lifting) image_iff mem_Collect_eq)
qed

lemma backfill_attempt_complete:
  assumes "backfill_attempt en net h p w = (Inr u, w')"
  shows "height_complete (w_db w') h"
proof -
  obtain payload rp and block :: parsed_block and rs where rs: "parse_execution_results h (JObj rp) (length (pb_transactions block)) = Inr rs"
    and tr: "transact en (\<lambda>d. bindE (store_results_cursor (re_pg en) (w_endpoint_id w) h payload rs d) (\<lambda>d'. Inr ((), d')))
            (\<lambda>_ w. w) w = (Inr (), w')"
    using assms unfolding backfill_attempt_def by (elim bindS_snd) (auto simp: liftS_def)
  have "map er_tx_index rs = [0..<length rs]"
    using results_rows [OF rs] by (intro nth_equalityI) (auto simp: result_row_ok_def)
  moreover have "store_results_cursor (re_pg en) (w_endpoint_id w) h payload rs (w_db w) = Inr (w_db w')"
    using transact_Inr [OF tr] by (auto simp: bindE_Inr_iff)
  ultimately show ?thesis by (rule store_results_complete [rotated])
qed

lemma backfill_probes_db:
  "backfill_probes en net h ps w = (r, w') \<Longrightarrow> grown (w_db w) (w_db w') \<and> (r = Inr () \<longrightarrow> height_complete (w_db w') h)"
proof (induction ps arbitrary: w)
  case (Cons p ps)
  obtain r1 w1 where one: "backfill_attempt en net h p w = (r1, w1)" by fastforce
  note g = backfill_attempt_grown [OF one]
  show ?case
  proof (cases r1)
    case (Inl e)
    then show ?thesis using Cons.prems one g Cons.IH [of w1] by (auto split: if_splits intro: grown_trans)
  next
    case (Inr u)
    then show ?thesis using Cons.prems one g backfill_attempt_complete [of en net h p w u w1] by auto
  qed
qed auto

lemma complete_grown: "height_complete d h \<Longrightarrow> grown d d' \<Longrightarrow> height_complete d' h"
  using grown_facts [of d d'] unfolding height_complete_def by metis

lemma backfill_heights_db:
  "backfill_heights en net probes hs w = (r, w') \<Longrightarrow>
   grown (w_db w) (w_db w') \<and> (r = Inr () \<longrightarrow> (\<forall>h \<in> set hs. height_complete (w_db w') h))"
proof (induction hs arbitrary: w)
  case (Cons h hs)
  from Cons.prems have "bindS (backfill_height en net probes h) (\<lambda>_. backfill_heights en net probes hs) w = (r, w')" by simp
  then show ?case
  proof (cases rule: bindS_snd)
    case (raised e)
    then show ?thesis using backfill_probes_db by (auto simp: backfill_height_def)
  next
    case (ran u w1)
    then show ?thesis using backfill_probes_db [OF ran(1) [unfolded backfill_height_def]] Cons.IH [OF ran(2)]
      by (auto intro: grown_trans complete_grown)
  qed
qed (simp add: retS_def)

section \<open>The loop ends and does its work\<close>

definition missing_set :: "db \<Rightarrow> int option \<Rightarrow> int option \<Rightarrow> int set" where
  "missing_set d start end_at = fst ` {k \<in> fst ` set (transactions d). lacks_result d start end_at k}"

lemma missing_set_finite: "finite (missing_set d s e)"
  by (simp add: missing_set_def)

lemma missing_heights_set:
  assumes "missing_heights d s e n = Inr hs"
  shows "set hs \<subseteq> missing_set d s e" and "hs = [] \<Longrightarrow> 1 \<le> n \<Longrightarrow> missing_set d s e = {}"
proof -
  let ?all = "sort (remdups (map fst (filter (lacks_result d s e) (map fst (transactions d)))))"
  have all: "set ?all = missing_set d s e" by (auto simp: missing_set_def image_iff)
  have hs: "hs = take (nat n) ?all" using assms by (auto simp: missing_heights_def res_simps)
  show "set hs \<subseteq> missing_set d s e" using set_take_subset [of "nat n" ?all] by (simp only: hs all)
  assume "hs = []" "1 \<le> n"
  then have "?all = []" using hs by simp
  then show "missing_set d s e = {}" using all by (metis empty_set)
qed

lemma missing_set_grown:
  assumes "grown d d'"
  shows "missing_set d' s e \<subseteq> {h \<in> missing_set d s e. \<not> height_complete d' h}"
proof
  fix h assume "h \<in> missing_set d' s e"
  then obtain i where k: "(h, i) \<in> fst ` set (transactions d')" "lacks_result d' s e (h, i)" unfolding missing_set_def by force
  then have "(h, i) \<in> fst ` set (transactions d)" "lacks_result d s e (h, i)"
    using grown_facts [OF assms] by (auto simp: lacks_result_def)
  then have "h \<in> missing_set d s e" unfolding missing_set_def by force
  moreover have "\<not> height_complete d' h" using k by (auto simp: height_complete_def lacks_result_def)
  ultimately show "h \<in> {h \<in> missing_set d s e. \<not> height_complete d' h}" by simp
qed

lemma backfill_pass:
  assumes "missing_heights (w_db w) s e n = Inr hs" and "hs \<noteq> []" and "backfill_heights en net probes hs w1 = (Inr u, w2)"
    and "w_db w1 = w_db w"
  shows "card (missing_set (w_db w2) s e) < card (missing_set (w_db w) s e)"
proof (rule psubset_card_mono)
  have b: "grown (w_db w) (w_db w2)" "\<forall>h \<in> set hs. height_complete (w_db w2) h"
    using backfill_heights_db [OF assms(3)] assms(4) by auto
  have "hd hs \<in> missing_set (w_db w) s e" using missing_heights_set(1) [OF assms(1)] assms(2) by auto
  moreover have "hd hs \<notin> missing_set (w_db w2) s e" using missing_set_grown [OF b(1), of s e] b(2) assms(2) by auto
  moreover have "missing_set (w_db w2) s e \<subseteq> missing_set (w_db w) s e" using missing_set_grown [OF b(1), of s e] by auto
  ultimately show "missing_set (w_db w2) s e \<subset> missing_set (w_db w) s e" by blast
qed (rule missing_set_finite)

text \<open>C24: the backfill loop ends for every database, every endpoint behaviour and every fault of the server: each pass that
  does not end it completes at least one height.\<close>

theorem backfill_terminates: "\<exists>y. backfill_main en net probes start end_at batch_size once w = Some y"
proof (induction "card (missing_set (w_db w) start end_at)" arbitrary: w rule: less_induct)
  case less
  obtain r w1 where q: "query en (\<lambda>d. missing_heights d start end_at batch_size) w = (r, w1)" by fastforce
  show ?case
  proof (cases r)
    case (Inr hs)
    obtain r2 w2 where b: "backfill_heights en net probes hs w1 = (r2, w2)" by fastforce
    have "\<exists>y. backfill_main en net probes start end_at batch_size once w2 = Some y" if "r2 = Inr u" "hs \<noteq> []" for u
      using less [OF backfill_pass] query_Inr [OF q [unfolded Inr]] query_db [OF q] b that by blast
    then show ?thesis using q b Inr by (subst backfill_main.simps) (auto split: sum.splits)
  qed (use q in \<open>subst backfill_main.simps, simp\<close>)
qed

lemma backfill_main_result:
  assumes "backfill_main en net probes s e n once w = Some (r, w')"
  shows "grown (w_db w) (w_db w') \<and> (r = Inr c \<and> \<not> once \<and> 1 \<le> n \<longrightarrow> missing_set (w_db w') s e = {})"
  using assms
proof (induction "card (missing_set (w_db w) s e)" arbitrary: w rule: less_induct)
  case less
  obtain q w1 where q: "query en (\<lambda>d. missing_heights d s e n) w = (q, w1)" by fastforce
  note same = query_db [OF q]
  show ?case
  proof (cases q)
    case (Inl x)
    then show ?thesis using less.prems q same by (subst (asm) backfill_main.simps) auto
  next
    case (Inr hs)
    note hs = query_Inr [OF q [unfolded Inr]]
    obtain r2 w2 where b: "backfill_heights en net probes hs w1 = (r2, w2)" by fastforce
    note g = backfill_heights_db [OF b, unfolded same]
    consider (nothing) "hs = []" "r = Inr 0" "w' = w1" | (ended) "hs \<noteq> []" "w' = w2" "once \<or> (\<exists>x. r = Inl x)"
      | (again) u where "hs \<noteq> []" "r2 = Inr u" "backfill_main en net probes s e n once w2 = Some (r, w')"
      using less.prems q b Inr by (subst (asm) backfill_main.simps) (auto split: sum.splits if_splits)
    then show ?thesis
    proof cases
      case nothing
      then show ?thesis using missing_heights_set(2) [OF hs] same by simp
    next
      case ended
      then show ?thesis using g by auto
    next
      case (again u)
      show ?thesis using less(1) [OF backfill_pass [OF hs again(1) b [unfolded again(2)] same] again(3)] g by (auto intro: grown_trans)
    qed
  qed
qed

text \<open>C25: however a backfill run ends it only adds execution results: no other table and no stored result changes. A run to
  the end leaves no stored transaction of the requested range without a result.\<close>

theorem backfill_completes:
  assumes "backfill_main en net probes s e n once w = Some (r, w')"
  shows "w_db w' = (w_db w)\<lparr>results := results (w_db w')\<rparr> \<and> map_of (results (w_db w)) \<subseteq>\<^sub>m map_of (results (w_db w')) \<and>
    (r = Inr c \<and> \<not> once \<and> 1 \<le> n \<longrightarrow>
      (\<forall>h i. (h, i) \<in> fst ` set (transactions (w_db w')) \<and> opt_check (\<lambda>x. x \<le> h) s \<and> opt_check (\<lambda>x. h \<le> x) e \<longrightarrow>
        map_of (results (w_db w')) (h, i) \<noteq> None))"
proof -
  have "map_of (results d) (h, i) \<noteq> None"
    if "missing_set d s e = {}" "(h, i) \<in> fst ` set (transactions d)" "opt_check (\<lambda>x. x \<le> h) s" "opt_check (\<lambda>x. h \<le> x) e" for d h i
    using that by (auto simp: missing_set_def lacks_result_def)
  then show ?thesis using backfill_main_result [OF assms] unfolding grown_def by blast
qed

text \<open>A store with one transaction that has its result.\<close>

definition stored_tx_db :: db where
  "stored_tx_db = empty_db\<lparr>
     transactions := [((5, 0), \<lparr>tr_raw_base64 = [], tr_raw_length = 0, tr_bytes = None, tr_byte_length = None,
       tr_status = ''not_attempted'', tr_hash = None, tr_summary = JNull\<rparr>)],
     results := [((5, 0), \<lparr>xr_status = ''success'', xr_gas_wanted = 1, xr_gas_used = 1, xr_error = None, xr_log = None, xr_info = None,
       xr_data = None, xr_events = JNull, xr_raw = JNull, xr_endpoint = None\<rparr>)]\<rparr>"

theorem backfill_completes_witness:
  "\<exists>r w'. backfill_main quiet_env (ce_net tip_env) [] None None 10 False (new_world stored_tx_db) = Some (r, w') \<and> r = Inr 0 \<and>
     (5, 0) \<in> fst ` set (transactions (w_db w')) \<and> map_of (results (w_db w')) (5, 0) \<noteq> None"
proof -
  let ?w = "(new_world stored_tx_db)\<lparr>w_conn := 1\<rparr>"
  have "query quiet_env (\<lambda>d. missing_heights d None None 10) (new_world stored_tx_db) = (Inr [], ?w)"
    by (subst query_ok [where x = "[]"])
      (simp_all add: quiet_env_def new_world_def missing_heights_def lacks_result_def stored_tx_db_def opt_check_def int8_def in_range_def)
  then have run: "backfill_main quiet_env (ce_net tip_env) [] None None 10 False (new_world stored_tx_db) = Some (Inr 0, ?w)"
    by (subst backfill_main.simps) simp
  moreover have stored: "(5, 0) \<in> fst ` set (transactions (w_db ?w))" by (simp add: new_world_def stored_tx_db_def)
  moreover have "map_of (results (w_db ?w)) (5, 0) \<noteq> None"
    using backfill_completes [OF run, of 0] stored by (simp add: opt_check_def)
  ultimately show ?thesis by blast
qed

end
