(* ===== verification/Py_Unicode.thy ===== *)
theory Py_Unicode
  imports Py_Text
begin

text \<open>
  Python \<open>str\<close> over all of Unicode, for the components that read rendered documents: a text is the list of its code
  points. UTF-8 in both directions, line splitting, whitespace and literal matching.
\<close>

type_synonym ustr = "nat list"

definition u :: "string \<Rightarrow> ustr" where
  "u s = map of_char s"

lemma u_simps [simp]: "u [] = []" "u (c # s) = of_char c # u s" "u (s @ t) = u s @ u t" "length (u s) = length s"
  by (simp_all add: u_def)

section \<open>UTF-8\<close>

text \<open>The code points a UTF-8 text can hold: all but the surrogates.\<close>

definition scalar :: "nat \<Rightarrow> bool" where
  "scalar n \<longleftrightarrow> n < 55296 \<or> (57344 \<le> n \<and> n \<le> 1114111)"

text \<open>\<open>UnicodeEncodeError\<close>, which \<open>str.encode\<close> raises for a lone surrogate, is a \<open>ValueError\<close>.\<close>

abbreviation encode_error :: py_error where
  "encode_error \<equiv> ValueError ''UnicodeEncodeError''"

definition utf8_char :: "nat \<Rightarrow> bytes" where
  "utf8_char n = map byte_of
     (if n < 128 then [n]
      else if n < 2048 then [192 + n div 64, 128 + n mod 64]
      else if n < 65536 then [224 + n div 4096, 128 + n div 64 mod 64, 128 + n mod 64]
      else [240 + n div 262144, 128 + n div 4096 mod 64, 128 + n div 64 mod 64, 128 + n mod 64])"

definition utf8_bytes :: "ustr \<Rightarrow> bytes" where
  "utf8_bytes s = concat (map utf8_char s)"

text \<open>\<open>len(s.encode("utf-8"))\<close>.\<close>

definition utf8_size :: "ustr \<Rightarrow> nat" where
  "utf8_size s = length (utf8_bytes s)"

text \<open>What the first byte says: the number of continuation bytes, its payload, the least code point of this length.\<close>

definition utf8_lead :: "nat \<Rightarrow> (nat \<times> nat \<times> nat) option" where
  "utf8_lead n =
     (if n < 128 then Some (0, n, 0)
      else if 192 \<le> n \<and> n < 224 then Some (1, n - 192, 128)
      else if 224 \<le> n \<and> n < 240 then Some (2, n - 224, 2048)
      else if 240 \<le> n \<and> n < 248 then Some (3, n - 240, 65536)
      else None)"

definition is_cont :: "8 word \<Rightarrow> bool" where
  "is_cont b \<longleftrightarrow> 128 \<le> unat b \<and> unat b < 192"

definition utf8_payload :: "nat \<Rightarrow> bytes \<Rightarrow> nat" where
  "utf8_payload v cs = foldl (\<lambda>a c. a * 64 + (unat c - 128)) v cs"

text \<open>\<open>bs.decode("utf-8")\<close>; \<open>None\<close> is \<open>UnicodeDecodeError\<close> (no overlong forms, no surrogates).\<close>

function utf8_decode :: "bytes \<Rightarrow> ustr option" where
  "utf8_decode [] = Some []"
| "utf8_decode (b # bs) =
     (case utf8_lead (unat b) of
        None \<Rightarrow> None
      | Some (k, v, lo) \<Rightarrow>
          (let cs = take k bs; n = utf8_payload v cs in
           if length cs = k \<and> list_all is_cont cs \<and> lo \<le> n \<and> scalar n
           then map_option ((#) n) (utf8_decode (drop k bs)) else None))"
  by pat_completeness auto
termination by (relation "measure length") auto

section \<open>Lines and whitespace\<close>

definition uspace :: "nat \<Rightarrow> bool" where
  "uspace n \<longleftrightarrow> (9 \<le> n \<and> n \<le> 13) \<or> (28 \<le> n \<and> n \<le> 32) \<or> n = 133 \<or> n = 160 \<or> n = 5760 \<or> (8192 \<le> n \<and> n \<le> 8202) \<or>
     n = 8232 \<or> n = 8233 \<or> n = 8239 \<or> n = 8287 \<or> n = 12288"

definition uline_break :: "nat \<Rightarrow> bool" where
  "uline_break n \<longleftrightarrow> (10 \<le> n \<and> n \<le> 13) \<or> (28 \<le> n \<and> n \<le> 30) \<or> n = 133 \<or> n = 8232 \<or> n = 8233"

fun ulines_acc :: "ustr \<Rightarrow> ustr \<Rightarrow> ustr list" where
  "ulines_acc acc [] = (if acc = [] then [] else [rev acc])"
| "ulines_acc acc (c # s) =
     (if uline_break c then rev acc # ulines_acc [] (if c = 13 \<and> s \<noteq> [] \<and> hd s = 10 then tl s else s)
      else ulines_acc (c # acc) s)"

definition usplitlines :: "ustr \<Rightarrow> ustr list" where
  "usplitlines = ulines_acc []"

text \<open>\<open>s.strip()\<close> is empty.\<close>

definition ublank :: "ustr \<Rightarrow> bool" where
  "ublank s = list_all uspace s"

definition ulstrip :: "ustr \<Rightarrow> ustr" where
  "ulstrip s = dropWhile uspace s"

definition ustrip :: "ustr \<Rightarrow> ustr" where
  "ustrip s = rev (dropWhile uspace (rev (dropWhile uspace s)))"

section \<open>Matching\<close>

fun starts_with :: "ustr \<Rightarrow> ustr \<Rightarrow> bool" where
  "starts_with s [] = True"
| "starts_with [] (p # ps) = False"
| "starts_with (c # s) (p # ps) = (c = p \<and> starts_with s ps)"

text \<open>\<open>p in s\<close>.\<close>

fun occurs_in :: "ustr \<Rightarrow> ustr \<Rightarrow> bool" where
  "occurs_in p [] = (p = [])"
| "occurs_in p (c # s) = (starts_with (c # s) p \<or> occurs_in p s)"

text \<open>A literal at the head of the text, and what follows it.\<close>

definition expect :: "ustr \<Rightarrow> ustr \<Rightarrow> ustr option" where
  "expect p s = (if starts_with s p then Some (drop (length p) s) else None)"

text \<open>The fields of \<open>s.split(sep)\<close>.\<close>

function usplit :: "ustr \<Rightarrow> ustr \<Rightarrow> ustr \<Rightarrow> ustr list" where
  "usplit sep acc [] = [rev acc]"
| "usplit sep acc (c # s) =
     (if sep \<noteq> [] \<and> starts_with (c # s) sep then rev acc # usplit sep [] (drop (length sep - 1) s)
      else usplit sep (c # acc) s)"
  by pat_completeness auto
termination by (relation "measure (\<lambda>(_, _, s). length s)") auto

section \<open>Facts\<close>

lemma starts_with_iff: "starts_with s p \<longleftrightarrow> (\<exists>r. s = p @ r)"
  by (induction s p rule: starts_with.induct) auto

lemma starts_with_append [simp]: "starts_with (p @ r) p"
  by (auto simp: starts_with_iff)

lemma expect_Some_iff: "expect p s = Some r \<longleftrightarrow> s = p @ r"
  by (auto simp: expect_def starts_with_iff)

lemma expect_append [simp]: "expect p (p @ r) = Some r"
  by (simp add: expect_Some_iff)

lemma occurs_in_iff: "occurs_in p s \<longleftrightarrow> (\<exists>a b. s = a @ p @ b)"
proof (induction s)
  case (Cons c s)
  have "(\<exists>a b. c # s = a @ p @ b) \<longleftrightarrow> (\<exists>b. c # s = p @ b) \<or> (\<exists>a b. s = a @ p @ b)"
    by (metis append_Cons append_Nil append_eq_Cons_conv)
  with Cons show ?case by (simp add: starts_with_iff)
qed simp

text \<open>The lines of a text whose lines hold no line break.\<close>

lemma ulines_acc_line:
  "list_all (\<lambda>c. \<not> uline_break c) l \<Longrightarrow> ulines_acc acc (l @ 10 # s) = (rev acc @ l) # ulines_acc [] s"
  by (induction l arbitrary: acc) (auto simp: uline_break_def)

lemma usplitlines_lines:
  assumes "\<forall>l \<in> set ls. list_all (\<lambda>c. \<not> uline_break c) l"
  shows "usplitlines (concat (map (\<lambda>l. l @ [10]) ls) @ s) = ls @ usplitlines s"
  using assms by (induction ls) (auto simp: usplitlines_def ulines_acc_line)

lemma utf8_char_length: "length (utf8_char n) = (if n < 128 then 1 else if n < 2048 then 2 else if n < 65536 then 3 else 4)"
  by (simp add: utf8_char_def)

lemma utf8_size_simps [simp]: "utf8_size [] = 0" "utf8_size (c # s) = length (utf8_char c) + utf8_size s" "utf8_size (s @ t) = utf8_size s + utf8_size t"
  by (simp_all add: utf8_size_def utf8_bytes_def)

lemma length_le_utf8_size: "length s \<le> utf8_size s"
  by (induction s) (auto simp: utf8_char_length)

lemma utf8_size_ascii: "list_all (\<lambda>c. c < 128) s \<Longrightarrow> utf8_size s = length s"
  by (induction s) (auto simp: utf8_char_length)

lemma base64_digits:
  fixes n :: nat
  shows "n div 64 * 64 + n mod 64 = n" "n div 4096 * 64 + n div 64 mod 64 = n div 64"
    "n div 262144 * 64 + n div 4096 mod 64 = n div 4096"
proof -
  have "n div 4096 = n div 64 div 64" "n div 262144 = n div 4096 div 64"
    by (simp_all flip: div_mult2_eq)
  then show "n div 64 * 64 + n mod 64 = n" "n div 4096 * 64 + n div 64 mod 64 = n div 64"
    "n div 262144 * 64 + n div 4096 mod 64 = n div 4096" by simp_all
qed

lemma utf8_char_decode:
  assumes "scalar n"
  shows "utf8_decode (utf8_char n @ bs) = map_option ((#) n) (utf8_decode bs)"
proof -
  have unat: "unat (byte_of k) = k" if "k < 256" for k
    using that by (simp add: byte_of_def unsigned_of_nat take_bit_nat_eq_self)
  have pay: "utf8_payload v [] = v" "m < 64 \<Longrightarrow> utf8_payload v (byte_of (128 + m) # cs) = utf8_payload (v * 64 + m) cs" for v m cs
    by (simp_all add: utf8_payload_def unat)
  have cont: "m < 64 \<Longrightarrow> is_cont (byte_of (128 + m))" for m by (simp add: is_cont_def unat)
  note facts = utf8_char_def unat cont pay numeral_2_eq_2 numeral_3_eq_3 Let_def base64_digits
  consider "n < 128" | "128 \<le> n" "n < 2048" | "2048 \<le> n" "n < 65536" | "65536 \<le> n" "n \<le> 1114111"
    using assms by (force simp: scalar_def)
  then show ?thesis
  proof cases
    case 1
    then show ?thesis using assms by (simp add: utf8_char_def unat utf8_lead_def utf8_payload_def)
  next
    case 2
    then have "n div 64 < 32" by (simp add: less_mult_imp_div_less)
    then have "utf8_lead (192 + n div 64) = Some (1, n div 64, 128)" "192 + n div 64 < 256" by (simp_all only: utf8_lead_def) auto
    with 2 assms show ?thesis by (simp add: facts)
  next
    case 3
    then have "n div 4096 < 16" by (simp add: less_mult_imp_div_less)
    then have "utf8_lead (224 + n div 4096) = Some (2, n div 4096, 2048)" "224 + n div 4096 < 256" by (simp_all only: utf8_lead_def) auto
    moreover have "4096 * (n div 4096) + n div 64 mod 64 * 64 + n mod 64 = n" using base64_digits [of n] by linarith
    ultimately show ?thesis using 3 assms by (simp add: facts)
  next
    case 4
    then have "n div 262144 < 8" by (simp add: less_mult_imp_div_less)
    then have "utf8_lead (240 + n div 262144) = Some (3, n div 262144, 65536)" "240 + n div 262144 < 256" by (simp_all only: utf8_lead_def) auto
    moreover have "262144 * (n div 262144) + 4096 * (n div 4096 mod 64) + n div 64 mod 64 * 64 + n mod 64 = n"
      using base64_digits [of n] by linarith
    ultimately show ?thesis using 4 assms by (simp add: facts)
  qed
qed

lemma utf8_round_trip: "list_all scalar s \<Longrightarrow> utf8_decode (utf8_bytes s) = Some s"
  by (induction s) (simp_all add: utf8_bytes_def utf8_char_decode)

lemma utf8_decode_scalar: "utf8_decode bs = Some s \<Longrightarrow> list_all scalar s"
  by (induction bs arbitrary: s rule: utf8_decode.induct) (auto simp: Let_def split: option.splits if_splits)

end
