(* ===== verification/Valopers_Parser.thy ===== *)
theory Valopers_Parser
  imports Py_Unicode
begin

text \<open>
  \<open>indexer/valopers_parser.py\<close>: the parsers of the rendered Valopers registry (list pages and detail documents). Each
  regular expression of the module is a matcher here; all of them are deterministic, so that a matcher returns the one
  possible split into groups.
\<close>

section \<open>Limits and character classes\<close>

definition MAX_RENDER_CHARS :: nat where
  "MAX_RENDER_CHARS = 1048576"

definition MAX_RENDER_BYTES :: nat where
  "MAX_RENDER_BYTES = 1048576"

definition MAX_DESCRIPTION_BYTES :: nat where
  "MAX_DESCRIPTION_BYTES = 2048"

definition MIN_SIGNING_PUBKEY_LENGTH :: nat where
  "MIN_SIGNING_PUBKEY_LENGTH = 91"

definition MAX_SIGNING_PUBKEY_LENGTH :: nat where
  "MAX_SIGNING_PUBKEY_LENGTH = 256"

definition bech_char :: "nat \<Rightarrow> bool" where
  "bech_char c \<longleftrightarrow> c = 48 \<or> (50 \<le> c \<and> c \<le> 57) \<or> c = 97 \<or> (99 \<le> c \<and> c \<le> 104) \<or> (106 \<le> c \<and> c \<le> 110) \<or> (112 \<le> c \<and> c \<le> 122)"

definition ascii_alnum :: "nat \<Rightarrow> bool" where
  "ascii_alnum c \<longleftrightarrow> (48 \<le> c \<and> c \<le> 57) \<or> (65 \<le> c \<and> c \<le> 90) \<or> (97 \<le> c \<and> c \<le> 122)"

text \<open>\<open>_MONIKER_RE\<close>, \<open>_ADDRESS_RE\<close>, \<open>_GPUB_RE\<close>.\<close>

definition valid_moniker :: "ustr \<Rightarrow> bool" where
  "valid_moniker m \<longleftrightarrow> m \<noteq> [] \<and> length m \<le> 32 \<and> ascii_alnum (hd m) \<and> ascii_alnum (last m) \<and>
     list_all (\<lambda>c. ascii_alnum c \<or> c = 32 \<or> c = 95 \<or> c = 45) m"

definition is_address :: "ustr \<Rightarrow> bool" where
  "is_address s \<longleftrightarrow> length s = 40 \<and> starts_with s (u ''g1'') \<and> list_all bech_char (drop 2 s)"

definition is_gpub :: "ustr \<Rightarrow> bool" where
  "is_gpub s \<longleftrightarrow> (case expect (u ''gpub1'') s of None \<Rightarrow> False | Some r \<Rightarrow> r \<noteq> [] \<and> list_all bech_char r)"

definition validate_moniker :: "ustr \<Rightarrow> unit res" where
  "validate_moniker m = guardE (valid_moniker m) (ValueError ''Invalid Valoper moniker'')"

section \<open>Matchers\<close>

text \<open>An address at the head of the text.\<close>

definition take_address :: "ustr \<Rightarrow> (ustr \<times> ustr) option" where
  "take_address s = (if is_address (take 40 s) then Some (take 40 s, drop 40 s) else None)"

text \<open>A non-empty run without the given characters; what follows it never begins with an allowed one.\<close>

definition take_run :: "nat set \<Rightarrow> ustr \<Rightarrow> (ustr \<times> ustr) option" where
  "take_run stop s = (let r = takeWhile (\<lambda>c. c \<notin> stop) s in if r = [] then None else Some (r, drop (length r) s))"

definition ENTRY_HEAD :: ustr where "ENTRY_HEAD = u '' * [''"
definition ENTRY_DETAIL :: ustr where "ENTRY_DETAIL = u ''](/r/gnops/valopers:''"
definition ENTRY_PROFILE :: ustr where "ENTRY_PROFILE = u '') - [profile](/r/demo/profile:u/''"
definition ENTRY_END :: ustr where "ENTRY_END = u '')''"

text \<open>\<open>_ENTRY_RE.fullmatch\<close>: moniker, detail address, profile address.\<close>

definition match_entry :: "ustr \<Rightarrow> (ustr \<times> ustr \<times> ustr) option" where
  "match_entry line =
     Option.bind (expect ENTRY_HEAD line) (\<lambda>r.
     Option.bind (take_run {93, 13, 10} r) (\<lambda>(moniker, r).
     Option.bind (expect ENTRY_DETAIL r) (\<lambda>r.
     Option.bind (take_address r) (\<lambda>(detail, r).
     Option.bind (expect ENTRY_PROFILE r) (\<lambda>r.
     Option.bind (take_address r) (\<lambda>(profile, r).
     if r = ENTRY_END then Some (moniker, detail, profile) else None))))))"

definition TAIL_OPERATOR :: ustr where "TAIL_OPERATOR = [10, 10] @ u ''- Operator Address: ''"
definition TAIL_SIGNING :: ustr where "TAIL_SIGNING = [10] @ u ''- Signing Address: ''"
definition TAIL_PUBKEY :: ustr where "TAIL_PUBKEY = [10] @ u ''- Signing PubKey: ''"
definition TAIL_SERVER :: ustr where "TAIL_SERVER = [10] @ u ''- Server Type: ''"
definition TAIL_PROFILE :: ustr where "TAIL_PROFILE = [10, 10] @ u ''[Profile link](/r/demo/profile:u/''"

record tail_fields =
  tf_operator :: ustr
  tf_signing :: ustr
  tf_pubkey :: ustr
  tf_server :: ustr
  tf_profile :: ustr

text \<open>A literal and the field after it.\<close>

definition labelled_address :: "ustr \<Rightarrow> ustr \<Rightarrow> (ustr \<times> ustr) option" where
  "labelled_address label s = Option.bind (expect label s) take_address"

definition labelled_run :: "ustr \<Rightarrow> ustr \<Rightarrow> (ustr \<times> ustr) option" where
  "labelled_run label s = Option.bind (expect label s) (take_run {13, 10})"

text \<open>\<open>_DETAIL_TAIL_RE\<close> at one position, up to the end of the text.\<close>

definition match_tail :: "ustr \<Rightarrow> tail_fields option" where
  "match_tail s =
     (case labelled_address TAIL_OPERATOR s of None \<Rightarrow> None | Some (operator, r) \<Rightarrow>
     (case labelled_address TAIL_SIGNING r of None \<Rightarrow> None | Some (signing, r) \<Rightarrow>
     (case labelled_run TAIL_PUBKEY r of None \<Rightarrow> None | Some (pubkey, r) \<Rightarrow>
     (case labelled_run TAIL_SERVER r of None \<Rightarrow> None | Some (server, r) \<Rightarrow>
     (case labelled_address TAIL_PROFILE r of None \<Rightarrow> None | Some (profile, r) \<Rightarrow>
     if r = [41] \<or> r = [41, 10]
     then Some \<lparr>tf_operator = operator, tf_signing = signing, tf_pubkey = pubkey, tf_server = server, tf_profile = profile\<rparr>
     else None)))))"

text \<open>\<open>_DETAIL_TAIL_RE.search\<close>: the first position with a match, and the text before it.\<close>

fun find_tail :: "ustr \<Rightarrow> ustr \<Rightarrow> (ustr \<times> tail_fields) option" where
  "find_tail before [] = None"
| "find_tail before (c # s) =
     (case match_tail (c # s) of Some f \<Rightarrow> Some (rev before, f) | None \<Rightarrow> find_tail (c # before) s)"

section \<open>Parsers\<close>

record valoper_entry =
  ve_moniker :: ustr
  ve_operator :: ustr

record valoper_profile =
  vp_moniker :: ustr
  vp_description :: ustr
  vp_operator :: ustr
  vp_signing :: ustr
  vp_pubkey :: ustr
  vp_server :: ustr
  vp_profile_path :: ustr

text \<open>A lone surrogate cannot be encoded (\<open>UnicodeEncodeError\<close> is a \<open>ValueError\<close>).\<close>

definition validate_render :: "ustr \<Rightarrow> unit res" where
  "validate_render t =
     bindE (guardE (length t \<le> MAX_RENDER_CHARS) (ValueError ''Valopers render exceeds the input size limit'')) (\<lambda>_.
     bindE (guardE (list_all scalar t) (ValueError ''surrogates not allowed'')) (\<lambda>_.
     guardE (utf8_size t \<le> MAX_RENDER_BYTES) (ValueError ''Valopers render exceeds the input size limit'')))"

definition looks_like_list_entry :: "ustr \<Rightarrow> bool" where
  "looks_like_list_entry line \<longleftrightarrow> occurs_in (u ''/r/gnops/valopers:'') line \<or> occurs_in (u ''/r/demo/profile:u/'') line \<or>
     (starts_with (ulstrip line) (u ''* ['') \<and> occurs_in (u '' - ['') (ulstrip line))"

text \<open>One line of a list page; the accumulator holds the entries so far.\<close>

definition list_line :: "ustr \<Rightarrow> valoper_entry list \<Rightarrow> valoper_entry list res" where
  "list_line line entries =
     (case match_entry line of
        None \<Rightarrow> if looks_like_list_entry line then Inl (ValueError ''Malformed Valopers list entry'') else Inr entries
      | Some (moniker, operator, profile) \<Rightarrow>
          bindE (validate_moniker moniker) (\<lambda>_.
          bindE (guardE (profile = operator) (ValueError ''Valopers entry addresses do not match'')) (\<lambda>_.
          bindE (guardE (operator \<notin> set (map ve_operator entries)) (ValueError ''Duplicate Valoper operator address'')) (\<lambda>_.
          Inr (entries @ [\<lparr>ve_moniker = moniker, ve_operator = operator\<rparr>])))))"

definition parse_valopers_list :: "ustr \<Rightarrow> valoper_entry list res" where
  "parse_valopers_list t =
     bindE (validate_render t) (\<lambda>_.
     bindE (foldE list_line (usplitlines t) []) (\<lambda>entries.
     bindE (guardE (entries \<noteq> [] \<or> (let meaningful = filter (\<lambda>l. \<not> ublank l) (usplitlines t) in
                meaningful \<noteq> [] \<and> last meaningful = u ''No valopers to display.''))
              (ValueError ''Valopers list contains no canonical entries'')) (\<lambda>_.
     Inr entries)))"

definition DETAIL_PREFIX :: ustr where
  "DETAIL_PREFIX = u ''Valoper'' @ [39] @ u ''s details:'' @ [10] @ u ''## ''"

definition PROFILE_PREFIX :: ustr where
  "PROFILE_PREFIX = u ''/r/demo/profile:u/''"

definition SERVER_TYPES :: "ustr list" where
  "SERVER_TYPES = [u ''cloud'', u ''on-prem'', u ''data-center'']"

definition parse_valoper_detail :: "ustr \<Rightarrow> valoper_profile res" where
  "parse_valoper_detail t =
     bindE (validate_render t) (\<lambda>_.
     case expect DETAIL_PREFIX t of
       None \<Rightarrow> Inl (ValueError ''Invalid Valoper detail document prefix'')
     | Some r \<Rightarrow>
       bindE (guardE (10 \<in> set r) (ValueError ''Missing Valoper detail body'')) (\<lambda>_.
       let moniker = takeWhile (\<lambda>c. c \<noteq> 10) r; body = dropWhile (\<lambda>c. c \<noteq> 10) r in
       bindE (validate_moniker moniker) (\<lambda>_.
       case find_tail [] body of
         None \<Rightarrow> Inl (ValueError ''Malformed Valoper detail field block'')
       | Some (before, f) \<Rightarrow>
         let description = tl before in
         bindE (guardE (description \<noteq> []) (ValueError ''Valoper description must not be empty'')) (\<lambda>_.
         bindE (guardE (utf8_size description \<le> MAX_DESCRIPTION_BYTES) (ValueError ''Valoper description exceeds the size limit'')) (\<lambda>_.
         bindE (guardE (is_address (tf_operator f) \<and> is_address (tf_signing f)) (ValueError ''Invalid Valoper address'')) (\<lambda>_.
         bindE (guardE (MIN_SIGNING_PUBKEY_LENGTH \<le> length (tf_pubkey f) \<and> length (tf_pubkey f) \<le> MAX_SIGNING_PUBKEY_LENGTH \<and>
                        is_gpub (tf_pubkey f)) (ValueError ''Invalid Valoper signing public key'')) (\<lambda>_.
         bindE (guardE (tf_server f \<in> set SERVER_TYPES) (ValueError ''Invalid Valoper server type'')) (\<lambda>_.
         bindE (guardE (tf_profile f = tf_operator f) (ValueError ''Valoper profile address does not match operator address'')) (\<lambda>_.
         Inr \<lparr>vp_moniker = moniker, vp_description = description, vp_operator = tf_operator f, vp_signing = tf_signing f,
              vp_pubkey = tf_pubkey f, vp_server = tf_server f, vp_profile_path = PROFILE_PREFIX @ tf_operator f\<rparr>))))))))) "

section \<open>What the matchers accept\<close>

lemma address_chars:
  assumes "is_address a"
  shows "length a = 40" "\<And>c. c \<in> set a \<Longrightarrow> c < 128 \<and> 45 < c"
proof -
  obtain r where r: "a = u ''g1'' @ r" "list_all bech_char r" using assms by (auto simp: is_address_def starts_with_iff)
  show "length a = 40" using assms by (simp add: is_address_def)
  fix c assume "c \<in> set a"
  then show "c < 128 \<and> 45 < c" using r by (auto simp: list_all_iff bech_char_def)
qed

lemma take_address_Some_iff: "take_address s = Some (a, r) \<longleftrightarrow> s = a @ r \<and> is_address a"
proof
  assume "take_address s = Some (a, r)"
  then show "s = a @ r \<and> is_address a" by (auto simp: take_address_def split: if_splits)
next
  assume s: "s = a @ r \<and> is_address a"
  then show "take_address s = Some (a, r)" using address_chars(1) [of a] by (simp add: take_address_def)
qed

lemma take_run_Some:
  assumes "take_run stop s = Some (a, r)"
  shows "s = a @ r \<and> a \<noteq> [] \<and> (\<forall>c \<in> set a. c \<notin> stop)"
proof -
  have a: "a = takeWhile (\<lambda>c. c \<notin> stop) s" "r = drop (length a) s" "a \<noteq> []"
    using assms by (auto simp: take_run_def Let_def split: if_splits)
  then have "s = a @ r" by (metis append_take_drop_id takeWhile_eq_take)
  moreover have "\<forall>c \<in> set a. c \<notin> stop" unfolding a(1) by (auto dest: set_takeWhileD)
  ultimately show ?thesis using a(3) by blast
qed

lemma take_run_append:
  assumes "a \<noteq> []" and "\<forall>c \<in> set a. c \<notin> stop" and "r = [] \<or> hd r \<in> stop"
  shows "take_run stop (a @ r) = Some (a, r)"
proof -
  have "takeWhile (\<lambda>c. c \<notin> stop) (a @ r) = a"
    using assms by (cases r) (auto simp: takeWhile_append)
  then show ?thesis using assms(1) by (simp add: take_run_def Let_def)
qed

text \<open>The line of an entry (the f-string of \<open>_parse_pager_state\<close> writes the same line).\<close>

definition entry_text :: "ustr \<Rightarrow> ustr \<Rightarrow> ustr \<Rightarrow> ustr" where
  "entry_text moniker detail profile = ENTRY_HEAD @ moniker @ ENTRY_DETAIL @ detail @ ENTRY_PROFILE @ profile @ ENTRY_END"

lemma hd_labels:
  "hd (ENTRY_DETAIL @ r) = 93" "hd (TAIL_SERVER @ r) = 10" "hd (TAIL_PROFILE @ r) = 10"
  by (simp_all add: ENTRY_DETAIL_def TAIL_SERVER_def TAIL_PROFILE_def)

lemma match_entry_iff:
  "match_entry line = Some (m, d, p) \<longleftrightarrow>
     line = entry_text m d p \<and> m \<noteq> [] \<and> (\<forall>c \<in> set m. c \<notin> {93, 13, 10}) \<and> is_address d \<and> is_address p"
proof
  assume "match_entry line = Some (m, d, p)"
  then show "line = entry_text m d p \<and> m \<noteq> [] \<and> (\<forall>c \<in> set m. c \<notin> {93, 13, 10}) \<and> is_address d \<and> is_address p"
    unfolding match_entry_def entry_text_def
    by (auto simp: bind_eq_Some_conv expect_Some_iff take_address_Some_iff split: if_splits prod.splits dest!: take_run_Some)
next
  assume r: "line = entry_text m d p \<and> m \<noteq> [] \<and> (\<forall>c \<in> set m. c \<notin> {93, 13, 10}) \<and> is_address d \<and> is_address p"
  then have "take_run {93, 13, 10} (m @ ENTRY_DETAIL @ d @ ENTRY_PROFILE @ p @ ENTRY_END) =
      Some (m, ENTRY_DETAIL @ d @ ENTRY_PROFILE @ p @ ENTRY_END)"
    by (intro take_run_append) (auto simp: hd_labels)
  moreover have "take_address (d @ q) = Some (d, q)" "take_address (p @ q) = Some (p, q)" for q
    using r by (auto simp: take_address_Some_iff)
  ultimately show "match_entry line = Some (m, d, p)" using r by (simp add: match_entry_def entry_text_def)
qed

text \<open>The field block at the end of a detail document.\<close>

definition tail_text :: "tail_fields \<Rightarrow> ustr" where
  "tail_text f = TAIL_OPERATOR @ tf_operator f @ TAIL_SIGNING @ tf_signing f @ TAIL_PUBKEY @ tf_pubkey f @
     TAIL_SERVER @ tf_server f @ TAIL_PROFILE @ tf_profile f @ [41]"

definition tail_ok :: "tail_fields \<Rightarrow> bool" where
  "tail_ok f \<longleftrightarrow> is_address (tf_operator f) \<and> is_address (tf_signing f) \<and> is_address (tf_profile f) \<and>
     tf_pubkey f \<noteq> [] \<and> (\<forall>c \<in> set (tf_pubkey f). c \<notin> {13, 10}) \<and> tf_server f \<noteq> [] \<and> (\<forall>c \<in> set (tf_server f). c \<notin> {13, 10})"

lemma labelled_address_iff: "labelled_address label s = Some (a, r) \<longleftrightarrow> s = label @ a @ r \<and> is_address a"
  by (auto simp: labelled_address_def bind_eq_Some_conv expect_Some_iff take_address_Some_iff)

lemma labelled_run_Some: "labelled_run label s = Some (a, r) \<Longrightarrow> s = label @ a @ r \<and> a \<noteq> [] \<and> (\<forall>c \<in> set a. c \<notin> {13, 10})"
  by (auto simp: labelled_run_def bind_eq_Some_conv expect_Some_iff dest!: take_run_Some)

lemma match_tail_sound:
  assumes "match_tail s = Some f"
  shows "tail_ok f \<and> (s = tail_text f \<or> s = tail_text f @ [10])"
proof -
  obtain a r1 where 1: "labelled_address TAIL_OPERATOR s = Some (a, r1)"
    using assms unfolding match_tail_def by (cases "labelled_address TAIL_OPERATOR s") auto
  obtain b r2 where 2: "labelled_address TAIL_SIGNING r1 = Some (b, r2)"
    using assms 1 unfolding match_tail_def by (cases "labelled_address TAIL_SIGNING r1") auto
  obtain k r3 where 3: "labelled_run TAIL_PUBKEY r2 = Some (k, r3)"
    using assms 1 2 unfolding match_tail_def by (cases "labelled_run TAIL_PUBKEY r2") auto
  obtain v r4 where 4: "labelled_run TAIL_SERVER r3 = Some (v, r4)"
    using assms 1 2 3 unfolding match_tail_def by (cases "labelled_run TAIL_SERVER r3") auto
  obtain p r5 where 5: "labelled_address TAIL_PROFILE r4 = Some (p, r5)"
    using assms 1 2 3 4 unfolding match_tail_def by (cases "labelled_address TAIL_PROFILE r4") auto
  have r5: "r5 = [41] \<or> r5 = [41, 10]"
    and f: "f = \<lparr>tf_operator = a, tf_signing = b, tf_pubkey = k, tf_server = v, tf_profile = p\<rparr>"
    using assms unfolding match_tail_def by (simp_all add: 1 2 3 4 5 split: if_splits)
  have "s = TAIL_OPERATOR @ a @ TAIL_SIGNING @ b @ TAIL_PUBKEY @ k @ TAIL_SERVER @ v @ TAIL_PROFILE @ p @ r5"
    using 1 2 5 labelled_run_Some [OF 3] labelled_run_Some [OF 4] unfolding labelled_address_iff by metis
  moreover have "tail_ok f"
    using 1 2 5 labelled_run_Some [OF 3] labelled_run_Some [OF 4] unfolding labelled_address_iff by (simp add: tail_ok_def f)
  ultimately show ?thesis using r5 by (auto simp: tail_text_def f)
qed

lemma match_tail_complete:
  assumes ok: "tail_ok f" and e: "e = [] \<or> e = [10]"
  shows "match_tail (tail_text f @ e) = Some f"
proof -
  have runs: "labelled_run TAIL_PUBKEY (TAIL_PUBKEY @ tf_pubkey f @ TAIL_SERVER @ q) = Some (tf_pubkey f, TAIL_SERVER @ q)"
    "labelled_run TAIL_SERVER (TAIL_SERVER @ tf_server f @ TAIL_PROFILE @ q) = Some (tf_server f, TAIL_PROFILE @ q)" for q
    using ok unfolding tail_ok_def labelled_run_def expect_append bind.bind_lunit by (intro take_run_append; auto simp: hd_labels)+
  have addr: "labelled_address l (l @ tf_operator f @ q) = Some (tf_operator f, q)" "labelled_address l (l @ tf_signing f @ q) = Some (tf_signing f, q)"
    "labelled_address l (l @ tf_profile f @ q) = Some (tf_profile f, q)" for l q
    using ok by (auto simp: labelled_address_iff tail_ok_def)
  show ?thesis using e unfolding match_tail_def tail_text_def by (auto simp: runs addr)
qed

lemma match_tail_iff:
  "match_tail s = Some f \<longleftrightarrow> tail_ok f \<and> (s = tail_text f \<or> s = tail_text f @ [10])"
  using match_tail_sound match_tail_complete [of f "[]"] match_tail_complete [of f "[10]"] by auto

text \<open>A text has at most one field block, because the block has a fixed number of lines.\<close>

lemma tail_text_newlines:
  assumes "tail_ok f"
  shows "count_list (tail_text f) 10 = 7"
proof -
  have none: "count_list s 10 = 0" if "\<forall>c \<in> set s. c \<noteq> 10" for s :: ustr
    using that by (induction s) auto
  have labels: "count_list TAIL_OPERATOR 10 = 2" "count_list TAIL_SIGNING 10 = 1" "count_list TAIL_PUBKEY 10 = 1"
    "count_list TAIL_SERVER 10 = 1" "count_list TAIL_PROFILE 10 = 2"
    by (simp_all add: TAIL_OPERATOR_def TAIL_SIGNING_def TAIL_PUBKEY_def TAIL_SERVER_def TAIL_PROFILE_def)
  have "count_list (tf_operator f) 10 = 0" "count_list (tf_signing f) 10 = 0" "count_list (tf_profile f) 10 = 0"
    using assms address_chars(2) unfolding tail_ok_def by (force intro!: none)+
  moreover have "count_list (tf_pubkey f) 10 = 0" "count_list (tf_server f) 10 = 0"
    using assms unfolding tail_ok_def by (auto intro!: none)
  ultimately show ?thesis by (simp add: tail_text_def labels)
qed

lemma tail_unique:
  assumes "tail_ok f" and "tail_ok g" and "a @ tail_text f @ e = tail_text g @ e'" and "e = [] \<or> e = [10]" and "e' = [] \<or> e' = [10]"
  shows "a = []"
proof (rule ccontr)
  assume a: "a \<noteq> []"
  have "last (a @ tail_text f @ e) = (if e = [] then 41 else 10)" "last (tail_text g @ e') = (if e' = [] then 41 else 10)"
    using assms(4,5) by (auto simp: tail_text_def)
  with assms(3-5) have "e = e'" by (auto split: if_splits)
  with assms(3) have eq: "a @ tail_text f = tail_text g" by simp
  have "count_list a 10 + 7 = 7" using tail_text_newlines assms(1,2) eq by (metis count_list_append)
  then have "10 \<notin> set a" by (simp add: count_list_0_iff)
  moreover have "hd (tail_text g) = 10" by (simp add: tail_text_def TAIL_OPERATOR_def)
  ultimately show False using a eq by (metis hd_append2 list.set_sel(1))
qed

lemma find_tail_sound:
  "find_tail before s = Some (b, f) \<Longrightarrow> \<exists>a. b = rev before @ a \<and> tail_ok f \<and> (s = a @ tail_text f \<or> s = a @ tail_text f @ [10])"
proof (induction before s rule: find_tail.induct)
  case (2 before c s)
  show ?case
  proof (cases "match_tail (c # s)")
    case None
    with 2 obtain a where "b = rev (c # before) @ a" "tail_ok f" "s = a @ tail_text f \<or> s = a @ tail_text f @ [10]" by auto
    then show ?thesis by (intro exI [of _ "c # a"]) auto
  next
    case (Some g)
    with 2 have "b = rev before" "g = f" by auto
    then show ?thesis using Some match_tail_iff [of "c # s"] by (intro exI [of _ "[]"]) auto
  qed
qed simp

lemma find_tail_complete:
  assumes "tail_ok f" and "e = [] \<or> e = [10]"
  shows "find_tail before (a @ tail_text f @ e) = Some (rev before @ a, f)"
proof (induction a arbitrary: before)
  case Nil
  have m: "match_tail (tail_text f @ e) = Some f" using assms by (auto simp: match_tail_iff)
  obtain c s where cs: "tail_text f @ e = c # s" by (auto simp: tail_text_def TAIL_OPERATOR_def)
  show ?case using m unfolding append_Nil cs by simp
next
  case (Cons c a)
  have "match_tail ((c # a) @ tail_text f @ e) = None"
  proof (rule ccontr)
    assume "match_tail ((c # a) @ tail_text f @ e) \<noteq> None"
    then obtain g where g: "match_tail ((c # a) @ tail_text f @ e) = Some g" by blast
    have g': "tail_ok g" "(c # a) @ tail_text f @ e = tail_text g @ [] \<or> (c # a) @ tail_text f @ e = tail_text g @ [10]"
      using g unfolding match_tail_iff by auto
    then show False using tail_unique [OF assms(1) g'(1) _ assms(2)] by blast
  qed
  then show ?case using Cons by simp
qed

section \<open>Documents\<close>

text \<open>A detail document as the realm renders it.\<close>

definition render_detail :: "valoper_profile \<Rightarrow> ustr" where
  "render_detail p = DETAIL_PREFIX @ vp_moniker p @ [10] @ vp_description p @
     tail_text \<lparr>tf_operator = vp_operator p, tf_signing = vp_signing p, tf_pubkey = vp_pubkey p, tf_server = vp_server p,
       tf_profile = vp_operator p\<rparr>"

definition valid_profile :: "valoper_profile \<Rightarrow> bool" where
  "valid_profile p \<longleftrightarrow> valid_moniker (vp_moniker p) \<and> vp_description p \<noteq> [] \<and> utf8_size (vp_description p) \<le> MAX_DESCRIPTION_BYTES \<and>
     is_address (vp_operator p) \<and> is_address (vp_signing p) \<and> MIN_SIGNING_PUBKEY_LENGTH \<le> length (vp_pubkey p) \<and>
     length (vp_pubkey p) \<le> MAX_SIGNING_PUBKEY_LENGTH \<and> is_gpub (vp_pubkey p) \<and> vp_server p \<in> set SERVER_TYPES \<and>
     vp_profile_path p = PROFILE_PREFIX @ vp_operator p"

lemma gpub_chars: "is_gpub s \<Longrightarrow> c \<in> set s \<Longrightarrow> c < 128 \<and> 45 < c"
  by (auto simp: is_gpub_def expect_Some_iff list_all_iff bech_char_def split: option.splits)

lemma server_chars: "s \<in> set SERVER_TYPES \<Longrightarrow> s \<noteq> [] \<and> (\<forall>c \<in> set s. c \<notin> {13, 10})"
  by (auto simp: SERVER_TYPES_def)

lemma moniker_chars: "valid_moniker m \<Longrightarrow> c \<in> set m \<Longrightarrow> c < 128 \<and> 31 < c \<and> c \<noteq> 93"
  by (auto simp: valid_moniker_def list_all_iff ascii_alnum_def)

lemma moniker_line: "valid_moniker m \<Longrightarrow> takeWhile (\<lambda>c. c \<noteq> 10) (m @ 10 # r) = m \<and> dropWhile (\<lambda>c. c \<noteq> 10) (m @ 10 # r) = 10 # r"
  using moniker_chars [of m 10] by (auto simp: takeWhile_append dropWhile_append)

lemma profile_tail_ok:
  assumes "valid_profile p"
  shows "tail_ok \<lparr>tf_operator = vp_operator p, tf_signing = vp_signing p, tf_pubkey = vp_pubkey p, tf_server = vp_server p,
       tf_profile = vp_operator p\<rparr>"
proof -
  have "vp_pubkey p \<noteq> []" "\<forall>c \<in> set (vp_pubkey p). c \<notin> {13, 10}"
    using assms gpub_chars [of "vp_pubkey p"] by (force simp: valid_profile_def is_gpub_def expect_def split: option.splits)+
  then show ?thesis using assms server_chars [of "vp_server p"] by (auto simp: tail_ok_def valid_profile_def)
qed

lemma parse_detail_complete:
  assumes p: "valid_profile p" and t: "t = render_detail p \<or> t = render_detail p @ [10]" and size: "validate_render t = Inr ()"
  shows "parse_valoper_detail t = Inr p"
proof -
  obtain e where e: "e = [] \<or> e = [10]" and te: "t = render_detail p @ e" using t by auto
  let ?f = "\<lparr>tf_operator = vp_operator p, tf_signing = vp_signing p, tf_pubkey = vp_pubkey p, tf_server = vp_server p,
       tf_profile = vp_operator p\<rparr>"
  have m: "valid_moniker (vp_moniker p)" using p by (simp add: valid_profile_def)
  have t': "t = DETAIL_PREFIX @ vp_moniker p @ 10 # vp_description p @ tail_text ?f @ e"
    by (simp add: te render_detail_def)
  have tail: "find_tail [] (10 # vp_description p @ tail_text ?f @ e) = Some (10 # vp_description p, ?f)"
    using find_tail_complete [OF profile_tail_ok [OF p] e, of "[]" "10 # vp_description p"] by simp
  show ?thesis
    using size m p unfolding parse_valoper_detail_def
    by (simp add: t' moniker_line [OF m] tail validate_moniker_def guardE_def valid_profile_def del: find_tail.simps)
qed

lemma parse_detail_sound:
  assumes "parse_valoper_detail t = Inr p"
  shows "valid_profile p \<and> validate_render t = Inr () \<and> (t = render_detail p \<or> t = render_detail p @ [10])"
proof -
  obtain r where size: "validate_render t = Inr ()" and t: "t = DETAIL_PREFIX @ r" and nl: "10 \<in> set r"
    using assms unfolding parse_valoper_detail_def by (auto simp: res_simps expect_Some_iff split: option.splits)
  let ?m = "takeWhile (\<lambda>c. c \<noteq> 10) r" and ?b = "dropWhile (\<lambda>c. c \<noteq> 10) r"
  have r: "r = ?m @ ?b" by simp
  obtain b where b: "?b = 10 # b" using nl by (metis (mono_tags, lifting) dropWhile_eq_Nil_conv hd_dropWhile list.exhaust_sel)
  obtain before f where f: "find_tail [] ?b = Some (before, f)"
    using assms unfolding parse_valoper_detail_def t by (auto simp: res_simps Let_def nl split: option.splits simp del: find_tail.simps)
  have p: "p = \<lparr>vp_moniker = ?m, vp_description = tl before, vp_operator = tf_operator f, vp_signing = tf_signing f,
              vp_pubkey = tf_pubkey f, vp_server = tf_server f, vp_profile_path = PROFILE_PREFIX @ tf_operator f\<rparr>"
    and ok: "valid_moniker ?m" "tl before \<noteq> []" "utf8_size (tl before) \<le> MAX_DESCRIPTION_BYTES" "is_address (tf_operator f)"
      "is_address (tf_signing f)" "MIN_SIGNING_PUBKEY_LENGTH \<le> length (tf_pubkey f)" "length (tf_pubkey f) \<le> MAX_SIGNING_PUBKEY_LENGTH"
      "is_gpub (tf_pubkey f)" "tf_server f \<in> set SERVER_TYPES" "tf_profile f = tf_operator f"
    using assms f nl unfolding parse_valoper_detail_def t by (auto simp: res_simps Let_def validate_moniker_def simp del: find_tail.simps)
  obtain e where e: "e = [] \<or> e = [10]" and be: "10 # b = before @ tail_text f @ e"
    using find_tail_sound [OF f] b by auto
  have "before \<noteq> []" using ok(2) by auto
  then have "before = 10 # tl before" using be by (cases before) auto
  moreover have "f = \<lparr>tf_operator = tf_operator f, tf_signing = tf_signing f, tf_pubkey = tf_pubkey f, tf_server = tf_server f, tf_profile = tf_operator f\<rparr>"
    using ok(10) by (cases f) simp
  ultimately have "t = render_detail p @ e" using t r b be unfolding p render_detail_def
    by (metis append_Cons append_assoc append_Nil valoper_profile.select_convs)
  then show ?thesis using e ok size by (auto simp: valid_profile_def p)
qed

section \<open>Properties\<close>

text \<open>C22: the detail parser accepts exactly the documents the realm renders for a valid profile (with or without a
  final newline), and returns that profile: nothing in the free-text description can be read as an identity field.\<close>

theorem parse_valoper_detail_exact:
  "parse_valoper_detail t = Inr p \<longleftrightarrow>
     valid_profile p \<and> validate_render t = Inr () \<and> (t = render_detail p \<or> t = render_detail p @ [10])"
  using parse_detail_sound parse_detail_complete by blast

text \<open>The list page of some entries, one canonical line each.\<close>

definition render_list :: "valoper_entry list \<Rightarrow> ustr" where
  "render_list es = concat (map (\<lambda>e. entry_text (ve_moniker e) (ve_operator e) (ve_operator e) @ [10]) es)"

definition valid_entry :: "valoper_entry \<Rightarrow> bool" where
  "valid_entry e \<longleftrightarrow> valid_moniker (ve_moniker e) \<and> is_address (ve_operator e)"

lemma entry_line_no_break:
  assumes "valid_entry e"
  shows "list_all (\<lambda>c. \<not> uline_break c) (entry_text (ve_moniker e) (ve_operator e) (ve_operator e))"
proof -
  have labels: "list_all (\<lambda>c. \<not> uline_break c) ENTRY_HEAD" "list_all (\<lambda>c. \<not> uline_break c) ENTRY_DETAIL"
    "list_all (\<lambda>c. \<not> uline_break c) ENTRY_PROFILE" "list_all (\<lambda>c. \<not> uline_break c) ENTRY_END"
    by (simp_all add: ENTRY_HEAD_def ENTRY_DETAIL_def ENTRY_PROFILE_def ENTRY_END_def uline_break_def)
  have "\<not> uline_break c" if "c \<in> set (ve_moniker e)" for c
    using moniker_chars [OF _ that] assms by (auto simp: valid_entry_def uline_break_def)
  moreover have "\<not> uline_break c" if "c \<in> set (ve_operator e)" for c
    using address_chars(2) [OF _ that] assms by (auto simp: valid_entry_def uline_break_def)
  ultimately show ?thesis using labels by (auto simp: entry_text_def list_all_iff)
qed

lemma list_lines_complete:
  assumes "\<forall>e \<in> set es. valid_entry e" and "distinct (map ve_operator (acc @ es))"
  shows "foldE list_line (map (\<lambda>e. entry_text (ve_moniker e) (ve_operator e) (ve_operator e)) es) acc = Inr (acc @ es)"
  using assms
proof (induction es arbitrary: acc)
  case (Cons e es)
  have "match_entry (entry_text (ve_moniker e) (ve_operator e) (ve_operator e)) = Some (ve_moniker e, ve_operator e, ve_operator e)"
    using Cons.prems(1) moniker_chars [of "ve_moniker e"] unfolding match_entry_iff
    by (force simp: valid_entry_def valid_moniker_def)
  then have "list_line (entry_text (ve_moniker e) (ve_operator e) (ve_operator e)) acc = Inr (acc @ [e])"
    using Cons.prems by (auto simp: list_line_def validate_moniker_def valid_entry_def)
  then show ?case using Cons.IH [of "acc @ [e]"] Cons.prems by simp
qed simp

lemma list_round_trip:
  assumes "\<forall>e \<in> set es. valid_entry e" and "distinct (map ve_operator es)" and "es \<noteq> []" and "validate_render (render_list es) = Inr ()"
  shows "parse_valopers_list (render_list es) = Inr es"
proof -
  have "usplitlines (render_list es) = map (\<lambda>e. entry_text (ve_moniker e) (ve_operator e) (ve_operator e)) es"
    using usplitlines_lines [of "map (\<lambda>e. entry_text (ve_moniker e) (ve_operator e) (ve_operator e)) es" "[]"] entry_line_no_break assms(1)
    by (simp add: render_list_def comp_def usplitlines_def)
  then show ?thesis using assms list_lines_complete [of es "[]"] by (simp add: parse_valopers_list_def)
qed

text \<open>printing a list page and parsing it again returns the same entries in the same order.\<close>

theorem valopers_list_round_trip:
  assumes "\<forall>e \<in> set es. valid_entry e" and "distinct (map ve_operator es)" and "es \<noteq> []" and "validate_render (render_list es) = Inr ()"
  shows "parse_valopers_list (render_list es) = Inr es"
  by (rule list_round_trip [OF assms])

text \<open>What a list page yields is always valid and without duplicates.\<close>

lemma list_lines_sound:
  "foldE list_line ls acc = Inr es \<Longrightarrow> \<forall>e \<in> set acc. valid_entry e \<Longrightarrow> distinct (map ve_operator acc) \<Longrightarrow>
     (\<forall>e \<in> set es. valid_entry e) \<and> distinct (map ve_operator es)"
proof (induction ls arbitrary: acc)
  case (Cons l ls)
  obtain acc1 where 1: "list_line l acc = Inr acc1" "foldE list_line ls acc1 = Inr es" using Cons.prems(1) by (auto simp: bindE_Inr_iff)
  have "(\<forall>e \<in> set acc1. valid_entry e) \<and> distinct (map ve_operator acc1)"
    using 1(1) Cons.prems(2,3)
    by (auto simp: list_line_def res_simps validate_moniker_def valid_entry_def match_entry_iff split: option.splits if_splits prod.splits)
  then show ?case using Cons.IH [OF 1(2)] by blast
qed simp

lemma parse_valopers_list_valid:
  "parse_valopers_list t = Inr es \<Longrightarrow> (\<forall>e \<in> set es. valid_entry e) \<and> distinct (map ve_operator es)"
  by (auto simp: parse_valopers_list_def res_simps dest: list_lines_sound)

section \<open>A registry of one operator\<close>

definition sample_operator :: ustr where
  "sample_operator = u ''g1'' @ replicate 38 97"

definition sample_entry :: valoper_entry where
  "sample_entry = \<lparr>ve_moniker = u ''node-1'', ve_operator = sample_operator\<rparr>"

lemma sample_entry_valid: "is_address sample_operator" "valid_entry sample_entry"
  by (simp_all add: sample_entry_def sample_operator_def valid_entry_def valid_moniker_def is_address_def ascii_alnum_def bech_char_def
      list_all_iff starts_with_iff)

lemma sample_page: "validate_render (render_list [sample_entry]) = Inr ()"
proof -
  have "list_all (\<lambda>c. c < 128) (render_list [sample_entry])" "length (render_list [sample_entry]) \<le> MAX_RENDER_CHARS"
    by (simp_all add: render_list_def entry_text_def sample_entry_def sample_operator_def ENTRY_HEAD_def ENTRY_DETAIL_def ENTRY_PROFILE_def
        ENTRY_END_def MAX_RENDER_CHARS_def list_all_iff)
  then show ?thesis using utf8_size_ascii [of "render_list [sample_entry]"]
    by (auto simp: validate_render_def MAX_RENDER_CHARS_def MAX_RENDER_BYTES_def list_all_iff scalar_def guardE_def)
qed

theorem valopers_list_round_trip_witness:
  "parse_valopers_list (render_list [sample_entry]) = Inr [sample_entry] \<and> valid_entry sample_entry"
  using valopers_list_round_trip [of "[sample_entry]"] sample_page sample_entry_valid(2) by simp


end
