(* ===== verification/Valopers_Source.thy ===== *)
theory Valopers_Source
  imports Valopers_Parser Inspect_Rpc Hashes
begin

text \<open>
  \<open>indexer/valopers_source.py\<close>: the \<open>vm/qrender\<close> requests for the Valopers realm and the validation of the
  responses. The general categories of code points (\<open>unicodedata.category\<close>) are a table of the Unicode standard and an
  argument here (\<open>category_c\<close>: the category begins with C); only the preview depends on it.
\<close>

section \<open>Constants and encoders\<close>

definition VALOPERS_RENDER_PREFIX :: ustr where
  "VALOPERS_RENDER_PREFIX = u ''gno.land/r/gnops/valopers:''"

definition MAX_DECODED_RESPONSE_BYTES :: nat where
  "MAX_DECODED_RESPONSE_BYTES = 1048576"

definition MAX_ENCODED_RESPONSE_CHARS :: nat where
  "MAX_ENCODED_RESPONSE_CHARS = 4 * ((MAX_DECODED_RESPONSE_BYTES + 2) div 3)"

definition MAX_PREVIEW_CHARS :: nat where
  "MAX_PREVIEW_CHARS = 160"

definition MAX_PAGE_NUMBER :: nat where
  "MAX_PAGE_NUMBER = 1000000"

definition b64_char :: "nat \<Rightarrow> char" where
  "b64_char n = (if n < 26 then char_of (n + 65) else if n < 52 then char_of (n + 71) else if n < 62 then char_of (n - 4)
     else if n = 62 then CHR ''+'' else CHR ''/'')"

text \<open>\<open>base64.b64encode\<close>.\<close>

fun b64encode :: "bytes \<Rightarrow> string" where
  "b64encode (a # b # c # s) =
     (let n = unat a * 65536 + unat b * 256 + unat c
      in b64_char (n div 262144) # b64_char (n div 4096 mod 64) # b64_char (n div 64 mod 64) # b64_char (n mod 64) # b64encode s)"
| "b64encode [a, b] =
     (let n = unat a * 1024 + unat b * 4 in [b64_char (n div 4096), b64_char (n div 64 mod 64), b64_char (n mod 64), CHR ''=''])"
| "b64encode [a] = (let n = unat a * 16 in [b64_char (n div 64), b64_char (n mod 64), CHR ''='', CHR ''=''])"
| "b64encode [] = []"

section \<open>Requests\<close>

definition build_root_render_data :: ustr where
  "build_root_render_data = VALOPERS_RENDER_PREFIX"

text \<open>\<open>str(n)\<close> of a positive page number, and \<open>_PAGE_QUERY_RE\<close>.\<close>

definition decimal_text :: "ustr \<Rightarrow> nat option" where
  "decimal_text s = (if s \<noteq> [] \<and> list_all (\<lambda>c. 48 \<le> c \<and> c \<le> 57) s then Some (foldl (\<lambda>a c. 10 * a + (c - 48)) 0 s) else None)"

definition positive_decimal :: "ustr \<Rightarrow> nat option" where
  "positive_decimal s = (if s \<noteq> [] \<and> hd s \<noteq> 48 then decimal_text s else None)"

text \<open>\<open>int()\<close> refuses more than 4300 digits.\<close>

definition build_page_render_data :: "ustr \<Rightarrow> ustr res" where
  "build_page_render_data page_query =
     (case Option.bind (expect (u ''?page='') page_query) positive_decimal of
        None \<Rightarrow> Inl (RpcError ''Page query must have the form ?page=N'')
      | Some n \<Rightarrow>
          if max_str_digits < length page_query - 6 then Inl (ValueError ''Exceeds the limit'')
          else if MAX_PAGE_NUMBER < n then Inl (RpcError ''Page query must have the form ?page=N'')
          else Inr (VALOPERS_RENDER_PREFIX @ page_query))"

definition build_detail_render_data :: "ustr \<Rightarrow> ustr res" where
  "build_detail_render_data operator_address =
     bindE (guardE (is_address operator_address) (RpcError ''Operator address must be a 40-character lowercase g1 Bech32 address'')) (\<lambda>_.
     Inr (VALOPERS_RENDER_PREFIX @ operator_address))"

record qrender_params =
  qp_path :: string
  qp_data :: string
  qp_height :: int
  qp_prove :: string

definition build_qrender_params :: "ustr \<Rightarrow> int \<Rightarrow> qrender_params res" where
  "build_qrender_params render_data source_height =
     bindE (guardE (1 \<le> source_height) (RpcError ''Pinned source height must be a positive integer'')) (\<lambda>_.
     Inr \<lparr>qp_path = json_dumps default_opts (JStr ''vm/qrender''),
          qp_data = json_dumps default_opts (JStr (b64encode (utf8_bytes render_data))),
          qp_height = source_height, qp_prove = ''false''\<rparr>)"

section \<open>Responses\<close>

definition lower_hex4 :: "nat \<Rightarrow> ustr" where
  "lower_hex4 n = map (\<lambda>i. of_char (lower_hex_digit (n div 16 ^ i mod 16))) (rev [0..<max 4 (if n < 65536 then 4 else if n < 1048576 then 5 else 6)])"

definition preview_char :: "(nat \<Rightarrow> bool) \<Rightarrow> nat \<Rightarrow> ustr" where
  "preview_char category_c c =
     (if c = 10 then [92, 110] else if c = 13 then [92, 114] else if c = 9 then [92, 116]
      else if category_c c then [92, 117] @ lower_hex4 c else [c])"

fun preview_loop :: "(nat \<Rightarrow> bool) \<Rightarrow> nat \<Rightarrow> ustr \<Rightarrow> ustr" where
  "preview_loop category_c remaining [] = []"
| "preview_loop category_c remaining (c # s) =
     (if remaining = 0 then []
      else let replacement = take remaining (preview_char category_c c)
           in replacement @ preview_loop category_c (remaining - length replacement) s)"

definition bounded_preview :: "(nat \<Rightarrow> bool) \<Rightarrow> ustr \<Rightarrow> int \<Rightarrow> ustr res" where
  "bounded_preview category_c decoded max_chars =
     bindE (guardE (0 \<le> max_chars) (ValueError ''max_chars must not be negative'')) (\<lambda>_.
     Inr (preview_loop category_c (nat max_chars) decoded))"

record valopers_render =
  vr_query_kind :: string
  vr_source_height :: int
  vr_response_height :: "int option"
  vr_byte_count :: nat
  vr_sha256 :: bytes
  vr_preview :: ustr
  vr_text :: ustr

text \<open>\<open>_RESPONSE_HEIGHT_RE\<close> and \<open>int()\<close>: zero or a decimal without leading zero.\<close>

definition response_height :: "string \<Rightarrow> int res" where
  "response_height s =
     (if s = ''0'' then Inr 0
      else case positive_decimal (u s) of
             None \<Rightarrow> Inl (RpcError ''Malformed qrender response: invalid result.response.Height'')
           | Some n \<Rightarrow> if max_str_digits < length s then Inl (ValueError ''Exceeds the limit'') else Inr (int n))"

definition response_text :: "jobj \<Rightarrow> (bytes \<times> ustr) res" where
  "response_text base =
     (case oget base ''Data'' of
        JStr encoded \<Rightarrow>
          bindE (guardE (encoded \<noteq> []) (RpcError ''Malformed qrender response: missing result.response.ResponseBase.Data'')) (\<lambda>_.
          bindE (guardE (length encoded \<le> MAX_ENCODED_RESPONSE_CHARS) (RpcError ''Qrender response exceeds encoded response size limit'')) (\<lambda>_.
          case b64decode encoded of
            None \<Rightarrow> Inl (RpcError ''Malformed qrender response: invalid base64'')
          | Some decoded \<Rightarrow>
            bindE (guardE (length decoded \<le> MAX_DECODED_RESPONSE_BYTES) (RpcError ''Qrender response exceeds decoded response size limit'')) (\<lambda>_.
            case utf8_decode decoded of
              None \<Rightarrow> Inl (RpcError ''Malformed qrender response: not UTF-8'')
            | Some text \<Rightarrow> Inr (decoded, text))))
      | _ \<Rightarrow> Inl (RpcError ''Malformed qrender response: missing result.response.ResponseBase.Data''))"

definition decode_qrender_response :: "(nat \<Rightarrow> bool) \<Rightarrow> json \<Rightarrow> string \<Rightarrow> int \<Rightarrow> valopers_render res" where
  "decode_qrender_response category_c payload query_kind source_height =
     (let result = (case payload of JObj d \<Rightarrow> oget d ''result'' | _ \<Rightarrow> JNull);
          response = (case result of JObj d \<Rightarrow> oget d ''response'' | _ \<Rightarrow> JNull) in
      bindE (dict_or (RpcError ''Malformed qrender response: missing result.response'') response) (\<lambda>response.
      bindE (case oget response ''Height'' of
               JStr s \<Rightarrow> response_height s
             | _ \<Rightarrow> Inl (RpcError ''Malformed qrender response: invalid result.response.Height'')) (\<lambda>height.
      bindE (guardE (height = 0 \<or> height = source_height) (RpcError ''Qrender response height mismatch'')) (\<lambda>_.
      bindE (dict_or (RpcError ''Malformed qrender response: missing result.response.ResponseBase'') (oget response ''ResponseBase'')) (\<lambda>base.
      bindE (guardE (map_of base ''Error'' \<in> {Some JNull, Some (JStr [])}) (RpcError ''Qrender ABCI response reported an error'')) (\<lambda>_.
      bindE (response_text base) (\<lambda>(decoded, text).
      bindE (bounded_preview category_c text (int MAX_PREVIEW_CHARS)) (\<lambda>preview.
      Inr \<lparr>vr_query_kind = query_kind, vr_source_height = source_height,
           vr_response_height = (if height = 0 then None else Some height), vr_byte_count = length decoded,
           vr_sha256 = sha256 decoded, vr_preview = preview, vr_text = text\<rparr>))))))))"

definition fetch_render :: "(nat \<Rightarrow> bool) \<Rightarrow> (qrender_params \<Rightarrow> json res) \<Rightarrow> ustr \<Rightarrow> string \<Rightarrow> int \<Rightarrow> valopers_render res" where
  "fetch_render category_c get render_data query_kind source_height =
     bindE (build_qrender_params render_data source_height) (\<lambda>params.
     bindE (get params) (\<lambda>payload.
     decode_qrender_response category_c payload query_kind source_height))"

section \<open>Base64 in both directions\<close>

lemma b64_val_char: "n < 64 \<Longrightarrow> b64_val (b64_char n) = Some n"
  by (auto simp: b64_char_def b64_val_def of_char_of take_bit_nat_eq_self Let_def)

lemma sextet_char [simp]: "n < 64 \<Longrightarrow> sextet (b64_char n) = n" "n < 64 \<Longrightarrow> is_b64 (b64_char n)"
  by (simp_all add: sextet_def is_b64_def b64_val_char)

lemma byte_of_eq: "m mod 256 = unat b \<Longrightarrow> byte_of m = b"
  by (simp add: byte_of_def word_unat_eq_iff unsigned_of_nat take_bit_eq_mod)

lemma byte_less [simp]: "unat (b :: 8 word) < 256"
  using unsigned_less [of b, where ?'a = nat] by simp

lemma group4: "n div 262144 * 262144 + n div 4096 mod 64 * 4096 + n div 64 mod 64 * 64 + n mod 64 = n" for n :: nat
  using base64_digits [of n] by linarith

lemma group3: "n div 4096 * 4096 + n div 64 mod 64 * 64 + n mod 64 = n" for n :: nat
  using base64_digits [of n] by linarith

lemma b64_group:
  fixes a b c :: "8 word"
  defines "n \<equiv> unat a * 65536 + unat b * 256 + unat c"
  shows "n div 262144 < 64" "byte_of (n div 65536) = a" "byte_of (n div 256) = b" "byte_of n = c"
proof -
  have ab: "unat a < 256" "unat b < 256" "unat c < 256" by simp_all
  have n256: "n = (unat a * 256 + unat b) * 256 + unat c" unfolding n_def by simp
  then have d1: "n div 256 = unat a * 256 + unat b" using ab by (simp only: div_mult_self3)
  have "n div 65536 = n div 256 div 256" by (simp flip: div_mult2_eq)
  then have d2: "n div 65536 = unat a" using ab d1 by simp
  have "n < 64 * 262144" using ab unfolding n_def by linarith
  then show "n div 262144 < 64" by (simp add: less_mult_imp_div_less)
  show "byte_of (n div 65536) = a" using d2 by (intro byte_of_eq) simp
  show "byte_of (n div 256) = b" using d1 by (intro byte_of_eq) simp
  have "n mod 256 = unat c" unfolding n256 mod_mult_self3 using ab by simp
  then show "byte_of n = c" by (rule byte_of_eq)
qed

definition b64_split :: "bytes \<Rightarrow> string \<Rightarrow> string \<Rightarrow> bool" where
  "b64_split bs ds pad \<longleftrightarrow> b64encode bs = ds @ pad \<and> list_all is_b64 ds \<and> b64_bytes ds = bs \<and>
     (length ds mod 4 = 0 \<and> pad = [] \<or> length ds mod 4 = 2 \<and> pad = ''=='' \<or> length ds mod 4 = 3 \<and> pad = ''='')"

lemma b64_split_group:
  assumes "b64_split s ds pad"
  shows "\<exists>ds pad. b64_split (a # b # c # s) ds pad"
proof -
  let ?n = "unat a * 65536 + unat b * 256 + unat c"
  let ?g = "[b64_char (?n div 262144), b64_char (?n div 4096 mod 64), b64_char (?n div 64 mod 64), b64_char (?n mod 64)]"
  note g = b64_group [of a b c]
  have "b64_bytes (?g @ ds) = a # b # c # b64_bytes ds"
    using g(1) by (simp add: Let_def group4 g(2-4))
  moreover have "list_all is_b64 ?g" using g(1) by simp
  moreover have "b64encode (a # b # c # s) = ?g @ b64encode s" by (simp add: Let_def)
  moreover have "length (?g @ ds) mod 4 = length ds mod 4" by simp
  ultimately have "b64_split (a # b # c # s) (?g @ ds) pad"
    using assms unfolding b64_split_def by (simp only: list_all_append append_assoc simp_thms)
  then show ?thesis by blast
qed

lemma b64_split_ends:
  "\<exists>ds pad. b64_split [a, b] ds pad" "\<exists>ds pad. b64_split [a] ds pad" "\<exists>ds pad. b64_split [] ds pad"
proof -
  have ab: "unat a < 256" "unat b < 256" by simp_all
  let ?n = "unat a * 1024 + unat b * 4"
  have "?n < 64 * 4096" using ab by linarith
  then have n: "?n div 4096 < 64" by (simp only: less_mult_imp_div_less)
  have "?n div 4 = unat a * 256 + unat b" by simp
  moreover have "?n div 1024 = ?n div 4 div 256" by (simp flip: div_mult2_eq)
  ultimately have "byte_of (?n div 1024) = a" "byte_of (?n div 4) = b" using ab by (simp_all add: byte_of_eq)
  then have "b64_bytes [b64_char (?n div 4096), b64_char (?n div 64 mod 64), b64_char (?n mod 64)] = [a, b]"
    using n by (simp only: b64_bytes.simps sextet_char group3 mod_less_divisor zero_less_numeral Let_def)
  with n show "\<exists>ds pad. b64_split [a, b] ds pad" unfolding b64_split_def
    by (intro exI [of _ "[b64_char (?n div 4096), b64_char (?n div 64 mod 64), b64_char (?n mod 64)]"] exI [of _ "''=''"])
      (simp only: b64encode.simps Let_def, simp)
  let ?m = "unat a * 16"
  have "?m < 64 * 64" using ab by linarith
  then have m: "?m div 64 < 64" by (simp only: less_mult_imp_div_less)
  have "b64_bytes [b64_char (?m div 64), b64_char (?m mod 64)] = [byte_of (?m div 16)]"
    using m base64_digits(1) [of ?m] by (simp only: b64_bytes.simps sextet_char mod_less_divisor zero_less_numeral)
  moreover have "byte_of (?m div 16) = a" using ab by (intro byte_of_eq) simp
  ultimately show "\<exists>ds pad. b64_split [a] ds pad" using m unfolding b64_split_def
    by (intro exI [of _ "[b64_char (?m div 64), b64_char (?m mod 64)]"] exI [of _ "''==''"])
      (simp only: b64encode.simps Let_def, simp)
  show "\<exists>ds pad. b64_split [] ds pad" unfolding b64_split_def by (intro exI [of _ "[]"]) simp
qed

lemma b64_split_ex: "\<exists>ds pad. b64_split bs ds pad"
  by (induction bs rule: b64encode.induct) (blast intro: b64_split_ends b64_split_group)+

lemma b64_round_trip: "b64decode (b64encode bs) = Some bs"
proof -
  obtain ds pad where p: "b64_split bs ds pad" using b64_split_ex by blast
  then have "takeWhile is_b64 (ds @ pad) = ds" "dropWhile is_b64 (ds @ pad) = pad"
    by (auto simp: b64_split_def takeWhile_append dropWhile_append list_all_iff)
  then show ?thesis using p by (auto simp: b64decode_def b64_split_def)
qed

lemma length_b64encode: "length (b64encode bs) = 4 * ((length bs + 2) div 3)"
proof (induction bs rule: b64encode.induct)
  case (1 a b c s)
  have "(length (a # b # c # s) + 2) div 3 = (length s + 2) div 3 + 1" by simp
  with 1 show ?case by (simp add: Let_def)
qed (auto simp: Let_def)

lemma preview_bounded: "length (preview_loop cat n s) \<le> n"
  by (induction cat n s rule: preview_loop.induct) (auto simp: Let_def)

section \<open>Properties\<close>

text \<open>The response of a node that renders the text \<open>t\<close> at height \<open>h\<close>.\<close>

definition qrender_reply :: "string \<Rightarrow> ustr \<Rightarrow> json" where
  "qrender_reply height t = JObj [(''result'', JObj [(''response'', JObj [(''Height'', JStr height),
     (''ResponseBase'', JObj [(''Error'', JNull), (''Data'', JStr (b64encode (utf8_bytes t)))])])])]"

lemma decode_reply:
  assumes "list_all scalar t" and "t \<noteq> []" and "utf8_size t \<le> MAX_DECODED_RESPONSE_BYTES" and "response_height height \<in> {Inr 0, Inr h}"
  shows "\<exists>r. decode_qrender_response cat (qrender_reply height t) kind h = Inr r \<and> vr_text r = t \<and> vr_source_height r = h \<and>
    length (vr_preview r) \<le> MAX_PREVIEW_CHARS"
proof -
  obtain k where k: "response_height height = Inr k" "k = 0 \<or> k = h" using assms(4) by auto
  have bytes: "length (utf8_bytes t) \<le> MAX_DECODED_RESPONSE_BYTES" using assms(3) by (simp add: utf8_size_def)
  have enc: "length (b64encode (utf8_bytes t)) \<le> MAX_ENCODED_RESPONSE_CHARS"
    using bytes unfolding length_b64encode MAX_ENCODED_RESPONSE_CHARS_def by (intro mult_left_mono div_le_mono) auto
  have "utf8_bytes t \<noteq> []" using assms(2) length_le_utf8_size [of t] by (auto simp: utf8_size_def)
  then have "b64encode (utf8_bytes t) \<noteq> []" by (cases "utf8_bytes t" rule: b64encode.cases) (auto simp: Let_def)
  then have "response_text [(''Error'', JNull), (''Data'', JStr (b64encode (utf8_bytes t)))] = Inr (utf8_bytes t, t)"
    using enc bytes utf8_round_trip [OF assms(1)] by (simp add: response_text_def b64_round_trip)
  then show ?thesis using k preview_bounded [of cat MAX_PREVIEW_CHARS t]
    by (auto simp: decode_qrender_response_def qrender_reply_def bounded_preview_def)
qed

text \<open>a text within the size limit survives the response encoding (UTF-8, then base64) and the decoder's checks
  unchanged, for every non-empty Unicode text.\<close>

theorem qrender_round_trip:
  assumes "list_all scalar t" and "t \<noteq> []" and "utf8_size t \<le> MAX_DECODED_RESPONSE_BYTES" and "response_height height \<in> {Inr 0, Inr h}"
  shows "\<exists>r. decode_qrender_response cat (qrender_reply height t) kind h = Inr r \<and> vr_text r = t \<and> vr_source_height r = h \<and>
    length (vr_preview r) \<le> MAX_PREVIEW_CHARS"
  by (rule decode_reply [OF assms])

theorem qrender_round_trip_witness:
  "\<exists>r. decode_qrender_response (\<lambda>_. False) (qrender_reply ''7'' [8230]) ''root'' 7 = Inr r \<and> vr_text r = [8230]"
proof -
  have "response_height ''7'' = Inr 7" by (simp add: response_height_def positive_decimal_def decimal_text_def max_str_digits_def)
  then show ?thesis
    using qrender_round_trip [of "[8230]" "''7''" 7 "\<lambda>_. False" "''root''"]
    by (auto simp: scalar_def utf8_char_length MAX_DECODED_RESPONSE_BYTES_def)
qed

end
