(* ===== verification/Valopers_Snapshot.thy ===== *)
theory Valopers_Snapshot
  imports Valopers_Source Py_Effects
begin

text \<open>
  \<open>indexer/valopers_snapshot.py\<close>: the bounded collection of the whole registry at one height. The RPC client is an
  input: \<open>client n params\<close> is its answer to the n-th request of the collection, and the state of the computation is the
  number of requests made. Sleeping between attempts is left out.
\<close>

definition VALOPERS_PAGE_SIZE :: nat where "VALOPERS_PAGE_SIZE = 50"
definition MAX_VALOPERS_PAGES :: nat where "MAX_VALOPERS_PAGES = 20"
definition MAX_VALOPERS_PROFILES :: nat where "MAX_VALOPERS_PROFILES = 1000"
definition VALOPERS_FETCH_ATTEMPTS :: nat where "VALOPERS_FETCH_ATTEMPTS = 3"

record valopers_snapshot =
  vs_source_height :: int
  vs_page_count :: nat
  vs_profiles :: "valoper_profile list"

type_synonym qclient = "nat \<Rightarrow> qrender_params \<Rightarrow> json res"

section \<open>Fetching\<close>

text \<open>\<open>left\<close> attempts are left; the loop is entered with three.\<close>

fun fetch_attempts :: "(nat \<Rightarrow> bool) \<Rightarrow> qclient \<Rightarrow> qrender_params \<Rightarrow> string \<Rightarrow> int \<Rightarrow> nat \<Rightarrow> (nat, valopers_render) act" where
  "fetch_attempts cat client params query_kind source_height 0 n = (Inl (RuntimeError ''unreachable''), n)"
| "fetch_attempts cat client params query_kind source_height (Suc left) n =
     (case client n params of
        Inl e \<Rightarrow>
          if \<not> is_RpcError e then (Inl e, n + 1)
          else if left = 0 then (Inl (RpcError ''Valopers qrender request failed after bounded retries''), n + 1)
          else fetch_attempts cat client params query_kind source_height left (n + 1)
      | Inr payload \<Rightarrow> (decode_qrender_response cat payload query_kind source_height, n + 1))"

definition fetch_with_retry :: "(nat \<Rightarrow> bool) \<Rightarrow> qclient \<Rightarrow> ustr \<Rightarrow> string \<Rightarrow> int \<Rightarrow> (nat, valopers_render) act" where
  "fetch_with_retry cat client render_data query_kind source_height =
     bindS (liftS (build_qrender_params render_data source_height)) (\<lambda>params.
     fetch_attempts cat client params query_kind source_height VALOPERS_FETCH_ATTEMPTS)"

section \<open>The pager\<close>

text \<open>\<open>int()\<close> of matched digits.\<close>

definition digits_int :: "ustr \<Rightarrow> nat res" where
  "digits_int ds = (if max_str_digits < length ds then Inl (ValueError ''Exceeds the limit'') else Inr (the (decimal_text ds)))"

text \<open>\<open>_PAGER_CURRENT_RE\<close> and \<open>_PAGER_LINK_RE\<close>: the digit groups.\<close>

definition match_current :: "ustr \<Rightarrow> ustr option" where
  "match_current token =
     Option.bind (expect [42, 42] token) (\<lambda>r.
     if 2 \<le> length r \<and> drop (length r - 2) r = [42, 42] \<and> positive_decimal (take (length r - 2) r) \<noteq> None
     then Some (take (length r - 2) r) else None)"

definition match_link :: "ustr \<Rightarrow> (ustr \<times> ustr) option" where
  "match_link token =
     Option.bind (expect [91] token) (\<lambda>r.
     let label = takeWhile (\<lambda>c. c \<noteq> 93) r in
     Option.bind (expect (u ''](?page='') (drop (length label) r)) (\<lambda>t.
     if t \<noteq> [] \<and> last t = 41 \<and> positive_decimal label \<noteq> None \<and> positive_decimal (butlast t) \<noteq> None
     then Some (label, butlast t) else None))"

definition pager_token :: "ustr \<Rightarrow> nat list \<times> nat list \<Rightarrow> (nat list \<times> nat list) res" where
  "pager_token token = (\<lambda>(current_pages, linked_pages).
     case match_current token of
       Some ds \<Rightarrow> bindE (digits_int ds) (\<lambda>n. Inr (current_pages @ [n], linked_pages))
     | None \<Rightarrow>
         (case match_link token of
            Some (a, b) \<Rightarrow>
              bindE (digits_int a) (\<lambda>label.
              bindE (digits_int b) (\<lambda>target.
              bindE (guardE (label = target \<and> target \<notin> set linked_pages) (RpcError ''Invalid Valopers pager link'')) (\<lambda>_.
              Inr (current_pages, target # linked_pages))))
          | None \<Rightarrow> if token = [8230] then Inr (current_pages, linked_pages) else Inl (RpcError ''Malformed Valopers pager'')))"

definition last_entry_line :: "valoper_entry \<Rightarrow> ustr" where
  "last_entry_line e = entry_text (ve_moniker e) (ve_operator e) (ve_operator e)"

definition parse_pager_state :: "ustr \<Rightarrow> nat \<Rightarrow> valoper_entry list \<Rightarrow> bool res" where
  "parse_pager_state t requested_page entries =
     (case filter (\<lambda>l. \<not> ublank l) (usplitlines t) of
        [] \<Rightarrow> Inl (RuntimeError ''StopIteration'')
      | l # ls \<Rightarrow>
          let final_line = last (l # ls) in
          if entries \<noteq> [] \<and> final_line = last_entry_line (last entries)
          then if requested_page = 1 then Inr False else Inl (RpcError ''Later Valopers page is missing its pager'')
          else bindE (foldE pager_token (usplit (u '' | '') [] final_line) ([], [])) (\<lambda>(current_pages, linked_pages).
               bindE (guardE (current_pages = [requested_page]) (RpcError ''Valopers pager current page does not match the request'')) (\<lambda>_.
               Inr (list_ex (\<lambda>p. requested_page < p) linked_pages))))"

section \<open>Collection\<close>

definition page_data :: "nat \<Rightarrow> ustr res" where
  "page_data page_number = (if page_number = 1 then Inr build_root_render_data
     else build_page_render_data (u ''?page='' @ u (str_int (int page_number))))"

text \<open>The checks of one page against the pages before it (\<open>pages\<close>: their operator addresses).\<close>

definition check_page :: "valoper_entry list \<Rightarrow> ustr list list \<Rightarrow> unit res" where
  "check_page page pages =
     (let operators = map ve_operator page in
      bindE (guardE (length page \<le> VALOPERS_PAGE_SIZE) (RpcError ''Valopers page exceeds the page-size limit'')) (\<lambda>_.
      bindE (guardE (operators \<notin> set pages \<and> \<not> list_ex (\<lambda>p. set p = set operators) pages)
               (RpcError ''Valopers list page repeats earlier contents'')) (\<lambda>_.
      guardE (list_all (\<lambda>a. a \<notin> set (concat pages)) operators) (RpcError ''Duplicate Valoper operator address across pages''))))"

definition read_page :: "(nat \<Rightarrow> bool) \<Rightarrow> qclient \<Rightarrow> int \<Rightarrow> nat \<Rightarrow> (nat, ustr \<times> valoper_entry list) act" where
  "read_page cat client source_height page_number =
     bindS (liftS (page_data page_number)) (\<lambda>render_data.
     bindS (fetch_with_retry cat client render_data (if page_number = 1 then ''root'' else ''page'') source_height) (\<lambda>rendered.
     bindS (liftS (parse_valopers_list (vr_text rendered))) (\<lambda>page.
     retS (vr_text rendered, page))))"

text \<open>The checks of a page with entries; the result says whether there is a next page.\<close>

definition accept_page :: "nat \<Rightarrow> ustr \<Rightarrow> valoper_entry list \<Rightarrow> valoper_entry list \<Rightarrow> ustr list list \<Rightarrow> bool res" where
  "accept_page page_number text page entries pages =
     bindE (parse_pager_state text page_number page) (\<lambda>has_next.
     bindE (check_page page pages) (\<lambda>_.
     bindE (guardE (length (entries @ page) \<le> MAX_VALOPERS_PROFILES) (RpcError ''Valopers registry exceeds the profile limit'')) (\<lambda>_.
     bindE (guardE (\<not> has_next \<or> page_number \<noteq> MAX_VALOPERS_PAGES) (RpcError ''Valopers registry exceeds the page limit'')) (\<lambda>_.
     Inr has_next))))"

fun collect_pages :: "(nat \<Rightarrow> bool) \<Rightarrow> qclient \<Rightarrow> int \<Rightarrow> nat list \<Rightarrow> valoper_entry list \<Rightarrow> ustr list list
    \<Rightarrow> (nat, valoper_entry list \<times> nat) act" where
  "collect_pages cat client source_height [] entries pages =
     liftS (Inl (RpcError ''Valopers registry pagination did not terminate''))"
| "collect_pages cat client source_height (page_number # rest) entries pages =
     bindS (read_page cat client source_height page_number) (\<lambda>(text, page).
     if page = [] then
       (if page_number = 1 then retS (entries, 0)
        else liftS (Inl (RpcError ''Canonical empty Valopers registry is valid only at the root'')))
     else
       bindS (liftS (accept_page page_number text page entries pages)) (\<lambda>has_next.
       if has_next then collect_pages cat client source_height rest (entries @ page) (pages @ [map ve_operator page])
       else retS (entries @ page, page_number)))"

definition collect_list :: "(nat \<Rightarrow> bool) \<Rightarrow> qclient \<Rightarrow> int \<Rightarrow> (nat, valoper_entry list \<times> nat) act" where
  "collect_list cat client source_height = collect_pages cat client source_height [1..<MAX_VALOPERS_PAGES + 1] [] []"

text \<open>The checks of one detail document against its list entry and the profiles before it.\<close>

definition check_profile :: "valoper_entry \<Rightarrow> valoper_profile \<Rightarrow> valoper_profile list \<Rightarrow> unit res" where
  "check_profile entry profile profiles =
     bindE (guardE (vp_operator profile = ve_operator entry) (RpcError ''Valoper detail operator does not match its list entry'')) (\<lambda>_.
     bindE (guardE (vp_moniker profile = ve_moniker entry) (RpcError ''Valoper detail moniker does not match its list entry'')) (\<lambda>_.
     bindE (guardE (vp_signing profile \<notin> set (map vp_signing profiles)) (RpcError ''Duplicate Valoper signing address'')) (\<lambda>_.
     guardE (vp_pubkey profile \<notin> set (map vp_pubkey profiles)) (RpcError ''Duplicate Valoper signing public key''))))"

fun collect_details :: "(nat \<Rightarrow> bool) \<Rightarrow> qclient \<Rightarrow> int \<Rightarrow> valoper_entry list \<Rightarrow> valoper_profile list \<Rightarrow> (nat, valoper_profile list) act" where
  "collect_details cat client source_height [] profiles = retS profiles"
| "collect_details cat client source_height (entry # entries) profiles =
     bindS (liftS (build_detail_render_data (ve_operator entry))) (\<lambda>render_data.
     bindS (fetch_with_retry cat client render_data ''detail'' source_height) (\<lambda>rendered.
     bindS (liftS (parse_valoper_detail (vr_text rendered))) (\<lambda>profile.
     bindS (liftS (check_profile entry profile profiles)) (\<lambda>_.
     collect_details cat client source_height entries (profiles @ [profile])))))"

definition collect_valopers_snapshot :: "(nat \<Rightarrow> bool) \<Rightarrow> qclient \<Rightarrow> int \<Rightarrow> (nat, valopers_snapshot) act" where
  "collect_valopers_snapshot cat client source_height =
     bindS (liftS (guardE (1 \<le> source_height) (RpcError ''Pinned source height must be a positive integer''))) (\<lambda>_.
     bindS (collect_list cat client source_height) (\<lambda>(entries, page_count).
     bindS (collect_details cat client source_height entries []) (\<lambda>profiles.
     bindS (liftS (guardE (length profiles = length entries) (RpcError ''Valopers profile count does not match the list''))) (\<lambda>_.
     retS \<lparr>vs_source_height = source_height, vs_page_count = page_count, vs_profiles = profiles\<rparr>))))"

section \<open>Requests are bounded\<close>

lemma fetch_attempts_requests:
  "fetch_attempts cat client params kind h left n = (r, n') \<Longrightarrow> n \<le> n' \<and> n' \<le> n + left"
proof (induction left arbitrary: n)
  case (Suc left)
  then show ?case by (cases "client n params") (auto split: if_splits dest: Suc.IH)
qed simp

lemma fetch_requests: "fetch_with_retry cat client data kind h n = (r, n') \<Longrightarrow> n \<le> n' \<and> n' \<le> n + 3"
  unfolding fetch_with_retry_def
  by (erule bindS_snd) (auto simp: liftS_def VALOPERS_FETCH_ATTEMPTS_def dest: fetch_attempts_requests)

lemma read_page_requests: "read_page cat client h p n = (r, n') \<Longrightarrow> n \<le> n' \<and> n' \<le> n + 3"
  unfolding read_page_def by (elim bindS_snd) (auto simp: liftS_def retS_def dest: fetch_requests)

lemma collect_pages_requests:
  "collect_pages cat client h ps es pages n = (r, n') \<Longrightarrow> n' \<le> n + 3 * length ps"
proof (induction ps arbitrary: es pages n)
  case (Cons p ps)
  from Cons.prems show ?case unfolding collect_pages.simps
    by (elim bindS_snd) (auto simp: liftS_def retS_def split: if_splits elim!: bindS_snd dest!: read_page_requests Cons.IH)
qed (simp add: liftS_def)

lemma collect_details_requests:
  "collect_details cat client h es ps n = (r, n') \<Longrightarrow> n' \<le> n + 3 * length es"
proof (induction es arbitrary: ps n)
  case (Cons e es)
  from Cons.prems show ?case unfolding collect_details.simps
    by (elim bindS_snd) (auto simp: liftS_def dest!: fetch_requests Cons.IH)
qed (simp add: retS_def)

section \<open>What is collected\<close>

definition pages_inv :: "nat list \<Rightarrow> valoper_entry list \<Rightarrow> ustr list list \<Rightarrow> bool" where
  "pages_inv ps es pages \<longleftrightarrow> set ps \<subseteq> {1..MAX_VALOPERS_PAGES} \<and> 1 \<notin> set (tl ps) \<and> (ps \<noteq> [] \<and> hd ps = 1 \<longrightarrow> es = []) \<and>
     concat pages = map ve_operator es \<and> distinct (map ve_operator es) \<and> (\<forall>e \<in> set es. valid_entry e) \<and> length es \<le> MAX_VALOPERS_PROFILES"

lemma pages_inv_step:
  assumes inv: "pages_inv (p # ps) es pages" and page: "parse_valopers_list t = Inr page" and check: "check_page page pages = Inr ()"
    and size: "length (es @ page) \<le> MAX_VALOPERS_PROFILES"
  shows "pages_inv ps (es @ page) (pages @ [map ve_operator page])"
proof -
  have "(\<forall>e \<in> set page. valid_entry e) \<and> distinct (map ve_operator page)" by (rule parse_valopers_list_valid [OF page])
  moreover have "ve_operator ` set es \<inter> ve_operator ` set page = {}"
  proof -
    have "concat pages = map ve_operator es" using inv by (simp add: pages_inv_def)
    then have seen: "set (concat pages) = ve_operator ` set es" by simp
    have new: "ve_operator e \<notin> set (concat pages)" if "e \<in> set page" for e
      using check that by (simp add: check_page_def res_simps Let_def list_all_iff del: set_concat)
    show ?thesis
    proof (rule Int_emptyI)
      fix x assume "x \<in> ve_operator ` set es" and "x \<in> ve_operator ` set page"
      then obtain e where "e \<in> set page" "x = ve_operator e" "x \<in> set (concat pages)" unfolding seen by blast
      then show False using new [of e] by (simp only: simp_thms)
    qed
  qed
  moreover have "1 \<notin> set ps" using inv by (simp add: pages_inv_def)
  ultimately show ?thesis using inv size by (cases ps) (auto simp: pages_inv_def)
qed

lemma collect_pages_result:
  assumes "collect_pages cat client h ps es pages n = (Inr (es', k), n')" and "pages_inv ps es pages"
  shows "distinct (map ve_operator es') \<and> (\<forall>e \<in> set es'. valid_entry e) \<and> length es' \<le> MAX_VALOPERS_PROFILES \<and>
    k \<le> MAX_VALOPERS_PAGES \<and> (es' = [] \<longleftrightarrow> k = 0)"
  using assms
proof (induction ps arbitrary: es pages n)
  case (Cons p ps)
  obtain t page n1 where read: "read_page cat client h p n = (Inr (t, page), n1)"
    using Cons.prems(1) unfolding collect_pages.simps by (elim bindS_snd) auto
  then have page: "parse_valopers_list t = Inr page"
    unfolding read_page_def by (elim bindS_snd) (auto simp: liftS_def retS_def)
  show ?case
  proof (cases "page = []")
    case True
    with Cons.prems read show ?thesis by (auto simp: bindS_def retS_def liftS_def pages_inv_def split: if_splits)
  next
    case False
    obtain has_next where acc: "accept_page p t page es pages = Inr has_next"
      using Cons.prems(1) read False by (auto simp: bindS_def liftS_def split: sum.splits)
    then have check: "check_page page pages = Inr ()" and size: "length (es @ page) \<le> MAX_VALOPERS_PROFILES"
      by (auto simp: accept_page_def res_simps)
    note inv = pages_inv_step [OF Cons.prems(2) page check size]
    show ?thesis
    proof (cases has_next)
      case False
      then have "es' = es @ page" "k = p" using Cons.prems(1) read acc \<open>page \<noteq> []\<close> by (auto simp: bindS_def liftS_def retS_def)
      then show ?thesis using inv \<open>page \<noteq> []\<close> Cons.prems(2) by (auto simp: pages_inv_def)
    next
      case True
      then have "collect_pages cat client h ps (es @ page) (pages @ [map ve_operator page]) n1 = (Inr (es', k), n')"
        using Cons.prems(1) read acc \<open>page \<noteq> []\<close> by (simp add: bindS_def liftS_def)
      then show ?thesis using inv by (rule Cons.IH)
    qed
  qed
qed (simp add: liftS_def)

lemma collect_list_result:
  assumes "collect_list cat client h n = (Inr (es, k), n')"
  shows "distinct (map ve_operator es) \<and> (\<forall>e \<in> set es. valid_entry e) \<and> length es \<le> MAX_VALOPERS_PROFILES \<and>
    k \<le> MAX_VALOPERS_PAGES \<and> (es = [] \<longleftrightarrow> k = 0)"
proof -
  have "tl [1..<MAX_VALOPERS_PAGES + 1] = [2..<MAX_VALOPERS_PAGES + 1]" by (simp add: MAX_VALOPERS_PAGES_def upt_rec)
  then have "pages_inv [1..<MAX_VALOPERS_PAGES + 1] [] []" by (auto simp: pages_inv_def)
  then show ?thesis using collect_pages_result assms unfolding collect_list_def by blast
qed

definition profiles_inv :: "valoper_profile list \<Rightarrow> bool" where
  "profiles_inv ps \<longleftrightarrow> (\<forall>p \<in> set ps. valid_profile p) \<and> distinct (map vp_signing ps) \<and> distinct (map vp_pubkey ps)"

lemma collect_details_result:
  "collect_details cat client h es ps n = (Inr ps', n') \<Longrightarrow> profiles_inv ps \<Longrightarrow>
     profiles_inv ps' \<and> map vp_operator ps' = map vp_operator ps @ map ve_operator es"
proof (induction es arbitrary: ps n)
  case (Cons e es)
  obtain t p n1 where p: "parse_valoper_detail t = Inr p" and check: "check_profile e p ps = Inr ()"
    and rest: "collect_details cat client h es (ps @ [p]) n1 = (Inr ps', n')"
    using Cons.prems(1) unfolding collect_details.simps by (elim bindS_snd) (auto simp: liftS_def)
  have "valid_profile p" using parse_detail_sound p by blast
  then have "profiles_inv (ps @ [p])" "vp_operator p = ve_operator e"
    using check Cons.prems(2) by (auto simp: profiles_inv_def check_profile_def res_simps)
  then show ?case using Cons.IH [OF rest] by simp
qed (simp add: retS_def)

lemma collected_snapshot:
  assumes "collect_valopers_snapshot cat client h n = (Inr s, n')"
  shows "vs_source_height s = h \<and> 1 \<le> h \<and> vs_page_count s \<le> MAX_VALOPERS_PAGES \<and> length (vs_profiles s) \<le> MAX_VALOPERS_PROFILES \<and>
    (vs_profiles s = [] \<longleftrightarrow> vs_page_count s = 0) \<and> profiles_inv (vs_profiles s) \<and> distinct (map vp_operator (vs_profiles s))"
proof -
  obtain es k ps n1 n2 where h: "1 \<le> h" and l: "collect_list cat client h n = (Inr (es, k), n1)"
    and d: "collect_details cat client h es [] n1 = (Inr ps, n2)" and len: "length ps = length es"
    and s: "s = \<lparr>vs_source_height = h, vs_page_count = k, vs_profiles = ps\<rparr>"
    using assms unfolding collect_valopers_snapshot_def
    by (elim bindS_snd) (auto simp: liftS_def retS_def res_simps elim!: bindS_snd split: prod.splits)
  note lr = collect_list_result [OF l]
  have "profiles_inv ps \<and> map vp_operator ps = map ve_operator es"
    using collect_details_result [OF d] by (simp add: profiles_inv_def)
  then show ?thesis using h lr len by (auto simp: s)
qed

section \<open>Properties\<close>

text \<open>whatever the node answers, one collection makes at most three requests per list page and per profile: no more
  than 60 for the list, and 3060 in all.\<close>

theorem collection_requests_bounded: "snd (collect_valopers_snapshot cat client h 0) \<le> 3060"
proof -
  obtain r n where run: "collect_valopers_snapshot cat client h 0 = (r, n)" by fastforce
  have list: "n1 \<le> 60" if "collect_list cat client h 0 = (r1, n1)" for r1 n1
    using collect_pages_requests [of cat client h "[1..<MAX_VALOPERS_PAGES + 1]" "[]" "[]" 0 r1 n1] that
    by (simp add: collect_list_def MAX_VALOPERS_PAGES_def)
  have details: "n2 \<le> 3060" if "collect_list cat client h 0 = (Inr (es, k), n1)" "collect_details cat client h es [] n1 = (r2, n2)" for es k n1 r2 n2
    using collect_details_requests [OF that(2)] collect_list_result [OF that(1)] list [OF that(1)] by (simp add: MAX_VALOPERS_PROFILES_def)
  from run have "n \<le> 3060" unfolding collect_valopers_snapshot_def
    by (elim bindS_snd) (auto simp: liftS_def retS_def split: prod.splits elim!: bindS_snd dest: list details)
  then show ?thesis by (simp add: run)
qed

end
