(* ===== verification/Valopers_Persistence.thy ===== *)
theory Valopers_Persistence
  imports Valopers_Snapshot
begin

text \<open>
  \<open>indexer/valopers_persistence.py\<close>: the replacement of the stored registry by a collected snapshot, in one
  transaction. The two tables and the chain id of \<open>indexer_state\<close> are the state; a statement applies the constraints of
  \<open>database/schema.sql\<close>. A \<open>text\<close> parameter with a NUL character is refused by psycopg, an integer out of the range of
  its column by the server (both \<open>DataError\<close>). The advisory lock serialises writers, so that no other writer
  appears between the statements.
\<close>

record valoper_row =
  vo_operator :: ustr
  vo_moniker :: ustr
  vo_description :: ustr
  vo_server :: ustr
  vo_signing :: ustr
  vo_pubkey :: ustr
  vo_height :: int
  vo_position :: int

record valopers_state =
  vx_chain :: string
  vx_height :: int
  vx_pages :: int
  vx_count :: int

record valopers_db =
  vd_profiles :: "valoper_row list"
  vd_state :: "valopers_state option"
  vd_indexer_chain :: "string option"

record valopers_result =
  vw_action :: string
  vw_source_height :: int
  vw_page_count :: nat
  vw_profile_count :: nat

section \<open>Statements\<close>

definition has_nul :: "ustr \<Rightarrow> bool" where
  "has_nul s = (0 \<in> set s)"

definition check_profile_row :: "valoper_row \<Rightarrow> bool" where
  "check_profile_row r \<longleftrightarrow> 1 \<le> vo_height r \<and> 0 \<le> vo_position r \<and> 1 \<le> length (vo_moniker r) \<and> length (vo_moniker r) \<le> 32 \<and>
     1 \<le> utf8_size (vo_description r) \<and> utf8_size (vo_description r) \<le> 2048 \<and> vo_server r \<in> set SERVER_TYPES \<and>
     is_address (vo_operator r) \<and> is_address (vo_signing r) \<and> is_gpub (vo_pubkey r) \<and> 91 \<le> utf8_size (vo_pubkey r) \<and> utf8_size (vo_pubkey r) \<le> 256"

definition insert_profile :: "valoper_row \<Rightarrow> valopers_db \<Rightarrow> valopers_db res" where
  "insert_profile r d =
     bindE (guardE (\<not> list_ex has_nul [vo_operator r, vo_moniker r, vo_description r, vo_server r, vo_signing r, vo_pubkey r] \<and>
              vo_height r < 2 ^ 63 \<and> vo_position r < 2 ^ 31) DataError) (\<lambda>_.
     bindE (guardE (check_profile_row r) (IntegrityError ''valoper_profiles'')) (\<lambda>_.
     bindE (guardE (vo_operator r \<notin> set (map vo_operator (vd_profiles d)) \<and> vo_signing r \<notin> set (map vo_signing (vd_profiles d)) \<and>
              vo_pubkey r \<notin> set (map vo_pubkey (vd_profiles d))) (IntegrityError ''valoper_profiles_unique'')) (\<lambda>_.
     Inr (d\<lparr>vd_profiles := vd_profiles d @ [r]\<rparr>))))"

definition check_valopers_state :: "valopers_state \<Rightarrow> bool" where
  "check_valopers_state s \<longleftrightarrow> 1 \<le> vx_height s \<and> 0 \<le> vx_pages s \<and> vx_pages s \<le> 20 \<and> 0 \<le> vx_count s \<and> vx_count s \<le> 1000 \<and>
     ((vx_count s = 0 \<and> vx_pages s = 0) \<or> (0 < vx_count s \<and> 1 \<le> vx_pages s))"

definition upsert_valopers_state :: "valopers_state \<Rightarrow> valopers_db \<Rightarrow> valopers_db res" where
  "upsert_valopers_state s d =
     bindE (guardE (CHR 0x00 \<notin> set (vx_chain s) \<and> vx_height s < 2 ^ 63) DataError) (\<lambda>_.
     bindE (guardE (check_valopers_state s) (IntegrityError ''valopers_snapshot_state'')) (\<lambda>_.
     Inr (d\<lparr>vd_state := Some s\<rparr>)))"

text \<open>\<open>SELECT ... ORDER BY list_position\<close>.\<close>

definition stored_rows :: "valopers_db \<Rightarrow> valoper_row list" where
  "stored_rows d = sort_key vo_position (vd_profiles d)"

section \<open>Validation\<close>

definition profile_tuple :: "valoper_profile \<Rightarrow> ustr list" where
  "profile_tuple p = [vp_operator p, vp_moniker p, vp_description p, vp_server p, vp_signing p, vp_pubkey p]"

definition validate_valopers_snapshot :: "valopers_snapshot \<Rightarrow> string \<Rightarrow> ustr list list res" where
  "validate_valopers_snapshot snapshot chain_id =
     (let n = length (vs_profiles snapshot); rows = map profile_tuple (vs_profiles snapshot) in
      bindE (guardE (py_strip chain_id \<noteq> []) (ValopersPersistenceError ''chain_id must be a non-empty string'')) (\<lambda>_.
      bindE (guardE (1 \<le> vs_source_height snapshot) (ValopersPersistenceError ''source_height must be a positive integer'')) (\<lambda>_.
      bindE (guardE (vs_page_count snapshot \<le> MAX_VALOPERS_PAGES) (ValopersPersistenceError ''page_count is outside the supported bounds'')) (\<lambda>_.
      bindE (guardE (n \<le> MAX_VALOPERS_PROFILES) (ValopersPersistenceError ''profiles must be a bounded tuple'')) (\<lambda>_.
      bindE (guardE (\<not> (n = 0 \<and> vs_page_count snapshot \<noteq> 0) \<and> \<not> (n \<noteq> 0 \<and> vs_page_count snapshot < 1))
               (ValopersPersistenceError ''profile and page counts are inconsistent'')) (\<lambda>_.
      bindE (guardE (list_all (\<lambda>i. distinct (map (\<lambda>row. row ! i) rows)) [0, 4, 5]) (ValopersPersistenceError ''Valoper identities must be unique'')) (\<lambda>_.
      Inr rows)))))))"

definition validate_stored_state :: "valopers_state option \<Rightarrow> valoper_row list \<Rightarrow> unit res" where
  "validate_stored_state state rows =
     (case state of
        None \<Rightarrow> guardE (rows = []) (ValopersStoredStateError ''profiles exist without snapshot state'')
      | Some s \<Rightarrow>
          guardE (py_strip (vx_chain s) \<noteq> [] \<and> 1 \<le> vx_height s \<and> 0 \<le> vx_pages s \<and> vx_pages s \<le> int MAX_VALOPERS_PAGES \<and>
              0 \<le> vx_count s \<and> vx_count s \<le> int MAX_VALOPERS_PROFILES \<and> ((vx_count s = 0 \<and> vx_pages s = 0) \<or> (0 < vx_count s \<and> 1 \<le> vx_pages s)) \<and>
              int (length rows) = vx_count s \<and> list_all (\<lambda>r. vo_height r = vx_height s) rows \<and>
              map vo_position rows = map int [0..<nat (vx_count s)])
            (ValopersStoredStateError ''stored Valopers snapshot is inconsistent''))"

section \<open>Replacement\<close>

definition row_of :: "int \<Rightarrow> nat \<times> ustr list \<Rightarrow> valoper_row" where
  "row_of source_height = (\<lambda>(position, row).
     \<lparr>vo_operator = row ! 0, vo_moniker = row ! 1, vo_description = row ! 2, vo_server = row ! 3, vo_signing = row ! 4, vo_pubkey = row ! 5,
      vo_height = source_height, vo_position = int position\<rparr>)"

definition row_tuple :: "valoper_row \<Rightarrow> ustr list" where
  "row_tuple r = [vo_operator r, vo_moniker r, vo_description r, vo_server r, vo_signing r, vo_pubkey r]"

definition state_of :: "valopers_snapshot \<Rightarrow> string \<Rightarrow> nat \<Rightarrow> valopers_state" where
  "state_of snapshot chain_id n =
     \<lparr>vx_chain = chain_id, vx_height = vs_source_height snapshot, vx_pages = int (vs_page_count snapshot), vx_count = int n\<rparr>"

definition verify_written_snapshot :: "valopers_db \<Rightarrow> valopers_snapshot \<Rightarrow> string \<Rightarrow> ustr list list \<Rightarrow> unit res" where
  "verify_written_snapshot d snapshot chain_id incoming =
     bindE (guardE (vd_state d = Some (state_of snapshot chain_id (length incoming)))
              (ValopersPersistenceError ''written snapshot state verification failed'')) (\<lambda>_.
     guardE (stored_rows d = map (row_of (vs_source_height snapshot)) (enum0 incoming))
       (ValopersPersistenceError ''written snapshot profile verification failed''))"

text \<open>What the stored snapshot decides: \<open>Some\<close> result without a write, or go on.\<close>

definition compare_stored :: "valopers_db \<Rightarrow> valopers_snapshot \<Rightarrow> string \<Rightarrow> ustr list list \<Rightarrow> valopers_result option res" where
  "compare_stored d snapshot chain_id incoming =
     (case vd_state d of
        None \<Rightarrow> Inr None
      | Some s \<Rightarrow>
          bindE (guardE (vx_chain s = chain_id) (ValopersChainIdentityError ''stored snapshot belongs to another chain'')) (\<lambda>_.
          bindE (guardE (vx_height s \<le> vs_source_height snapshot) (StaleValopersSnapshot ''incoming snapshot is stale'')) (\<lambda>_.
          if vs_source_height snapshot = vx_height s then
            if int (vs_page_count snapshot) = vx_pages s \<and> int (length incoming) = vx_count s \<and> incoming = map row_tuple (stored_rows d)
            then Inr (Some \<lparr>vw_action = ''unchanged'', vw_source_height = vs_source_height snapshot,
                            vw_page_count = vs_page_count snapshot, vw_profile_count = length incoming\<rparr>)
            else Inl (ValopersSnapshotConflict ''same-height Valopers snapshots differ'')
          else Inr None)))"

definition write_snapshot :: "valopers_db \<Rightarrow> valopers_snapshot \<Rightarrow> string \<Rightarrow> ustr list list \<Rightarrow> valopers_db res" where
  "write_snapshot d snapshot chain_id incoming =
     bindE (foldE insert_profile (map (row_of (vs_source_height snapshot)) (enum0 incoming)) (d\<lparr>vd_profiles := []\<rparr>)) (\<lambda>d1.
     bindE (upsert_valopers_state (state_of snapshot chain_id (length incoming)) d1) (\<lambda>d2.
     bindE (verify_written_snapshot d2 snapshot chain_id incoming) (\<lambda>_.
     Inr d2)))"

definition replace_valopers_snapshot_cursor :: "valopers_snapshot \<Rightarrow> string \<Rightarrow> valopers_db \<Rightarrow> (valopers_result \<times> valopers_db) res" where
  "replace_valopers_snapshot_cursor snapshot chain_id d =
     bindE (validate_valopers_snapshot snapshot chain_id) (\<lambda>incoming.
     bindE (guardE (case vd_indexer_chain d of None \<Rightarrow> True | Some c \<Rightarrow> py_strip c \<noteq> [] \<and> c = chain_id)
              (ValopersChainIdentityError ''indexer state belongs to another chain'')) (\<lambda>_.
     bindE (validate_stored_state (vd_state d) (stored_rows d)) (\<lambda>_.
     bindE (compare_stored d snapshot chain_id incoming) (\<lambda>unchanged.
     case unchanged of
       Some r \<Rightarrow> Inr (r, d)
     | None \<Rightarrow>
         bindE (write_snapshot d snapshot chain_id incoming) (\<lambda>d'.
         Inr (\<lparr>vw_action = ''applied'', vw_source_height = vs_source_height snapshot, vw_page_count = vs_page_count snapshot,
               vw_profile_count = length incoming\<rparr>, d'))))))"

section \<open>What the statements do\<close>

lemma insert_profile_Inr: "insert_profile r d = Inr d' \<Longrightarrow> d' = d\<lparr>vd_profiles := vd_profiles d @ [r]\<rparr>"
  by (auto simp: insert_profile_def res_simps)

lemma insert_rows:
  "foldE insert_profile rows d = Inr d' \<Longrightarrow> d' = d\<lparr>vd_profiles := vd_profiles d @ rows\<rparr>"
proof (induction rows arbitrary: d)
  case (Cons r rows)
  then obtain d1 where "insert_profile r d = Inr d1" "foldE insert_profile rows d1 = Inr d'" by (auto simp: bindE_Inr_iff)
  then show ?case using Cons.IH [of d1] by (auto dest!: insert_profile_Inr)
qed simp

lemma insert_rows_ok:
  assumes "\<forall>r \<in> set rows. \<not> list_ex has_nul (row_tuple r) \<and> vo_height r < 2 ^ 63 \<and> vo_position r < 2 ^ 31 \<and> check_profile_row r"
    and "distinct (map vo_operator (vd_profiles d @ rows))" and "distinct (map vo_signing (vd_profiles d @ rows))"
    and "distinct (map vo_pubkey (vd_profiles d @ rows))"
  shows "foldE insert_profile rows d = Inr (d\<lparr>vd_profiles := vd_profiles d @ rows\<rparr>)"
  using assms
proof (induction rows arbitrary: d)
  case (Cons r rows)
  have "insert_profile r d = Inr (d\<lparr>vd_profiles := vd_profiles d @ [r]\<rparr>)"
    using Cons.prems by (auto simp: insert_profile_def guardE_def row_tuple_def)
  then show ?case using Cons.IH [of "d\<lparr>vd_profiles := vd_profiles d @ [r]\<rparr>"] Cons.prems by simp
qed simp

lemma positions_of_rows: "map vo_position (map (row_of h) (enum0 rows)) = map int [0..<length rows]"
  by (rule nth_equalityI) (simp_all add: row_of_def nth_enumerate_eq)

lemma sort_rows [simp]: "sort_key vo_position (map (row_of h) (enum0 rows)) = map (row_of h) (enum0 rows)"
proof -
  have "sorted (map int [0..<length rows])" by (simp add: sorted_map sorted_wrt_upt mono_def)
  then show ?thesis using positions_of_rows [of h rows] by (intro sort_key_id_if_sorted) simp
qed

text \<open>A database that holds exactly a snapshot.\<close>

definition snapshot_stored :: "valopers_db \<Rightarrow> valopers_snapshot \<Rightarrow> string \<Rightarrow> bool" where
  "snapshot_stored d s c \<longleftrightarrow> vd_state d = Some (state_of s c (length (vs_profiles s))) \<and>
     stored_rows d = map (row_of (vs_source_height s)) (enum0 (map profile_tuple (vs_profiles s)))"

lemma write_snapshot_stored:
  assumes "write_snapshot d s c rows = Inr d'"
  shows "vd_state d' = Some (state_of s c (length rows)) \<and> stored_rows d' = map (row_of (vs_source_height s)) (enum0 rows) \<and>
    vd_indexer_chain d' = vd_indexer_chain d"
proof -
  obtain d1 d2 where "foldE insert_profile (map (row_of (vs_source_height s)) (enum0 rows)) (d\<lparr>vd_profiles := []\<rparr>) = Inr d1"
    "upsert_valopers_state (state_of s c (length rows)) d1 = Inr d2" "d' = d2"
    using assms unfolding write_snapshot_def res_simps by blast
  then show ?thesis by (auto simp: upsert_valopers_state_def res_simps stored_rows_def dest!: insert_rows)
qed

lemma row_of_tuple: "row_of (vo_height r) (nat (vo_position r), row_tuple r) = r" if "0 \<le> vo_position r"
  using that by (cases r) (simp add: row_of_def row_tuple_def)

lemma stored_state_rows:
  assumes "validate_stored_state (Some s) rows = Inr ()"
  shows "rows = map (row_of (vx_height s)) (enum0 (map row_tuple rows))"
proof (rule nth_equalityI)
  fix i assume i: "i < length rows"
  have "int (length rows) = vx_count s" and h: "list_all (\<lambda>r. vo_height r = vx_height s) rows"
    and "map vo_position rows = map int [0..<nat (vx_count s)]"
    using assms by (auto simp: validate_stored_state_def res_simps)
  then have "map vo_position rows ! i = int i" using i by simp
  then have "vo_position (rows ! i) = int i" using i by simp
  moreover have "vo_height (rows ! i) = vx_height s" using h i by (simp add: list_all_length)
  ultimately show "rows ! i = map (row_of (vx_height s)) (enum0 (map row_tuple rows)) ! i"
    using i row_of_tuple [of "rows ! i"] by (simp add: nth_enumerate_eq)
qed simp

lemma validate_rows: "validate_valopers_snapshot s c = Inr rows \<Longrightarrow> rows = map profile_tuple (vs_profiles s)"
  by (auto simp: validate_valopers_snapshot_def res_simps Let_def)

lemma compare_stored_cases:
  assumes "compare_stored d s c rows = Inr x"
  shows "(x = None \<and> (\<forall>st. vd_state d = Some st \<longrightarrow> vx_chain st = c \<and> vx_height st < vs_source_height s)) \<or>
    (\<exists>st r. x = Some r \<and> vw_action r = ''unchanged'' \<and> vd_state d = Some st \<and> st = state_of s c (length rows) \<and> rows = map row_tuple (stored_rows d))"
  using assms by (cases "vd_state d") (auto simp: compare_stored_def res_simps state_of_def split: if_splits)

lemma replace_cases:
  assumes "replace_valopers_snapshot_cursor s c d = Inr (r, d')"
  obtains (unchanged) "vw_action r = ''unchanged''" "d' = d" "snapshot_stored d s c"
    | (applied) "vw_action r = ''applied''" "write_snapshot d s c (map profile_tuple (vs_profiles s)) = Inr d'"
       "\<And>st. vd_state d = Some st \<Longrightarrow> vx_chain st = c \<and> vx_height st < vs_source_height s"
proof -
  obtain rows x where v: "validate_valopers_snapshot s c = Inr rows" and st: "validate_stored_state (vd_state d) (stored_rows d) = Inr ()"
    and cmp: "compare_stored d s c rows = Inr x"
    and rest: "(case x of Some r \<Rightarrow> Inr (r, d)
     | None \<Rightarrow> bindE (write_snapshot d s c rows) (\<lambda>d'. Inr (\<lparr>vw_action = ''applied'', vw_source_height = vs_source_height s,
         vw_page_count = vs_page_count s, vw_profile_count = length rows\<rparr>, d'))) = Inr (r, d')"
    using assms unfolding replace_valopers_snapshot_cursor_def res_simps by (elim exE conjE, intro that) simp_all
  have rows: "rows = map profile_tuple (vs_profiles s)" by (rule validate_rows [OF v])
  from compare_stored_cases [OF cmp] show thesis
  proof
    assume "x = None \<and> (\<forall>st. vd_state d = Some st \<longrightarrow> vx_chain st = c \<and> vx_height st < vs_source_height s)"
    then show thesis using rest rows by (intro applied) (auto simp: res_simps)
  next
    assume "\<exists>st r. x = Some r \<and> vw_action r = ''unchanged'' \<and> vd_state d = Some st \<and> st = state_of s c (length rows) \<and> rows = map row_tuple (stored_rows d)"
    then obtain st where s1: "vd_state d = Some st" "st = state_of s c (length rows)" "rows = map row_tuple (stored_rows d)"
      and r: "vw_action r = ''unchanged''" "d' = d" using rest by auto
    have "stored_rows d = map (row_of (vx_height st)) (enum0 (map row_tuple (stored_rows d)))"
      using stored_state_rows st s1(1) by simp
    moreover have "length (stored_rows d) = length (vs_profiles s)" using s1(3) rows by (metis length_map)
    ultimately have "snapshot_stored d s c" using s1 rows by (simp add: snapshot_stored_def state_of_def)
    then show thesis using r by (intro unchanged)
  qed
qed

lemma replace_stored:
  assumes "replace_valopers_snapshot_cursor s c d = Inr (r, d')"
  shows "snapshot_stored d' s c \<and> vd_indexer_chain d' = vd_indexer_chain d"
  using assms
proof (cases rule: replace_cases)
  case applied
  then show ?thesis using write_snapshot_stored [OF applied(2)] by (auto simp: snapshot_stored_def)
qed simp

lemma valid_snapshot_facts:
  assumes "validate_valopers_snapshot s c = Inr rows"
  shows "py_strip c \<noteq> []" "1 \<le> vs_source_height s" "vs_page_count s \<le> MAX_VALOPERS_PAGES" "length (vs_profiles s) \<le> MAX_VALOPERS_PROFILES"
    "vs_profiles s = [] \<longleftrightarrow> vs_page_count s = 0"
  using assms by (auto simp: validate_valopers_snapshot_def res_simps Let_def)

lemma stored_snapshot_valid:
  assumes "validate_valopers_snapshot s c = Inr rows" and "snapshot_stored d s c"
  shows "validate_stored_state (vd_state d) (stored_rows d) = Inr ()"
proof -
  note v = valid_snapshot_facts [OF assms(1)]
  let ?rows = "map (row_of (vs_source_height s)) (enum0 (map profile_tuple (vs_profiles s)))"
  have "map vo_position ?rows = map int [0..<length (vs_profiles s)]"
    using positions_of_rows [of "vs_source_height s" "map profile_tuple (vs_profiles s)"] by simp
  moreover have "list_all (\<lambda>r. vo_height r = vs_source_height s) ?rows" by (auto simp: list_all_iff row_of_def)
  moreover have "length ?rows = length (vs_profiles s)" by simp
  ultimately show ?thesis using assms(2) v
    unfolding snapshot_stored_def validate_stored_state_def state_of_def by (auto simp: guardE_def simp del: map_map)
qed

section \<open>Properties\<close>

text \<open>C20: a successful replacement leaves exactly the snapshot in the tables, in list order; when it reports
  \<open>unchanged\<close> the tables were not touched, when it reports \<open>applied\<close> the stored height of this chain has grown.\<close>

theorem replace_stores_snapshot:
  assumes "replace_valopers_snapshot_cursor s c d = Inr (r, d')"
  shows "snapshot_stored d' s c \<and> (vw_action r = ''unchanged'' \<and> d' = d \<or>
    vw_action r = ''applied'' \<and> (\<forall>st. vd_state d = Some st \<longrightarrow> vx_chain st = c \<and> vx_height st < vs_source_height s))"
proof -
  from assms have "vw_action r = ''unchanged'' \<and> d' = d \<or>
    vw_action r = ''applied'' \<and> (\<forall>st. vd_state d = Some st \<longrightarrow> vx_chain st = c \<and> vx_height st < vs_source_height s)"
    by (cases rule: replace_cases) auto
  then show ?thesis using replace_stored [OF assms] by blast
qed

text \<open>replaying a snapshot that was just stored changes nothing and reports \<open>unchanged\<close>.\<close>

theorem replace_idempotent:
  assumes "replace_valopers_snapshot_cursor s c d = Inr (r, d')"
  shows "\<exists>r'. replace_valopers_snapshot_cursor s c d' = Inr (r', d') \<and> vw_action r' = ''unchanged''"
proof -
  let ?rows = "map profile_tuple (vs_profiles s)"
  have st: "snapshot_stored d' s c" "vd_indexer_chain d' = vd_indexer_chain d" using replace_stored [OF assms] by blast+
  have v: "validate_valopers_snapshot s c = Inr ?rows"
    using assms validate_rows unfolding replace_valopers_snapshot_cursor_def by (auto simp: res_simps)
  have chain: "case vd_indexer_chain d of None \<Rightarrow> True | Some x \<Rightarrow> py_strip x \<noteq> [] \<and> x = c"
    using assms unfolding replace_valopers_snapshot_cursor_def res_simps by (elim exE conjE)
  have tuples: "map row_tuple (stored_rows d') = ?rows"
    using st(1) unfolding snapshot_stored_def
    by (intro nth_equalityI) (simp_all add: row_of_def row_tuple_def profile_tuple_def nth_enumerate_eq)
  have "\<exists>r'. compare_stored d' s c ?rows = Inr (Some r') \<and> vw_action r' = ''unchanged''"
    using st(1) tuples unfolding snapshot_stored_def compare_stored_def by (simp add: state_of_def)
  then show ?thesis using v chain st(2) stored_snapshot_valid [OF v st(1)]
    unfolding replace_valopers_snapshot_cursor_def by (auto simp: guardE_def)
qed

text \<open>a stored snapshot is never replaced by an older one or by a different one of the same height.\<close>

theorem stale_snapshot_refused:
  assumes "vd_state d = Some st" and "vs_source_height s < vx_height st \<or>
    (vs_source_height s = vx_height st \<and> map profile_tuple (vs_profiles s) \<noteq> map row_tuple (stored_rows d))"
  shows "\<exists>e. replace_valopers_snapshot_cursor s c d = Inl e"
proof (cases "replace_valopers_snapshot_cursor s c d")
  case (Inr x)
  then obtain r d' where run: "replace_valopers_snapshot_cursor s c d = Inr (r, d')" by (cases x) auto
  then show ?thesis
  proof (cases rule: replace_cases)
    case unchanged
    then have "stored_rows d = map (row_of (vs_source_height s)) (enum0 (map profile_tuple (vs_profiles s)))"
        "vx_height st = vs_source_height s"
      using assms(1) by (auto simp: snapshot_stored_def state_of_def)
    moreover then have "map row_tuple (stored_rows d) = map profile_tuple (vs_profiles s)"
      by (intro nth_equalityI) (simp_all add: row_of_def row_tuple_def profile_tuple_def nth_enumerate_eq)
    ultimately show ?thesis using assms(2) by simp
  next
    case applied
    then show ?thesis using assms by force
  qed
qed blast

lemma ascii_no_nul: "(\<And>c. c \<in> set s \<Longrightarrow> c < 128 \<and> k < c) \<Longrightarrow> \<not> has_nul s"
  by (force simp: has_nul_def)

lemma profile_row_ok:
  assumes "valid_profile p" and "1 \<le> h"
  shows "check_profile_row (row_of h (i, profile_tuple p))"
    and "list_ex has_nul (row_tuple (row_of h (i, profile_tuple p))) \<longleftrightarrow> 0 \<in> set (vp_description p)"
proof -
  have p: "valid_moniker (vp_moniker p)" "is_address (vp_operator p)" "is_address (vp_signing p)" "is_gpub (vp_pubkey p)" "vp_server p \<in> set SERVER_TYPES"
    using assms(1) by (auto simp: valid_profile_def)
  have gpub: "list_all (\<lambda>c. c < 128) (vp_pubkey p)" using gpub_chars [OF p(4)] by (auto simp: list_all_iff)
  have "1 \<le> utf8_size (vp_description p)"
    using assms(1) length_le_utf8_size [of "vp_description p"] by (cases "vp_description p") (auto simp: valid_profile_def)
  then show "check_profile_row (row_of h (i, profile_tuple p))"
    using assms utf8_size_ascii [OF gpub]
    by (auto simp: check_profile_row_def row_of_def profile_tuple_def valid_profile_def valid_moniker_def MAX_DESCRIPTION_BYTES_def
        MIN_SIGNING_PUBKEY_LENGTH_def MAX_SIGNING_PUBKEY_LENGTH_def Suc_le_eq)
  have "\<not> has_nul (vp_operator p)" "\<not> has_nul (vp_signing p)" "\<not> has_nul (vp_pubkey p)"
    using ascii_no_nul [OF address_chars(2) [OF p(2)]] ascii_no_nul [OF address_chars(2) [OF p(3)]] ascii_no_nul [OF gpub_chars [OF p(4)]]
    by (simp_all only: simp_thms)
  moreover have "\<not> has_nul (vp_moniker p)" using moniker_chars [OF p(1)] by (force simp: has_nul_def)
  moreover have "\<not> has_nul (vp_server p)" using p(5) by (auto simp: SERVER_TYPES_def has_nul_def)
  ultimately show "list_ex has_nul (row_tuple (row_of h (i, profile_tuple p))) \<longleftrightarrow> 0 \<in> set (vp_description p)"
    by (simp add: row_tuple_def row_of_def profile_tuple_def has_nul_def)
qed

lemma rows_of_profiles:
  "map vo_operator (map (row_of h) (enum0 (map profile_tuple ps))) = map vp_operator ps"
  "map vo_signing (map (row_of h) (enum0 (map profile_tuple ps))) = map vp_signing ps"
  "map vo_pubkey (map (row_of h) (enum0 (map profile_tuple ps))) = map vp_pubkey ps"
  by (intro nth_equalityI; simp add: row_of_def profile_tuple_def nth_enumerate_eq)+

lemma collected_valid:
  assumes "collect_valopers_snapshot cat client h n = (Inr s, n')" and "py_strip c \<noteq> []"
  shows "validate_valopers_snapshot s c = Inr (map profile_tuple (vs_profiles s))"
  using collected_snapshot [OF assms(1)] assms(2)
  by (auto simp: validate_valopers_snapshot_def guardE_def Let_def profiles_inv_def comp_def profile_tuple_def)

lemma write_snapshot_iff:
  assumes "profiles_inv (vs_profiles s)" and "distinct (map vp_operator (vs_profiles s))" and "1 \<le> vs_source_height s" and "vs_source_height s < 2 ^ 63"
    and "validate_valopers_snapshot s c = Inr rows" and "CHR 0x00 \<notin> set c"
  shows "(\<exists>d'. write_snapshot d s c (map profile_tuple (vs_profiles s)) = Inr d') \<longleftrightarrow> (\<forall>p \<in> set (vs_profiles s). 0 \<notin> set (vp_description p))"
proof -
  let ?h = "vs_source_height s" and ?ps = "vs_profiles s"
  let ?rows = "map (row_of ?h) (enum0 (map profile_tuple ?ps))"
  have row: "\<exists>p i. p \<in> set ?ps \<and> i < length ?ps \<and> r = row_of ?h (i, profile_tuple p)" if r: "r \<in> set ?rows" for r
  proof -
    obtain ix where "ix \<in> set (enum0 (map profile_tuple ?ps))" "r = row_of ?h ix" using r unfolding set_map [of "row_of ?h"] by blast
    then obtain i x where "(i, x) \<in> set (enum0 (map profile_tuple ?ps))" "r = row_of ?h (i, x)" by (metis surj_pair)
    then show ?thesis by (auto simp: set_enum0 intro!: exI [of _ "?ps ! i"])
  qed
  have valid: "valid_profile p" if "p \<in> set ?ps" for p using assms(1) that by (auto simp: profiles_inv_def)
  show ?thesis
  proof
    assume "\<exists>d'. write_snapshot d s c (map profile_tuple ?ps) = Inr d'"
    then obtain d1 where run: "foldE insert_profile ?rows (d\<lparr>vd_profiles := []\<rparr>) = Inr d1"
      unfolding write_snapshot_def res_simps by blast
    show "\<forall>p \<in> set ?ps. 0 \<notin> set (vp_description p)"
    proof
      fix p assume "p \<in> set ?ps"
      then obtain i where i: "i < length ?ps" "?ps ! i = p" by (auto simp: in_set_conv_nth)
      then have "(i, profile_tuple p) \<in> set (enum0 (map profile_tuple ?ps))" by (simp add: set_enum0)
      then have "row_of ?h (i, profile_tuple p) \<in> set ?rows" by (auto simp del: map_map)
      then obtain d2 d3 where "insert_profile (row_of ?h (i, profile_tuple p)) d2 = Inr d3" using foldE_Inr_in [OF run] by blast
      then have "\<not> list_ex has_nul (row_tuple (row_of ?h (i, profile_tuple p)))" by (auto simp: insert_profile_def row_tuple_def res_simps)
      then show "0 \<notin> set (vp_description p)" using profile_row_ok(2) valid \<open>p \<in> set ?ps\<close> assms(3) by blast
    qed
  next
    assume nul: "\<forall>p \<in> set ?ps. 0 \<notin> set (vp_description p)"
    note v = valid_snapshot_facts [OF assms(5)]
    have "\<not> list_ex has_nul (row_tuple r) \<and> vo_height r < 2 ^ 63 \<and> vo_position r < 2 ^ 31 \<and> check_profile_row r" if r: "r \<in> set ?rows" for r
    proof -
      obtain p i where p: "p \<in> set ?ps" "i < length ?ps" "r = row_of ?h (i, profile_tuple p)" using row [OF r] by blast
      have "int i < 2 ^ 31" using p(2) v(4) by (simp add: MAX_VALOPERS_PROFILES_def)
      then show ?thesis using profile_row_ok [OF valid [OF p(1)] assms(3)] nul p assms(4) by (simp add: row_of_def)
    qed
    then have "foldE insert_profile ?rows (d\<lparr>vd_profiles := []\<rparr>) = Inr (d\<lparr>vd_profiles := ?rows\<rparr>)"
      using insert_rows_ok [of ?rows "d\<lparr>vd_profiles := []\<rparr>"] rows_of_profiles [of ?h ?ps] assms(1,2) by (simp add: profiles_inv_def del: map_map)
    moreover have "check_valopers_state (state_of s c (length ?ps))"
      using v by (auto simp: check_valopers_state_def state_of_def MAX_VALOPERS_PAGES_def MAX_VALOPERS_PROFILES_def)
    ultimately show "\<exists>d'. write_snapshot d s c (map profile_tuple ?ps) = Inr d'"
      using assms(4,6) unfolding write_snapshot_def
      by (simp add: upsert_valopers_state_def guardE_def verify_written_snapshot_def stored_rows_def state_of_def del: map_map)
  qed
qed

text \<open>C21: collection and storage fit together: every snapshot the collector accepts passes the validation and every
  constraint of the schema, on a database with no newer snapshot, except that a NUL character in one operator's free-text
  description makes the whole snapshot unstorable.\<close>

theorem collected_snapshot_storable:
  assumes "collect_valopers_snapshot cat client h n = (Inr s, n')" and "py_strip c \<noteq> []" and "CHR 0x00 \<notin> set c" and "h < 2 ^ 63"
    and "validate_stored_state (vd_state d) (stored_rows d) = Inr ()" and "vd_indexer_chain d = Some c"
    and "\<And>st. vd_state d = Some st \<Longrightarrow> vx_chain st = c \<and> vx_height st < h"
  shows "(\<exists>r d'. replace_valopers_snapshot_cursor s c d = Inr (r, d')) \<longleftrightarrow> (\<forall>p \<in> set (vs_profiles s). 0 \<notin> set (vp_description p))"
proof -
  note col = collected_snapshot [OF assms(1)] and v = collected_valid [OF assms(1,2)]
  have "compare_stored d s c (map profile_tuple (vs_profiles s)) = Inr None"
    using assms(7) col by (cases "vd_state d") (auto simp: compare_stored_def guardE_def)
  then have "(\<exists>r d'. replace_valopers_snapshot_cursor s c d = Inr (r, d')) \<longleftrightarrow>
      (\<exists>d'. write_snapshot d s c (map profile_tuple (vs_profiles s)) = Inr d')"
    using v assms(2,5,6) unfolding replace_valopers_snapshot_cursor_def by (simp add: guardE_def bindE_Inr_iff)
  also have "\<dots> \<longleftrightarrow> (\<forall>p \<in> set (vs_profiles s). 0 \<notin> set (vp_description p))"
    using col assms(3,4) v by (intro write_snapshot_iff) auto
  finally show ?thesis .
qed

section \<open>A registry of one operator\<close>

definition sample_profile :: valoper_profile where
  "sample_profile = \<lparr>vp_moniker = u ''node-1'', vp_description = u ''d'', vp_operator = sample_operator, vp_signing = sample_operator,
     vp_pubkey = u ''gpub1'' @ replicate 90 97, vp_server = u ''cloud'', vp_profile_path = PROFILE_PREFIX @ sample_operator\<rparr>"

lemma sample_profile_valid: "valid_profile sample_profile"
  using sample_entry_valid(1)
  by (simp add: sample_profile_def valid_profile_def valid_moniker_def ascii_alnum_def is_gpub_def expect_def bech_char_def list_all_iff
      MAX_DESCRIPTION_BYTES_def MIN_SIGNING_PUBKEY_LENGTH_def MAX_SIGNING_PUBKEY_LENGTH_def SERVER_TYPES_def utf8_char_length)

lemma sample_documents:
  "validate_render (render_detail sample_profile) = Inr ()"
  "list_all scalar (render_list [sample_entry])" "utf8_size (render_list [sample_entry]) \<le> MAX_DECODED_RESPONSE_BYTES" "render_list [sample_entry] \<noteq> []"
  "list_all scalar (render_detail sample_profile)" "utf8_size (render_detail sample_profile) \<le> MAX_DECODED_RESPONSE_BYTES" "render_detail sample_profile \<noteq> []"
proof -
  let ?l = "render_list [sample_entry]" and ?d = "render_detail sample_profile"
  have l: "list_all (\<lambda>c. c < 128) ?l" "length ?l \<le> 500"
    by (simp_all add: render_list_def entry_text_def sample_entry_def sample_operator_def ENTRY_HEAD_def ENTRY_DETAIL_def ENTRY_PROFILE_def
        ENTRY_END_def list_all_iff)
  have d: "list_all (\<lambda>c. c < 128) ?d" "length ?d \<le> 1000"
    by (simp_all add: render_detail_def tail_text_def sample_profile_def sample_operator_def DETAIL_PREFIX_def TAIL_OPERATOR_def TAIL_SIGNING_def
        TAIL_PUBKEY_def TAIL_SERVER_def TAIL_PROFILE_def list_all_iff)
  show "list_all scalar ?l" "list_all scalar ?d" using l(1) d(1) by (auto simp: list_all_iff scalar_def)
  show "utf8_size ?l \<le> MAX_DECODED_RESPONSE_BYTES" "utf8_size ?d \<le> MAX_DECODED_RESPONSE_BYTES"
    using utf8_size_ascii [OF l(1)] utf8_size_ascii [OF d(1)] l(2) d(2) by (simp_all add: MAX_DECODED_RESPONSE_BYTES_def)
  show "?l \<noteq> []" "?d \<noteq> []" by (simp_all add: render_list_def entry_text_def ENTRY_HEAD_def render_detail_def DETAIL_PREFIX_def)
  show "validate_render ?d = Inr ()"
    using utf8_size_ascii [OF d(1)] d by (auto simp: validate_render_def MAX_RENDER_CHARS_def MAX_RENDER_BYTES_def list_all_iff scalar_def guardE_def)
qed

definition sample_client :: qclient where
  "sample_client n params = Inr (qrender_reply ''0'' (if n = 0 then render_list [sample_entry] else render_detail sample_profile))"

definition sample_registry :: valopers_snapshot where
  "sample_registry = \<lparr>vs_source_height = 7, vs_page_count = 1, vs_profiles = [sample_profile]\<rparr>"

lemma sample_fetch:
  assumes "list_all scalar t" and "t \<noteq> []" and "utf8_size t \<le> MAX_DECODED_RESPONSE_BYTES" and "client n = (\<lambda>_. Inr (qrender_reply ''0'' t))"
  shows "\<exists>r. fetch_with_retry cat client data kind 7 n = (Inr r, n + 1) \<and> vr_text r = t"
proof -
  have "response_height ''0'' = Inr 0" by (simp add: response_height_def)
  then obtain r where "decode_qrender_response cat (qrender_reply ''0'' t) kind 7 = Inr r" "vr_text r = t"
    using decode_reply [OF assms(1-3)] by blast
  then show ?thesis using assms(4)
    by (auto simp: fetch_with_retry_def bindS_def liftS_def build_qrender_params_def guardE_def VALOPERS_FETCH_ATTEMPTS_def numeral_3_eq_3)
qed

lemma sample_collect: "collect_valopers_snapshot (\<lambda>_. False) sample_client 7 0 = (Inr sample_registry, 2)"
proof -
  note doc = sample_documents
  obtain r1 where r1: "fetch_with_retry (\<lambda>_. False) sample_client build_root_render_data ''root'' 7 0 = (Inr r1, 1)" "vr_text r1 = render_list [sample_entry]"
    using sample_fetch [OF doc(2,4,3), of sample_client 0 "\<lambda>_. False" build_root_render_data "''root''"]
    by (auto simp: sample_client_def fun_eq_iff)
  obtain r2 where r2: "fetch_with_retry (\<lambda>_. False) sample_client (VALOPERS_RENDER_PREFIX @ sample_operator) ''detail'' 7 1 = (Inr r2, 2)" "vr_text r2 = render_detail sample_profile"
    using sample_fetch [OF doc(5,7,6), of sample_client 1 "\<lambda>_. False" "VALOPERS_RENDER_PREFIX @ sample_operator" "''detail''"]
    by (auto simp: sample_client_def fun_eq_iff numeral_2_eq_2)
  have page: "parse_valopers_list (render_list [sample_entry]) = Inr [sample_entry]"
    using list_round_trip [of "[sample_entry]"] sample_page sample_entry_valid(2) by simp
  have lines: "usplitlines (render_list [sample_entry]) = [last_entry_line sample_entry]"
    using usplitlines_lines [of "[last_entry_line sample_entry]" "[]"] entry_line_no_break [OF sample_entry_valid(2)]
    by (simp add: render_list_def last_entry_line_def usplitlines_def)
  have "\<not> ublank (last_entry_line sample_entry)"
    by (simp add: last_entry_line_def entry_text_def ENTRY_HEAD_def ublank_def uspace_def)
  then have pager: "parse_pager_state (render_list [sample_entry]) 1 [sample_entry] = Inr False"
    by (simp add: parse_pager_state_def lines)
  have detail: "parse_valoper_detail (render_detail sample_profile) = Inr sample_profile"
    using parse_detail_complete [OF sample_profile_valid] doc(1) by blast
  have list: "collect_list (\<lambda>_. False) sample_client 7 0 = (Inr ([sample_entry], 1), 1)"
  proof -
    have "[1..<MAX_VALOPERS_PAGES + 1] = 1 # [2..<MAX_VALOPERS_PAGES + 1]" by (simp add: MAX_VALOPERS_PAGES_def upt_rec)
    then show ?thesis using r1 page pager
      by (simp add: collect_list_def read_page_def page_data_def bindS_def liftS_def retS_def accept_page_def check_page_def guardE_def
          VALOPERS_PAGE_SIZE_def MAX_VALOPERS_PROFILES_def Let_def)
  qed
  have "ve_operator sample_entry = sample_operator" "ve_moniker sample_entry = vp_moniker sample_profile" "vp_operator sample_profile = sample_operator"
    by (simp_all add: sample_entry_def sample_profile_def)
  then have "collect_details (\<lambda>_. False) sample_client 7 [sample_entry] [] 1 = (Inr [sample_profile], 2)"
    using r2 detail sample_entry_valid(1)
    by (simp add: bindS_def liftS_def retS_def build_detail_render_data_def guardE_def check_profile_def)
  then show ?thesis using list
    by (simp add: collect_valopers_snapshot_def bindS_def liftS_def retS_def guardE_def sample_registry_def)
qed

definition new_valopers_db :: valopers_db where
  "new_valopers_db = \<lparr>vd_profiles = [], vd_state = None, vd_indexer_chain = Some ''pearl-1''\<rparr>"

theorem collected_snapshot_storable_witness:
  "collect_valopers_snapshot (\<lambda>_. False) sample_client 7 0 = (Inr sample_registry, 2) \<and>
   (\<exists>r d'. replace_valopers_snapshot_cursor sample_registry ''pearl-1'' new_valopers_db = Inr (r, d'))"
proof -
  have "py_strip ''pearl-1'' \<noteq> []" by code_simp
  then have "(\<exists>r d'. replace_valopers_snapshot_cursor sample_registry ''pearl-1'' new_valopers_db = Inr (r, d')) \<longleftrightarrow>
      (\<forall>p \<in> set (vs_profiles sample_registry). 0 \<notin> set (vp_description p))"
    by (intro collected_snapshot_storable [OF sample_collect])
      (simp_all add: new_valopers_db_def stored_rows_def validate_stored_state_def)
  then show ?thesis using sample_collect by (simp add: sample_registry_def sample_profile_def)
qed

lemma sample_replaced: "\<exists>r d'. replace_valopers_snapshot_cursor sample_registry ''pearl-1'' new_valopers_db = Inr (r, d')"
proof -
  have strip: "py_strip ''pearl-1'' \<noteq> []" by code_simp
  note col = collected_snapshot [OF sample_collect] and v = collected_valid [OF sample_collect strip]
  have "\<exists>d'. write_snapshot new_valopers_db sample_registry ''pearl-1'' (map profile_tuple (vs_profiles sample_registry)) = Inr d'"
    using col v by (subst write_snapshot_iff) (auto simp: sample_registry_def sample_profile_def)
  then show ?thesis using v strip unfolding replace_valopers_snapshot_cursor_def
    by (auto simp: new_valopers_db_def guardE_def validate_stored_state_def stored_rows_def compare_stored_def)
qed

theorem replace_stores_snapshot_witness:
  "\<exists>r d'. replace_valopers_snapshot_cursor sample_registry ''pearl-1'' new_valopers_db = Inr (r, d') \<and>
     snapshot_stored d' sample_registry ''pearl-1''"
proof -
  obtain r d' where run: "replace_valopers_snapshot_cursor sample_registry ''pearl-1'' new_valopers_db = Inr (r, d')" using sample_replaced by blast
  from replace_stores_snapshot [OF run] run show ?thesis by blast
qed

theorem replace_idempotent_witness:
  "\<exists>r d' r'. replace_valopers_snapshot_cursor sample_registry ''pearl-1'' new_valopers_db = Inr (r, d') \<and>
     replace_valopers_snapshot_cursor sample_registry ''pearl-1'' d' = Inr (r', d') \<and> vw_action r' = ''unchanged''"
proof -
  obtain r d' where run: "replace_valopers_snapshot_cursor sample_registry ''pearl-1'' new_valopers_db = Inr (r, d')" using sample_replaced by blast
  from replace_idempotent [OF run] run show ?thesis by blast
qed

theorem stale_snapshot_refused_witness:
  "\<exists>e. replace_valopers_snapshot_cursor (sample_registry\<lparr>vs_source_height := 6\<rparr>) ''pearl-1''
     (new_valopers_db\<lparr>vd_state := Some (state_of sample_registry ''pearl-1'' 1)\<rparr>) = Inl e"
  by (rule stale_snapshot_refused [of _ "state_of sample_registry ''pearl-1'' 1"]) (simp_all add: state_of_def sample_registry_def)


end
