(* ===== verification/Governance_Types.thy ===== *)
theory Governance_Types
  imports Valopers_Parser Py_Float
begin

text \<open>
  The data of governance discovery (the dataclasses of \<open>governance/gno.py\<close>). Texts taken from rendered documents are
  lists of code points; chain id, realm and RPC address come from the configuration. The \<open>isinstance\<close> tests of the code
  on these classes hold by typing.
\<close>

record gov_source =
  gs_chain_id :: string
  gs_rpc_url :: string
  gs_observed_height :: int
  gs_realm_path :: string

record gov_summary =
  gm_proposal_id :: int
  gm_title :: ustr
  gm_author_display :: "ustr option"
  gm_author_address :: "ustr option"
  gm_status :: string
  gm_eligible_tiers :: "ustr list"
  gm_parse_warnings :: "ustr list"

record gov_vote =
  gv_voter_display :: ustr
  gv_voter_address :: "ustr option"
  gv_option :: ustr
  gv_tier :: ustr
  gv_voting_power :: ustr

record gov_proposal =
  gp_proposal_id :: int
  gp_title :: ustr
  gp_author_display :: "ustr option"
  gp_author_address :: "ustr option"
  gp_status :: string
  gp_eligible_tiers :: "ustr list"
  gp_description :: ustr
  gp_executor_text :: "ustr option"
  gp_executor_creation_realm :: "ustr option"
  gp_rejection_reason :: "ustr option"
  gp_yes_percent :: "pyfloat option"
  gp_no_percent :: "pyfloat option"
  gp_abstain_percent :: "pyfloat option"
  gp_detail_parse_status :: string
  gp_votes_parse_status :: string
  gp_votes :: "gov_vote list"
  gp_parse_warnings :: "ustr list"

text \<open>The captured renders are a dict: a list of names and texts, one entry per name.\<close>

type_synonym raw_renders = "(string \<times> ustr) list"

record gov_discovery =
  gd_source :: gov_source
  gd_complete :: bool
  gd_page_count :: nat
  gd_proposals :: "gov_proposal list"
  gd_warnings :: "ustr list"
  gd_raw_renders :: raw_renders

record gov_list_discovery =
  gl_source :: gov_source
  gl_complete :: bool
  gl_page_count :: nat
  gl_proposals :: "gov_summary list"
  gl_warnings :: "ustr list"
  gl_raw_renders :: raw_renders

definition MAX_GOVERNANCE_PAGES :: nat where "MAX_GOVERNANCE_PAGES = 100"
definition MAX_GOVERNANCE_PROPOSALS :: nat where "MAX_GOVERNANCE_PROPOSALS = 1000"
definition MAX_GOV_RENDER_BYTES :: nat where "MAX_GOV_RENDER_BYTES = 1048576"
definition MAX_TOTAL_RAW_BYTES :: nat where "MAX_TOTAL_RAW_BYTES = 16777216"
definition MAX_TEXT_CHARS :: nat where "MAX_TEXT_CHARS = 100000"
definition MAX_WARNINGS :: nat where "MAX_WARNINGS = 50"

lemmas governance_limits = MAX_GOVERNANCE_PAGES_def MAX_GOVERNANCE_PROPOSALS_def MAX_GOV_RENDER_BYTES_def MAX_TOTAL_RAW_BYTES_def
  MAX_TEXT_CHARS_def MAX_WARNINGS_def

definition raw_name :: "int \<Rightarrow> string" where
  "raw_name i = ''proposal/'' @ str_int i"

definition raw_votes_name :: "int \<Rightarrow> string" where
  "raw_votes_name i = raw_name i @ ''/votes''"

definition proposal_raw_renders :: "gov_discovery \<Rightarrow> int \<Rightarrow> ustr option \<times> ustr option" where
  "proposal_raw_renders discovery i =
     (map_of (gd_raw_renders discovery) (raw_name i), map_of (gd_raw_renders discovery) (raw_votes_name i))"

end
