(* ===== verification/Governance_Persistence.thy ===== *)
theory Governance_Persistence
  imports Governance_Types Db_Tables "HOL-Library.Product_Lexorder"
begin

text \<open>
  \<open>indexer/governance_persistence.py\<close>: validation of a discovery, the stored governance tables and the two cursor
  functions that write them, each in one transaction under one advisory lock. The three governance tables are grouped by
  the prefix (chain, realm) of their keys, which every statement fixes; \<open>now()\<close> columns are left out. The case folding
  table of Unicode is the argument \<open>cf\<close> of the definitions that use it. Rows come back ordered by code points: the
  code sorts them again before every comparison, so the server's collation does not matter.
\<close>

section \<open>Texts, keys and percentages\<close>

definition STATUSES :: "string list" where
  "STATUSES = [''ACTIVE'', ''ACCEPTED'', ''REJECTED'', ''UNKNOWN'']"

definition DETAIL_STATUSES :: "string list" where
  "DETAIL_STATUSES = [''parsed'', ''partial'']"

definition VOTE_STATUSES :: "string list" where
  "VOTE_STATUSES = [''parsed'', ''empty'', ''unparsed'']"

definition VOTE_OPTIONS :: "ustr list" where
  "VOTE_OPTIONS = [u ''YES'', u ''NO'', u ''ABSTAIN'']"

definition TRANSITIONS :: "string \<Rightarrow> string list" where
  "TRANSITIONS s = (if s = ''ACTIVE'' then [''ACCEPTED'', ''REJECTED'']
     else if s = ''UNKNOWN'' then [''ACTIVE'', ''ACCEPTED'', ''REJECTED''] else [])"

definition bounded_text :: "ustr \<Rightarrow> nat \<Rightarrow> bool" where
  "bounded_text s n = (length s \<le> n)"

definition nonempty_text :: "ustr \<Rightarrow> nat \<Rightarrow> bool" where
  "nonempty_text s n = (s \<noteq> [] \<and> length s \<le> n)"

text \<open>\<open>s.split()\<close>: the runs of non-whitespace.\<close>

fun uwords_acc :: "ustr \<Rightarrow> ustr \<Rightarrow> ustr list" where
  "uwords_acc acc [] = (if acc = [] then [] else [rev acc])"
| "uwords_acc acc (c # s) =
     (if uspace c then (if acc = [] then uwords_acc [] s else rev acc # uwords_acc [] s) else uwords_acc (c # acc) s)"

definition uwords :: "ustr \<Rightarrow> ustr list" where
  "uwords = uwords_acc []"

fun ujoin :: "ustr \<Rightarrow> ustr list \<Rightarrow> ustr" where
  "ujoin sep [] = []"
| "ujoin sep [s] = s"
| "ujoin sep (s # t # ts) = s @ sep @ ujoin sep (t # ts)"

text \<open>\<open>address.lower()\<close> of an address that was matched before: ASCII only.\<close>

definition ascii_lower :: "ustr \<Rightarrow> ustr" where
  "ascii_lower s = map (\<lambda>c. if 65 \<le> c \<and> c \<le> 90 then c + 32 else c) s"

definition voter_key :: "(nat \<Rightarrow> ustr) \<Rightarrow> ustr \<Rightarrow> ustr option \<Rightarrow> ustr" where
  "voter_key cf display address =
     (case address of
        Some (c # a) \<Rightarrow> u ''address:'' @ ascii_lower (c # a)
      | _ \<Rightarrow> u ''display:'' @ concat (map cf (ujoin (u '' '') (uwords display))))"

text \<open>
  \<open>Decimal(str(value))\<close>: the decimal that \<open>repr\<close> prints. A percentage is kept in ten-thousandths, rounded half up, as the
  column \<open>NUMERIC(7,4)\<close> holds it.
\<close>

definition printed_value :: "rat \<Rightarrow> rat" where
  "printed_value x =
     (if x = 0 then 0
      else let (e, m) = shortest 17 1 \<bar>x\<bar>; v = of_nat m * pow10 (e - int (length (digits_of_nat m)) + 1)
           in if x < 0 then - v else v)"

definition percentage :: "pyfloat option \<Rightarrow> int option res" where
  "percentage value =
     (case value of
        None \<Rightarrow> Inr None
      | Some f \<Rightarrow>
          (case f of
             Fin x \<Rightarrow> let d = printed_value x in
               bindE (guardE (0 \<le> d \<and> d \<le> 100) (GovernancePersistenceError ''invalid percentage'')) (\<lambda>_.
               let canonical = \<lfloor>d * 10000 + 1 / 2\<rfloor> in
               bindE (guardE (0 \<le> canonical \<and> canonical \<le> 1000000) (GovernancePersistenceError ''invalid percentage'')) (\<lambda>_.
               Inr (Some canonical)))
           | _ \<Rightarrow> Inl (GovernancePersistenceError ''invalid percentage'')))"

section \<open>Normalised content\<close>

record vote_content =
  vc_display :: ustr
  vc_address :: "ustr option"
  vc_option :: ustr
  vc_tier :: ustr
  vc_power :: nat

record prop_content =
  pc_title :: ustr
  pc_author_display :: "ustr option"
  pc_author_address :: "ustr option"
  pc_status :: string
  pc_tiers :: "ustr list"
  pc_description :: ustr
  pc_executor_text :: "ustr option"
  pc_executor_realm :: "ustr option"
  pc_rejection_reason :: "ustr option"
  pc_yes :: "int option"
  pc_no :: "int option"
  pc_abstain :: "int option"
  pc_detail_status :: string
  pc_votes_status :: string
  pc_warnings :: "ustr list"
  pc_raw_detail :: ustr
  pc_raw_votes :: ustr

text \<open>A normalised proposal: its id, the columns it writes and its votes by voter key.\<close>

record normalized =
  np_id :: int
  np_content :: prop_content
  np_votes :: "(ustr \<times> vote_content) list"

definition power_digits :: "ustr \<Rightarrow> bool" where
  "power_digits s = (1 \<le> length s \<and> length s \<le> 78 \<and> list_all (\<lambda>c. 48 \<le> c \<and> c \<le> 57) s)"

definition power_value :: "ustr \<Rightarrow> nat" where
  "power_value s = foldl (\<lambda>a c. a * 10 + (c - 48)) 0 s"

definition gov_guard :: "bool \<Rightarrow> string \<Rightarrow> unit res" where
  "gov_guard b m = guardE b (GovernancePersistenceError m)"

definition normalize_vote ::
  "(nat \<Rightarrow> ustr) \<Rightarrow> gov_vote \<Rightarrow> (ustr \<times> vote_content) list \<Rightarrow> (ustr \<times> vote_content) list res" where
  "normalize_vote cf vote votes =
     bindE (gov_guard (uwords (gv_voter_display vote) \<noteq> [] \<and> length (gv_voter_display vote) \<le> 1000) ''invalid voter display'') (\<lambda>_.
     bindE (gov_guard (opt_check is_address (gv_voter_address vote)) ''invalid voter address'') (\<lambda>_.
     bindE (gov_guard (gv_option vote \<in> set VOTE_OPTIONS) ''invalid vote option'') (\<lambda>_.
     bindE (gov_guard (ustrip (gv_tier vote) \<noteq> [] \<and> gv_tier vote = ustrip (gv_tier vote) \<and> length (gv_tier vote) \<le> 64) ''invalid vote tier'') (\<lambda>_.
     bindE (gov_guard (power_digits (gv_voting_power vote)) ''invalid voting power'') (\<lambda>_.
     let key = voter_key cf (gv_voter_display vote) (gv_voter_address vote) in
     bindE (gov_guard (key \<noteq> [] \<and> length key \<le> 1100 \<and> key \<notin> set (map fst votes)) ''duplicate or invalid voter key'') (\<lambda>_.
     Inr (votes @ [(key, \<lparr>vc_display = gv_voter_display vote, vc_address = gv_voter_address vote, vc_option = gv_option vote,
                         vc_tier = gv_tier vote, vc_power = power_value (gv_voting_power vote)\<rparr>)])))))))"

definition normalize_proposal :: "(nat \<Rightarrow> ustr) \<Rightarrow> gov_discovery \<Rightarrow> gov_proposal \<Rightarrow> normalized list \<Rightarrow> normalized list res" where
  "normalize_proposal cf discovery p done_rows =
     bindE (gov_guard (0 \<le> gp_proposal_id p) ''invalid proposal ID'') (\<lambda>_.
     bindE (gov_guard (gp_proposal_id p \<notin> set (map np_id done_rows)) ''duplicate proposal ID'') (\<lambda>_.
     bindE (gov_guard (nonempty_text (gp_title p) 1000) ''invalid proposal title'') (\<lambda>_.
     bindE (gov_guard (opt_check (\<lambda>s. bounded_text s 1000) (gp_author_display p)) ''invalid proposal author display'') (\<lambda>_.
     bindE (gov_guard (opt_check is_address (gp_author_address p)) ''invalid proposal author address'') (\<lambda>_.
     bindE (gov_guard (gp_status p \<in> set STATUSES) ''invalid proposal status'') (\<lambda>_.
     bindE (gov_guard (list_all (\<lambda>t. nonempty_text t 64 \<and> t = ustrip t) (gp_eligible_tiers p)) ''invalid eligible tier'') (\<lambda>_.
     bindE (gov_guard (bounded_text (gp_description p) MAX_TEXT_CHARS) ''invalid proposal description'') (\<lambda>_.
     bindE (gov_guard (opt_check (\<lambda>s. bounded_text s MAX_TEXT_CHARS) (gp_executor_text p)) ''invalid executor text'') (\<lambda>_.
     bindE (gov_guard (opt_check (\<lambda>s. bounded_text s 1000) (gp_executor_creation_realm p)) ''invalid executor realm'') (\<lambda>_.
     bindE (gov_guard (opt_check (\<lambda>s. bounded_text s 10000) (gp_rejection_reason p)) ''invalid rejection reason'') (\<lambda>_.
     bindE (percentage (gp_yes_percent p)) (\<lambda>yes.
     bindE (percentage (gp_no_percent p)) (\<lambda>no.
     bindE (percentage (gp_abstain_percent p)) (\<lambda>abstain.
     bindE (gov_guard (gp_detail_parse_status p \<in> set DETAIL_STATUSES) ''invalid detail parse status'') (\<lambda>_.
     bindE (gov_guard (gp_votes_parse_status p \<in> set VOTE_STATUSES) ''invalid votes parse status'') (\<lambda>_.
     bindE (guardE (gp_votes_parse_status p \<noteq> ''unparsed'') (IncompleteGovernanceSnapshot ''unparsed votes make the snapshot incomplete'')) (\<lambda>_.
     bindE (gov_guard (length (gp_parse_warnings p) \<le> MAX_WARNINGS \<and> list_all (\<lambda>s. bounded_text s 1000) (gp_parse_warnings p))
              ''invalid parse warnings'') (\<lambda>_.
     case proposal_raw_renders discovery (gp_proposal_id p) of
       (Some raw_detail, Some raw_votes) \<Rightarrow>
         bindE (gov_guard (\<not> (gp_votes_parse_status p = ''empty'' \<and> gp_votes p \<noteq> [])) ''empty vote status contains votes'') (\<lambda>_.
         bindE (gov_guard (\<not> (gp_votes_parse_status p = ''parsed'' \<and> gp_votes p = [])) ''parsed vote status requires votes'') (\<lambda>_.
         bindE (foldE (normalize_vote cf) (gp_votes p) []) (\<lambda>votes.
         Inr (done_rows @ [\<lparr>np_id = gp_proposal_id p,
           np_content = \<lparr>pc_title = gp_title p, pc_author_display = gp_author_display p, pc_author_address = gp_author_address p,
             pc_status = gp_status p, pc_tiers = gp_eligible_tiers p, pc_description = gp_description p,
             pc_executor_text = gp_executor_text p, pc_executor_realm = gp_executor_creation_realm p,
             pc_rejection_reason = gp_rejection_reason p, pc_yes = yes, pc_no = no, pc_abstain = abstain,
             pc_detail_status = gp_detail_parse_status p, pc_votes_status = gp_votes_parse_status p,
             pc_warnings = gp_parse_warnings p, pc_raw_detail = raw_detail, pc_raw_votes = raw_votes\<rparr>,
           np_votes = sort_key fst votes\<rparr>]))))
     | _ \<Rightarrow> Inl (GovernancePersistenceError ''proposal raw renders are missing'')))))))))))))))))))"

definition raw_total :: "raw_renders \<Rightarrow> nat" where
  "raw_total raws = sum_list (map (\<lambda>(_, s). utf8_size s) raws)"

text \<open>\<open>value.encode\<close> raises for a lone surrogate.\<close>

definition check_raw_render :: "string \<times> ustr \<Rightarrow> unit res" where
  "check_raw_render = (\<lambda>(_, s).
     bindE (guardE (list_all scalar s) encode_error) (\<lambda>_.
     gov_guard (utf8_size s \<le> MAX_GOV_RENDER_BYTES) ''raw render exceeds limit''))"

definition normalize_discovery :: "(nat \<Rightarrow> ustr) \<Rightarrow> gov_discovery \<Rightarrow> string \<Rightarrow> normalized list res" where
  "normalize_discovery cf discovery expected_chain =
     (let source = gd_source discovery in
      bindE (guardE (expected_chain \<noteq> []) (GovernanceChainIdentityError ''configured chain ID is required'')) (\<lambda>_.
      bindE (guardE (gd_complete discovery) (IncompleteGovernanceSnapshot ''only a complete full discovery may be persisted'')) (\<lambda>_.
      bindE (gov_guard (gs_chain_id source \<noteq> [] \<and> length (gs_chain_id source) \<le> 128) ''invalid source chain ID'') (\<lambda>_.
      bindE (guardE (gs_chain_id source = expected_chain)
               (GovernanceChainIdentityError ''governance source chain does not match configured chain'')) (\<lambda>_.
      bindE (gov_guard (gs_realm_path source \<noteq> [] \<and> length (gs_realm_path source) \<le> 512) ''invalid governance realm'') (\<lambda>_.
      bindE (gov_guard (1 \<le> gs_observed_height source) ''invalid governance source height'') (\<lambda>_.
      bindE (gov_guard (1 \<le> gd_page_count discovery \<and> gd_page_count discovery \<le> MAX_GOVERNANCE_PAGES)
               ''complete discovery must include at least one bounded list page'') (\<lambda>_.
      bindE (gov_guard (length (gd_proposals discovery) \<le> MAX_GOVERNANCE_PROPOSALS) ''invalid proposal collection'') (\<lambda>_.
      bindE (checkE check_raw_render (gd_raw_renders discovery)) (\<lambda>_.
      bindE (gov_guard (raw_total (gd_raw_renders discovery) \<le> MAX_TOTAL_RAW_BYTES) ''raw renders exceed total limit'') (\<lambda>_.
      bindE (foldE (normalize_proposal cf discovery) (gd_proposals discovery) []) (\<lambda>rows.
      Inr (sort_key np_id rows)))))))))))))"

section \<open>Stored tables\<close>

record prop_row =
  pr_content :: prop_content
  pr_first :: int
  pr_last :: int

record gvote_row =
  gw_content :: vote_content
  gw_first :: int
  gw_last :: int

record sync_row =
  sy_height :: int
  sy_pages :: int
  sy_count :: int
  sy_first_id :: "int option"
  sy_latest_id :: "int option"

record gov_part =
  gt_state :: "sync_row option"
  gt_props :: "(int, prop_row) table"
  gt_votes :: "(int \<times> ustr, gvote_row) table"

text \<open>
  \<open>gb_key_fits\<close>: whether the server can index a primary key of \<open>governance_votes\<close>. An index row of PostgreSQL must fit in a
  third of a page after compression, and a voter key may have 1100 characters of several bytes; the limit depends on the
  server's build and compression, so that it is an input. Nothing changes it.
\<close>

record gov_db =
  gb_parts :: "(string \<times> string, gov_part) table"
  gb_indexer_chain :: "string option"
  gb_key_fits :: "string \<Rightarrow> string \<Rightarrow> int \<Rightarrow> ustr \<Rightarrow> bool"

definition empty_part :: gov_part where
  "empty_part = \<lparr>gt_state = None, gt_props = [], gt_votes = []\<rparr>"

definition part_of :: "gov_db \<Rightarrow> string \<Rightarrow> string \<Rightarrow> gov_part" where
  "part_of d chain realm = (case map_of (gb_parts d) (chain, realm) of None \<Rightarrow> empty_part | Some p \<Rightarrow> p)"

definition put_part :: "gov_db \<Rightarrow> string \<Rightarrow> string \<Rightarrow> gov_part \<Rightarrow> gov_db" where
  "put_part d chain realm p = d\<lparr>gb_parts := AList.update (chain, realm) p (gb_parts d)\<rparr>"

section \<open>Reading\<close>

definition valid_heights :: "int \<Rightarrow> int \<Rightarrow> int \<Rightarrow> bool" where
  "valid_heights source first_height last_height = (1 \<le> first_height \<and> first_height \<le> last_height \<and> last_height \<le> source)"

definition valid_sync :: "sync_row \<Rightarrow> int list \<Rightarrow> bool" where
  "valid_sync s ids \<longleftrightarrow> 1 \<le> sy_height s \<and> 1 \<le> sy_pages s \<and> sy_pages s \<le> int MAX_GOVERNANCE_PAGES \<and>
     0 \<le> sy_count s \<and> sy_count s \<le> int MAX_GOVERNANCE_PROPOSALS \<and> sy_count s = int (length ids) \<and>
     (sy_count s = 0 \<and> sy_first_id s = None \<and> sy_latest_id s = None \<or>
      0 < sy_count s \<and> (case (sy_first_id s, sy_latest_id s) of
          (Some a, Some b) \<Rightarrow> 0 \<le> a \<and> a \<le> b \<and> a = Min (set ids) \<and> b = Max (set ids)
        | _ \<Rightarrow> False))"

definition valid_percent :: "int option \<Rightarrow> bool" where
  "valid_percent = opt_check (\<lambda>v. 0 \<le> v \<and> v \<le> 1000000)"

definition valid_content :: "prop_content \<Rightarrow> bool" where
  "valid_content c \<longleftrightarrow> nonempty_text (pc_title c) 1000 \<and> opt_check (\<lambda>s. bounded_text s 1000) (pc_author_display c) \<and>
     opt_check is_address (pc_author_address c) \<and> pc_status c \<in> set STATUSES \<and> list_all (\<lambda>t. nonempty_text t 64) (pc_tiers c) \<and>
     bounded_text (pc_description c) MAX_TEXT_CHARS \<and> opt_check (\<lambda>s. bounded_text s MAX_TEXT_CHARS) (pc_executor_text c) \<and>
     opt_check (\<lambda>s. bounded_text s 1000) (pc_executor_realm c) \<and> opt_check (\<lambda>s. bounded_text s 10000) (pc_rejection_reason c) \<and>
     valid_percent (pc_yes c) \<and> valid_percent (pc_no c) \<and> valid_percent (pc_abstain c) \<and> pc_detail_status c \<in> set DETAIL_STATUSES \<and>
     pc_votes_status c \<in> {''parsed'', ''empty''} \<and> list_all (\<lambda>s. bounded_text s 1000) (pc_warnings c) \<and>
     utf8_size (pc_raw_detail c) \<le> MAX_GOV_RENDER_BYTES \<and> utf8_size (pc_raw_votes c) \<le> MAX_GOV_RENDER_BYTES"

definition vote_count :: "int \<Rightarrow> ((int \<times> ustr) \<times> 'a) list \<Rightarrow> nat" where
  "vote_count i votes = length (filter (\<lambda>((j, _), _). j = i) votes)"

definition valid_stored_prop :: "sync_row \<Rightarrow> ((int \<times> ustr) \<times> gvote_row) list \<Rightarrow> int \<times> prop_row \<Rightarrow> bool" where
  "valid_stored_prop s votes = (\<lambda>(i, r). 0 \<le> i \<and> valid_content (pr_content r) \<and>
     (pc_votes_status (pr_content r) = ''parsed'' \<longleftrightarrow> 0 < vote_count i votes) \<and> valid_heights (sy_height s) (pr_first r) (pr_last r))"

definition valid_vote :: "(nat \<Rightarrow> ustr) \<Rightarrow> ustr \<Rightarrow> vote_content \<Rightarrow> bool" where
  "valid_vote cf key v \<longleftrightarrow> nonempty_text key 1100 \<and> nonempty_text (vc_display v) 1000 \<and> opt_check is_address (vc_address v) \<and>
     key = voter_key cf (vc_display v) (vc_address v) \<and> vc_option v \<in> set VOTE_OPTIONS \<and> nonempty_text (vc_tier v) 64 \<and> vc_power v < 10 ^ 78"

definition valid_stored_vote :: "(nat \<Rightarrow> ustr) \<Rightarrow> sync_row \<Rightarrow> int list \<Rightarrow> (int \<times> ustr) \<times> gvote_row \<Rightarrow> bool" where
  "valid_stored_vote cf s ids = (\<lambda>((i, key), r). i \<in> set ids \<and> valid_vote cf key (gw_content r) \<and> valid_heights (sy_height s) (gw_first r) (gw_last r))"

definition content_raw :: "prop_content \<Rightarrow> nat" where
  "content_raw c = utf8_size (pc_raw_detail c) + utf8_size (pc_raw_votes c)"

type_synonym loaded = "sync_row option \<times> (int \<times> prop_row) list \<times> ((int \<times> ustr) \<times> gvote_row) list"

definition load_governance :: "(nat \<Rightarrow> ustr) \<Rightarrow> gov_part \<Rightarrow> loaded res" where
  "load_governance cf part =
     (let proposals = sort_key fst (gt_props part); votes = sort_key fst (gt_votes part); ids = map fst proposals in
      case gt_state part of
        None \<Rightarrow> bindE (guardE (proposals = [] \<and> votes = []) (GovernanceStoredStateError ''governance rows exist without sync state'')) (\<lambda>_.
                Inr (None, proposals, votes))
      | Some s \<Rightarrow>
          bindE (guardE (valid_sync s ids) (GovernanceStoredStateError ''stored governance sync state is inconsistent'')) (\<lambda>_.
          bindE (guardE (list_all (valid_stored_prop s votes) proposals) (GovernanceStoredStateError ''stored governance proposal is inconsistent'')) (\<lambda>_.
          bindE (guardE (sum_list (map (\<lambda>(_, r). content_raw (pr_content r)) proposals) \<le> MAX_TOTAL_RAW_BYTES)
                   (GovernanceStoredStateError ''stored governance raw total exceeds limit'')) (\<lambda>_.
          bindE (guardE (list_all (valid_stored_vote cf s ids) votes \<and> distinct (map fst votes))
                   (GovernanceStoredStateError ''stored governance vote is inconsistent'')) (\<lambda>_.
          Inr (Some s, proposals, votes))))))"

type_synonym gov_content = "(int \<times> prop_content) list \<times> ((int \<times> ustr) \<times> vote_content) list"

definition content :: "normalized list \<Rightarrow> gov_content" where
  "content rows = (map (\<lambda>r. (np_id r, np_content r)) rows,
     concat (map (\<lambda>r. map (\<lambda>(k, v). ((np_id r, k), v)) (np_votes r)) rows))"

definition stored_content :: "(int \<times> prop_row) list \<Rightarrow> ((int \<times> ustr) \<times> gvote_row) list \<Rightarrow> gov_content" where
  "stored_content proposals votes =
     (sort_key fst (map (\<lambda>(i, r). (i, pr_content r)) proposals), sort_key fst (map (\<lambda>(k, r). (k, gw_content r)) votes))"

section \<open>Statements\<close>

text \<open>
  A text parameter is refused by the driver when it holds a NUL character, and its encoding raises when it holds a lone
  surrogate. The two JSON columns are sent as \<open>json.dumps\<close> writes them, in ASCII: the server refuses both as escapes. (Two
  surrogates that form a pair would be read as one character there and the verification after a full write would refuse the
  difference; they cannot come out of a decoded answer and are refused here.)
\<close>

definition bindable_text :: "ustr \<Rightarrow> bool" where
  "bindable_text s = (0 \<notin> set s \<and> list_all scalar s)"

definition text_parameter :: "ustr \<Rightarrow> unit res" where
  "text_parameter s = bindE (in_range (0 \<notin> set s)) (\<lambda>_. guardE (list_all scalar s) encode_error)"

definition content_texts :: "prop_content \<Rightarrow> ustr list" where
  "content_texts c =
     (let opt = (\<lambda>x. case x of None \<Rightarrow> [] | Some s \<Rightarrow> [s]) in
      [pc_title c] @ opt (pc_author_display c) @ opt (pc_author_address c) @ [pc_description c] @ opt (pc_executor_text c) @
      opt (pc_executor_realm c) @ opt (pc_rejection_reason c) @ [pc_raw_detail c, pc_raw_votes c])"

definition content_bindable :: "prop_content \<Rightarrow> bool" where
  "content_bindable c = list_all bindable_text (content_texts c @ pc_tiers c @ pc_warnings c)"

definition vote_texts :: "ustr \<Rightarrow> vote_content \<Rightarrow> ustr list" where
  "vote_texts key v = [key, vc_display v] @ (case vc_address v of None \<Rightarrow> [] | Some s \<Rightarrow> [s]) @ [vc_tier v]"

definition check_key :: "string \<Rightarrow> string \<Rightarrow> int \<Rightarrow> unit res" where
  "check_key chain realm height =
     bindE (in_range (CHR 0x00 \<notin> set chain \<and> CHR 0x00 \<notin> set realm \<and> int8 height)) (\<lambda>_.
     constraint ''governance_chain_id_realm_path_check''
       (1 \<le> length chain \<and> length chain \<le> 128 \<and> 1 \<le> length realm \<and> length realm \<le> 512))"

definition check_prop :: "int \<Rightarrow> prop_row \<Rightarrow> unit res" where
  "check_prop i r =
     bindE (in_range (int8 i \<and> list_all bindable_text (pc_tiers (pr_content r) @ pc_warnings (pr_content r)))) (\<lambda>_.
     constraint ''governance_proposals'' (0 \<le> i \<and>
       (let c = pr_content r in
        nonempty_text (pc_title c) 1000 \<and> opt_check (\<lambda>s. bounded_text s 1000) (pc_author_display c) \<and>
        opt_check is_address (pc_author_address c) \<and> pc_status c \<in> set STATUSES \<and> bounded_text (pc_description c) 100000 \<and>
        opt_check (\<lambda>s. bounded_text s 100000) (pc_executor_text c) \<and> opt_check (\<lambda>s. bounded_text s 1000) (pc_executor_realm c) \<and>
        opt_check (\<lambda>s. bounded_text s 10000) (pc_rejection_reason c) \<and> pc_detail_status c \<in> set DETAIL_STATUSES \<and>
        pc_votes_status c \<in> set VOTE_STATUSES \<and> valid_percent (pc_yes c) \<and> valid_percent (pc_no c) \<and> valid_percent (pc_abstain c) \<and>
        utf8_size (pc_raw_detail c) \<le> 1048576 \<and> utf8_size (pc_raw_votes c) \<le> 1048576) \<and>
       1 \<le> pr_first r \<and> pr_first r \<le> pr_last r))"

definition upsert_proposal :: "string \<Rightarrow> string \<Rightarrow> int \<Rightarrow> normalized \<Rightarrow> gov_part \<Rightarrow> gov_part res" where
  "upsert_proposal chain realm height row part =
     (let r = \<lparr>pr_content = np_content row,
               pr_first = (case map_of (gt_props part) (np_id row) of None \<Rightarrow> height | Some old \<Rightarrow> pr_first old), pr_last = height\<rparr> in
      bindE (in_range (CHR 0x00 \<notin> set chain \<and> CHR 0x00 \<notin> set realm)) (\<lambda>_.
      bindE (checkE text_parameter (content_texts (np_content row))) (\<lambda>_.
      bindE (check_key chain realm height) (\<lambda>_.
      bindE (check_prop (np_id row) r) (\<lambda>_.
      Inr (part\<lparr>gt_props := AList.update (np_id row) r (gt_props part)\<rparr>))))))"

definition check_vote :: "ustr \<Rightarrow> gvote_row \<Rightarrow> unit res" where
  "check_vote key r =
     (let v = gw_content r in
      bindE (checkE text_parameter (vote_texts key v)) (\<lambda>_.
      bindE (in_range (vc_power v < 10 ^ 78)) (\<lambda>_.
      constraint ''governance_votes'' (nonempty_text key 1100 \<and> nonempty_text (vc_display v) 1000 \<and> opt_check is_address (vc_address v) \<and>
        vc_option v \<in> set VOTE_OPTIONS \<and> nonempty_text (vc_tier v) 64 \<and> 1 \<le> gw_first r \<and> gw_first r \<le> gw_last r))))"

text \<open>The index entry is made after the column checks and before the foreign key is looked at; a key that is stored was indexed before.\<close>

definition upsert_vote :: "(int \<Rightarrow> ustr \<Rightarrow> bool) \<Rightarrow> int \<Rightarrow> int \<Rightarrow> ustr \<times> vote_content \<Rightarrow> gov_part \<Rightarrow> gov_part res" where
  "upsert_vote fits height i = (\<lambda>(key, v) part.
     let r = \<lparr>gw_content = v,
              gw_first = (case map_of (gt_votes part) (i, key) of None \<Rightarrow> height | Some old \<Rightarrow> gw_first old), gw_last = height\<rparr> in
     bindE (check_vote key r) (\<lambda>_.
     bindE (guardE (fits i key) OperationalError) (\<lambda>_.
     bindE (constraint ''governance_votes_proposal_fkey'' (map_of (gt_props part) i \<noteq> None)) (\<lambda>_.
     Inr (part\<lparr>gt_votes := AList.update (i, key) r (gt_votes part)\<rparr>)))))"

text \<open>\<open>DELETE\<close> of the votes of a proposal whose key is not one of \<open>keys\<close>.\<close>

definition delete_votes :: "int \<Rightarrow> ustr list \<Rightarrow> gov_part \<Rightarrow> gov_part" where
  "delete_votes i keys part = part\<lparr>gt_votes := filter (\<lambda>((j, k), _). j \<noteq> i \<or> k \<in> set keys) (gt_votes part)\<rparr>"

definition upsert_sync :: "string \<Rightarrow> string \<Rightarrow> sync_row \<Rightarrow> gov_part \<Rightarrow> gov_part res" where
  "upsert_sync chain realm s part =
     bindE (check_key chain realm (sy_height s)) (\<lambda>_.
     bindE (in_range (opt_check int8 (sy_first_id s) \<and> opt_check int8 (sy_latest_id s))) (\<lambda>_.
     bindE (constraint ''governance_sync_state'' (1 \<le> sy_height s \<and> 1 \<le> sy_pages s \<and> sy_pages s \<le> 100 \<and> 0 \<le> sy_count s \<and> sy_count s \<le> 1000 \<and>
       (sy_count s = 0 \<and> sy_first_id s = None \<and> sy_latest_id s = None \<or>
        0 < sy_count s \<and> (case (sy_first_id s, sy_latest_id s) of (Some a, Some b) \<Rightarrow> 0 \<le> a \<and> a \<le> b | _ \<Rightarrow> False)))) (\<lambda>_.
     Inr (part\<lparr>gt_state := Some s\<rparr>))))"

section \<open>Full snapshots\<close>

record gov_result =
  gr_action :: string
  gr_source_height :: int
  gr_page_count :: nat
  gr_proposal_count :: nat
  gr_vote_count :: nat
  gr_inserted :: nat
  gr_updated :: nat

definition no_write :: "int \<Rightarrow> nat \<Rightarrow> nat \<Rightarrow> nat \<Rightarrow> gov_result" where
  "no_write height pages proposals votes = \<lparr>gr_action = ''unchanged'', gr_source_height = height, gr_page_count = pages,
     gr_proposal_count = proposals, gr_vote_count = votes, gr_inserted = 0, gr_updated = 0\<rparr>"

definition check_identity :: "gov_db \<Rightarrow> string \<Rightarrow> unit res" where
  "check_identity d chain = guardE (opt_check (\<lambda>x. x = chain) (gb_indexer_chain d))
     (GovernanceChainIdentityError ''indexer state belongs to another chain'')"

definition sync_of :: "int \<Rightarrow> nat \<Rightarrow> int list \<Rightarrow> sync_row" where
  "sync_of height pages ids = \<lparr>sy_height = height, sy_pages = int pages, sy_count = int (length ids),
     sy_first_id = (if ids = [] then None else Some (hd ids)), sy_latest_id = (if ids = [] then None else Some (last ids))\<rparr>"

definition status_allowed :: "string \<Rightarrow> string \<Rightarrow> bool" where
  "status_allowed old new \<longleftrightarrow> new = old \<or> new \<in> set (TRANSITIONS old)"

definition write_votes :: "(int \<Rightarrow> ustr \<Rightarrow> bool) \<Rightarrow> int \<Rightarrow> normalized \<Rightarrow> gov_part \<Rightarrow> gov_part res" where
  "write_votes fits height row part =
     (let keys = map fst (np_votes row);
          kept = (if keys \<noteq> [] then delete_votes (np_id row) keys part
                  else if pc_votes_status (np_content row) = ''empty'' then delete_votes (np_id row) [] part else part) in
      bindE (checkE text_parameter keys) (\<lambda>_. foldE (upsert_vote fits height (np_id row)) (np_votes row) kept))"

definition write_full_row :: "(int \<Rightarrow> ustr \<Rightarrow> bool) \<Rightarrow> string \<Rightarrow> string \<Rightarrow> int \<Rightarrow> (int \<times> prop_row) list \<Rightarrow> normalized \<Rightarrow> gov_part \<Rightarrow> gov_part res" where
  "write_full_row fits chain realm height stored row part =
     bindE (guardE (case map_of stored (np_id row) of None \<Rightarrow> True
                    | Some old \<Rightarrow> status_allowed (pc_status (pr_content old)) (pc_status (np_content row)))
              (GovernanceSnapshotConflict ''invalid governance status transition'')) (\<lambda>_.
     bindE (upsert_proposal chain realm height row part) (write_votes fits height row))"

definition apply_full ::
  "(int \<Rightarrow> ustr \<Rightarrow> bool) \<Rightarrow> (nat \<Rightarrow> ustr) \<Rightarrow> gov_discovery \<Rightarrow> normalized list \<Rightarrow> (int \<times> prop_row) list \<Rightarrow> gov_part \<Rightarrow> (gov_result \<times> gov_part) res" where
  "apply_full fits cf discovery rows stored part =
     (let source = gd_source discovery; chain = gs_chain_id source; realm = gs_realm_path source; height = gs_observed_height source;
          ids = map np_id rows; s = sync_of height (gd_page_count discovery) ids;
          inserted = length (filter (\<lambda>r. map_of stored (np_id r) = None) rows) in
      bindE (guardE (list_all (\<lambda>(i, _). i \<in> set ids) stored)
               (GovernanceSnapshotConflict ''a stored proposal is missing from newer snapshot'')) (\<lambda>_.
      bindE (foldE (write_full_row fits chain realm height stored) rows part) (\<lambda>p1.
      bindE (upsert_sync chain realm s p1) (\<lambda>p2.
      bindE (load_governance cf p2) (\<lambda>(verified_state, verified, verified_votes).
      bindE (gov_guard (verified_state = Some s \<and> stored_content verified verified_votes = content rows)
               ''post-write governance verification failed'') (\<lambda>_.
      Inr (\<lparr>gr_action = ''applied'', gr_source_height = height, gr_page_count = gd_page_count discovery, gr_proposal_count = length rows,
            gr_vote_count = length (snd (content rows)), gr_inserted = inserted, gr_updated = length rows - inserted\<rparr>, p2)))))))"

definition persist_governance_snapshot_cursor ::
  "(nat \<Rightarrow> ustr) \<Rightarrow> gov_discovery \<Rightarrow> string \<Rightarrow> gov_db \<Rightarrow> (gov_result \<times> gov_db) res" where
  "persist_governance_snapshot_cursor cf discovery expected_chain d =
     bindE (normalize_discovery cf discovery expected_chain) (\<lambda>rows.
     let source = gd_source discovery; chain = gs_chain_id source; realm = gs_realm_path source; height = gs_observed_height source;
         part = part_of d chain realm; s = sync_of height (gd_page_count discovery) (map np_id rows) in
     bindE (check_identity d chain) (\<lambda>_.
     bindE (load_governance cf part) (\<lambda>(state, stored, stored_votes).
     bindE (guardE (opt_check (\<lambda>st. sy_height st \<le> height) state) (StaleGovernanceSnapshot ''governance snapshot is stale'')) (\<lambda>_.
     if map_option sy_height state = Some height then
       (if state = Some s \<and> stored_content stored stored_votes = content rows
        then Inr (no_write height (gd_page_count discovery) (length rows) (length (snd (content rows))), d)
        else Inl (GovernanceSnapshotConflict ''same-height governance snapshot differs''))
     else bindE (apply_full (gb_key_fits d chain realm) cf discovery rows stored part) (\<lambda>(r, p). Inr (r, put_part d chain realm p))))))"

section \<open>Incremental refresh\<close>

definition open_status :: "string \<Rightarrow> bool" where
  "open_status s = (s = ''ACTIVE'' \<or> s = ''UNKNOWN'')"

definition select_governance_refresh_ids :: "gov_summary list \<Rightarrow> (int \<rightharpoonup> string) \<Rightarrow> int list" where
  "select_governance_refresh_ids summaries stored_statuses =
     sort (map gm_proposal_id (filter (\<lambda>m. (case stored_statuses (gm_proposal_id m) of None \<Rightarrow> True | Some old \<Rightarrow> open_status old) \<or>
       open_status (gm_status m)) summaries))"

definition final_incremental_raw_bytes :: "(int \<times> prop_row) list \<Rightarrow> normalized list \<Rightarrow> nat" where
  "final_incremental_raw_bytes stored rows =
     sum_list (map (\<lambda>(i, r). content_raw (pr_content r)) (filter (\<lambda>(i, _). i \<notin> set (map np_id rows)) stored)) +
     sum_list (map (\<lambda>r. content_raw (np_content r)) rows)"

definition add_target ::
  "gov_list_discovery \<Rightarrow> gov_discovery \<Rightarrow> (int \<times> gov_discovery) list \<Rightarrow> (int \<times> gov_discovery) list res" where
  "add_target listed discovery targets =
     bindE (gov_guard (gd_source discovery = gl_source listed) ''targeted discovery source mismatch'') (\<lambda>_.
     case gd_proposals discovery of
       [p] \<Rightarrow>
         bindE (gov_guard (gp_proposal_id p \<notin> set (map fst targets)) ''duplicate targeted discovery'') (\<lambda>_.
         bindE (gov_guard (gp_proposal_id p \<in> set (map gm_proposal_id (gl_proposals listed))) ''unrelated targeted discovery'') (\<lambda>_.
         Inr (targets @ [(gp_proposal_id p, discovery)])))
     | _ \<Rightarrow> Inl (GovernancePersistenceError ''targeted discovery must contain exactly one proposal''))"

definition summary_of :: "gov_list_discovery \<Rightarrow> int \<Rightarrow> gov_summary option" where
  "summary_of listed i = find (\<lambda>m. gm_proposal_id m = i) (gl_proposals listed)"

definition normalize_target ::
  "(nat \<Rightarrow> ustr) \<Rightarrow> gov_list_discovery \<Rightarrow> string \<Rightarrow> int \<times> gov_discovery \<Rightarrow> normalized res" where
  "normalize_target cf listed expected_chain = (\<lambda>(i, discovery).
     let candidate = \<lparr>gd_source = gl_source listed, gd_complete = True, gd_page_count = 1, gd_proposals = gd_proposals discovery,
                      gd_warnings = [], gd_raw_renders = gd_raw_renders discovery\<rparr> in
     bindE (normalize_discovery cf candidate expected_chain) (\<lambda>rows.
     let row = hd rows; listed_status = (case summary_of listed i of None \<Rightarrow> [] | Some m \<Rightarrow> gm_status m) in
     bindE (gov_guard (np_id row = i) ''targeted proposal ID mismatch'') (\<lambda>_.
     bindE (gov_guard (pc_status (np_content row) = listed_status \<or> listed_status = ''UNKNOWN'') ''targeted proposal status differs from list'') (\<lambda>_.
     Inr row))))"

definition summary_matches :: "gov_summary \<Rightarrow> prop_row \<Rightarrow> bool" where
  "summary_matches m r \<longleftrightarrow> (let c = pr_content r in gm_title m = pc_title c \<and> gm_author_display m = pc_author_display c \<and>
     gm_author_address m = pc_author_address c \<and> gm_status m = pc_status c \<and> gm_eligible_tiers m = pc_tiers c)"

definition same_height_check ::
  "gov_list_discovery \<Rightarrow> sync_row \<Rightarrow> (int \<times> prop_row) list \<Rightarrow> ((int \<times> ustr) \<times> gvote_row) list \<Rightarrow> int list \<Rightarrow> normalized list \<Rightarrow> unit res" where
  "same_height_check listed state stored stored_votes required rows =
     (let height = gs_observed_height (gl_source listed); targets = map np_id rows in
      bindE (guardE (state = sync_of height (gl_page_count listed) (sort (map gm_proposal_id (gl_proposals listed))))
               (GovernanceSnapshotConflict ''same-height governance list differs'')) (\<lambda>_.
      bindE (guardE (list_all (\<lambda>m. case map_of stored (gm_proposal_id m) of None \<Rightarrow> False | Some r \<Rightarrow> summary_matches m r) (gl_proposals listed))
               (GovernanceSnapshotConflict ''same-height governance list summary differs'')) (\<lambda>_.
      bindE (guardE (list_all (\<lambda>i. i \<in> set targets) required)
               (GovernanceSnapshotConflict ''selected proposal is missing targeted discovery'')) (\<lambda>_.
      bindE (guardE (list_all (\<lambda>i. i \<in> set required \<or> (case map_of stored i of None \<Rightarrow> False
                 | Some r \<Rightarrow> pc_status (pr_content r) \<in> {''ACCEPTED'', ''REJECTED''} \<and> pr_last r = height)) targets)
               (GovernanceSnapshotConflict ''unrelated targeted discovery'')) (\<lambda>_.
      guardE (list_all (\<lambda>row. stored_content (filter (\<lambda>(i, _). i = np_id row) stored) (filter (\<lambda>((i, _), _). i = np_id row) stored_votes) = content [row]) rows)
        (GovernanceSnapshotConflict ''same-height targeted content differs''))))))"

definition write_target :: "(int \<Rightarrow> ustr \<Rightarrow> bool) \<Rightarrow> string \<Rightarrow> string \<Rightarrow> int \<Rightarrow> normalized \<Rightarrow> gov_part \<Rightarrow> gov_part res" where
  "write_target fits chain realm height row part =
     bindE (upsert_proposal chain realm height row part) (\<lambda>p.
     bindE (checkE text_parameter (map fst (np_votes row))) (\<lambda>_.
     foldE (upsert_vote fits height (np_id row)) (np_votes row) (delete_votes (np_id row) (map fst (np_votes row)) p)))"

definition apply_incremental ::
  "(int \<Rightarrow> ustr \<Rightarrow> bool) \<Rightarrow> gov_list_discovery \<Rightarrow> (int \<times> prop_row) list \<Rightarrow> int list \<Rightarrow> normalized list \<Rightarrow> gov_part \<Rightarrow> (gov_result \<times> gov_part) res" where
  "apply_incremental fits listed stored required rows part =
     (let source = gl_source listed; chain = gs_chain_id source; realm = gs_realm_path source; height = gs_observed_height source;
          ids = sort (map gm_proposal_id (gl_proposals listed)); targets = map np_id rows;
          inserted = length (filter (\<lambda>r. map_of stored (np_id r) = None) rows) in
      bindE (guardE (list_all (\<lambda>(i, r). case summary_of listed i of None \<Rightarrow> False
                 | Some m \<Rightarrow> status_allowed (pc_status (pr_content r)) (gm_status m)) stored)
               (GovernanceSnapshotConflict ''invalid governance status transition'')) (\<lambda>_.
      bindE (gov_guard (set targets = set required)
               (if set targets - set required \<noteq> {} then ''unrelated targeted discovery''
                else ''selected proposal is missing targeted discovery'')) (\<lambda>_.
      bindE (foldE (write_target fits chain realm height) rows part) (\<lambda>p1.
      bindE (upsert_sync chain realm (sync_of height (gl_page_count listed) ids) p1) (\<lambda>p2.
      Inr (\<lparr>gr_action = ''applied'', gr_source_height = height, gr_page_count = gl_page_count listed, gr_proposal_count = length ids,
            gr_vote_count = sum_list (map (\<lambda>r. length (np_votes r)) rows), gr_inserted = inserted, gr_updated = length rows - inserted\<rparr>, p2))))))"

definition persist_governance_incremental_cursor ::
  "(nat \<Rightarrow> ustr) \<Rightarrow> gov_list_discovery \<Rightarrow> gov_discovery list \<Rightarrow> string \<Rightarrow> gov_db \<Rightarrow> (gov_result \<times> gov_db) res" where
  "persist_governance_incremental_cursor cf listed targeted expected_chain d =
     (let source = gl_source listed; chain = gs_chain_id source; realm = gs_realm_path source; height = gs_observed_height source;
          ids = map gm_proposal_id (gl_proposals listed); part = part_of d chain realm in
      bindE (guardE (gl_complete listed) (IncompleteGovernanceSnapshot ''only a complete list discovery may be persisted'')) (\<lambda>_.
      bindE (guardE (chain = expected_chain) (GovernanceChainIdentityError ''governance source chain does not match configured chain'')) (\<lambda>_.
      bindE (gov_guard (realm \<noteq> [] \<and> length realm \<le> 512) ''invalid governance realm'') (\<lambda>_.
      bindE (gov_guard (1 \<le> height) ''invalid governance source height'') (\<lambda>_.
      bindE (gov_guard (1 \<le> gl_page_count listed \<and> gl_page_count listed \<le> MAX_GOVERNANCE_PAGES) ''invalid list page count'') (\<lambda>_.
      bindE (gov_guard (distinct ids) ''duplicate proposal ID'') (\<lambda>_.
      bindE (gov_guard (length ids \<le> MAX_GOVERNANCE_PROPOSALS) ''invalid proposal collection'') (\<lambda>_.
      bindE (check_identity d chain) (\<lambda>_.
      bindE (load_governance cf part) (\<lambda>(state, stored, stored_votes).
      bindE (guardE (opt_check (\<lambda>st. sy_height st \<le> height) state) (StaleGovernanceSnapshot ''governance snapshot is stale'')) (\<lambda>_.
      bindE (guardE (list_all (\<lambda>(i, _). i \<in> set ids) stored)
               (GovernanceSnapshotConflict ''a stored proposal is missing from newer list'')) (\<lambda>_.
      bindE (foldE (add_target listed) targeted []) (\<lambda>targets.
      bindE (mapE (normalize_target cf listed expected_chain) targets) (\<lambda>rows.
      bindE (guardE (final_incremental_raw_bytes stored rows \<le> MAX_TOTAL_RAW_BYTES)
               (IncompleteGovernanceSnapshot ''final governance raw renders exceed total limit'')) (\<lambda>_.
      let required = select_governance_refresh_ids (gl_proposals listed) (map_option (\<lambda>r. pc_status (pr_content r)) \<circ> map_of stored) in
      if map_option sy_height state = Some height then
        bindE (same_height_check listed (the state) stored stored_votes required rows) (\<lambda>_.
        Inr (no_write height (gl_page_count listed) (length ids) (length stored_votes), d))
      else bindE (apply_incremental (gb_key_fits d chain realm) listed stored required rows part) (\<lambda>(r, p). Inr (r, put_part d chain realm p)))))))))))))))))"

end
