(* ===== verification/Py_Number.thy ===== *)
theory Py_Number
  imports Py_Text
begin

text \<open>
  Numbers read from text by \<open>float\<close>.
\<close>

section \<open>Reading a float\<close>

text \<open>
  \<open>float(s)\<close>: whitespace around, a sign, \<open>inf\<close>, \<open>infinity\<close> or \<open>nan\<close> in any case, or a decimal number with an
  optional fraction and exponent. The denoted rational is rounded to the nearest float.
\<close>

definition signed_part :: "string \<Rightarrow> bool \<times> string" where
  "signed_part s = (case s of c # r \<Rightarrow> if c = CHR ''-'' then (True, r) else if c = CHR ''+'' then (False, r) else (False, s)
     | [] \<Rightarrow> (False, []))"

definition fraction_value :: "string \<Rightarrow> rat" where
  "fraction_value ds = of_nat (nat_of_digits ds) * pow10 (- int (length ds))"

definition mantissa :: "string \<Rightarrow> rat option" where
  "mantissa m =
     (let a = takeWhile (\<lambda>c. c \<noteq> CHR ''.'') m; r = dropWhile (\<lambda>c. c \<noteq> CHR ''.'') m;
          whole = map_option (\<lambda>ds. of_nat (nat_of_digits ds)) (digit_run a);
          part = map_option fraction_value (digit_run (tl r)) in
      if r = [] \<or> (tl r = [] \<and> a \<noteq> []) then whole
      else if a = [] then part
      else (case (whole, part) of (Some x, Some y) \<Rightarrow> Some (x + y) | _ \<Rightarrow> None))"

definition exponent_value :: "string \<Rightarrow> int option" where
  "exponent_value s = (let (neg, ds) = signed_part s in
     map_option (\<lambda>ds. if neg then - int (nat_of_digits ds) else int (nat_of_digits ds)) (digit_run ds))"

definition is_exp_mark :: "char \<Rightarrow> bool" where
  "is_exp_mark c = (c = CHR ''e'' \<or> c = CHR ''E'')"

definition decimal_value :: "string \<Rightarrow> rat option" where
  "decimal_value s =
     (let m = takeWhile (\<lambda>c. \<not> is_exp_mark c) s; r = dropWhile (\<lambda>c. \<not> is_exp_mark c) s in
      case (mantissa m, if r = [] then Some 0 else exponent_value (tl r)) of
        (Some x, Some e) \<Rightarrow> Some (x * pow10 e)
      | _ \<Rightarrow> None)"

definition py_float_of_str :: "string \<Rightarrow> pyfloat option" where
  "py_float_of_str s =
     (let (neg, t) = signed_part (strip_by int_space s); word = py_lower t in
      if word = ''inf'' \<or> word = ''infinity'' then Some (if neg then NInf else PInf)
      else if word = ''nan'' then Some NaN
      else map_option (\<lambda>x. rnd (if neg then - x else x)) (decimal_value t))"

end
