(* ===== verification/Governance_Render.thy ===== *)
theory Governance_Render
  imports Governance_Persistence Valopers_Snapshot Py_Number
begin

text \<open>
  The document parsers of \<open>governance/gno.py\<close>. Each regular expression of the module is a matcher on a stripped line; the
  expressions leave one possible split into groups, except the lazy title of a header and the power of a vote group, where
  the matcher takes the split the backtracking search finds first. Tables of the Unicode standard are an argument:
  \<open>str.casefold\<close>, \<open>str.upper\<close>, the word characters of \<open>\b\<close> and the decimal digits of \<open>float\<close>.
\<close>

record unicode_tables =
  uc_fold :: "nat \<Rightarrow> ustr"
  uc_upper :: "nat \<Rightarrow> ustr"
  uc_word :: "nat \<Rightarrow> bool"
  uc_decimal :: "nat \<Rightarrow> nat option"

definition ufold :: "unicode_tables \<Rightarrow> ustr \<Rightarrow> ustr" where
  "ufold uc s = concat (map (uc_fold uc) s)"

definition uupper :: "unicode_tables \<Rightarrow> ustr \<Rightarrow> ustr" where
  "uupper uc s = concat (map (uc_upper uc) s)"

section \<open>Matching without case\<close>

text \<open>
  A literal under \<open>re.IGNORECASE\<close>: besides the two ASCII cases, the letters i, s and k also match the dotted and dotless i,
  the long s and the Kelvin sign.
\<close>

definition ascii_low :: "nat \<Rightarrow> nat" where
  "ascii_low c = (if 65 \<le> c \<and> c \<le> 90 then c + 32 else c)"

definition ci_char :: "nat \<Rightarrow> nat \<Rightarrow> bool" where
  "ci_char p c = (ascii_low c = ascii_low p \<or> (ascii_low p = 105 \<and> c \<in> {304, 305}) \<or> (ascii_low p = 115 \<and> c = 383) \<or>
     (ascii_low p = 107 \<and> c = 8490))"

fun ci_starts :: "ustr \<Rightarrow> ustr \<Rightarrow> bool" where
  "ci_starts s [] = True"
| "ci_starts [] (p # ps) = False"
| "ci_starts (c # s) (p # ps) = (ci_char p c \<and> ci_starts s ps)"

fun ci_occurs :: "ustr \<Rightarrow> ustr \<Rightarrow> bool" where
  "ci_occurs p [] = (p = [])"
| "ci_occurs p (c # s) = (ci_starts (c # s) p \<or> ci_occurs p s)"

definition ci_expect :: "ustr \<Rightarrow> ustr \<Rightarrow> ustr option" where
  "ci_expect p s = (if ci_starts s p then Some (drop (length p) s) else None)"

definition ci_full :: "ustr \<Rightarrow> ustr \<Rightarrow> bool" where
  "ci_full p s = (ci_expect p s = Some [])"

text \<open>The first alternative at the head of the text: the matched text and what follows it.\<close>

fun ci_label :: "ustr list \<Rightarrow> ustr \<Rightarrow> (ustr \<times> ustr) option" where
  "ci_label [] s = None"
| "ci_label (l # ls) s = (if ci_starts s l then Some (take (length l) s, drop (length l) s) else ci_label ls s)"

text \<open>\<open>\s+\<close> and the optional bullet \<open>(?:[-*]\s+)?\<close>, before a text that starts with neither.\<close>

definition skip_spaces :: "ustr \<Rightarrow> ustr option" where
  "skip_spaces s = (if s \<noteq> [] \<and> uspace (hd s) then Some (ulstrip s) else None)"

definition skip_bullet :: "ustr \<Rightarrow> ustr option" where
  "skip_bullet s = (if s \<noteq> [] \<and> (hd s = 45 \<or> hd s = 42) then skip_spaces (tl s) else Some s)"

definition is_dec :: "nat \<Rightarrow> bool" where
  "is_dec c = (48 \<le> c \<and> c \<le> 57)"

section \<open>Texts\<close>

fun unify_newlines :: "ustr \<Rightarrow> ustr" where
  "unify_newlines [] = []"
| "unify_newlines (c # s) =
     (if c = 13 then 10 # unify_newlines (if s \<noteq> [] \<and> hd s = 10 then tl s else s) else c # unify_newlines s)"

definition clip :: "nat \<Rightarrow> ustr \<Rightarrow> ustr" where
  "clip limit value = take limit (ustrip (filter (\<lambda>c. c \<noteq> 0) (unify_newlines value)))"

definition nonempty :: "ustr \<Rightarrow> ustr option" where
  "nonempty s = (if s = [] then None else Some s)"

definition MARKDOWN_ESCAPABLE :: ustr where
  "MARKDOWN_ESCAPABLE = [92, 96] @ u ''*_{}[]()#+-.!|>~''"

fun unescape_loop :: "ustr \<Rightarrow> ustr" where
  "unescape_loop (c # d # s) = (if c = 92 \<and> d \<in> set MARKDOWN_ESCAPABLE then d # unescape_loop s else c # unescape_loop (d # s))"
| "unescape_loop s = s"

definition unescape_markdown_text :: "ustr \<Rightarrow> ustr" where
  "unescape_markdown_text value = clip 1000 (unescape_loop (clip 1000 value))"

definition validate_size :: "ustr \<Rightarrow> unit res" where
  "validate_size render = guardE (utf8_size render \<le> MAX_GOV_RENDER_BYTES) (GovernanceParseError ''Governance render exceeds size limit'')"

definition render_lines :: "ustr \<Rightarrow> ustr list res" where
  "render_lines render = bindE (validate_size render) (\<lambda>_. Inr (usplit [10] [] (unify_newlines render)))"

definition parse_tiers :: "unicode_tables \<Rightarrow> ustr \<Rightarrow> ustr list" where
  "parse_tiers uc value = map (\<lambda>part. uupper uc (ustrip part)) (filter (\<lambda>part. ustrip part \<noteq> []) (usplit [44] [] value))"

text \<open>\<open>\[([^]]+)\]\([^)]+\)\<close> as a whole.\<close>

definition link_text :: "ustr \<Rightarrow> ustr option" where
  "link_text s =
     Option.bind (expect [91] s) (\<lambda>r.
     let body = takeWhile (\<lambda>c. c \<noteq> 93) r in
     Option.bind (expect [93, 40] (dropWhile (\<lambda>c. c \<noteq> 93) r)) (\<lambda>t.
     if body \<noteq> [] \<and> takeWhile (\<lambda>c. c \<noteq> 41) t \<noteq> [] \<and> dropWhile (\<lambda>c. c \<noteq> 41) t = [41] then Some body else None))"

text \<open>The first address with a word boundary on both sides; \<open>prev\<close>: the character before is a word character.\<close>

fun find_address :: "(nat \<Rightarrow> bool) \<Rightarrow> bool \<Rightarrow> ustr \<Rightarrow> ustr option" where
  "find_address word prev [] = None"
| "find_address word prev (c # s) =
     (case (if prev then None else take_address (c # s)) of
        Some (a, r) \<Rightarrow> if r \<noteq> [] \<and> word (hd r) then find_address word (word c) s else Some a
      | None \<Rightarrow> find_address word (word c) s)"

definition parse_display :: "unicode_tables \<Rightarrow> ustr \<Rightarrow> ustr option \<times> ustr option" where
  "parse_display uc value =
     (let v = clip 1000 value in
      (nonempty (clip 1000 (case link_text v of Some t \<Rightarrow> t | None \<Rightarrow> v)), find_address (uc_word uc) False v))"

section \<open>Headers and fields\<close>

text \<open>What may follow a title: an optional link target, then blanks.\<close>

definition title_end :: "ustr \<Rightarrow> bool" where
  "title_end r = (ublank r \<or>
     (case expect [93, 40] r of
        None \<Rightarrow> False
      | Some t \<Rightarrow> (case dropWhile (\<lambda>c. c \<noteq> 41) t of [] \<Rightarrow> False | _ # rest \<Rightarrow> ublank rest)))"

fun header_title :: "ustr \<Rightarrow> ustr \<Rightarrow> ustr option" where
  "header_title acc [] = (if acc = [] then None else Some (rev acc))"
| "header_title acc (c # s) = (if acc \<noteq> [] \<and> title_end (c # s) then Some (rev acc) else header_title (c # acc) s)"

text \<open>\<open>_HEADER\<close>: the digits of the id and the title.\<close>

definition match_header :: "ustr \<Rightarrow> (ustr \<times> ustr) option" where
  "match_header s =
     (let hashes = length (takeWhile (\<lambda>c. c = 35) s) in
      if hashes \<noteq> 2 \<and> hashes \<noteq> 3 then None
      else
        Option.bind (skip_spaces (drop hashes s)) (\<lambda>s1.
        Option.bind (ci_expect (u ''Prop'') (case expect [91] s1 of Some r \<Rightarrow> r | None \<Rightarrow> s1)) (\<lambda>s2.
        Option.bind (skip_spaces s2) (\<lambda>s3.
        Option.bind (expect [35] s3) (\<lambda>s4.
        let digits = takeWhile is_dec s4 in
        if digits = [] then None
        else
          Option.bind (expect [45] (ulstrip (dropWhile is_dec s4))) (\<lambda>s5.
          map_option (Pair digits) (header_title [] (ulstrip s5))))))))"

definition LIST_LABELS :: "ustr list" where
  "LIST_LABELS = [u ''Author'', u ''Status'', u ''Tiers eligible to vote'']"

text \<open>\<open>_LIST_FIELD\<close>: the label as written and the value.\<close>

definition match_list_field :: "ustr \<Rightarrow> (ustr \<times> ustr) option" where
  "match_list_field s =
     Option.bind (skip_bullet s) (\<lambda>s1.
     Option.bind (ci_label LIST_LABELS s1) (\<lambda>(label, s2).
     map_option (\<lambda>r. (label, ustrip r)) (expect [58] s2)))"

text \<open>
  \<open>values\<close> is indexed by the label in lower case. A label written with one of the extra letters never
  equals a name the code looks up, before and after lowering. The last occurrence wins.
\<close>

definition last_field :: "string \<Rightarrow> ustr list \<Rightarrow> ustr option" where
  "last_field name ls =
     (case filter (\<lambda>(label, _). ascii_lower label = u name) (List.map_filter (\<lambda>l. match_list_field (ustrip l)) ls) of
        [] \<Rightarrow> None
      | found \<Rightarrow> Some (snd (List.last found)))"

definition list_status :: "unicode_tables \<Rightarrow> ustr \<Rightarrow> string \<times> ustr option" where
  "list_status uc value =
     (case find (\<lambda>t. u t = uupper uc (ustrip value)) [''ACTIVE'', ''ACCEPTED'', ''REJECTED''] of
        Some status \<Rightarrow> (status, None)
      | None \<Rightarrow> (''UNKNOWN'', Some (u ''Unknown governance status: '' @ clip 100 value)))"

section \<open>List pages\<close>

definition is_header :: "ustr \<Rightarrow> bool" where
  "is_header line = (match_header (ustrip line) \<noteq> None)"

text \<open>Each header with the lines up to the next one.\<close>

fun list_sections :: "ustr list \<Rightarrow> ((ustr \<times> ustr) \<times> ustr list) list" where
  "list_sections [] = []"
| "list_sections (line # ls) =
     (case match_header (ustrip line) of
        None \<Rightarrow> list_sections ls
      | Some h \<Rightarrow> (h, takeWhile (\<lambda>l. \<not> is_header l) ls) # list_sections ls)"

definition parse_section :: "unicode_tables \<Rightarrow> (ustr \<times> ustr) \<times> ustr list \<Rightarrow> gov_summary res" where
  "parse_section uc = (\<lambda>((digits, title), ls).
     (case last_field ''status'' ls of
        None \<Rightarrow> Inl (GovernanceParseError ''Proposal '')
      | Some value \<Rightarrow>
          (let (status, warning) = list_status uc value;
               (author, address) = parse_display uc (case last_field ''author'' ls of Some v \<Rightarrow> v | None \<Rightarrow> []);
               tiers = parse_tiers uc (case last_field ''tiers eligible to vote'' ls of Some v \<Rightarrow> v | None \<Rightarrow> []) in
           bindE (digits_int digits) (\<lambda>i.
           Inr \<lparr>gm_proposal_id = int i, gm_title = unescape_markdown_text title, gm_author_display = author,
                gm_author_address = address, gm_status = status, gm_eligible_tiers = tiers,
                gm_parse_warnings = (case warning of Some w \<Rightarrow> [w] | None \<Rightarrow> [])\<rparr>))))"

definition add_summary :: "gov_summary \<Rightarrow> (int \<times> gov_summary) list \<Rightarrow> (int \<times> gov_summary) list res" where
  "add_summary p seen =
     (case map_of seen (gm_proposal_id p) of
        None \<Rightarrow> Inr (seen @ [(gm_proposal_id p, p)])
      | Some previous \<Rightarrow>
          bindE (guardE (previous = p) (GovernanceParseError ''Conflicting duplicate proposal ID '')) (\<lambda>_. Inr seen))"

definition parse_proposal_list :: "unicode_tables \<Rightarrow> ustr \<Rightarrow> (gov_summary list \<times> ustr list) res" where
  "parse_proposal_list uc render =
     bindE (render_lines render) (\<lambda>ls.
     bindE (mapE (parse_section uc) (list_sections ls)) (\<lambda>proposals.
     bindE (foldE add_summary proposals []) (\<lambda>seen.
     Inr (map snd seen, take MAX_WARNINGS (concat (map gm_parse_warnings proposals))))))"

text \<open>\<open>_LINK\<close> at the head of the text: the target and what follows.\<close>

definition link_at :: "ustr \<Rightarrow> (ustr \<times> ustr) option" where
  "link_at s =
     Option.bind (expect [91] s) (\<lambda>r.
     Option.bind (expect [93, 40] (dropWhile (\<lambda>c. c \<noteq> 93) r)) (\<lambda>t.
     let target = takeWhile (\<lambda>c. c \<noteq> 41) t; rest = dropWhile (\<lambda>c. c \<noteq> 41) t in
     if target = [] \<or> rest = [] then None else Some (target, tl rest)))"

lemma expect_length: "expect p s = Some r \<Longrightarrow> length r \<le> length s"
  by (simp add: expect_Some_iff)

lemma link_at_shorter: "link_at s = Some (target, rest) \<Longrightarrow> length rest < length s"
proof -
  assume "link_at s = Some (target, rest)"
  then obtain r t where r: "s = [91] @ r" and t: "dropWhile (\<lambda>c. c \<noteq> 93) r = [93, 40] @ t" and rest: "rest = tl (dropWhile (\<lambda>c. c \<noteq> 41) t)"
    by (auto simp: link_at_def Let_def expect_Some_iff split: Option.bind_splits if_splits)
  have "length (dropWhile (\<lambda>c. c \<noteq> 93) r) \<le> length r" "length (dropWhile (\<lambda>c. c \<noteq> 41) t) \<le> length t"
    by (rule length_dropWhile_le)+
  with r t rest show ?thesis by simp
qed

function find_links :: "ustr \<Rightarrow> ustr list" where
  "find_links [] = []"
| "find_links (c # s) =
     (case link_at (c # s) of
        Some (target, rest) \<Rightarrow> target # find_links rest
      | None \<Rightarrow> find_links s)"
  by pat_completeness auto
termination
  by (relation "measure length") (auto dest: link_at_shorter)

definition page_target :: "string \<Rightarrow> ustr \<Rightarrow> ustr option" where
  "page_target realm target =
     Option.bind (expect (u ''?page='') (case expect (u realm @ [58]) target of Some r \<Rightarrow> r | None \<Rightarrow> target)) (\<lambda>digits.
     if positive_decimal digits = None then None
     else Some (if digits = u ''1'' then [] else u ''?page='' @ digits))"

text \<open>\<open>list(dict.fromkeys(xs))\<close>: the first occurrences.\<close>

definition unique :: "'a list \<Rightarrow> 'a list" where
  "unique xs = rev (remdups (rev xs))"

definition pager_paths :: "ustr \<Rightarrow> string \<Rightarrow> ustr list res" where
  "pager_paths render realm =
     bindE (validate_size render) (\<lambda>_.
     Inr (unique (List.map_filter (\<lambda>target. page_target realm (ustrip target)) (find_links render))))"

section \<open>Details\<close>

text \<open>The dictionary \<open>parse_detail\<close> returns.\<close>

record detail_doc =
  dd_proposal_id :: int
  dd_title :: ustr
  dd_author_display :: "ustr option"
  dd_author_address :: "ustr option"
  dd_status :: string
  dd_eligible_tiers :: "ustr list"
  dd_description :: ustr
  dd_executor_text :: "ustr option"
  dd_executor_creation_realm :: "ustr option"
  dd_rejection_reason :: "ustr option"
  dd_percent :: "ustr \<Rightarrow> pyfloat option"
  dd_detail_parse_status :: string
  dd_warnings :: "ustr list"

definition slice :: "'a list \<Rightarrow> nat \<Rightarrow> nat \<Rightarrow> 'a list" where
  "slice xs a b = take (b - a) (drop a xs)"

definition SEPARATOR :: ustr where "SEPARATOR = u ''---''"
definition METADATA_LINE :: ustr where "METADATA_LINE = u ''This proposal contains the following metadata:''"
definition EXECUTOR_PREFIX :: ustr where "EXECUTOR_PREFIX = u ''Executor created in:''"

definition find_stats :: "unicode_tables \<Rightarrow> ustr list \<Rightarrow> nat \<Rightarrow> nat option" where
  "find_stats uc ls header = find (\<lambda>i. ufold uc (ustrip (ls ! i)) = u ''### stats'') (rev [Suc header..<length ls])"

definition find_separator :: "ustr list \<Rightarrow> nat \<Rightarrow> nat option \<Rightarrow> nat option" where
  "find_separator ls header stats =
     Option.bind stats (\<lambda>i. find (\<lambda>j. ustrip (ls ! j) = SEPARATOR) (rev [Suc header..<i]))"

definition find_stats_end :: "ustr list \<Rightarrow> nat \<Rightarrow> nat" where
  "find_stats_end ls stats =
     (case find (\<lambda>i. ustrip (ls ! i) = SEPARATOR \<or> ci_starts (ustrip (ls ! i)) (u ''[Detailed voting list]'')) [Suc stats..<length ls] of
        Some i \<Rightarrow> i
      | None \<Rightarrow> length ls)"

definition find_metadata :: "ustr list \<Rightarrow> nat \<Rightarrow> nat option" where
  "find_metadata ls header = find (\<lambda>i. ustrip (ls ! i) = METADATA_LINE) [Suc header..<length ls]"

definition find_author :: "unicode_tables \<Rightarrow> ustr list \<Rightarrow> ustr option \<times> ustr option" where
  "find_author uc ls =
     (case find (\<lambda>(label, _). ascii_lower label = u ''author'') (List.map_filter (\<lambda>l. match_list_field (ustrip l)) ls) of
        Some (_, value) \<Rightarrow> parse_display uc value
      | None \<Rightarrow> (None, None))"

definition body_start :: "ustr list \<Rightarrow> nat \<Rightarrow> nat" where
  "body_start ls header =
     Suc header + length (takeWhile (\<lambda>l. ublank l \<or> match_list_field (ustrip l) \<noteq> None) (drop (Suc header) ls))"

definition body_end :: "ustr list \<Rightarrow> nat option \<Rightarrow> nat option \<Rightarrow> nat option \<Rightarrow> nat" where
  "body_end ls metadata separator stats =
     (case metadata of Some i \<Rightarrow> i | None \<Rightarrow>
       (case separator of Some i \<Rightarrow> i | None \<Rightarrow>
         (case stats of Some i \<Rightarrow> i | None \<Rightarrow> length ls)))"

text \<open>The metadata block: the executor's text and the realm it was created in (the last such line counts).\<close>

definition parse_metadata :: "ustr list \<Rightarrow> nat \<Rightarrow> nat option \<Rightarrow> ustr option \<times> ustr option" where
  "parse_metadata ls metadata separator =
     (let stop = (case separator of Some i \<Rightarrow> if metadata < i then i else length ls | None \<Rightarrow> length ls);
          block = slice ls (Suc metadata) stop;
          is_realm = (\<lambda>l. starts_with (ustrip l) EXECUTOR_PREFIX);
          realms = map (\<lambda>l. nonempty (clip 1000 (drop (length EXECUTOR_PREFIX) (ustrip l)))) (filter is_realm block) in
      (nonempty (clip MAX_TEXT_CHARS (ujoin [10] (filter (\<lambda>l. \<not> is_realm l) block))),
       if realms = [] then None else List.last realms))"

definition detail_status :: "ustr \<Rightarrow> string" where
  "detail_status stats_text =
     (if ci_occurs (u ''PROPOSAL HAS BEEN ACCEPTED'') stats_text then ''ACCEPTED''
      else if ci_occurs (u ''PROPOSAL HAS BEEN DENIED'') stats_text then ''REJECTED''
      else if ci_occurs (u ''Proposal is open for votes'') stats_text then ''ACTIVE''
      else ''UNKNOWN'')"

text \<open>\<open>float\<close> of a text: Unicode digits and spaces become ASCII, any other character beyond ASCII is invalid.\<close>

definition float_char :: "unicode_tables \<Rightarrow> nat \<Rightarrow> char" where
  "float_char uc c =
     (if c < 128 then char_of c else if uspace c then CHR '' ''
      else case uc_decimal uc c of Some d \<Rightarrow> char_of (48 + d) | None \<Rightarrow> CHR ''?'')"

definition percent_value :: "unicode_tables \<Rightarrow> ustr \<Rightarrow> pyfloat" where
  "percent_value uc raw =
     (if raw \<noteq> [] \<and> List.last raw = 37
      then case py_float_of_str (map (float_char uc) (ustrip (butlast raw))) of Some f \<Rightarrow> f | None \<Rightarrow> NaN
      else NaN)"

definition match_percent :: "ustr \<Rightarrow> (ustr \<times> ustr) option" where
  "match_percent s =
     Option.bind (skip_bullet s) (\<lambda>s1.
     Option.bind (ci_label VOTE_OPTIONS s1) (\<lambda>(option, s2).
     Option.bind (skip_spaces s2) (\<lambda>s3.
     map_option (\<lambda>r. (option, ustrip r)) (ci_expect (u ''PERCENT:'') s3))))"

definition match_reason :: "ustr \<Rightarrow> ustr option" where
  "match_reason s = Option.bind (skip_bullet s) (\<lambda>s1. map_option ulstrip (ci_expect (u ''REASON:'') s1))"

record stats_acc =
  sa_tiers :: "ustr list"
  sa_reason :: "ustr option"
  sa_percent :: "ustr \<Rightarrow> pyfloat option"
  sa_warnings :: "ustr list"

definition stats_tiers :: "unicode_tables \<Rightarrow> ustr \<Rightarrow> stats_acc \<Rightarrow> stats_acc" where
  "stats_tiers uc s acc =
     (case match_list_field s of
        Some (label, value) \<Rightarrow>
          if ascii_lower label = u ''tiers eligible to vote'' then acc\<lparr>sa_tiers := parse_tiers uc value\<rparr> else acc
      | None \<Rightarrow> acc)"

definition stats_reason :: "ustr \<Rightarrow> stats_acc \<Rightarrow> stats_acc" where
  "stats_reason s acc =
     (case match_reason s of Some r \<Rightarrow> acc\<lparr>sa_reason := nonempty (clip 10000 r)\<rparr> | None \<Rightarrow> acc)"

definition stats_percent :: "unicode_tables \<Rightarrow> ustr \<Rightarrow> stats_acc \<Rightarrow> stats_acc" where
  "stats_percent uc s acc =
     (case match_percent s of
        Some (option, raw) \<Rightarrow>
          (case percent_value uc raw of
             Fin x \<Rightarrow> if 0 \<le> x \<and> x \<le> 100 then acc\<lparr>sa_percent := (sa_percent acc)(uupper uc option := Some (Fin x))\<rparr>
                     else acc\<lparr>sa_warnings := sa_warnings acc @ [u ''Invalid '' @ uupper uc option @ u '' percentage'']\<rparr>
           | _ \<Rightarrow> acc\<lparr>sa_warnings := sa_warnings acc @ [u ''Invalid '' @ uupper uc option @ u '' percentage'']\<rparr>)
      | None \<Rightarrow> acc)"

definition stats_line :: "unicode_tables \<Rightarrow> ustr \<Rightarrow> stats_acc \<Rightarrow> stats_acc" where
  "stats_line uc line acc =
     (let s = ustrip line in stats_percent uc s (stats_reason s (stats_tiers uc s acc)))"

definition parse_stats :: "unicode_tables \<Rightarrow> string \<Rightarrow> ustr list \<Rightarrow> stats_acc" where
  "parse_stats uc status ls =
     fold (stats_line uc) ls
       \<lparr>sa_tiers = [], sa_reason = None, sa_percent = (\<lambda>_. None),
        sa_warnings = (if status = ''UNKNOWN'' then [u ''Official proposal status section was not recognized''] else [])\<rparr>"

definition detail_at :: "unicode_tables \<Rightarrow> ustr list \<Rightarrow> nat \<Rightarrow> ustr \<Rightarrow> int \<Rightarrow> detail_doc" where
  "detail_at uc ls header title requested_id =
     (let stats = find_stats uc ls header;
          separator = find_separator ls header stats;
          metadata = find_metadata ls header;
          stats_lines = (case stats of Some i \<Rightarrow> slice ls (Suc i) (find_stats_end ls i) | None \<Rightarrow> []);
          (author, address) = find_author uc (drop (Suc header) ls);
          (executor_text, executor_realm) = (case metadata of Some i \<Rightarrow> parse_metadata ls i separator | None \<Rightarrow> (None, None));
          status = detail_status (ujoin [10] stats_lines);
          acc = parse_stats uc status stats_lines in
      \<lparr>dd_proposal_id = requested_id, dd_title = unescape_markdown_text title,
       dd_author_display = author, dd_author_address = address, dd_status = status, dd_eligible_tiers = sa_tiers acc,
       dd_description = clip MAX_TEXT_CHARS (ujoin [10] (slice ls (body_start ls header) (body_end ls metadata separator stats))),
       dd_executor_text = executor_text, dd_executor_creation_realm = executor_realm, dd_rejection_reason = sa_reason acc,
       dd_percent = sa_percent acc,
       dd_detail_parse_status = (if status \<noteq> ''UNKNOWN'' then ''parsed'' else ''partial''),
       dd_warnings = take MAX_WARNINGS (sa_warnings acc)\<rparr>)"

definition parse_detail :: "unicode_tables \<Rightarrow> ustr \<Rightarrow> int \<Rightarrow> detail_doc res" where
  "parse_detail uc render requested_id =
     bindE (render_lines render) (\<lambda>ls.
     case find (\<lambda>i. is_header (ls ! i)) [0..<length ls] of
       None \<Rightarrow> Inl (GovernanceParseError ''Proposal '')
     | Some header \<Rightarrow>
         (let (digits, title) = the (match_header (ustrip (ls ! header))) in
          bindE (digits_int digits) (\<lambda>i.
          bindE (guardE (int i = requested_id) (GovernanceParseError ''Proposal detail ID does not match requested ID '')) (\<lambda>_.
          Inr (detail_at uc ls header title requested_id)))))"

section \<open>Votes\<close>

definition is_vote_title :: "ustr \<Rightarrow> bool" where
  "is_vote_title s =
     (case Option.bind (expect [35] s) (\<lambda>s1.
           Option.bind (skip_spaces s1) (\<lambda>s2.
           Option.bind (ci_expect (u ''Proposal'') s2) (\<lambda>s3.
           Option.bind (skip_spaces s3) (\<lambda>s4.
           Option.bind (expect [35] s4) (\<lambda>s5.
           if takeWhile is_dec s5 = [] then None
           else Option.bind (skip_spaces (dropWhile is_dec s5)) (\<lambda>s6.
                Option.bind (expect [45] s6) (\<lambda>s7.
                Option.bind (skip_spaces s7) (\<lambda>s8.
                if ci_full (u ''Vote List'') s8 then Some () else None)))))))) of
        Some _ \<Rightarrow> True
      | None \<Rightarrow> False)"

definition is_no_votes :: "ustr \<Rightarrow> bool" where
  "is_no_votes s =
     list_ex (\<lambda>p. ci_full (u p) s \<or> ci_full (u p @ [46]) s) [''No one voted yet'', ''No votes'', ''No vote has been cast'']"

text \<open>
  The power of a group: after at least one space, everything up to a parenthesis; when nothing is left there, the
  search gives back the last of several spaces.
\<close>

definition match_power :: "ustr \<Rightarrow> (ustr \<times> ustr) option" where
  "match_power s =
     (let spaces = takeWhile uspace s; rest = dropWhile uspace s; body = takeWhile (\<lambda>c. c \<noteq> 40 \<and> c \<noteq> 41) rest in
      if spaces = [] then None
      else if body \<noteq> [] then Some (body, drop (length body) rest)
      else if 2 \<le> length spaces then Some ([List.last spaces], rest)
      else None)"

definition match_vote_group :: "ustr \<Rightarrow> (ustr \<times> ustr \<times> ustr) option" where
  "match_vote_group s =
     Option.bind (ci_label VOTE_OPTIONS s) (\<lambda>(option, s1).
     Option.bind (skip_spaces s1) (\<lambda>s2.
     Option.bind (ci_expect (u ''from'') s2) (\<lambda>s3.
     Option.bind (skip_spaces s3) (\<lambda>s4.
     let tier = takeWhile (\<lambda>c. \<not> uspace c) s4 in
     if tier = [] then None
     else Option.bind (skip_spaces (dropWhile (\<lambda>c. \<not> uspace c) s4)) (\<lambda>s5.
          Option.bind (ci_expect (u ''(VPPM'') s5) (\<lambda>s6.
          Option.bind (match_power s6) (\<lambda>(vp, s7).
          Option.bind (expect (u ''):'') s7) (\<lambda>s8.
          if ublank s8 then Some (option, tier, vp) else None))))))))"

record votes_acc =
  va_group :: "(ustr \<times> ustr \<times> ustr) option"
  va_votes :: "gov_vote list"
  va_invalid :: bool

definition vote_of :: "unicode_tables \<Rightarrow> ustr \<times> ustr \<times> ustr \<Rightarrow> ustr \<Rightarrow> gov_vote option" where
  "vote_of uc g s =
     (let (option, tier, vp) = g; (display, address) = parse_display uc (ustrip (drop 2 s)) in
      if \<not> (starts_with s (u ''- '') \<or> starts_with s (u ''* '')) then None
      else map_option (\<lambda>d. \<lparr>gv_voter_display = d, gv_voter_address = address, gv_option = option, gv_tier = tier,
                            gv_voting_power = vp\<rparr>) display)"

definition vote_line :: "unicode_tables \<Rightarrow> ustr \<Rightarrow> votes_acc \<Rightarrow> votes_acc" where
  "vote_line uc line acc =
     (let s = ustrip line in
      if s = [] \<or> is_vote_title s then acc
      else case match_vote_group s of
             Some (option, tier, vp) \<Rightarrow> acc\<lparr>va_group := Some (uupper uc option, clip 100 tier, clip 100 vp)\<rparr>
           | None \<Rightarrow>
               (case Option.bind (va_group acc) (\<lambda>g. vote_of uc g s) of
                  Some vote \<Rightarrow> acc\<lparr>va_votes := va_votes acc @ [vote]\<rparr>
                | None \<Rightarrow> acc\<lparr>va_invalid := True\<rparr>))"

definition parse_votes :: "unicode_tables \<Rightarrow> ustr \<Rightarrow> (string \<times> gov_vote list \<times> ustr list) res" where
  "parse_votes uc render =
     bindE (render_lines render) (\<lambda>ls.
     let content = filter (\<lambda>s. s \<noteq> [] \<and> \<not> is_vote_title s) (map ustrip ls) in
     if length content = 1 \<and> is_no_votes (hd content) then Inr (''empty'', [], [])
     else
       (let acc = fold (vote_line uc) ls \<lparr>va_group = None, va_votes = [], va_invalid = False\<rparr> in
        if va_votes acc \<noteq> [] \<and> \<not> va_invalid acc then Inr (''parsed'', va_votes acc, [])
        else Inr (''unparsed'', [], [u ''Votes render format was not recognized''])))"

end
