(* ===== verification/Governance_Discovery.thy ===== *)
theory Governance_Discovery
  imports Governance_Render Py_Effects "HOL-Library.AList"
begin

text \<open>
  The discovery of \<open>governance/gno.py\<close>: the bounded walk over the list pages at one height, then two documents per
  proposal, all through \<open>GnoRpcClient.abci_query\<close>. The client is an input as in \<open>Valopers_Snapshot\<close>: \<open>client n params\<close>
  is its answer to the n-th request, and the state is the number of requests made. The optional \<open>raw_sink\<close> is absent, as
  in the updater and in the persisting script.
\<close>

section \<open>ABCI queries\<close>

definition MAX_ABCI_RESPONSE_BYTES :: nat where
  "MAX_ABCI_RESPONSE_BYTES = 1048576"

text \<open>The reply of an ABCI query: subscripting raises \<open>KeyError\<close> or \<open>TypeError\<close> on any other shape.\<close>

definition abci_field :: "string \<Rightarrow> json \<Rightarrow> json res" where
  "abci_field k j =
     (case j of
        JObj kvs \<Rightarrow> (case map_of kvs k of Some v \<Rightarrow> Inr v | None \<Rightarrow> Inl (RpcError ''Malformed ABCI response''))
      | _ \<Rightarrow> Inl (RpcError ''Malformed ABCI response''))"

definition abci_text :: "json \<Rightarrow> ustr res" where
  "abci_text payload =
     bindE (abci_field ''result'' payload) (\<lambda>r.
     bindE (abci_field ''response'' r) (\<lambda>response.
     bindE (abci_field ''ResponseBase'' response) (\<lambda>base.
     bindE (abci_field ''Error'' base) (\<lambda>error.
     bindE (abci_field ''Data'' base) (\<lambda>data.
     bindE (guardE (error = JNull \<or> error = JStr []) (RpcError ''ABCI query returned an application error'')) (\<lambda>_.
     case data of
       JStr value \<Rightarrow>
         bindE (guardE (length value \<le> 4 * ((MAX_ABCI_RESPONSE_BYTES + 2) div 3))
                  (RpcError ''Malformed or oversized ABCI response data'')) (\<lambda>_.
         case b64decode value of
           None \<Rightarrow> Inl (RpcError ''Malformed ABCI response data'')
         | Some decoded \<Rightarrow>
             bindE (guardE (length decoded \<le> MAX_ABCI_RESPONSE_BYTES) (RpcError ''ABCI response exceeds size limit'')) (\<lambda>_.
             case utf8_decode decoded of
               None \<Rightarrow> Inl (RpcError ''ABCI response data is not UTF-8'')
             | Some text \<Rightarrow> Inr text))
     | _ \<Rightarrow> Inl (RpcError ''Malformed or oversized ABCI response data'')))))))"

definition abci_params :: "string \<Rightarrow> ustr \<Rightarrow> int \<Rightarrow> qrender_params" where
  "abci_params path data height =
     \<lparr>qp_path = json_dumps default_opts (JStr path), qp_data = json_dumps default_opts (JStr (b64encode (utf8_bytes data))),
      qp_height = height, qp_prove = ''false''\<rparr>"

definition abci_query :: "qclient \<Rightarrow> string \<Rightarrow> ustr \<Rightarrow> int \<Rightarrow> (nat, ustr) act" where
  "abci_query client path data height n =
     (if path = [] then (Inl (RpcError ''ABCI query path and string data are required''), n)
      else if height < 1 then (Inl (RpcError ''ABCI query height must be a positive integer''), n)
      else (bindE (client n (abci_params path data height)) abci_text, Suc n))"

definition query_render :: "qclient \<Rightarrow> gov_source \<Rightarrow> ustr \<Rightarrow> (nat, ustr) act" where
  "query_render client source path =
     bindS (abci_query client ''vm/qrender'' (u (gs_realm_path source) @ [58] @ path) (gs_observed_height source)) (\<lambda>render.
     bindS (liftS (validate_size render)) (\<lambda>_.
     retS render))"

section \<open>The walk over the list\<close>

record list_state =
  ld_queue :: "ustr list"
  ld_visited :: "ustr list"
  ld_pages :: nat
  ld_complete :: bool
  ld_warnings :: "ustr list"
  ld_summaries :: "(int \<times> gov_summary) list"
  ld_raw :: raw_renders
  ld_raw_bytes :: nat

definition page_name :: "ustr \<Rightarrow> string" where
  "page_name path = ''list/'' @ (if path = [] then ''root'' else map char_of path)"

definition list_fetch :: "qclient \<Rightarrow> gov_source \<Rightarrow> bool \<Rightarrow> ustr \<Rightarrow> list_state \<Rightarrow> (nat, ustr \<times> list_state) act" where
  "list_fetch client source capture_raw path st =
     bindS (query_render client source path) (\<lambda>render.
     if capture_raw then
       (let total = ld_raw_bytes st + utf8_size render in
        bindS (liftS (guardE (total \<le> MAX_TOTAL_RAW_BYTES) (GovernanceParseError ''Captured raw renders exceed total size limit''))) (\<lambda>_.
        retS (render, st\<lparr>ld_raw := AList.update (page_name path) render (ld_raw st), ld_raw_bytes := total\<rparr>)))
     else retS (render, st))"

text \<open>What a page adds once it is fetched.\<close>

definition list_accept :: "unicode_tables \<Rightarrow> gov_source \<Rightarrow> nat \<Rightarrow> ustr \<Rightarrow> ustr \<Rightarrow> list_state \<Rightarrow> list_state res" where
  "list_accept uc source max_proposals path render st =
     bindE (parse_proposal_list uc render) (\<lambda>(parsed, page_warnings).
     bindE (foldE add_summary parsed (ld_summaries st)) (\<lambda>summaries.
     bindE (guardE (length summaries \<le> max_proposals) (GovernanceParseError ''Governance proposal limit exceeded'')) (\<lambda>_.
     bindE (pager_paths render (gs_realm_path source)) (\<lambda>pages.
     let unrecognized = (pages = [] \<and> path = [] \<and> 5 \<le> length parsed) in
     Inr (st\<lparr>ld_queue := ld_queue st @ filter (\<lambda>p. p \<notin> set (ld_visited st)) pages,
             ld_pages := Suc (ld_pages st), ld_complete := ld_complete st \<and> \<not> unrecognized,
             ld_warnings := ld_warnings st @ page_warnings @
               (if unrecognized then [u ''Pagination format was not recognized; list may be incomplete''] else []),
             ld_summaries := summaries\<rparr>)))))"

definition list_page :: "unicode_tables \<Rightarrow> qclient \<Rightarrow> gov_source \<Rightarrow> nat \<Rightarrow> bool \<Rightarrow> ustr \<Rightarrow> list_state \<Rightarrow> (nat, list_state) act" where
  "list_page uc client source max_proposals capture_raw path st =
     bindS (list_fetch client source capture_raw path (st\<lparr>ld_visited := path # ld_visited st\<rparr>)) (\<lambda>(render, st1).
     liftS (list_accept uc source max_proposals path render st1))"

lemma list_fetch_frame:
  assumes "list_fetch client source capture_raw path st n = (Inr (render, st'), n')"
  shows "ld_pages st' = ld_pages st" "ld_visited st' = ld_visited st" "ld_queue st' = ld_queue st" "ld_complete st' = ld_complete st"
    "ld_summaries st' = ld_summaries st" "ld_warnings st' = ld_warnings st"
  using assms by (auto simp: list_fetch_def retS_def liftS_def bindS_def Let_def split: prod.splits sum.splits if_splits)

lemma list_page_Inr:
  assumes "list_page uc client source m capture_raw path st n = (Inr st', n')"
  obtains render st1 where "list_fetch client source capture_raw path (st\<lparr>ld_visited := path # ld_visited st\<rparr>) n = (Inr (render, st1), n')"
    and "list_accept uc source m path render st1 = Inr st'"
  using assms by (auto simp: list_page_def liftS_def elim!: bindS_snd)

lemma list_page_counts:
  assumes "list_page uc client source m capture_raw path st n = (Inr st', n')"
  shows "ld_pages st' = Suc (ld_pages st)"
proof -
  obtain render st1 where f: "list_fetch client source capture_raw path (st\<lparr>ld_visited := path # ld_visited st\<rparr>) n = (Inr (render, st1), n')"
    and a: "list_accept uc source m path render st1 = Inr st'" using assms by (rule list_page_Inr)
  from a have "ld_pages st' = Suc (ld_pages st1)" by (auto simp: list_accept_def bindE_Inr_iff Let_def split: prod.splits)
  with list_fetch_frame(1) [OF f] show ?thesis by simp
qed

function list_loop ::
  "unicode_tables \<Rightarrow> qclient \<Rightarrow> gov_source \<Rightarrow> nat \<Rightarrow> nat \<Rightarrow> bool \<Rightarrow> list_state \<Rightarrow> (nat, list_state) act" where
  "list_loop uc client source max_pages max_proposals capture_raw st n =
     (case ld_queue st of
        [] \<Rightarrow> (Inr st, n)
      | path # queue \<Rightarrow>
          if path \<in> set (ld_visited st) then
            list_loop uc client source max_pages max_proposals capture_raw (st\<lparr>ld_queue := queue\<rparr>) n
          else if max_pages \<le> ld_pages st then
            (Inr (st\<lparr>ld_queue := queue, ld_complete := False,
                     ld_warnings := ld_warnings st @ [u ''Governance page limit reached'']\<rparr>), n)
          else
            (case list_page uc client source max_proposals capture_raw path (st\<lparr>ld_queue := queue\<rparr>) n of
               (Inl e, n') \<Rightarrow> (Inl e, n')
             | (Inr st', n') \<Rightarrow> list_loop uc client source max_pages max_proposals capture_raw st' n'))"
  by pat_completeness auto
termination
  by (relation "measures [\<lambda>(_, _, _, max_pages, _, _, st, _). max_pages - ld_pages st, \<lambda>(_, _, _, _, _, _, st, _). length (ld_queue st)]")
    (auto dest!: list_page_counts [OF sym])

declare list_loop.simps [simp del]

definition start_state :: list_state where
  "start_state = \<lparr>ld_queue = [[]], ld_visited = [], ld_pages = 0, ld_complete = True, ld_warnings = [], ld_summaries = [], ld_raw = [],
     ld_raw_bytes = 0\<rparr>"

definition list_result :: "gov_source \<Rightarrow> list_state \<Rightarrow> gov_list_discovery" where
  "list_result source st =
     \<lparr>gl_source = source, gl_complete = ld_complete st, gl_page_count = ld_pages st,
      gl_proposals = map snd (rev (sort_key fst (ld_summaries st))),
      gl_warnings = take MAX_WARNINGS (ld_warnings st), gl_raw_renders = ld_raw st\<rparr>"

definition discover_governance_list ::
  "unicode_tables \<Rightarrow> qclient \<Rightarrow> gov_source \<Rightarrow> int \<Rightarrow> int \<Rightarrow> bool \<Rightarrow> (nat, gov_list_discovery) act" where
  "discover_governance_list uc client source max_pages max_proposals capture_raw =
     bindS (liftS (guardE (1 \<le> max_pages \<and> max_pages \<le> int MAX_GOVERNANCE_PAGES \<and> 1 \<le> max_proposals \<and> max_proposals \<le> int MAX_GOVERNANCE_PROPOSALS)
              (GovernanceParseError ''Discovery limits exceed hard safety limits''))) (\<lambda>_.
     bindS (list_loop uc client source (nat max_pages) (nat max_proposals) capture_raw start_state) (\<lambda>st.
     retS (list_result source st)))"

section \<open>One proposal\<close>

definition proposal_fetch :: "qclient \<Rightarrow> gov_source \<Rightarrow> bool \<Rightarrow> string \<Rightarrow> string \<Rightarrow> raw_renders \<Rightarrow> (nat, ustr \<times> raw_renders) act" where
  "proposal_fetch client source capture_raw name path raw =
     bindS (query_render client source (u path)) (\<lambda>render.
     if capture_raw then
       bindS (liftS (guardE (raw_total raw + utf8_size render \<le> MAX_TOTAL_RAW_BYTES)
                (GovernanceParseError ''Captured raw renders exceed total size limit''))) (\<lambda>_.
       retS (render, AList.update name render raw))
     else retS (render, raw))"

definition detail_notes :: "unicode_tables \<Rightarrow> gov_summary \<Rightarrow> detail_doc \<Rightarrow> ustr list" where
  "detail_notes uc summary detail =
     (if ufold uc (unescape_markdown_text (gm_title summary)) \<noteq> ufold uc (unescape_markdown_text (dd_title detail))
      then [u ''Proposal title differs between list and detail renders''] else []) @
     (if dd_status detail \<noteq> ''UNKNOWN'' \<and> gm_status summary \<noteq> ''UNKNOWN'' \<and> gm_status summary \<noteq> dd_status detail
      then [u ''Proposal status differs between list and detail renders''] else []) @
     (if dd_eligible_tiers detail \<noteq> [] \<and> gm_eligible_tiers summary \<noteq> [] \<and> gm_eligible_tiers summary \<noteq> dd_eligible_tiers detail
      then [u ''Eligible tiers differ between list and detail renders''] else [])"

definition merge_detail ::
  "unicode_tables \<Rightarrow> gov_summary \<Rightarrow> detail_doc \<Rightarrow> string \<Rightarrow> gov_vote list \<Rightarrow> ustr list \<Rightarrow> gov_proposal" where
  "merge_detail uc summary detail vote_status votes vote_warnings =
     \<lparr>gp_proposal_id = dd_proposal_id detail, gp_title = dd_title detail,
      gp_author_display = (if dd_author_display detail = None then gm_author_display summary else dd_author_display detail),
      gp_author_address = (if dd_author_display detail = None then gm_author_address summary else dd_author_address detail),
      gp_status = (if dd_status detail = ''UNKNOWN'' then gm_status summary else dd_status detail),
      gp_eligible_tiers = (if dd_eligible_tiers detail = [] then gm_eligible_tiers summary else dd_eligible_tiers detail),
      gp_description = dd_description detail, gp_executor_text = dd_executor_text detail,
      gp_executor_creation_realm = dd_executor_creation_realm detail, gp_rejection_reason = dd_rejection_reason detail,
      gp_yes_percent = dd_percent detail (u ''YES''), gp_no_percent = dd_percent detail (u ''NO''),
      gp_abstain_percent = dd_percent detail (u ''ABSTAIN''), gp_detail_parse_status = dd_detail_parse_status detail,
      gp_votes_parse_status = vote_status, gp_votes = votes,
      gp_parse_warnings = take MAX_WARNINGS (dd_warnings detail @ vote_warnings @ detail_notes uc summary detail)\<rparr>"

definition discover_governance_proposal ::
  "unicode_tables \<Rightarrow> qclient \<Rightarrow> gov_source \<Rightarrow> gov_summary \<Rightarrow> bool \<Rightarrow> (nat, gov_discovery) act" where
  "discover_governance_proposal uc client source summary capture_raw =
     (let i = gm_proposal_id summary in
      bindS (proposal_fetch client source capture_raw (raw_name i) (str_int i) []) (\<lambda>(render, raw).
      bindS (liftS (parse_detail uc render i)) (\<lambda>detail.
      bindS (proposal_fetch client source capture_raw (raw_votes_name i) (str_int i @ ''/votes'') raw) (\<lambda>(render, raw).
      bindS (liftS (parse_votes uc render)) (\<lambda>(vote_status, votes, vote_warnings).
      retS \<lparr>gd_source = source, gd_complete = True, gd_page_count = 0,
            gd_proposals = [merge_detail uc summary detail vote_status votes vote_warnings],
            gd_warnings = [], gd_raw_renders = raw\<rparr>)))))"

section \<open>The whole discovery\<close>

definition merge_raw :: "raw_renders \<Rightarrow> raw_renders \<Rightarrow> raw_renders" where
  "merge_raw found raw = fold (\<lambda>(k, v). AList.update k v) found raw"

fun discover_details ::
  "unicode_tables \<Rightarrow> qclient \<Rightarrow> gov_source \<Rightarrow> bool \<Rightarrow> gov_summary list \<Rightarrow> gov_proposal list \<Rightarrow> raw_renders \<Rightarrow>
   (nat, gov_proposal list \<times> raw_renders) act" where
  "discover_details uc client source capture_raw [] details raw = retS (details, raw)"
| "discover_details uc client source capture_raw (summary # summaries) details raw =
     bindS (discover_governance_proposal uc client source summary capture_raw) (\<lambda>found.
     let raw1 = merge_raw (gd_raw_renders found) raw in
     bindS (liftS (guardE (raw_total raw1 \<le> MAX_TOTAL_RAW_BYTES) (GovernanceParseError ''Captured raw renders exceed total size limit''))) (\<lambda>_.
     discover_details uc client source capture_raw summaries (details @ gd_proposals found) raw1))"

definition discover_governance ::
  "unicode_tables \<Rightarrow> qclient \<Rightarrow> gov_source \<Rightarrow> int \<Rightarrow> int \<Rightarrow> int option \<Rightarrow> bool \<Rightarrow> (nat, gov_discovery) act" where
  "discover_governance uc client source max_pages max_proposals proposal_id capture_raw =
     (case proposal_id of
        Some i \<Rightarrow>
          discover_governance_proposal uc client source
            \<lparr>gm_proposal_id = i, gm_title = u (''Proposal #'' @ str_int i), gm_author_display = None, gm_author_address = None,
             gm_status = ''UNKNOWN'', gm_eligible_tiers = [], gm_parse_warnings = []\<rparr> capture_raw
      | None \<Rightarrow>
          bindS (discover_governance_list uc client source max_pages max_proposals capture_raw) (\<lambda>listed.
          bindS (discover_details uc client source capture_raw (gl_proposals listed) [] (gl_raw_renders listed)) (\<lambda>(details, raw).
          retS \<lparr>gd_source = source, gd_complete = gl_complete listed, gd_page_count = gl_page_count listed, gd_proposals = details,
                gd_warnings = take MAX_WARNINGS (gl_warnings listed), gd_raw_renders = raw\<rparr>)))"

end
