(* ===== verification/Governance_Walk.thy ===== *)
theory Governance_Walk
  imports Governance_Discovery
begin

text \<open>
  What a walk over the list pages finds: with an endpoint whose answers depend on the request only, a complete walk has
  read exactly the pages that can be reached from the first one through pager links, each once, and its proposals are
  exactly those of these pages. Whatever the endpoint answers, the number of requests is bounded.
\<close>

section \<open>Pages of a stable endpoint\<close>

definition page_at :: "(qrender_params \<Rightarrow> json res) \<Rightarrow> gov_source \<Rightarrow> ustr \<Rightarrow> ustr res" where
  "page_at f source path = fst (query_render (\<lambda>_. f) source path 0)"

definition page_links :: "(qrender_params \<Rightarrow> json res) \<Rightarrow> gov_source \<Rightarrow> ustr \<Rightarrow> ustr list" where
  "page_links f source path =
     (case bindE (page_at f source path) (\<lambda>r. pager_paths r (gs_realm_path source)) of Inr ps \<Rightarrow> ps | Inl _ \<Rightarrow> [])"

definition page_proposals :: "unicode_tables \<Rightarrow> (qrender_params \<Rightarrow> json res) \<Rightarrow> gov_source \<Rightarrow> ustr \<Rightarrow> gov_summary list" where
  "page_proposals uc f source path =
     (case bindE (page_at f source path) (parse_proposal_list uc) of Inr (ps, _) \<Rightarrow> ps | Inl _ \<Rightarrow> [])"

inductive page_reached :: "(qrender_params \<Rightarrow> json res) \<Rightarrow> gov_source \<Rightarrow> ustr \<Rightarrow> bool" for f source where
  root: "page_reached f source []"
| link: "page_reached f source p \<Longrightarrow> q \<in> set (page_links f source p) \<Longrightarrow> page_reached f source q"

lemma query_render_stable: "query_render (\<lambda>_. f) source path n = (page_at f source path, if gs_observed_height source < 1 then n else Suc n)"
  by (simp add: page_at_def query_render_def abci_query_def bindS_def liftS_def retS_def split: sum.splits)

lemma list_fetch_stable:
  assumes "list_fetch (\<lambda>_. f) source capture_raw path st n = (Inr (render, st'), n')"
  shows "page_at f source path = Inr render" "n' = Suc n"
proof -
  have "page_at f source path = Inr render \<and> (gs_observed_height source < 1 \<longrightarrow> False) \<and> n' = Suc n"
    using assms
    by (auto simp: list_fetch_def query_render_stable bindS_def retS_def liftS_def Let_def page_at_def query_render_def abci_query_def
        split: sum.splits if_splits)
  then show "page_at f source path = Inr render" "n' = Suc n" by simp_all
qed

section \<open>Summaries by id\<close>

definition keyed :: "(int \<times> gov_summary) list \<Rightarrow> bool" where
  "keyed seen = (distinct (map fst seen) \<and> (\<forall>(i, s) \<in> set seen. gm_proposal_id s = i))"

lemma add_summary_keyed:
  assumes "add_summary p seen = Inr seen'" and "keyed seen"
  shows "keyed seen' \<and> snd ` set seen' = insert p (snd ` set seen)"
proof (cases "map_of seen (gm_proposal_id p)")
  case None
  with assms show ?thesis by (auto simp: add_summary_def keyed_def map_of_eq_None_iff)
next
  case (Some q)
  with assms have "seen' = seen" "q = p" by (auto simp: add_summary_def bindE_Inr_iff guardE_def split: if_splits)
  moreover have "p \<in> snd ` set seen" using Some \<open>q = p\<close> by (force dest: map_of_SomeD)
  ultimately show ?thesis using assms(2) by auto
qed

lemma add_summaries_keyed:
  "foldE add_summary ps seen = Inr seen' \<Longrightarrow> keyed seen \<Longrightarrow> keyed seen' \<and> snd ` set seen' = set ps \<union> snd ` set seen"
proof (induction ps arbitrary: seen)
  case (Cons p ps)
  then obtain mid where mid: "add_summary p seen = Inr mid" "foldE add_summary ps mid = Inr seen'" by (auto simp: bindE_Inr_iff)
  with add_summary_keyed [OF mid(1) Cons.prems(2)] Cons.IH [OF mid(2)] show ?case by auto
qed simp

section \<open>The walk\<close>

definition walk_inv :: "unicode_tables \<Rightarrow> (qrender_params \<Rightarrow> json res) \<Rightarrow> gov_source \<Rightarrow> list_state \<Rightarrow> bool" where
  "walk_inv uc f source st \<longleftrightarrow>
     distinct (ld_visited st) \<and> ld_pages st = length (ld_visited st) \<and> [] \<in> set (ld_visited st) \<union> set (ld_queue st) \<and>
     (\<forall>p \<in> set (ld_visited st) \<union> set (ld_queue st). page_reached f source p) \<and>
     (\<forall>p \<in> set (ld_visited st). set (page_links f source p) \<subseteq> set (ld_visited st) \<union> set (ld_queue st)) \<and>
     keyed (ld_summaries st) \<and>
     snd ` set (ld_summaries st) = (\<Union>p \<in> set (ld_visited st). set (page_proposals uc f source p))"

lemma walk_inv_skip:
  assumes "walk_inv uc f source st" and "ld_queue st = path # queue" and "path \<in> set (ld_visited st)"
  shows "walk_inv uc f source (st\<lparr>ld_queue := queue\<rparr>)"
  using assms unfolding walk_inv_def by auto

lemma list_page_effect:
  assumes "list_page uc (\<lambda>_. f) source m capture_raw path st n = (Inr st', n')"
  shows "n' = Suc n \<and> ld_visited st' = path # ld_visited st \<and> ld_pages st' = Suc (ld_pages st) \<and>
    ld_queue st' = ld_queue st @ filter (\<lambda>p. p \<notin> set (path # ld_visited st)) (page_links f source path) \<and>
    foldE add_summary (page_proposals uc f source path) (ld_summaries st) = Inr (ld_summaries st')"
proof -
  obtain render st1 where f: "list_fetch (\<lambda>_. f) source capture_raw path (st\<lparr>ld_visited := path # ld_visited st\<rparr>) n = (Inr (render, st1), n')"
    and a: "list_accept uc source m path render st1 = Inr st'" using assms by (rule list_page_Inr)
  have r: "page_at f source path = Inr render" and n: "n' = Suc n" by (rule list_fetch_stable [OF f])+
  from a obtain parsed pw pages where p: "parse_proposal_list uc render = Inr (parsed, pw)" and l: "pager_paths render (gs_realm_path source) = Inr pages"
    and s: "foldE add_summary parsed (ld_summaries st1) = Inr (ld_summaries st')" and "ld_visited st' = ld_visited st1"
      "ld_pages st' = Suc (ld_pages st1)" "ld_queue st' = ld_queue st1 @ filter (\<lambda>p. p \<notin> set (ld_visited st1)) pages"
    by (auto simp: list_accept_def bindE_Inr_iff Let_def)
  moreover have "page_links f source path = pages" "page_proposals uc f source path = parsed"
    using r p l by (simp_all add: page_links_def page_proposals_def)
  ultimately show ?thesis using n list_fetch_frame [OF f] by simp
qed

lemma walk_inv_page:
  assumes inv: "walk_inv uc f source st" and q: "ld_queue st = path # queue" and new: "path \<notin> set (ld_visited st)"
    and step: "list_page uc (\<lambda>_. f) source m capture_raw path (st\<lparr>ld_queue := queue\<rparr>) n = (Inr st', n')"
  shows "walk_inv uc f source st'"
proof -
  have e: "ld_visited st' = path # ld_visited st" "ld_pages st' = Suc (ld_pages st)"
      "ld_queue st' = queue @ filter (\<lambda>p. p \<notin> set (path # ld_visited st)) (page_links f source path)"
      "foldE add_summary (page_proposals uc f source path) (ld_summaries st) = Inr (ld_summaries st')"
    using list_page_effect [OF step] by simp_all
  have "keyed (ld_summaries st)" using inv by (simp add: walk_inv_def)
  note k = add_summaries_keyed [OF e(4) this]
  have "page_reached f source path" using inv q by (simp add: walk_inv_def)
  then have "\<forall>p \<in> set (page_links f source path). page_reached f source p" by (blast intro: page_reached.link)
  with inv q new k \<open>page_reached f source path\<close> show ?thesis
    unfolding walk_inv_def e(1-3) by auto
qed

lemma walk_inv_start: "walk_inv uc f source start_state"
  by (simp add: walk_inv_def start_state_def keyed_def page_reached.root)

lemma list_loop_walk:
  "list_loop uc (\<lambda>_. f) source mp mx capture_raw st n = (Inr st', n') \<Longrightarrow> walk_inv uc f source st \<Longrightarrow>
   (ld_complete st' \<longrightarrow> ld_queue st' = [] \<and> walk_inv uc f source st') \<and> n' + ld_pages st = n + ld_pages st'"
proof (induction uc "\<lambda>_ :: nat. f" source mp mx capture_raw st n rule: list_loop.induct)
  case (1 uc source mp mx capture_raw st n)
  note loop = "1.prems"(1) [unfolded list_loop.simps [of uc "\<lambda>_. f" source mp mx capture_raw st n]]
  show ?case
  proof (cases "ld_queue st")
    case Nil
    with loop "1.prems"(2) show ?thesis by auto
  next
    case (Cons path queue)
    consider (seen) "path \<in> set (ld_visited st)" | (limit) "path \<notin> set (ld_visited st)" "mp \<le> ld_pages st"
      | (page) "path \<notin> set (ld_visited st)" "\<not> mp \<le> ld_pages st" by blast
    then show ?thesis
    proof cases
      case seen
      with loop Cons have "list_loop uc (\<lambda>_. f) source mp mx capture_raw (st\<lparr>ld_queue := queue\<rparr>) n = (Inr st', n')" by simp
      from "1.hyps"(1) [OF Cons seen this walk_inv_skip [OF "1.prems"(2) Cons seen]] show ?thesis by simp
    next
      case limit
      with loop Cons show ?thesis by auto
    next
      case page
      with loop Cons obtain mid k where mid: "list_page uc (\<lambda>_. f) source mx capture_raw path (st\<lparr>ld_queue := queue\<rparr>) n = (Inr mid, k)"
        and rest: "list_loop uc (\<lambda>_. f) source mp mx capture_raw mid k = (Inr st', n')" by (auto split: prod.splits sum.splits)
      have "k = Suc n" "ld_pages mid = Suc (ld_pages st)" using list_page_effect [OF mid] by simp_all
      with "1.hyps"(2) [OF Cons page mid [symmetric] refl rest walk_inv_page [OF "1.prems"(2) Cons page(1) mid]] show ?thesis
        by simp
    qed
  qed
qed

section \<open>Bounds\<close>

lemma query_render_count: "snd (query_render client source path n) \<le> Suc n"
  by (simp add: query_render_def abci_query_def bindS_def liftS_def retS_def split: sum.splits prod.splits)

lemma bindS_count:
  assumes "snd (m n) \<le> a" and "\<And>x k. m n = (Inr x, k) \<Longrightarrow> k \<le> a \<Longrightarrow> snd (f x k) \<le> b" and "a \<le> b"
  shows "snd (bindS m f n) \<le> (b :: nat)"
  using assms by (cases "m n"; cases "fst (m n)") (auto simp: bindS_def)

lemma liftS_count [simp]: "snd (liftS r n) = n" "snd (retS x n) = n"
  by (simp_all add: liftS_def retS_def)

lemma list_page_count: "snd (list_page uc client source m capture_raw path st n) \<le> Suc n"
  unfolding list_page_def list_fetch_def
  by (rule bindS_count [where a = "Suc n"], rule bindS_count [where a = "Suc n"], rule query_render_count)
    (auto simp: bindS_def liftS_def retS_def Let_def split: sum.splits prod.splits)

lemma list_loop_count: "snd (list_loop uc client source mp mx capture_raw st n) \<le> n + (mp - ld_pages st)"
proof (induction uc client source mp mx capture_raw st n rule: list_loop.induct)
  case (1 uc client source mp mx capture_raw st n)
  show ?case
  proof (cases "ld_queue st")
    case (Cons path queue)
    show ?thesis
    proof (cases "path \<in> set (ld_visited st) \<or> mp \<le> ld_pages st")
      case True
      then show ?thesis using Cons "1.IH"(1) [OF Cons] by (auto simp: list_loop.simps [of uc client source mp mx capture_raw st n])
    next
      case False
      then have f: "path \<notin> set (ld_visited st)" "\<not> mp \<le> ld_pages st" by simp_all
      let ?page = "list_page uc client source mx capture_raw path (st\<lparr>ld_queue := queue\<rparr>) n"
      have c: "snd ?page \<le> Suc n" by (rule list_page_count)
      show ?thesis
      proof (cases "fst ?page")
        case (Inr mid)
        then obtain k where mid: "?page = (Inr mid, k)" by (cases ?page) auto
        have "snd (list_loop uc client source mp mx capture_raw mid k) \<le> k + (mp - ld_pages mid)"
          by (rule "1.IH"(2) [OF Cons f mid [symmetric] refl])
        then show ?thesis using Cons f mid c list_page_counts [OF mid]
          by (simp add: list_loop.simps [of uc client source mp mx capture_raw st n])
      next
        case (Inl e)
        then obtain k where "?page = (Inl e, k)" by (cases ?page) auto
        then show ?thesis using Cons f c by (simp add: list_loop.simps [of uc client source mp mx capture_raw st n])
      qed
    qed
  qed (simp add: list_loop.simps [of uc client source mp mx capture_raw st n])
qed

lemma list_page_summaries: "list_page uc client source mx capture_raw path st n = (Inr st', k) \<Longrightarrow> length (ld_summaries st') \<le> mx"
  by (erule list_page_Inr) (auto simp: list_accept_def bindE_Inr_iff guardE_Inr_iff Let_def)

text \<open>An invariant of the loop, for any endpoint.\<close>

lemma list_loop_invariant:
  assumes "list_loop uc client source mp mx capture_raw st n = (Inr st', k)" and "I st"
    and drop: "\<And>st q. I st \<Longrightarrow> I (st\<lparr>ld_queue := q\<rparr>)"
    and limit: "\<And>st q w. I st \<Longrightarrow> I (st\<lparr>ld_queue := q, ld_complete := False, ld_warnings := w\<rparr>)"
    and page: "\<And>path st n st' k. I st \<Longrightarrow> ld_pages st < mp \<Longrightarrow> list_page uc client source mx capture_raw path st n = (Inr st', k) \<Longrightarrow> I st'"
  shows "I st'"
  using assms
proof (induction uc client source mp mx capture_raw st n rule: list_loop.induct)
  case (1 uc client source mp mx capture_raw st n)
  show ?case
  proof (cases "ld_queue st")
    case (Cons path queue)
    let ?st = "st\<lparr>ld_queue := queue\<rparr>"
    have drop: "I ?st" using "1.prems"(2,3) by blast
    consider (seen) "path \<in> set (ld_visited st)" | (limit) "path \<notin> set (ld_visited st)" "mp \<le> ld_pages st"
      | (page) "path \<notin> set (ld_visited st)" "\<not> mp \<le> ld_pages st" by blast
    then show ?thesis
    proof cases
      case seen
      then have loop: "list_loop uc client source mp mx capture_raw ?st n = (Inr st', k)"
        using "1.prems"(1) Cons by (simp add: list_loop.simps [of uc client source mp mx capture_raw st n])
      show ?thesis by (rule "1.IH"(1) [OF Cons seen loop drop]) (erule "1.prems"(3), erule "1.prems"(4), erule (2) "1.prems"(5))
    next
      case limit
      then show ?thesis using "1.prems"(1,2,4) Cons by (auto simp: list_loop.simps [of uc client source mp mx capture_raw st n])
    next
      case page
      then obtain mid n1 where mid: "list_page uc client source mx capture_raw path ?st n = (Inr mid, n1)"
        and rest: "list_loop uc client source mp mx capture_raw mid n1 = (Inr st', k)"
        using "1.prems"(1) Cons
        by (auto simp: list_loop.simps [of uc client source mp mx capture_raw st n] split: prod.splits sum.splits)
      have next_inv: "I mid" by (rule "1.prems"(5) [OF drop _ mid]) (use page in simp)
      show ?thesis by (rule "1.IH"(2) [OF Cons page mid [symmetric] refl rest next_inv])
          (erule "1.prems"(3), erule "1.prems"(4), erule (2) "1.prems"(5))
    qed
  qed (use "1.prems"(1,2) in \<open>simp add: list_loop.simps [of uc client source mp mx capture_raw st n]\<close>)
qed

lemma list_loop_summaries:
  "list_loop uc client source mp mx capture_raw st n = (Inr st', k) \<Longrightarrow> length (ld_summaries st) \<le> mx \<Longrightarrow> length (ld_summaries st') \<le> mx"
  by (erule list_loop_invariant [where I = "\<lambda>st. length (ld_summaries st) \<le> mx"]) (simp_all add: list_page_summaries)

lemma proposal_fetch_count: "snd (proposal_fetch client source capture_raw name path raw n) \<le> Suc n"
  unfolding proposal_fetch_def
  by (rule bindS_count [where a = "Suc n"], rule query_render_count)
    (auto simp: bindS_def liftS_def retS_def split: sum.splits prod.splits)

lemma discover_proposal_count: "snd (discover_governance_proposal uc client source summary capture_raw n) \<le> n + 2"
  unfolding discover_governance_proposal_def Let_def
proof (rule bindS_count [where a = "Suc n"], rule proposal_fetch_count, split prod.split, intro allI impI)
  fix x k render raw assume k: "k \<le> Suc n"
  show "snd (bindS (liftS (parse_detail uc render (gm_proposal_id summary))) (\<lambda>detail.
     bindS (proposal_fetch client source capture_raw (raw_votes_name (gm_proposal_id summary)) (str_int (gm_proposal_id summary) @ ''/votes'') raw) (\<lambda>(render, raw).
     bindS (liftS (parse_votes uc render)) (\<lambda>(vote_status, votes, vote_warnings).
     retS \<lparr>gd_source = source, gd_complete = True, gd_page_count = 0,
            gd_proposals = [merge_detail uc summary detail vote_status votes vote_warnings],
            gd_warnings = [], gd_raw_renders = raw\<rparr>))) k) \<le> n + 2"
    by (rule bindS_count [where a = k], simp, rule bindS_count [where a = "Suc k"])
      (use k in \<open>auto simp: liftS_def intro: le_trans [OF proposal_fetch_count] intro!: bindS_count split: prod.splits\<close>)
qed simp

lemma discover_details_count:
  "snd (discover_details uc client source capture_raw summaries details raw n) \<le> n + 2 * length summaries"
proof (induction summaries arbitrary: details raw n)
  case (Cons s ss)
  show ?case unfolding discover_details.simps Let_def
    by (rule bindS_count [where a = "n + 2"], rule discover_proposal_count)
      (auto simp: bindS_def liftS_def split: sum.splits intro: le_trans [OF Cons.IH])
qed simp

section \<open>Replies\<close>

text \<open>A well-formed reply that carries a text.\<close>

definition abci_reply :: "ustr \<Rightarrow> json" where
  "abci_reply t = JObj [(''result'', JObj [(''response'', JObj [(''ResponseBase'', JObj [(''Error'', JNull), (''Data'', JStr (b64encode (utf8_bytes t)))])])])]"

lemma abci_reply_text:
  assumes "list_all scalar t" and "utf8_size t \<le> MAX_ABCI_RESPONSE_BYTES"
  shows "abci_text (abci_reply t) = Inr t"
proof -
  have "length (b64encode (utf8_bytes t)) \<le> 4 * ((MAX_ABCI_RESPONSE_BYTES + 2) div 3)"
    using assms(2) by (simp add: length_b64encode utf8_size_def div_le_mono)
  then show ?thesis using assms utf8_round_trip [OF assms(1)]
    by (simp add: abci_text_def abci_reply_def abci_field_def b64_round_trip utf8_size_def)
qed

lemma page_at_reply:
  assumes "f (abci_params ''vm/qrender'' (u (gs_realm_path source) @ [58] @ path) (gs_observed_height source)) = Inr (abci_reply t)"
    and "list_all scalar t" and "utf8_size t \<le> MAX_ABCI_RESPONSE_BYTES" and "1 \<le> gs_observed_height source"
  shows "page_at f source path = Inr t"
  using assms abci_reply_text [OF assms(2,3)]
  by (simp add: page_at_def query_render_def abci_query_def bindS_def liftS_def retS_def validate_size_def MAX_GOV_RENDER_BYTES_def
      MAX_ABCI_RESPONSE_BYTES_def guardE_def)

section \<open>Results\<close>

lemma sorted_summaries:
  assumes "keyed ss"
  shows "sorted_wrt (\<lambda>a b. gm_proposal_id b < gm_proposal_id a) (map snd (rev (sort_key fst ss)))"
proof -
  have d: "distinct (map fst (sort_key fst ss))" using assms by (simp add: keyed_def distinct_map inj_on_def)
  then have "sorted_wrt (<) (map fst (sort_key fst ss))" by (simp add: strict_sorted_iff)
  then have "sorted_wrt (\<lambda>a b. fst a < fst b) (sort_key fst ss)" by (simp add: sorted_wrt_map)
  moreover have "\<forall>x \<in> set (sort_key fst ss). gm_proposal_id (snd x) = fst x" using assms by (auto simp: keyed_def)
  ultimately have "sorted_wrt (\<lambda>a b. gm_proposal_id (snd a) < gm_proposal_id (snd b)) (sort_key fst ss)"
    by (metis (no_types, lifting) sorted_wrt_mono_rel)
  then show ?thesis by (simp add: sorted_wrt_map sorted_wrt_rev rev_map [symmetric])
qed

lemma discover_list_Inr:
  assumes "discover_governance_list uc client source mp mx capture_raw n = (Inr d, n')"
  obtains st where "list_loop uc client source (nat mp) (nat mx) capture_raw start_state n = (Inr st, n')" and "d = list_result source st"
    and "1 \<le> mp" "mp \<le> 100" "1 \<le> mx" "mx \<le> 1000"
  using assms
  by (auto simp: discover_governance_list_def liftS_def retS_def guardE_Inr_iff MAX_GOVERNANCE_PAGES_def MAX_GOVERNANCE_PROPOSALS_def
      elim!: bindS_snd)

lemma walk_complete:
  assumes "walk_inv uc f source st" and "ld_queue st = []"
  shows "set (ld_visited st) = {p. page_reached f source p}"
proof -
  have "p \<in> set (ld_visited st)" if "page_reached f source p" for p
    using that by (induction rule: page_reached.induct) (use assms in \<open>auto simp: walk_inv_def\<close>)
  then show ?thesis using assms by (auto simp: walk_inv_def)
qed

text \<open>C39: With an endpoint that answers each request the same way, a complete list discovery has read exactly the pages that can
  be reached from the first one through pager links, each with one request; its proposals are exactly those of these
  pages, in strictly decreasing order of their ids.\<close>

theorem list_discovery_exact:
  assumes "discover_governance_list uc (\<lambda>_. f) source mp mx capture_raw n = (Inr d, n')" and "gl_complete d"
  shows "finite {p. page_reached f source p} \<and> gl_page_count d = card {p. page_reached f source p} \<and> n' = n + gl_page_count d \<and>
    set (gl_proposals d) = (\<Union>p \<in> {p. page_reached f source p}. set (page_proposals uc f source p)) \<and>
    sorted_wrt (\<lambda>a b. gm_proposal_id b < gm_proposal_id a) (gl_proposals d)"
proof -
  obtain st where loop: "list_loop uc (\<lambda>_. f) source (nat mp) (nat mx) capture_raw start_state n = (Inr st, n')" and d: "d = list_result source st"
    using assms(1) by (rule discover_list_Inr)
  have "ld_complete st" using assms(2) d by (simp add: list_result_def)
  with list_loop_walk [OF loop walk_inv_start] have q: "ld_queue st = []" and inv: "walk_inv uc f source st" and n: "n' = n + ld_pages st"
    by (simp_all add: start_state_def)
  note v = walk_complete [OF inv q]
  have "card {p. page_reached f source p} = ld_pages st" using inv v [symmetric] by (simp add: walk_inv_def distinct_card)
  moreover have "finite {p. page_reached f source p}" using v [symmetric] by simp
  moreover have "set (gl_proposals d) = (\<Union>p \<in> {p. page_reached f source p}. set (page_proposals uc f source p))"
    using inv v [symmetric] by (simp add: d list_result_def walk_inv_def)
  moreover have "sorted_wrt (\<lambda>a b. gm_proposal_id b < gm_proposal_id a) (gl_proposals d)"
    using inv sorted_summaries by (simp add: d list_result_def walk_inv_def)
  ultimately show ?thesis using n d by (simp add: list_result_def)
qed

section \<open>A list of one page\<close>

definition sample_tables :: unicode_tables where
  "sample_tables = \<lparr>uc_fold = (\<lambda>c. [ascii_low c]), uc_upper = (\<lambda>c. [if 97 \<le> c \<and> c \<le> 122 then c - 32 else c]),
     uc_word = (\<lambda>c. ascii_alnum c \<or> c = 95), uc_decimal = (\<lambda>_. None)\<rparr>"

definition walk_source :: gov_source where
  "walk_source = \<lparr>gs_chain_id = ''pearl-1'', gs_rpc_url = ''http://node'', gs_observed_height = 9, gs_realm_path = ''gno.land/r/gov/dao''\<rparr>"

definition walk_page :: ustr where
  "walk_page = u ''## Prop #1 - A'' @ [10] @ u ''Status: ACTIVE''"

definition walk_answer :: "qrender_params \<Rightarrow> json res" where
  "walk_answer params = Inr (abci_reply walk_page)"

definition walk_summary :: gov_summary where
  "walk_summary = \<lparr>gm_proposal_id = 1, gm_title = u ''A'', gm_author_display = None, gm_author_address = None, gm_status = ''ACTIVE'',
     gm_eligible_tiers = [], gm_parse_warnings = []\<rparr>"

lemma sample_page_size: "list_all scalar walk_page" "utf8_size walk_page \<le> MAX_ABCI_RESPONSE_BYTES" "validate_size walk_page = Inr ()"
  by (simp_all add: walk_page_def scalar_def utf8_size_def utf8_bytes_def utf8_char_def MAX_ABCI_RESPONSE_BYTES_def validate_size_def
      MAX_GOV_RENDER_BYTES_def guardE_def)

lemma sample_page_lines: "render_lines walk_page = Inr [u ''## Prop #1 - A'', u ''Status: ACTIVE'']"
  by (simp add: render_lines_def sample_page_size(3)) (simp add: walk_page_def)

lemma walk_header: "match_header (ustrip (u ''## Prop #1 - A'')) = Some (u ''1'', u ''A'')"
  by (simp add: match_header_def ustrip_def uspace_def skip_spaces_def ulstrip_def ci_expect_def ci_char_def ascii_low_def expect_def
      is_dec_def title_end_def ublank_def Let_def)

lemma sample_field: "match_list_field (ustrip (u ''Status: ACTIVE'')) = Some (u ''Status'', u ''ACTIVE'')"
    "match_header (ustrip (u ''Status: ACTIVE'')) = None"
  by (simp_all add: match_list_field_def match_header_def ustrip_def uspace_def skip_bullet_def LIST_LABELS_def ci_char_def ascii_low_def
      expect_def)

lemma sample_parsed: "parse_proposal_list sample_tables walk_page = Inr ([walk_summary], [])"
proof -
  have "list_sections [u ''## Prop #1 - A'', u ''Status: ACTIVE''] = [((u ''1'', u ''A''), [u ''Status: ACTIVE''])]"
    using walk_header sample_field by (simp add: is_header_def del: u_simps)
  moreover have "parse_section sample_tables ((u ''1'', u ''A''), [u ''Status: ACTIVE'']) = Inr walk_summary"
    using sample_field
    by (simp add: parse_section_def last_field_def List.map_filter_def del: u_simps)
      (simp add: ascii_lower_def list_status_def uupper_def sample_tables_def ustrip_def uspace_def parse_display_def parse_tiers_def
        clip_def nonempty_def link_text_def expect_def digits_int_def max_str_digits_def decimal_text_def unescape_markdown_text_def
        walk_summary_def)
  ultimately show ?thesis
    by (simp add: parse_proposal_list_def sample_page_lines add_summary_def MAX_WARNINGS_def walk_summary_def del: u_simps)
qed

lemma sample_links: "pager_paths walk_page realm = Inr []"
  by (simp add: pager_paths_def sample_page_size(3))
    (simp add: walk_page_def link_at_def expect_def unique_def List.map_filter_def)

lemma walk_list:
  "discover_governance_list sample_tables (\<lambda>_. walk_answer) walk_source 100 1000 False 0 =
     (Inr \<lparr>gl_source = walk_source, gl_complete = True, gl_page_count = 1, gl_proposals = [walk_summary], gl_warnings = [],
           gl_raw_renders = []\<rparr>, 1)"
proof -
  have "page_at walk_answer walk_source [] = Inr walk_page"
    by (rule page_at_reply) (simp_all add: walk_answer_def sample_page_size walk_source_def)
  then have "list_page sample_tables (\<lambda>_. walk_answer) walk_source 1000 False [] (start_state\<lparr>ld_queue := []\<rparr>) 0 =
      (Inr (start_state\<lparr>ld_queue := [], ld_visited := [[]], ld_pages := 1, ld_summaries := [(1, walk_summary)]\<rparr>), 1)"
    by (simp add: list_page_def list_fetch_def query_render_stable list_accept_def sample_parsed sample_links bindS_def liftS_def
        retS_def walk_source_def start_state_def add_summary_def guardE_def)
      (simp add: walk_summary_def)
  then show ?thesis
    by (simp add: discover_governance_list_def liftS_def bindS_def retS_def guardE_def MAX_GOVERNANCE_PAGES_def MAX_GOVERNANCE_PROPOSALS_def
        list_loop.simps start_state_def list_result_def)
qed

theorem list_discovery_exact_witness:
  "1 = card {p. page_reached walk_answer walk_source p} \<and>
   {walk_summary} = (\<Union>p \<in> {p. page_reached walk_answer walk_source p}. set (page_proposals sample_tables walk_answer walk_source p))"
  using list_discovery_exact [OF walk_list] by simp

lemma discover_list_count: "snd (discover_governance_list uc client source mp mx capture_raw n) \<le> n + 100"
  unfolding discover_governance_list_def
proof (rule bindS_count [where a = n])
  fix x k assume "liftS (guardE (1 \<le> mp \<and> mp \<le> int MAX_GOVERNANCE_PAGES \<and> 1 \<le> mx \<and> mx \<le> int MAX_GOVERNANCE_PROPOSALS)
      (GovernanceParseError ''Discovery limits exceed hard safety limits'')) n = (Inr x, k)"
  then have "k = n" "mp \<le> 100" by (auto simp: liftS_def guardE_Inr_iff MAX_GOVERNANCE_PAGES_def)
  then have "snd (list_loop uc client source (nat mp) (nat mx) capture_raw start_state k) \<le> n + 100"
    using list_loop_count [of uc client source "nat mp" "nat mx" capture_raw start_state n] by (simp add: start_state_def)
  then show "snd (bindS (list_loop uc client source (nat mp) (nat mx) capture_raw start_state) (\<lambda>st. retS (list_result source st)) k) \<le> n + 100"
    by (rule bindS_count) simp_all
qed simp_all

text \<open>Whatever the endpoint answers, a discovery makes at most 2100 requests: a hundred list pages and two documents for each
  of a thousand proposals.\<close>

theorem discovery_requests_bounded: "snd (discover_governance uc client source mp mx proposal capture_raw 0) \<le> 2100"
proof (cases proposal)
  case None
  show ?thesis unfolding discover_governance_def None option.case
  proof (rule bindS_count [where a = 100])
    fix listed k assume l: "discover_governance_list uc client source mp mx capture_raw 0 = (Inr listed, k)" and k: "k \<le> 100"
    obtain st where loop: "list_loop uc client source (nat mp) (nat mx) capture_raw start_state 0 = (Inr st, k)"
      and "listed = list_result source st" "mx \<le> 1000" using l by (rule discover_list_Inr) blast
    moreover have "length (ld_summaries st) \<le> nat mx" by (rule list_loop_summaries [OF loop]) (simp add: start_state_def)
    ultimately have "length (gl_proposals listed) \<le> 1000" by (simp add: list_result_def)
    then have "snd (discover_details uc client source capture_raw (gl_proposals listed) [] (gl_raw_renders listed) k) \<le> 2100"
      using discover_details_count [of uc client source capture_raw "gl_proposals listed" "[]" "gl_raw_renders listed" k] k by linarith
    then show "snd (bindS (discover_details uc client source capture_raw (gl_proposals listed) [] (gl_raw_renders listed)) (\<lambda>(details, raw).
        retS \<lparr>gd_source = source, gd_complete = gl_complete listed, gd_page_count = gl_page_count listed, gd_proposals = details,
              gd_warnings = take MAX_WARNINGS (gl_warnings listed), gd_raw_renders = raw\<rparr>) k) \<le> 2100"
      by (rule bindS_count) (auto split: prod.splits)
  qed (use discover_list_count [of uc client source mp mx capture_raw 0] in simp_all)
next
  case (Some i)
  then show ?thesis by (simp add: discover_governance_def le_trans [OF discover_proposal_count])
qed

end
