(* ===== verification/Governance_Store.thy ===== *)
theory Governance_Store
  imports Governance_Persistence
begin

text \<open>
  What the governance writers do to the stored tables: facts on validated proposals, the effect of a written proposal on
  the tables read as maps, and the conditions under which stored rows are accepted when they are read again.
\<close>

section \<open>Validated proposals\<close>

lemma gov_guard_Inr [res_simps]: "gov_guard b m = Inr x \<longleftrightarrow> b"
  by (simp add: gov_guard_def res_simps)

lemma percentage_valid: "percentage v = Inr p \<Longrightarrow> valid_percent p"
  by (auto simp: percentage_def valid_percent_def opt_check_def Let_def res_simps split: option.splits pyfloat.splits)

text \<open>\<open>Ci\<close>: what is true of the votes of a proposal while they are collected.\<close>

definition votes_inv :: "(nat \<Rightarrow> ustr) \<Rightarrow> (ustr \<times> vote_content) list \<Rightarrow> bool" where
  "votes_inv cf vs \<longleftrightarrow> distinct (map fst vs) \<and> (\<forall>(k, v) \<in> set vs. valid_vote cf k v)"

lemma power_value_acc: "foldl (\<lambda>a c. a * 10 + (c - 48)) x s < (x + 1 :: nat) * 10 ^ length s" if "list_all (\<lambda>c. 48 \<le> c \<and> c \<le> 57) s"
  using that
proof (induction s arbitrary: x)
  case (Cons c s)
  then have IH: "foldl (\<lambda>a c. a * 10 + (c - 48)) (x * 10 + (c - 48)) s < (x * 10 + (c - 48) + 1) * 10 ^ length s" by simp
  have "48 \<le> c" "c \<le> 57" using Cons.prems by simp_all
  then have "x * 10 + (c - 48) + 1 \<le> (x + 1) * 10" by arith
  then have "(x * 10 + (c - 48) + 1) * 10 ^ length s \<le> (x + 1) * 10 * 10 ^ length s" by (rule mult_le_mono1)
  then show ?case using IH by (simp add: algebra_simps)
qed simp

lemma power_value_bound:
  assumes "power_digits s"
  shows "power_value s < 10 ^ 78"
proof -
  have "power_value s < 10 ^ length s" using power_value_acc [of s 0] assms by (simp add: power_value_def power_digits_def)
  moreover have "(10 :: nat) ^ length s \<le> 10 ^ 78" using assms by (intro power_increasing) (auto simp: power_digits_def)
  ultimately show ?thesis by linarith
qed

lemma uwords_Nil: "uwords [] = []"
  by (simp add: uwords_def)

lemma normalize_vote_inv:
  assumes "normalize_vote cf v vs = Inr ws" and "votes_inv cf vs"
  shows "votes_inv cf ws" and "length ws = Suc (length vs)"
proof -
  obtain "uwords (gv_voter_display v) \<noteq> []" "length (gv_voter_display v) \<le> 1000" "opt_check is_address (gv_voter_address v)"
    "gv_option v \<in> set VOTE_OPTIONS" "ustrip (gv_tier v) \<noteq> []" "gv_tier v = ustrip (gv_tier v)" "length (gv_tier v) \<le> 64"
    "power_digits (gv_voting_power v)" "voter_key cf (gv_voter_display v) (gv_voter_address v) \<noteq> []"
    "length (voter_key cf (gv_voter_display v) (gv_voter_address v)) \<le> 1100"
    "voter_key cf (gv_voter_display v) (gv_voter_address v) \<notin> set (map fst vs)"
    and ws: "ws = vs @ [(voter_key cf (gv_voter_display v) (gv_voter_address v),
       \<lparr>vc_display = gv_voter_display v, vc_address = gv_voter_address v, vc_option = gv_option v,
        vc_tier = gv_tier v, vc_power = power_value (gv_voting_power v)\<rparr>)]"
    using assms(1) by (auto simp: normalize_vote_def Let_def res_simps)
  then have "valid_vote cf (voter_key cf (gv_voter_display v) (gv_voter_address v))
     \<lparr>vc_display = gv_voter_display v, vc_address = gv_voter_address v, vc_option = gv_option v,
        vc_tier = gv_tier v, vc_power = power_value (gv_voting_power v)\<rparr>"
    using uwords_Nil power_value_bound by (auto simp: valid_vote_def nonempty_text_def)
  then show "votes_inv cf ws" using assms(2) \<open>_ \<notin> set (map fst vs)\<close> by (auto simp: votes_inv_def ws)
  show "length ws = Suc (length vs)" by (simp add: ws)
qed

lemma normalize_votes_inv:
  "foldE (normalize_vote cf) vs acc = Inr ws \<Longrightarrow> votes_inv cf acc \<Longrightarrow> votes_inv cf ws \<and> length ws = length acc + length vs"
proof (induction vs arbitrary: acc)
  case (Cons v vs)
  then obtain a where a: "normalize_vote cf v acc = Inr a" "foldE (normalize_vote cf) vs a = Inr ws" by (auto simp: bindE_Inr_iff)
  show ?case using Cons.IH [OF a(2) normalize_vote_inv(1) [OF a(1) Cons.prems(2)]] normalize_vote_inv(2) [OF a(1) Cons.prems(2)] by simp
qed simp

text \<open>A normalised proposal satisfies every condition on stored rows.\<close>

definition row_ok :: "(nat \<Rightarrow> ustr) \<Rightarrow> normalized \<Rightarrow> bool" where
  "row_ok cf r \<longleftrightarrow> 0 \<le> np_id r \<and> valid_content (np_content r) \<and> votes_inv cf (np_votes r) \<and> sorted (map fst (np_votes r)) \<and>
     (pc_votes_status (np_content r) = ''parsed'' \<longleftrightarrow> np_votes r \<noteq> [])"

definition raws_small :: "gov_discovery \<Rightarrow> bool" where
  "raws_small d = list_all (\<lambda>(_, s). utf8_size s \<le> MAX_GOV_RENDER_BYTES) (gd_raw_renders d)"

lemma raw_small: "raws_small d \<Longrightarrow> map_of (gd_raw_renders d) n = Some s \<Longrightarrow> utf8_size s \<le> MAX_GOV_RENDER_BYTES"
  by (auto simp: raws_small_def list_all_iff dest: map_of_SomeD)

lemma normalize_proposal_step:
  assumes "normalize_proposal cf d p rows = Inr rows'" and "raws_small d"
  shows "\<exists>r. rows' = rows @ [r] \<and> row_ok cf r \<and> np_id r = gp_proposal_id p \<and> np_id r \<notin> set (map np_id rows) \<and>
    pc_status (np_content r) = gp_status p \<and> map_of (gd_raw_renders d) (raw_name (np_id r)) = Some (pc_raw_detail (np_content r)) \<and>
    map_of (gd_raw_renders d) (raw_votes_name (np_id r)) = Some (pc_raw_votes (np_content r))"
proof -
  obtain yes no abstain raw_detail raw_votes votes where
    g: "0 \<le> gp_proposal_id p" "gp_proposal_id p \<notin> set (map np_id rows)" "nonempty_text (gp_title p) 1000"
      "opt_check (\<lambda>s. bounded_text s 1000) (gp_author_display p)" "opt_check is_address (gp_author_address p)" "gp_status p \<in> set STATUSES"
      "list_all (\<lambda>t. nonempty_text t 64 \<and> t = ustrip t) (gp_eligible_tiers p)" "bounded_text (gp_description p) MAX_TEXT_CHARS"
      "opt_check (\<lambda>s. bounded_text s MAX_TEXT_CHARS) (gp_executor_text p)" "opt_check (\<lambda>s. bounded_text s 1000) (gp_executor_creation_realm p)"
      "opt_check (\<lambda>s. bounded_text s 10000) (gp_rejection_reason p)" "gp_detail_parse_status p \<in> set DETAIL_STATUSES"
      "gp_votes_parse_status p \<in> set VOTE_STATUSES" "gp_votes_parse_status p \<noteq> ''unparsed''" "list_all (\<lambda>s. bounded_text s 1000) (gp_parse_warnings p)"
      "\<not> (gp_votes_parse_status p = ''empty'' \<and> gp_votes p \<noteq> [])" "\<not> (gp_votes_parse_status p = ''parsed'' \<and> gp_votes p = [])"
    and pct: "percentage (gp_yes_percent p) = Inr yes" "percentage (gp_no_percent p) = Inr no" "percentage (gp_abstain_percent p) = Inr abstain"
    and raw: "map_of (gd_raw_renders d) (raw_name (gp_proposal_id p)) = Some raw_detail"
      "map_of (gd_raw_renders d) (raw_votes_name (gp_proposal_id p)) = Some raw_votes"
    and votes: "foldE (normalize_vote cf) (gp_votes p) [] = Inr votes"
    and rows': "rows' = rows @ [\<lparr>np_id = gp_proposal_id p,
           np_content = \<lparr>pc_title = gp_title p, pc_author_display = gp_author_display p, pc_author_address = gp_author_address p,
             pc_status = gp_status p, pc_tiers = gp_eligible_tiers p, pc_description = gp_description p,
             pc_executor_text = gp_executor_text p, pc_executor_realm = gp_executor_creation_realm p,
             pc_rejection_reason = gp_rejection_reason p, pc_yes = yes, pc_no = no, pc_abstain = abstain,
             pc_detail_status = gp_detail_parse_status p, pc_votes_status = gp_votes_parse_status p,
             pc_warnings = gp_parse_warnings p, pc_raw_detail = raw_detail, pc_raw_votes = raw_votes\<rparr>,
           np_votes = sort_key fst votes\<rparr>]"
    using assms(1) unfolding normalize_proposal_def proposal_raw_renders_def res_simps prod.case
    by (elim exE conjE) (auto simp: res_simps split: option.splits)
  have inv: "votes_inv cf votes \<and> length votes = length (gp_votes p)"
    using normalize_votes_inv [OF votes] by (simp add: votes_inv_def)
  have "distinct (map fst (sort_key fst votes))"
    using inv unfolding votes_inv_def by (metis distinct_map distinct_sort set_sort)
  then have sorted_inv: "votes_inv cf (sort_key fst votes)" using inv by (simp add: votes_inv_def)
  have "gp_votes_parse_status p = ''parsed'' \<longleftrightarrow> votes \<noteq> []"
    using g(13,14,16,17) inv by (auto simp: VOTE_STATUSES_def)
  moreover have "sort_key fst votes = [] \<longleftrightarrow> votes = []" by (metis length_0_conv length_sort)
  ultimately show ?thesis
    using g pct [THEN percentage_valid] raw sorted_inv raw_small [OF assms(2)]
    by (auto simp: rows' row_ok_def valid_content_def list_all_iff VOTE_STATUSES_def)
qed

definition rows_ok :: "(nat \<Rightarrow> ustr) \<Rightarrow> gov_discovery \<Rightarrow> normalized list \<Rightarrow> bool" where
  "rows_ok cf d rows \<longleftrightarrow> distinct (map np_id rows) \<and> (\<forall>r \<in> set rows. row_ok cf r \<and>
     map_of (gd_raw_renders d) (raw_name (np_id r)) = Some (pc_raw_detail (np_content r)) \<and>
     map_of (gd_raw_renders d) (raw_votes_name (np_id r)) = Some (pc_raw_votes (np_content r)))"

lemma normalize_proposals_ok:
  "foldE (normalize_proposal cf d) ps acc = Inr rows \<Longrightarrow> raws_small d \<Longrightarrow> rows_ok cf d acc \<Longrightarrow>
   rows_ok cf d rows \<and> map (\<lambda>r. (np_id r, pc_status (np_content r))) rows =
     map (\<lambda>r. (np_id r, pc_status (np_content r))) acc @ map (\<lambda>p. (gp_proposal_id p, gp_status p)) ps"
proof (induction ps arbitrary: acc)
  case (Cons p ps)
  then obtain a where a: "normalize_proposal cf d p acc = Inr a" "foldE (normalize_proposal cf d) ps a = Inr rows" by (auto simp: bindE_Inr_iff)
  obtain r where r: "a = acc @ [r]" "row_ok cf r" "np_id r = gp_proposal_id p" "np_id r \<notin> set (map np_id acc)"
    "pc_status (np_content r) = gp_status p" "map_of (gd_raw_renders d) (raw_name (np_id r)) = Some (pc_raw_detail (np_content r))"
    "map_of (gd_raw_renders d) (raw_votes_name (np_id r)) = Some (pc_raw_votes (np_content r))"
    using normalize_proposal_step [OF a(1) Cons.prems(2)] by auto
  then have "rows_ok cf d a" using Cons.prems(3) by (simp add: rows_ok_def)
  from Cons.IH [OF a(2) Cons.prems(2) this] r show ?case by simp
qed simp

lemma text_parameter_Inr [res_simps]: "text_parameter s = Inr x \<longleftrightarrow> bindable_text s"
  by (auto simp: text_parameter_def bindable_text_def res_simps)

lemma check_raw_render_Inr: "check_raw_render r = Inr x \<longleftrightarrow> (case r of (_, s) \<Rightarrow> list_all scalar s \<and> utf8_size s \<le> MAX_GOV_RENDER_BYTES)"
  by (auto simp: check_raw_render_def gov_guard_def bindE_Inr_iff guardE_Inr_iff split: prod.splits)

lemma normalize_discovery_facts:
  assumes "normalize_discovery cf d c = Inr rows"
  shows "rows_ok cf d rows" and "sorted (map np_id rows)" and "gs_chain_id (gd_source d) = c" and "c \<noteq> []" and "length c \<le> 128"
    and "gs_realm_path (gd_source d) \<noteq> []" and "length (gs_realm_path (gd_source d)) \<le> 512" and "1 \<le> gs_observed_height (gd_source d)"
    and "1 \<le> gd_page_count d" and "gd_page_count d \<le> MAX_GOVERNANCE_PAGES" and "length rows \<le> MAX_GOVERNANCE_PROPOSALS"
    and "raw_total (gd_raw_renders d) \<le> MAX_TOTAL_RAW_BYTES"
    and "set (map (\<lambda>r. (np_id r, pc_status (np_content r))) rows) = set (map (\<lambda>p. (gp_proposal_id p, gp_status p)) (gd_proposals d))"
    and "length rows = length (gd_proposals d)"
proof -
  obtain raw where small: "raws_small d" and raw: "foldE (normalize_proposal cf d) (gd_proposals d) [] = Inr raw" and rows: "rows = sort_key np_id raw"
    and count: "length (gd_proposals d) \<le> MAX_GOVERNANCE_PROPOSALS"
    using assms by (auto simp: normalize_discovery_def Let_def res_simps raws_small_def check_raw_render_Inr list_all_iff)
  have ok: "rows_ok cf d raw" and st: "map (\<lambda>r. (np_id r, pc_status (np_content r))) raw = map (\<lambda>p. (gp_proposal_id p, gp_status p)) (gd_proposals d)"
    using normalize_proposals_ok [OF raw small] by (auto simp: rows_ok_def)
  have "distinct (map np_id rows)" using ok unfolding rows_ok_def rows by (metis distinct_map distinct_sort set_sort)
  then show "rows_ok cf d rows" using ok by (auto simp: rows_ok_def rows)
  show "sorted (map np_id rows)" by (simp add: rows)
  show len: "length rows = length (gd_proposals d)" using arg_cong [OF st, of length] by (simp add: rows)
  show "set (map (\<lambda>r. (np_id r, pc_status (np_content r))) rows) = set (map (\<lambda>p. (gp_proposal_id p, gp_status p)) (gd_proposals d))"
    using arg_cong [OF st, of set] by (simp add: rows)
  show "length rows \<le> MAX_GOVERNANCE_PROPOSALS" using count len by simp
qed (use assms in \<open>auto simp: normalize_discovery_def Let_def res_simps\<close>)

section \<open>Writing a proposal\<close>

abbreviation row_lookup :: "normalized list \<Rightarrow> int \<Rightarrow> normalized option" where
  "row_lookup rows i \<equiv> map_of (map (\<lambda>r. (np_id r, r)) rows) i"

text \<open>The rows a written proposal leaves behind.\<close>

definition first_seen :: "int \<Rightarrow> int option \<Rightarrow> int" where
  "first_seen height old = (case old of None \<Rightarrow> height | Some h \<Rightarrow> h)"

definition written_prop :: "int \<Rightarrow> gov_part \<Rightarrow> normalized \<Rightarrow> prop_row" where
  "written_prop height p r = \<lparr>pr_content = np_content r,
     pr_first = first_seen height (map_option pr_first (map_of (gt_props p) (np_id r))), pr_last = height\<rparr>"

definition written_vote :: "int \<Rightarrow> gov_part \<Rightarrow> int \<Rightarrow> ustr \<Rightarrow> vote_content \<Rightarrow> gvote_row" where
  "written_vote height p i k v = \<lparr>gw_content = v, gw_first = first_seen height (map_option gw_first (map_of (gt_votes p) (i, k))), gw_last = height\<rparr>"

definition keys_distinct :: "gov_part \<Rightarrow> bool" where
  "keys_distinct p \<longleftrightarrow> distinct (map fst (gt_props p)) \<and> distinct (map fst (gt_votes p))"

text \<open>\<open>after_row height p r p'\<close>: the tables read as maps after \<open>r\<close> was written to \<open>p\<close>.\<close>

definition after_row :: "int \<Rightarrow> gov_part \<Rightarrow> normalized \<Rightarrow> gov_part \<Rightarrow> bool" where
  "after_row height p r p' \<longleftrightarrow> gt_state p' = gt_state p \<and> (keys_distinct p \<longrightarrow> keys_distinct p') \<and>
     map_of (gt_props p') = (map_of (gt_props p))(np_id r \<mapsto> written_prop height p r) \<and>
     (\<forall>i k. map_of (gt_votes p') (i, k) =
       (if i = np_id r then map_option (written_vote height p i k) (map_of (np_votes r) k) else map_of (gt_votes p) (i, k)))"

lemma written_vote_cong: "map_of (gt_votes q) (i, k) = map_of (gt_votes p) (i, k) \<Longrightarrow> written_vote height q i k = written_vote height p i k"
  by (simp add: written_vote_def fun_eq_iff)

lemma map_of_filter_key: "map_of (filter (\<lambda>(k, _). P k) t) k = (if P k then map_of t k else None)"
  by (induction t) auto

lemma delete_votes_lookup:
  "map_of (gt_votes (delete_votes i keys p)) (j, k) = (if j \<noteq> i \<or> k \<in> set keys then map_of (gt_votes p) (j, k) else None)"
  using map_of_filter_key [of "\<lambda>(j, k). j \<noteq> i \<or> k \<in> set keys" "gt_votes p" "(j, k)"]
  by (simp add: delete_votes_def case_prod_unfold)

lemma delete_votes_distinct: "distinct (map fst (gt_votes p)) \<Longrightarrow> distinct (map fst (gt_votes (delete_votes i keys p)))"
  by (simp add: delete_votes_def distinct_map_filter)

lemma upsert_votes_effect:
  "foldE (upsert_vote fits height i) vs p = Inr p' \<Longrightarrow> distinct (map fst vs) \<Longrightarrow>
   gt_state p' = gt_state p \<and> gt_props p' = gt_props p \<and> (distinct (map fst (gt_votes p)) \<longrightarrow> distinct (map fst (gt_votes p'))) \<and>
   (\<forall>j k. map_of (gt_votes p') (j, k) = (if j = i \<and> k \<in> set (map fst vs) then map_option (written_vote height p j k) (map_of vs k) else map_of (gt_votes p) (j, k)))"
proof (induction vs arbitrary: p)
  case (Cons kv vs)
  obtain k v where kv: "kv = (k, v)" by fastforce
  obtain q where q: "upsert_vote fits height i (k, v) p = Inr q" "foldE (upsert_vote fits height i) vs q = Inr p'"
    using Cons.prems(1) kv by (auto simp: bindE_Inr_iff)
  have up: "q = p\<lparr>gt_votes := AList.update (i, k) (written_vote height p i k v) (gt_votes p)\<rparr>"
    using q(1) by (auto simp: upsert_vote_def Let_def res_simps written_vote_def first_seen_def split: option.splits)
  have IH: "gt_state p' = gt_state q" "gt_props p' = gt_props q" "distinct (map fst (gt_votes q)) \<longrightarrow> distinct (map fst (gt_votes p'))"
    "map_of (gt_votes p') (j, k') = (if j = i \<and> k' \<in> set (map fst vs) then map_option (written_vote height q j k') (map_of vs k') else map_of (gt_votes q) (j, k'))" for j k'
    using Cons.IH [OF q(2)] Cons.prems(2) by auto
  have "k \<notin> set (map fst vs)" using Cons.prems(2) kv by simp
  then have "map_of (gt_votes p') (j, k') = (if j = i \<and> k' \<in> set (map fst (kv # vs)) then map_option (written_vote height p j k') (map_of (kv # vs) k') else map_of (gt_votes p) (j, k'))" for j k'
    using written_vote_cong [of q i k' p] unfolding IH(4) by (auto simp: up kv update_conv')
  moreover have "distinct (map fst (gt_votes p)) \<longrightarrow> distinct (map fst (gt_votes p'))" using IH(3) by (auto simp: up distinct_update)
  ultimately show ?case using IH(1,2) by (simp add: up)
qed auto

lemma write_target_effect:
  assumes "write_target fits chain realm height r p = Inr p'" and "distinct (map fst (np_votes r))"
  shows "after_row height p r p'"
proof -
  let ?q = "p\<lparr>gt_props := AList.update (np_id r) (written_prop height p r) (gt_props p)\<rparr>"
  have fold: "foldE (upsert_vote fits height (np_id r)) (np_votes r) (delete_votes (np_id r) (map fst (np_votes r)) ?q) = Inr p'"
    using assms(1) by (auto simp: write_target_def upsert_proposal_def Let_def res_simps written_prop_def first_seen_def split: option.splits)
  note eff = upsert_votes_effect [OF this assms(2)]
  have "map_of (gt_votes p') (i, k) =
     (if i = np_id r then map_option (written_vote height p i k) (map_of (np_votes r) k) else map_of (gt_votes p) (i, k))" for i k
  proof (cases "i = np_id r \<and> k \<in> set (map fst (np_votes r))")
    case True
    then have "written_vote height (delete_votes (np_id r) (map fst (np_votes r)) ?q) i k = written_vote height p i k"
      by (intro written_vote_cong) (simp add: delete_votes_lookup)
    then show ?thesis using True eff by simp
  next
    case False
    moreover have "map_of (np_votes r) k = None" if "i = np_id r" using False that by (simp add: map_of_eq_None_iff)
    moreover have "map_of (gt_votes p') (i, k) = map_of (gt_votes (delete_votes (np_id r) (map fst (np_votes r)) ?q)) (i, k)"
      using eff False by (auto simp del: map_of_eq_None_iff)
    ultimately show ?thesis by (auto simp: delete_votes_lookup)
  qed
  moreover have "gt_props p' = gt_props ?q" "gt_state p' = gt_state p" using eff by (simp_all add: delete_votes_def)
  moreover have "keys_distinct p \<longrightarrow> keys_distinct p'"
    using eff delete_votes_distinct [of ?q] calculation(2) by (auto simp: keys_distinct_def distinct_update)
  ultimately show ?thesis by (simp add: after_row_def update_conv')
qed

lemma write_full_row_eq:
  assumes "row_ok cf r"
  shows "write_full_row fits chain realm height stored r p =
    bindE (guardE (case map_of stored (np_id r) of None \<Rightarrow> True
                    | Some old \<Rightarrow> status_allowed (pc_status (pr_content old)) (pc_status (np_content r)))
              (GovernanceSnapshotConflict ''invalid governance status transition'')) (\<lambda>_. write_target fits chain realm height r p)"
proof -
  have "pc_votes_status (np_content r) = ''empty''" if "np_votes r = []"
    using assms that by (auto simp: row_ok_def valid_content_def)
  then have "write_votes fits height r q = bindE (checkE text_parameter (map fst (np_votes r)))
      (\<lambda>_. foldE (upsert_vote fits height (np_id r)) (np_votes r) (delete_votes (np_id r) (map fst (np_votes r)) q))" for q
    by (auto simp: write_votes_def Let_def)
  then have "write_votes fits height r = (\<lambda>q. bindE (checkE text_parameter (map fst (np_votes r)))
      (\<lambda>_. foldE (upsert_vote fits height (np_id r)) (np_votes r) (delete_votes (np_id r) (map fst (np_votes r)) q)))"
    by (rule ext)
  then show ?thesis by (simp add: write_full_row_def write_target_def)
qed

text \<open>All rows of one write.\<close>

definition after_rows :: "int \<Rightarrow> gov_part \<Rightarrow> normalized list \<Rightarrow> gov_part \<Rightarrow> bool" where
  "after_rows height p rows p' \<longleftrightarrow> gt_state p' = gt_state p \<and> (keys_distinct p \<longrightarrow> keys_distinct p') \<and>
     (\<forall>i. map_of (gt_props p') i = (case row_lookup rows i of Some r \<Rightarrow> Some (written_prop height p r) | None \<Rightarrow> map_of (gt_props p) i)) \<and>
     (\<forall>i k. map_of (gt_votes p') (i, k) =
       (case row_lookup rows i of Some r \<Rightarrow> map_option (written_vote height p i k) (map_of (np_votes r) k) | None \<Rightarrow> map_of (gt_votes p) (i, k)))"

lemma row_lookup_Some: "row_lookup rows i = Some r \<Longrightarrow> r \<in> set rows \<and> np_id r = i"
  by (auto dest: map_of_SomeD)

lemma row_lookup_None: "row_lookup rows i = None \<longleftrightarrow> i \<notin> set (map np_id rows)"
  by (auto simp: map_of_eq_None_iff image_iff)

lemma row_lookup_in: "distinct (map np_id rows) \<Longrightarrow> r \<in> set rows \<Longrightarrow> row_lookup rows (np_id r) = Some r"
  by (force intro!: map_of_is_SomeI simp: comp_def)

lemma written_prop_cong: "map_of (gt_props q) (np_id r) = map_of (gt_props p) (np_id r) \<Longrightarrow> written_prop height q r = written_prop height p r"
  by (simp add: written_prop_def)

lemma write_rows_effect:
  assumes "foldE f rows p = Inr p'" and "distinct (map np_id rows)" and "\<And>r q q'. r \<in> set rows \<Longrightarrow> f r q = Inr q' \<Longrightarrow> after_row height q r q'"
  shows "after_rows height p rows p'"
  using assms
proof (induction rows arbitrary: p)
  case (Cons r rows)
  obtain q where q: "f r p = Inr q" "foldE f rows q = Inr p'" using Cons.prems(1) by (auto simp: bindE_Inr_iff)
  have one: "after_row height p r q" using Cons.prems(3) q(1) by simp
  have rest: "after_rows height q rows p'" using Cons.IH [OF q(2)] Cons.prems(2,3) by simp
  have fresh: "np_id r' \<noteq> np_id r" if "r' \<in> set rows" for r' using Cons.prems(2) that by (metis distinct.simps(2) image_eqI list.set_map list.simps(9))
  have same: "written_prop height q r' = written_prop height p r'" if "r' \<in> set rows" for r'
    using one fresh [OF that] by (intro written_prop_cong) (simp add: after_row_def)
  have none: "row_lookup rows (np_id r) = None" using Cons.prems(2) by (simp add: row_lookup_None)
  have lookup: "row_lookup (r # rows) i = (if i = np_id r then Some r else row_lookup rows i)" for i by simp
  have props: "map_of (gt_props p') i = (case row_lookup (r # rows) i of Some r \<Rightarrow> Some (written_prop height p r) | None \<Rightarrow> map_of (gt_props p) i)" for i
  proof -
    have rows: "map_of (gt_props p') i = (case row_lookup rows i of Some r \<Rightarrow> Some (written_prop height q r) | None \<Rightarrow> map_of (gt_props q) i)"
      using rest unfolding after_rows_def by blast
    have head: "map_of (gt_props q) = (map_of (gt_props p))(np_id r \<mapsto> written_prop height p r)" using one by (simp add: after_row_def)
    show ?thesis
    proof (cases "row_lookup rows i")
      case None
      then show ?thesis unfolding rows lookup by (simp add: head)
    next
      case (Some r')
      then have "r' \<in> set rows" using row_lookup_Some by blast
      from same [OF this] have "written_prop height q r' = written_prop height p r'" .
      moreover have "i \<noteq> np_id r" using none Some by (metis option.distinct(1))
      ultimately show ?thesis unfolding rows lookup using Some by simp
    qed
  qed
  have "map_of (gt_votes p') (i, k) = (case row_lookup (r # rows) i of Some r \<Rightarrow> map_option (written_vote height p i k) (map_of (np_votes r) k) | None \<Rightarrow> map_of (gt_votes p) (i, k))" for i k
  proof -
    have rows: "map_of (gt_votes p') (i, k) = (case row_lookup rows i of Some r \<Rightarrow> map_option (written_vote height q i k) (map_of (np_votes r) k) | None \<Rightarrow> map_of (gt_votes q) (i, k))"
      using rest unfolding after_rows_def by blast
    have head: "map_of (gt_votes q) (i, k) = (if i = np_id r then map_option (written_vote height p i k) (map_of (np_votes r) k) else map_of (gt_votes p) (i, k))"
      using one unfolding after_row_def by blast
    show ?thesis
    proof (cases "row_lookup rows i")
      case None
      then show ?thesis unfolding rows lookup head by (simp split: if_splits)
    next
      case (Some r')
      then have "i \<noteq> np_id r" using none by auto
      moreover from this have "written_vote height q i k = written_vote height p i k" by (intro written_vote_cong) (simp add: head)
      ultimately show ?thesis unfolding rows lookup using Some by simp
    qed
  qed
  then show ?case using props one rest unfolding after_row_def after_rows_def by auto
qed (simp add: after_rows_def)

section \<open>What can be read again\<close>

definition props_total :: "(int \<rightharpoonup> prop_row) \<Rightarrow> nat" where
  "props_total P = (\<Sum>i \<in> dom P. content_raw (pr_content (the (P i))))"

text \<open>The conditions on stored rows, for the tables read as maps.\<close>

definition stored_ok :: "(nat \<Rightarrow> ustr) \<Rightarrow> sync_row \<Rightarrow> (int \<rightharpoonup> prop_row) \<Rightarrow> (int \<times> ustr \<rightharpoonup> gvote_row) \<Rightarrow> bool" where
  "stored_ok cf s P V \<longleftrightarrow> valid_sync s (sorted_list_of_set (dom P)) \<and> props_total P \<le> MAX_TOTAL_RAW_BYTES \<and>
     (\<forall>i r. P i = Some r \<longrightarrow> 0 \<le> i \<and> valid_content (pr_content r) \<and> valid_heights (sy_height s) (pr_first r) (pr_last r) \<and>
       (pc_votes_status (pr_content r) = ''parsed'' \<longleftrightarrow> (\<exists>k. V (i, k) \<noteq> None))) \<and>
     (\<forall>i k r. V (i, k) = Some r \<longrightarrow> P i \<noteq> None \<and> valid_vote cf k (gw_content r) \<and> valid_heights (sy_height s) (gw_first r) (gw_last r))"

lemma sorted_keys:
  assumes "distinct (map fst t)"
  shows "map fst (sort_key fst t) = sorted_list_of_set (dom (map_of t))"
proof -
  have "distinct (map fst (sort_key fst t))" using assms by (metis distinct_map distinct_sort set_sort)
  moreover have "set (map fst (sort_key fst t)) = dom (map_of t)" by (simp add: dom_map_of_conv_image_fst)
  ultimately show ?thesis by (metis sorted_list_of_set.idem_if_sorted_distinct sorted_sort_key)
qed

lemma sum_list_sort_key: "sum_list (map f (sort_key g xs)) = (sum_list (map f xs) :: nat)"
proof (induction xs)
  case (Cons x xs)
  have "sum_list (map f (insort_key g x ys)) = f x + sum_list (map f ys)" for ys by (induction ys) auto
  with Cons show ?case by simp
qed simp

lemma table_total:
  assumes "distinct (map fst t)"
  shows "sum_list (map (\<lambda>(i, r). f i r) t) = (\<Sum>i \<in> dom (map_of t). (f i (the (map_of t i)) :: nat))"
  using assms
proof (induction t)
  case (Cons x t)
  obtain i r where x: "x = (i, r)" by fastforce
  have fresh: "i \<notin> dom (map_of t)" using Cons.prems x by (simp add: dom_map_of_conv_image_fst)
  have "(\<Sum>j \<in> dom (map_of t). f j (the (map_of (x # t) j))) = (\<Sum>j \<in> dom (map_of t). f j (the (map_of t j)))"
    using fresh x by (intro sum.cong) auto
  moreover have "dom (map_of (x # t)) = insert i (dom (map_of t))" by (auto simp: x)
  ultimately have "(\<Sum>j \<in> dom (map_of (x # t)). f j (the (map_of (x # t) j))) = f i r + (\<Sum>j \<in> dom (map_of t). f j (the (map_of t j)))"
    using fresh by (simp only: sum.insert finite_dom_map_of not_False_eq_True) (simp add: x)
  moreover have "sum_list (map (\<lambda>(i, r). f i r) (x # t)) = f i r + sum_list (map (\<lambda>(i, r). f i r) t)" by (simp add: x)
  moreover have "sum_list (map (\<lambda>(i, r). f i r) t) = (\<Sum>j \<in> dom (map_of t). f j (the (map_of t j)))" using Cons by simp
  ultimately show ?case by (simp only:)
qed simp

lemma table_all: "distinct (map fst t) \<Longrightarrow> list_all Q (sort_key f t) \<longleftrightarrow> (\<forall>k v. map_of t k = Some v \<longrightarrow> Q (k, v))"
  by (auto simp: list_all_iff)

lemma vote_count_pos: "0 < vote_count i (sort_key f t) \<longleftrightarrow> (\<exists>k. map_of t (i, k) \<noteq> None)"
proof -
  have "0 < vote_count i (sort_key f t) \<longleftrightarrow> (\<exists>k v. ((i, k), v) \<in> set t)"
    by (auto simp: vote_count_def filter_empty_conv length_greater_0_conv [symmetric] simp del: length_greater_0_conv)
      (auto simp: length_greater_0_conv filter_empty_conv)
  then show ?thesis by (force simp: map_of_eq_None_iff)
qed

lemma load_state:
  assumes "keys_distinct p" and "gt_state p = Some s"
  shows "(\<exists>x. load_governance cf p = Inr x) \<longleftrightarrow> stored_ok cf s (map_of (gt_props p)) (map_of (gt_votes p))"
proof -
  have d: "distinct (map fst (gt_props p))" "distinct (map fst (gt_votes p))" using assms(1) by (simp_all add: keys_distinct_def)
  have total: "sum_list (map (\<lambda>(_, r). content_raw (pr_content r)) (sort_key fst (gt_props p))) = props_total (map_of (gt_props p))"
    by (simp add: sum_list_sort_key table_total [OF d(1), where f = "\<lambda>_ r. content_raw (pr_content r)"] props_total_def)
  have props: "list_all (valid_stored_prop s (sort_key fst (gt_votes p))) (sort_key fst (gt_props p)) \<longleftrightarrow>
    (\<forall>i r. map_of (gt_props p) i = Some r \<longrightarrow> 0 \<le> i \<and> valid_content (pr_content r) \<and> valid_heights (sy_height s) (pr_first r) (pr_last r) \<and>
       (pc_votes_status (pr_content r) = ''parsed'' \<longleftrightarrow> (\<exists>k. map_of (gt_votes p) (i, k) \<noteq> None)))"
    unfolding table_all [OF d(1)] valid_stored_prop_def prod.case vote_count_pos by blast
  have "map_of (gt_props p) i \<noteq> None \<longleftrightarrow> i \<in> set (map fst (sort_key fst (gt_props p)))" for i
    by (simp add: map_of_eq_None_iff)
  note present = this
  have votes: "list_all (valid_stored_vote cf s (map fst (sort_key fst (gt_props p)))) (sort_key fst (gt_votes p)) \<longleftrightarrow>
    (\<forall>i k r. map_of (gt_votes p) (i, k) = Some r \<longrightarrow> map_of (gt_props p) i \<noteq> None \<and> valid_vote cf k (gw_content r) \<and>
       valid_heights (sy_height s) (gw_first r) (gw_last r))"
    unfolding table_all [OF d(2)] valid_stored_vote_def present by auto
  have "distinct (map fst (sort_key fst (gt_votes p)))" using d(2) by (metis distinct_map distinct_sort set_sort)
  then show ?thesis
    unfolding load_governance_def stored_ok_def Let_def assms(2) option.case res_simps total props votes [unfolded sorted_keys [OF d(1)]] sorted_keys [OF d(1)] by auto
qed

section \<open>A write keeps the tables readable\<close>

text \<open>What may be stored before a write at \<open>height\<close>.\<close>

definition before_write :: "(nat \<Rightarrow> ustr) \<Rightarrow> int \<Rightarrow> gov_part \<Rightarrow> bool" where
  "before_write cf height p \<longleftrightarrow> keys_distinct p \<and> (case gt_state p of
     None \<Rightarrow> gt_props p = [] \<and> gt_votes p = []
   | Some s \<Rightarrow> stored_ok cf s (map_of (gt_props p)) (map_of (gt_votes p)) \<and> sy_height s \<le> height)"

lemma before_write_prop:
  assumes "before_write cf height p" and "map_of (gt_props p) i = Some r"
  shows "0 \<le> i \<and> valid_content (pr_content r) \<and> valid_heights height (pr_first r) (pr_last r) \<and>
    (pc_votes_status (pr_content r) = ''parsed'' \<longleftrightarrow> (\<exists>k. map_of (gt_votes p) (i, k) \<noteq> None))"
  using assms unfolding before_write_def stored_ok_def valid_heights_def by (cases "gt_state p") fastforce+

lemma before_write_vote:
  assumes "before_write cf height p" and "map_of (gt_votes p) (i, k) = Some r"
  shows "map_of (gt_props p) i \<noteq> None \<and> valid_vote cf k (gw_content r) \<and> valid_heights height (gw_first r) (gw_last r)"
  using assms unfolding before_write_def stored_ok_def valid_heights_def by (cases "gt_state p") fastforce+

lemma first_seen_valid: "1 \<le> h \<Longrightarrow> (\<And>x. old = Some x \<Longrightarrow> 1 \<le> x \<and> x \<le> h) \<Longrightarrow> valid_heights h (first_seen h old) h"
  by (auto simp: valid_heights_def first_seen_def split: option.splits)

lemma written_prop_valid:
  assumes "before_write cf height p" and "1 \<le> height"
  shows "valid_heights height (pr_first (written_prop height p r)) (pr_last (written_prop height p r))"
  using first_seen_valid [OF assms(2), of "map_option pr_first (map_of (gt_props p) (np_id r))"] before_write_prop [OF assms(1)]
  by (fastforce simp: written_prop_def valid_heights_def)

lemma written_vote_valid:
  assumes "before_write cf height p" and "1 \<le> height"
  shows "valid_heights height (gw_first (written_vote height p i k v)) (gw_last (written_vote height p i k v))"
  using first_seen_valid [OF assms(2), of "map_option gw_first (map_of (gt_votes p) (i, k))"] before_write_vote [OF assms(1)]
  by (fastforce simp: written_vote_def valid_heights_def)

lemma after_rows_ok:
  assumes eff: "after_rows height p rows p'" and before: "before_write cf height p" and h: "1 \<le> height"
    and rows: "\<And>r. r \<in> set rows \<Longrightarrow> row_ok cf r"
    and s: "sy_height s = height" "valid_sync s (sorted_list_of_set (dom (map_of (gt_props p'))))"
    and total: "props_total (map_of (gt_props p')) \<le> MAX_TOTAL_RAW_BYTES"
  shows "stored_ok cf s (map_of (gt_props p')) (map_of (gt_votes p'))"
proof -
  have props: "map_of (gt_props p') i = (case row_lookup rows i of Some r \<Rightarrow> Some (written_prop height p r) | None \<Rightarrow> map_of (gt_props p) i)" for i
    using eff unfolding after_rows_def by blast
  have votes: "map_of (gt_votes p') (i, k) =
      (case row_lookup rows i of Some r \<Rightarrow> map_option (written_vote height p i k) (map_of (np_votes r) k) | None \<Rightarrow> map_of (gt_votes p) (i, k))" for i k
    using eff unfolding after_rows_def by blast
  have "0 \<le> i \<and> valid_content (pr_content r) \<and> valid_heights height (pr_first r) (pr_last r) \<and>
    (pc_votes_status (pr_content r) = ''parsed'' \<longleftrightarrow> (\<exists>k. map_of (gt_votes p') (i, k) \<noteq> None))" if "map_of (gt_props p') i = Some r" for i r
  proof (cases "row_lookup rows i")
    case None
    then have "map_of (gt_props p) i = Some r" using that props by simp
    from before_write_prop [OF before this] show ?thesis unfolding votes None by simp
  next
    case (Some r')
    then have r: "r = written_prop height p r'" "row_ok cf r'" "np_id r' = i" using that props row_lookup_Some [OF Some] rows by auto
    have "(\<exists>k. map_of (np_votes r') k \<noteq> None) \<longleftrightarrow> np_votes r' \<noteq> []" by (cases "np_votes r'") auto
    then have "(\<exists>k. map_of (gt_votes p') (i, k) \<noteq> None) \<longleftrightarrow> np_votes r' \<noteq> []" unfolding votes Some by simp
    then show ?thesis using r written_prop_valid [OF before h, of r'] by (auto simp: row_ok_def written_prop_def)
  qed
  moreover have "map_of (gt_props p') i \<noteq> None \<and> valid_vote cf k (gw_content r) \<and> valid_heights height (gw_first r) (gw_last r)"
    if "map_of (gt_votes p') (i, k) = Some r" for i k r
  proof (cases "row_lookup rows i")
    case None
    then have "map_of (gt_votes p) (i, k) = Some r" using that votes by simp
    from before_write_vote [OF before this] show ?thesis unfolding props None by simp
  next
    case (Some r')
    have "map_option (written_vote height p i k) (map_of (np_votes r') k) = Some r" using that unfolding votes Some by simp
    then obtain v where v: "map_of (np_votes r') k = Some v" "r = written_vote height p i k v" by auto
    have "valid_vote cf k v" using rows row_lookup_Some [OF Some] map_of_SomeD [OF v(1)] by (fastforce simp: row_ok_def votes_inv_def)
    then show ?thesis using v(2) written_vote_valid [OF before h, of i k v] unfolding props Some by (simp add: written_vote_def)
  qed
  ultimately show ?thesis using s total unfolding stored_ok_def by auto
qed

lemma valid_sync_of:
  assumes "1 \<le> height" and "1 \<le> pages" and "pages \<le> MAX_GOVERNANCE_PAGES" and "sorted ids" and "length ids \<le> MAX_GOVERNANCE_PROPOSALS"
    and "\<And>i. i \<in> set ids \<Longrightarrow> 0 \<le> i"
  shows "valid_sync (sync_of height pages ids) ids"
proof (cases ids)
  case (Cons i js)
  have "Min (set ids) = hd ids" using assms(4) Cons by (intro Min_eqI) auto
  moreover have "Max (set ids) = last ids"
  proof (intro Max_eqI)
    fix j assume "j \<in> set ids"
    then obtain n where "n < length ids" "ids ! n = j" by (auto simp: in_set_conv_nth)
    moreover have "last ids = ids ! (length ids - 1)" using Cons by (simp add: last_conv_nth del: last.simps)
    ultimately show "j \<le> last ids" using sorted_nth_mono [OF assms(4), of n "length ids - 1"] by simp
  qed (use Cons in auto)
  moreover have "hd ids \<le> last ids" using assms(4) Cons by auto
  ultimately show ?thesis using assms Cons by (auto simp: valid_sync_def sync_of_def)
qed (use assms in \<open>auto simp: valid_sync_def sync_of_def\<close>)

lemma load_Inr:
  assumes "load_governance cf p = Inr (st, props, votes)"
  shows "st = gt_state p" and "props = sort_key fst (gt_props p)" and "votes = sort_key fst (gt_votes p)"
  using assms by (auto simp: load_governance_def Let_def res_simps split: option.splits)

lemma load_before_write:
  assumes "load_governance cf p = Inr (st, props, votes)" and "keys_distinct p" and "opt_check (\<lambda>s. sy_height s \<le> height) st"
  shows "before_write cf height p"
proof (cases "gt_state p")
  case None
  have "sort_key fst (gt_props p) = []" "sort_key fst (gt_votes p) = []"
    using assms(1) None by (auto simp: load_governance_def Let_def res_simps)
  then have "gt_props p = []" "gt_votes p = []" by (metis length_0_conv length_sort)+
  then show ?thesis using None assms(2) by (simp add: before_write_def)
next
  case (Some s)
  then show ?thesis using load_state [OF assms(2) Some] assms load_Inr(1) [OF assms(1)] by (auto simp: before_write_def opt_check_def)
qed

text \<open>The byte count computed before an incremental write is the one stored after it.\<close>

lemma after_rows_dom: "after_rows height p rows p' \<Longrightarrow> dom (map_of (gt_props p')) = dom (map_of (gt_props p)) \<union> set (map np_id rows)"
  unfolding after_rows_def using row_lookup_None [of rows] by (auto simp: dom_def split: option.splits)

lemma after_rows_total:
  assumes "after_rows height p rows p'" and "distinct (map np_id rows)" and "keys_distinct p"
  shows "props_total (map_of (gt_props p')) = final_incremental_raw_bytes (sort_key fst (gt_props p)) rows"
proof -
  let ?R = "set (map np_id rows)" and ?P = "map_of (gt_props p)" and ?P' = "map_of (gt_props p')"
  let ?kept = "filter (\<lambda>(i, _). i \<notin> ?R) (gt_props p)"
  have at: "?P' i = (case row_lookup rows i of Some r \<Rightarrow> Some (written_prop height p r) | None \<Rightarrow> ?P i)" for i
    using assms(1) unfolding after_rows_def by blast
  have "map_of ?kept i = (if i \<notin> ?R then ?P i else None)" for i by (rule map_of_filter_key)
  then have dom: "dom (map_of ?kept) = dom ?P - ?R" and kept: "i \<in> dom ?P - ?R \<Longrightarrow> map_of ?kept i = ?P i" for i
    by (auto simp: dom_def)
  have "distinct (map fst ?kept)" using assms(3) by (simp add: keys_distinct_def distinct_map_filter)
  from table_total [OF this, of "\<lambda>_ r. content_raw (pr_content r)"]
  have old: "sum_list (map (\<lambda>(i, r). content_raw (pr_content r)) ?kept) = (\<Sum>i \<in> dom ?P - ?R. content_raw (pr_content (the (?P i))))"
    unfolding dom using kept by (metis (mono_tags, lifting) sum.cong)
  have "distinct (map fst (map (\<lambda>r. (np_id r, r)) rows))" using assms(2) by (simp add: comp_def)
  from table_total [OF this, of "\<lambda>_ r. content_raw (np_content r)"]
  have new: "sum_list (map (\<lambda>r. content_raw (np_content r)) rows) = (\<Sum>i \<in> ?R. content_raw (np_content (the (row_lookup rows i))))"
    by (simp add: comp_def dom_map_of_conv_image_fst image_image)
  have "props_total ?P' = (\<Sum>i \<in> dom ?P - ?R. content_raw (pr_content (the (?P' i)))) + (\<Sum>i \<in> ?R. content_raw (pr_content (the (?P' i))))"
    unfolding props_total_def after_rows_dom [OF assms(1)] by (subst sum.union_disjoint [symmetric]) (auto simp: finite_dom_map_of intro: sum.cong)
  also have "(\<Sum>i \<in> dom ?P - ?R. content_raw (pr_content (the (?P' i)))) = (\<Sum>i \<in> dom ?P - ?R. content_raw (pr_content (the (?P i))))"
    using row_lookup_None [of rows] by (intro sum.cong) (auto simp: at split: option.splits dest: row_lookup_Some)
  also have "(\<Sum>i \<in> ?R. content_raw (pr_content (the (?P' i)))) = (\<Sum>i \<in> ?R. content_raw (np_content (the (row_lookup rows i))))"
    using row_lookup_None [of rows] by (intro sum.cong) (auto simp: at written_prop_def split: option.splits)
  finally show ?thesis
    unfolding final_incremental_raw_bytes_def filter_sort sum_list_sort_key old new by simp
qed

end
