(* ===== verification/Py_Decimal.thy ===== *)
theory Py_Decimal
  imports Py_Float
begin

text \<open>
  Facts on the decimal that \<open>repr\<close> prints for a float: its digits are those of the value rounded to some number of significant
  places, so that printing never crosses a power of ten above the value.
\<close>

lemma pow10_powi: "pow10 k = 10 powi k"
  by (simp add: pow10_def power_int_def power_inverse field_simps)

lemma round_half_even_le:
  assumes "x \<le> of_int k"
  shows "round_half_even x \<le> k"
proof (cases "x = of_int k")
  case False
  with assms have "\<lfloor>x\<rfloor> < k" by (simp add: floor_less_iff)
  then show ?thesis by (auto simp: round_half_even_def Let_def)
qed (simp add: round_half_even_def)

lemma round_half_even_ge: "of_int k \<le> x \<Longrightarrow> k \<le> round_half_even x"
  by (auto simp: round_half_even_def Let_def le_floor_iff intro: order_trans [of _ "\<lfloor>x\<rfloor>"])

lemma digits_upper: "n < 10 ^ length (digits_of_nat n)"
proof (induction n rule: digits_of_nat.induct)
  case (1 n)
  show ?case
  proof (cases "n < 10")
    case False
    then have "n div 10 < 10 ^ length (digits_of_nat (n div 10))" by (rule 1)
    then have "n < 10 * 10 ^ length (digits_of_nat (n div 10))" by (simp add: div_less_iff_less_mult mult.commute)
    with False show ?thesis by (subst digits_of_nat.simps) simp
  qed (simp add: digits_of_nat.simps)
qed

lemma digits_lower: "0 < n \<Longrightarrow> 10 ^ (length (digits_of_nat n) - 1) \<le> n"
proof (induction n rule: digits_of_nat.induct)
  case (1 n)
  show ?case
  proof (cases "n < 10")
    case False
    then have "10 ^ (length (digits_of_nat (n div 10)) - 1) \<le> n div 10" by (intro 1) auto
    then have "10 * 10 ^ (length (digits_of_nat (n div 10)) - 1) \<le> n" by linarith
    moreover have "10 * 10 ^ (length (digits_of_nat (n div 10)) - 1) = (10 :: nat) ^ length (digits_of_nat (n div 10))"
      by (simp flip: power_Suc)
    ultimately show ?thesis using False by (subst digits_of_nat.simps) simp
  qed (use 1 in \<open>simp add: digits_of_nat.simps\<close>)
qed

lemma digits_count:
  assumes "10 ^ p \<le> n" and "n < 10 ^ Suc p"
  shows "length (digits_of_nat n) = Suc p"
proof -
  have "0 < n" using assms(1) by (metis less_le_trans zero_less_numeral zero_less_power)
  then have "(10 :: nat) ^ (length (digits_of_nat n) - 1) < 10 ^ Suc p" using digits_lower [of n] assms(2) by (metis le_less_trans)
  moreover have "(10 :: nat) ^ p < 10 ^ length (digits_of_nat n)" using digits_upper [of n] assms(1) by (metis le_less_trans)
  ultimately have "length (digits_of_nat n) - 1 < Suc p" "p < length (digits_of_nat n)"
    by (metis one_less_numeral_iff power_less_imp_less_exp semiring_norm(76))+
  then show ?thesis by linarith
qed

lemma ilog10_bounds:
  assumes "0 < x"
  shows "10 powi ilog10 x \<le> x" "x < 10 powi (ilog10 x + 1)"
proof -
  obtain n d where nd: "quotient_of x = (n, d)" by fastforce
  then have d: "0 < d" by (rule quotient_of_denom_pos)
  have x: "x = of_int n / of_int d" using nd by (rule quotient_of_div)
  then have n: "0 < n" using assms d by (simp add: zero_less_divide_iff)
  define a where "a = length (digits_of_nat (nat n))"
  define b where "b = length (digits_of_nat (nat d))"
  have ab: "1 \<le> a" "1 \<le> b" by (simp_all add: a_def b_def Suc_le_eq)
  have "10 ^ (a - 1) \<le> nat n" "nat n < 10 ^ a" "10 ^ (b - 1) \<le> nat d" "nat d < 10 ^ b"
    using digits_lower [of "nat n"] digits_upper [of "nat n"] digits_lower [of "nat d"] digits_upper [of "nat d"] n d
    by (simp_all add: a_def b_def)
  then have "10 ^ (a - 1) \<le> n" "n < 10 ^ a" "10 ^ (b - 1) \<le> d" "d < 10 ^ b"
    using n d by (simp_all add: nat_less_iff le_nat_iff)
  then have bounds: "(10 :: rat) ^ (a - 1) \<le> of_int n" "of_int n < (10 :: rat) ^ a" "(10 :: rat) ^ (b - 1) \<le> of_int d" "of_int d < (10 :: rat) ^ b"
    by (metis of_int_le_iff of_int_less_iff of_int_numeral of_int_power)+
  have hi: "x < 10 powi (int a - int b + 1)"
  proof -
    have "x * 10 ^ (b - 1) \<le> x * of_int d" by (rule mult_left_mono [OF bounds(3)]) (use assms in simp)
    also have "\<dots> = of_int n" using x d by simp
    also have "\<dots> < 10 ^ a" by (rule bounds(2))
    finally have "x * 10 powi int (b - 1) < 10 powi int a" by simp
    then have "x * 10 powi (int b - 1) < 10 powi int a" using ab by (simp only: of_nat_diff of_nat_1)
    moreover have "(10 :: rat) powi int a = 10 powi (int a - int b + 1) * 10 powi (int b - 1)"
      by (simp flip: power_int_add)
    ultimately show ?thesis by simp
  qed
  have lo: "10 powi (int a - int b - 1) \<le> x"
  proof -
    have "(10 :: rat) powi (int a - int b - 1) * 10 powi int b = 10 powi (int a - 1)"
      by (subst power_int_add [symmetric]) simp_all
    also have "\<dots> = 10 powi int (a - 1)" using ab by (simp only: of_nat_diff of_nat_1)
    also have "\<dots> = 10 ^ (a - 1)" by simp
    also have "\<dots> \<le> of_int n" by (rule bounds(1))
    also have "of_int n = x * of_int d" using x d by simp
    also have "\<dots> \<le> x * 10 powi int b" using bounds(4) assms by (simp add: power_int_def)
    finally show ?thesis by simp
  qed
  have "ilog10 x = (if 10 powi (int a - int b) \<le> x then int a - int b else int a - int b - 1)"
    by (simp add: ilog10_def nd pow10_powi a_def b_def)
  then show "10 powi ilog10 x \<le> x" "x < 10 powi (ilog10 x + 1)" using hi lo by auto
qed

text \<open>The value rounded to \<open>p + 1\<close> significant places.\<close>

lemma rounded_digits:
  fixes p :: nat
  assumes "0 < x"
  defines "m \<equiv> round_half_even (x / 10 powi (ilog10 x - int p))"
  shows "10 ^ p \<le> m" "m \<le> 10 ^ Suc p"
proof -
  have t: "0 < (10 :: rat) powi (ilog10 x - int p)" by simp
  have "of_int (10 ^ p) * (10 :: rat) powi (ilog10 x - int p) = 10 powi ilog10 x" by (simp flip: power_int_add power_int_of_nat)
  then have "of_int (10 ^ p) \<le> x / 10 powi (ilog10 x - int p)" using ilog10_bounds(1) [OF assms(1)] t by (simp add: pos_le_divide_eq)
  then show "10 ^ p \<le> m" unfolding m_def by (rule round_half_even_ge)
  have "of_int (10 ^ Suc p) * (10 :: rat) powi (ilog10 x - int p) = 10 powi (ilog10 x + 1)"
    by (simp add: power_int_add power_int_diff)
  then have "x / 10 powi (ilog10 x - int p) \<le> of_int (10 ^ Suc p)" using ilog10_bounds(2) [OF assms(1)] t by (simp add: pos_divide_le_eq)
  then show "m \<le> 10 ^ Suc p" unfolding m_def by (rule round_half_even_le)
qed

lemma rounded_le:
  assumes "0 < x" and "x \<le> 10 powi c"
  shows "of_int (round_half_even (x / 10 powi (ilog10 x - int p))) * 10 powi (ilog10 x - int p) \<le> (10 :: rat) powi c"
proof -
  have "(10 :: rat) powi ilog10 x \<le> 10 powi c" using ilog10_bounds(1) [OF assms(1)] assms(2) by linarith
  then have "ilog10 x \<le> c" by (meson not_less power_int_strict_increasing one_less_numeral_iff semiring_norm(76))
  then have "0 \<le> c - ilog10 x + int p" by simp
  then obtain q where "c - ilog10 x + int p = int q" by (rule nonneg_int_cases)
  then have q: "c = ilog10 x - int p + int q" by simp
  have t: "0 < (10 :: rat) powi (ilog10 x - int p)" by simp
  have c: "of_int (10 ^ q) * (10 :: rat) powi (ilog10 x - int p) = 10 powi c" by (simp add: q power_int_add)
  have "x / 10 powi (ilog10 x - int p) \<le> of_int (10 ^ q)" using assms(2) c t by (simp add: pos_divide_le_eq)
  then have "round_half_even (x / 10 powi (ilog10 x - int p)) \<le> 10 ^ q" by (rule round_half_even_le)
  then have "of_int (round_half_even (x / 10 powi (ilog10 x - int p))) \<le> (of_int (10 ^ q) :: rat)" by (simp only: of_int_le_iff)
  from mult_right_mono [OF this less_imp_le [OF t]] show ?thesis unfolding c .
qed

lemma rounded_value_le:
  assumes "0 < x" and "x \<le> 10 powi c" and m: "m = round_half_even (x / 10 powi (ilog10 x - int p))"
  shows "of_nat (nat m) * 10 powi (ilog10 x - int (length (digits_of_nat (nat m))) + 1) \<le> (10 :: rat) powi c"
proof (cases "m = 10 ^ Suc p")
  case True
  have "(10 :: nat) ^ Suc p < 10 ^ Suc (Suc p)" by (rule power_strict_increasing) simp_all
  then have "length (digits_of_nat (10 ^ Suc p)) = Suc (Suc p)" by (intro digits_count) auto
  moreover have "nat m = 10 ^ Suc p" unfolding True by (simp only: nat_power_eq nat_numeral zero_le_numeral)
  ultimately have "of_nat (nat m) * (10 :: rat) powi (ilog10 x - int (length (digits_of_nat (nat m))) + 1) = 10 powi ilog10 x"
    by (simp add: power_int_diff power_int_add field_simps)
  then show ?thesis using ilog10_bounds(1) [OF assms(1)] assms(2) by linarith
next
  case False
  have "10 ^ p \<le> m" "m \<le> 10 ^ Suc p" unfolding m by (rule rounded_digits [OF assms(1)])+
  with False have lt: "10 ^ p \<le> m" "m < 10 ^ Suc p" by simp_all
  then have "10 ^ p \<le> nat m" "nat m < 10 ^ Suc p" by (simp_all add: le_nat_iff nat_less_iff)
  then have "length (digits_of_nat (nat m)) = Suc p" by (rule digits_count)
  moreover have "0 \<le> m" using lt(1) by (metis order_trans zero_le_numeral zero_le_power)
  ultimately show ?thesis using rounded_le [OF assms(1,2), of p] by (simp add: m)
qed

text \<open>The printed decimal of a value up to a power of ten is up to that power.\<close>

lemma shortest_le:
  assumes "0 < x" and "x \<le> 10 powi c"
  shows "shortest k (Suc p) x = (e, m) \<Longrightarrow> of_nat m * pow10 (e - int (length (digits_of_nat m)) + 1) \<le> 10 powi c"
proof (induction k arbitrary: p)
  case 0
  then have "e = ilog10 x" "m = nat (round_half_even (x / 10 powi (ilog10 x - int 16)))" by (auto simp: pow10_powi)
  then show ?case using rounded_value_le [OF assms refl, of 16] by (simp add: pow10_powi)
next
  case (Suc k)
  define r where "r = round_half_even (x / 10 powi (ilog10 x - int p))"
  have place: "ilog10 x - int (Suc p) + 1 = ilog10 x - int p" by simp
  note step = Suc.prems [unfolded shortest.simps Let_def pow10_powi place, folded r_def]
  have pick: "r = 10 ^ Suc p \<and> (ilog10 x + 1, 10 ^ p) = (e, m) \<or> r \<noteq> 10 ^ Suc p \<and> (ilog10 x, nat r) = (e, m) \<or>
      shortest k (Suc (Suc p)) x = (e, m)"
    if "(if (if r = 10 ^ Suc p then ok1 else ok2) then (if r = 10 ^ Suc p then (ilog10 x + 1, 10 ^ p) else (ilog10 x, nat r))
         else shortest k (Suc (Suc p)) x) = (e, m)" for ok1 ok2
    using that by (simp split: if_splits)
  define ok1 where "ok1 \<longleftrightarrow> rnd (of_int (10 ^ p) * 10 powi (ilog10 x + 1 - int p)) = Fin x"
  define ok2 where "ok2 \<longleftrightarrow> rnd (of_int r * 10 powi (ilog10 x - int p)) = Fin x"
  have "nat (10 ^ p) = 10 ^ p" by (simp only: nat_power_eq nat_numeral zero_le_numeral)
  moreover have "ilog10 x + 1 - int (Suc p) + 1 = ilog10 x + 1 - int p" by simp
  ultimately have "(if (if r = 10 ^ Suc p then ok1 else ok2) then (if r = 10 ^ Suc p then (ilog10 x + 1, 10 ^ p) else (ilog10 x, nat r))
         else shortest k (Suc (Suc p)) x) = (e, m)"
    using step by (cases "r = 10 ^ Suc p") (simp_all only: if_True if_False prod.case diff_Suc_1 place simp_thms ok1_def ok2_def)
  from pick [OF this] consider (carry) "r = 10 ^ Suc p" "(e, m) = (ilog10 x + 1, 10 ^ p)" | (digits) "r \<noteq> 10 ^ Suc p" "(e, m) = (ilog10 x, nat r)"
    | (next_place) "shortest k (Suc (Suc p)) x = (e, m)" by metis
  then show ?case
  proof cases
    case carry
    have "length (digits_of_nat (10 ^ p)) = Suc p" by (rule digits_count) simp_all
    then have "of_nat m * pow10 (e - int (length (digits_of_nat m)) + 1) = of_int r * 10 powi (ilog10 x - int p)"
      using carry by (simp add: pow10_powi power_int_add power_int_diff field_simps)
    then show ?thesis using rounded_le [OF assms, of p] by (simp add: r_def)
  next
    case digits
    then show ?thesis using rounded_value_le [OF assms r_def] by (simp add: pow10_powi)
  qed (rule Suc.IH)
qed

end
