(* ===== verification/Governance_Valid.thy ===== *)
theory Governance_Valid
  imports Governance_Walk Governance_Store Py_Decimal
begin

text \<open>
  From discovery to storage: which of the checks of \<open>normalize_discovery\<close> a discovered snapshot can fail. The parsers
  already guarantee every bound on texts, statuses, percentages and renders; what remains are properties of the rendered
  documents, listed in \<open>proposal_storable\<close>.
\<close>

section \<open>Texts\<close>

lemma ustrip_ends: "ustrip s \<noteq> [] \<Longrightarrow> \<not> uspace (hd (ustrip s))" "ustrip s \<noteq> [] \<Longrightarrow> \<not> uspace (List.last (ustrip s))"
proof -
  assume ne: "ustrip s \<noteq> []"
  define r where "r = dropWhile uspace (rev (dropWhile uspace s))"
  have "ustrip s = rev r" by (simp add: ustrip_def r_def)
  with ne have "r \<noteq> []" "List.last (ustrip s) = hd r" by (simp_all add: last_rev)
  then show "\<not> uspace (List.last (ustrip s))" using hd_dropWhile [of uspace "rev (dropWhile uspace s)"] by (simp add: r_def)
  obtain t where t: "dropWhile uspace s = ustrip s @ t"
    unfolding ustrip_def by (metis append_eq_append_conv2 rev_append rev_rev_ident takeWhile_dropWhile_id)
  with ne have "dropWhile uspace s \<noteq> []" by simp
  then have "\<not> uspace (hd (dropWhile uspace s))" by (rule hd_dropWhile)
  with t ne show "\<not> uspace (hd (ustrip s))" by simp
qed

lemma ustrip_same: "s = [] \<or> \<not> uspace (hd s) \<and> \<not> uspace (List.last s) \<Longrightarrow> ustrip s = s"
proof (cases "s = []")
  case False
  assume "s = [] \<or> \<not> uspace (hd s) \<and> \<not> uspace (List.last s)"
  with False have "dropWhile uspace s = s" "dropWhile uspace (rev s) = rev s"
    by (simp_all add: dropWhile_eq_self_iff hd_rev)
  then show ?thesis by (simp add: ustrip_def)
qed (simp add: ustrip_def)

lemma clip_length: "length (clip k s) \<le> k"
  by (simp add: clip_def)

lemma clip_head: "clip k s \<noteq> [] \<Longrightarrow> \<not> uspace (hd (clip k s))"
  using ustrip_ends(1) by (auto simp: clip_def hd_take)

lemma unescape_length: "length (unescape_markdown_text s) \<le> 1000"
  by (simp add: unescape_markdown_text_def clip_length)

lemma uwords_acc_ne: "acc \<noteq> [] \<or> \<not> ublank s \<Longrightarrow> uwords_acc acc s \<noteq> []"
  by (induction acc s rule: uwords_acc.induct) (auto simp: ublank_def)

lemma uwords_head: "s \<noteq> [] \<Longrightarrow> \<not> uspace (hd s) \<Longrightarrow> uwords s \<noteq> []"
  unfolding uwords_def by (rule uwords_acc_ne) (cases s, auto simp: ublank_def)

section \<open>Names and addresses\<close>

lemma find_address_ok: "find_address w prev s = Some a \<Longrightarrow> is_address a"
  by (induction w prev s rule: find_address.induct) (auto simp: take_address_def split: option.splits if_splits prod.splits)

definition display_ok :: "ustr option \<Rightarrow> bool" where
  "display_ok d = opt_check (\<lambda>t. t \<noteq> [] \<and> length t \<le> 1000 \<and> \<not> uspace (hd t)) d"

lemma parse_display_ok:
  assumes "parse_display uc s = (d, a)"
  shows "display_ok d" "opt_check is_address a"
proof -
  have "display_ok (nonempty (clip 1000 t))" for t
    using clip_length [of 1000 t] clip_head [of 1000 t] by (simp add: display_ok_def nonempty_def opt_check_def)
  then show "display_ok d" "opt_check is_address a"
    using assms by (auto simp: parse_display_def Let_def opt_check_def dest: find_address_ok split: option.splits)
qed

section \<open>Tiers\<close>

text \<open>What the Unicode standard says of upper case: one to three characters, none of them whitespace for a character that is
  not whitespace.\<close>

definition upper_ok :: "unicode_tables \<Rightarrow> bool" where
  "upper_ok uc \<longleftrightarrow> (\<forall>c. length (uc_upper uc c) \<le> 3 \<and>
     (\<not> uspace c \<longrightarrow> uc_upper uc c \<noteq> [] \<and> (\<forall>d \<in> set (uc_upper uc c). \<not> uspace d)))"

definition tier_ok :: "ustr \<Rightarrow> bool" where
  "tier_ok t \<longleftrightarrow> t \<noteq> [] \<and> ustrip t = t"

lemma uupper_stripped:
  assumes "upper_ok uc" and "s \<noteq> []" and "\<not> uspace (hd s)" and "\<not> uspace (List.last s)"
  shows "tier_ok (uupper uc s)"
proof -
  have up: "uc_upper uc c \<noteq> []" "d \<in> set (uc_upper uc c) \<Longrightarrow> \<not> uspace d" if "\<not> uspace c" for c d
    using assms(1) that by (auto simp: upper_ok_def)
  obtain c r where s: "s = c # r" using assms(2) by (cases s) auto
  have "uupper uc s = uc_upper uc c @ concat (map (uc_upper uc) r)" by (simp add: uupper_def s)
  then have h: "uupper uc s \<noteq> []" "\<not> uspace (hd (uupper uc s))" using up [of c] assms(3) s by auto
  obtain b l where s': "s = b @ [l]" using assms(2) by (metis append_butlast_last_id)
  have "uupper uc s = concat (map (uc_upper uc) b) @ uc_upper uc l" by (simp add: uupper_def s')
  then have "\<not> uspace (List.last (uupper uc s))" using up [of l] assms(4) s' by auto
  with h ustrip_same show ?thesis by (simp add: tier_ok_def)
qed

lemma parse_tiers_ok: "upper_ok uc \<Longrightarrow> list_all tier_ok (parse_tiers uc s)"
  using ustrip_ends by (auto simp: parse_tiers_def list_all_iff intro: uupper_stripped)

section \<open>Summaries\<close>

definition texts_ok :: "ustr list \<Rightarrow> bool" where
  "texts_ok ws = list_all (\<lambda>w. length w \<le> 1000) ws"

definition listed_ok :: "gov_summary \<Rightarrow> bool" where
  "listed_ok s \<longleftrightarrow> 0 \<le> gm_proposal_id s \<and> display_ok (gm_author_display s) \<and> opt_check is_address (gm_author_address s) \<and>
     gm_status s \<in> set STATUSES \<and> list_all tier_ok (gm_eligible_tiers s)"

lemma list_status_ok: "fst (list_status uc v) \<in> set STATUSES" "opt_check (\<lambda>w. length w \<le> 1000) (snd (list_status uc v))"
  using clip_length [of 100 v] by (auto simp: list_status_def STATUSES_def opt_check_def split: option.splits if_splits)

lemma parse_section_ok:
  assumes "upper_ok uc" and "parse_section uc sec = Inr s"
  shows "listed_ok s"
proof -
  obtain digits title ls where sec: "sec = ((digits, title), ls)" by (metis surj_pair)
  obtain v where v: "last_field ''status'' ls = Some v" using assms(2) by (auto simp: parse_section_def sec split: option.splits)
  obtain status w where st: "list_status uc v = (status, w)" by fastforce
  obtain author address where a: "parse_display uc (case last_field ''author'' ls of Some v \<Rightarrow> v | None \<Rightarrow> []) = (author, address)" by fastforce
  show ?thesis
    using assms(2) parse_display_ok [OF a] list_status_ok(1) [of uc v] parse_tiers_ok [OF assms(1)]
    by (auto simp: parse_section_def sec v st a listed_ok_def bindE_Inr_iff Let_def)
qed

lemma parse_list_ok:
  assumes "upper_ok uc" and "parse_proposal_list uc render = Inr (ps, ws)"
  shows "\<forall>p \<in> set ps. listed_ok p"
proof -
  obtain ls qs seen where m: "mapE (parse_section uc) (list_sections ls) = Inr qs" and f: "foldE add_summary qs [] = Inr seen" "ps = map snd seen"
    using assms(2) by (auto simp: parse_proposal_list_def bindE_Inr_iff)
  have "\<forall>q \<in> set qs. listed_ok q"
    using parse_section_ok [OF assms(1)] mapE_Inr_set [OF m] by blast
  moreover have "set ps = set qs" using add_summaries_keyed [OF f(1)] f(2) by (simp add: keyed_def)
  ultimately show ?thesis by simp
qed

section \<open>Details\<close>

definition percent_ok :: "pyfloat option \<Rightarrow> bool" where
  "percent_ok = opt_check (\<lambda>f. \<exists>x. f = Fin x \<and> 0 \<le> x \<and> x \<le> 100)"

definition detail_ok :: "detail_doc \<Rightarrow> bool" where
  "detail_ok d \<longleftrightarrow> length (dd_title d) \<le> 1000 \<and> display_ok (dd_author_display d) \<and> opt_check is_address (dd_author_address d) \<and>
     dd_status d \<in> set STATUSES \<and> list_all tier_ok (dd_eligible_tiers d) \<and> length (dd_description d) \<le> MAX_TEXT_CHARS \<and>
     opt_check (\<lambda>t. length t \<le> MAX_TEXT_CHARS) (dd_executor_text d) \<and> opt_check (\<lambda>t. length t \<le> 1000) (dd_executor_creation_realm d) \<and>
     opt_check (\<lambda>t. length t \<le> 10000) (dd_rejection_reason d) \<and> (\<forall>k. percent_ok (dd_percent d k)) \<and>
     dd_detail_parse_status d \<in> set DETAIL_STATUSES \<and> texts_ok (dd_warnings d)"

definition acc_ok :: "stats_acc \<Rightarrow> bool" where
  "acc_ok acc \<longleftrightarrow> list_all tier_ok (sa_tiers acc) \<and> opt_check (\<lambda>t. length t \<le> 10000) (sa_reason acc) \<and>
     (\<forall>k. percent_ok (sa_percent acc k)) \<and> texts_ok (sa_warnings acc)"

lemma nonempty_clip [simp]: "opt_check (\<lambda>t. length t \<le> k) (nonempty (clip k s))"
  by (simp add: nonempty_def opt_check_def clip_length)

lemma ci_label_length: "ci_label ls s = Some (l, r) \<Longrightarrow> \<forall>x \<in> set ls. length x \<le> k \<Longrightarrow> length l \<le> k"
  by (induction ls s rule: ci_label.induct) (auto split: if_splits)

lemma uupper_length: "upper_ok uc \<Longrightarrow> length (uupper uc s) \<le> 3 * length s"
  by (induction s) (auto simp: uupper_def upper_ok_def intro!: add_mono)

lemma match_percent_length:
  assumes "match_percent s = Some (option, raw)"
  shows "length option \<le> 7"
proof -
  obtain s1 s2 where "ci_label VOTE_OPTIONS s1 = Some (option, s2)" using assms by (auto simp: match_percent_def split: Option.bind_splits)
  then show ?thesis by (rule ci_label_length) (simp add: VOTE_OPTIONS_def)
qed

lemma stats_percent_ok:
  assumes "upper_ok uc" and "acc_ok acc"
  shows "acc_ok (stats_percent uc s acc)"
proof (cases "match_percent s")
  case (Some p)
  obtain option raw where p: "p = (option, raw)" by fastforce
  have "length option \<le> 7" using match_percent_length Some p by simp
  then have "length (uupper uc option) \<le> 21" using uupper_length [OF assms(1), of option] by linarith
  then have w: "texts_ok (sa_warnings acc @ [u ''Invalid '' @ uupper uc option @ u '' percentage''])"
    using assms(2) by (simp add: acc_ok_def texts_ok_def)
  show ?thesis using assms(2) w Some p
    by (auto simp: stats_percent_def acc_ok_def percent_ok_def opt_check_def split: pyfloat.splits)
qed (use assms in \<open>simp add: stats_percent_def\<close>)

lemma stats_line_ok:
  assumes "upper_ok uc" and "acc_ok acc"
  shows "acc_ok (stats_line uc l acc)"
proof -
  have "acc_ok (stats_tiers uc s a)" if "acc_ok a" for s a
    using that parse_tiers_ok [OF assms(1)] by (auto simp: stats_tiers_def acc_ok_def split: option.splits)
  moreover have "acc_ok (stats_reason s a)" if "acc_ok a" for s a
    using that by (auto simp: stats_reason_def acc_ok_def split: option.splits)
  ultimately show ?thesis using assms stats_percent_ok by (simp add: stats_line_def Let_def)
qed

lemma parse_stats_ok:
  assumes "upper_ok uc"
  shows "acc_ok (parse_stats uc status ls)"
  unfolding parse_stats_def
proof (rule fold_invariant [where Q = "\<lambda>_. True" and P = acc_ok])
  show "acc_ok \<lparr>sa_tiers = [], sa_reason = None, sa_percent = \<lambda>_. None,
      sa_warnings = if status = ''UNKNOWN'' then [u ''Official proposal status section was not recognized''] else []\<rparr>"
    by (simp add: acc_ok_def percent_ok_def opt_check_def texts_ok_def)
qed (simp_all add: stats_line_ok [OF assms])

lemma parse_metadata_ok:
  assumes "parse_metadata ls i sep = (body, realm)"
  shows "opt_check (\<lambda>t. length t \<le> MAX_TEXT_CHARS) body" "opt_check (\<lambda>t. length t \<le> 1000) realm"
proof -
  have last: "opt_check (\<lambda>t. length t \<le> 1000) (List.last (map (\<lambda>l. nonempty (clip 1000 (g l))) xs))" if "xs \<noteq> []" for g :: "ustr \<Rightarrow> ustr" and xs
    using that by (simp add: last_map)
  show "opt_check (\<lambda>t. length t \<le> MAX_TEXT_CHARS) body" "opt_check (\<lambda>t. length t \<le> 1000) realm"
    using assms last by (auto simp: parse_metadata_def Let_def split: if_splits) (simp add: opt_check_def)
qed

lemma find_author_ok:
  assumes "find_author uc ls = (d, a)"
  shows "display_ok d" "opt_check is_address a"
proof -
  have "display_ok None" "opt_check is_address None" by (simp_all add: display_ok_def opt_check_def)
  then show "display_ok d" "opt_check is_address a"
    using assms parse_display_ok by (auto simp: find_author_def split: option.splits)
qed

lemma detail_at_ok:
  assumes "upper_ok uc"
  shows "detail_ok (detail_at uc ls header title i)"
proof -
  obtain author address where a: "find_author uc (drop (Suc header) ls) = (author, address)" by fastforce
  obtain body realm where t: "(case find_metadata ls header of
      Some i \<Rightarrow> parse_metadata ls i (find_separator ls header (find_stats uc ls header)) | None \<Rightarrow> (None, None)) = (body, realm)" by fastforce
  have "opt_check (\<lambda>t. length t \<le> MAX_TEXT_CHARS) body" "opt_check (\<lambda>t. length t \<le> 1000) realm"
    using t parse_metadata_ok by (cases "find_metadata ls header"; fastforce simp: opt_check_def)+
  moreover have "detail_status s \<in> set STATUSES" for s by (simp add: detail_status_def STATUSES_def)
  ultimately show ?thesis
    using find_author_ok [OF a] parse_stats_ok [OF assms]
    by (auto simp: detail_at_def Let_def a t detail_ok_def unescape_length clip_length acc_ok_def DETAIL_STATUSES_def texts_ok_def
        list_all_iff dest!: in_set_takeD)
qed

lemma parse_detail_ok:
  assumes "upper_ok uc" and "parse_detail uc render i = Inr d"
  shows "detail_ok d" "dd_proposal_id d = i" "length (dd_warnings d) \<le> MAX_WARNINGS"
proof -
  obtain ls header title where "d = detail_at uc ls header title i"
    using assms(2) by (auto simp: parse_detail_def bindE_Inr_iff Let_def split: option.splits prod.splits) (metis surj_pair)
  then show "detail_ok d" "dd_proposal_id d = i" "length (dd_warnings d) \<le> MAX_WARNINGS"
    using detail_at_ok [OF assms(1)] by (auto simp: detail_at_def Let_def split: prod.splits)
qed

section \<open>Votes\<close>

definition cast_ok :: "gov_vote \<Rightarrow> bool" where
  "cast_ok v \<longleftrightarrow> uwords (gv_voter_display v) \<noteq> [] \<and> length (gv_voter_display v) \<le> 1000 \<and> opt_check is_address (gv_voter_address v) \<and>
     ustrip (gv_tier v) = gv_tier v"

definition votes_ok :: "votes_acc \<Rightarrow> bool" where
  "votes_ok acc \<longleftrightarrow> list_all cast_ok (va_votes acc) \<and> opt_check (\<lambda>(_, tier, _). ustrip tier = tier) (va_group acc)"

lemma clip_run:
  assumes "\<forall>c \<in> set s. \<not> uspace c"
  shows "ustrip (clip k s) = clip k s"
proof -
  have "uspace 10" "uspace 13" by (simp_all add: uspace_def)
  then have "unify_newlines s = s" using assms by (induction s) auto
  then have c: "\<forall>c \<in> set (clip k s). \<not> uspace c" using assms
    by (auto simp: clip_def ustrip_def dest!: in_set_takeD set_dropWhileD)
  then show ?thesis by (intro ustrip_same) (auto intro: hd_in_set last_in_set)
qed

lemma match_group_tier:
  assumes "match_vote_group s = Some (option, tier, vp)"
  shows "\<forall>c \<in> set tier. \<not> uspace c"
proof -
  obtain s4 where "tier = takeWhile (\<lambda>c. \<not> uspace c) s4"
    using assms by (auto simp: match_vote_group_def Let_def split: Option.bind_splits if_splits)
  then show ?thesis by (auto dest: set_takeWhileD)
qed

lemma vote_of_ok:
  assumes "vote_of uc (option, tier, vp) s = Some v" and "ustrip tier = tier"
  shows "cast_ok v"
proof -
  obtain d a where da: "parse_display uc (ustrip (drop 2 s)) = (d, a)" by fastforce
  show ?thesis using assms parse_display_ok [OF da] uwords_head
    by (auto simp: vote_of_def da cast_ok_def display_ok_def opt_check_def split: if_splits)
qed

lemma vote_line_ok: "votes_ok acc \<Longrightarrow> votes_ok (vote_line uc l acc)"
  by (auto simp: vote_line_def Let_def votes_ok_def opt_check_def split: option.splits prod.splits Option.bind_splits
      intro: vote_of_ok clip_run dest: match_group_tier)

lemma parse_votes_ok:
  assumes "parse_votes uc render = Inr (status, votes, ws)"
  shows "status \<in> set VOTE_STATUSES" "list_all cast_ok votes" "status = ''empty'' \<Longrightarrow> votes = []" "status = ''parsed'' \<Longrightarrow> votes \<noteq> []"
    "length ws \<le> 1" "texts_ok ws"
proof -
  have "votes_ok (fold (vote_line uc) ls \<lparr>va_group = None, va_votes = [], va_invalid = False\<rparr>)" for ls
    by (rule fold_invariant [where Q = "\<lambda>_. True" and P = votes_ok]) (simp_all add: vote_line_ok, simp add: votes_ok_def opt_check_def)
  then show "status \<in> set VOTE_STATUSES" "list_all cast_ok votes" "status = ''empty'' \<Longrightarrow> votes = []" "status = ''parsed'' \<Longrightarrow> votes \<noteq> []"
    "length ws \<le> 1" "texts_ok ws"
    using assms by (auto simp: parse_votes_def bindE_Inr_iff Let_def VOTE_STATUSES_def texts_ok_def votes_ok_def split: if_splits)
qed

section \<open>Discovered proposals\<close>

definition proposal_ok :: "gov_proposal \<Rightarrow> bool" where
  "proposal_ok p \<longleftrightarrow> 0 \<le> gp_proposal_id p \<and> length (gp_title p) \<le> 1000 \<and> opt_check (\<lambda>t. length t \<le> 1000) (gp_author_display p) \<and>
     opt_check is_address (gp_author_address p) \<and> gp_status p \<in> set STATUSES \<and> list_all tier_ok (gp_eligible_tiers p) \<and>
     length (gp_description p) \<le> MAX_TEXT_CHARS \<and> opt_check (\<lambda>t. length t \<le> MAX_TEXT_CHARS) (gp_executor_text p) \<and>
     opt_check (\<lambda>t. length t \<le> 1000) (gp_executor_creation_realm p) \<and> opt_check (\<lambda>t. length t \<le> 10000) (gp_rejection_reason p) \<and>
     percent_ok (gp_yes_percent p) \<and> percent_ok (gp_no_percent p) \<and> percent_ok (gp_abstain_percent p) \<and>
     gp_detail_parse_status p \<in> set DETAIL_STATUSES \<and> gp_votes_parse_status p \<in> set VOTE_STATUSES \<and> list_all cast_ok (gp_votes p) \<and>
     (gp_votes_parse_status p = ''empty'' \<longrightarrow> gp_votes p = []) \<and> (gp_votes_parse_status p = ''parsed'' \<longrightarrow> gp_votes p \<noteq> []) \<and>
     length (gp_parse_warnings p) \<le> MAX_WARNINGS \<and> texts_ok (gp_parse_warnings p)"

lemma texts_take [simp]: "texts_ok ws \<Longrightarrow> texts_ok (take k ws)"
  by (auto simp: texts_ok_def list_all_iff dest: in_set_takeD)

lemma detail_notes_ok: "texts_ok (detail_notes uc s d)"
  by (simp add: detail_notes_def texts_ok_def)

lemma merge_detail_ok:
  assumes "detail_ok d" and "listed_ok s" and "dd_proposal_id d = gm_proposal_id s" and "parse_votes uc render = Inr (status, votes, ws)"
  shows "proposal_ok (merge_detail uc s d status votes ws)"
proof -
  have "texts_ok (take MAX_WARNINGS (dd_warnings d @ ws @ detail_notes uc s d))"
    using assms(1) parse_votes_ok(6) [OF assms(4)] detail_notes_ok [of uc s d]
    by (intro texts_take) (simp add: detail_ok_def texts_ok_def)
  then show ?thesis
    using assms(1-3) parse_votes_ok [OF assms(4)]
    by (auto simp: proposal_ok_def merge_detail_def detail_ok_def listed_ok_def display_ok_def opt_check_def split: option.splits)
qed

section \<open>Renders\<close>

definition raw_ok :: "raw_renders \<Rightarrow> bool" where
  "raw_ok raw = list_all (\<lambda>(_, s). list_all scalar s \<and> utf8_size s \<le> MAX_GOV_RENDER_BYTES) raw"

lemma raw_update: "raw_total (AList.update k v raw) \<le> raw_total raw + utf8_size v"
  by (induction raw) (auto simp: raw_total_def)

lemma raw_ok_update: "raw_ok raw \<Longrightarrow> list_all scalar v \<and> utf8_size v \<le> MAX_GOV_RENDER_BYTES \<Longrightarrow> raw_ok (AList.update k v raw)"
  by (induction raw) (auto simp: raw_ok_def)

lemma merge_raw_ok: "raw_ok found \<Longrightarrow> raw_ok raw \<Longrightarrow> raw_ok (merge_raw found raw)"
proof (induction found arbitrary: raw)
  case (Cons x found)
  obtain k v where x: "x = (k, v)" by fastforce
  with Cons.prems have "raw_ok found" "raw_ok (AList.update k v raw)" by (simp_all add: raw_ok_update raw_ok_def [of "_ # _"], simp add: raw_ok_def)
  then show ?case using Cons.IH x by (simp add: merge_raw_def)
qed (simp add: merge_raw_def)

lemma merge_raw_keeps: "map_of found k \<noteq> None \<or> map_of raw k \<noteq> None \<Longrightarrow> map_of (merge_raw found raw) k \<noteq> None"
proof (induction found arbitrary: raw)
  case (Cons x found)
  have "map_of (merge_raw found (AList.update (fst x) (snd x) raw)) k \<noteq> None"
    by (rule Cons.IH) (use Cons.prems in \<open>auto simp: update_conv split: if_splits\<close>)
  then show ?case by (cases x) (simp add: merge_raw_def)
qed (simp add: merge_raw_def)

lemma query_render_ok:
  assumes "query_render client source path n = (Inr render, k)"
  shows "1 \<le> gs_observed_height source" "list_all scalar render \<and> utf8_size render \<le> MAX_GOV_RENDER_BYTES"
proof -
  show "1 \<le> gs_observed_height source"
    using assms by (auto simp: query_render_def abci_query_def liftS_def retS_def elim!: bindS_snd split: if_splits)
  obtain j where "abci_text j = Inr render"
    using assms by (auto simp: query_render_def abci_query_def liftS_def retS_def bindE_Inr_iff elim!: bindS_snd split: if_splits)
  then have "list_all scalar render"
    by (auto simp: abci_text_def bindE_def guardE_def intro: utf8_decode_scalar split: sum.splits json.splits option.splits if_splits)
  moreover have "utf8_size render \<le> MAX_GOV_RENDER_BYTES"
    using assms by (auto simp: query_render_def liftS_def retS_def validate_size_def guardE_Inr_iff elim!: bindS_snd split: if_splits)
  ultimately show "list_all scalar render \<and> utf8_size render \<le> MAX_GOV_RENDER_BYTES" by simp
qed

definition pages_ok :: "nat \<Rightarrow> nat \<Rightarrow> list_state \<Rightarrow> bool" where
  "pages_ok mp mx st \<longleftrightarrow> keyed (ld_summaries st) \<and> (\<forall>s \<in> snd ` set (ld_summaries st). listed_ok s) \<and> length (ld_summaries st) \<le> mx \<and>
     ld_pages st \<le> mp \<and> raw_ok (ld_raw st) \<and> raw_total (ld_raw st) \<le> ld_raw_bytes st \<and> ld_raw_bytes st \<le> MAX_TOTAL_RAW_BYTES"

lemma list_fetch_ok:
  assumes "list_fetch client source c path st n = (Inr (render, st'), k)" and "pages_ok mp mx st"
  shows "pages_ok mp mx st'" "1 \<le> gs_observed_height source"
proof -
  obtain k' where q: "query_render client source path n = (Inr render, k')"
    and st': "st' = st \<or> (ld_raw_bytes st + utf8_size render \<le> MAX_TOTAL_RAW_BYTES \<and>
      st' = st\<lparr>ld_raw := AList.update (page_name path) render (ld_raw st), ld_raw_bytes := ld_raw_bytes st + utf8_size render\<rparr>)"
    using assms(1) by (auto simp: list_fetch_def Let_def retS_def liftS_def guardE_Inr_iff elim!: bindS_snd split: if_splits)
  show "1 \<le> gs_observed_height source" by (rule query_render_ok [OF q])
  show "pages_ok mp mx st'"
    using st' assms(2) query_render_ok(2) [OF q] raw_update [of "page_name path" render "ld_raw st"]
    by (auto simp: pages_ok_def intro: raw_ok_update)
qed

lemma list_page_ok:
  assumes "upper_ok uc" and "list_page uc client source mx c path st n = (Inr st', k)" and "pages_ok mp mx st" and "ld_pages st < mp"
  shows "pages_ok mp mx st'" "1 \<le> gs_observed_height source"
proof -
  obtain render st1 where f: "list_fetch client source c path (st\<lparr>ld_visited := path # ld_visited st\<rparr>) n = (Inr (render, st1), k)"
    and a: "list_accept uc source mx path render st1 = Inr st'" using assms(2) by (rule list_page_Inr)
  have "pages_ok mp mx (st\<lparr>ld_visited := path # ld_visited st\<rparr>)" using assms(3) by (simp add: pages_ok_def)
  note st1 = list_fetch_ok [OF f this]
  then show "1 \<le> gs_observed_height source" by simp
  obtain ps ws where p: "parse_proposal_list uc render = Inr (ps, ws)" and fold: "foldE add_summary ps (ld_summaries st1) = Inr (ld_summaries st')"
    and same: "length (ld_summaries st') \<le> mx" "ld_pages st' = Suc (ld_pages st1)" "ld_raw st' = ld_raw st1" "ld_raw_bytes st' = ld_raw_bytes st1"
    using a by (auto simp: list_accept_def bindE_Inr_iff guardE_Inr_iff Let_def)
  have "keyed (ld_summaries st1)" using st1 by (simp add: pages_ok_def)
  then have "keyed (ld_summaries st') \<and> snd ` set (ld_summaries st') = set ps \<union> snd ` set (ld_summaries st1)"
    by (rule add_summaries_keyed [OF fold])
  then show "pages_ok mp mx st'"
    using st1(1) same parse_list_ok [OF assms(1) p] list_fetch_frame(1) [OF f] assms(4) by (auto simp: pages_ok_def)
qed

lemma start_page:
  assumes "list_loop uc client source (Suc mp) mx c start_state n = (Inr st, k)"
  obtains st1 n1 where "list_page uc client source mx c [] (start_state\<lparr>ld_queue := []\<rparr>) n = (Inr st1, n1)"
    and "list_loop uc client source (Suc mp) mx c st1 n1 = (Inr st, k)"
  using assms by (simp add: list_loop.simps [of uc client source "Suc mp" mx c start_state n])
    (auto simp: start_state_def split: prod.splits sum.splits)

lemma list_walk_ok:
  assumes "upper_ok uc" and "discover_governance_list uc client source mp mx c n = (Inr d, k)"
  shows "1 \<le> gs_observed_height source" "1 \<le> gl_page_count d" "gl_page_count d \<le> 100" "length (gl_proposals d) \<le> 1000"
    "\<forall>s \<in> set (gl_proposals d). listed_ok s" "distinct (map gm_proposal_id (gl_proposals d))" "raw_ok (gl_raw_renders d)"
    "raw_total (gl_raw_renders d) \<le> MAX_TOTAL_RAW_BYTES" "gl_source d = source"
proof -
  obtain st where loop: "list_loop uc client source (nat mp) (nat mx) c start_state n = (Inr st, k)" and d: "d = list_result source st"
    and m: "1 \<le> mp" "mp \<le> 100" "mx \<le> 1000" using assms(2) by (rule discover_list_Inr) blast
  obtain q where q: "nat mp = Suc q" using m by (metis Suc_le_D nat_1_add_1 nat_one_as_int nat_le_iff nat_mono nat_1)
  obtain st1 n1 where first: "list_page uc client source (nat mx) c [] (start_state\<lparr>ld_queue := []\<rparr>) n = (Inr st1, n1)"
    and rest: "list_loop uc client source (nat mp) (nat mx) c st1 n1 = (Inr st, k)" using loop unfolding q by (rule start_page)
  have start: "pages_ok (nat mp) (nat mx) (start_state\<lparr>ld_queue := []\<rparr>)"
    by (simp add: pages_ok_def start_state_def keyed_def raw_ok_def raw_total_def)
  have "ld_pages (start_state\<lparr>ld_queue := []\<rparr>) < nat mp" by (simp add: q start_state_def)
  note one = list_page_ok [OF assms(1) first start this] list_page_counts [OF first]
  have inv: "pages_ok (nat mp) (nat mx) st \<and> 1 \<le> ld_pages st"
  proof (rule list_loop_invariant [OF rest])
    fix path st n st' k
    assume "pages_ok (nat mp) (nat mx) st \<and> 1 \<le> ld_pages st" "ld_pages st < nat mp"
      and step: "list_page uc client source (nat mx) c path st n = (Inr st', k)"
    then show "pages_ok (nat mp) (nat mx) st' \<and> 1 \<le> ld_pages st'"
      using list_page_ok(1) [OF assms(1) step] list_page_counts [OF step] by simp
  qed (use one in \<open>simp_all add: pages_ok_def\<close>)
  show "1 \<le> gs_observed_height source" using one by simp
  show "1 \<le> gl_page_count d" "gl_page_count d \<le> 100" "length (gl_proposals d) \<le> 1000" "\<forall>s \<in> set (gl_proposals d). listed_ok s"
    "raw_ok (gl_raw_renders d)" "raw_total (gl_raw_renders d) \<le> MAX_TOTAL_RAW_BYTES" "gl_source d = source"
    using inv m by (auto simp: d list_result_def pages_ok_def)
  have "sorted_wrt (\<lambda>a b. gm_proposal_id b < gm_proposal_id a) (gl_proposals d)"
    using inv sorted_summaries by (simp add: d list_result_def pages_ok_def)
  then have "sorted_wrt (>) (map gm_proposal_id (gl_proposals d))" by (simp add: sorted_wrt_map)
  then show "distinct (map gm_proposal_id (gl_proposals d))" by (metis distinct_rev sorted_wrt_rev strict_sorted_iff)
qed

section \<open>Details of all proposals\<close>

lemma proposal_fetch_ok:
  assumes "proposal_fetch client source True name path raw n = (Inr (render, raw'), k)" and "raw_ok raw"
  shows "raw' = AList.update name render raw" "raw_ok raw'"
proof -
  obtain k' where q: "query_render client source (u path) n = (Inr render, k')" and r: "raw' = AList.update name render raw"
    using assms(1) by (auto simp: proposal_fetch_def retS_def liftS_def elim!: bindS_snd)
  show "raw' = AList.update name render raw" by (rule r)
  show "raw_ok raw'" using r assms(2) query_render_ok(2) [OF q] by (simp add: raw_ok_update)
qed

definition raws_present :: "raw_renders \<Rightarrow> int \<Rightarrow> bool" where
  "raws_present raw i \<longleftrightarrow> map_of raw (raw_name i) \<noteq> None \<and> map_of raw (raw_votes_name i) \<noteq> None"

lemma discover_proposal_ok:
  assumes "upper_ok uc" and "listed_ok s" and "discover_governance_proposal uc client source s True n = (Inr d, k)"
  obtains p where "gd_proposals d = [p]" "proposal_ok p" "gp_proposal_id p = gm_proposal_id s" "raws_present (gd_raw_renders d) (gm_proposal_id s)"
    "raw_ok (gd_raw_renders d)"
proof -
  obtain r1 raw1 n1 n2 dd r2 raw2 n3 status votes ws where
      f1: "proposal_fetch client source True (raw_name (gm_proposal_id s)) (str_int (gm_proposal_id s)) [] n = (Inr (r1, raw1), n1)"
    and pd: "parse_detail uc r1 (gm_proposal_id s) = Inr dd"
    and f2: "proposal_fetch client source True (raw_votes_name (gm_proposal_id s)) (str_int (gm_proposal_id s) @ ''/votes'') raw1 n2 = (Inr (r2, raw2), n3)"
    and pv: "parse_votes uc r2 = Inr (status, votes, ws)"
    and d: "gd_proposals d = [merge_detail uc s dd status votes ws]" "gd_raw_renders d = raw2"
    using assms(3) by (auto simp: discover_governance_proposal_def Let_def retS_def liftS_def elim!: bindS_snd split: prod.splits)
  have raw1: "raw1 = AList.update (raw_name (gm_proposal_id s)) r1 []" "raw_ok raw1"
    using proposal_fetch_ok [OF f1] by (simp_all add: raw_ok_def)
  note raw2 = proposal_fetch_ok [OF f2 raw1(2)]
  note dd = parse_detail_ok [OF assms(1) pd]
  have ok: "proposal_ok (merge_detail uc s dd status votes ws)" by (rule merge_detail_ok [OF dd(1) assms(2) dd(2) pv])
  have i: "gp_proposal_id (merge_detail uc s dd status votes ws) = gm_proposal_id s" by (simp add: merge_detail_def dd(2))
  have "raws_present raw2 (gm_proposal_id s)" using raw1 raw2 by (simp add: raws_present_def update_conv)
  then show ?thesis using raw2(2) unfolding d(2) [symmetric] by (rule that [OF d(1) ok i])
qed

lemma raws_present_merge: "raws_present found i \<or> raws_present raw i \<Longrightarrow> raws_present (merge_raw found raw) i"
  using merge_raw_keeps [of found "raw_name i" raw] merge_raw_keeps [of found "raw_votes_name i" raw] by (auto simp: raws_present_def)

lemma discover_details_ok:
  assumes "upper_ok uc"
  shows "discover_details uc client source True ss details raw n = (Inr (ps, raw'), k) \<Longrightarrow> \<forall>s \<in> set ss. listed_ok s \<Longrightarrow> raw_ok raw \<Longrightarrow>
    raw_total raw \<le> MAX_TOTAL_RAW_BYTES \<Longrightarrow> \<forall>p \<in> set details. proposal_ok p \<and> raws_present raw (gp_proposal_id p) \<Longrightarrow>
    map gp_proposal_id ps = map gp_proposal_id details @ map gm_proposal_id ss \<and> raw_ok raw' \<and> raw_total raw' \<le> MAX_TOTAL_RAW_BYTES \<and>
    (\<forall>p \<in> set ps. proposal_ok p \<and> raws_present raw' (gp_proposal_id p))"
proof (induction ss arbitrary: details raw n)
  case (Cons s ss)
  obtain d n1 where one: "discover_governance_proposal uc client source s True n = (Inr d, n1)"
    and total: "raw_total (merge_raw (gd_raw_renders d) raw) \<le> MAX_TOTAL_RAW_BYTES"
    and rest: "discover_details uc client source True ss (details @ gd_proposals d) (merge_raw (gd_raw_renders d) raw) n1 = (Inr (ps, raw'), k)"
    using Cons.prems(1) by (auto simp: liftS_def guardE_Inr_iff Let_def elim!: bindS_snd)
  obtain p where p: "gd_proposals d = [p]" "proposal_ok p" "gp_proposal_id p = gm_proposal_id s" "raws_present (gd_raw_renders d) (gm_proposal_id s)"
      "raw_ok (gd_raw_renders d)"
    using discover_proposal_ok [OF assms _ one] Cons.prems(2) by auto
  have "raw_ok (merge_raw (gd_raw_renders d) raw)" using merge_raw_ok p(5) Cons.prems(3) by blast
  moreover have "\<forall>q \<in> set (details @ gd_proposals d). proposal_ok q \<and> raws_present (merge_raw (gd_raw_renders d) raw) (gp_proposal_id q)"
    using Cons.prems(5) p(2-4) by (simp add: p(1) raws_present_merge)
  ultimately show ?case using Cons.IH [OF rest _ _ total] Cons.prems(2) p by simp
qed (simp add: retS_def)

lemma discovery_ok:
  assumes "upper_ok uc" and "discover_governance uc client source mp mx None True n = (Inr d, k)"
  shows "gd_source d = source" "1 \<le> gs_observed_height source" "1 \<le> gd_page_count d" "gd_page_count d \<le> MAX_GOVERNANCE_PAGES"
    "length (gd_proposals d) \<le> MAX_GOVERNANCE_PROPOSALS" "distinct (map gp_proposal_id (gd_proposals d))" "raw_ok (gd_raw_renders d)"
    "raw_total (gd_raw_renders d) \<le> MAX_TOTAL_RAW_BYTES" "\<forall>p \<in> set (gd_proposals d). proposal_ok p \<and> raws_present (gd_raw_renders d) (gp_proposal_id p)"
proof -
  obtain listed n1 ps raw where l: "discover_governance_list uc client source mp mx True n = (Inr listed, n1)"
    and det: "discover_details uc client source True (gl_proposals listed) [] (gl_raw_renders listed) n1 = (Inr (ps, raw), k)"
    and d: "d = \<lparr>gd_source = source, gd_complete = gl_complete listed, gd_page_count = gl_page_count listed, gd_proposals = ps,
                gd_warnings = take MAX_WARNINGS (gl_warnings listed), gd_raw_renders = raw\<rparr>"
    using assms(2) by (auto simp: discover_governance_def retS_def elim!: bindS_snd)
  note w = list_walk_ok [OF assms(1) l]
  have r: "map gp_proposal_id ps = map gm_proposal_id (gl_proposals listed)" "raw_ok raw" "raw_total raw \<le> MAX_TOTAL_RAW_BYTES"
      "\<forall>p \<in> set ps. proposal_ok p \<and> raws_present raw (gp_proposal_id p)"
    using discover_details_ok [OF assms(1) det w(5,7,8)] by simp_all
  have "length ps = length (gl_proposals listed)" using arg_cong [OF r(1), of length] by simp
  then show "gd_source d = source" "1 \<le> gs_observed_height source" "1 \<le> gd_page_count d" "gd_page_count d \<le> MAX_GOVERNANCE_PAGES"
    "length (gd_proposals d) \<le> MAX_GOVERNANCE_PROPOSALS" "distinct (map gp_proposal_id (gd_proposals d))" "raw_ok (gd_raw_renders d)"
    "raw_total (gd_raw_renders d) \<le> MAX_TOTAL_RAW_BYTES" "\<forall>p \<in> set (gd_proposals d). proposal_ok p \<and> raws_present (gd_raw_renders d) (gp_proposal_id p)"
    using w r by (simp_all add: d MAX_GOVERNANCE_PAGES_def MAX_GOVERNANCE_PROPOSALS_def)
qed

end
