(* ===== verification/Governance_Storable.thy ===== *)
theory Governance_Storable
  imports Governance_Valid
begin

text \<open>
  Discovery and persistence together: a discovered snapshot passes \<open>normalize_discovery\<close> exactly when it is complete and its
  documents are storable.
\<close>

section \<open>Percentages\<close>

lemma printed_value_bounds:
  assumes "0 \<le> x" and "x \<le> 100"
  shows "0 \<le> printed_value x" "printed_value x \<le> 100"
proof -
  have "0 \<le> printed_value x \<and> printed_value x \<le> 100"
  proof (cases "x = 0")
    case False
    obtain e m where s: "shortest 17 1 x = (e, m)" by fastforce
    have "x \<le> 10 powi 2" using assms(2) by simp
    then have "of_nat m * pow10 (e - int (length (digits_of_nat m)) + 1) \<le> 10 powi 2"
      using shortest_le [of x 2 17 0 e m] False assms(1) s by simp
    moreover have "0 \<le> pow10 k" for k by (simp add: pow10_powi)
    ultimately show ?thesis using False assms(1) s by (simp add: printed_value_def)
  qed (simp add: printed_value_def)
  then show "0 \<le> printed_value x" "printed_value x \<le> 100" by simp_all
qed

lemma percentage_ok:
  assumes "percent_ok f"
  shows "\<exists>r. percentage f = Inr r"
proof (cases f)
  case (Some g)
  then obtain x where x: "g = Fin x" "0 \<le> x" "x \<le> 100" using assms by (auto simp: percent_ok_def opt_check_def)
  note b = printed_value_bounds [OF x(2,3)]
  then have "0 \<le> \<lfloor>printed_value x * 10000 + 1 / 2\<rfloor>" "\<lfloor>printed_value x * 10000 + 1 / 2\<rfloor> \<le> 1000000" by (simp_all add: floor_le_iff)
  then show ?thesis using Some x(1) b by (simp add: percentage_def guardE_def)
qed (simp add: percentage_def)

section \<open>Votes\<close>

definition vote_key :: "(nat \<Rightarrow> ustr) \<Rightarrow> gov_vote \<Rightarrow> ustr" where
  "vote_key cf v = voter_key cf (gv_voter_display v) (gv_voter_address v)"

text \<open>What the documents must satisfy for a vote: a known option, a tier of at most 64 characters, a decimal power, a
  voter key within the column.\<close>

definition vote_storable :: "(nat \<Rightarrow> ustr) \<Rightarrow> gov_vote \<Rightarrow> bool" where
  "vote_storable cf v \<longleftrightarrow> gv_option v \<in> set VOTE_OPTIONS \<and> gv_tier v \<noteq> [] \<and> length (gv_tier v) \<le> 64 \<and> power_digits (gv_voting_power v) \<and>
     length (vote_key cf v) \<le> 1100"

lemma vote_key_ne [simp]: "vote_key cf v \<noteq> []"
  by (simp add: vote_key_def voter_key_def split: option.splits list.splits)

lemma normalize_vote_iff:
  assumes "cast_ok v"
  shows "(\<exists>r. normalize_vote cf v votes = Inr r) \<longleftrightarrow> vote_storable cf v \<and> vote_key cf v \<notin> set (map fst votes)"
proof -
  have "uwords (gv_voter_display v) \<noteq> []" "length (gv_voter_display v) \<le> 1000" "opt_check is_address (gv_voter_address v)"
    "ustrip (gv_tier v) = gv_tier v" using assms by (simp_all add: cast_ok_def)
  then show ?thesis
    using vote_key_ne [of cf v]
    by (simp add: normalize_vote_def bindE_Inr_iff gov_guard_def guardE_Inr_iff vote_storable_def vote_key_def Let_def conj_ac)
qed

lemma normalize_vote_keys: "normalize_vote cf v votes = Inr r \<Longrightarrow> map fst r = map fst votes @ [vote_key cf v]"
  by (auto simp: normalize_vote_def bindE_Inr_iff Let_def vote_key_def)

lemma normalize_votes_iff:
  "list_all cast_ok vs \<Longrightarrow> (\<exists>r. foldE (normalize_vote cf) vs acc = Inr r) \<longleftrightarrow>
     list_all (vote_storable cf) vs \<and> distinct (map (vote_key cf) vs) \<and> set (map (vote_key cf) vs) \<inter> set (map fst acc) = {}"
proof (induction vs arbitrary: acc)
  case (Cons v vs)
  then have v: "cast_ok v" "list_all cast_ok vs" by simp_all
  show ?case
  proof (cases "\<exists>a. normalize_vote cf v acc = Inr a")
    case True
    then obtain a where a: "normalize_vote cf v acc = Inr a" by blast
    have "vote_storable cf v \<and> vote_key cf v \<notin> set (map fst acc)" using normalize_vote_iff [OF v(1)] a by blast
    then show ?thesis using Cons.IH [OF v(2), of a] normalize_vote_keys [OF a] by (auto simp: a)
  next
    case False
    then have "\<not> (\<exists>r. foldE (normalize_vote cf) (v # vs) acc = Inr r)" by (simp add: bindE_Inr_iff)
    moreover have "\<not> (vote_storable cf v \<and> vote_key cf v \<notin> set (map fst acc))" using normalize_vote_iff [OF v(1)] False by blast
    ultimately show ?thesis by auto
  qed
qed simp

section \<open>Proposals\<close>

definition proposal_storable :: "(nat \<Rightarrow> ustr) \<Rightarrow> gov_proposal \<Rightarrow> bool" where
  "proposal_storable cf p \<longleftrightarrow> gp_title p \<noteq> [] \<and> list_all (\<lambda>t. length t \<le> 64) (gp_eligible_tiers p) \<and> gp_votes_parse_status p \<noteq> ''unparsed'' \<and>
     list_all (vote_storable cf) (gp_votes p) \<and> distinct (map (vote_key cf) (gp_votes p))"

lemma normalize_proposal_iff:
  assumes "proposal_ok p" and "raws_present (gd_raw_renders d) (gp_proposal_id p)" and "gp_proposal_id p \<notin> set (map np_id rows)"
  shows "(\<exists>r. normalize_proposal cf d p rows = Inr r) \<longleftrightarrow> proposal_storable cf p"
proof -
  obtain y n a where per: "percentage (gp_yes_percent p) = Inr y" "percentage (gp_no_percent p) = Inr n" "percentage (gp_abstain_percent p) = Inr a"
    using assms(1) percentage_ok by (metis proposal_ok_def)
  obtain rd rv where raws: "proposal_raw_renders d (gp_proposal_id p) = (Some rd, Some rv)"
    using assms(2) by (auto simp: raws_present_def proposal_raw_renders_def)
  have tiers: "list_all (\<lambda>t. nonempty_text t 64 \<and> t = ustrip t) (gp_eligible_tiers p) = list_all (\<lambda>t. length t \<le> 64) (gp_eligible_tiers p)"
    using assms(1) by (auto simp: proposal_ok_def list_all_iff tier_ok_def nonempty_text_def)
  have votes: "(\<exists>vs. foldE (normalize_vote cf) (gp_votes p) [] = Inr vs) \<longleftrightarrow>
      list_all (vote_storable cf) (gp_votes p) \<and> distinct (map (vote_key cf) (gp_votes p))"
    using normalize_votes_iff [of "gp_votes p" cf "[]"] assms(1) by (simp add: proposal_ok_def)
  have title: "nonempty_text (gp_title p) 1000 = (gp_title p \<noteq> [])" using assms(1) by (simp add: proposal_ok_def nonempty_text_def)
  note guards = assms(1) [unfolded proposal_ok_def texts_ok_def]
  show ?thesis
    unfolding normalize_proposal_def gov_guard_def bounded_text_def per raws tiers title proposal_storable_def
    using guards assms(3) votes by (simp add: bindE_Inr_iff guardE_Inr_iff)
qed

lemma normalize_proposals_iff:
  assumes "raws_small d"
  shows "\<forall>p \<in> set ps. proposal_ok p \<and> raws_present (gd_raw_renders d) (gp_proposal_id p) \<Longrightarrow>
    distinct (map np_id rows @ map gp_proposal_id ps) \<Longrightarrow>
    (\<exists>r. foldE (normalize_proposal cf d) ps rows = Inr r) \<longleftrightarrow> list_all (proposal_storable cf) ps"
proof (induction ps arbitrary: rows)
  case (Cons p ps)
  have iff: "(\<exists>r. normalize_proposal cf d p rows = Inr r) \<longleftrightarrow> proposal_storable cf p"
    by (rule normalize_proposal_iff) (use Cons.prems in auto)
  show ?case
  proof (cases "\<exists>a. normalize_proposal cf d p rows = Inr a")
    case True
    then obtain a where a: "normalize_proposal cf d p rows = Inr a" by blast
    then obtain r where r: "a = rows @ [r]" "np_id r = gp_proposal_id p" using normalize_proposal_step [OF a assms] by blast
    have "(\<exists>r. foldE (normalize_proposal cf d) ps a = Inr r) \<longleftrightarrow> list_all (proposal_storable cf) ps"
      by (rule Cons.IH) (use Cons.prems r in auto)
    then show ?thesis using iff a by auto
  next
    case False
    then show ?thesis using iff by (auto simp: bindE_Inr_iff)
  qed
qed simp

section \<open>The snapshot\<close>

text \<open>C40: With the upper case table of the Unicode standard and a source the configuration allows, a full discovery passes the
  validation of the persistence layer exactly when it is complete and every proposal is storable: a title that is not empty,
  tiers within their column, votes that were recognised, each with a known option, tier and power, no voter twice. No other
  check of the validation can fail.\<close>

theorem discovered_snapshot_validated:
  assumes "upper_ok uc" and "discover_governance uc client source mp mx None True n = (Inr d, k)"
    and "gs_chain_id source \<noteq> []" and "length (gs_chain_id source) \<le> 128" and "gs_realm_path source \<noteq> []" and "length (gs_realm_path source) \<le> 512"
  shows "(\<exists>rows. normalize_discovery cf d (gs_chain_id source) = Inr rows) \<longleftrightarrow> gd_complete d \<and> list_all (proposal_storable cf) (gd_proposals d)"
proof -
  note ok = discovery_ok [OF assms(1,2)]
  have "raws_small d" using ok(7) by (auto simp: raws_small_def raw_ok_def list_all_iff)
  then have "(\<exists>r. foldE (normalize_proposal cf d) (gd_proposals d) [] = Inr r) \<longleftrightarrow> list_all (proposal_storable cf) (gd_proposals d)"
    by (rule normalize_proposals_iff) (use ok(6,9) in simp_all)
  then show ?thesis
    using ok assms(3-6)
    by (auto simp: normalize_discovery_def Let_def bindE_Inr_iff gov_guard_def guardE_Inr_iff checkE_Inr_iff check_raw_render_Inr raw_ok_def list_all_iff)
qed

section \<open>A snapshot of one proposal\<close>

lemma merge_raw_total: "raw_total (merge_raw found raw) \<le> raw_total found + raw_total raw"
proof (induction found arbitrary: raw)
  case (Cons x found)
  obtain k v where x: "x = (k, v)" by fastforce
  have "raw_total (merge_raw (x # found) raw) \<le> raw_total found + raw_total (AList.update k v raw)" using Cons [of "AList.update k v raw"]
    by (simp add: merge_raw_def x)
  then show ?case using raw_update [of k v raw] by (simp add: x raw_total_def [of "_ # _"], simp add: raw_total_def)
qed (simp add: merge_raw_def raw_total_def)

definition walk_client :: qclient where
  "walk_client n params = Inr (abci_reply (if n = 2 then u ''No votes.'' else walk_page))"

lemma query_render_reply:
  assumes "\<And>params. client n params = Inr (abci_reply t)" and "list_all scalar t" and "utf8_size t \<le> MAX_ABCI_RESPONSE_BYTES"
    and "1 \<le> gs_observed_height source"
  shows "query_render client source path n = (Inr t, Suc n)"
  using assms abci_reply_text [OF assms(2,3)]
  by (simp add: query_render_def abci_query_def bindS_def liftS_def retS_def validate_size_def MAX_GOV_RENDER_BYTES_def
      MAX_ABCI_RESPONSE_BYTES_def guardE_def)

lemma sample_queries:
  "n \<noteq> 2 \<Longrightarrow> query_render walk_client walk_source path n = (Inr walk_page, Suc n)"
  "query_render walk_client walk_source path 2 = (Inr (u ''No votes.''), 3)"
proof -
  show "n \<noteq> 2 \<Longrightarrow> query_render walk_client walk_source path n = (Inr walk_page, Suc n)"
    by (rule query_render_reply) (simp_all add: walk_client_def sample_page_size walk_source_def)
  have "query_render walk_client walk_source path 2 = (Inr (u ''No votes.''), Suc 2)"
    by (rule query_render_reply) (simp_all add: walk_client_def walk_source_def scalar_def utf8_size_def utf8_bytes_def utf8_char_def
        MAX_ABCI_RESPONSE_BYTES_def)
  then show "query_render walk_client walk_source path 2 = (Inr (u ''No votes.''), 3)" by simp
qed

lemma sample_size: "utf8_size walk_page = 29" "utf8_size (u ''No votes.'') = 9"
  by (simp_all add: walk_page_def utf8_size_def utf8_bytes_def utf8_char_def)

definition sample_detail :: detail_doc where
  "sample_detail = detail_at sample_tables [u ''## Prop #1 - A'', u ''Status: ACTIVE''] 0 (u ''A'') 1"

lemma sample_detail_parsed: "parse_detail sample_tables walk_page 1 = Inr sample_detail"
  using walk_header
  by (simp add: parse_detail_def sample_page_lines is_header_def sample_detail_def digits_int_def max_str_digits_def decimal_text_def guardE_def
      upt_rec del: u_simps) simp

lemma sample_detail_fields: "dd_title sample_detail = u ''A''" "dd_eligible_tiers sample_detail = []" "dd_proposal_id sample_detail = 1"
  by (simp_all add: sample_detail_def detail_at_def Let_def find_stats_def ufold_def sample_tables_def ustrip_def uspace_def ascii_low_def
      parse_stats_def unescape_markdown_text_def clip_def split: prod.splits)

lemma sample_votes_parsed: "parse_votes sample_tables (u ''No votes.'') = Inr (''empty'', [], [])"
  by (simp add: parse_votes_def render_lines_def validate_size_def sample_size(2) [simplified] MAX_GOV_RENDER_BYTES_def guardE_def ustrip_def uspace_def
      is_vote_title_def expect_def is_no_votes_def ci_full_def ci_expect_def ci_char_def ascii_low_def)

lemma walk_fetch:
  "proposal_fetch walk_client walk_source True (raw_name 1) (str_int 1) [] 1 = (Inr (walk_page, [(raw_name 1, walk_page)]), 2)"
  "proposal_fetch walk_client walk_source True (raw_votes_name 1) (str_int 1 @ ''/votes'') [(raw_name 1, walk_page)] 2 =
     (Inr (u ''No votes.'', AList.update (raw_votes_name 1) (u ''No votes.'') [(raw_name 1, walk_page)]), 3)"
proof -
  have "query_render walk_client walk_source p 1 = (Inr walk_page, 2)" for p using sample_queries(1) [of 1 p] by simp
  then show "proposal_fetch walk_client walk_source True (raw_name 1) (str_int 1) [] 1 = (Inr (walk_page, [(raw_name 1, walk_page)]), 2)"
    by (simp only: proposal_fetch_def bindS_def retS_def liftS_def guardE_def raw_total_def sample_size MAX_TOTAL_RAW_BYTES_def)
      (simp add: sample_size bindS_def retS_def liftS_def)
  have "query_render walk_client walk_source p 2 = (Inr (u ''No votes.''), 3)" for p by (rule sample_queries(2))
  moreover have "raw_total [(raw_name 1, walk_page)] + utf8_size (u ''No votes.'') \<le> MAX_TOTAL_RAW_BYTES"
    unfolding sample_size(2) by (simp add: raw_total_def sample_size(1) MAX_TOTAL_RAW_BYTES_def)
  ultimately show "proposal_fetch walk_client walk_source True (raw_votes_name 1) (str_int 1 @ ''/votes'') [(raw_name 1, walk_page)] 2 =
     (Inr (u ''No votes.'', AList.update (raw_votes_name 1) (u ''No votes.'') [(raw_name 1, walk_page)]), 3)"
    by (simp add: proposal_fetch_def bindS_def retS_def liftS_def guardE_def del: u_simps AList.update.simps)
qed

lemma walk_discovery:
  "\<exists>d. discover_governance sample_tables walk_client walk_source 100 1000 None True 0 = (Inr d, 3) \<and> gd_complete d \<and>
     gd_proposals d = [merge_detail sample_tables walk_summary sample_detail ''empty'' [] []]"
proof -
  have i: "gm_proposal_id walk_summary = 1" by (simp add: walk_summary_def)
  have page: "list_page sample_tables walk_client walk_source 1000 True [] (start_state\<lparr>ld_queue := []\<rparr>) 0 =
      (Inr (start_state\<lparr>ld_queue := [], ld_visited := [[]], ld_pages := 1, ld_summaries := [(1, walk_summary)],
         ld_raw := [(''list/root'', walk_page)], ld_raw_bytes := 29\<rparr>), 1)"
    by (simp add: list_page_def list_fetch_def sample_queries list_accept_def sample_parsed sample_links bindS_def liftS_def
        retS_def start_state_def add_summary_def guardE_def i sample_size MAX_TOTAL_RAW_BYTES_def page_name_def)
  have list: "discover_governance_list sample_tables walk_client walk_source 100 1000 True 0 =
     (Inr \<lparr>gl_source = walk_source, gl_complete = True, gl_page_count = 1, gl_proposals = [walk_summary], gl_warnings = [],
           gl_raw_renders = [(''list/root'', walk_page)]\<rparr>, 1)"
    using page
    by (simp add: discover_governance_list_def liftS_def bindS_def retS_def guardE_def MAX_GOVERNANCE_PAGES_def MAX_GOVERNANCE_PROPOSALS_def
        list_loop.simps start_state_def list_result_def)
  have one: "discover_governance_proposal sample_tables walk_client walk_source walk_summary True 1 =
     (Inr \<lparr>gd_source = walk_source, gd_complete = True, gd_page_count = 0,
           gd_proposals = [merge_detail sample_tables walk_summary sample_detail ''empty'' [] []], gd_warnings = [],
           gd_raw_renders = AList.update (raw_votes_name 1) (u ''No votes.'') [(raw_name 1, walk_page)]\<rparr>, 3)"
    unfolding discover_governance_proposal_def Let_def i
    by (simp only: bindS_def walk_fetch liftS_def sample_detail_parsed sample_votes_parsed retS_def prod.case sum.case)
  let ?raw = "merge_raw (AList.update (raw_votes_name 1) (u ''No votes.'') [(raw_name 1, walk_page)]) [(''list/root'', walk_page)]"
  have "raw_total ?raw \<le> (29 + 9) + 29"
    using merge_raw_total [of "AList.update (raw_votes_name 1) (u ''No votes.'') [(raw_name 1, walk_page)]" "[(''list/root'', walk_page)]"]
      raw_update [of "raw_votes_name 1" "u ''No votes.''" "[(raw_name 1, walk_page)]"]
    unfolding sample_size(2) by (simp only: raw_total_def list.map prod.case sum_list.Cons sum_list.Nil sample_size(1))
  then have total: "raw_total ?raw \<le> MAX_TOTAL_RAW_BYTES" by (simp only: MAX_TOTAL_RAW_BYTES_def)
  have "discover_details sample_tables walk_client walk_source True [walk_summary] [] [(''list/root'', walk_page)] 1 =
      (Inr ([merge_detail sample_tables walk_summary sample_detail ''empty'' [] []], ?raw), 3)"
    by (simp only: discover_details.simps bindS_def one prod.case sum.case Let_def gov_discovery.simps total guardE_def if_True liftS_def retS_def append_Nil)
  then show ?thesis unfolding discover_governance_def option.case
    by (simp only: bindS_def list gov_list_discovery.simps prod.case sum.case retS_def) (simp add: MAX_WARNINGS_def)
qed

theorem discovered_snapshot_validated_witness:
  "\<exists>d rows. fst (discover_governance sample_tables walk_client walk_source 100 1000 None True 0) = Inr d \<and>
     normalize_discovery (uc_fold sample_tables) d ''pearl-1'' = Inr rows"
proof -
  obtain d where d: "discover_governance sample_tables walk_client walk_source 100 1000 None True 0 = (Inr d, 3)" and "gd_complete d"
    and p: "gd_proposals d = [merge_detail sample_tables walk_summary sample_detail ''empty'' [] []]" using walk_discovery by blast
  moreover have "upper_ok sample_tables" by (auto simp: upper_ok_def sample_tables_def uspace_def)
  moreover have "proposal_storable cf (merge_detail sample_tables walk_summary sample_detail ''empty'' [] [])" for cf
    by (simp add: proposal_storable_def merge_detail_def sample_detail_fields) (simp add: walk_summary_def)
  ultimately show ?thesis
    using discovered_snapshot_validated [of sample_tables walk_client walk_source 100 1000 0 d 3 "uc_fold sample_tables"]
    by (simp add: walk_source_def)
qed

end
