(* ===== verification/Governance_Sync.thy ===== *)
theory Governance_Sync
  imports Governance_Store
begin

text \<open>
  What the two governance writers guarantee over the life of the database: the tables can always be read again, a
  proposal never disappears, its status only moves along the permitted transitions, and a full snapshot is stored exactly.
  The contract of a writer is a locale, interpreted on both cursor functions.
\<close>

section \<open>Databases\<close>

definition gov_ok :: "(nat \<Rightarrow> ustr) \<Rightarrow> gov_db \<Rightarrow> bool" where
  "gov_ok cf d \<longleftrightarrow> (\<forall>c m. keys_distinct (part_of d c m) \<and> (\<exists>x. load_governance cf (part_of d c m) = Inr x))"

definition statuses :: "gov_db \<Rightarrow> string \<times> string \<times> int \<rightharpoonup> string" where
  "statuses d = (\<lambda>(c, m, i). map_option (\<lambda>r. pc_status (pr_content r)) (map_of (gt_props (part_of d c m)) i))"

text \<open>The abstract specification: a proposal, once known, stays known and follows the status machine.\<close>

definition lifecycle :: "('k \<rightharpoonup> string) \<Rightarrow> ('k \<rightharpoonup> string) \<Rightarrow> bool" where
  "lifecycle S S' \<longleftrightarrow> (\<forall>k s. S k = Some s \<longrightarrow> (\<exists>s'. S' k = Some s' \<and> status_allowed s s'))"

lemma status_allowed_trans: "status_allowed a b \<Longrightarrow> status_allowed b c \<Longrightarrow> status_allowed a c"
  by (auto simp: status_allowed_def TRANSITIONS_def split: if_splits)

lemma status_allowed_refl [simp]: "status_allowed s s"
  by (simp add: status_allowed_def)

lemma lifecycle_refl [simp]: "lifecycle S S"
  by (simp add: lifecycle_def)

lemma lifecycle_trans: "lifecycle S T \<Longrightarrow> lifecycle T U \<Longrightarrow> lifecycle S U"
  unfolding lifecycle_def by (meson status_allowed_trans)

definition terminal :: "string \<Rightarrow> bool" where
  "terminal s \<longleftrightarrow> s = ''ACCEPTED'' \<or> s = ''REJECTED''"

lemma terminal_stays: "terminal s \<Longrightarrow> status_allowed s s' \<Longrightarrow> s' = s"
  by (auto simp: terminal_def status_allowed_def TRANSITIONS_def)

lemma part_of_put [simp]: "part_of (put_part d c m p) c' m' = (if c' = c \<and> m' = m then p else part_of d c' m')"
  by (auto simp: part_of_def put_part_def update_conv')

lemma gov_ok_put:
  assumes "gov_ok cf d" and "keys_distinct p" and "load_governance cf p = Inr x"
  shows "gov_ok cf (put_part d c m p)"
  using assms unfolding gov_ok_def by (metis part_of_put)

lemma lifecycle_put:
  assumes "lifecycle (map_option (\<lambda>r. pc_status (pr_content r)) \<circ> map_of (gt_props (part_of d c m))) (map_option (\<lambda>r. pc_status (pr_content r)) \<circ> map_of (gt_props p))"
  shows "lifecycle (statuses d) (statuses (put_part d c m p))"
  using assms unfolding lifecycle_def statuses_def by (auto simp: part_of_put split: if_splits)

section \<open>The contract of a writer\<close>

locale governance_writer =
  fixes cf :: "nat \<Rightarrow> ustr" and persist :: "gov_db \<Rightarrow> (gov_result \<times> gov_db) res"
  assumes keeps_ok: "gov_ok cf d \<Longrightarrow> persist d = Inr (r, d') \<Longrightarrow> gov_ok cf d'"
    and keeps_lifecycle: "gov_ok cf d \<Longrightarrow> persist d = Inr (r, d') \<Longrightarrow> lifecycle (statuses d) (statuses d')"
begin

lemma terminal_kept:
  assumes "gov_ok cf d" and "persist d = Inr (r, d')" and "statuses d k = Some s" and "terminal s"
  shows "statuses d' k = Some s"
  using keeps_lifecycle [OF assms(1,2)] assms(3,4) terminal_stays unfolding lifecycle_def by metis

end

section \<open>The full snapshot\<close>

lemma rows_ok_row: "rows_ok cf d rows \<Longrightarrow> r \<in> set rows \<Longrightarrow> row_ok cf r"
  by (simp add: rows_ok_def)

lemma row_ok_votes: "row_ok cf r \<Longrightarrow> distinct (map fst (np_votes r))"
  by (simp add: row_ok_def votes_inv_def)

lemma write_full_rows:
  assumes "foldE (write_full_row fits chain realm height stored) rows p = Inr p'" and "distinct (map np_id rows)" and "\<And>r. r \<in> set rows \<Longrightarrow> row_ok cf r"
  shows "after_rows height p rows p'"
    and "r \<in> set rows \<Longrightarrow> map_of stored (np_id r) = Some old \<Longrightarrow> status_allowed (pc_status (pr_content old)) (pc_status (np_content r))"
proof -
  have step: "after_row height q r q'" if "r \<in> set rows" "write_full_row fits chain realm height stored r q = Inr q'" for r q q'
    using that write_target_effect [OF _ row_ok_votes [OF assms(3)]] by (auto simp: write_full_row_eq [OF assms(3) [OF that(1)]] res_simps)
  show "after_rows height p rows p'" by (rule write_rows_effect [OF assms(1,2) step])
  show "status_allowed (pc_status (pr_content old)) (pc_status (np_content r))" if "r \<in> set rows" "map_of stored (np_id r) = Some old"
    using foldE_Inr_in [OF assms(1) that(1)] that by (auto simp: write_full_row_def res_simps)
qed

lemma map_of_sorted: "distinct (map fst t) \<Longrightarrow> map_of (sort_key f t) = map_of t"
  by (metis (no_types, lifting) distinct_map distinct_sort map_of_inject_set set_sort)

text \<open>After a write the statuses follow the machine, given that they do for every written row.\<close>

lemma after_rows_lifecycle:
  assumes "after_rows height p rows p'"
    and "\<And>r old. r \<in> set rows \<Longrightarrow> map_of (gt_props p) (np_id r) = Some old \<Longrightarrow> status_allowed (pc_status (pr_content old)) (pc_status (np_content r))"
  shows "lifecycle (map_option (\<lambda>r. pc_status (pr_content r)) \<circ> map_of (gt_props p)) (map_option (\<lambda>r. pc_status (pr_content r)) \<circ> map_of (gt_props p'))"
proof -
  have at: "map_of (gt_props p') i = (case row_lookup rows i of Some r \<Rightarrow> Some (written_prop height p r) | None \<Rightarrow> map_of (gt_props p) i)" for i
    using assms(1) unfolding after_rows_def by blast
  have "\<exists>s'. map_option (\<lambda>r. pc_status (pr_content r)) (map_of (gt_props p') i) = Some s' \<and> status_allowed (pc_status (pr_content old)) s'"
    if "map_of (gt_props p) i = Some old" for i old
  proof (cases "row_lookup rows i")
    case (Some r)
    then show ?thesis using assms(2) [of r old] that row_lookup_Some [OF Some] unfolding at by (auto simp: written_prop_def)
  qed (use that at in simp)
  then show ?thesis unfolding lifecycle_def by auto
qed

lemma full_cases:
  assumes "persist_governance_snapshot_cursor cf disc c d = Inr (r, d')"
  obtains (unchanged) rows st votes where "d' = d" "gr_action r = ''unchanged''" "normalize_discovery cf disc c = Inr rows"
      "load_governance cf (part_of d c (gs_realm_path (gd_source disc))) = Inr (Some (sync_of (gs_observed_height (gd_source disc)) (gd_page_count disc) (map np_id rows)), st, votes)"
      "stored_content st votes = content rows"
  | (applied) rows p1 p2 st0 st votes v w where "gr_action r = ''applied''" "normalize_discovery cf disc c = Inr rows"
      "load_governance cf (part_of d c (gs_realm_path (gd_source disc))) = Inr (st0, v, w)"
      "opt_check (\<lambda>s. sy_height s < gs_observed_height (gd_source disc)) st0"
      "foldE (write_full_row (gb_key_fits d c (gs_realm_path (gd_source disc))) c (gs_realm_path (gd_source disc)) (gs_observed_height (gd_source disc)) v) rows (part_of d c (gs_realm_path (gd_source disc))) = Inr p1"
      "p2 = p1\<lparr>gt_state := Some (sync_of (gs_observed_height (gd_source disc)) (gd_page_count disc) (map np_id rows))\<rparr>"
      "d' = put_part d c (gs_realm_path (gd_source disc)) p2"
      "load_governance cf p2 = Inr (Some (sync_of (gs_observed_height (gd_source disc)) (gd_page_count disc) (map np_id rows)), st, votes)"
      "stored_content st votes = content rows" "\<And>i. i \<in> set (map fst v) \<Longrightarrow> i \<in> set (map np_id rows)"
proof -
  obtain rows where rows: "normalize_discovery cf disc c = Inr rows"
    using assms by (auto simp: persist_governance_snapshot_cursor_def res_simps)
  note chain = normalize_discovery_facts(3) [OF rows]
  let ?h = "gs_observed_height (gd_source disc)" and ?m = "gs_realm_path (gd_source disc)"
  let ?s = "sync_of ?h (gd_page_count disc) (map np_id rows)"
  obtain st0 v w where l: "load_governance cf (part_of d c ?m) = Inr (st0, v, w)" "opt_check (\<lambda>s. sy_height s \<le> ?h) st0"
    and run: "(if map_option sy_height st0 = Some ?h then
       (if st0 = Some ?s \<and> stored_content v w = content rows
        then Inr (no_write ?h (gd_page_count disc) (length rows) (length (snd (content rows))), d)
        else Inl (GovernanceSnapshotConflict ''same-height governance snapshot differs''))
     else bindE (apply_full (gb_key_fits d c ?m) cf disc rows v (part_of d c ?m)) (\<lambda>(r, p). Inr (r, put_part d c ?m p))) = Inr (r, d')"
    using assms rows chain unfolding persist_governance_snapshot_cursor_def Let_def by (auto simp: res_simps simp del: not_None_eq)
  show thesis
  proof (cases "map_option sy_height st0 = Some ?h")
    case True
    then have "st0 = Some ?s" "stored_content v w = content rows" "d' = d" "gr_action r = ''unchanged''"
      using run by (auto simp: no_write_def split: if_splits)
    then show thesis using unchanged rows l by blast
  next
    case False
    then obtain p2 where p2: "apply_full (gb_key_fits d c ?m) cf disc rows v (part_of d c ?m) = Inr (r, p2)" "d' = put_part d c ?m p2"
      using run [unfolded if_not_P [OF False]] by (auto simp: res_simps)
    have newer: "opt_check (\<lambda>s. sy_height s < ?h) st0" using l(2) False by (cases st0) (auto simp: opt_check_def)
    obtain p1 st votes where p1: "foldE (write_full_row (gb_key_fits d c ?m) c ?m ?h v) rows (part_of d c ?m) = Inr p1" "p2 = p1\<lparr>gt_state := Some ?s\<rparr>"
      "load_governance cf p2 = Inr (Some ?s, st, votes)" "stored_content st votes = content rows" "gr_action r = ''applied''"
      "list_all (\<lambda>(i, _). i \<in> set (map np_id rows)) v"
      using p2(1) chain by (auto simp: apply_full_def Let_def res_simps upsert_sync_def)
    show thesis by (rule applied [OF p1(5) rows l(1) newer p1(1,2) p2(2) p1(3,4)]) (use p1(6) in \<open>auto simp: list_all_iff\<close>)
  qed
qed

lemma full_keeps:
  assumes "gov_ok cf d" and "persist_governance_snapshot_cursor cf disc c d = Inr (r, d')"
  shows "gov_ok cf d' \<and> lifecycle (statuses d) (statuses d')"
  using assms(2)
proof (cases rule: full_cases)
  case (applied rows p1 p2 st0 st votes v w)
  let ?m = "gs_realm_path (gd_source disc)"
  have kd: "keys_distinct (part_of d c ?m)" using assms(1) by (simp add: gov_ok_def)
  note ok = normalize_discovery_facts(1) [OF applied(2)]
  have distinct: "distinct (map np_id rows)" using ok by (simp add: rows_ok_def)
  note eff = write_full_rows [OF applied(5) distinct rows_ok_row [OF ok]]
  have "keys_distinct p2" using eff(1) kd by (simp add: applied(6) after_rows_def keys_distinct_def)
  then have "gov_ok cf d'" using gov_ok_put [OF assms(1) _ applied(8)] applied(7) by simp
  moreover have "map_of v = map_of (gt_props (part_of d c ?m))"
    using load_Inr(2) [OF applied(3)] kd by (simp add: map_of_sorted keys_distinct_def)
  then have "lifecycle (statuses d) (statuses d')"
    using lifecycle_put [of d c ?m p2] after_rows_lifecycle [OF eff(1)] eff(2) by (simp add: applied(6,7))
  ultimately show ?thesis by blast
qed (use assms(1) in auto)

interpretation full: governance_writer cf "persist_governance_snapshot_cursor cf disc c" for cf disc c
  by unfold_locales (use full_keeps in blast)+

section \<open>The incremental refresh\<close>

lemma add_target_Inr:
  assumes "add_target listed x acc = Inr a"
  obtains p where "gd_proposals x = [p]" "a = acc @ [(gp_proposal_id p, x)]" "gp_proposal_id p \<notin> set (map fst acc)"
    "gp_proposal_id p \<in> set (map gm_proposal_id (gl_proposals listed))"
proof -
  obtain p where p: "gd_proposals x = [p]" using assms by (auto simp: add_target_def res_simps split: list.splits)
  show thesis by (rule that [OF p]) (use assms p in \<open>simp_all add: add_target_def res_simps\<close>)
qed

lemma add_target_ids:
  "foldE (add_target listed) ds acc = Inr targets \<Longrightarrow> distinct (map fst acc) \<Longrightarrow> set (map fst acc) \<subseteq> set (map gm_proposal_id (gl_proposals listed)) \<Longrightarrow>
   distinct (map fst targets) \<and> set (map fst targets) \<subseteq> set (map gm_proposal_id (gl_proposals listed))"
proof (induction ds arbitrary: acc)
  case (Cons x ds)
  then obtain a where a: "add_target listed x acc = Inr a" "foldE (add_target listed) ds a = Inr targets" by (auto simp: bindE_Inr_iff)
  obtain p where "gd_proposals x = [p]" and p: "a = acc @ [(gp_proposal_id p, x)]" "gp_proposal_id p \<notin> set (map fst acc)"
    "gp_proposal_id p \<in> set (map gm_proposal_id (gl_proposals listed))" by (rule add_target_Inr [OF a(1)])
  show ?case by (rule Cons.IH [OF a(2)]) (use p Cons.prems(2,3) in auto)
qed simp

lemma normalize_target_row:
  assumes "normalize_target cf listed c (i, x) = Inr r" and "gd_proposals x = [p]"
  shows "row_ok cf r \<and> np_id r = i \<and>
    (case summary_of listed i of None \<Rightarrow> True | Some m \<Rightarrow> pc_status (np_content r) = gm_status m \<or> gm_status m = ''UNKNOWN'')"
proof -
  let ?cand = "\<lparr>gd_source = gl_source listed, gd_complete = True, gd_page_count = 1, gd_proposals = gd_proposals x,
                      gd_warnings = [], gd_raw_renders = gd_raw_renders x\<rparr>"
  obtain rows where rows: "normalize_discovery cf ?cand c = Inr rows" "r = hd rows" "np_id r = i"
    "case summary_of listed i of None \<Rightarrow> True | Some m \<Rightarrow> pc_status (np_content r) = gm_status m \<or> gm_status m = ''UNKNOWN''"
    using assms(1) by (auto simp: normalize_target_def Let_def res_simps split: option.splits)
  have "length rows = 1" using normalize_discovery_facts(14) [OF rows(1)] assms(2) by simp
  then have "r \<in> set rows" using rows(2) by (cases rows) auto
  then show ?thesis using normalize_discovery_facts(1) [OF rows(1)] rows(3,4) rows_ok_row by blast
qed

lemma add_target_single:
  "foldE (add_target listed) ds acc = Inr targets \<Longrightarrow> (\<And>i x. (i, x) \<in> set acc \<Longrightarrow> \<exists>p. gd_proposals x = [p]) \<Longrightarrow>
   (i, x) \<in> set targets \<Longrightarrow> \<exists>p. gd_proposals x = [p]"
proof (induction ds arbitrary: acc)
  case (Cons y ds)
  then obtain a where a: "add_target listed y acc = Inr a" "foldE (add_target listed) ds a = Inr targets" by (auto simp: bindE_Inr_iff)
  then obtain p where "gd_proposals y = [p]" "a = acc @ [(gp_proposal_id p, y)]" using add_target_Inr by metis
  then show ?case using Cons.IH [OF a(2) _ Cons.prems(3)] Cons.prems(2) by auto
qed simp

lemma target_rows:
  assumes "foldE (add_target listed) ds [] = Inr targets" and "mapE (normalize_target cf listed c) targets = Inr rows"
  shows "distinct (map np_id rows)" and "set (map np_id rows) \<subseteq> set (map gm_proposal_id (gl_proposals listed))"
    and "\<And>r. r \<in> set rows \<Longrightarrow> row_ok cf r"
    and "\<And>r m. r \<in> set rows \<Longrightarrow> summary_of listed (np_id r) = Some m \<Longrightarrow> pc_status (np_content r) = gm_status m \<or> gm_status m = ''UNKNOWN''"
proof -
  have single: "\<exists>p. gd_proposals x = [p]" if "(i, x) \<in> set targets" for i x using add_target_single [OF assms(1) _ that] by simp
  have at: "row_ok cf (rows ! n) \<and> np_id (rows ! n) = fst (targets ! n) \<and> (case summary_of listed (np_id (rows ! n)) of None \<Rightarrow> True
      | Some m \<Rightarrow> pc_status (np_content (rows ! n)) = gm_status m \<or> gm_status m = ''UNKNOWN'')" if n: "n < length targets" for n
  proof -
    obtain i x where ix: "targets ! n = (i, x)" by fastforce
    then obtain p where "gd_proposals x = [p]" using single n by (metis nth_mem)
    from normalize_target_row [OF _ this, of cf listed c i "rows ! n"] show ?thesis using mapE_Inr_nth [OF assms(2) n] ix by auto
  qed
  have len: "length rows = length targets" by (rule mapE_Inr_length [OF assms(2)])
  have ids: "map np_id rows = map fst targets" by (rule nth_equalityI) (use at len in auto)
  show "distinct (map np_id rows)" "set (map np_id rows) \<subseteq> set (map gm_proposal_id (gl_proposals listed))"
    unfolding ids using add_target_ids [OF assms(1)] by simp_all
  show "row_ok cf r" if r: "r \<in> set rows" for r
  proof -
    obtain n where "n < length targets" "rows ! n = r" using r unfolding len [symmetric] in_set_conv_nth by blast
    then show ?thesis using at by blast
  qed
  show "pc_status (np_content r) = gm_status m \<or> gm_status m = ''UNKNOWN''" if r: "r \<in> set rows" "summary_of listed (np_id r) = Some m" for r m
  proof -
    obtain n where "n < length targets" "rows ! n = r" using r(1) unfolding len [symmetric] in_set_conv_nth by blast
    then show ?thesis using at [of n] r(2) by simp
  qed
qed

lemma summary_of_Some: "summary_of listed i = Some m \<Longrightarrow> m \<in> set (gl_proposals listed) \<and> gm_proposal_id m = i"
  by (auto simp: summary_of_def find_Some_iff)

lemma summary_of_in:
  assumes "i \<in> set (map gm_proposal_id (gl_proposals listed))"
  obtains m where "summary_of listed i = Some m"
proof (cases "summary_of listed i")
  case None
  then show ?thesis using assms by (auto simp: summary_of_def find_None_iff)
qed (rule that)

lemma required_ids:
  "i \<in> set (select_governance_refresh_ids ms S) \<longleftrightarrow>
   (\<exists>m \<in> set ms. gm_proposal_id m = i \<and> ((case S i of None \<Rightarrow> True | Some old \<Rightarrow> open_status old) \<or> open_status (gm_status m)))"
  by (auto simp: select_governance_refresh_ids_def)

lemma incremental_cases:
  assumes "persist_governance_incremental_cursor cf listed ds c d = Inr (r, d')"
  obtains (unchanged) "d' = d" "gr_action r = ''unchanged''"
  | (applied) m h st v w targets rows required p1 p2 where "gr_action r = ''applied''" "m = gs_realm_path (gl_source listed)"
      "h = gs_observed_height (gl_source listed)" "1 \<le> h" "1 \<le> gl_page_count listed" "gl_page_count listed \<le> MAX_GOVERNANCE_PAGES"
      "distinct (map gm_proposal_id (gl_proposals listed))" "length (gl_proposals listed) \<le> MAX_GOVERNANCE_PROPOSALS"
      "load_governance cf (part_of d c m) = Inr (st, v, w)" "opt_check (\<lambda>s. sy_height s \<le> h) st"
      "\<And>i. i \<in> set (map fst v) \<Longrightarrow> i \<in> set (map gm_proposal_id (gl_proposals listed))"
      "foldE (add_target listed) ds [] = Inr targets" "mapE (normalize_target cf listed c) targets = Inr rows"
      "final_incremental_raw_bytes v rows \<le> MAX_TOTAL_RAW_BYTES"
      "required = select_governance_refresh_ids (gl_proposals listed) (map_option (\<lambda>r. pc_status (pr_content r)) \<circ> map_of v)"
      "set (map np_id rows) = set required"
      "\<And>i x. (i, x) \<in> set v \<Longrightarrow> \<exists>y. summary_of listed i = Some y \<and> status_allowed (pc_status (pr_content x)) (gm_status y)"
      "foldE (write_target (gb_key_fits d c m) c m h) rows (part_of d c m) = Inr p1"
      "p2 = p1\<lparr>gt_state := Some (sync_of h (gl_page_count listed) (sort (map gm_proposal_id (gl_proposals listed))))\<rparr>"
      "d' = put_part d c m p2"
proof -
  let ?h = "gs_observed_height (gl_source listed)" and ?m = "gs_realm_path (gl_source listed)" and ?ids = "map gm_proposal_id (gl_proposals listed)"
  obtain st v w targets rows where g: "1 \<le> ?h" "1 \<le> gl_page_count listed" "gl_page_count listed \<le> MAX_GOVERNANCE_PAGES" "distinct ?ids"
      "length ?ids \<le> MAX_GOVERNANCE_PROPOSALS" "gs_chain_id (gl_source listed) = c"
    and l: "load_governance cf (part_of d c ?m) = Inr (st, v, w)" "opt_check (\<lambda>s. sy_height s \<le> ?h) st" "list_all (\<lambda>(i, _). i \<in> set ?ids) v"
    and t: "foldE (add_target listed) ds [] = Inr targets" "mapE (normalize_target cf listed c) targets = Inr rows"
      "final_incremental_raw_bytes v rows \<le> MAX_TOTAL_RAW_BYTES"
    and run: "(if map_option sy_height st = Some ?h then
        bindE (same_height_check listed (the st) v w (select_governance_refresh_ids (gl_proposals listed) (map_option (\<lambda>r. pc_status (pr_content r)) \<circ> map_of v)) rows) (\<lambda>_.
        Inr (no_write ?h (gl_page_count listed) (length ?ids) (length w), d))
      else bindE (apply_incremental (gb_key_fits d c ?m) listed v (select_governance_refresh_ids (gl_proposals listed) (map_option (\<lambda>r. pc_status (pr_content r)) \<circ> map_of v)) rows (part_of d c ?m))
        (\<lambda>(r, p). Inr (r, put_part d c ?m p))) = Inr (r, d')"
    using assms unfolding persist_governance_incremental_cursor_def Let_def res_simps by (elim exE conjE) (auto simp: res_simps simp del: not_None_eq)
  show thesis
  proof (cases "map_option sy_height st = Some ?h")
    case True
    then show thesis using run [unfolded if_P [OF True]] unchanged by (auto simp: res_simps no_write_def)
  next
    case False
    let ?required = "select_governance_refresh_ids (gl_proposals listed) (map_option (\<lambda>r. pc_status (pr_content r)) \<circ> map_of v)"
    obtain p2 where p2: "apply_incremental (gb_key_fits d c ?m) listed v ?required rows (part_of d c ?m) = Inr (r, p2)" "d' = put_part d c ?m p2"
      using run [unfolded if_not_P [OF False]] by (auto simp: res_simps)
    obtain p1 where p1: "gr_action r = ''applied''" "set (map np_id rows) = set ?required"
      "list_all (\<lambda>(i, x). case summary_of listed i of None \<Rightarrow> False | Some y \<Rightarrow> status_allowed (pc_status (pr_content x)) (gm_status y)) v"
      "foldE (write_target (gb_key_fits d c ?m) c ?m ?h) rows (part_of d c ?m) = Inr p1"
      "p2 = p1\<lparr>gt_state := Some (sync_of ?h (gl_page_count listed) (sort ?ids))\<rparr>"
      using p2(1) g(6) by (auto simp: apply_incremental_def Let_def res_simps upsert_sync_def)
    have "\<exists>y. summary_of listed i = Some y \<and> status_allowed (pc_status (pr_content x)) (gm_status y)" if "(i, x) \<in> set v" for i x
      using p1(3) that by (fastforce simp: list_all_iff split: option.splits)
    moreover have "i \<in> set ?ids" if "i \<in> set (map fst v)" for i using l(3) that by (auto simp: list_all_iff)
    ultimately show thesis using applied [OF p1(1) refl refl g(1-4) _ l(1,2) _ t refl p1(2) _ p1(4,5) p2(2)] g(5) by simp
  qed
qed

lemma unknown_source: "status_allowed old ''UNKNOWN'' \<Longrightarrow> old = ''UNKNOWN''"
  by (auto simp: status_allowed_def TRANSITIONS_def split: if_splits)

lemma unknown_allows: "s \<in> set STATUSES \<Longrightarrow> status_allowed ''UNKNOWN'' s"
  by (auto simp: status_allowed_def TRANSITIONS_def STATUSES_def)

lemma incremental_keeps:
  assumes "gov_ok cf d" and "persist_governance_incremental_cursor cf listed ds c d = Inr (r, d')"
  shows "gov_ok cf d' \<and> lifecycle (statuses d) (statuses d')"
  using assms(2)
proof (cases rule: incremental_cases)
  case (applied m h st v w targets rows required p1 p2)
  let ?p = "part_of d c m" and ?ids = "map gm_proposal_id (gl_proposals listed)"
  have kd: "keys_distinct ?p" using assms(1) by (simp add: gov_ok_def)
  note t = target_rows [OF applied(12,13)]
  have eff: "after_rows h ?p rows p1"
    by (rule write_rows_effect [OF applied(18) t(1)]) (rule write_target_effect [OF _ row_ok_votes [OF t(3)]])
  have before: "before_write cf h ?p" by (rule load_before_write [OF applied(9) kd applied(10)])
  have v: "v = sort_key fst (gt_props ?p)" by (rule load_Inr(2) [OF applied(9)])
  have map_v: "map_of v = map_of (gt_props ?p)" using kd unfolding v keys_distinct_def by (simp add: map_of_sorted)
  have "set (map fst v) = dom (map_of (gt_props ?p))" by (simp add: v dom_map_of_conv_image_fst)
  then have "dom (map_of (gt_props ?p)) \<subseteq> set ?ids" using applied(11) by blast
  moreover have "set ?ids \<subseteq> dom (map_of (gt_props ?p)) \<union> set (map np_id rows)"
    unfolding applied(16) applied(15) map_v by (auto simp: required_ids split: option.splits)
  ultimately have dom: "dom (map_of (gt_props p1)) = set ?ids" using after_rows_dom [OF eff] t(2) by blast
  let ?s = "sync_of h (gl_page_count listed) (sort ?ids)"
  have "0 \<le> i" if "i \<in> set ?ids" for i
  proof -
    have "i \<in> dom (map_of (gt_props ?p)) \<or> i \<in> set (map np_id rows)" using that dom after_rows_dom [OF eff] by blast
    then show ?thesis using before_write_prop [OF before] t(3) by (auto simp: row_ok_def)
  qed
  then have "valid_sync ?s (sort ?ids)" using applied(4-6,8) by (intro valid_sync_of) auto
  then have sync: "valid_sync ?s (sorted_list_of_set (dom (map_of (gt_props p1))))"
    unfolding dom using sorted_list_of_set_sort_remdups [of ?ids] distinct_remdups_id [OF applied(7)] by metis
  have "props_total (map_of (gt_props p1)) \<le> MAX_TOTAL_RAW_BYTES"
    using after_rows_total [OF eff t(1) kd] applied(14) by (simp add: v)
  from after_rows_ok [OF eff before applied(4) t(3) _ sync this]
  have "stored_ok cf ?s (map_of (gt_props p2)) (map_of (gt_votes p2))" by (simp add: applied(19) sync_of_def)
  moreover have kd2: "keys_distinct p2" using eff kd by (simp add: applied(19) after_rows_def keys_distinct_def)
  ultimately obtain x where "load_governance cf p2 = Inr x" using load_state [OF kd2, of ?s cf] applied(19) by auto
  then have "gov_ok cf d'" using gov_ok_put [OF assms(1) kd2] applied(20) by simp
  moreover have "status_allowed (pc_status (pr_content old)) (pc_status (np_content r))"
    if r: "r \<in> set rows" "map_of (gt_props ?p) (np_id r) = Some old" for r old
  proof -
    have "(np_id r, old) \<in> set v" using map_of_SomeD r(2) by (fastforce simp: v)
    then obtain y where y: "summary_of listed (np_id r) = Some y" "status_allowed (pc_status (pr_content old)) (gm_status y)" using applied(17) by blast
    have "pc_status (np_content r) \<in> set STATUSES" using t(3) [OF r(1)] by (simp add: row_ok_def valid_content_def)
    then show ?thesis using t(4) [OF r(1) y(1)] y(2) unknown_source unknown_allows by metis
  qed
  then have "lifecycle (statuses d) (statuses d')" using lifecycle_put [of d c m p2] after_rows_lifecycle [OF eff] by (simp add: applied(19,20))
  ultimately show ?thesis by blast
qed (use assms(1) in auto)

interpretation incremental: governance_writer cf "persist_governance_incremental_cursor cf listed ds c" for cf listed ds c
  by unfold_locales (use incremental_keeps in blast)+

section \<open>Histories\<close>

text \<open>Any sequence of committed writes, and of changes to the indexer's own state.\<close>

inductive gov_step :: "(nat \<Rightarrow> ustr) \<Rightarrow> gov_db \<Rightarrow> gov_db \<Rightarrow> bool" for cf where
  full: "persist_governance_snapshot_cursor cf disc c d = Inr (r, d') \<Longrightarrow> gov_step cf d d'"
| incremental: "persist_governance_incremental_cursor cf listed ds c d = Inr (r, d') \<Longrightarrow> gov_step cf d d'"
| indexer: "gov_step cf d (d\<lparr>gb_indexer_chain := x\<rparr>)"

definition empty_gov_db :: "(string \<Rightarrow> string \<Rightarrow> int \<Rightarrow> ustr \<Rightarrow> bool) \<Rightarrow> gov_db" where
  "empty_gov_db key_fits = \<lparr>gb_parts = [], gb_indexer_chain = None, gb_key_fits = key_fits\<rparr>"

lemma empty_gov_ok: "gov_ok cf (empty_gov_db key_fits)"
  by (simp add: gov_ok_def empty_gov_db_def part_of_def empty_part_def keys_distinct_def load_governance_def)

lemma part_of_chain [simp]: "part_of (d\<lparr>gb_indexer_chain := x\<rparr>) c m = part_of d c m"
  by (simp add: part_of_def)

lemma gov_step_keeps:
  assumes "gov_step cf d d'" and "gov_ok cf d"
  shows "gov_ok cf d' \<and> lifecycle (statuses d) (statuses d')"
  using assms
proof (cases rule: gov_step.cases)
  case (full disc c r)
  then show ?thesis using full.keeps_ok full.keeps_lifecycle assms(2) by blast
next
  case (incremental listed ds c r)
  then show ?thesis using incremental.keeps_ok incremental.keeps_lifecycle assms(2) by blast
next
  case (indexer x)
  then have "statuses d' = statuses d" by (simp add: statuses_def)
  then show ?thesis using indexer assms(2) by (simp add: gov_ok_def)
qed

lemma gov_steps_keep:
  assumes "(gov_step cf)\<^sup>*\<^sup>* d d'" and "gov_ok cf d"
  shows "gov_ok cf d' \<and> lifecycle (statuses d) (statuses d')"
  using assms
proof (induction rule: rtranclp_induct)
  case (step x y)
  then show ?case using gov_step_keeps [OF step.hyps(2)] lifecycle_trans by blast
qed simp

text \<open>No write touches the server's limits.\<close>

lemma gov_step_fits: "gov_step cf d d' \<Longrightarrow> gb_key_fits d' = gb_key_fits d"
proof (induction rule: gov_step.induct)
  case (full disc c d r d')
  then show ?case by (cases rule: full_cases) (simp_all add: put_part_def)
next
  case (incremental listed ds c d r d')
  then show ?case by (cases rule: incremental_cases) (simp_all add: put_part_def)
qed simp

lemma gov_steps_fits: "(gov_step cf)\<^sup>*\<^sup>* d d' \<Longrightarrow> gb_key_fits d' = gb_key_fits d"
  by (induction rule: rtranclp_induct) (simp_all add: gov_step_fits)

text \<open>in every database that committed writes lead to, the governance tables pass the consistency checks made when they
  are read: no sequence of accepted full and incremental snapshots leaves a state the updater must refuse.\<close>

theorem governance_store_readable:
  assumes "(gov_step cf)\<^sup>*\<^sup>* (empty_gov_db key_fits) d"
  shows "\<exists>x. load_governance cf (part_of d chain realm) = Inr x"
  using gov_steps_keep [OF assms empty_gov_ok] by (simp add: gov_ok_def)

text \<open>C26: between any two states of the database every known proposal stays known and its status has only moved along the
  permitted transitions; an accepted or rejected proposal keeps its status for ever.\<close>

theorem proposal_lifecycle:
  assumes "(gov_step cf)\<^sup>*\<^sup>* (empty_gov_db key_fits) d" and "(gov_step cf)\<^sup>*\<^sup>* d d'" and "statuses d (chain, realm, i) = Some s"
  shows "\<exists>s'. statuses d' (chain, realm, i) = Some s' \<and> status_allowed s s' \<and> (s \<in> {''ACCEPTED'', ''REJECTED''} \<longrightarrow> s' = s)"
  using gov_steps_keep [OF assms(2)] gov_steps_keep [OF assms(1) empty_gov_ok] assms(3) terminal_stays
  unfolding lifecycle_def terminal_def by blast

text \<open>C27: an accepted full snapshot is stored exactly: what is read back is the validated discovery, with its height and
  counts; no other chain or realm is touched, and persisting the same snapshot again is reported as unchanged.\<close>

theorem full_snapshot_exact:
  assumes "persist_governance_snapshot_cursor cf disc c d = Inr (r, d')"
  shows "\<exists>rows stored votes. normalize_discovery cf disc c = Inr rows \<and>
    load_governance cf (part_of d' c (gs_realm_path (gd_source disc))) =
      Inr (Some (sync_of (gs_observed_height (gd_source disc)) (gd_page_count disc) (map np_id rows)), stored, votes) \<and>
    stored_content stored votes = content rows \<and>
    (\<forall>c' m. (c', m) \<noteq> (c, gs_realm_path (gd_source disc)) \<longrightarrow> part_of d' c' m = part_of d c' m) \<and>
    (\<exists>r'. persist_governance_snapshot_cursor cf disc c d' = Inr (r', d') \<and> gr_action r' = ''unchanged'')"
proof -
  let ?m = "gs_realm_path (gd_source disc)"
  obtain rows stored votes where st: "normalize_discovery cf disc c = Inr rows"
    "load_governance cf (part_of d' c ?m) = Inr (Some (sync_of (gs_observed_height (gd_source disc)) (gd_page_count disc) (map np_id rows)), stored, votes)"
    "stored_content stored votes = content rows" "\<And>c' m. (c', m) \<noteq> (c, ?m) \<Longrightarrow> part_of d' c' m = part_of d c' m"
    "gb_indexer_chain d' = gb_indexer_chain d"
    using assms
  proof (cases rule: full_cases)
    case (applied rows p1 p2 st0 st votes v w)
    show thesis by (rule that [OF applied(2) _ applied(9)]) (use applied(7,8) in \<open>auto simp: put_part_def part_of_def update_conv'\<close>)
  qed (use that in blast)
  have "check_identity d c = Inr ()"
    using assms normalize_discovery_facts(3) [OF st(1)] by (auto simp: persist_governance_snapshot_cursor_def Let_def res_simps)
  then have "check_identity d' c = Inr ()" using st(5) by (simp add: check_identity_def)
  then have "\<exists>r'. persist_governance_snapshot_cursor cf disc c d' = Inr (r', d') \<and> gr_action r' = ''unchanged''"
    using st(1-3) normalize_discovery_facts(3) [OF st(1)]
    by (auto simp: persist_governance_snapshot_cursor_def opt_check_def sync_of_def no_write_def)
  then show ?thesis using st by blast
qed

section \<open>A sample history\<close>

definition sample_source :: gov_source where
  "sample_source = \<lparr>gs_chain_id = ''pearl-1'', gs_rpc_url = ''http://a'', gs_observed_height = 10, gs_realm_path = ''gno.land/r/gov/dao''\<rparr>"

definition sample_proposal :: gov_proposal where
  "sample_proposal = \<lparr>gp_proposal_id = 1, gp_title = u ''T'', gp_author_display = None, gp_author_address = None, gp_status = ''ACCEPTED'',
     gp_eligible_tiers = [], gp_description = u ''d'', gp_executor_text = None, gp_executor_creation_realm = None, gp_rejection_reason = None,
     gp_yes_percent = None, gp_no_percent = None, gp_abstain_percent = None, gp_detail_parse_status = ''parsed'', gp_votes_parse_status = ''empty'',
     gp_votes = [], gp_parse_warnings = []\<rparr>"

definition sample_discovery :: gov_discovery where
  "sample_discovery = \<lparr>gd_source = sample_source, gd_complete = True, gd_page_count = 1, gd_proposals = [sample_proposal], gd_warnings = [],
     gd_raw_renders = [(raw_name 1, u ''d''), (raw_votes_name 1, u ''v'')]\<rparr>"

definition sample_content :: prop_content where
  "sample_content = \<lparr>pc_title = u ''T'', pc_author_display = None, pc_author_address = None, pc_status = ''ACCEPTED'', pc_tiers = [],
     pc_description = u ''d'', pc_executor_text = None, pc_executor_realm = None, pc_rejection_reason = None, pc_yes = None, pc_no = None,
     pc_abstain = None, pc_detail_status = ''parsed'', pc_votes_status = ''empty'', pc_warnings = [], pc_raw_detail = u ''d'', pc_raw_votes = u ''v''\<rparr>"

lemma sample_normalized:
  "normalize_discovery cf sample_discovery ''pearl-1'' = Inr [\<lparr>np_id = 1, np_content = sample_content, np_votes = []\<rparr>]"
proof -
  have "raw_votes_name 1 \<noteq> raw_name 1" by (simp add: raw_votes_name_def)
  then show ?thesis
    by (simp add: normalize_discovery_def check_raw_render_def scalar_def sample_discovery_def sample_source_def sample_proposal_def normalize_proposal_def gov_guard_def
        proposal_raw_renders_def sample_content_def nonempty_text_def bounded_text_def opt_check_def percentage_def STATUSES_def
        DETAIL_STATUSES_def VOTE_STATUSES_def governance_limits raw_total_def utf8_size_def utf8_bytes_def utf8_char_def)
qed

lemma sample_persisted:
  "\<exists>r d'. persist_governance_snapshot_cursor cf sample_discovery ''pearl-1'' (empty_gov_db key_fits) = Inr (r, d') \<and>
     statuses d' (''pearl-1'', ''gno.land/r/gov/dao'', 1) = Some ''ACCEPTED''"
proof -
  let ?s = "sync_of 10 1 [1]"
  let ?p = "\<lparr>gt_state = Some ?s, gt_props = [(1, \<lparr>pr_content = sample_content, pr_first = 10, pr_last = 10\<rparr>)], gt_votes = []\<rparr>"
  have row: "valid_content sample_content" "content_bindable sample_content"
    by (simp_all add: valid_content_def sample_content_def nonempty_text_def bounded_text_def opt_check_def valid_percent_def STATUSES_def
        DETAIL_STATUSES_def governance_limits utf8_size_def utf8_bytes_def utf8_char_def content_bindable_def content_texts_def bindable_text_def scalar_def)
  then have texts: "checkE text_parameter (content_texts sample_content) = Inr ()" "list_all bindable_text (pc_tiers sample_content @ pc_warnings sample_content)"
    by (simp_all add: content_bindable_def res_simps list_all_iff)
  have check: "check_prop 1 \<lparr>pr_content = sample_content, pr_first = 10, pr_last = 10\<rparr> = Inr ()"
    using row texts(2) by (simp add: check_prop_def in_range_def constraint_def int8_def valid_content_def governance_limits VOTE_STATUSES_def Let_def) auto
  have key: "check_key ''pearl-1'' ''gno.land/r/gov/dao'' 10 = Inr ()" by (simp add: check_key_def in_range_def constraint_def int8_def)
  have load: "load_governance cf ?p = Inr (Some ?s, [(1, \<lparr>pr_content = sample_content, pr_first = 10, pr_last = 10\<rparr>)], [])"
    using row by (simp add: load_governance_def valid_sync_def sync_of_def valid_stored_prop_def vote_count_def valid_heights_def governance_limits
        content_raw_def sample_content_def utf8_size_def utf8_bytes_def utf8_char_def)
  have "apply_full fits cf sample_discovery [\<lparr>np_id = 1, np_content = sample_content, np_votes = []\<rparr>] [] empty_part =
     Inr (\<lparr>gr_action = ''applied'', gr_source_height = 10, gr_page_count = 1, gr_proposal_count = 1, gr_vote_count = 0, gr_inserted = 1, gr_updated = 0\<rparr>, ?p)" for fits
    using check key load texts(1)
    by (simp add: apply_full_def sample_discovery_def sample_source_def write_full_row_def upsert_proposal_def empty_part_def write_votes_def
        delete_votes_def upsert_sync_def sync_of_def in_range_def constraint_def opt_check_def int8_def gov_guard_def stored_content_def content_def)
  moreover have "part_of (empty_gov_db key_fits) c m = empty_part" "load_governance cf empty_part = Inr (None, [], [])"
    "check_identity (empty_gov_db key_fits) c = Inr ()" for c m
    by (simp_all add: part_of_def empty_gov_db_def load_governance_def empty_part_def check_identity_def opt_check_def)
  moreover have "gd_source sample_discovery = sample_source" "gd_page_count sample_discovery = 1" "gs_chain_id sample_source = ''pearl-1''"
    "gs_realm_path sample_source = ''gno.land/r/gov/dao''" "gs_observed_height sample_source = 10" "pc_status sample_content = ''ACCEPTED''"
    by (simp_all add: sample_discovery_def sample_source_def sample_content_def)
  ultimately show ?thesis
    by (simp add: persist_governance_snapshot_cursor_def sample_normalized statuses_def opt_check_def Let_def)
qed

lemma sample_step: "\<exists>d. (gov_step cf)\<^sup>*\<^sup>* (empty_gov_db key_fits) d \<and> statuses d (''pearl-1'', ''gno.land/r/gov/dao'', 1) = Some ''ACCEPTED''"
  using sample_persisted gov_step.full by blast

theorem governance_store_readable_witness:
  "\<exists>d x. (gov_step (\<lambda>c. [c]))\<^sup>*\<^sup>* (empty_gov_db (\<lambda>_ _ _ _. True)) d \<and> statuses d (''pearl-1'', ''gno.land/r/gov/dao'', 1) = Some ''ACCEPTED'' \<and>
     load_governance (\<lambda>c. [c]) (part_of d ''pearl-1'' ''gno.land/r/gov/dao'') = Inr x"
  using sample_step [of "\<lambda>c. [c]"] governance_store_readable [of "\<lambda>c. [c]"] by blast

theorem proposal_lifecycle_witness:
  "\<exists>d. (gov_step (\<lambda>c. [c]))\<^sup>*\<^sup>* (empty_gov_db (\<lambda>_ _ _ _. True)) d \<and> statuses (d\<lparr>gb_indexer_chain := Some ''pearl-1''\<rparr>) (''pearl-1'', ''gno.land/r/gov/dao'', 1) = Some ''ACCEPTED''"
proof -
  obtain d where d: "(gov_step (\<lambda>c. [c]))\<^sup>*\<^sup>* (empty_gov_db (\<lambda>_ _ _ _. True)) d" "statuses d (''pearl-1'', ''gno.land/r/gov/dao'', 1) = Some ''ACCEPTED''"
    using sample_step by blast
  have "(gov_step (\<lambda>c. [c]))\<^sup>*\<^sup>* d (d\<lparr>gb_indexer_chain := Some ''pearl-1''\<rparr>)" using gov_step.indexer by blast
  from proposal_lifecycle [OF d(1) this d(2)] d(1) show ?thesis by auto
qed

theorem full_snapshot_exact_witness:
  "\<exists>r d' r'. persist_governance_snapshot_cursor (\<lambda>c. [c]) sample_discovery ''pearl-1'' (empty_gov_db (\<lambda>_ _ _ _. True)) = Inr (r, d') \<and>
     persist_governance_snapshot_cursor (\<lambda>c. [c]) sample_discovery ''pearl-1'' d' = Inr (r', d') \<and> gr_action r' = ''unchanged''"
  using sample_persisted [of "\<lambda>c. [c]"] full_snapshot_exact [of "\<lambda>c. [c]" sample_discovery "''pearl-1''" "empty_gov_db (\<lambda>_ _ _ _. True)"] by blast

end
