(* ===== verification/Service.thy ===== *)
theory Service
  imports Runner_Chain
begin

text \<open>
  \<open>indexer/service.py\<close>: the bounded one-shot indexing run. A plan of heights is checked against the checkpoint and the
  finalized tip, then every height of it is fetched, parsed and written in order. The endpoint answers through \<open>rpc_net\<close>
  (an input), as in the continuous runner.
\<close>

section \<open>Planning\<close>

record range_plan =
  rp_start_height :: int
  rp_end_height :: int
  rp_count :: int
  rp_finalized_tip :: int
  rp_dry_run :: bool

record run_summary =
  rs_plan :: range_plan
  rs_processed :: "int list"
  rs_dry_run :: bool

definition DEFAULT_MAX_HEIGHTS :: int where
  "DEFAULT_MAX_HEIGHTS = 10"

definition plan_range :: "int option \<Rightarrow> int option \<Rightarrow> int option \<Rightarrow> int option \<Rightarrow> int \<Rightarrow> int \<Rightarrow> bool \<Rightarrow> range_plan res" where
  "plan_range checkpoint start_height end_height max_heights finalized_tip hard_max dry_run =
     bindE (guardE (\<not> (checkpoint = None \<and> start_height = None)) (ValueError ''--start-height is required for an empty database'')) (\<lambda>_.
     bindE (guardE (case (checkpoint, start_height) of (Some c, Some s) \<Rightarrow> s \<le> c + 1 | _ \<Rightarrow> True)
              (ValueError ''--start-height would skip checkpoint'')) (\<lambda>_.
     let start = (case start_height of Some s \<Rightarrow> s | None \<Rightarrow> the checkpoint + 1) in
     bindE (guardE (1 \<le> start) (ValueError ''start height must be positive'')) (\<lambda>_.
     let limit = (case max_heights of Some m \<Rightarrow> m | None \<Rightarrow> DEFAULT_MAX_HEIGHTS) in
     bindE (guardE (1 \<le> limit) (ValueError ''max heights must be positive'')) (\<lambda>_.
     let planned_end = start + limit - 1;
         end_at = (case end_height of Some e \<Rightarrow> e | None \<Rightarrow> planned_end) in
     bindE (guardE (start \<le> end_at) (ValueError ''end height must be >= start height'')) (\<lambda>_.
     let count = end_at - start + 1 in
     bindE (guardE (count \<le> hard_max) (ValueError ''requested range is above hard limit'')) (\<lambda>_.
     bindE (guardE (end_at \<le> finalized_tip) (ValueError ''requested end height is above finalized_tip'')) (\<lambda>_.
     Inr \<lparr>rp_start_height = start, rp_end_height = end_at, rp_count = count, rp_finalized_tip = finalized_tip, rp_dry_run = dry_run\<rparr>)))))))"

section \<open>The run\<close>

record service =
  sv_url :: string
  sv_chain_id :: string
  sv_finalized_tip :: int
  sv_probes :: "rpc_probe list"

definition index_height :: "run_env \<Rightarrow> rpc_net \<Rightarrow> service \<Rightarrow> bool \<Rightarrow> int option \<Rightarrow> int \<Rightarrow> (world, unit) act" where
  "index_height en net sv dry_run fail_after height =
     bindS (liftS (fetch_height net (sv_url sv) height)) (\<lambda>(block_payload, block_results_payload, commit_payload, validators_payload).
     bindS (liftS (parse_height height block_payload block_results_payload commit_payload validators_payload (re_decoder en))) (\<lambda>parsed.
     bindS (liftS (guardE (fail_after \<noteq> Some height) (RuntimeError ''injected failure after parse''))) (\<lambda>_.
     if dry_run then retS () else write_height en parsed (sv_chain_id sv) (sv_finalized_tip sv))))"

fun index_heights :: "run_env \<Rightarrow> rpc_net \<Rightarrow> service \<Rightarrow> bool \<Rightarrow> int option \<Rightarrow> int list \<Rightarrow> int \<Rightarrow> int list \<Rightarrow> (world, int list) act" where
  "index_heights en net sv dry_run fail_after [] expected processed = retS processed"
| "index_heights en net sv dry_run fail_after (height # heights) expected processed =
     bindS (liftS (guardE (height = expected) (RpcError ''non-sequential height plan''))) (\<lambda>_.
     bindS (index_height en net sv dry_run fail_after height) (\<lambda>_.
     index_heights en net sv dry_run fail_after heights (expected + 1) (processed @ [height])))"

definition service_run :: "run_env \<Rightarrow> rpc_net \<Rightarrow> service \<Rightarrow> range_plan \<Rightarrow> int option \<Rightarrow> (world, run_summary) act" where
  "service_run en net sv plan fail_after =
     bindS (if \<not> rp_dry_run plan \<and> sv_probes sv \<noteq> [] then record_rpc_probe_cycle en (sv_chain_id sv) (sv_probes sv) else retS ()) (\<lambda>_.
     bindS (index_heights en net sv (rp_dry_run plan) fail_after [rp_start_height plan..rp_end_height plan] (rp_start_height plan) []) (\<lambda>processed.
     retS \<lparr>rs_plan = plan, rs_processed = processed, rs_dry_run = rp_dry_run plan\<rparr>))"

section \<open>What a run does\<close>

lemma plan_facts:
  assumes "plan_range cp s e m tip hard dry = Inr p"
  shows "1 \<le> rp_start_height p" "rp_start_height p \<le> rp_end_height p" "rp_end_height p \<le> tip" "rp_end_height p - rp_start_height p + 1 \<le> hard"
    "rp_count p = rp_end_height p - rp_start_height p + 1" "cp = Some k \<Longrightarrow> rp_start_height p \<le> k + 1"
  using assms by (auto simp: plan_range_def res_simps Let_def split: option.splits)

lemma index_height_dry: "index_height en net sv True fail h w = (r, w') \<Longrightarrow> w' = w"
  unfolding index_height_def by (elim bindS_snd) (auto simp: liftS_def retS_def split: prod.splits elim!: bindS_snd)

lemma index_heights_processed:
  "index_heights en net sv dry fail hs x acc w = (Inr ps, w') \<Longrightarrow> ps = acc @ hs"
proof (induction hs arbitrary: x acc w)
  case (Cons h hs)
  then show ?case by (auto elim!: bindS_snd dest!: Cons.IH)
qed (simp add: retS_def)

lemma index_heights_dry: "index_heights en net sv True fail hs x acc w = (r, w') \<Longrightarrow> w' = w"
proof (induction hs arbitrary: x acc w)
  case (Cons h hs)
  then show ?case by (auto simp: liftS_def elim!: bindS_snd dest!: Cons.IH index_height_dry)
qed (simp add: retS_def)

lemma index_height_checkpoint:
  assumes "index_height en net sv False fail h w = (Inr (), w')"
  shows "\<exists>cp. get_checkpoint_cursor (w_db w) (sv_chain_id sv) = Inr cp \<and>
    get_checkpoint_cursor (w_db w') (sv_chain_id sv) = Inr (Some (case cp of None \<Rightarrow> h | Some k \<Rightarrow> max k h))"
proof -
  obtain b r c v ph where parsed: "parse_height h b r c v (re_decoder en) = Inr ph"
    and wr: "write_height en ph (sv_chain_id sv) (sv_finalized_tip sv) w = (Inr (), w')"
    using assms unfolding index_height_def by (elim bindS_snd) (auto simp: liftS_def split: prod.splits elim!: bindS_snd)
  have "ph_height ph = h" using parsed by (auto simp: parse_height_def res_simps Let_def)
  moreover have "write_height_cursor (re_pg en) ph (sv_chain_id sv) (sv_finalized_tip sv) (w_endpoint_id w) (w_db w) = Inr (w_db w')"
    using transact_Inr [OF wr [unfolded write_height_def]] by (auto simp: bindE_Inr_iff)
  ultimately show ?thesis using write_control advance_checkpoint_value by metis
qed

lemma index_heights_checkpoint:
  assumes "index_heights en net sv False fail hs x acc w = (Inr ps, w')" and "hs \<noteq> []" and "sorted hs"
    and "get_checkpoint_cursor (w_db w) (sv_chain_id sv) = Inr cp"
  shows "get_checkpoint_cursor (w_db w') (sv_chain_id sv) = Inr (Some (case cp of None \<Rightarrow> last hs | Some k \<Rightarrow> max k (last hs)))"
  using assms
proof (induction hs arbitrary: x acc w cp)
  case (Cons h hs)
  obtain w1 where one: "index_height en net sv False fail h w = (Inr (), w1)"
    and rest: "index_heights en net sv False fail hs (x + 1) (acc @ [h]) w1 = (Inr ps, w')"
    using Cons.prems(1) by (auto simp: liftS_def elim!: bindS_snd)
  let ?cp1 = "Some (case cp of None \<Rightarrow> h | Some k \<Rightarrow> max k h)"
  have cp1: "get_checkpoint_cursor (w_db w1) (sv_chain_id sv) = Inr ?cp1"
    using index_height_checkpoint [OF one] Cons.prems(4) by auto
  show ?case
  proof (cases "hs = []")
    case True
    then have "w' = w1" using rest by (simp add: retS_def)
    then show ?thesis using cp1 True by (cases cp) simp_all
  next
    case False
    have "h \<le> last hs" using Cons.prems(3) False by auto
    moreover have "sorted hs" using Cons.prems(3) by simp
    ultimately show ?thesis using Cons.IH [OF rest False _ cp1] False by (cases cp) (simp_all add: max.assoc max_absorb2)
  qed
qed simp

section \<open>Properties\<close>

text \<open>an accepted plan is a non-empty range of positive heights that leaves no gap after the checkpoint, stays within
  the hard limit and does not pass the finalized tip.\<close>

theorem plan_range_sound:
  assumes "plan_range cp s e m tip hard dry = Inr p"
  shows "1 \<le> rp_start_height p \<and> rp_start_height p \<le> rp_end_height p \<and> rp_end_height p \<le> tip \<and>
    rp_count p = rp_end_height p - rp_start_height p + 1 \<and> rp_count p \<le> hard \<and> (\<forall>k. cp = Some k \<longrightarrow> rp_start_height p \<le> k + 1)"
  using plan_facts [OF assms] by simp

lemma service_run_cases:
  assumes "service_run en net sv p fail w = (r, w')" and "\<not> rp_dry_run p"
  obtains (early) e where "r = Inl e"
    | (ran) w1 ps where "chain_part (w_db w1) = chain_part (w_db w)" "r = Inr \<lparr>rs_plan = p, rs_processed = ps, rs_dry_run = False\<rparr>"
      "index_heights en net sv False fail [rp_start_height p..rp_end_height p] (rp_start_height p) [] w1 = (Inr ps, w')"
  using assms unfolding service_run_def
  by (elim bindS_snd) (auto simp: retS_def split: if_splits dest!: probe_cycle_step)

text \<open>C23: a run that returns has processed exactly the planned heights in order; unless it is a dry run the stored
  checkpoint is then the greater of its old value and the end of the plan (the end of the plan for a new database); a dry
  run leaves the process state and the database as they were, however it ends.\<close>

theorem service_run_exact:
  assumes "plan_range cp s e m tip hard dry = Inr p" and "service_run en net sv p fail w = (r, w')"
    and "get_checkpoint_cursor (w_db w) (sv_chain_id sv) = Inr cp"
  shows "(\<forall>x. r = Inr x \<longrightarrow> rs_processed x = [rp_start_height p..rp_end_height p]) \<and> (rp_dry_run p \<longrightarrow> w' = w) \<and>
    (\<forall>x. r = Inr x \<and> \<not> rp_dry_run p \<longrightarrow>
      get_checkpoint_cursor (w_db w') (sv_chain_id sv) = Inr (Some (case cp of None \<Rightarrow> rp_end_height p | Some k \<Rightarrow> max k (rp_end_height p))))"
proof -
  have le: "rp_start_height p \<le> rp_end_height p" using plan_facts(2) [OF assms(1)] .
  have range: "[rp_start_height p..rp_end_height p] \<noteq> []" "last [rp_start_height p..rp_end_height p] = rp_end_height p"
    using le by (auto simp: upto_rec2)
  have ordered: "sorted [rp_start_height p..rp_end_height p]" by simp
  have exact: "rs_processed x = [rp_start_height p..rp_end_height p]" if "r = Inr x" for x
    using assms(2) that unfolding service_run_def by (elim bindS_snd) (auto simp: retS_def dest: index_heights_processed)
  have dry: "w' = w" if "rp_dry_run p"
    using assms(2) that unfolding service_run_def by (elim bindS_snd) (auto simp: retS_def dest: index_heights_dry)
  have "get_checkpoint_cursor (w_db w') (sv_chain_id sv) = Inr (Some (case cp of None \<Rightarrow> rp_end_height p | Some k \<Rightarrow> max k (rp_end_height p)))"
    if "r = Inr x" "\<not> rp_dry_run p" for x
    using assms(2) that(2)
  proof (cases rule: service_run_cases)
    case (ran w1 ps)
    have "get_checkpoint_cursor (w_db w1) (sv_chain_id sv) = Inr cp" using chain_part_cong(2) [OF ran(1)] assms(3) by simp
    from index_heights_checkpoint [OF ran(3) range(1) ordered this] show ?thesis by (cases cp) (simp_all add: range(2))
  qed (use that in simp)
  then show ?thesis using exact dry by blast
qed

theorem plan_range_sound_witness:
  "\<exists>p. plan_range (Some 41) None None (Some 1) 42 100 True = Inr p \<and> rp_start_height p \<le> 42"
proof -
  have "\<exists>p. plan_range (Some 41) None None (Some 1) 42 100 True = Inr p" by (simp add: plan_range_def)
  then show ?thesis using plan_range_sound [of "Some 41" None None "Some 1" 42 100 True] by force
qed

section \<open>A height indexed once\<close>

text \<open>An endpoint that serves height 5: no transaction, one validator, which did not vote.\<close>

definition empty_block_payload :: jobj where
  "empty_block_payload = [(''result'', JObj
     [(''block_meta'', JObj [(''block_id'', JObj [(''hash'', JStr sample_hash)])]),
      (''block'', JObj [(''header'', JObj [(''num_txs'', JInt 0), (''height'', JInt 5), (''time'', JStr ''2026-01-01T00:00:00Z'')])])])]"

definition empty_results_payload :: jobj where
  "empty_results_payload = [(''result'', JObj [(''height'', JInt 5), (''results'', JObj [(''deliver_tx'', JList [])])])]"

definition empty_commit_payload :: jobj where
  "empty_commit_payload = [(''result'', JObj
     [(''signed_header'', JObj [(''header'', JObj [(''height'', JInt 5)]),
        (''commit'', JObj [(''block_id'', JObj sample_block_id), (''precommits'', JList [JNull])])]),
      (''canonical'', JBool True)])]"

definition empty_validators_payload :: jobj where
  "empty_validators_payload = [(''result'', JObj [(''block_height'', JInt 5), (''validators'', JList
     [JObj [(''address'', JStr ''val1''), (''pub_key'', JObj [(''@type'', JStr ''ed25519''), (''value'', JStr ''key'')])]])])]"

definition serving_net :: rpc_net where
  "serving_net = (\<lambda>_ method _.
     if method = ''block'' then Inr empty_block_payload else if method = ''block_results'' then Inr empty_results_payload
     else if method = ''commit'' then Inr empty_commit_payload else Inr empty_validators_payload)"

definition empty_height :: "bytes \<Rightarrow> parsed_height" where
  "empty_height bs = \<lparr>ph_height = 5,
     ph_block = \<lparr>pb_hash_base64 = sample_hash, pb_hash_hex = hex_upper bs, pb_height = Some 5,
       pb_time = JStr ''2026-01-01T00:00:00Z'', pb_proposer_address = JNull, pb_tx_count = 0, pb_transactions = []\<rparr>,
     ph_transactions = [], ph_execution_results = [],
     ph_validators = [\<lparr>vi_address = JStr ''val1'', vi_voting_power = None, vi_proposer_priority = None,
       vi_pub_key_type = JStr ''ed25519'', vi_pub_key_display_type = normalize_pub_key_type (JStr ''ed25519''), vi_pub_key_value = JStr ''key''\<rparr>],
     ph_signatures = [signature_row 5 (JStr ''val1'') ''absent'' False None False False None JNull],
     ph_raw_block = empty_block_payload\<rparr>"

lemma empty_height_parsed:
  "\<exists>bs. length bs = 32 \<and> parse_height 5 empty_block_payload empty_results_payload empty_commit_payload empty_validators_payload None =
     Inr (empty_height bs)"
proof -
  obtain bs where bs: "b64decode sample_hash = Some bs" "length bs = 32" using sample_hash_decodes by blast
  have b: "parse_block empty_block_payload None = Inr (ph_block (empty_height bs))"
    using bs sample_hash_nonzero
    by (simp add: parse_block_def legacy_parse_block_def empty_block_payload_def result_def decode_base64_def py_len_def
        py_iter_def block_txs_def get_or_empty_def enumerate_simps empty_height_def)
  have c: "parse_commit empty_commit_payload = Inr \<lparr>ci_height = 5, ci_header_height = 5,
      ci_precommits = [JNull], ci_canonical = True\<rparr>"
    by (simp add: parse_commit_def empty_commit_payload_def result_def)
  have v: "parse_validators empty_validators_payload = Inr \<lparr>vs_block_height = 5, vs_total = None, vs_validators = ph_validators (empty_height bs)\<rparr>"
    by (simp add: parse_validators_def empty_validators_payload_def result_def py_iter_def parse_validator_def empty_height_def)
  have r: "parse_execution_results 5 (JObj empty_results_payload) 0 = Inr []"
    by (simp add: parse_execution_results_def empty_results_payload_def deliver_list_def get_alt_def enumerate_simps gas_def gas_range_def
        str_int_def digits_of_nat.simps max_str_digits_def)
  obtain n where n: "normalize_block_id (JObj sample_block_id) = Inr n" using sample_id by blast
  have cid: "commit_block_id empty_commit_payload = Inr n"
    using n by (simp add: commit_block_id_def empty_commit_payload_def get_or_empty_def)
  have act: "py_set [JStr ''val1''] = [JStr ''val1'']" by (simp add: py_set_def)
  have "classify_votes 5 empty_commit_payload [JNull] (ph_validators (empty_height bs)) = Inr (ph_signatures (empty_height bs))"
    by (simp add: classify_votes_def hash_all_def is_hashable_def cid scan_precommit_def in_set_def
        dict_get_def py_sorted_def str_of_def vote_row_def act empty_height_def)
  with b c v r have "parse_height 5 empty_block_payload empty_results_payload empty_commit_payload empty_validators_payload None =
     Inr (empty_height bs)" by (simp add: parse_height_def empty_height_def)
  with bs(2) show ?thesis by blast
qed

lemma empty_height_written:
  assumes "length bs = 32"
  shows "\<exists>d. write_height_cursor sample_pg (empty_height bs) ''c'' 6 None empty_db = Inr d"
proof -
  have checks: "verify_finalized_conflicts sample_pg empty_db (empty_height bs) = Inr ()"
    by (simp add: verify_finalized_conflicts_def verify_block_conflict_def empty_height_def verify_child_key_sets_def
       verify_transaction_conflicts_def verify_execution_result_conflicts_def verify_validator_conflicts_def
       verify_member_conflicts_def verify_signature_conflicts_def empty_db_def by_address_def sample_pg_def)
  have upper: "py_upper (hex_upper bs) = hex_upper bs" by simp
  obtain row where row: "bound_block sample_pg (empty_height bs) = Inr row"
    using assms hex_upper_alphabet upper by (auto simp add: bound_block_def text_nn_def not_null_def sample_pg_def empty_height_def json_param_def
     check_block_def in_range_def constraint_def int8_def int4_def empty_block_payload_def)
  have height: "ph_height (empty_height bs) = 5" by (simp add: empty_height_def)
  have block: "upsert_block sample_pg (empty_height bs) empty_db = Inr (empty_db\<lparr>blocks := [(5, row)]\<rparr>)"
    by (simp add: upsert_block_def row height unique_key_def constraint_def empty_db_def)
  have same: "py_eq (opt_json (normalize_pub_key_type k)) (opt_json (normalize_pub_key_type k))" for k
    by (simp add: opt_json_def split: option.split)
  show ?thesis
    unfolding write_height_cursor_def checks block
    apply (simp add: sample_ops same)
    apply (simp add: sample_ops empty_db_def empty_height_def sample_pg_def sample_chain_named int_json_def same)
    done
qed

lemma serving_fetch: "fetch_height serving_net u 5 = Inr (empty_block_payload, empty_results_payload, empty_commit_payload, empty_validators_payload)"
  by (simp add: fetch_height_def serving_net_def)

definition sample_service :: service where
  "sample_service = \<lparr>sv_url = ''http://a'', sv_chain_id = ''c'', sv_finalized_tip = 6, sv_probes = []\<rparr>"

definition sample_range :: range_plan where
  "sample_range = \<lparr>rp_start_height = 5, rp_end_height = 5, rp_count = 1, rp_finalized_tip = 6, rp_dry_run = False\<rparr>"

theorem service_run_exact_witness:
  "plan_range None (Some 5) None (Some 1) 6 100 False = Inr sample_range \<and>
   (\<exists>x w'. service_run quiet_env serving_net sample_service sample_range None (new_world empty_db) = (Inr x, w') \<and>
     rs_processed x = [5] \<and> get_checkpoint_cursor (w_db w') ''c'' = Inr (Some 5))"
proof -
  have plan: "plan_range None (Some 5) None (Some 1) 6 100 False = Inr sample_range" by (simp add: plan_range_def sample_range_def)
  obtain bs where bs: "length bs = 32" and ph: "parse_height 5 empty_block_payload empty_results_payload empty_commit_payload
      empty_validators_payload None = Inr (empty_height bs)" using empty_height_parsed by blast
  obtain d where d: "write_height_cursor sample_pg (empty_height bs) ''c'' 6 None empty_db = Inr d" using empty_height_written [OF bs] by blast
  obtain x w' where run: "service_run quiet_env serving_net sample_service sample_range None (new_world empty_db) = (Inr x, w')"
    using d by (simp add: service_run_def sample_range_def sample_service_def index_height_def serving_fetch ph quiet_env_def
      write_height_def transact_def new_world_def bindS_def liftS_def retS_def)
  have cp: "get_checkpoint_cursor (w_db (new_world empty_db)) (sv_chain_id sample_service) = Inr None"
    by (simp add: new_world_def empty_db_def get_checkpoint_cursor_def)
  from service_run_exact [OF plan run cp] run plan show ?thesis by (auto simp: sample_range_def sample_service_def)
qed

end
