(* ===== verification/Indexer_Config.thy ===== *)
theory Indexer_Config
  imports Runner Service Py_Number
begin

text \<open>
  \<open>indexer/config.py\<close>: the settings read from the environment. The environment is a map from names to texts, as it is
  after \<open>load_dotenv\<close>; that function runs again inside every reader, and a second run changes nothing
  (\<open>load_dotenv_again\<close>). A file name is absolute when it starts with a slash (POSIX).
\<close>

section \<open>The transaction decoder\<close>

record decoder_config =
  tdc_enabled :: bool
  tdc_executable_path :: string
  tdc_expected_chain_family :: string
  tdc_timeout_seconds :: pyfloat
  tdc_restart_backoff_seconds :: pyfloat

definition booleans :: "string \<rightharpoonup> bool" where
  "booleans = [''true'' \<mapsto> True, ''false'' \<mapsto> False, ''1'' \<mapsto> True, ''0'' \<mapsto> False, ''yes'' \<mapsto> True, ''no'' \<mapsto> False,
     ''on'' \<mapsto> True, ''off'' \<mapsto> False]"

definition lower_az :: "char \<Rightarrow> bool" where
  "lower_az c = (97 \<le> (of_char c :: nat) \<and> (of_char c :: nat) \<le> 122)"

definition ascii_digit :: "char \<Rightarrow> bool" where
  "ascii_digit c = (48 \<le> (of_char c :: nat) \<and> (of_char c :: nat) \<le> 57)"

text \<open>\<open>[a-z][a-z0-9_-]{0,63}\<close>, the whole text.\<close>

definition family_token :: "string \<Rightarrow> bool" where
  "family_token s = (case s of [] \<Rightarrow> False
     | c # r \<Rightarrow> lower_az c \<and> length r \<le> 63 \<and> list_all (\<lambda>d. lower_az d \<or> ascii_digit d \<or> d = CHR ''_'' \<or> d = CHR ''-'') r)"

definition f_in :: "(rat \<Rightarrow> bool) \<Rightarrow> pyfloat \<Rightarrow> bool" where
  "f_in ok f = (case f of Fin x \<Rightarrow> ok x | _ \<Rightarrow> False)"

definition load_transaction_decoder_config :: "env \<Rightarrow> decoder_config res" where
  "load_transaction_decoder_config e =
     (let raw_enabled = py_lower (py_strip (env_get e ''TRANSACTION_DECODER_ENABLED'' ''false'')) in
      case booleans raw_enabled of
        None \<Rightarrow> Inl (ValueError ''TRANSACTION_DECODER_ENABLED must be an explicit boolean'')
      | Some enabled \<Rightarrow>
         let path = py_strip (env_get e ''TRANSACTION_DECODER_PATH'' ''/opt/utsa-gno-explorer/bin/gno-tx-decoder'');
             family = py_strip (env_get e ''TRANSACTION_DECODER_CHAIN_FAMILY'' ''gno'') in
         bindE (guardE (\<not> enabled \<or> startswith path ''/'') (ValueError ''TRANSACTION_DECODER_PATH must be absolute when enabled'')) (\<lambda>_.
         bindE (guardE (family_token family) (ValueError ''TRANSACTION_DECODER_CHAIN_FAMILY must be a bounded lowercase token'')) (\<lambda>_.
         case (py_float_of_str (py_strip (env_get e ''TRANSACTION_DECODER_TIMEOUT_SECONDS'' ''2'')),
               py_float_of_str (py_strip (env_get e ''TRANSACTION_DECODER_RESTART_BACKOFF_SECONDS'' ''30''))) of
           (Some timeout, Some backoff) \<Rightarrow>
             bindE (guardE (f_in (\<lambda>x. 0 < x \<and> x \<le> 30) timeout)
               (ValueError ''TRANSACTION_DECODER_TIMEOUT_SECONDS must be greater than 0 and at most 30'')) (\<lambda>_.
             bindE (guardE (f_in (\<lambda>x. 1 \<le> x \<and> x \<le> 3600) backoff)
               (ValueError ''TRANSACTION_DECODER_RESTART_BACKOFF_SECONDS must be between 1 and 3600'')) (\<lambda>_.
             Inr \<lparr>tdc_enabled = enabled, tdc_executable_path = path, tdc_expected_chain_family = family,
                  tdc_timeout_seconds = timeout, tdc_restart_backoff_seconds = backoff\<rparr>))
         | _ \<Rightarrow> Inl (ValueError ''transaction decoder timeout and backoff must be numbers''))))"

section \<open>The indexer\<close>

record indexer_config =
  ic_database_url :: string
  ic_rpc_urls :: "string list"
  ic_chain_id :: string
  ic_max_height_lag :: int
  ic_hard_max_heights :: int

definition configured_hard_max_heights :: "env \<Rightarrow> int res" where
  "configured_hard_max_heights e =
     (case py_int_of_str (py_strip (env_get e ''INDEXER_HARD_MAX_HEIGHTS'' ''100'')) of
        None \<Rightarrow> Inl (ValueError ''INDEXER_HARD_MAX_HEIGHTS must be an integer'')
      | Some v \<Rightarrow> bindE (guardE (1 \<le> v) (ValueError ''INDEXER_HARD_MAX_HEIGHTS must be positive'')) (\<lambda>_. Inr v))"

definition load_config :: "env \<Rightarrow> indexer_config res" where
  "load_config e =
     bindE (configured_max_height_lag e) (\<lambda>lag.
     bindE (configured_hard_max_heights e) (\<lambda>hard.
     Inr \<lparr>ic_database_url = py_strip (env_get e ''DATABASE_URL'' []), ic_rpc_urls = configured_rpc_urls e,
          ic_chain_id = configured_chain_id e, ic_max_height_lag = lag, ic_hard_max_heights = hard\<rparr>))"

definition optional_positive_int :: "env \<Rightarrow> string \<Rightarrow> int option res" where
  "optional_positive_int e name =
     (let raw_value = py_strip (env_get e name []) in
      if raw_value = [] then Inr None
      else case py_int_of_str raw_value of
             None \<Rightarrow> Inl (ValueError (name @ '' must be an integer''))
           | Some v \<Rightarrow> bindE (guardE (1 \<le> v) (ValueError (name @ '' must be positive''))) (\<lambda>_. Inr (Some v)))"

definition positive_int :: "env \<Rightarrow> string \<Rightarrow> int \<Rightarrow> int res" where
  "positive_int e name fallback = bindE (optional_positive_int e name) (\<lambda>v. Inr (case v of None \<Rightarrow> fallback | Some i \<Rightarrow> i))"

definition DEFAULT_INDEXER_BATCH_SIZE :: int where "DEFAULT_INDEXER_BATCH_SIZE = 10"
definition DEFAULT_INDEXER_POLL_INTERVAL_SECONDS :: int where "DEFAULT_INDEXER_POLL_INTERVAL_SECONDS = 5"
definition DEFAULT_INDEXER_ERROR_BACKOFF_SECONDS :: int where "DEFAULT_INDEXER_ERROR_BACKOFF_SECONDS = 5"
definition DEFAULT_INDEXER_MAX_BACKOFF_SECONDS :: int where "DEFAULT_INDEXER_MAX_BACKOFF_SECONDS = 60"

definition load_continuous_config :: "env \<Rightarrow> continuous_config res" where
  "load_continuous_config e =
     bindE (optional_positive_int e ''INDEXER_START_HEIGHT'') (\<lambda>start.
     bindE (positive_int e ''INDEXER_BATCH_SIZE'' DEFAULT_INDEXER_BATCH_SIZE) (\<lambda>batch.
     bindE (positive_int e ''INDEXER_POLL_INTERVAL_SECONDS'' DEFAULT_INDEXER_POLL_INTERVAL_SECONDS) (\<lambda>poll.
     bindE (positive_int e ''INDEXER_ERROR_BACKOFF_SECONDS'' DEFAULT_INDEXER_ERROR_BACKOFF_SECONDS) (\<lambda>err.
     bindE (positive_int e ''INDEXER_MAX_BACKOFF_SECONDS'' DEFAULT_INDEXER_MAX_BACKOFF_SECONDS) (\<lambda>backoff.
     bindE (configured_hard_max_heights e) (\<lambda>hard.
     Inr \<lparr>cc_start_height = start, cc_batch_size = batch, cc_poll_interval_seconds = poll, cc_error_backoff_seconds = err,
          cc_max_backoff_seconds = backoff, cc_hard_max_heights = hard, cc_once = False, cc_max_cycles = None\<rparr>))))))"

section \<open>Facts\<close>

text \<open>Loading the file again changes nothing: a name that is set is never set again.\<close>

lemma load_dotenv_line_settled:
  "load_dotenv_line e l = e \<Longrightarrow> e \<subseteq>\<^sub>m e' \<Longrightarrow> load_dotenv_line e' l = e'"
  by (auto simp: load_dotenv_line_def Let_def map_le_def dom_def fun_upd_idem_iff split: if_splits)

lemma load_dotenv_line_twice: "load_dotenv_line (load_dotenv_line e l) l = load_dotenv_line e l"
  by (auto simp: load_dotenv_line_def Let_def)

lemma load_dotenv_line_extends: "e \<subseteq>\<^sub>m load_dotenv_line e l"
  by (auto simp: load_dotenv_line_def map_le_def Let_def)

lemma foldl_dotenv_extends: "e \<subseteq>\<^sub>m foldl load_dotenv_line e ls"
proof (induction ls arbitrary: e)
  case (Cons l ls)
  then show ?case using load_dotenv_line_extends map_le_trans by (metis foldl_Cons)
qed simp

lemma foldl_dotenv_settled: "l \<in> set ls \<Longrightarrow> load_dotenv_line (foldl load_dotenv_line e ls) l = foldl load_dotenv_line e ls"
proof (induction ls arbitrary: e)
  case (Cons k ls)
  show ?case
  proof (cases "l = k")
    case True
    show ?thesis using load_dotenv_line_settled [OF load_dotenv_line_twice foldl_dotenv_extends] True by simp
  qed (use Cons in simp)
qed simp

lemma foldl_unchanged: "(\<And>l. l \<in> set ls \<Longrightarrow> f e l = e) \<Longrightarrow> foldl f e ls = e"
  by (induction ls) auto

lemma load_dotenv_again: "load_dotenv file (load_dotenv file e) = load_dotenv file e"
  by (auto simp: load_dotenv_def foldl_unchanged foldl_dotenv_settled split: option.splits)

lemma positive_int_ge: "positive_int e n d = Inr v \<Longrightarrow> 1 \<le> d \<Longrightarrow> 1 \<le> v"
  by (auto simp: positive_int_def optional_positive_int_def Let_def res_simps split: if_splits option.splits)

lemma optional_positive_int_ge: "optional_positive_int e n = Inr v \<Longrightarrow> opt_check (\<lambda>i. 1 \<le> i) v"
  by (auto simp: opt_check_def optional_positive_int_def Let_def res_simps split: if_splits option.splits)

lemma hard_max_ge: "configured_hard_max_heights e = Inr v \<Longrightarrow> 1 \<le> v"
  by (auto simp: configured_hard_max_heights_def res_simps split: option.splits)

lemmas defaults = DEFAULT_INDEXER_BATCH_SIZE_def DEFAULT_INDEXER_POLL_INTERVAL_SECONDS_def
  DEFAULT_INDEXER_ERROR_BACKOFF_SECONDS_def DEFAULT_INDEXER_MAX_BACKOFF_SECONDS_def

text \<open>What is read from the environment fails validation only for one of the two cross-field conditions.\<close>

lemma loaded_config_valid:
  assumes "load_continuous_config e = Inr c"
  shows "validate_continuous_config c = Inr () \<longleftrightarrow>
    cc_batch_size c \<le> cc_hard_max_heights c \<and> cc_error_backoff_seconds c \<le> cc_max_backoff_seconds c"
proof -
  have "1 \<le> cc_batch_size c" "1 \<le> cc_poll_interval_seconds c" "1 \<le> cc_error_backoff_seconds c" "1 \<le> cc_max_backoff_seconds c"
    "1 \<le> cc_hard_max_heights c" "opt_check (\<lambda>i. 1 \<le> i) (cc_start_height c)" "cc_max_cycles c = None"
    using assms by (auto simp: load_continuous_config_def res_simps defaults dest: positive_int_ge optional_positive_int_ge hard_max_ge)
  then show ?thesis by (auto simp: validate_continuous_config_def res_simps opt_check_def)
qed

end
