(* ===== verification/Governance_Updater.thy ===== *)
theory Governance_Updater
  imports Governance_Discovery Governance_Sync Indexer_Config
begin

text \<open>
  \<open>indexer/governance_updater.py\<close>, the methods of \<open>PostgresDatabase\<close> it calls and its settings: full and quick cycles with
  failover between endpoints, and the loop around them. As in the continuous runner, the answers of the endpoints in each
  cycle, the faults of the server at each connection, the moment of the stop signal and the readings of the clock are
  inputs; sleeps are recorded in \<open>us_waits\<close>, log lines are left out. The loop takes fuel, one unit per turn.
\<close>

section \<open>Configuration\<close>

record updater_config =
  uf_database_url :: string
  uf_rpc_urls :: "string list"
  uf_chain_id :: string
  uf_realm :: string
  uf_max_height_lag :: int
  uf_refresh_interval_seconds :: int
  uf_full_reconcile_interval_seconds :: int
  uf_error_backoff_seconds :: int
  uf_max_backoff_seconds :: int

definition validate_config :: "updater_config \<Rightarrow> unit res" where
  "validate_config config =
     bindE (guardE (uf_database_url config \<noteq> []) (FatalGovernanceUpdaterError ''DATABASE_URL is required'')) (\<lambda>_.
     bindE (guardE (startswith (uf_realm config) ''gno.land/r/'' \<and> CHR '':'' \<notin> set (uf_realm config))
              (FatalGovernanceUpdaterError ''invalid governance realm'')) (\<lambda>_.
     bindE (guardE (list_all (\<lambda>v. 1 \<le> v) [uf_refresh_interval_seconds config, uf_full_reconcile_interval_seconds config,
                     uf_error_backoff_seconds config, uf_max_backoff_seconds config])
              (FatalGovernanceUpdaterError ''governance intervals must be positive integers'')) (\<lambda>_.
     bindE (guardE (uf_refresh_interval_seconds config \<le> uf_full_reconcile_interval_seconds config)
              (FatalGovernanceUpdaterError ''refresh interval must not exceed full reconcile interval'')) (\<lambda>_.
     guardE (uf_error_backoff_seconds config \<le> uf_max_backoff_seconds config)
              (FatalGovernanceUpdaterError ''error backoff must not exceed max backoff'')))))"

definition load_governance_updater_config :: "env \<Rightarrow> updater_config res" where
  "load_governance_updater_config e =
     bindE (configured_max_height_lag e) (\<lambda>lag.
     bindE (positive_int e ''GOVERNANCE_REFRESH_INTERVAL_SECONDS'' 30) (\<lambda>refresh.
     bindE (positive_int e ''GOVERNANCE_FULL_RECONCILE_INTERVAL_SECONDS'' 21600) (\<lambda>reconcile.
     bindE (positive_int e ''GOVERNANCE_ERROR_BACKOFF_SECONDS'' 5) (\<lambda>err.
     bindE (positive_int e ''GOVERNANCE_MAX_BACKOFF_SECONDS'' 60) (\<lambda>backoff.
     let realm = py_strip (env_get e ''GNO_GOVERNANCE_REALM'' []);
         config = \<lparr>uf_database_url = py_strip (env_get e ''DATABASE_URL'' []), uf_rpc_urls = configured_rpc_urls e,
                   uf_chain_id = configured_chain_id e, uf_realm = (if realm = [] then ''gno.land/r/gov/dao'' else realm),
                   uf_max_height_lag = lag, uf_refresh_interval_seconds = refresh, uf_full_reconcile_interval_seconds = reconcile,
                   uf_error_backoff_seconds = err, uf_max_backoff_seconds = backoff\<rparr> in
     bindE (validate_config config) (\<lambda>_. Inr config))))))"

section \<open>Inputs and state\<close>

record updater_cycle =
  uy_reply :: "nat \<Rightarrow> jobj res"
  uy_dur :: "nat \<Rightarrow> pyfloat"
  uy_client :: "string \<Rightarrow> qclient"

record updater_env =
  ue_tables :: unicode_tables
  ue_fault :: "nat \<Rightarrow> db_fault option"
  ue_stop_at :: "nat option"
  ue_cycle :: "nat \<Rightarrow> updater_cycle"
  ue_clock :: "nat \<Rightarrow> rat"

record updater_state =
  us_db :: gov_db
  us_conn :: nat
  us_polls :: nat
  us_ticks :: nat
  us_waits :: "int list"

definition new_updater_state :: "gov_db \<Rightarrow> updater_state" where
  "new_updater_state d = \<lparr>us_db = d, us_conn = 0, us_polls = 0, us_ticks = 0, us_waits = []\<rparr>"

section \<open>Database methods\<close>

definition gov_transact :: "updater_env \<Rightarrow> (gov_db \<Rightarrow> ('a \<times> gov_db) res) \<Rightarrow> (updater_state, 'a) act" where
  "gov_transact en f st =
     (let st1 = st\<lparr>us_conn := us_conn st + 1\<rparr>; fault = ue_fault en (us_conn st) in
      if fault = Some Refused then (Inl OperationalError, st1)
      else case f (us_db st) of
             Inl e \<Rightarrow> (Inl e, st1)
           | Inr (x, d) \<Rightarrow>
               (case fault of
                  None \<Rightarrow> (Inr x, st1\<lparr>us_db := d\<rparr>)
                | Some Rolled_Back \<Rightarrow> (Inl OperationalError, st1)
                | _ \<Rightarrow> (Inl OperationalError, st1\<lparr>us_db := d\<rparr>)))"

definition persist_governance_snapshot :: "updater_env \<Rightarrow> gov_discovery \<Rightarrow> string \<Rightarrow> (updater_state, gov_result) act" where
  "persist_governance_snapshot en discovery chain_id =
     gov_transact en (persist_governance_snapshot_cursor (uc_fold (ue_tables en)) discovery chain_id)"

definition persist_governance_incremental ::
  "updater_env \<Rightarrow> gov_list_discovery \<Rightarrow> gov_discovery list \<Rightarrow> string \<Rightarrow> (updater_state, gov_result) act" where
  "persist_governance_incremental en listed targeted chain_id =
     gov_transact en (persist_governance_incremental_cursor (uc_fold (ue_tables en)) listed targeted chain_id)"

definition governance_statuses :: "updater_env \<Rightarrow> string \<Rightarrow> string \<Rightarrow> (updater_state, int \<rightharpoonup> string) act" where
  "governance_statuses en chain_id realm_path =
     gov_transact en (\<lambda>d. Inr (map_option (\<lambda>r. pc_status (pr_content r)) \<circ> map_of (gt_props (part_of d chain_id realm_path)), d))"

section \<open>Cycles\<close>

definition rstrip_slash :: "string \<Rightarrow> string" where
  "rstrip_slash s = rev (dropWhile (\<lambda>c. c = CHR ''/'') (rev s))"

definition source_of :: "updater_config \<Rightarrow> selected_rpc \<Rightarrow> gov_source" where
  "source_of config rpc =
     \<lparr>gs_chain_id = uf_chain_id config, gs_rpc_url = rstrip_slash (sel_url rpc), gs_observed_height = sel_latest_height rpc,
      gs_realm_path = uf_realm config\<rparr>"

definition candidates :: "updater_config \<Rightarrow> updater_cycle \<Rightarrow> selected_rpc list res" where
  "candidates config cy =
     bindE (probe_rpc_endpoints (uy_reply cy) (uy_dur cy) (uf_rpc_urls config) (uf_chain_id config) (uf_max_height_lag config)) (\<lambda>probes.
     let found = suitable_rpc_candidates probes in
     bindE (guardE (found \<noteq> []) (AllGovernanceRpcAttemptsFailed ''No suitable Governance RPC candidates'')) (\<lambda>_.
     Inr found))"

text \<open>\<open>RETRYABLE_ENDPOINT_ERRORS\<close>, with the subclasses of \<open>RpcError\<close>.\<close>

definition retryable :: "py_error \<Rightarrow> bool" where
  "retryable e = (is_RpcError e \<or> (case e of GovernanceParseError _ \<Rightarrow> True | IncompleteGovernanceSnapshot _ \<Rightarrow> True
     | StaleGovernanceSnapshot _ \<Rightarrow> True | _ \<Rightarrow> False))"

text \<open>The loop over the candidates: the first attempt that does not fail with a retryable error decides.\<close>

fun try_attempts :: "(selected_rpc \<Rightarrow> (updater_state, gov_result) act) \<Rightarrow> selected_rpc list \<Rightarrow> (updater_state, gov_result) act" where
  "try_attempts attempt_one [] st = (Inl (AllGovernanceRpcAttemptsFailed ''All suitable Governance RPC attempts failed''), st)"
| "try_attempts attempt_one (rpc # rpcs) st =
     (case attempt_one rpc st of
        (Inr r, st1) \<Rightarrow> (Inr r, st1)
      | (Inl e, st1) \<Rightarrow> if retryable e then try_attempts attempt_one rpcs st1 else (Inl e, st1))"

definition full_attempt :: "updater_env \<Rightarrow> updater_config \<Rightarrow> updater_cycle \<Rightarrow> selected_rpc \<Rightarrow> (updater_state, gov_result) act" where
  "full_attempt en config cy rpc =
     bindS (liftS (fst (discover_governance (ue_tables en) (uy_client cy (sel_url rpc)) (source_of config rpc) (int MAX_GOVERNANCE_PAGES)
              (int MAX_GOVERNANCE_PROPOSALS) None True 0))) (\<lambda>discovery.
     persist_governance_snapshot en discovery (uf_chain_id config))"

definition run_full_cycle :: "updater_env \<Rightarrow> updater_config \<Rightarrow> updater_cycle \<Rightarrow> (updater_state, gov_result) act" where
  "run_full_cycle en config cy =
     bindS (liftS (candidates config cy)) (\<lambda>found.
     try_attempts (full_attempt en config cy) found)"

fun discover_targets ::
  "unicode_tables \<Rightarrow> qclient \<Rightarrow> gov_source \<Rightarrow> int list \<Rightarrow> gov_summary list \<Rightarrow> gov_discovery list \<Rightarrow> (nat, gov_discovery list) act" where
  "discover_targets uc client source ids [] targeted = retS targeted"
| "discover_targets uc client source ids (summary # summaries) targeted =
     (if gm_proposal_id summary \<in> set ids then
        bindS (discover_governance_proposal uc client source summary True) (\<lambda>found.
        discover_targets uc client source ids summaries (targeted @ [found]))
      else discover_targets uc client source ids summaries targeted)"

definition quick_discovery ::
  "unicode_tables \<Rightarrow> qclient \<Rightarrow> gov_source \<Rightarrow> (int \<rightharpoonup> string) \<Rightarrow> (nat, gov_list_discovery \<times> gov_discovery list) act" where
  "quick_discovery uc client source stored =
     bindS (discover_governance_list uc client source (int MAX_GOVERNANCE_PAGES) (int MAX_GOVERNANCE_PROPOSALS) True) (\<lambda>listed.
     bindS (discover_targets uc client source (select_governance_refresh_ids (gl_proposals listed) stored) (gl_proposals listed) []) (\<lambda>targeted.
     retS (listed, targeted)))"

definition quick_attempt ::
  "updater_env \<Rightarrow> updater_config \<Rightarrow> updater_cycle \<Rightarrow> (int \<rightharpoonup> string) \<Rightarrow> selected_rpc \<Rightarrow> (updater_state, gov_result) act" where
  "quick_attempt en config cy stored rpc =
     bindS (liftS (fst (quick_discovery (ue_tables en) (uy_client cy (sel_url rpc)) (source_of config rpc) stored 0))) (\<lambda>(listed, targeted).
     persist_governance_incremental en listed targeted (uf_chain_id config))"

definition run_quick_cycle :: "updater_env \<Rightarrow> updater_config \<Rightarrow> updater_cycle \<Rightarrow> (updater_state, gov_result) act" where
  "run_quick_cycle en config cy =
     bindS (liftS (candidates config cy)) (\<lambda>found.
     bindS (governance_statuses en (uf_chain_id config) (uf_realm config)) (\<lambda>stored.
     try_attempts (quick_attempt en config cy stored) found))"

section \<open>The loop\<close>

definition updater_stop :: "updater_env \<Rightarrow> updater_state \<Rightarrow> bool" where
  "updater_stop en st = (case ue_stop_at en of None \<Rightarrow> False | Some k \<Rightarrow> k \<le> us_polls st)"

definition updater_wait :: "int \<Rightarrow> updater_state \<Rightarrow> updater_state" where
  "updater_wait seconds st = st\<lparr>us_waits := us_waits st @ [seconds]\<rparr>"

definition tick :: "updater_state \<Rightarrow> updater_state" where
  "tick st = st\<lparr>us_ticks := us_ticks st + 1\<rparr>"

record updater_vars =
  uv_cycles :: nat
  uv_turn :: nat
  uv_last_full :: "rat option"
  uv_backoff :: int

text \<open>\<open>now - last_full >= interval\<close>: float subtraction, exact comparison with an integer.\<close>

definition full_due :: "updater_config \<Rightarrow> bool \<Rightarrow> rat option \<Rightarrow> rat \<Rightarrow> bool" where
  "full_due config full_once last_full now =
     (full_once \<or> (case last_full of None \<Rightarrow> True
       | Some t \<Rightarrow> f_le (Fin (of_int (uf_full_reconcile_interval_seconds config))) (rnd (now - t))))"

definition is_fatal :: "py_error \<Rightarrow> bool" where
  "is_fatal e = (case e of GovernanceChainIdentityError _ \<Rightarrow> True | GovernanceStoredStateError _ \<Rightarrow> True | _ \<Rightarrow> False)"

definition enough_cycles :: "int option \<Rightarrow> nat \<Rightarrow> bool" where
  "enough_cycles max_cycles n = (case max_cycles of None \<Rightarrow> False | Some m \<Rightarrow> m \<le> int n)"

text \<open>One turn after the stop flag was read: the cycle, then either the result of the run or the variables of the next turn.\<close>

definition updater_turn ::
  "updater_env \<Rightarrow> updater_config \<Rightarrow> bool \<Rightarrow> bool \<Rightarrow> int option \<Rightarrow> updater_vars \<Rightarrow> updater_state \<Rightarrow> (int res + updater_vars) \<times> updater_state" where
  "updater_turn en config once full_once max_cycles v st =
     (let now = ue_clock en (us_ticks st);
          full = full_due config full_once (uv_last_full v) now;
          cy = ue_cycle en (uv_turn v);
          v1 = v\<lparr>uv_turn := uv_turn v + 1\<rparr> in
      case (if full then run_full_cycle en config cy else run_quick_cycle en config cy) (tick st) of
        (Inr _, st1) \<Rightarrow>
          (let v2 = (if full then v1\<lparr>uv_last_full := Some (ue_clock en (us_ticks st1))\<rparr> else v1)
                      \<lparr>uv_cycles := uv_cycles v + 1, uv_backoff := uf_error_backoff_seconds config\<rparr>;
               st2 = (if full then tick st1 else st1) in
           if once \<or> full_once \<or> enough_cycles max_cycles (uv_cycles v2) then (Inl (Inr 0), st2)
           else (Inr v2, updater_wait (uf_refresh_interval_seconds config) st2))
      | (Inl e, st1) \<Rightarrow>
          if is_fatal e then (Inl (Inl e), st1)
          else (Inr (v1\<lparr>uv_backoff := min (uv_backoff v * 2) (uf_max_backoff_seconds config)\<rparr>), updater_wait (uv_backoff v) st1))"

fun updater_loop ::
  "nat \<Rightarrow> updater_env \<Rightarrow> updater_config \<Rightarrow> bool \<Rightarrow> bool \<Rightarrow> int option \<Rightarrow> updater_vars \<Rightarrow> updater_state \<Rightarrow> (int res \<times> updater_state) option" where
  "updater_loop 0 en config once full_once max_cycles v st = None"
| "updater_loop (Suc fuel) en config once full_once max_cycles v st =
     (let st1 = st\<lparr>us_polls := us_polls st + 1\<rparr> in
      if updater_stop en st then Some (Inr 0, st1)
      else case updater_turn en config once full_once max_cycles v st1 of
             (Inl r, st2) \<Rightarrow> Some (r, st2)
           | (Inr v', st2) \<Rightarrow> updater_loop fuel en config once full_once max_cycles v' st2)"

definition run_updater ::
  "nat \<Rightarrow> updater_env \<Rightarrow> updater_config \<Rightarrow> bool \<Rightarrow> bool \<Rightarrow> int option \<Rightarrow> updater_state \<Rightarrow> (int res \<times> updater_state) option" where
  "run_updater fuel en config once full_once max_cycles st =
     (case validate_config config of
        Inl e \<Rightarrow> Some (Inl e, st)
      | Inr _ \<Rightarrow> updater_loop fuel en config once full_once max_cycles
                  \<lparr>uv_cycles = 0, uv_turn = 0, uv_last_full = None, uv_backoff = uf_error_backoff_seconds config\<rparr> st)"

end
