(* ===== verification/Governance_Accept.thy ===== *)
theory Governance_Accept
  imports Governance_Sync
begin

text \<open>
  When a validated full snapshot is accepted: the writes, the constraints of the schema and the verification after the
  write never stand in the way of a snapshot that follows the stored one, except for what PostgreSQL cannot hold.
\<close>

section \<open>What the server can hold\<close>

definition row_bindable :: "(int \<Rightarrow> ustr \<Rightarrow> bool) \<Rightarrow> normalized \<Rightarrow> bool" where
  "row_bindable fits r \<longleftrightarrow> int8 (np_id r) \<and> content_bindable (np_content r) \<and>
     (\<forall>(k, v) \<in> set (np_votes r). list_all bindable_text (vote_texts k v) \<and> fits (np_id r) k)"

definition heights_ok :: "int \<Rightarrow> gov_part \<Rightarrow> bool" where
  "heights_ok h p \<longleftrightarrow> (\<forall>i r. map_of (gt_props p) i = Some r \<longrightarrow> 1 \<le> pr_first r \<and> pr_first r \<le> h) \<and>
     (\<forall>k r. map_of (gt_votes p) k = Some r \<longrightarrow> 1 \<le> gw_first r \<and> gw_first r \<le> h)"

lemma before_write_heights: "before_write cf h p \<Longrightarrow> heights_ok h p"
  unfolding heights_ok_def using before_write_prop before_write_vote by (fastforce simp: valid_heights_def)

lemma delete_votes_props [simp]: "gt_props (delete_votes i ks p) = gt_props p"
  by (simp add: delete_votes_def)

lemma delete_votes_heights: "heights_ok h p \<Longrightarrow> heights_ok h (delete_votes i ks p)"
  unfolding heights_ok_def by (auto simp: delete_votes_lookup split: if_splits)

lemma upsert_vote_accepts:
  assumes "valid_vote cf k v" and "heights_ok h p" and "1 \<le> h" and "map_of (gt_props p) i \<noteq> None"
    and "list_all bindable_text (vote_texts k v)" and "fits i k"
  shows "\<exists>q. upsert_vote fits h i (k, v) p = Inr q \<and> heights_ok h q \<and> gt_props q = gt_props p"
proof -
  let ?f = "case map_of (gt_votes p) (i, k) of None \<Rightarrow> h | Some old \<Rightarrow> gw_first old"
  have f: "1 \<le> ?f" "?f \<le> h" using assms(2,3) by (auto simp: heights_ok_def split: option.splits)
  then have "check_vote k \<lparr>gw_content = v, gw_first = ?f, gw_last = h\<rparr> = Inr ()"
    using assms by (auto simp: check_vote_def res_simps list_all_iff valid_vote_def)
  then have "upsert_vote fits h i (k, v) p = Inr (p\<lparr>gt_votes := AList.update (i, k) \<lparr>gw_content = v, gw_first = ?f, gw_last = h\<rparr> (gt_votes p)\<rparr>)"
    using assms(4,6) by (simp add: upsert_vote_def constraint_def Let_def)
  moreover have "heights_ok h (p\<lparr>gt_votes := AList.update (i, k) \<lparr>gw_content = v, gw_first = ?f, gw_last = h\<rparr> (gt_votes p)\<rparr>)"
    using assms(2) f unfolding heights_ok_def by (auto simp: update_conv' split: if_splits)
  ultimately show ?thesis by simp
qed

lemma upsert_votes_accept:
  assumes "\<And>k v. (k, v) \<in> set vs \<Longrightarrow> valid_vote cf k v \<and> list_all bindable_text (vote_texts k v) \<and> fits i k"
    and "heights_ok h p" and "1 \<le> h" and "map_of (gt_props p) i \<noteq> None"
  shows "\<exists>q. foldE (upsert_vote fits h i) vs p = Inr q \<and> heights_ok h q"
  using assms
proof (induction vs arbitrary: p)
  case (Cons kv vs)
  obtain k v where kv: "kv = (k, v)" by fastforce
  have "valid_vote cf k v" "list_all bindable_text (vote_texts k v)" "fits i k"
    using Cons.prems(1) [of k v] by (simp_all add: kv)
  from upsert_vote_accepts [OF this(1) Cons.prems(2-4) this(2), where fits = fits, OF this(3)]
  obtain q where q: "upsert_vote fits h i (k, v) p = Inr q" "heights_ok h q" "gt_props q = gt_props p" by blast
  have "\<exists>q'. foldE (upsert_vote fits h i) vs q = Inr q' \<and> heights_ok h q'"
  proof (rule Cons.IH [OF _ q(2) Cons.prems(3)])
    show "map_of (gt_props q) i \<noteq> None" using Cons.prems(4) q(3) by simp
  qed (rule Cons.prems(1), simp)
  then show ?case using q(1) kv by simp
qed simp

lemma write_target_accepts:
  assumes "row_ok cf r" and "row_bindable fits r" and "heights_ok h p" and "1 \<le> h" and "check_key c m h = Inr ()"
  shows "\<exists>q. write_target fits c m h r p = Inr q \<and> heights_ok h q"
proof -
  let ?f = "case map_of (gt_props p) (np_id r) of None \<Rightarrow> h | Some old \<Rightarrow> pr_first old"
  let ?row = "\<lparr>pr_content = np_content r, pr_first = ?f, pr_last = h\<rparr>"
  let ?q = "p\<lparr>gt_props := AList.update (np_id r) ?row (gt_props p)\<rparr>"
  have f: "1 \<le> ?f" "?f \<le> h" using assms(3,4) by (auto simp: heights_ok_def split: option.splits)
  then have "check_prop (np_id r) ?row = Inr ()"
    using assms(1,2) by (auto simp: check_prop_def row_ok_def valid_content_def row_bindable_def content_bindable_def in_range_def constraint_def Let_def
        governance_limits VOTE_STATUSES_def)
  moreover have "checkE text_parameter (content_texts (np_content r)) = Inr ()"
    using assms(2) by (simp add: row_bindable_def content_bindable_def res_simps list_all_iff)
  moreover have "in_range (CHR 0x00 \<notin> set c \<and> CHR 0x00 \<notin> set m) = Inr ()" using assms(5) by (auto simp: check_key_def res_simps)
  ultimately have up: "upsert_proposal c m h r p = Inr ?q" using assms(5) by (simp add: upsert_proposal_def Let_def)
  have keys: "checkE text_parameter (map fst (np_votes r)) = Inr ()" using assms(2) by (auto simp: row_bindable_def vote_texts_def res_simps)
  have "heights_ok h ?q" using assms(3) f unfolding heights_ok_def by (auto simp: update_conv' split: if_splits)
  then have "heights_ok h (delete_votes (np_id r) (map fst (np_votes r)) ?q)" by (rule delete_votes_heights)
  then have "\<exists>q. foldE (upsert_vote fits h (np_id r)) (np_votes r) (delete_votes (np_id r) (map fst (np_votes r)) ?q) = Inr q \<and> heights_ok h q"
    using assms(1,2,4) by (intro upsert_votes_accept) (auto simp: row_ok_def votes_inv_def row_bindable_def delete_votes_def update_conv')
  then show ?thesis using up keys by (simp add: write_target_def)
qed

lemma write_rows_accept:
  assumes "\<And>r. r \<in> set rows \<Longrightarrow> row_ok cf r \<and> row_bindable fits r" and "heights_ok h p" and "1 \<le> h" and "check_key c m h = Inr ()"
    and "\<And>r old. r \<in> set rows \<Longrightarrow> map_of stored (np_id r) = Some old \<Longrightarrow> status_allowed (pc_status (pr_content old)) (pc_status (np_content r))"
  shows "\<exists>q. foldE (write_full_row fits c m h stored) rows p = Inr q"
  using assms
proof (induction rows arbitrary: p)
  case (Cons r rows)
  obtain q where q: "write_target fits c m h r p = Inr q" "heights_ok h q"
    using write_target_accepts [of cf r fits h p c m] Cons.prems(1-4) by auto
  have "write_full_row fits c m h stored r p = Inr q"
    using q(1) Cons.prems(1,5) by (auto simp: write_full_row_eq [of cf r] guardE_def split: option.splits)
  moreover have "\<exists>q'. foldE (write_full_row fits c m h stored) rows q = Inr q'" by (rule Cons.IH [OF _ q(2)]) (use Cons.prems in auto)
  ultimately show ?case by simp
qed simp

section \<open>What is read back\<close>

text \<open>Two ordered tables with the same lookups are the same list.\<close>

lemma sorted_table_eq:
  fixes xs ys :: "('k :: linorder \<times> 'v) list"
  assumes "sorted (map fst xs)" "distinct (map fst xs)" "sorted (map fst ys)" "distinct (map fst ys)" "map_of xs = map_of ys"
  shows "xs = ys"
proof -
  have keys: "map fst xs = map fst ys"
    by (rule sorted_distinct_set_unique [OF assms(1-4)]) (metis assms(5) dom_map_of_conv_image_fst list.set_map)
  then have len: "length xs = length ys" by (metis length_map)
  have "xs ! n = ys ! n" if n: "n < length xs" for n
  proof -
    have "fst (xs ! n) = fst (ys ! n)" using keys n len by (metis nth_map)
    moreover have "map_of xs (fst (xs ! n)) = Some (snd (xs ! n))" using n assms(2) by (simp add: nth_mem)
    moreover have "map_of ys (fst (ys ! n)) = Some (snd (ys ! n))" using n len assms(4) by (simp add: nth_mem)
    ultimately show ?thesis using assms(5) by (metis option.inject prod_eqI)
  qed
  with len show ?thesis by (rule nth_equalityI)
qed

lemma sort_table_eq:
  fixes t ys :: "('k :: linorder \<times> 'v) list"
  assumes "distinct (map fst t)" "sorted (map fst ys)" "distinct (map fst ys)" "map_of t = map_of ys"
  shows "sort_key fst t = ys"
proof (rule sorted_table_eq)
  show "distinct (map fst (sort_key fst t))" using assms(1) by (metis distinct_map distinct_sort set_sort)
  show "map_of (sort_key fst t) = map_of ys" using assms(1,4) by (simp add: map_of_sorted)
qed (use assms in simp_all)

lemma map_of_prefixed: "map_of (map (\<lambda>(k, v). ((a, k), v)) t) (i, k) = (if i = a then map_of t k else None)"
  by (induction t) auto

lemma content_votes:
  assumes "distinct (map np_id rows)" "sorted (map np_id rows)"
    and "\<And>r. r \<in> set rows \<Longrightarrow> distinct (map fst (np_votes r)) \<and> sorted (map fst (np_votes r))"
  shows "sorted (map fst (snd (content rows)))" and "distinct (map fst (snd (content rows)))"
    and "map_of (snd (content rows)) (i, k) = Option.bind (row_lookup rows i) (\<lambda>r. map_of (np_votes r) k)"
proof -
  have "sorted (map fst (snd (content rows))) \<and> distinct (map fst (snd (content rows))) \<and>
    (\<forall>i k. map_of (snd (content rows)) (i, k) = Option.bind (row_lookup rows i) (\<lambda>r. map_of (np_votes r) k))"
    using assms
  proof (induction rows)
    case (Cons r rows)
    let ?head = "map (\<lambda>(k, v). ((np_id r, k), v)) (np_votes r)"
    have split: "snd (content (r # rows)) = ?head @ snd (content rows)" by (simp add: content_def)
    have IH: "sorted (map fst (snd (content rows)))" "distinct (map fst (snd (content rows)))"
      "\<And>i k. map_of (snd (content rows)) (i, k) = Option.bind (row_lookup rows i) (\<lambda>r. map_of (np_votes r) k)"
      using Cons by simp_all
    have keys: "map fst ?head = map (Pair (np_id r)) (map fst (np_votes r))" by (simp add: case_prod_unfold comp_def)
    have head: "sorted (map fst ?head)" "distinct (map fst ?head)"
      unfolding keys using Cons.prems(3) [of r] by (simp_all add: sorted_map distinct_map inj_on_def sorted_wrt_map)
    have later: "np_id r < i" if ik: "(i, k) \<in> set (map fst (snd (content rows)))" for i k
    proof -
      obtain r' where "r' \<in> set rows" "np_id r' = i" using ik by (auto simp: content_def)
      then show ?thesis using Cons.prems(1,2) by (force simp: less_le)
    qed
    have "map_of ?head (i, k) = (if i = np_id r then map_of (np_votes r) k else None)" for i k by (rule map_of_prefixed)
    moreover have "row_lookup rows (np_id r) = None" using Cons.prems(1) by (simp add: row_lookup_None)
    ultimately have "map_of (snd (content (r # rows))) (i, k) = Option.bind (row_lookup (r # rows) i) (\<lambda>r. map_of (np_votes r) k)" for i k
      unfolding split map_of_append map_add_def IH(3) by (simp split: option.splits)
    moreover have "sorted (map fst (snd (content (r # rows))))"
      unfolding split map_append sorted_append using head(1) IH(1) later by (fastforce simp: keys)
    moreover have "distinct (map fst (snd (content (r # rows))))"
      unfolding split map_append distinct_append using head(2) IH(2) later by (fastforce simp: keys)
    ultimately show ?case by blast
  qed (simp add: content_def)
  then show "sorted (map fst (snd (content rows)))" "distinct (map fst (snd (content rows)))"
    "map_of (snd (content rows)) (i, k) = Option.bind (row_lookup rows i) (\<lambda>r. map_of (np_votes r) k)" by blast+
qed

lemma written_content:
  assumes "after_rows h p rows p'" and "keys_distinct p" and "before_write cf h p" and "dom (map_of (gt_props p)) \<subseteq> set (map np_id rows)"
    and "distinct (map np_id rows)" "sorted (map np_id rows)" and "\<And>r. r \<in> set rows \<Longrightarrow> row_ok cf r"
  shows "stored_content (sort_key fst (gt_props p')) (sort_key fst (gt_votes p')) = content rows"
proof -
  have kd: "distinct (map fst (gt_props p'))" "distinct (map fst (gt_votes p'))" using assms(1,2) by (simp_all add: after_rows_def keys_distinct_def)
  have props: "map_of (gt_props p') i = (case row_lookup rows i of Some r \<Rightarrow> Some (written_prop h p r) | None \<Rightarrow> map_of (gt_props p) i)" for i
    using assms(1) unfolding after_rows_def by blast
  have votes: "map_of (gt_votes p') (i, k) =
      (case row_lookup rows i of Some r \<Rightarrow> map_option (written_vote h p i k) (map_of (np_votes r) k) | None \<Rightarrow> map_of (gt_votes p) (i, k))" for i k
    using assms(1) unfolding after_rows_def by blast
  have gone: "map_of (gt_props p) i = None" if "row_lookup rows i = None" for i using that assms(4) row_lookup_None by blast
  have sorted_kd: "distinct (map fst (sort_key fst (gt_props p')))" "distinct (map fst (sort_key fst (gt_votes p')))"
    using kd by (metis distinct_map distinct_sort set_sort)+
  have "sort_key fst (map (\<lambda>(i, r). (i, pr_content r)) (sort_key fst (gt_props p'))) = map (\<lambda>r. (np_id r, np_content r)) rows"
  proof (rule sort_table_eq)
    have "map_option pr_content (map_of (gt_props p') i) = map_option np_content (row_lookup rows i)" for i
      unfolding props using gone by (simp add: written_prop_def split: option.splits)
    then show "map_of (map (\<lambda>(i, r). (i, pr_content r)) (sort_key fst (gt_props p'))) = map_of (map (\<lambda>r. (np_id r, np_content r)) rows)"
      using map_of_map [of np_content "map (\<lambda>r. (np_id r, r)) rows"] kd(1)
      by (simp add: map_of_map map_of_sorted comp_def fun_eq_iff)
  qed (use sorted_kd(1) assms(5,6) in \<open>simp_all add: comp_def case_prod_unfold\<close>)
  moreover have "sort_key fst (map (\<lambda>(k, r). (k, gw_content r)) (sort_key fst (gt_votes p'))) = snd (content rows)"
  proof (rule sort_table_eq)
    have rv: "distinct (map fst (np_votes r)) \<and> sorted (map fst (np_votes r))" if "r \<in> set rows" for r
      using assms(7) [OF that] by (simp add: row_ok_def votes_inv_def)
    note c = content_votes [OF assms(5,6) rv]
    show "sorted (map fst (snd (content rows)))" "distinct (map fst (snd (content rows)))" by (rule c(1), simp, rule c(2), simp)
    have "map_option gw_content (map_of (gt_votes p') (i, k)) = map_of (snd (content rows)) (i, k)" for i k
    proof (cases "row_lookup rows i")
      case None
      then have "map_of (gt_votes p) (i, k) = None" using gone before_write_vote [OF assms(3), of i k] by (cases "map_of (gt_votes p) (i, k)") auto
      then show ?thesis using None c(3) by (simp add: votes)
    next
      case (Some r)
      then show ?thesis unfolding votes using c(3) by (cases "map_of (np_votes r) k") (simp_all add: written_vote_def)
    qed
    then show "map_of (map (\<lambda>(k, r). (k, gw_content r)) (sort_key fst (gt_votes p'))) = map_of (snd (content rows))"
      using kd(2) by (simp add: map_of_map map_of_sorted comp_def fun_eq_iff)
  qed (use sorted_kd(2) in \<open>simp add: comp_def case_prod_unfold\<close>)
  ultimately show ?thesis by (simp add: stored_content_def content_def)
qed

section \<open>Captured bytes\<close>

text \<open>The names of the captured renders are all different, so that the bytes of the stored rows are within the total of the capture.\<close>

lemma raw_names: "raw_name i = raw_name j \<longleftrightarrow> raw_votes_name i = raw_votes_name j"
  by (simp add: raw_votes_name_def)

lemma digit_char: "d < 10 \<Longrightarrow> is_decimal (char_of (48 + d)) \<and> digit_val (char_of (48 + d)) = d"
  by (simp add: digit_val_def is_decimal_def)

lemma digits_decimal: "list_all is_decimal (digits_of_nat n)"
proof (induction n rule: digits_of_nat.induct)
  case (1 n)
  then show ?case using digit_char [of n] digit_char [of "n mod 10"] by (subst digits_of_nat.simps) auto
qed

lemma digits_value: "nat_of_digits (digits_of_nat n) = n"
proof (induction n rule: digits_of_nat.induct)
  case (1 n)
  show ?case
  proof (cases "n < 10")
    case True
    then show ?thesis using digit_char [of n] by (simp add: digits_of_nat.simps [of n] nat_of_digits_def)
  next
    case False
    then have "nat_of_digits (digits_of_nat n) = 10 * nat_of_digits (digits_of_nat (n div 10)) + n mod 10"
      using digit_char [of "n mod 10"] by (simp add: digits_of_nat.simps [of n] nat_of_digits_def)
    with 1 False show ?thesis by simp
  qed
qed

lemma str_int_inj: "0 \<le> i \<Longrightarrow> 0 \<le> j \<Longrightarrow> str_int i = str_int j \<Longrightarrow> i = j"
  unfolding str_int_def by (metis digits_value not_le nat_eq_iff2)

lemma str_int_digits: "0 \<le> i \<Longrightarrow> c \<in> set (str_int i) \<Longrightarrow> is_decimal c"
  using digits_decimal by (auto simp: str_int_def list_all_iff)

lemma raw_name_inj: "0 \<le> i \<Longrightarrow> 0 \<le> j \<Longrightarrow> raw_name i = raw_name j \<Longrightarrow> i = j"
  by (simp add: raw_name_def str_int_inj)

lemma raw_name_votes: "0 \<le> i \<Longrightarrow> raw_name i \<noteq> raw_votes_name j"
proof
  assume i: "0 \<le> i" and "raw_name i = raw_votes_name j"
  then have "str_int i = str_int j @ ''/votes''" by (simp add: raw_name_def raw_votes_name_def)
  then have "CHR ''/'' \<in> set (str_int i)" by simp
  then have "is_decimal (CHR ''/'')" by (rule str_int_digits [OF i])
  then show False by (simp add: is_decimal_def)
qed

lemma raw_total_ge: "distinct ks \<Longrightarrow> (\<And>k. k \<in> set ks \<Longrightarrow> map_of t k = Some (f k)) \<Longrightarrow> sum_list (map (\<lambda>k. utf8_size (f k)) ks) \<le> raw_total t"
proof (induction t arbitrary: ks)
  case Nil
  then have "ks = []" by (cases ks) auto
  then show ?case by simp
next
  case (Cons x t)
  obtain k s where x: "x = (k, s)" by fastforce
  have rest: "sum_list (map (\<lambda>k. utf8_size (f k)) (filter (\<lambda>j. j \<noteq> k) ks)) \<le> raw_total t"
  proof (rule Cons.IH)
    show "map_of t j = Some (f j)" if "j \<in> set (filter (\<lambda>j. j \<noteq> k) ks)" for j
      using Cons.prems(2) [of j] that x by (simp split: if_splits)
  qed (use Cons.prems(1) in simp)
  have "sum_list (map (\<lambda>k. utf8_size (f k)) ks) \<le> utf8_size s + sum_list (map (\<lambda>k. utf8_size (f k)) (filter (\<lambda>j. j \<noteq> k) ks))"
  proof (cases "k \<in> set ks")
    case True
    then obtain as bs where ks: "ks = as @ k # bs" by (meson split_list)
    then have "k \<notin> set as" "k \<notin> set bs" using Cons.prems(1) by auto
    then have "filter (\<lambda>j. j \<noteq> k) as = as" "filter (\<lambda>j. j \<noteq> k) bs = bs" by (auto simp: filter_id_conv)
    moreover have "f k = s" using Cons.prems(2) [OF True] x by simp
    ultimately show ?thesis by (simp add: ks)
  next
    case False
    then have "filter (\<lambda>j. j \<noteq> k) ks = ks" by (auto simp: filter_id_conv)
    then show ?thesis by simp
  qed
  then show ?case using rest by (simp add: raw_total_def x)
qed

lemma rows_raw_total:
  assumes "rows_ok cf disc rows"
  shows "sum_list (map (\<lambda>r. content_raw (np_content r)) rows) \<le> raw_total (gd_raw_renders disc)"
proof -
  let ?get = "\<lambda>k. the (map_of (gd_raw_renders disc) k)" and ?ids = "map np_id rows"
  have pos: "0 \<le> i" if "i \<in> set ?ids" for i using assms that by (auto simp: rows_ok_def row_ok_def)
  have "distinct (map raw_name ?ids)" using assms pos raw_name_inj unfolding rows_ok_def distinct_map inj_on_def by metis
  moreover have "distinct (map raw_votes_name ?ids)" using assms pos raw_name_inj raw_names unfolding rows_ok_def distinct_map inj_on_def by metis
  ultimately have "distinct (map raw_name ?ids @ map raw_votes_name ?ids)" using pos raw_name_votes by auto
  moreover have "map_of (gd_raw_renders disc) k = Some (?get k)" if "k \<in> set (map raw_name ?ids @ map raw_votes_name ?ids)" for k
    using assms that by (auto simp: rows_ok_def)
  ultimately have "sum_list (map (\<lambda>k. utf8_size (?get k)) (map raw_name ?ids @ map raw_votes_name ?ids)) \<le> raw_total (gd_raw_renders disc)"
    by (rule raw_total_ge)
  moreover have "content_raw (np_content r) = utf8_size (?get (raw_name (np_id r))) + utf8_size (?get (raw_votes_name (np_id r)))"
    if "r \<in> set rows" for r using assms that by (auto simp: rows_ok_def content_raw_def)
  then have "sum_list (map (\<lambda>r. content_raw (np_content r)) rows) =
     sum_list (map (\<lambda>r. utf8_size (?get (raw_name (np_id r))) + utf8_size (?get (raw_votes_name (np_id r)))) rows)"
    by (metis (mono_tags, lifting) map_eq_conv)
  then have "sum_list (map (\<lambda>r. content_raw (np_content r)) rows) = sum_list (map (\<lambda>k. utf8_size (?get k)) (map raw_name ?ids @ map raw_votes_name ?ids))"
    by (simp add: sum_list_addf comp_def)
  ultimately show ?thesis by simp
qed

section \<open>Acceptance\<close>

lemma fits_after_write:
  assumes "gov_ok cf d" and "normalize_discovery cf disc c = Inr rows" and "load_governance cf (part_of d c m) = Inr (st, v, w)"
    and "opt_check (\<lambda>s. sy_height s \<le> h) st" and "m = gs_realm_path (gd_source disc)" "h = gs_observed_height (gd_source disc)"
    and "dom (map_of (gt_props (part_of d c m))) \<subseteq> set (map np_id rows)" and "after_rows h (part_of d c m) rows p1"
    and "sum_list (map (\<lambda>r. content_raw (np_content r)) rows) \<le> MAX_TOTAL_RAW_BYTES"
  shows "load_governance cf (p1\<lparr>gt_state := Some (sync_of h (gd_page_count disc) (map np_id rows))\<rparr>) =
    Inr (Some (sync_of h (gd_page_count disc) (map np_id rows)), sort_key fst (gt_props p1), sort_key fst (gt_votes p1))"
proof -
  let ?s = "sync_of h (gd_page_count disc) (map np_id rows)" and ?p = "part_of d c m"
  let ?p2 = "p1\<lparr>gt_state := Some ?s\<rparr>"
  note n = normalize_discovery_facts [OF assms(2)]
  have rows: "distinct (map np_id rows)" "r \<in> set rows \<Longrightarrow> row_ok cf r" for r using n(1) by (simp_all add: rows_ok_def)
  have kd: "keys_distinct ?p" using assms(1) by (simp add: gov_ok_def)
  have before: "before_write cf h ?p" by (rule load_before_write [OF assms(3) kd assms(4)])
  have dom: "dom (map_of (gt_props p1)) = set (map np_id rows)" using after_rows_dom [OF assms(8)] assms(7) by blast
  have "valid_sync ?s (map np_id rows)" using n(2,8-11) rows(2) assms(6) by (intro valid_sync_of) (auto simp: row_ok_def)
  then have sync: "valid_sync ?s (sorted_list_of_set (dom (map_of (gt_props p1))))"
    unfolding dom using rows(1) n(2) by (metis sorted_list_of_set.idem_if_sorted_distinct)
  have "filter (\<lambda>(i, _). i \<notin> set (map np_id rows)) (sort_key fst (gt_props ?p)) = []"
    using assms(7) by (auto simp: filter_empty_conv dom_map_of_conv_image_fst)
  then have "props_total (map_of (gt_props p1)) \<le> MAX_TOTAL_RAW_BYTES"
    unfolding after_rows_total [OF assms(8) rows(1) kd] final_incremental_raw_bytes_def using assms(9) by simp
  from after_rows_ok [OF assms(8) before _ rows(2) _ sync this]
  have "stored_ok cf ?s (map_of (gt_props ?p2)) (map_of (gt_votes ?p2))" using n(8) assms(6) by (simp add: sync_of_def)
  moreover have "keys_distinct ?p2" using assms(8) kd by (simp add: after_rows_def keys_distinct_def)
  ultimately obtain x where "load_governance cf ?p2 = Inr x" using load_state [of ?p2 ?s cf] by auto
  then show ?thesis using load_Inr by (cases x) fastforce
qed

lemma write_target_bound:
  assumes "write_target fits c m h r p = Inr q"
  shows "row_bindable fits r"
proof -
  obtain p1 where p1: "upsert_proposal c m h r p = Inr p1"
    and votes: "foldE (upsert_vote fits h (np_id r)) (np_votes r) (delete_votes (np_id r) (map fst (np_votes r)) p1) = Inr q"
    using assms by (auto simp: write_target_def res_simps)
  have "int8 (np_id r) \<and> content_bindable (np_content r)"
    using p1 by (auto simp: upsert_proposal_def check_prop_def content_bindable_def Let_def res_simps list_all_iff)
  moreover have "list_all bindable_text (vote_texts k v) \<and> fits (np_id r) k"
    if "(k, v) \<in> set (np_votes r)" for k v
    using foldE_Inr_in [OF votes that] by (auto simp: upsert_vote_def check_vote_def Let_def res_simps list_all_iff)
  ultimately show ?thesis unfolding row_bindable_def by blast
qed

lemma apply_full_accepts:
  assumes "gov_ok cf d" and "normalize_discovery cf disc c = Inr rows" and "load_governance cf (part_of d c m) = Inr (st, v, w)"
    and "opt_check (\<lambda>s. sy_height s \<le> h) st" and "m = gs_realm_path (gd_source disc)" "h = gs_observed_height (gd_source disc)"
    and "dom (map_of (gt_props (part_of d c m))) \<subseteq> set (map np_id rows)"
    and "\<And>r old. r \<in> set rows \<Longrightarrow> map_of v (np_id r) = Some old \<Longrightarrow> status_allowed (pc_status (pr_content old)) (pc_status (np_content r))"
    and "\<And>r. r \<in> set rows \<Longrightarrow> row_bindable fits r" and "check_key c m h = Inr ()"
  shows "\<exists>x. apply_full fits cf disc rows v (part_of d c m) = Inr x"
proof -
  let ?p = "part_of d c m" and ?s = "sync_of h (gd_page_count disc) (map np_id rows)"
  note n = normalize_discovery_facts [OF assms(2)]
  have rows: "distinct (map np_id rows)" "r \<in> set rows \<Longrightarrow> row_ok cf r" for r using n(1) by (simp_all add: rows_ok_def)
  have kd: "keys_distinct ?p" using assms(1) by (simp add: gov_ok_def)
  have before: "before_write cf h ?p" by (rule load_before_write [OF assms(3) kd assms(4)])
  have v: "v = sort_key fst (gt_props ?p)" by (rule load_Inr(2) [OF assms(3)])
  obtain p1 where p1: "foldE (write_full_row fits c m h v) rows ?p = Inr p1"
    using write_rows_accept [of rows cf fits h ?p c m v] rows(2) assms(6,8-10) before_write_heights [OF before] n(8) by blast
  note eff = write_full_rows(1) [OF p1 rows]
  have total: "sum_list (map (\<lambda>r. content_raw (np_content r)) rows) \<le> MAX_TOTAL_RAW_BYTES" using rows_raw_total [OF n(1)] n(12) by linarith
  note load = fits_after_write [OF assms(1-7) eff total]
  have same: "stored_content (sort_key fst (gt_props p1)) (sort_key fst (gt_votes p1)) = content rows"
    by (rule written_content [OF eff kd before assms(7) rows(1) n(2) rows(2)])
  have ids: "0 \<le> i \<and> int8 i" if "i \<in> set (map np_id rows)" for i using that rows(2) assms(9) by (auto simp: row_ok_def row_bindable_def)
  have "valid_sync ?s (map np_id rows)" using n(2,8-11) ids assms(6) by (intro valid_sync_of) auto
  then have "upsert_sync c m ?s p1 = Inr (p1\<lparr>gt_state := Some ?s\<rparr>)"
    using assms(10) ids [of "hd (map np_id rows)"] ids [of "last (map np_id rows)"]
    by (auto simp: upsert_sync_def in_range_def constraint_def guardE_def opt_check_def valid_sync_def sync_of_def governance_limits split: if_splits)
  moreover have "list_all (\<lambda>(i, _). i \<in> set (map np_id rows)) v"
    using assms(7) by (auto simp: v list_all_iff dom_map_of_conv_image_fst)
  ultimately show ?thesis
    using p1 load same n(3) assms(5,6) by (simp add: apply_full_def gov_guard_def Let_def)
qed

lemma snapshot_accepted:
  assumes "(gov_step cf)\<^sup>*\<^sup>* (empty_gov_db key_fits) d" and "normalize_discovery cf disc c = Inr rows"
    and "gb_indexer_chain d = None \<or> gb_indexer_chain d = Some c"
    and "\<And>s. gt_state (part_of d c (gs_realm_path (gd_source disc))) = Some s \<Longrightarrow> sy_height s < gs_observed_height (gd_source disc)"
    and "\<And>i s. statuses d (c, gs_realm_path (gd_source disc), i) = Some s \<Longrightarrow>
      \<exists>p \<in> set (gd_proposals disc). gp_proposal_id p = i \<and> status_allowed s (gp_status p)"
    and "gs_observed_height (gd_source disc) < 2 ^ 63" and "CHR 0x00 \<notin> set c" and "CHR 0x00 \<notin> set (gs_realm_path (gd_source disc))"
  shows "(\<exists>r d'. persist_governance_snapshot_cursor cf disc c d = Inr (r, d')) \<longleftrightarrow> (\<forall>r \<in> set rows. row_bindable (gb_key_fits d c (gs_realm_path (gd_source disc))) r)"
proof -
  let ?m = "gs_realm_path (gd_source disc)" and ?h = "gs_observed_height (gd_source disc)"
  let ?p = "part_of d c ?m"
  note n = normalize_discovery_facts [OF assms(2)]
  have rows: "distinct (map np_id rows)" "r \<in> set rows \<Longrightarrow> row_ok cf r" for r using n(1) by (simp_all add: rows_ok_def)
  have ok: "gov_ok cf d" using gov_steps_keep [OF assms(1) empty_gov_ok] by blast
  then obtain st v w where l: "load_governance cf ?p = Inr (st, v, w)" unfolding gov_ok_def by (metis prod_cases3)
  have newer: "opt_check (\<lambda>s. sy_height s < ?h) st" using assms(4) load_Inr(1) [OF l] by (simp add: opt_check_def split: option.splits)
  then have height: "opt_check (\<lambda>s. sy_height s \<le> ?h) st" "map_option sy_height st \<noteq> Some ?h" by (auto simp: opt_check_def split: option.splits)
  have kd: "keys_distinct ?p" using ok by (simp add: gov_ok_def)
  have map_v: "map_of v = map_of (gt_props ?p)" using load_Inr(2) [OF l] kd by (simp add: map_of_sorted keys_distinct_def)
  have follow: "\<exists>r \<in> set rows. np_id r = i \<and> status_allowed (pc_status (pr_content old)) (pc_status (np_content r))"
    if old: "map_of (gt_props ?p) i = Some old" for i old
  proof -
    obtain p where p: "p \<in> set (gd_proposals disc)" "gp_proposal_id p = i" "status_allowed (pc_status (pr_content old)) (gp_status p)"
      using assms(5) [of i "pc_status (pr_content old)"] old by (auto simp: statuses_def)
    then have "(i, gp_status p) \<in> set (map (\<lambda>r. (np_id r, pc_status (np_content r))) rows)" unfolding n(13) by force
    then show ?thesis using p(3) by auto
  qed
  have dom: "dom (map_of (gt_props ?p)) \<subseteq> set (map np_id rows)" using follow by fastforce
  have allowed: "status_allowed (pc_status (pr_content old)) (pc_status (np_content r))" if r: "r \<in> set rows" "map_of v (np_id r) = Some old" for r old
    using follow [of "np_id r" old] r rows(1) unfolding map_v distinct_map inj_on_def by metis
  have key: "check_key c ?m ?h = Inr ()"
    using n(4-8) assms(6-8) by (auto simp: check_key_def in_range_def constraint_def guardE_def int8_def Suc_le_eq)
  have ident: "check_identity d c = Inr ()" using assms(3) by (auto simp: check_identity_def opt_check_def)
  have run: "persist_governance_snapshot_cursor cf disc c d = bindE (apply_full (gb_key_fits d c ?m) cf disc rows v ?p) (\<lambda>(r, p). Inr (r, put_part d c ?m p))"
    unfolding persist_governance_snapshot_cursor_def assms(2) bindE_simps Let_def n(3) ident l prod.case if_not_P [OF height(2)] using height(1) by simp
  show ?thesis
  proof
    assume "\<exists>r d'. persist_governance_snapshot_cursor cf disc c d = Inr (r, d')"
    then obtain p1 where p1: "foldE (write_full_row (gb_key_fits d c ?m) c ?m ?h v) rows ?p = Inr p1"
      unfolding run using n(3) by (auto simp: res_simps apply_full_def Let_def)
    show "\<forall>r \<in> set rows. row_bindable (gb_key_fits d c (gs_realm_path (gd_source disc))) r"
    proof
      fix r assume r: "r \<in> set rows"
      obtain q q' where "write_full_row (gb_key_fits d c ?m) c ?m ?h v r q = Inr q'" using foldE_Inr_in [OF p1 r] by blast
      then show "row_bindable (gb_key_fits d c (gs_realm_path (gd_source disc))) r" using write_target_bound by (auto simp: write_full_row_eq [OF rows(2) [OF r]] res_simps)
    qed
  next
    assume "\<forall>r \<in> set rows. row_bindable (gb_key_fits d c (gs_realm_path (gd_source disc))) r"
    then obtain x where "apply_full (gb_key_fits d c ?m) cf disc rows v ?p = Inr x" using apply_full_accepts [OF ok assms(2) l height(1) refl refl dom allowed _ key] by blast
    then show "\<exists>r d'. persist_governance_snapshot_cursor cf disc c d = Inr (r, d')" unfolding run by (cases x) simp
  qed
qed

text \<open>C28: after any history, a validated snapshot of a newer height that keeps every stored proposal and follows the status
  machine is accepted if and only if its ids fit the column, every text can be sent to the server (no NUL character and no lone
  surrogate) and the server can index the primary key of every vote: the constraints of the schema on the columns kept here
  and the verification after the write refuse nothing else. The \<open>now()\<close> columns, whose order the schema checks, take a server
  clock that does not run backwards; the limits on the size of a single value are far above what renders of a megabyte hold.\<close>

theorem full_snapshot_accepted:
  assumes "(gov_step cf)\<^sup>*\<^sup>* (empty_gov_db key_fits) d" and "normalize_discovery cf disc c = Inr rows"
    and "gb_indexer_chain d = None \<or> gb_indexer_chain d = Some c"
    and "\<And>s. gt_state (part_of d c (gs_realm_path (gd_source disc))) = Some s \<Longrightarrow> sy_height s < gs_observed_height (gd_source disc)"
    and "\<And>i s. statuses d (c, gs_realm_path (gd_source disc), i) = Some s \<Longrightarrow>
      \<exists>p \<in> set (gd_proposals disc). gp_proposal_id p = i \<and> status_allowed s (gp_status p)"
    and "gs_observed_height (gd_source disc) < 2 ^ 63" and "CHR 0x00 \<notin> set c" and "CHR 0x00 \<notin> set (gs_realm_path (gd_source disc))"
  shows "(\<exists>r d'. persist_governance_snapshot_cursor cf disc c d = Inr (r, d')) \<longleftrightarrow>
    (\<forall>r \<in> set rows. row_bindable (key_fits c (gs_realm_path (gd_source disc))) r)"
  using snapshot_accepted [OF assms] gov_steps_fits [OF assms(1)] by (simp add: empty_gov_db_def)

text \<open>A proposal with a vote, and a server that indexes keys of up to 2000 bytes.\<close>

definition voted_discovery :: gov_discovery where
  "voted_discovery = sample_discovery\<lparr>gd_proposals := [sample_proposal\<lparr>gp_votes_parse_status := ''parsed'',
     gp_votes := [\<lparr>gv_voter_display = [233], gv_voter_address = None, gv_option = u ''YES'', gv_tier = u ''T1'', gv_voting_power = u ''7''\<rparr>]\<rparr>]\<rparr>"

definition voted_row :: normalized where
  "voted_row = \<lparr>np_id = 1, np_content = sample_content\<lparr>pc_votes_status := ''parsed''\<rparr>,
     np_votes = [(u ''display:'' @ [233], \<lparr>vc_display = [233], vc_address = None, vc_option = u ''YES'', vc_tier = u ''T1'', vc_power = 7\<rparr>)]\<rparr>"

definition short_keys :: "string \<Rightarrow> string \<Rightarrow> int \<Rightarrow> ustr \<Rightarrow> bool" where
  "short_keys chain realm i key \<longleftrightarrow> utf8_size key \<le> 2000"

lemma voted_normalized: "normalize_discovery (\<lambda>c. [c]) voted_discovery ''pearl-1'' = Inr [voted_row]"
proof -
  have "raw_votes_name 1 \<noteq> raw_name 1" by (simp add: raw_votes_name_def)
  then show ?thesis
    by (simp add: normalize_discovery_def check_raw_render_def scalar_def voted_discovery_def voted_row_def sample_discovery_def sample_source_def
        sample_proposal_def normalize_proposal_def gov_guard_def
        proposal_raw_renders_def sample_content_def nonempty_text_def bounded_text_def opt_check_def percentage_def STATUSES_def
        DETAIL_STATUSES_def VOTE_STATUSES_def governance_limits raw_total_def utf8_size_def utf8_bytes_def utf8_char_def
        normalize_vote_def uwords_def uspace_def VOTE_OPTIONS_def ustrip_def power_digits_def power_value_def voter_key_def)
qed

theorem full_snapshot_accepted_witness:
  "\<exists>r d'. persist_governance_snapshot_cursor (\<lambda>c. [c]) voted_discovery ''pearl-1'' (empty_gov_db short_keys) = Inr (r, d')"
proof -
  have "row_bindable (short_keys ''pearl-1'' ''gno.land/r/gov/dao'') voted_row"
    by (simp add: row_bindable_def voted_row_def int8_def content_bindable_def content_texts_def sample_content_def bindable_text_def scalar_def
        vote_texts_def short_keys_def utf8_size_def utf8_bytes_def utf8_char_def)
  moreover have "(\<exists>r d'. persist_governance_snapshot_cursor (\<lambda>c. [c]) voted_discovery ''pearl-1'' (empty_gov_db short_keys) = Inr (r, d')) \<longleftrightarrow>
    (\<forall>r \<in> set [voted_row]. row_bindable (short_keys ''pearl-1'' (gs_realm_path (gd_source voted_discovery))) r)"
    by (rule full_snapshot_accepted [OF rtranclp.rtrancl_refl voted_normalized])
      (simp_all add: empty_gov_db_def part_of_def empty_part_def statuses_def voted_discovery_def sample_discovery_def sample_source_def)
  moreover have "gs_realm_path (gd_source voted_discovery) = ''gno.land/r/gov/dao''"
    by (simp add: voted_discovery_def sample_discovery_def sample_source_def)
  ultimately show ?thesis by simp
qed

end
