(* ===== verification/Governance_Run.thy ===== *)
theory Governance_Run
  imports Governance_Updater Governance_Accept Governance_Walk
begin

text \<open>
  What a run of the governance updater guarantees, whatever the endpoints answer, wherever the server fails and whenever
  the stop signal comes: the tables stay readable and every proposal follows its lifecycle, the run ends after a stop
  signal, its sleeps are bounded, and it only gives up for a reason that a retry cannot mend.
\<close>

section \<open>Steps of the database\<close>

text \<open>An action of the updater: it moves the database by committed writes, and neither polls nor sleeps.\<close>

definition updater_safe :: "updater_env \<Rightarrow> (updater_state, 'a) act \<Rightarrow> bool" where
  "updater_safe en m \<longleftrightarrow> (\<forall>st r st'. m st = (r, st') \<longrightarrow>
     (gov_step (uc_fold (ue_tables en)))\<^sup>*\<^sup>* (us_db st) (us_db st') \<and> us_polls st' = us_polls st \<and> us_waits st' = us_waits st)"

lemma updater_safe_lift [intro]: "updater_safe en (liftS r)"
  by (simp add: updater_safe_def liftS_def)

lemma updater_safe_bind [intro]:
  assumes "updater_safe en m" and "\<And>x. updater_safe en (f x)"
  shows "updater_safe en (bindS m f)"
  unfolding updater_safe_def
proof (intro allI impI)
  fix st r st'
  assume "bindS m f st = (r, st')"
  then show "(gov_step (uc_fold (ue_tables en)))\<^sup>*\<^sup>* (us_db st) (us_db st') \<and> us_polls st' = us_polls st \<and> us_waits st' = us_waits st"
    using assms unfolding updater_safe_def by (elim bindS_snd) (blast, metis (no_types, lifting) rtranclp_trans)
qed

lemma updater_safe_transact [intro]:
  assumes "\<And>d x d'. f d = Inr (x, d') \<Longrightarrow> (gov_step (uc_fold (ue_tables en)))\<^sup>*\<^sup>* d d'"
  shows "updater_safe en (gov_transact en f)"
  unfolding updater_safe_def gov_transact_def Let_def
  using assms by (auto split: if_splits sum.splits prod.splits option.splits db_fault.splits)

lemma try_attempts_safe:
  assumes "\<And>rpc. updater_safe en (attempt_one rpc)"
  shows "updater_safe en (try_attempts attempt_one rpcs)"
proof (induction rpcs)
  case (Cons rpc rpcs)
  show ?case unfolding updater_safe_def
  proof (intro allI impI)
    fix st r st'
    assume run: "try_attempts attempt_one (rpc # rpcs) st = (r, st')"
    obtain r1 st1 where one: "attempt_one rpc st = (r1, st1)" by fastforce
    then have s1: "(gov_step (uc_fold (ue_tables en)))\<^sup>*\<^sup>* (us_db st) (us_db st1)" "us_polls st1 = us_polls st" "us_waits st1 = us_waits st"
      using assms unfolding updater_safe_def by blast+
    consider "st' = st1" | "try_attempts attempt_one rpcs st1 = (r, st')" using run one by (cases r1) (auto split: if_splits)
    then show "(gov_step (uc_fold (ue_tables en)))\<^sup>*\<^sup>* (us_db st) (us_db st') \<and> us_polls st' = us_polls st \<and> us_waits st' = us_waits st"
    proof cases
      case 2
      with Cons show ?thesis using s1 unfolding updater_safe_def by (metis (no_types, lifting) rtranclp_trans)
    qed (use s1 in simp)
  qed
qed (simp add: updater_safe_def)

lemma full_cycle_safe: "updater_safe en (run_full_cycle en config cy)"
  unfolding run_full_cycle_def full_attempt_def persist_governance_snapshot_def
  by (intro updater_safe_bind updater_safe_lift try_attempts_safe updater_safe_transact) (blast intro: gov_step.full)

lemma quick_cycle_safe: "updater_safe en (run_quick_cycle en config cy)"
  unfolding run_quick_cycle_def quick_attempt_def persist_governance_incremental_def governance_statuses_def
  by (intro updater_safe_bind updater_safe_lift try_attempts_safe updater_safe_transact)
    (auto split: prod.splits intro!: updater_safe_transact intro: gov_step.incremental)

section \<open>One turn\<close>

definition waits_ok :: "updater_config \<Rightarrow> int list \<Rightarrow> bool" where
  "waits_ok config ws \<longleftrightarrow> (\<forall>s \<in> set ws. 1 \<le> s \<and> s \<le> max (uf_refresh_interval_seconds config) (uf_max_backoff_seconds config))"

definition vars_ok :: "updater_config \<Rightarrow> updater_vars \<Rightarrow> bool" where
  "vars_ok config v \<longleftrightarrow> 1 \<le> uv_backoff v \<and> uv_backoff v \<le> uf_max_backoff_seconds config"

lemma validate_config_facts:
  assumes "validate_config config = Inr x"
  shows "1 \<le> uf_refresh_interval_seconds config" "1 \<le> uf_error_backoff_seconds config"
    "uf_error_backoff_seconds config \<le> uf_max_backoff_seconds config"
  using assms by (simp_all add: validate_config_def res_simps)

lemma updater_turn_facts:
  assumes "updater_turn en config once full_once max_cycles v st = (r, st')"
  shows "(gov_step (uc_fold (ue_tables en)))\<^sup>*\<^sup>* (us_db st) (us_db st')" "us_polls st' = us_polls st"
    and "validate_config config = Inr x \<Longrightarrow> vars_ok config v \<Longrightarrow> waits_ok config (us_waits st) \<Longrightarrow>
      waits_ok config (us_waits st') \<and> (\<forall>v'. r = Inr v' \<longrightarrow> vars_ok config v')"
    and "r = Inl (Inl e) \<Longrightarrow> is_fatal e" and "r = Inl (Inr i) \<Longrightarrow> i = 0"
proof -
  define full where "full = full_due config full_once (uv_last_full v) (ue_clock en (us_ticks st))"
  define act where "act = (if full then run_full_cycle en config (ue_cycle en (uv_turn v)) else run_quick_cycle en config (ue_cycle en (uv_turn v)))"
  obtain q st1 where q: "act (tick st) = (q, st1)" by fastforce
  have "updater_safe en act" unfolding act_def using full_cycle_safe quick_cycle_safe by (cases full) simp_all
  then have s: "(gov_step (uc_fold (ue_tables en)))\<^sup>*\<^sup>* (us_db st) (us_db st1)" "us_polls st1 = us_polls st" "us_waits st1 = us_waits st"
    using q unfolding updater_safe_def by (fastforce simp: tick_def)+
  have run: "updater_turn en config once full_once max_cycles v st =
      (case q of
         Inr _ \<Rightarrow>
          (let v2 = (if full then v\<lparr>uv_turn := uv_turn v + 1, uv_last_full := Some (ue_clock en (us_ticks st1))\<rparr> else v\<lparr>uv_turn := uv_turn v + 1\<rparr>)
                      \<lparr>uv_cycles := uv_cycles v + 1, uv_backoff := uf_error_backoff_seconds config\<rparr>;
               st2 = (if full then tick st1 else st1) in
           if once \<or> full_once \<or> enough_cycles max_cycles (uv_cycles v2) then (Inl (Inr 0), st2)
           else (Inr v2, updater_wait (uf_refresh_interval_seconds config) st2))
      | Inl e \<Rightarrow>
          if is_fatal e then (Inl (Inl e), st1)
          else (Inr (v\<lparr>uv_turn := uv_turn v + 1, uv_backoff := min (uv_backoff v * 2) (uf_max_backoff_seconds config)\<rparr>), updater_wait (uv_backoff v) st1))"
    using q unfolding act_def full_def updater_turn_def Let_def by (cases q) simp_all
  show "(gov_step (uc_fold (ue_tables en)))\<^sup>*\<^sup>* (us_db st) (us_db st')" "us_polls st' = us_polls st" "r = Inl (Inl e) \<Longrightarrow> is_fatal e"
    "r = Inl (Inr i) \<Longrightarrow> i = 0"
    using assms s unfolding run by (auto simp: Let_def tick_def updater_wait_def split: sum.splits if_splits)
  assume c: "validate_config config = Inr x" and v: "vars_ok config v" and w: "waits_ok config (us_waits st)"
  then show "waits_ok config (us_waits st') \<and> (\<forall>v'. r = Inr v' \<longrightarrow> vars_ok config v')"
    using assms s(3) validate_config_facts [OF c] unfolding run
    by (auto simp: Let_def tick_def updater_wait_def waits_ok_def vars_ok_def split: sum.splits if_splits)
qed

section \<open>The run\<close>

lemma updater_loop_facts:
  "updater_loop fuel en config once full_once max_cycles v st = Some (r, st') \<Longrightarrow>
   (gov_step (uc_fold (ue_tables en)))\<^sup>*\<^sup>* (us_db st) (us_db st') \<and> (\<forall>e. r = Inl e \<longrightarrow> is_fatal e) \<and> (\<forall>i. r = Inr i \<longrightarrow> i = 0) \<and>
   (validate_config config = Inr x \<longrightarrow> vars_ok config v \<longrightarrow> waits_ok config (us_waits st) \<longrightarrow> waits_ok config (us_waits st'))"
proof (induction fuel arbitrary: v st)
  case (Suc fuel)
  show ?case
  proof (cases "updater_stop en st")
    case False
    obtain q st2 where t: "updater_turn en config once full_once max_cycles v (st\<lparr>us_polls := us_polls st + 1\<rparr>) = (q, st2)" by fastforce
    note f = updater_turn_facts [OF t, simplified]
    show ?thesis
    proof (cases q)
      case (Inl res)
      then have "r = res" "st' = st2" using Suc.prems False t by simp_all
      then show ?thesis using f Inl by simp
    next
      case (Inr v')
      then have rest: "updater_loop fuel en config once full_once max_cycles v' st2 = Some (r, st')" using Suc.prems False t by simp
      note ih = Suc.IH [OF rest]
      have "(gov_step (uc_fold (ue_tables en)))\<^sup>*\<^sup>* (us_db st) (us_db st')" by (rule rtranclp_trans [OF f(1) conjunct1 [OF ih]])
      moreover have "waits_ok config (us_waits st')" if "validate_config config = Inr x" "vars_ok config v" "waits_ok config (us_waits st)"
        using f(3) [OF that(1) [simplified] that(2,3)] ih that(1) Inr by simp
      ultimately show ?thesis using ih by blast
    qed
  qed (use Suc.prems in auto)
qed simp

lemma updater_loop_stops:
  assumes "ue_stop_at en = Some k"
  shows "k - us_polls st < fuel \<Longrightarrow> \<exists>r st'. updater_loop fuel en config once full_once max_cycles v st = Some (r, st')"
proof (induction fuel arbitrary: v st)
  case (Suc fuel)
  show ?case
  proof (cases "updater_stop en st")
    case False
    then have "us_polls st < k" using assms by (simp add: updater_stop_def)
    obtain q st2 where t: "updater_turn en config once full_once max_cycles v (st\<lparr>us_polls := us_polls st + 1\<rparr>) = (q, st2)" by fastforce
    have "us_polls st2 = us_polls st + 1" using updater_turn_facts(2) [OF t] by simp
    then have "\<exists>r st'. updater_loop fuel en config once full_once max_cycles v' st2 = Some (r, st')" for v'
      using Suc.IH [of st2] Suc.prems \<open>us_polls st < k\<close> by simp
    then show ?thesis using t False by (cases q) simp_all
  qed simp
qed simp

text \<open>C29: Whatever the endpoints answer and wherever the server fails, a run that ends leaves governance tables that can be read
  again, in which every proposal known before is still known with a status the transitions permit; every sleep lasted between
  a second and the larger of the refresh interval and the maximal backoff; and the run ended with exit code 0, or because the
  configuration is invalid, or with a chain identity or stored state error.\<close>

theorem updater_keeps_store:
  assumes "run_updater fuel en config once full_once max_cycles (new_updater_state d) = Some (r, st)"
    and "(gov_step (uc_fold (ue_tables en)))\<^sup>*\<^sup>* (empty_gov_db key_fits) d"
  shows "(\<exists>x. load_governance (uc_fold (ue_tables en)) (part_of (us_db st) chain realm) = Inr x) \<and>
    (\<forall>k s. statuses d k = Some s \<longrightarrow> (\<exists>s'. statuses (us_db st) k = Some s' \<and> status_allowed s s')) \<and>
    (\<forall>s \<in> set (us_waits st). 1 \<le> s \<and> s \<le> max (uf_refresh_interval_seconds config) (uf_max_backoff_seconds config)) \<and>
    (r = Inr 0 \<or> (\<exists>e. r = Inl e \<and> (validate_config config = Inl e \<or> is_fatal e)))"
proof -
  let ?cf = "uc_fold (ue_tables en)"
  have d: "gov_ok ?cf d" using gov_steps_keep [OF assms(2) empty_gov_ok] by blast
  show ?thesis
  proof (cases "validate_config config")
    case (Inl e)
    then show ?thesis using assms(1) d by (auto simp: run_updater_def new_updater_state_def gov_ok_def)
  next
    case (Inr x)
    let ?v = "\<lparr>uv_cycles = 0, uv_turn = 0, uv_last_full = None, uv_backoff = uf_error_backoff_seconds config\<rparr>"
    have loop: "updater_loop fuel en config once full_once max_cycles ?v (new_updater_state d) = Some (r, st)"
      using assms(1) Inr by (simp add: run_updater_def)
    have "vars_ok config ?v" using validate_config_facts [OF Inr] by (simp add: vars_ok_def)
    moreover have "waits_ok config (us_waits (new_updater_state d))" by (simp add: waits_ok_def new_updater_state_def)
    ultimately have f: "(gov_step ?cf)\<^sup>*\<^sup>* d (us_db st)" "\<And>e. r = Inl e \<Longrightarrow> is_fatal e" "\<And>i. r = Inr i \<Longrightarrow> i = 0" "waits_ok config (us_waits st)"
      using updater_loop_facts [OF loop, of x] Inr by (auto simp: new_updater_state_def)
    have "gov_ok ?cf (us_db st)" "lifecycle (statuses d) (statuses (us_db st))" using gov_steps_keep [OF f(1) d] by blast+
    then show ?thesis using f(2-4) by (cases r) (auto simp: gov_ok_def lifecycle_def waits_ok_def)
  qed
qed

text \<open>C30: A stop signal ends the updater: if the stop flag is set from its k-th reading on, the run returns within k + 1 turns of
  its loop, whatever endpoints, server and clock do.\<close>

theorem stop_signal_ends_updater:
  assumes "ue_stop_at en = Some k" and "k < fuel"
  shows "\<exists>r st. run_updater fuel en config once full_once max_cycles (new_updater_state d) = Some (r, st)"
proof (cases "validate_config config")
  case (Inr x)
  have "k - us_polls (new_updater_state d) < fuel" using assms(2) by (simp add: new_updater_state_def)
  from updater_loop_stops [OF assms(1) this] show ?thesis using Inr by (simp add: run_updater_def)
qed (simp add: run_updater_def)

section \<open>Failover\<close>

text \<open>The discovery a full cycle makes at one endpoint.\<close>

definition endpoint_discovery :: "updater_env \<Rightarrow> updater_config \<Rightarrow> updater_cycle \<Rightarrow> selected_rpc \<Rightarrow> gov_discovery res" where
  "endpoint_discovery en config cy rpc =
     fst (discover_governance (ue_tables en) (uy_client cy (sel_url rpc)) (source_of config rpc) (int MAX_GOVERNANCE_PAGES)
       (int MAX_GOVERNANCE_PROPOSALS) None True 0)"

lemma full_attempt_discovery:
  "full_attempt en config cy rpc = bindS (liftS (endpoint_discovery en config cy rpc)) (\<lambda>d. persist_governance_snapshot en d (uf_chain_id config))"
  by (simp add: full_attempt_def endpoint_discovery_def)

text \<open>What one attempt yields over the database \<open>d\<close> when the server answers.\<close>

definition attempt_outcome :: "updater_env \<Rightarrow> updater_config \<Rightarrow> updater_cycle \<Rightarrow> gov_db \<Rightarrow> selected_rpc \<Rightarrow> (gov_result \<times> gov_db) res" where
  "attempt_outcome en config cy d rpc =
     bindE (endpoint_discovery en config cy rpc) (\<lambda>disc.
     persist_governance_snapshot_cursor (uc_fold (ue_tables en)) disc (uf_chain_id config) d)"

text \<open>The attempts of a list that reach the database.\<close>

definition connecting :: "updater_env \<Rightarrow> updater_config \<Rightarrow> updater_cycle \<Rightarrow> selected_rpc list \<Rightarrow> nat" where
  "connecting en config cy rpcs = length (filter (\<lambda>p. \<exists>disc. endpoint_discovery en config cy p = Inr disc) rpcs)"

lemma connecting_simps [simp]:
  "connecting en config cy [] = 0"
  "connecting en config cy (p # ps) = (case endpoint_discovery en config cy p of Inl _ \<Rightarrow> 0 | Inr _ \<Rightarrow> 1) + connecting en config cy ps"
  by (simp_all add: connecting_def split: sum.split)

lemma connecting_append [simp]: "connecting en config cy (ps @ qs) = connecting en config cy ps + connecting en config cy qs"
  by (simp add: connecting_def)

lemma full_attempt_outcome:
  assumes "ue_fault en (us_conn st) = None"
  shows "full_attempt en config cy rpc st =
    (case attempt_outcome en config cy (us_db st) rpc of
       Inl e \<Rightarrow> (Inl e, st\<lparr>us_conn := us_conn st + connecting en config cy [rpc]\<rparr>)
     | Inr (r, d) \<Rightarrow> (Inr r, st\<lparr>us_conn := us_conn st + connecting en config cy [rpc], us_db := d\<rparr>))"
  using assms
  by (auto simp: full_attempt_discovery attempt_outcome_def persist_governance_snapshot_def gov_transact_def bindS_def liftS_def
      split: sum.splits prod.splits)

lemma try_attempts_skip:
  assumes "\<And>p. p \<in> set pre \<Longrightarrow> \<exists>e. attempt_outcome en config cy (us_db st) p = Inl e \<and> retryable e"
    and "\<And>k. k < length pre \<Longrightarrow> ue_fault en (us_conn st + k) = None"
  shows "try_attempts (full_attempt en config cy) (pre @ rest) st =
    try_attempts (full_attempt en config cy) rest (st\<lparr>us_conn := us_conn st + connecting en config cy pre\<rparr>)"
  using assms
proof (induction pre arbitrary: st)
  case (Cons p pre)
  let ?st = "st\<lparr>us_conn := us_conn st + connecting en config cy [p]\<rparr>"
  obtain e where e: "attempt_outcome en config cy (us_db st) p = Inl e" "retryable e" using Cons.prems(1) by auto
  have now: "ue_fault en (us_conn st) = None" using Cons.prems(2) [of 0] by simp
  have later: "ue_fault en (us_conn ?st + k) = None" if "k < length pre" for k
    using Cons.prems(2) [of k] Cons.prems(2) [of "Suc k"] that by (simp split: sum.split)
  have "try_attempts (full_attempt en config cy) (pre @ rest) ?st =
      try_attempts (full_attempt en config cy) rest (?st\<lparr>us_conn := us_conn ?st + connecting en config cy pre\<rparr>)"
    by (rule Cons.IH) (use Cons.prems(1) later in auto)
  then show ?case using full_attempt_outcome [OF now, of config cy p] e by (simp add: add.assoc)
qed simp

text \<open>C31: A full cycle goes on to the next candidate after an RPC error (also of continuity), a parse error, an incomplete or a
  stale snapshot, whether the discovery or its storage raised it, and after nothing else: while the server answers, the first
  candidate that does not fail in one of these ways decides, its snapshot is what the cycle stores or its error what the cycle
  raises, and the cycle has opened one connection for each discovery that was made. One good endpoint is enough.\<close>

theorem full_cycle_fails_over:
  assumes "candidates config cy = Inr (pre @ rpc # post)"
    and "\<And>p. p \<in> set pre \<Longrightarrow> \<exists>m. attempt_outcome en config cy (us_db st) p \<in> {Inl (RpcError m), Inl (RpcContinuityError m), Inl (AllGovernanceRpcAttemptsFailed m),
      Inl (GovernanceParseError m), Inl (IncompleteGovernanceSnapshot m), Inl (StaleGovernanceSnapshot m)}"
    and "\<And>m. attempt_outcome en config cy (us_db st) rpc \<notin> {Inl (RpcError m), Inl (RpcContinuityError m), Inl (AllGovernanceRpcAttemptsFailed m),
      Inl (GovernanceParseError m), Inl (IncompleteGovernanceSnapshot m), Inl (StaleGovernanceSnapshot m)}"
    and "\<And>k. k \<le> length pre \<Longrightarrow> ue_fault en (us_conn st + k) = None"
  shows "run_full_cycle en config cy st =
    (let st' = st\<lparr>us_conn := us_conn st + length (filter (\<lambda>p. \<exists>disc. endpoint_discovery en config cy p = Inr disc) (pre @ [rpc]))\<rparr> in
     case attempt_outcome en config cy (us_db st) rpc of Inl e \<Rightarrow> (Inl e, st') | Inr (r, d) \<Rightarrow> (Inr r, st'\<lparr>us_db := d\<rparr>))"
proof -
  let ?st = "st\<lparr>us_conn := us_conn st + connecting en config cy pre\<rparr>"
  have "\<exists>e. attempt_outcome en config cy (us_db st) p = Inl e \<and> retryable e" if "p \<in> set pre" for p
    using assms(2) [OF that] by (auto simp: retryable_def)
  then have skip: "try_attempts (full_attempt en config cy) (pre @ rpc # post) st = try_attempts (full_attempt en config cy) (rpc # post) ?st"
    by (rule try_attempts_skip) (assumption, rule assms(4), simp)
  have "connecting en config cy pre \<le> length pre" by (simp add: connecting_def)
  then have now: "ue_fault en (us_conn ?st) = None" using assms(4) by simp
  have stop: "\<not> retryable e" if "attempt_outcome en config cy (us_db st) rpc = Inl e" for e
    using assms(3) that by (cases e) (auto simp: retryable_def)
  have "try_attempts (full_attempt en config cy) (rpc # post) ?st = full_attempt en config cy rpc ?st"
    using full_attempt_outcome [OF now, of config cy rpc] stop by (auto split: sum.splits)
  then show ?thesis
    using assms(1) skip full_attempt_outcome [OF now, of config cy rpc]
    by (auto simp: run_full_cycle_def bindS_def liftS_def connecting_def [symmetric] Let_def add.assoc split: sum.splits)
qed

section \<open>A run and a cycle\<close>

definition updater_sample :: updater_config where
  "updater_sample = \<lparr>uf_database_url = ''postgresql://db'', uf_rpc_urls = [''http://a'', ''http://b''], uf_chain_id = ''pearl-1'',
     uf_realm = ''gno.land/r/gov/dao'', uf_max_height_lag = 10, uf_refresh_interval_seconds = 30,
     uf_full_reconcile_interval_seconds = 21600, uf_error_backoff_seconds = 5, uf_max_backoff_seconds = 60\<rparr>"

text \<open>A list without proposals at every endpoint.\<close>

definition empty_cycle :: updater_cycle where
  "empty_cycle = \<lparr>uy_reply = demo_reply, uy_dur = demo_dur, uy_client = (\<lambda>_ _ _. Inr (abci_reply []))\<rparr>"

definition plain_tables :: unicode_tables where
  "plain_tables = \<lparr>uc_fold = (\<lambda>c. [c]), uc_upper = (\<lambda>c. [c]), uc_word = (\<lambda>_. False), uc_decimal = (\<lambda>_. None)\<rparr>"

definition env_sample :: updater_env where
  "env_sample = \<lparr>ue_tables = plain_tables, ue_fault = (\<lambda>_. None), ue_stop_at = Some 1, ue_cycle = (\<lambda>_. empty_cycle), ue_clock = (\<lambda>_. 0)\<rparr>"

theorem stop_signal_ends_updater_witness:
  "\<exists>r st. run_updater 2 env_sample updater_sample False False None (new_updater_state (empty_gov_db (\<lambda>_ _ _ _. True))) = Some (r, st)"
  by (rule stop_signal_ends_updater [of _ 1]) (simp_all add: env_sample_def)

theorem updater_keeps_store_witness:
  "\<exists>r st x. run_updater 2 env_sample updater_sample False False None (new_updater_state (empty_gov_db (\<lambda>_ _ _ _. True))) = Some (r, st) \<and>
     load_governance (uc_fold (ue_tables env_sample)) (part_of (us_db st) ''pearl-1'' ''gno.land/r/gov/dao'') = Inr x"
proof -
  have "\<exists>r st. run_updater 2 env_sample updater_sample False False None (new_updater_state (empty_gov_db (\<lambda>_ _ _ _. True))) = Some (r, st)"
    using updater_loop_stops [of env_sample 1 "new_updater_state (empty_gov_db (\<lambda>_ _ _ _. True))" 2 updater_sample False False None]
    by (simp add: env_sample_def run_updater_def new_updater_state_def validate_config_def updater_sample_def startswith_def guardE_def)
  then obtain r st where run: "run_updater 2 env_sample updater_sample False False None (new_updater_state (empty_gov_db (\<lambda>_ _ _ _. True))) = Some (r, st)" by blast
  then show ?thesis using updater_keeps_store [OF run rtranclp.rtrancl_refl, where chain = "''pearl-1''" and realm = "''gno.land/r/gov/dao''"] by blast
qed

text \<open>Two healthy endpoints, of which the first answers no query.\<close>

definition both_reply :: "nat \<Rightarrow> jobj res" where
  "both_reply i = Inr demo_status"

definition both_probe :: "nat \<Rightarrow> string \<Rightarrow> rpc_probe" where
  "both_probe i a = demo_probe\<lparr>oid := i, url := a, selected := (i = 0)\<rparr>"

definition failing_cycle :: updater_cycle where
  "failing_cycle = \<lparr>uy_reply = both_reply, uy_dur = demo_dur,
     uy_client = (\<lambda>a _ _. if a = ''http://a'' then Inl (RpcError ''ABCI query failed'') else Inr (abci_reply []))\<rparr>"

definition rpc_sample :: selected_rpc where
  "rpc_sample = \<lparr>sel_url = ''http://b'', sel_status = demo_status, sel_latest_height = 42, sel_finalized_tip = 41, sel_probes = [both_probe 1 ''http://b'']\<rparr>"

definition failing_sample :: selected_rpc where
  "failing_sample = \<lparr>sel_url = ''http://a'', sel_status = demo_status, sel_latest_height = 42, sel_finalized_tip = 41,
     sel_probes = [both_probe 0 ''http://a'']\<rparr>"

lemma both_probed:
  "probe_rpc_endpoints both_reply demo_dur [''http://a'', ''http://b''] ''pearl-1'' 10 = Inr [both_probe 0 ''http://a'', both_probe 1 ''http://b'']"
proof -
  have raw: "raw_probe both_reply demo_dur ''pearl-1'' (i, a) = (both_probe i a)\<lparr>selected := False, observed_lag := None\<rparr>" if "a \<noteq> []" for i a
    using that by (simp add: raw_probe_def probe_endpoint_def both_reply_def demo_status_def demo_dur_def demo_probe_def both_probe_def
      parse_status_def result_def validate_status_for_health_def)
  show ?thesis
    by (simp add: raw probe_rpc_endpoints_def Let_def enumerate_simps healthy_heights_def map_filter_simps
        max_list_def with_lag_def selected_probe_index_def within_lag_def demo_probe_def both_probe_def item_rank_def
        probe_rank_def less_eq_prod_def)
qed

lemma candidates_sample: "candidates updater_sample failing_cycle = Inr [failing_sample, rpc_sample]"
  using both_probed
  by (simp add: candidates_def updater_sample_def failing_cycle_def suitable_rpc_candidates_def suitable_rpc_probes_def enumerate_simps
      guardE_def rpc_sample_def failing_sample_def)
    (simp add: both_probe_def demo_probe_def is_suitable_def item_rank_def probe_rank_def less_eq_prod_def)

lemma empty_render: "render_lines [] = Inr [[]]" "validate_size [] = Inr ()"
  by (simp_all add: render_lines_def validate_size_def utf8_size_def utf8_bytes_def guardE_def)

lemma empty_page: "parse_proposal_list uc [] = Inr ([], [])" "pager_paths [] realm = Inr []"
  by (simp_all add: parse_proposal_list_def pager_paths_def empty_render match_header_def ustrip_def unique_def List.map_filter_def)

definition snapshot_sample :: gov_discovery where
  "snapshot_sample = \<lparr>gd_source = source_of updater_sample rpc_sample, gd_complete = True, gd_page_count = 1, gd_proposals = [], gd_warnings = [],
     gd_raw_renders = [(''list/root'', [])]\<rparr>"

lemma rpc_sample_url [simp]: "sel_url rpc_sample = ''http://b''"
  by (simp add: rpc_sample_def)

lemma discovery_sample: "endpoint_discovery env_sample updater_sample failing_cycle rpc_sample = Inr snapshot_sample"
proof -
  let ?source = "source_of updater_sample rpc_sample" and ?client = "\<lambda>_ :: nat. \<lambda>_ :: qrender_params. Inr (abci_reply []) :: json res"
  have page: "page_at (\<lambda>_. Inr (abci_reply [])) ?source [] = Inr []"
    by (rule page_at_reply) (simp_all add: utf8_size_def utf8_bytes_def source_of_def rpc_sample_def)
  have "list_page plain_tables ?client ?source 1000 True [] (start_state\<lparr>ld_queue := []\<rparr>) 0 =
      (Inr (start_state\<lparr>ld_queue := [], ld_visited := [[]], ld_pages := 1, ld_raw := [(''list/root'', [])]\<rparr>), 1)"
    using page
    by (simp add: list_page_def list_fetch_def query_render_stable list_accept_def empty_page bindS_def liftS_def retS_def start_state_def
        guardE_def page_name_def utf8_size_def utf8_bytes_def MAX_TOTAL_RAW_BYTES_def source_of_def rpc_sample_def)
  then have "discover_governance_list plain_tables ?client ?source 100 1000 True 0 =
      (Inr \<lparr>gl_source = ?source, gl_complete = True, gl_page_count = 1, gl_proposals = [], gl_warnings = [],
            gl_raw_renders = [(''list/root'', [])]\<rparr>, 1)"
    by (simp add: discover_governance_list_def liftS_def bindS_def retS_def guardE_def MAX_GOVERNANCE_PAGES_def MAX_GOVERNANCE_PROPOSALS_def
        list_loop.simps start_state_def list_result_def)
  then show ?thesis
    by (simp add: endpoint_discovery_def env_sample_def failing_cycle_def discover_governance_def bindS_def retS_def MAX_GOVERNANCE_PAGES_def
        MAX_GOVERNANCE_PROPOSALS_def snapshot_sample_def)
qed

lemma failing_discovery:
  "endpoint_discovery env_sample updater_sample failing_cycle failing_sample = Inl (RpcError ''ABCI query failed'')"
  by (simp add: endpoint_discovery_def env_sample_def failing_cycle_def failing_sample_def source_of_def discover_governance_def
      discover_governance_list_def bindS_def liftS_def retS_def guardE_def MAX_GOVERNANCE_PAGES_def MAX_GOVERNANCE_PROPOSALS_def
      list_loop.simps start_state_def list_page_def list_fetch_def query_render_def abci_query_def)

lemma snapshot_sample_stored:
  "\<exists>r d. persist_governance_snapshot_cursor (uc_fold plain_tables) snapshot_sample ''pearl-1'' (empty_gov_db (\<lambda>_ _ _ _. True)) = Inr (r, d)"
proof -
  have "normalize_discovery (uc_fold plain_tables) snapshot_sample ''pearl-1'' = Inr []"
    by (simp add: normalize_discovery_def check_raw_render_def snapshot_sample_def source_of_def updater_sample_def rpc_sample_def gov_guard_def guardE_def
        utf8_size_def utf8_bytes_def raw_total_def governance_limits)
  from snapshot_accepted [OF rtranclp.rtrancl_refl this] show ?thesis
    by (simp add: empty_gov_db_def part_of_def empty_part_def statuses_def snapshot_sample_def source_of_def updater_sample_def rpc_sample_def)
qed

theorem full_cycle_fails_over_witness:
  "\<exists>r d. run_full_cycle env_sample updater_sample failing_cycle (new_updater_state (empty_gov_db (\<lambda>_ _ _ _. True))) =
     (Inr r, (new_updater_state (empty_gov_db (\<lambda>_ _ _ _. True)))\<lparr>us_conn := 1, us_db := d\<rparr>)"
proof -
  let ?st = "new_updater_state (empty_gov_db (\<lambda>_ _ _ _. True))"
  obtain r d where "persist_governance_snapshot_cursor (uc_fold plain_tables) snapshot_sample ''pearl-1'' (empty_gov_db (\<lambda>_ _ _ _. True)) = Inr (r, d)"
    using snapshot_sample_stored by blast
  then have good: "attempt_outcome env_sample updater_sample failing_cycle (us_db ?st) rpc_sample = Inr (r, d)"
    unfolding attempt_outcome_def discovery_sample bindE_simps by (simp add: env_sample_def updater_sample_def new_updater_state_def)
  have bad: "attempt_outcome env_sample updater_sample failing_cycle (us_db ?st) failing_sample = Inl (RpcError ''ABCI query failed'')"
    by (simp add: attempt_outcome_def failing_discovery)
  have "run_full_cycle env_sample updater_sample failing_cycle ?st =
    (let st' = ?st\<lparr>us_conn := us_conn ?st + length (filter (\<lambda>p. \<exists>disc. endpoint_discovery env_sample updater_sample failing_cycle p = Inr disc)
       ([failing_sample] @ [rpc_sample]))\<rparr> in
     case attempt_outcome env_sample updater_sample failing_cycle (us_db ?st) rpc_sample of Inl e \<Rightarrow> (Inl e, st') | Inr (r, d) \<Rightarrow> (Inr r, st'\<lparr>us_db := d\<rparr>))"
  proof (rule full_cycle_fails_over [where post = "[]"])
    show "candidates updater_sample failing_cycle = Inr ([failing_sample] @ rpc_sample # [])" by (simp add: candidates_sample)
    show "ue_fault env_sample (us_conn ?st + k) = None" for k by (simp add: env_sample_def)
  qed (simp_all add: good bad)
  with good show ?thesis by (simp add: failing_discovery discovery_sample new_updater_state_def Let_def)
qed

end
