(* ===== verification/Py_Json_Text.thy ===== *)
theory Py_Json_Text
  imports Py_Unicode Py_Number "HOL-Library.AList"
begin

text \<open>
  \<open>json.loads\<close> on a text over all of Unicode, as CPython's scanner reads it: surrogate escapes are joined in pairs and kept
  when lone, the last of two equal keys wins at the place of the first, integers of more than 4300 digits are refused,
  \<open>NaN\<close> and the infinities go to \<open>parse_constant\<close>. How deep values may nest before the interpreter raises
  \<open>RecursionError\<close> depends on the build and the stack in use, so the limit is an argument.
\<close>

datatype ujson =
    UNull
  | UBool bool
  | UInt int
  | UFloat pyfloat
  | UStr ustr
  | UList "ujson list"
  | UObj "(ustr \<times> ujson) list"

text \<open>A dict display with literal keys, and \<open>d.get(k)\<close>.\<close>

definition uobj :: "(string \<times> ujson) list \<Rightarrow> ujson" where
  "uobj kvs = UObj (map (\<lambda>(k, v). (u k, v)) kvs)"

definition uget :: "(ustr \<times> ujson) list \<Rightarrow> string \<Rightarrow> ujson" where
  "uget kvs k = (case map_of kvs (u k) of None \<Rightarrow> UNull | Some v \<Rightarrow> v)"

abbreviation json_error :: py_error where
  "json_error \<equiv> ValueError ''JSONDecodeError''"

abbreviation recursion_error :: py_error where
  "recursion_error \<equiv> RuntimeError ''RecursionError''"

section \<open>Strings\<close>

definition json_space :: "nat \<Rightarrow> bool" where
  "json_space c \<longleftrightarrow> c = 32 \<or> c = 9 \<or> c = 10 \<or> c = 13"

definition skip_space :: "ustr \<Rightarrow> ustr" where
  "skip_space s = dropWhile json_space s"

definition hex_value :: "nat \<Rightarrow> nat option" where
  "hex_value c =
     (if 48 \<le> c \<and> c \<le> 57 then Some (c - 48) else if 65 \<le> c \<and> c \<le> 70 then Some (c - 55)
      else if 97 \<le> c \<and> c \<le> 102 then Some (c - 87) else None)"

definition hex4 :: "ustr \<Rightarrow> (nat \<times> ustr) option" where
  "hex4 s =
     (case s of
        a # b # c # d # r \<Rightarrow>
          (case (hex_value a, hex_value b, hex_value c, hex_value d) of
             (Some w, Some x, Some y, Some z) \<Rightarrow> Some (4096 * w + 256 * x + 16 * y + z, r)
           | _ \<Rightarrow> None)
      | _ \<Rightarrow> None)"

text \<open>A high surrogate takes a low one that follows as an escape.\<close>

definition join_surrogate :: "nat \<Rightarrow> ustr \<Rightarrow> nat \<times> ustr" where
  "join_surrogate h r =
     (if 55296 \<le> h \<and> h \<le> 56319 \<and> starts_with r [92, 117] then
        (case hex4 (drop 2 r) of
           Some (l, t) \<Rightarrow> if 56320 \<le> l \<and> l \<le> 57343 then (65536 + (h - 55296) * 1024 + (l - 56320), t) else (h, r)
         | None \<Rightarrow> (h, r))
      else (h, r))"

definition simple_escape :: "nat \<Rightarrow> nat option" where
  "simple_escape e = map_of [(34, 34), (92, 92), (47, 47), (98, 8), (102, 12), (110, 10), (114, 13), (116, 9)] e"

lemma hex4_length: "hex4 s = Some (n, r) \<Longrightarrow> length r < length s"
  by (auto simp: hex4_def split: list.splits option.splits)

lemma join_surrogate_length: "join_surrogate h r = (n, t) \<Longrightarrow> length t \<le> length r"
  by (auto simp: join_surrogate_def split: if_splits option.splits dest!: hex4_length)

text \<open>The content of a string after its opening quote, and what follows the closing one.\<close>

function scan_string :: "ustr \<Rightarrow> (ustr \<times> ustr) option" where
  "scan_string [] = None"
| "scan_string (c # s) =
     (if c = 34 then Some ([], s)
      else if c = 92 then
        (case s of
           [] \<Rightarrow> None
         | e # t \<Rightarrow>
             if e = 117 then
               (case hex4 t of
                  None \<Rightarrow> None
                | Some (h, r) \<Rightarrow> (case join_surrogate h r of (n, r') \<Rightarrow> map_option (apfst ((#) n)) (scan_string r')))
             else
               (case simple_escape e of
                  None \<Rightarrow> None
                | Some n \<Rightarrow> map_option (apfst ((#) n)) (scan_string t)))
      else if c < 32 then None
      else map_option (apfst ((#) c)) (scan_string s))"
  by pat_completeness auto
termination
  by (relation "measure length") (auto dest!: hex4_length, metis join_surrogate_length le_imp_less_Suc less_SucI order.strict_trans1)

lemma scan_string_length: "scan_string s = Some (x, r) \<Longrightarrow> length r < length s"
proof (induction s arbitrary: x r rule: scan_string.induct)
  case (2 c s)
  show ?case
  proof (cases "c = 92")
    case False
    then show ?thesis using 2 by (fastforce split: if_splits)
  next
    case True
    then show ?thesis using "2.prems" "2.IH"(1,2)
      by (fastforce split: list.splits if_splits option.splits prod.splits dest: hex4_length join_surrogate_length)
  qed
qed simp

section \<open>Numbers\<close>

definition ascii_digit :: "nat \<Rightarrow> bool" where
  "ascii_digit c \<longleftrightarrow> 48 \<le> c \<and> c \<le> 57"

text \<open>The digits before the point, of the fraction with its point, and of the exponent with its mark.\<close>

definition whole_part :: "ustr \<Rightarrow> ustr" where
  "whole_part s = (case s of [] \<Rightarrow> [] | c # t \<Rightarrow> if c = 48 then [c] else takeWhile ascii_digit s)"

definition fraction_part :: "ustr \<Rightarrow> ustr" where
  "fraction_part s =
     (case s of
        p # d # t \<Rightarrow> if p = 46 \<and> ascii_digit d then p # takeWhile ascii_digit (d # t) else []
      | _ \<Rightarrow> [])"

definition exponent_part :: "ustr \<Rightarrow> ustr" where
  "exponent_part s =
     (case s of
        [] \<Rightarrow> []
      | e # t \<Rightarrow>
          (let sign = (case t of [] \<Rightarrow> [] | c # _ \<Rightarrow> if c = 43 \<or> c = 45 then [c] else []);
               ds = takeWhile ascii_digit (drop (length sign) t) in
           if (e = 101 \<or> e = 69) \<and> ds \<noteq> [] then e # sign @ ds else []))"

definition number_value :: "ustr \<Rightarrow> bool \<Rightarrow> ujson res" where
  "number_value lexeme is_float =
     (if is_float then (case py_float_of_str (map char_of lexeme) of Some f \<Rightarrow> Inr (UFloat f) | None \<Rightarrow> Inl json_error)
      else (case py_int_of_str (map char_of lexeme) of Some i \<Rightarrow> Inr (UInt i) | None \<Rightarrow> Inl (ValueError ''int'')))"

definition scan_number :: "ustr \<Rightarrow> (ujson \<times> ustr) res" where
  "scan_number s =
     (let sign = (if starts_with s [45] then [45] else []); s1 = drop (length sign) s;
          whole = whole_part s1; s2 = drop (length whole) s1;
          frac = fraction_part s2; s3 = drop (length frac) s2;
          expo = exponent_part s3 in
      if whole = [] then Inl json_error
      else bindE (number_value (sign @ whole @ frac @ expo) (frac \<noteq> [] \<or> expo \<noteq> [])) (\<lambda>v. Inr (v, drop (length expo) s3)))"

lemma scan_number_length: "scan_number s = Inr (v, r) \<Longrightarrow> length r < length s"
proof -
  assume "scan_number s = Inr (v, r)"
  then obtain n m k where w: "whole_part (drop n s) \<noteq> []" and r: "r = drop k (drop m (drop (length (whole_part (drop n s))) (drop n s)))"
    by (auto simp only: scan_number_def Let_def bindE_Inr_iff sum.inject prod.inject split: if_splits)
  from w have "drop n s \<noteq> []" by (auto simp: whole_part_def)
  then have "0 < length (drop n s)" by blast
  moreover have "0 < length (whole_part (drop n s))" using w by blast
  ultimately show ?thesis unfolding r length_drop by linarith
qed

section \<open>Values\<close>

text \<open>
  The loops over the elements of an array and the members of an object, after the opening bracket and the whitespace behind
  it. Their last test only serves termination: a value takes at least one character (\<open>parse_value_length\<close>).
\<close>

function elements :: "(ustr \<Rightarrow> (ujson \<times> ustr) res) \<Rightarrow> ujson list \<Rightarrow> ustr \<Rightarrow> (ujson \<times> ustr) res" where
  "elements rd acc s =
     bindE (rd s) (\<lambda>(v, r).
     case skip_space r of
       [] \<Rightarrow> Inl json_error
     | c # t \<Rightarrow>
         if c = 93 then Inr (UList (acc @ [v]), t)
         else if c = 44 \<and> length (skip_space t) < length s then elements rd (acc @ [v]) (skip_space t)
         else Inl json_error)"
  by pat_completeness auto
termination by (relation "measure (\<lambda>(_, _, s). length s)") auto

function members :: "(ustr \<Rightarrow> (ujson \<times> ustr) res) \<Rightarrow> (ustr \<times> ujson) list \<Rightarrow> ustr \<Rightarrow> (ujson \<times> ustr) res" where
  "members rd acc s =
     (if \<not> starts_with s [34] then Inl json_error
      else case scan_string (tl s) of
        None \<Rightarrow> Inl json_error
      | Some (k, r) \<Rightarrow>
          if \<not> starts_with (skip_space r) [58] then Inl json_error
          else
            bindE (rd (skip_space (tl (skip_space r)))) (\<lambda>(v, r2).
            case skip_space r2 of
              [] \<Rightarrow> Inl json_error
            | c # t \<Rightarrow>
                if c = 125 then Inr (UObj (AList.update k v acc), t)
                else if c = 44 \<and> length (skip_space t) < length s then members rd (AList.update k v acc) (skip_space t)
                else Inl json_error))"
  by pat_completeness auto
termination by (relation "measure (\<lambda>(_, _, s). length s)") auto

declare elements.simps [simp del] members.simps [simp del]

text \<open>One value; \<open>nested\<close> reads the values inside it, \<open>None\<close> when the interpreter allows no deeper call.\<close>

definition scan_value :: "py_error \<Rightarrow> (ustr \<Rightarrow> (ujson \<times> ustr) res) option \<Rightarrow> ustr \<Rightarrow> (ujson \<times> ustr) res" where
  "scan_value constant nested s =
     (case s of
        [] \<Rightarrow> Inl json_error
      | c # t \<Rightarrow>
          if c = 34 then (case scan_string t of None \<Rightarrow> Inl json_error | Some (x, r) \<Rightarrow> Inr (UStr x, r))
          else if c = 123 then
            (case nested of
               None \<Rightarrow> Inl recursion_error
             | Some rd \<Rightarrow> if starts_with (skip_space t) [125] then Inr (UObj [], tl (skip_space t)) else members rd [] (skip_space t))
          else if c = 91 then
            (case nested of
               None \<Rightarrow> Inl recursion_error
             | Some rd \<Rightarrow> if starts_with (skip_space t) [93] then Inr (UList [], tl (skip_space t)) else elements rd [] (skip_space t))
          else if starts_with s (u ''null'') then Inr (UNull, drop 4 s)
          else if starts_with s (u ''true'') then Inr (UBool True, drop 4 s)
          else if starts_with s (u ''false'') then Inr (UBool False, drop 5 s)
          else if starts_with s (u ''NaN'') \<or> starts_with s (u ''Infinity'') \<or> starts_with s (u ''-Infinity'') then Inl constant
          else scan_number s)"

primrec parse_value :: "py_error \<Rightarrow> nat \<Rightarrow> ustr \<Rightarrow> (ujson \<times> ustr) res" where
  "parse_value constant 0 = scan_value constant None"
| "parse_value constant (Suc limit) = scan_value constant (Some (parse_value constant limit))"

text \<open>\<open>json.loads(text, parse_constant=...)\<close>, where \<open>constant\<close> is what \<open>parse_constant\<close> raises.\<close>

definition json_loads :: "nat \<Rightarrow> py_error \<Rightarrow> ustr \<Rightarrow> ujson res" where
  "json_loads limit constant text =
     bindE (guardE (\<not> starts_with text [65279]) json_error) (\<lambda>_.
     bindE (parse_value constant limit (skip_space text)) (\<lambda>(v, r).
     bindE (guardE (skip_space r = []) json_error) (\<lambda>_.
     Inr v)))"

section \<open>Facts\<close>

lemma skip_space_length: "length (skip_space s) \<le> length s"
  by (simp add: skip_space_def length_dropWhile_le)

lemma skip_space_Cons: "skip_space s = c # t \<Longrightarrow> length t < length s"
  using skip_space_length [of s] by simp

lemma elements_length:
  "elements rd acc s = Inr (v, r) \<Longrightarrow> (\<And>s v r. rd s = Inr (v, r) \<Longrightarrow> length r < length s) \<Longrightarrow> length r < length s"
proof (induction rd acc s rule: elements.induct)
  case (1 rd acc s)
  note run = "1.prems"(1) [unfolded elements.simps [of rd acc s]]
  obtain w q where q: "rd s = Inr (w, q)" using run by (cases "rd s") auto
  obtain c t where t: "skip_space q = c # t" using run q by (cases "skip_space q") auto
  have e: "(c = 93 \<and> r = t) \<or> (c \<noteq> 93 \<and> c = 44 \<and> length (skip_space t) < length s \<and> elements rd (acc @ [w]) (skip_space t) = Inr (v, r))"
    using run q t by (auto split: if_splits)
  have "length t < length s" using skip_space_Cons [OF t] "1.prems"(2) [OF q] by simp
  with e show ?case using "1.IH" [OF q refl t] skip_space_length [of t] "1.prems"(2) by fastforce
qed

lemma members_length:
  "members rd acc s = Inr (v, r) \<Longrightarrow> (\<And>s v r. rd s = Inr (v, r) \<Longrightarrow> length r < length s) \<Longrightarrow> length r < length s"
proof (induction rd acc s rule: members.induct)
  case (1 rd acc s)
  note run = "1.prems"(1) [unfolded members.simps [of rd acc s]]
  have s: "starts_with s [34]" using run by (simp split: if_splits)
  obtain k q where q: "scan_string (tl s) = Some (k, q)" using run s by (cases "scan_string (tl s)") auto
  have colon: "starts_with (skip_space q) [58]" using run s q by (simp split: if_splits)
  obtain w q2 where q2: "rd (skip_space (tl (skip_space q))) = Inr (w, q2)"
    using run s q colon by (cases "rd (skip_space (tl (skip_space q)))") auto
  obtain c t where t: "skip_space q2 = c # t" using run s q colon q2 by (cases "skip_space q2") auto
  have e: "(c = 125 \<and> r = t) \<or> (c \<noteq> 125 \<and> c = 44 \<and> length (skip_space t) < length s \<and> members rd (AList.update k w acc) (skip_space t) = Inr (v, r))"
    using run s q colon q2 t by (auto split: if_splits)
  have "length t < length q2" by (rule skip_space_Cons [OF t])
  also have "length q2 < length (skip_space (tl (skip_space q)))" by (rule "1.prems"(2) [OF q2])
  also have "\<dots> \<le> length (skip_space q)" using skip_space_length [of "tl (skip_space q)"] by simp
  also have "\<dots> \<le> length q" by (rule skip_space_length)
  also have "length q < length (tl s)" by (rule scan_string_length [OF q])
  finally have "length t < length s" by simp
  with e show ?case using "1.IH" [OF _ q _ _ q2 refl t] s colon skip_space_length [of t] "1.prems"(2) by fastforce
qed

text \<open>A value takes at least one character.\<close>

lemma scan_value_length:
  assumes "scan_value constant nested s = Inr (v, r)" and "\<And>rd s v r. nested = Some rd \<Longrightarrow> rd s = Inr (v, r) \<Longrightarrow> length r < length s"
  shows "length r < length s"
proof (cases s)
  case (Cons c t)
  have t: "length (skip_space t) \<le> length t" "length (tl (skip_space t)) \<le> length t" using skip_space_length [of t] by simp_all
  have "length r < length s" if "members rd [] (skip_space t) = Inr (v, r)" "nested = Some rd" for rd
    using members_length [OF that(1)] assms(2) [OF that(2)] t(1) Cons by fastforce
  moreover have "length r < length s" if "elements rd [] (skip_space t) = Inr (v, r)" "nested = Some rd" for rd
    using elements_length [OF that(1)] assms(2) [OF that(2)] t(1) Cons by fastforce
  ultimately show ?thesis using assms(1) t Cons scan_string_length [of t] scan_number_length [of s v r]
    by (auto simp: scan_value_def split: if_splits option.splits)
qed (use assms(1) in \<open>simp add: scan_value_def\<close>)

lemma parse_value_length: "parse_value constant limit s = Inr (v, r) \<Longrightarrow> length r < length s"
  by (induction limit arbitrary: s v r) (auto dest!: scan_value_length)

end
