(* ===== verification/Realm_Metadata.thy ===== *)
theory Realm_Metadata
  imports Governance_Discovery Py_Json_Text Hashes
begin

text \<open>
  \<open>indexer/realm_metadata.py\<close>: the bounded parsers for what a node answers about a realm or package: the file listing, source
  files with their imports, the JSON documents, the render and the storage line. \<open>limit\<close> is the nesting the interpreter
  allows to \<open>json.loads\<close>, \<open>printable\<close> the table behind \<open>str.isprintable\<close>. Returned dicts that are stored as JSON are objects.
\<close>

definition MAX_FILES :: nat where "MAX_FILES = 256"
definition MAX_FILENAME_LENGTH :: nat where "MAX_FILENAME_LENGTH = 160"
definition MAX_SOURCE_BYTES :: nat where "MAX_SOURCE_BYTES = 1048576"
definition MAX_SOURCE_LINES :: nat where "MAX_SOURCE_LINES = 100000"
definition MAX_IMPORT_CANDIDATES :: nat where "MAX_IMPORT_CANDIDATES = 1000"
definition MAX_FUNCS :: nat where "MAX_FUNCS = 1000"
definition MAX_FUNC_NAME_LENGTH :: nat where "MAX_FUNC_NAME_LENGTH = 160"
definition MAX_QDOC_ITEMS :: nat where "MAX_QDOC_ITEMS = 1000"
definition MAX_JSON_DEPTH :: nat where "MAX_JSON_DEPTH = 24"
definition MAX_JSON_NODES :: nat where "MAX_JSON_NODES = 20000"
definition MAX_STRING_LENGTH :: nat where "MAX_STRING_LENGTH = 16384"
definition MAX_STORAGE_DIGITS :: nat where "MAX_STORAGE_DIGITS = 40"

datatype payload = Bytes bytes | Text ustr

definition text_of :: "nat \<Rightarrow> payload \<Rightarrow> ustr res" where
  "text_of max_bytes payload =
     (case payload of
        Bytes b \<Rightarrow>
          bindE (guardE (length b \<le> max_bytes) (MetadataParseError ''oversized'')) (\<lambda>_.
          case utf8_decode b of None \<Rightarrow> Inl (MetadataParseError ''invalid_utf8'') | Some s \<Rightarrow> Inr s)
      | Text s \<Rightarrow>
          bindE (guardE (list_all scalar s) encode_error) (\<lambda>_.
          bindE (guardE (utf8_size s \<le> max_bytes) (MetadataParseError ''oversized'')) (\<lambda>_.
          Inr s)))"

definition hexdigest :: "bytes \<Rightarrow> string" where
  "hexdigest bs = py_lower (hex_upper bs)"

section \<open>File listing\<close>

definition ends_with :: "ustr \<Rightarrow> ustr \<Rightarrow> bool" where
  "ends_with s p = starts_with (rev s) (rev p)"

definition ascii_letter :: "nat \<Rightarrow> bool" where
  "ascii_letter c \<longleftrightarrow> (65 \<le> c \<and> c \<le> 90) \<or> (97 \<le> c \<and> c \<le> 122)"

definition drive_prefix :: "ustr \<Rightarrow> bool" where
  "drive_prefix name = (case name of c # r \<Rightarrow> ascii_letter c \<and> starts_with r (u '':/'') | [] \<Rightarrow> False)"

definition safe_filename :: "ustr \<Rightarrow> bool" where
  "safe_filename name \<longleftrightarrow>
     1 \<le> length name \<and> length name \<le> MAX_FILENAME_LENGTH \<and> \<not> starts_with name [47] \<and> \<not> drive_prefix name \<and>
     92 \<notin> set name \<and> \<not> list_ex (\<lambda>c. c < 32 \<or> c = 127) name \<and>
     list_all (\<lambda>part. part \<noteq> [] \<and> part \<noteq> u ''.'' \<and> part \<noteq> u ''..'') (usplit [47] [] name)"

record file_listing =
  li_file_count :: nat
  li_gno_file_count :: nat
  li_test_file_count :: nat
  li_has_gnomod :: bool
  li_filenames :: "ustr list"

definition add_filename :: "ustr \<Rightarrow> ustr list \<Rightarrow> ustr list res" where
  "add_filename line filenames =
     bindE (guardE (safe_filename line) (MetadataParseError ''invalid_filename'')) (\<lambda>_.
     bindE (guardE (line \<notin> set filenames) (MetadataParseError ''duplicate_filename'')) (\<lambda>_.
     Inr (filenames @ [line])))"

definition listing_of :: "ustr list \<Rightarrow> file_listing" where
  "listing_of filenames =
     (let gno_files = filter (\<lambda>name. ends_with name (u ''.gno'')) filenames in
      \<lparr>li_file_count = length filenames, li_gno_file_count = length gno_files,
       li_test_file_count = length (filter (\<lambda>name. ends_with name (u ''_test.gno'')) gno_files),
       li_has_gnomod = (u ''gnomod.toml'' \<in> set filenames), li_filenames = filenames\<rparr>)"

definition parse_qfile_listing :: "payload \<Rightarrow> file_listing res" where
  "parse_qfile_listing payload =
     bindE (text_of MAX_ABCI_RESPONSE_BYTES payload) (\<lambda>text.
     bindE (guardE (text \<noteq> []) (MetadataParseError ''empty_listing'')) (\<lambda>_.
     bindE (guardE (\<not> (occurs_in [10, 10] text \<or> occurs_in [13, 10, 13, 10] text)) (MetadataParseError ''invalid_filename'')) (\<lambda>_.
     let lines = usplitlines text in
     bindE (guardE (length lines \<le> MAX_FILES) (MetadataParseError ''too_many_files'')) (\<lambda>_.
     bindE (foldE add_filename lines []) (\<lambda>filenames.
     Inr (listing_of filenames))))))"

section \<open>Source files\<close>

text \<open>The regular expressions, written as scanners: every repetition is followed by something it cannot match.\<close>

definition ident_start :: "nat \<Rightarrow> bool" where
  "ident_start c \<longleftrightarrow> ascii_letter c \<or> c = 95"

definition ident_char :: "nat \<Rightarrow> bool" where
  "ident_char c \<longleftrightarrow> ident_start c \<or> ascii_digit c"

text \<open>\<open>\s+\<close>.\<close>

definition spaces :: "ustr \<Rightarrow> ustr option" where
  "spaces s = (case s of c # r \<Rightarrow> if uspace c then Some (dropWhile uspace r) else None | [] \<Rightarrow> None)"

text \<open>\<open>\s*(?://.*)?$\<close> at the end of a line.\<close>

definition line_end :: "ustr \<Rightarrow> bool" where
  "line_end s \<longleftrightarrow> ulstrip s = [] \<or> starts_with (ulstrip s) (u ''//'')"

definition quoted_path :: "ustr \<Rightarrow> ustr option" where
  "quoted_path s =
     (let t = tl s; path = takeWhile (\<lambda>c. c \<noteq> 34) t; r = dropWhile (\<lambda>c. c \<noteq> 34) t in
      if starts_with s [34] \<and> path \<noteq> [] \<and> r \<noteq> [] \<and> line_end (tl r) then Some path else None)"

text \<open>The optional alias and the quoted path.\<close>

definition import_spec :: "ustr \<Rightarrow> ustr option" where
  "import_spec s =
     (case s of
        [] \<Rightarrow> None
      | c # r \<Rightarrow>
          if ident_start c then Option.bind (spaces (dropWhile ident_char s)) quoted_path
          else if c = 46 then Option.bind (spaces r) quoted_path
          else quoted_path s)"

text \<open>\<open>_IMPORT_LINE_RE\<close>, \<open>_IMPORT_GROUP_START_RE\<close>, \<open>_IMPORT_GROUP_ITEM_RE\<close>.\<close>

definition import_line :: "ustr \<Rightarrow> ustr option" where
  "import_line line = Option.bind (expect (u ''import'') (ulstrip line)) (\<lambda>r. Option.bind (spaces r) import_spec)"

definition import_group_start :: "ustr \<Rightarrow> bool" where
  "import_group_start line =
     (case Option.bind (expect (u ''import'') (ulstrip line)) (\<lambda>r. expect (u ''('') (ulstrip r)) of
        None \<Rightarrow> False
      | Some r \<Rightarrow> line_end r)"

definition import_item :: "ustr \<Rightarrow> ustr option" where
  "import_item line = import_spec (ulstrip line)"

text \<open>\<open>_PACKAGE_RE\<close> at the start of a line: here \<open>\s\<close> may run over line ends.\<close>

definition package_at :: "ustr \<Rightarrow> bool" where
  "package_at s =
     (case Option.bind (expect (u ''package'') (ulstrip s)) spaces of
        None \<Rightarrow> False
      | Some t \<Rightarrow>
          t \<noteq> [] \<and> ident_start (hd t) \<and>
          (let r = dropWhile ident_char t in
           10 \<in> set (takeWhile uspace r) \<or> line_end r))"

fun package_search :: "bool \<Rightarrow> ustr \<Rightarrow> bool" where
  "package_search line_start [] = False"
| "package_search line_start (c # s) = (line_start \<and> package_at (c # s) \<or> package_search (c = 10) s)"

text \<open>One line of the loop of \<open>_import_candidates\<close>: whether a group is open, and the candidates so far.\<close>

definition check_imports :: "bool \<times> ustr list \<Rightarrow> (bool \<times> ustr list) res" where
  "check_imports st =
     bindE (guardE (length (snd st) \<le> MAX_IMPORT_CANDIDATES) (MetadataParseError ''too_many_imports'')) (\<lambda>_. Inr st)"

definition import_step :: "ustr \<Rightarrow> bool \<times> ustr list \<Rightarrow> (bool \<times> ustr list) res" where
  "import_step raw_line = (\<lambda>(in_group, candidates).
     let line = ustrip raw_line in
     if in_group then
       (if starts_with line (u '')'') then Inr (False, candidates)
        else if line = [] \<or> starts_with line (u ''//'') then Inr (in_group, candidates)
        else check_imports (in_group, candidates @ (case import_item raw_line of None \<Rightarrow> [] | Some p \<Rightarrow> [p])))
     else
       (if line = [] \<or> starts_with line (u ''//'') then Inr (in_group, candidates)
        else if import_group_start raw_line then Inr (True, candidates)
        else check_imports (in_group, candidates @ (case import_line raw_line of None \<Rightarrow> [] | Some p \<Rightarrow> [p]))))"

definition import_candidates :: "ustr \<Rightarrow> ustr list res" where
  "import_candidates text = bindE (foldE import_step (usplitlines text) (False, [])) (\<lambda>(_, candidates). Inr candidates)"

record source_summary =
  so_filename :: ustr
  so_byte_count :: nat
  so_line_count :: nat
  so_sha256 :: string
  so_package_declared :: bool
  so_import_candidate_count :: nat
  so_gno_land_import_count :: nat
  so_gno_land_imports :: "ustr list"

definition summarize_source_file :: "ustr \<Rightarrow> payload \<Rightarrow> source_summary res" where
  "summarize_source_file filename payload =
     bindE (guardE (safe_filename filename \<and> ends_with filename (u ''.gno'')) (MetadataParseError ''invalid_filename'')) (\<lambda>_.
     bindE (text_of MAX_SOURCE_BYTES payload) (\<lambda>text.
     let line_count = length (usplitlines text) in
     bindE (guardE (line_count \<le> MAX_SOURCE_LINES) (MetadataParseError ''too_many_lines'')) (\<lambda>_.
     bindE (import_candidates text) (\<lambda>candidates.
     let gno_imports = sort (remdups (filter (\<lambda>v. starts_with v (u ''gno.land/'')) candidates)) in
     Inr \<lparr>so_filename = filename, so_byte_count = utf8_size text, so_line_count = line_count,
          so_sha256 = hexdigest (sha256 (utf8_bytes text)), so_package_declared = package_search True text,
          so_import_candidate_count = length candidates, so_gno_land_import_count = length gno_imports,
          so_gno_land_imports = gno_imports\<rparr>))))"

section \<open>JSON documents\<close>

definition load_json :: "nat \<Rightarrow> payload \<Rightarrow> (ujson \<times> nat) res" where
  "load_json limit payload =
     bindE (text_of MAX_ABCI_RESPONSE_BYTES payload) (\<lambda>text.
     case json_loads limit (MetadataParseError ''invalid_json_constant'') text of
       Inr v \<Rightarrow> Inr (v, utf8_size text)
     | Inl (ValueError _) \<Rightarrow> Inl (MetadataParseError ''malformed_json'')
     | Inl e \<Rightarrow> Inl e)"

lemma size_uobj_value [termination_simp]: "(k, v) \<in> set kvs \<Longrightarrow> size v < Suc (size_list (size_prod (\<lambda>_. 0) size) kvs)"
  by (induction kvs) auto

text \<open>\<open>state\<close> is the number of nodes and the greatest depth seen so far.\<close>

definition check_scalar :: "ujson \<Rightarrow> unit res" where
  "check_scalar v =
     (case v of
        UStr s \<Rightarrow>
          bindE (guardE (0 \<notin> set s) (MetadataParseError ''nul_character'')) (\<lambda>_.
          guardE (length s \<le> MAX_STRING_LENGTH) (MetadataParseError ''string_too_long''))
      | UFloat f \<Rightarrow> guardE (case f of Fin _ \<Rightarrow> True | _ \<Rightarrow> False) (MetadataParseError ''non_finite_number'')
      | _ \<Rightarrow> Inr ())"

definition check_json_key :: "ustr \<Rightarrow> unit res" where
  "check_json_key k = guardE (0 \<notin> set k \<and> length k \<le> MAX_STRING_LENGTH) (MetadataParseError ''invalid_key'')"

definition enter_node :: "nat \<Rightarrow> nat \<times> nat \<Rightarrow> (nat \<times> nat) res" where
  "enter_node depth = (\<lambda>(nodes, max_depth).
     bindE (guardE (depth \<le> MAX_JSON_DEPTH) (MetadataParseError ''excessive_depth'')) (\<lambda>_.
     bindE (guardE (nodes + 1 \<le> MAX_JSON_NODES) (MetadataParseError ''excessive_nodes'')) (\<lambda>_.
     Inr (nodes + 1, max max_depth depth))))"

fun validate_json :: "nat \<Rightarrow> ujson \<Rightarrow> nat \<times> nat \<Rightarrow> (nat \<times> nat) res" where
  "validate_json depth (UList xs) st = bindE (enter_node depth st) (\<lambda>st1. foldE (\<lambda>x. validate_json (depth + 1) x) xs st1)"
| "validate_json depth (UObj kvs) st =
     bindE (enter_node depth st) (\<lambda>st1.
     foldE (\<lambda>kv st. bindE (check_json_key (fst kv)) (\<lambda>_. validate_json (depth + 1) (snd kv) st)) kvs st1)"
| "validate_json depth v st = bindE (enter_node depth st) (\<lambda>st1. bindE (check_scalar v) (\<lambda>_. Inr st1))"

text \<open>\<open>qfuncs\<close>: one signature at a time.\<close>

record funcs_acc =
  fa_names :: "ustr list"
  fa_with_params :: nat
  fa_with_results :: nat
  fa_duplicate :: bool

definition is_udict :: "ujson \<Rightarrow> bool" where
  "is_udict v = (case v of UObj _ \<Rightarrow> True | _ \<Rightarrow> False)"

definition check_signature_field :: "(ustr \<times> ujson) list \<Rightarrow> string \<Rightarrow> unit res" where
  "check_signature_field func field =
     (case uget func field of
        UNull \<Rightarrow> Inr ()
      | UList items \<Rightarrow> checkE (\<lambda>item. guardE (is_udict item) (MetadataParseError ''invalid_signature_item'')) items
      | _ \<Rightarrow> Inl (MetadataParseError ''invalid_signature''))"

definition nonempty_list :: "ujson \<Rightarrow> bool" where
  "nonempty_list v = (case v of UList (_ # _) \<Rightarrow> True | _ \<Rightarrow> False)"

definition add_func :: "(nat \<Rightarrow> bool) \<Rightarrow> ujson \<Rightarrow> funcs_acc \<Rightarrow> funcs_acc res" where
  "add_func printable func acc =
     (case func of
        UObj kvs \<Rightarrow>
          (case uget kvs ''FuncName'' of
             UStr name \<Rightarrow>
               bindE (guardE (1 \<le> length name \<and> length name \<le> MAX_FUNC_NAME_LENGTH \<and> list_all printable name)
                        (MetadataParseError ''invalid_function_name'')) (\<lambda>_.
               bindE (checkE (check_signature_field kvs) [''Params'', ''Results'']) (\<lambda>_.
               Inr \<lparr>fa_names = fa_names acc @ [name],
                    fa_with_params = fa_with_params acc + (if nonempty_list (uget kvs ''Params'') then 1 else 0),
                    fa_with_results = fa_with_results acc + (if nonempty_list (uget kvs ''Results'') then 1 else 0),
                    fa_duplicate = (fa_duplicate acc \<or> name \<in> set (fa_names acc))\<rparr>))
           | _ \<Rightarrow> Inl (MetadataParseError ''invalid_function_name''))
      | _ \<Rightarrow> Inl (MetadataParseError ''invalid_function''))"

definition parse_qfuncs :: "nat \<Rightarrow> (nat \<Rightarrow> bool) \<Rightarrow> payload \<Rightarrow> ujson res" where
  "parse_qfuncs limit printable payload =
     bindE (load_json limit payload) (\<lambda>(data, _).
     case data of
       UList funcs \<Rightarrow>
         bindE (guardE (length funcs \<le> MAX_FUNCS) (MetadataParseError ''too_many_functions'')) (\<lambda>_.
         bindE (validate_json 0 data (0, 0)) (\<lambda>_.
         bindE (foldE (add_func printable) funcs \<lparr>fa_names = [], fa_with_params = 0, fa_with_results = 0, fa_duplicate = False\<rparr>) (\<lambda>acc.
         Inr (uobj [(''function_count'', UInt (int (length funcs))), (''function_names'', UList (map UStr (take 50 (fa_names acc)))),
                    (''functions_with_params'', UInt (int (fa_with_params acc))),
                    (''functions_with_results'', UInt (int (fa_with_results acc))),
                    (''duplicate_names'', UBool (fa_duplicate acc))]))))
     | _ \<Rightarrow> Inl (MetadataParseError ''wrong_top_level''))"

definition first_present :: "(ustr \<times> ujson) list \<Rightarrow> string list \<Rightarrow> ujson \<Rightarrow> ujson" where
  "first_present data ks absent =
     (case filter (\<lambda>k. map_of data (u k) \<noteq> None) ks of [] \<Rightarrow> absent | k # _ \<Rightarrow> uget data k)"

definition doc_collection :: "(ustr \<times> ujson) list \<Rightarrow> string list \<Rightarrow> ujson list res" where
  "doc_collection data ks =
     (case first_present data ks (UList []) of
        UList items \<Rightarrow>
          bindE (guardE (length items \<le> MAX_QDOC_ITEMS \<and> list_all is_udict items) (MetadataParseError ''invalid_doc_collection'')) (\<lambda>_.
          Inr items)
      | _ \<Rightarrow> Inl (MetadataParseError ''invalid_doc_collection''))"

definition documented :: "ujson \<Rightarrow> bool" where
  "documented item =
     (case item of
        UObj kvs \<Rightarrow> (case uget kvs ''doc'' of UStr s \<Rightarrow> 0 < length s \<and> length s \<le> MAX_STRING_LENGTH | _ \<Rightarrow> False)
      | _ \<Rightarrow> False)"

definition parse_qdoc :: "nat \<Rightarrow> payload \<Rightarrow> ustr option \<Rightarrow> ujson res" where
  "parse_qdoc limit payload requested_path =
     bindE (load_json limit payload) (\<lambda>(data, byte_count).
     case data of
       UObj kvs \<Rightarrow>
         bindE (validate_json 0 data (0, 0)) (\<lambda>_.
         let package_path = first_present kvs [''package_path'', ''PackagePath'', ''Path''] UNull;
             package_doc = first_present kvs [''package_doc'', ''PackageDoc'', ''Doc'', ''doc''] (UStr []) in
         bindE (guardE (case requested_path of None \<Rightarrow> True | Some p \<Rightarrow> package_path = UNull \<or> package_path = UStr p)
                  (MetadataParseError ''path_mismatch'')) (\<lambda>_.
         bindE (guardE (case package_doc of UNull \<Rightarrow> True | UStr _ \<Rightarrow> True | _ \<Rightarrow> False) (MetadataParseError ''invalid_package_doc'')) (\<lambda>_.
         bindE (doc_collection kvs [''funcs'', ''Funcs'']) (\<lambda>funcs.
         bindE (doc_collection kvs [''values'', ''Values'']) (\<lambda>doc_values.
         bindE (doc_collection kvs [''types'', ''Types'']) (\<lambda>doc_types.
         Inr (uobj [(''available'', UBool True),
                    (''package_doc_present'', UBool (case package_doc of UStr s \<Rightarrow> s \<noteq> [] | _ \<Rightarrow> False)),
                    (''documented_function_count'', UInt (int (length (filter documented funcs)))),
                    (''value_count'', UInt (int (length doc_values))), (''type_count'', UInt (int (length doc_types))),
                    (''byte_count'', UInt (int byte_count))])))))))
     | _ \<Rightarrow> Inl (MetadataParseError ''wrong_top_level''))"

definition parse_qpkg_json :: "nat \<Rightarrow> payload \<Rightarrow> ujson res" where
  "parse_qpkg_json limit payload =
     bindE (load_json limit payload) (\<lambda>(data, byte_count).
     bindE (guardE (case data of UObj _ \<Rightarrow> True | UList _ \<Rightarrow> True | _ \<Rightarrow> False) (MetadataParseError ''wrong_top_level'')) (\<lambda>_.
     bindE (validate_json 0 data (0, 0)) (\<lambda>(nodes, max_depth).
     Inr (uobj [(''available'', UBool True),
                (''top_level_type'', UStr (case data of UObj _ \<Rightarrow> u ''dict'' | _ \<Rightarrow> u ''list'')),
                (''top_level_keys'', UList (case data of UObj kvs \<Rightarrow> map UStr (take 50 (sort (map fst kvs))) | _ \<Rightarrow> [])),
                (''byte_count'', UInt (int byte_count)), (''maximum_depth'', UInt (int max_depth)),
                (''node_count'', UInt (int nodes))]))))"

section \<open>Render and storage\<close>

record render_summary =
  rn_byte_count :: nat
  rn_line_count :: nat
  rn_non_empty :: bool
  rn_sha256 :: string

definition summarize_qrender :: "payload \<Rightarrow> render_summary res" where
  "summarize_qrender payload =
     bindE (text_of MAX_ABCI_RESPONSE_BYTES payload) (\<lambda>text.
     Inr \<lparr>rn_byte_count = utf8_size text, rn_line_count = length (usplitlines text), rn_non_empty = (ustrip text \<noteq> []),
          rn_sha256 = hexdigest (sha256 (utf8_bytes text))\<rparr>)"

text \<open>\<open>_STORAGE_RE\<close>: the two digit strings.\<close>

definition match_storage :: "ustr \<Rightarrow> (ustr \<times> ustr) option" where
  "match_storage text =
     Option.bind (expect (u ''storage: '') text) (\<lambda>s.
     let a = takeWhile ascii_digit s in
     Option.bind (expect (u '', deposit: '') (dropWhile ascii_digit s)) (\<lambda>b.
     if a \<noteq> [] \<and> b \<noteq> [] \<and> list_all ascii_digit b then Some (a, b) else None))"

definition storage_int :: "ustr \<Rightarrow> int" where
  "storage_int ds = int (nat_of_digits (map char_of ds))"

definition parse_qstorage :: "payload \<Rightarrow> (int \<times> int) res" where
  "parse_qstorage payload =
     bindE (text_of MAX_ABCI_RESPONSE_BYTES payload) (\<lambda>text.
     case match_storage text of
       None \<Rightarrow> Inl (MetadataParseError ''malformed_storage'')
     | Some (storage, deposit) \<Rightarrow>
         bindE (guardE (length storage \<le> MAX_STORAGE_DIGITS \<and> length deposit \<le> MAX_STORAGE_DIGITS) (MetadataParseError ''integer_too_large'')) (\<lambda>_.
         Inr (storage_int storage, storage_int deposit)))"

section \<open>What the JSON limits accept\<close>

text \<open>The number of values in a document, their greatest nesting, and texts that are bounded and free of NUL characters.\<close>

fun json_nodes :: "ujson \<Rightarrow> nat" where
  "json_nodes (UList xs) = 1 + sum_list (map json_nodes xs)"
| "json_nodes (UObj kvs) = 1 + sum_list (map (\<lambda>kv. json_nodes (snd kv)) kvs)"
| "json_nodes v = 1"

fun json_depth :: "ujson \<Rightarrow> nat" where
  "json_depth (UList xs) = foldr max (map (\<lambda>x. Suc (json_depth x)) xs) 0"
| "json_depth (UObj kvs) = foldr max (map (\<lambda>kv. Suc (json_depth (snd kv))) kvs) 0"
| "json_depth v = 0"

definition text_clean :: "ustr \<Rightarrow> bool" where
  "text_clean s \<longleftrightarrow> 0 \<notin> set s \<and> length s \<le> 16384"

fun json_clean :: "ujson \<Rightarrow> bool" where
  "json_clean (UStr s) = text_clean s"
| "json_clean (UFloat f) = (case f of Fin _ \<Rightarrow> True | _ \<Rightarrow> False)"
| "json_clean (UList xs) = list_all json_clean xs"
| "json_clean (UObj kvs) = list_all (\<lambda>kv. text_clean (fst kv) \<and> json_clean (snd kv)) kvs"
| "json_clean v = True"

definition within_limits :: "nat \<Rightarrow> ujson \<Rightarrow> nat \<times> nat \<Rightarrow> nat \<times> nat \<Rightarrow> bool" where
  "within_limits k v st st' \<longleftrightarrow> st' = (fst st + json_nodes v, max (snd st) (k + json_depth v)) \<and>
     k + json_depth v \<le> 24 \<and> fst st' \<le> 20000 \<and> json_clean v"

lemma enter_node_Inr: "enter_node k st = Inr st1 \<longleftrightarrow> st1 = (fst st + 1, max (snd st) k) \<and> k \<le> 24 \<and> fst st + 1 \<le> 20000"
  by (cases st) (auto simp: enter_node_def bindE_Inr_iff guardE_Inr_iff MAX_JSON_DEPTH_def MAX_JSON_NODES_def)

lemma check_scalar_Inr: "check_scalar v = Inr () \<longleftrightarrow> (case v of UStr s \<Rightarrow> text_clean s | UFloat (Fin _) \<Rightarrow> True | UFloat _ \<Rightarrow> False | _ \<Rightarrow> True)"
  by (auto simp: check_scalar_def bindE_Inr_iff guardE_Inr_iff text_clean_def MAX_STRING_LENGTH_def split: ujson.splits pyfloat.splits)

lemma check_key_Inr: "check_json_key k = Inr () \<longleftrightarrow> text_clean k"
  by (simp add: check_json_key_def guardE_Inr_iff text_clean_def MAX_STRING_LENGTH_def)

text \<open>The loop over the parts of a value, each with the accepting condition of \<open>within_limits\<close> below it.\<close>

lemma validate_parts:
  assumes "\<And>x st st'. x \<in> set xs \<Longrightarrow> f x st = Inr st' \<longleftrightarrow> P x \<and> within_limits (Suc k) (g x) st st'" and "fst st \<le> 20000" and "k \<le> 24"
  shows "foldE f xs st = Inr st' \<longleftrightarrow>
    st' = (fst st + sum_list (map (\<lambda>x. json_nodes (g x)) xs), max (snd st) (if xs = [] then 0 else k + foldr max (map (\<lambda>x. Suc (json_depth (g x))) xs) 0)) \<and>
    k + foldr max (map (\<lambda>x. Suc (json_depth (g x))) xs) 0 \<le> 24 \<and> fst st' \<le> 20000 \<and> (\<forall>x \<in> set xs. P x \<and> json_clean (g x))"
  using assms
proof (induction xs arbitrary: st)
  case Nil
  then show ?case by (cases st) auto
next
  case (Cons x xs)
  let ?D = "foldr max (map (\<lambda>x. Suc (json_depth (g x))) xs) 0"
  have step: "f x st = Inr st1 \<longleftrightarrow> P x \<and> within_limits (Suc k) (g x) st st1" for st1 by (rule Cons.prems) simp
  have rest: "foldE f xs st1 = Inr st' \<longleftrightarrow>
      st' = (fst st1 + sum_list (map (\<lambda>x. json_nodes (g x)) xs), max (snd st1) (if xs = [] then 0 else k + ?D)) \<and>
      k + ?D \<le> 24 \<and> fst st' \<le> 20000 \<and> (\<forall>x \<in> set xs. P x \<and> json_clean (g x))" if "fst st1 \<le> 20000" for st1
    by (rule Cons.IH) (use Cons.prems that in auto)
  show ?case
  proof (cases "P x \<and> within_limits (Suc k) (g x) st (fst st + json_nodes (g x), max (snd st) (Suc k + json_depth (g x)))")
    case True
    let ?st1 = "(fst st + json_nodes (g x), max (snd st) (Suc k + json_depth (g x)))"
    have f: "f x st = Inr ?st1" and b: "Suc k + json_depth (g x) \<le> 24" "fst ?st1 \<le> 20000" "P x \<and> json_clean (g x)"
      using True by (auto simp: step within_limits_def)
    have m: "max (snd ?st1) (if xs = [] then 0 else k + ?D) = max (snd st) (k + max (Suc (json_depth (g x))) ?D)" by (cases "xs = []") auto
    have "k + max (Suc (json_depth (g x))) ?D \<le> 24 \<longleftrightarrow> k + ?D \<le> 24" using b(1) by auto
    then show ?thesis using b f rest [of ?st1] unfolding m by (simp add: add.assoc)
  next
    case False
    then have "f x st \<noteq> Inr st1" for st1 by (auto simp: step within_limits_def)
    then show ?thesis using False by (cases "f x st") (auto simp: within_limits_def)
  qed
qed

lemma validate_json_iff: "validate_json k v st = Inr st' \<longleftrightarrow> within_limits k v st st'"
proof (induction k v st arbitrary: st' rule: validate_json.induct)
  case (1 k xs st)
  show ?case
  proof (cases "enter_node k st")
    case (Inr st1)
    then have st1: "st1 = (fst st + 1, max (snd st) k)" "k \<le> 24" "fst st1 \<le> 20000" by (auto simp: enter_node_Inr)
    have "validate_json (k + 1) x st2 = Inr st3 \<longleftrightarrow> True \<and> within_limits (Suc k) x st2 st3" if "x \<in> set xs" for x st2 st3
      using "1.IH" [OF Inr that, of st2 st3] by simp
    from validate_parts [where P = "\<lambda>_. True" and g = "\<lambda>x. x", OF this st1(3,2)] st1 show ?thesis
      by (auto simp: Inr within_limits_def list_all_iff max_def)
  next
    case (Inl e)
    then have "\<not> (k \<le> 24 \<and> fst st + 1 \<le> 20000)" using enter_node_Inr [of k st] by auto
    then show ?thesis by (auto simp: Inl within_limits_def)
  qed
next
  case (2 k kvs st)
  show ?case
  proof (cases "enter_node k st")
    case (Inr st1)
    then have st1: "st1 = (fst st + 1, max (snd st) k)" "k \<le> 24" "fst st1 \<le> 20000" by (auto simp: enter_node_Inr)
    have "bindE (check_json_key (fst kv)) (\<lambda>_. validate_json (k + 1) (snd kv) st2) = Inr st3 \<longleftrightarrow> text_clean (fst kv) \<and> within_limits (Suc k) (snd kv) st2 st3"
      if "kv \<in> set kvs" for kv st2 st3
      using "2.IH" [OF Inr that, of "()" st2 st3] by (auto simp: bindE_Inr_iff check_key_Inr)
    from validate_parts [where P = "\<lambda>kv. text_clean (fst kv)" and g = snd, OF this st1(3,2)] st1 show ?thesis
      by (auto simp: Inr within_limits_def list_all_iff max_def)
  next
    case (Inl e)
    then have "\<not> (k \<le> 24 \<and> fst st + 1 \<le> 20000)" using enter_node_Inr [of k st] by auto
    then show ?thesis by (auto simp: Inl within_limits_def)
  qed
qed (auto simp: bindE_Inr_iff enter_node_Inr check_scalar_Inr within_limits_def)

text \<open>The limits on JSON documents: the incremental check accepts a document exactly when it holds at most 20000 values, nests at
  most 24 deep and all its texts and keys are bounded and free of NUL characters; it reports the exact number and depth.\<close>

theorem json_limits_exact:
  "validate_json 0 v (0, 0) = Inr (n, d) \<longleftrightarrow> n = json_nodes v \<and> d = json_depth v \<and> n \<le> 20000 \<and> d \<le> 24 \<and> json_clean v"
  by (auto simp: validate_json_iff within_limits_def)

end
