(* ===== verification/Metadata_Snapshot.thy ===== *)
theory Metadata_Snapshot
  imports Realm_Metadata "HOL-Library.Product_Lexorder"
begin

text \<open>
  The first half of \<open>indexer/realm_metadata_persistence.py\<close>: the dataclasses, the fingerprint of a set of files, and the
  validation that turns a collected snapshot into the values to store. A \<open>datetime\<close> is its instant, with or without a
  time zone. The \<open>isinstance\<close> tests of the code are the types of the model, except where a field may be \<open>None\<close>.
\<close>

definition MAX_SNAPSHOT_BYTES :: nat where "MAX_SNAPSHOT_BYTES = 8388608"

definition CAPABILITY_STATUSES :: "string list" where
  "CAPABILITY_STATUSES = [''ok'', ''not_applicable'', ''application_error'', ''rpc_error'', ''invalid_response'']"

definition COLLECTION_STATUSES :: "string list" where
  "COLLECTION_STATUSES = [''complete'', ''partial'']"

section \<open>Data\<close>

record metadata_file =
  mf_filename :: ustr
  mf_content :: ustr

record json_capability =
  jc_status :: string
  jc_payload :: "payload option"

record render_capability =
  rc_status :: string
  rc_sha256 :: "string option"
  rc_byte_count :: "int option"
  rc_line_count :: "int option"
  rc_non_empty :: "bool option"

record storage_capability =
  sc_status :: string
  sc_storage_bytes :: "int option"
  sc_deposit_ugnot :: "int option"

datatype timestamp = Naive int | Aware int

record metadata_snapshot =
  ms_chain_id :: string
  ms_path :: ustr
  ms_path_kind :: string
  ms_observed_height :: int
  ms_collection_status :: string
  ms_expected_filenames :: "ustr list"
  ms_files :: "metadata_file list"
  ms_collected_at :: timestamp
  ms_source_rpc_endpoint_id :: "int option"
  ms_qdoc :: json_capability
  ms_qpkg_json :: json_capability
  ms_qfuncs :: json_capability
  ms_qrender :: render_capability
  ms_qstorage :: storage_capability

record prepared_json =
  pj_status :: string
  pj_summary :: "ujson option"
  pj_payload :: "ujson option"

record prepared_file =
  pf_filename :: ustr
  pf_content :: ustr
  pf_file_kind :: string
  pf_byte_count :: nat
  pf_line_count :: nat
  pf_sha256 :: string
  pf_package_declared :: bool
  pf_import_candidate_count :: nat
  pf_imports :: "(ustr \<times> string) list"

record prepared_snapshot =
  ps_snapshot :: metadata_snapshot
  ps_files :: "prepared_file list"
  ps_content_sha256 :: string
  ps_gno_file_count :: nat
  ps_test_file_count :: nat
  ps_has_gnomod :: bool
  ps_total_file_bytes :: nat
  ps_total_file_lines :: nat
  ps_dependency_count :: nat
  ps_qdoc :: prepared_json
  ps_qpkg_json :: prepared_json
  ps_qfuncs :: prepared_json

text \<open>What the interpreter brings: the nesting it allows to \<open>json.loads\<close> and its table of printable characters.\<close>

record py_runtime =
  pt_limit :: nat
  pt_printable :: "nat \<Rightarrow> bool"

section \<open>Fingerprint\<close>

definition file_bytes :: "metadata_file \<Rightarrow> bytes \<times> bytes" where
  "file_bytes f = (utf8_bytes (mf_filename f), utf8_bytes (mf_content f))"

definition framed :: "bytes \<times> bytes \<Rightarrow> bytes" where
  "framed = (\<lambda>(name, content). be_bytes 8 (length name) @ name @ be_bytes 8 (length content) @ content)"

definition fingerprint_input :: "metadata_file list \<Rightarrow> bytes" where
  "fingerprint_input files = concat (map framed (sort (map file_bytes files)))"

definition metadata_fingerprint :: "metadata_file list \<Rightarrow> string res" where
  "metadata_fingerprint files =
     bindE (guardE (list_all (\<lambda>f. list_all scalar (mf_filename f) \<and> list_all scalar (mf_content f)) files)
              (MetadataPersistenceError ''invalid_utf8'')) (\<lambda>_.
     Inr (hexdigest (sha256 (fingerprint_input files))))"

section \<open>Validation\<close>

text \<open>\<open>except MetadataParseError as exc: raise MetadataPersistenceError(code)\<close>.\<close>

definition rethrow :: "string \<Rightarrow> 'a res \<Rightarrow> 'a res" where
  "rethrow code r = (case r of Inl (MetadataParseError _) \<Rightarrow> Inl (MetadataPersistenceError code) | _ \<Rightarrow> r)"

abbreviation mp_guard :: "bool \<Rightarrow> string \<Rightarrow> unit res" where
  "mp_guard b code \<equiv> guardE b (MetadataPersistenceError code)"

text \<open>The parser of a JSON capability by its name.\<close>

definition parse_capability :: "py_runtime \<Rightarrow> string \<Rightarrow> ustr \<Rightarrow> payload \<Rightarrow> ujson res" where
  "parse_capability rt name requested_path payload =
     (if name = ''qdoc'' then parse_qdoc (pt_limit rt) payload (Some requested_path)
      else if name = ''qpkg_json'' then parse_qpkg_json (pt_limit rt) payload
      else parse_qfuncs (pt_limit rt) (pt_printable rt) payload)"

definition prepare_json_capability :: "py_runtime \<Rightarrow> string \<Rightarrow> json_capability \<Rightarrow> ustr \<Rightarrow> prepared_json res" where
  "prepare_json_capability rt name capability requested_path =
     bindE (mp_guard (jc_status capability \<in> set CAPABILITY_STATUSES) ''invalid_capability_status'') (\<lambda>_.
     if jc_status capability \<noteq> ''ok'' then
       bindE (mp_guard (jc_payload capability = None) ''failed_capability_has_payload'') (\<lambda>_.
       Inr \<lparr>pj_status = jc_status capability, pj_summary = None, pj_payload = None\<rparr>)
     else
       (case jc_payload capability of
          None \<Rightarrow> Inl (MetadataPersistenceError ''missing_success_payload'')
        | Some p \<Rightarrow>
            rethrow (''invalid_'' @ name)
              (bindE (parse_capability rt name requested_path p) (\<lambda>summary.
               bindE (load_json (pt_limit rt) p) (\<lambda>(payload, _).
               Inr \<lparr>pj_status = jc_status capability, pj_summary = Some summary, pj_payload = Some payload\<rparr>)))))"

text \<open>\<open>_PATH_RE\<close>: the kind of a path.\<close>

definition path_part :: "ustr \<Rightarrow> bool" where
  "path_part s \<longleftrightarrow> s \<noteq> [] \<and> list_all (\<lambda>c. (33 \<le> c \<and> c \<le> 46) \<or> (48 \<le> c \<and> c \<le> 126)) s"

definition path_kind_of :: "ustr \<Rightarrow> string option" where
  "path_kind_of path =
     (case usplit [47] [] path of
        h # k # seg # segs \<Rightarrow>
          if h = u ''gno.land'' \<and> (k = u ''r'' \<or> k = u ''p'') \<and> list_all path_part (seg # segs)
          then Some (if k = u ''r'' then ''realm'' else ''package'') else None
      | _ \<Rightarrow> None)"

definition canonical_import :: "ustr \<Rightarrow> (ustr \<times> string) option" where
  "canonical_import path =
     (case path_kind_of path of
        None \<Rightarrow> None
      | Some kind \<Rightarrow> if 63 \<in> set path \<or> 35 \<in> set path then None else Some (path, kind))"

definition validate_listing :: "metadata_snapshot \<Rightarrow> unit res" where
  "validate_listing snapshot =
     (let expected = ms_expected_filenames snapshot; fetched = map mf_filename (ms_files snapshot) in
      bindE (mp_guard (expected \<noteq> []) ''empty_listing'') (\<lambda>_.
      bindE (rethrow ''invalid_listing'' (parse_qfile_listing (Text (ujoin [10] expected)))) (\<lambda>listing.
      bindE (mp_guard (li_filenames listing = expected) ''invalid_listing'') (\<lambda>_.
      bindE (mp_guard (distinct fetched) ''duplicate_filename'') (\<lambda>_.
      mp_guard (set expected = set fetched)
        (if set expected - set fetched \<noteq> {} then ''missing_listed_file'' else ''extra_fetched_file''))))))"

definition is_lower_hex :: "char \<Rightarrow> bool" where
  "is_lower_hex c = (let n = of_char c :: nat in (48 \<le> n \<and> n \<le> 57) \<or> (97 \<le> n \<and> n \<le> 102))"

definition lower_sha :: "string \<Rightarrow> bool" where
  "lower_sha s \<longleftrightarrow> length s = 64 \<and> list_all is_lower_hex s"

definition int_within :: "int option \<Rightarrow> int \<Rightarrow> bool" where
  "int_within v maximum = (case v of None \<Rightarrow> False | Some i \<Rightarrow> 0 \<le> i \<and> i \<le> maximum)"

definition render_valid :: "render_capability \<Rightarrow> bool" where
  "render_valid r =
     (case (rc_sha256 r, rc_byte_count r, rc_line_count r, rc_non_empty r) of
        (Some sha, Some bytes, Some lines, Some non_empty) \<Rightarrow>
          lower_sha sha \<and> int_within (Some bytes) (int MAX_ABCI_RESPONSE_BYTES) \<and> int_within (Some lines) (int MAX_ABCI_RESPONSE_BYTES) \<and>
          lines \<le> bytes + 1 \<and> (bytes \<noteq> 0 \<or> (lines = 0 \<and> \<not> non_empty)) \<and> (non_empty \<longrightarrow> 0 < bytes)
      | _ \<Rightarrow> False)"

definition validate_render_capability :: "render_capability \<Rightarrow> unit res" where
  "validate_render_capability r =
     bindE (mp_guard (rc_status r \<in> set CAPABILITY_STATUSES) ''invalid_capability_status'') (\<lambda>_.
     if rc_status r \<noteq> ''ok'' then
       mp_guard (rc_sha256 r = None \<and> rc_byte_count r = None \<and> rc_line_count r = None \<and> rc_non_empty r = None) ''failed_qrender_has_summary''
     else mp_guard (render_valid r) ''invalid_qrender'')"

definition validate_storage :: "storage_capability \<Rightarrow> unit res" where
  "validate_storage s =
     bindE (mp_guard (sc_status s \<in> set CAPABILITY_STATUSES) ''invalid_capability_status'') (\<lambda>_.
     if sc_status s \<noteq> ''ok'' then
       mp_guard (sc_storage_bytes s = None \<and> sc_deposit_ugnot s = None) ''failed_qstorage_has_summary''
     else mp_guard (int_within (sc_storage_bytes s) (10 ^ 40 - 1) \<and> int_within (sc_deposit_ugnot s) (10 ^ 40 - 1)) ''invalid_qstorage'')"

definition chain_re :: "string \<Rightarrow> bool" where
  "chain_re s \<longleftrightarrow> 1 \<le> length s \<and> length s \<le> 128 \<and> list_all (\<lambda>c. 33 \<le> (of_char c :: nat) \<and> (of_char c :: nat) \<le> 126) s"

definition aware :: "timestamp \<Rightarrow> bool" where
  "aware t = (case t of Aware _ \<Rightarrow> True | Naive _ \<Rightarrow> False)"

section \<open>Preparation\<close>

definition file_kind :: "ustr \<Rightarrow> string" where
  "file_kind name =
     (if ends_with name (u ''_test.gno'') then ''gno_test''
      else if ends_with name (u ''.gno'') then ''gno_source''
      else if name = u ''gnomod.toml'' then ''gnomod'' else ''other'')"

text \<open>What a \<open>.gno\<close> file declares and imports.\<close>

definition source_part :: "metadata_file \<Rightarrow> (bool \<times> nat \<times> (ustr \<times> string) list) res" where
  "source_part f =
     (if ends_with (mf_filename f) (u ''.gno'') then
        bindE (rethrow ''invalid_source'' (summarize_source_file (mf_filename f) (Text (mf_content f)))) (\<lambda>s.
        Inr (so_package_declared s, so_import_candidate_count s, sort (List.map_filter canonical_import (so_gno_land_imports s))))
      else Inr (False, 0, []))"

definition prepare_file :: "metadata_file \<Rightarrow> prepared_file list \<times> nat \<Rightarrow> (prepared_file list \<times> nat) res" where
  "prepare_file f = (\<lambda>(prepared, total_bytes).
     let line_count = length (usplitlines (mf_content f)); size = utf8_size (mf_content f) in
     bindE (mp_guard (safe_filename (mf_filename f)) ''invalid_filename'') (\<lambda>_.
     bindE (mp_guard (list_all scalar (mf_content f)) ''invalid_utf8'') (\<lambda>_.
     bindE (mp_guard (0 \<notin> set (mf_content f)) ''nul_file_content'') (\<lambda>_.
     bindE (mp_guard (size \<le> MAX_SOURCE_BYTES) ''file_too_large'') (\<lambda>_.
     bindE (mp_guard (line_count \<le> MAX_SOURCE_LINES) ''too_many_lines'') (\<lambda>_.
     bindE (mp_guard (total_bytes + size \<le> MAX_SNAPSHOT_BYTES) ''snapshot_too_large'') (\<lambda>_.
     bindE (source_part f) (\<lambda>(package_declared, candidate_count, imports).
     Inr (prepared @ [\<lparr>pf_filename = mf_filename f, pf_content = mf_content f, pf_file_kind = file_kind (mf_filename f),
            pf_byte_count = size, pf_line_count = line_count, pf_sha256 = hexdigest (sha256 (utf8_bytes (mf_content f))),
            pf_package_declared = package_declared, pf_import_candidate_count = candidate_count, pf_imports = imports\<rparr>],
          total_bytes + size)))))))))"

text \<open>The checks before the files.\<close>

definition validate_head :: "metadata_snapshot \<Rightarrow> unit res" where
  "validate_head s =
     bindE (mp_guard (chain_re (ms_chain_id s)) ''invalid_chain_id'') (\<lambda>_.
     bindE (mp_guard (path_kind_of (ms_path s) = Some (ms_path_kind s) \<and> 63 \<notin> set (ms_path s) \<and> 35 \<notin> set (ms_path s)) ''invalid_path'') (\<lambda>_.
     bindE (mp_guard (1 \<le> ms_observed_height s) ''invalid_observed_height'') (\<lambda>_.
     bindE (mp_guard (ms_collection_status s \<in> set COLLECTION_STATUSES) ''invalid_collection_status'') (\<lambda>_.
     bindE (mp_guard (aware (ms_collected_at s)) ''invalid_collected_at'') (\<lambda>_.
     bindE (mp_guard (case ms_source_rpc_endpoint_id s of None \<Rightarrow> True | Some i \<Rightarrow> 1 \<le> i) ''invalid_source_rpc_endpoint_id'') (\<lambda>_.
     validate_listing s))))))"

definition prepare_metadata_snapshot :: "py_runtime \<Rightarrow> metadata_snapshot \<Rightarrow> prepared_snapshot res" where
  "prepare_metadata_snapshot rt s =
     bindE (validate_head s) (\<lambda>_.
     bindE (prepare_json_capability rt ''qdoc'' (ms_qdoc s) (ms_path s)) (\<lambda>qdoc.
     bindE (prepare_json_capability rt ''qpkg_json'' (ms_qpkg_json s) (ms_path s)) (\<lambda>qpkg.
     bindE (prepare_json_capability rt ''qfuncs'' (ms_qfuncs s) (ms_path s)) (\<lambda>qfuncs.
     bindE (validate_render_capability (ms_qrender s)) (\<lambda>_.
     bindE (validate_storage (ms_qstorage s)) (\<lambda>_.
     bindE (mp_guard (ms_path_kind s = ''package'' \<longrightarrow> rc_status (ms_qrender s) = ''not_applicable'' \<and> sc_status (ms_qstorage s) = ''not_applicable'')
              ''package_realm_capability'') (\<lambda>_.
     bindE (foldE prepare_file (ms_files s) ([], 0)) (\<lambda>(prepared, total_bytes).
     bindE (metadata_fingerprint (ms_files s)) (\<lambda>sha.
     Inr \<lparr>ps_snapshot = s, ps_files = prepared, ps_content_sha256 = sha,
          ps_gno_file_count = length (filter (\<lambda>f. pf_file_kind f \<in> {''gno_source'', ''gno_test''}) prepared),
          ps_test_file_count = length (filter (\<lambda>f. pf_file_kind f = ''gno_test'') prepared),
          ps_has_gnomod = list_ex (\<lambda>f. pf_file_kind f = ''gnomod'') prepared,
          ps_total_file_bytes = total_bytes, ps_total_file_lines = sum_list (map pf_line_count prepared),
          ps_dependency_count = length (remdups (map fst (concat (map pf_imports prepared)))),
          ps_qdoc = qdoc, ps_qpkg_json = qpkg, ps_qfuncs = qfuncs\<rparr>)))))))))"

end
