(* ===== verification/Metadata_Store.thy ===== *)
theory Metadata_Store
  imports Metadata_Snapshot
begin

text \<open>
  The second half of \<open>indexer/realm_metadata_persistence.py\<close>: publication of a prepared snapshot and the state of a refresh run,
  over the four metadata tables of \<open>database/schema.sql\<close> with their constraints. \<open>md_jsonb\<close> is what a \<open>jsonb\<close> column holds for a
  written value (\<open>None\<close>: the server refuses it, as for a lone surrogate), \<open>md_cntrl\<close> the class \<open>[[:cntrl:]]\<close> of its locale.
  Columns set to \<open>now()\<close> are left out. Rows are locked by \<open>FOR UPDATE\<close>, so that no other writer comes between the statements.
\<close>

record md_server =
  md_jsonb :: "ujson \<Rightarrow> ujson option"
  md_cntrl :: "nat \<Rightarrow> bool"

section \<open>Tables\<close>

record json_columns =
  jq_status :: string
  jq_summary :: "ujson option"
  jq_payload :: "ujson option"
  jq_last :: "int option"

record render_columns =
  rq_status :: string
  rq_sha256 :: "string option"
  rq_byte_count :: "int option"
  rq_line_count :: "int option"
  rq_non_empty :: "bool option"
  rq_last :: "int option"

record storage_columns =
  sq_status :: string
  sq_bytes :: "int option"
  sq_deposit :: "int option"
  sq_last :: "int option"

record metadata_row =
  mr_path_kind :: string
  mr_observed_height :: int
  mr_collection_status :: string
  mr_content_sha256 :: string
  mr_file_count :: int
  mr_gno_file_count :: int
  mr_test_file_count :: int
  mr_has_gnomod :: bool
  mr_total_file_bytes :: int
  mr_total_file_lines :: int
  mr_dependency_count :: int
  mr_source_rpc_endpoint_id :: "int option"
  mr_qdoc :: json_columns
  mr_qpkg_json :: json_columns
  mr_qfuncs :: json_columns
  mr_qrender :: render_columns
  mr_qstorage :: storage_columns
  mr_collected_at :: int

record file_row =
  fr_filename :: ustr
  fr_file_kind :: string
  fr_content :: ustr
  fr_byte_count :: int
  fr_line_count :: int
  fr_sha256 :: string
  fr_package_declared :: bool
  fr_import_candidate_count :: int

record import_row =
  ir_source_filename :: ustr
  ir_imported_path :: ustr
  ir_imported_kind :: string

record refresh_row =
  fw_observed_height :: int
  fw_run_status :: string
  fw_selected :: int
  fw_published :: int
  fw_failed :: int
  fw_started_at :: int
  fw_completed_at :: "int option"
  fw_last_successful_height :: "int option"
  fw_last_successful_at :: "int option"

type_synonym md_key = "string \<times> ustr"

text \<open>The rows of a path in each table; \<open>realm_catalog\<close> and \<open>rpc_endpoints\<close> only as far as foreign keys and the parent check read them.\<close>

record metadata_db =
  dm_catalog :: "md_key \<Rightarrow> string option"
  dm_endpoint_ids :: "int list"
  dm_rows :: "md_key \<Rightarrow> metadata_row option"
  dm_files :: "md_key \<Rightarrow> file_row list"
  dm_imports :: "md_key \<Rightarrow> import_row list"
  dm_refresh :: "string \<Rightarrow> refresh_row option"

section \<open>Constraints\<close>

definition is_object :: "ujson \<Rightarrow> bool" where
  "is_object v = (case v of UObj _ \<Rightarrow> True | _ \<Rightarrow> False)"

definition is_array :: "ujson \<Rightarrow> bool" where
  "is_array v = (case v of UList _ \<Rightarrow> True | _ \<Rightarrow> False)"

definition opt_all :: "('a \<Rightarrow> bool) \<Rightarrow> 'a option \<Rightarrow> bool" where
  "opt_all P v = (case v of None \<Rightarrow> True | Some x \<Rightarrow> P x)"

text \<open>The status of a capability against the height of its last success.\<close>

definition check_last :: "int \<Rightarrow> string \<Rightarrow> int option \<Rightarrow> bool" where
  "check_last height status last_height \<longleftrightarrow> opt_all (\<lambda>h. 0 < h) last_height \<and>
     ((status = ''ok'' \<and> last_height = Some height) \<or> (status \<noteq> ''ok'' \<and> opt_all (\<lambda>h. h \<le> height) last_height))"

definition check_json_columns :: "int \<Rightarrow> (ujson \<Rightarrow> bool) \<Rightarrow> json_columns \<Rightarrow> bool" where
  "check_json_columns height payload_type c \<longleftrightarrow> jq_status c \<in> set CAPABILITY_STATUSES \<and>
     opt_all is_object (jq_summary c) \<and> opt_all payload_type (jq_payload c) \<and>
     (jq_summary c = None) = (jq_last c = None) \<and> (jq_payload c = None) = (jq_last c = None) \<and>
     check_last height (jq_status c) (jq_last c)"

definition check_render_columns :: "int \<Rightarrow> render_columns \<Rightarrow> bool" where
  "check_render_columns height c \<longleftrightarrow> rq_status c \<in> set CAPABILITY_STATUSES \<and> check_last height (rq_status c) (rq_last c) \<and>
     ((rq_sha256 c = None \<and> rq_byte_count c = None \<and> rq_line_count c = None \<and> rq_non_empty c = None \<and> rq_last c = None) \<or>
      ((case rq_sha256 c of None \<Rightarrow> False | Some s \<Rightarrow> lower_sha s) \<and> int_within (rq_byte_count c) 1048576 \<and>
       int_within (rq_line_count c) 1048576 \<and> rq_non_empty c \<noteq> None \<and> rq_last c \<noteq> None))"

definition check_storage_columns :: "int \<Rightarrow> storage_columns \<Rightarrow> bool" where
  "check_storage_columns height c \<longleftrightarrow> sq_status c \<in> set CAPABILITY_STATUSES \<and> check_last height (sq_status c) (sq_last c) \<and>
     ((sq_bytes c = None \<and> sq_deposit c = None \<and> sq_last c = None) \<or>
      (int_within (sq_bytes c) (10 ^ 40 - 1) \<and> int_within (sq_deposit c) (10 ^ 40 - 1) \<and> sq_last c \<noteq> None))"

definition check_path :: "ustr \<Rightarrow> string \<Rightarrow> bool" where
  "check_path path kind \<longleftrightarrow> 1 \<le> length path \<and> length path \<le> 256 \<and> path_kind_of path = Some kind \<and> 63 \<notin> set path \<and> 35 \<notin> set path"

definition check_metadata_row :: "md_key \<Rightarrow> metadata_row \<Rightarrow> bool" where
  "check_metadata_row key r \<longleftrightarrow>
     1 \<le> length (fst key) \<and> length (fst key) \<le> 128 \<and> check_path (snd key) (mr_path_kind r) \<and> 0 < mr_observed_height r \<and>
     mr_collection_status r \<in> set COLLECTION_STATUSES \<and> lower_sha (mr_content_sha256 r) \<and>
     1 \<le> mr_file_count r \<and> mr_file_count r \<le> 256 \<and> 0 \<le> mr_gno_file_count r \<and> mr_gno_file_count r \<le> mr_file_count r \<and>
     0 \<le> mr_test_file_count r \<and> mr_test_file_count r \<le> mr_gno_file_count r \<and>
     0 \<le> mr_total_file_bytes r \<and> mr_total_file_bytes r \<le> 8388608 \<and> 0 \<le> mr_total_file_lines r \<and> mr_total_file_lines r \<le> 25600000 \<and>
     0 \<le> mr_dependency_count r \<and> mr_dependency_count r \<le> 256000 \<and>
     check_json_columns (mr_observed_height r) is_object (mr_qdoc r) \<and>
     check_json_columns (mr_observed_height r) (\<lambda>v. is_object v \<or> is_array v) (mr_qpkg_json r) \<and>
     check_json_columns (mr_observed_height r) is_array (mr_qfuncs r) \<and>
     check_render_columns (mr_observed_height r) (mr_qrender r) \<and> check_storage_columns (mr_observed_height r) (mr_qstorage r) \<and>
     (mr_path_kind r = ''package'' \<longrightarrow> rq_status (mr_qrender r) = ''not_applicable'' \<and> rq_last (mr_qrender r) = None \<and>
        sq_status (mr_qstorage r) = ''not_applicable'' \<and> sq_last (mr_qstorage r) = None)"

definition check_file_row :: "md_server \<Rightarrow> file_row \<Rightarrow> bool" where
  "check_file_row srv r \<longleftrightarrow>
     1 \<le> length (fr_filename r) \<and> length (fr_filename r) \<le> 160 \<and> \<not> starts_with (fr_filename r) [47] \<and> \<not> drive_prefix (fr_filename r) \<and>
     92 \<notin> set (fr_filename r) \<and> \<not> list_ex (md_cntrl srv) (fr_filename r) \<and>
     list_all (\<lambda>part. part \<noteq> [] \<and> part \<noteq> u ''.'' \<and> part \<noteq> u ''..'') (usplit [47] [] (fr_filename r)) \<and>
     fr_file_kind r \<in> {''gno_source'', ''gno_test'', ''gnomod'', ''other''} \<and> 0 \<le> fr_byte_count r \<and> fr_byte_count r \<le> 1048576 \<and>
     int (utf8_size (fr_content r)) = fr_byte_count r \<and> 0 \<le> fr_line_count r \<and> fr_line_count r \<le> 100000 \<and>
     lower_sha (fr_sha256 r) \<and> 0 \<le> fr_import_candidate_count r \<and> fr_import_candidate_count r \<le> 1000"

definition check_import_row :: "import_row \<Rightarrow> bool" where
  "check_import_row r \<longleftrightarrow> ir_imported_kind r \<in> {''realm'', ''package''} \<and> check_path (ir_imported_path r) (ir_imported_kind r)"

definition check_refresh_row :: "string \<Rightarrow> refresh_row \<Rightarrow> bool" where
  "check_refresh_row chain r \<longleftrightarrow>
     1 \<le> length chain \<and> length chain \<le> 128 \<and> 0 < fw_observed_height r \<and> fw_run_status r \<in> {''running'', ''complete'', ''partial'', ''failed''} \<and>
     0 \<le> fw_selected r \<and> 0 \<le> fw_published r \<and> 0 \<le> fw_failed r \<and> fw_published r + fw_failed r \<le> fw_selected r \<and>
     (fw_run_status r = ''running'') = (fw_completed_at r = None) \<and> opt_all (\<lambda>t. fw_started_at r \<le> t) (fw_completed_at r) \<and>
     (fw_last_successful_height r = None) = (fw_last_successful_at r = None) \<and>
     opt_all (\<lambda>h. 0 < h \<and> h \<le> fw_observed_height r) (fw_last_successful_height r)"

section \<open>Statements\<close>

definition bind_json :: "md_server \<Rightarrow> ujson option \<Rightarrow> ujson option res" where
  "bind_json srv v =
     (case v of
        None \<Rightarrow> Inr None
      | Some j \<Rightarrow> (case md_jsonb srv j of None \<Rightarrow> Inl DataError | Some w \<Rightarrow> Inr (Some w)))"

definition bind_json_columns :: "md_server \<Rightarrow> json_columns \<Rightarrow> json_columns res" where
  "bind_json_columns srv c =
     bindE (bind_json srv (jq_summary c)) (\<lambda>summary.
     bindE (bind_json srv (jq_payload c)) (\<lambda>payload.
     Inr (c\<lparr>jq_summary := summary, jq_payload := payload\<rparr>)))"

definition bind_metadata_row :: "md_server \<Rightarrow> metadata_row \<Rightarrow> metadata_row res" where
  "bind_metadata_row srv r =
     bindE (guardE (mr_observed_height r < 2 ^ 63 \<and> opt_all (\<lambda>i. i < 2 ^ 63) (mr_source_rpc_endpoint_id r)) DataError) (\<lambda>_.
     bindE (bind_json_columns srv (mr_qdoc r)) (\<lambda>qdoc.
     bindE (bind_json_columns srv (mr_qpkg_json r)) (\<lambda>qpkg.
     bindE (bind_json_columns srv (mr_qfuncs r)) (\<lambda>qfuncs.
     Inr (r\<lparr>mr_qdoc := qdoc, mr_qpkg_json := qpkg, mr_qfuncs := qfuncs\<rparr>)))))"

definition upsert_metadata_row :: "md_server \<Rightarrow> md_key \<Rightarrow> metadata_row \<Rightarrow> metadata_db \<Rightarrow> metadata_db res" where
  "upsert_metadata_row srv key r d =
     bindE (bind_metadata_row srv r) (\<lambda>row.
     bindE (guardE (check_metadata_row key row) (IntegrityError ''realm_metadata'')) (\<lambda>_.
     bindE (guardE (dm_catalog d key \<noteq> None) (IntegrityError ''realm_metadata_chain_id_path_fkey'')) (\<lambda>_.
     bindE (guardE (opt_all (\<lambda>i. i \<in> set (dm_endpoint_ids d)) (mr_source_rpc_endpoint_id row))
              (IntegrityError ''realm_metadata_source_rpc_endpoint_id_fkey'')) (\<lambda>_.
     Inr (d\<lparr>dm_rows := (dm_rows d)(key := Some row)\<rparr>)))))"

definition delete_files :: "md_key \<Rightarrow> metadata_db \<Rightarrow> metadata_db" where
  "delete_files key d = d\<lparr>dm_files := (dm_files d)(key := []), dm_imports := (dm_imports d)(key := [])\<rparr>"

definition insert_file :: "md_server \<Rightarrow> md_key \<Rightarrow> file_row \<Rightarrow> metadata_db \<Rightarrow> metadata_db res" where
  "insert_file srv key r d =
     bindE (guardE (0 \<notin> set (fr_filename r) \<and> 0 \<notin> set (fr_content r)) DataError) (\<lambda>_.
     bindE (guardE (check_file_row srv r) (IntegrityError ''realm_metadata_files'')) (\<lambda>_.
     bindE (guardE (fr_filename r \<notin> set (map fr_filename (dm_files d key))) (IntegrityError ''realm_metadata_files_pkey'')) (\<lambda>_.
     bindE (guardE (dm_rows d key \<noteq> None) (IntegrityError ''realm_metadata_files_chain_id_path_fkey'')) (\<lambda>_.
     Inr (d\<lparr>dm_files := (dm_files d)(key := dm_files d key @ [r])\<rparr>)))))"

definition insert_import :: "md_key \<Rightarrow> import_row \<Rightarrow> metadata_db \<Rightarrow> metadata_db res" where
  "insert_import key r d =
     bindE (guardE (check_import_row r) (IntegrityError ''realm_metadata_imports'')) (\<lambda>_.
     bindE (guardE ((ir_source_filename r, ir_imported_path r) \<notin> set (map (\<lambda>i. (ir_source_filename i, ir_imported_path i)) (dm_imports d key)))
              (IntegrityError ''realm_metadata_imports_pkey'')) (\<lambda>_.
     bindE (guardE (ir_source_filename r \<in> set (map fr_filename (dm_files d key)))
              (IntegrityError ''realm_metadata_imports_chain_id_path_source_filename_fkey'')) (\<lambda>_.
     Inr (d\<lparr>dm_imports := (dm_imports d)(key := dm_imports d key @ [r])\<rparr>))))"

section \<open>Publication\<close>

definition json_success_values :: "prepared_json \<Rightarrow> json_columns option \<Rightarrow> int \<Rightarrow> ujson option \<times> ujson option \<times> int option" where
  "json_success_values prepared current height =
     (if pj_status prepared = ''ok'' then (pj_summary prepared, pj_payload prepared, Some height)
      else case current of None \<Rightarrow> (None, None, None) | Some c \<Rightarrow> (jq_summary c, jq_payload c, jq_last c))"

text \<open>\<open>json.dumps(value, allow_nan=False)\<close>: the written text denotes the value.\<close>

fun json_finite :: "ujson \<Rightarrow> bool" where
  "json_finite (UFloat f) = (case f of Fin _ \<Rightarrow> True | _ \<Rightarrow> False)"
| "json_finite (UList xs) = list_all json_finite xs"
| "json_finite (UObj kvs) = list_all (\<lambda>kv. json_finite (snd kv)) kvs"
| "json_finite v = True"

definition json_parameter :: "ujson option \<Rightarrow> ujson option res" where
  "json_parameter v =
     (case v of None \<Rightarrow> Inr None | Some j \<Rightarrow> if json_finite j then Inr (Some j) else Inl (ValueError ''Out of range float values are not JSON compliant''))"

definition json_values :: "prepared_json \<Rightarrow> json_columns option \<Rightarrow> int \<Rightarrow> json_columns res" where
  "json_values prepared current height =
     (let (summary, payload, last_height) = json_success_values prepared current height in
      bindE (json_parameter summary) (\<lambda>s.
      bindE (json_parameter payload) (\<lambda>p.
      Inr \<lparr>jq_status = pj_status prepared, jq_summary = s, jq_payload = p, jq_last = last_height\<rparr>)))"

definition render_values :: "render_capability \<Rightarrow> render_columns option \<Rightarrow> int \<Rightarrow> render_columns" where
  "render_values r current height =
     (if rc_status r = ''ok''
      then \<lparr>rq_status = rc_status r, rq_sha256 = rc_sha256 r, rq_byte_count = rc_byte_count r, rq_line_count = rc_line_count r,
            rq_non_empty = rc_non_empty r, rq_last = Some height\<rparr>
      else case current of
             None \<Rightarrow> \<lparr>rq_status = rc_status r, rq_sha256 = None, rq_byte_count = None, rq_line_count = None, rq_non_empty = None, rq_last = None\<rparr>
           | Some c \<Rightarrow> c\<lparr>rq_status := rc_status r\<rparr>)"

definition storage_values :: "storage_capability \<Rightarrow> storage_columns option \<Rightarrow> int \<Rightarrow> storage_columns" where
  "storage_values s current height =
     (if sc_status s = ''ok''
      then \<lparr>sq_status = sc_status s, sq_bytes = sc_storage_bytes s, sq_deposit = sc_deposit_ugnot s, sq_last = Some height\<rparr>
      else case current of
             None \<Rightarrow> \<lparr>sq_status = sc_status s, sq_bytes = None, sq_deposit = None, sq_last = None\<rparr>
           | Some c \<Rightarrow> c\<lparr>sq_status := sc_status s\<rparr>)"

definition instant :: "timestamp \<Rightarrow> int" where
  "instant t = (case t of Naive i \<Rightarrow> i | Aware i \<Rightarrow> i)"

definition new_metadata_row :: "prepared_snapshot \<Rightarrow> metadata_row option \<Rightarrow> metadata_row res" where
  "new_metadata_row p current =
     (let s = ps_snapshot p; height = ms_observed_height s in
      bindE (json_values (ps_qdoc p) (map_option mr_qdoc current) height) (\<lambda>qdoc.
      bindE (json_values (ps_qpkg_json p) (map_option mr_qpkg_json current) height) (\<lambda>qpkg.
      bindE (json_values (ps_qfuncs p) (map_option mr_qfuncs current) height) (\<lambda>qfuncs.
      Inr \<lparr>mr_path_kind = ms_path_kind s, mr_observed_height = height, mr_collection_status = ms_collection_status s,
           mr_content_sha256 = ps_content_sha256 p, mr_file_count = int (length (ps_files p)), mr_gno_file_count = int (ps_gno_file_count p),
           mr_test_file_count = int (ps_test_file_count p), mr_has_gnomod = ps_has_gnomod p, mr_total_file_bytes = int (ps_total_file_bytes p),
           mr_total_file_lines = int (ps_total_file_lines p), mr_dependency_count = int (ps_dependency_count p),
           mr_source_rpc_endpoint_id = ms_source_rpc_endpoint_id s, mr_qdoc = qdoc, mr_qpkg_json = qpkg, mr_qfuncs = qfuncs,
           mr_qrender = render_values (ms_qrender s) (map_option mr_qrender current) height,
           mr_qstorage = storage_values (ms_qstorage s) (map_option mr_qstorage current) height,
           mr_collected_at = instant (ms_collected_at s)\<rparr>))))"

definition row_of_file :: "prepared_file \<Rightarrow> file_row" where
  "row_of_file f =
     \<lparr>fr_filename = pf_filename f, fr_file_kind = pf_file_kind f, fr_content = pf_content f, fr_byte_count = int (pf_byte_count f),
      fr_line_count = int (pf_line_count f), fr_sha256 = pf_sha256 f, fr_package_declared = pf_package_declared f,
      fr_import_candidate_count = int (pf_import_candidate_count f)\<rparr>"

definition import_rows :: "prepared_file \<Rightarrow> import_row list" where
  "import_rows f = map (\<lambda>(path, kind). \<lparr>ir_source_filename = pf_filename f, ir_imported_path = path, ir_imported_kind = kind\<rparr>) (pf_imports f)"

definition write_file :: "md_server \<Rightarrow> md_key \<Rightarrow> prepared_file \<Rightarrow> metadata_db \<Rightarrow> metadata_db res" where
  "write_file srv key f d = bindE (insert_file srv key (row_of_file f) d) (foldE (insert_import key) (import_rows f))"

definition is_stale :: "metadata_row \<Rightarrow> metadata_snapshot \<Rightarrow> bool" where
  "is_stale current s \<longleftrightarrow> ms_observed_height s < mr_observed_height current \<or>
     (mr_observed_height current = ms_observed_height s \<and> instant (ms_collected_at s) < mr_collected_at current)"

definition publish_metadata_snapshot_cursor ::
  "py_runtime \<Rightarrow> md_server \<Rightarrow> metadata_snapshot \<Rightarrow> metadata_db \<Rightarrow> (prepared_snapshot \<times> metadata_db) res" where
  "publish_metadata_snapshot_cursor rt srv s d =
     (let key = (ms_chain_id s, ms_path s); current = dm_rows d key in
      bindE (prepare_metadata_snapshot rt s) (\<lambda>p.
      bindE (mp_guard (dm_catalog d key \<noteq> None) ''metadata_parent_not_found'') (\<lambda>_.
      bindE (mp_guard (dm_catalog d key = Some (ms_path_kind s)) ''metadata_parent_kind_mismatch'') (\<lambda>_.
      bindE (guardE (case current of None \<Rightarrow> True | Some c \<Rightarrow> \<not> is_stale c s) (StaleMetadataSnapshot ''stale_metadata_snapshot'')) (\<lambda>_.
      bindE (new_metadata_row p current) (\<lambda>row.
      bindE (upsert_metadata_row srv key row d) (\<lambda>d1.
      if map_option mr_content_sha256 current = Some (ps_content_sha256 p) then Inr (p, d1)
      else bindE (foldE (write_file srv key) (ps_files p) (delete_files key d1)) (\<lambda>d2. Inr (p, d2)))))))))"

section \<open>State of a refresh run\<close>

record refresh_state =
  rf_chain_id :: string
  rf_observed_height :: int
  rf_run_status :: string
  rf_selected :: int
  rf_published :: int
  rf_failed :: int
  rf_started_at :: timestamp
  rf_completed_at :: "timestamp option"
  rf_last_successful_height :: "int option"
  rf_last_successful_at :: "timestamp option"

definition refresh_valid :: "refresh_state \<Rightarrow> bool" where
  "refresh_valid s \<longleftrightarrow>
     chain_re (rf_chain_id s) \<and> 1 \<le> rf_observed_height s \<and> rf_run_status s \<in> {''running'', ''complete'', ''partial'', ''failed''} \<and>
     0 \<le> rf_selected s \<and> 0 \<le> rf_published s \<and> 0 \<le> rf_failed s \<and> rf_published s + rf_failed s \<le> rf_selected s \<and> aware (rf_started_at s) \<and>
     (if rf_run_status s = ''running'' then rf_completed_at s = None
      else case rf_completed_at s of None \<Rightarrow> False | Some t \<Rightarrow> aware t \<and> instant (rf_started_at s) \<le> instant t) \<and>
     (rf_last_successful_height s = None) = (rf_last_successful_at s = None) \<and>
     opt_all (\<lambda>h. 1 \<le> h \<and> h \<le> rf_observed_height s \<and> opt_all aware (rf_last_successful_at s)) (rf_last_successful_height s)"

definition upsert_refresh_row :: "string \<Rightarrow> refresh_row \<Rightarrow> metadata_db \<Rightarrow> metadata_db res" where
  "upsert_refresh_row chain r d =
     bindE (guardE (fw_observed_height r < 2 ^ 63 \<and> fw_selected r < 2 ^ 31 \<and> fw_published r < 2 ^ 31 \<and> fw_failed r < 2 ^ 31) DataError) (\<lambda>_.
     bindE (guardE (check_refresh_row chain r) (IntegrityError ''realm_metadata_refresh_state'')) (\<lambda>_.
     Inr (d\<lparr>dm_refresh := (dm_refresh d)(chain := Some r)\<rparr>)))"

text \<open>What the stored state decides: stale or not, and the last success to write.\<close>

definition refresh_success :: "refresh_state \<Rightarrow> refresh_row option \<Rightarrow> (int option \<times> int option) res" where
  "refresh_success s current =
     (let success = (rf_last_successful_height s, map_option instant (rf_last_successful_at s)) in
      case current of
        None \<Rightarrow> Inr success
      | Some c \<Rightarrow>
          bindE (guardE (\<not> (rf_observed_height s < fw_observed_height c \<or>
                   (fw_observed_height c = rf_observed_height s \<and> instant (rf_started_at s) < fw_started_at c)))
                   (StaleMetadataSnapshot ''stale_metadata_refresh_state'')) (\<lambda>_.
          bindE (guardE (\<not> (fw_observed_height c = rf_observed_height s \<and> fw_started_at c = instant (rf_started_at s) \<and>
                   fw_run_status c \<noteq> ''running'' \<and> rf_run_status s = ''running''))
                   (StaleMetadataSnapshot ''stale_metadata_refresh_transition'')) (\<lambda>_.
          case rf_last_successful_height s of
            None \<Rightarrow> Inr (fw_last_successful_height c, fw_last_successful_at c)
          | Some h \<Rightarrow>
              bindE (guardE (opt_all (\<lambda>h'. h' \<le> h) (fw_last_successful_height c)) (StaleMetadataSnapshot ''stale_metadata_refresh_success'')) (\<lambda>_.
              Inr success))))"

definition persist_metadata_refresh_state_cursor :: "refresh_state \<Rightarrow> metadata_db \<Rightarrow> metadata_db res" where
  "persist_metadata_refresh_state_cursor s d =
     bindE (mp_guard (refresh_valid s) ''invalid_refresh_state'') (\<lambda>_.
     bindE (refresh_success s (dm_refresh d (rf_chain_id s))) (\<lambda>(successful_height, successful_at).
     upsert_refresh_row (rf_chain_id s)
       \<lparr>fw_observed_height = rf_observed_height s, fw_run_status = rf_run_status s, fw_selected = rf_selected s,
        fw_published = rf_published s, fw_failed = rf_failed s, fw_started_at = instant (rf_started_at s),
        fw_completed_at = map_option instant (rf_completed_at s), fw_last_successful_height = successful_height,
        fw_last_successful_at = successful_at\<rparr> d))"

end
