(* ===== verification/Metadata_Fingerprint.thy ===== *)
theory Metadata_Fingerprint
  imports Metadata_Snapshot "HOL-Library.Multiset"
begin

text \<open>
  The fingerprint of a set of files: its input determines the names and contents and nothing else, so that two sets of files
  with the same fingerprint are equal up to order, or collide under SHA-256.
\<close>

section \<open>Length prefixes\<close>

lemma be_bytes_Suc: "be_bytes (Suc k) n = word_of_nat (n div 256 ^ k) # be_bytes k n"
  unfolding be_bytes_def by (rule nth_equalityI) (auto simp: nth_Cons nth_append split: nat.splits)

lemma be_bytes_mod: "be_bytes k m = be_bytes k n \<Longrightarrow> m mod 256 ^ k = n mod 256 ^ k"
proof (induction k)
  case (Suc k)
  then have "(word_of_nat (m div 256 ^ k) :: 8 word) = word_of_nat (n div 256 ^ k)" and "m mod 256 ^ k = n mod 256 ^ k"
    by (simp_all add: be_bytes_Suc)
  moreover from arg_cong [OF this(1), of unat] have "(m div 256 ^ k) mod 256 = (n div 256 ^ k) mod 256"
    by (simp add: unat_of_nat)
  ultimately show ?case by (simp add: mod_mult2_eq mult.commute [of 256])
qed simp

lemma be_bytes_8_inj: "be_bytes 8 m = be_bytes 8 n \<Longrightarrow> m < 2 ^ 64 \<Longrightarrow> n < 2 ^ 64 \<Longrightarrow> m = n"
  using be_bytes_mod [of 8 m n] by simp

definition short :: "bytes \<times> bytes \<Rightarrow> bool" where
  "short p \<longleftrightarrow> length (fst p) < 2 ^ 64 \<and> length (snd p) < 2 ^ 64"

lemma framed_append_inj:
  assumes "framed p @ s = framed q @ t" and "short p" and "short q"
  shows "p = q \<and> s = t"
proof -
  obtain a b c d where pq: "p = (a, b)" "q = (c, d)" by fastforce
  from assms(1) have "be_bytes 8 (length a) = be_bytes 8 (length c)" and r: "a @ be_bytes 8 (length b) @ b @ s = c @ be_bytes 8 (length d) @ d @ t"
    by (simp_all add: pq framed_def)
  then have "length a = length c" using assms(2,3) be_bytes_8_inj by (auto simp: pq short_def)
  with r have "a = c" "be_bytes 8 (length b) = be_bytes 8 (length d)" and r2: "b @ s = d @ t" by simp_all
  then have "length b = length d" using assms(2,3) be_bytes_8_inj by (auto simp: pq short_def)
  with r2 \<open>a = c\<close> show ?thesis by (simp add: pq)
qed

lemma framed_nonempty: "framed p \<noteq> []"
  by (cases p) (simp add: framed_def be_bytes_def)

lemma concat_framed_inj:
  "concat (map framed ps) = concat (map framed qs) \<Longrightarrow> list_all short ps \<Longrightarrow> list_all short qs \<Longrightarrow> ps = qs"
proof (induction ps arbitrary: qs)
  case Nil
  then show ?case by (cases qs) (auto simp: framed_nonempty)
next
  case (Cons p ps)
  then obtain q qs' where qs: "qs = q # qs'" by (cases qs) (auto simp: framed_nonempty)
  have "p = q \<and> concat (map framed ps) = concat (map framed qs')"
    by (rule framed_append_inj) (use Cons.prems qs in auto)
  then show ?case using Cons.IH [of qs'] Cons.prems(2,3) qs by simp
qed

section \<open>Files\<close>

definition file_storable :: "metadata_file \<Rightarrow> bool" where
  "file_storable f \<longleftrightarrow> list_all scalar (mf_filename f) \<and> list_all scalar (mf_content f) \<and>
     utf8_size (mf_filename f) < 2 ^ 64 \<and> utf8_size (mf_content f) < 2 ^ 64"

definition file_of_bytes :: "bytes \<times> bytes \<Rightarrow> metadata_file" where
  "file_of_bytes p = \<lparr>mf_filename = the (utf8_decode (fst p)), mf_content = the (utf8_decode (snd p))\<rparr>"

lemma file_of_bytes [simp]: "file_storable f \<Longrightarrow> file_of_bytes (file_bytes f) = f"
  by (simp add: file_of_bytes_def file_bytes_def file_storable_def utf8_round_trip)

lemma short_file_bytes: "file_storable f \<Longrightarrow> short (file_bytes f)"
  by (simp add: short_def file_bytes_def file_storable_def utf8_size_def)

lemma mset_file_bytes:
  assumes "mset (map file_bytes fs) = mset (map file_bytes gs)" and "list_all file_storable fs" and "list_all file_storable gs"
  shows "mset fs = mset gs"
proof -
  have "map file_of_bytes (map file_bytes hs) = hs" if "list_all file_storable hs" for hs
    using that by (induction hs) auto
  then show ?thesis using assms by (metis mset_map)
qed

lemma fingerprint_input_inj:
  assumes "fingerprint_input fs = fingerprint_input gs" and "list_all file_storable fs" and "list_all file_storable gs"
  shows "mset fs = mset gs"
proof -
  have "list_all short (sort (map file_bytes hs))" if "list_all file_storable hs" for hs
    using that by (auto simp: list_all_iff short_file_bytes)
  with assms have "sort (map file_bytes fs) = sort (map file_bytes gs)"
    unfolding fingerprint_input_def by (blast intro: concat_framed_inj)
  then have "mset (map file_bytes fs) = mset (map file_bytes gs)" by (metis mset_sort)
  then show ?thesis using assms(2,3) by (rule mset_file_bytes)
qed

lemma fingerprint_input_perm:
  assumes "mset fs = mset gs"
  shows "fingerprint_input fs = fingerprint_input gs"
proof -
  have "sort (map file_bytes fs) = sort (map file_bytes gs)" by (rule properties_for_sort) (use assms in simp_all)
  then show ?thesis by (simp add: fingerprint_input_def)
qed

text \<open>C38: The encoding under the fingerprint is unambiguous and independent of the order: two sets of files whose texts are valid
  have the same input of the hash exactly when they are the same files.\<close>

theorem fingerprint_unambiguous:
  assumes "list_all file_storable fs" and "list_all file_storable gs"
  shows "fingerprint_input fs = fingerprint_input gs \<longleftrightarrow> mset fs = mset gs"
  using assms fingerprint_input_inj fingerprint_input_perm by blast

definition file_a :: metadata_file where
  "file_a = \<lparr>mf_filename = u ''a.gno'', mf_content = u ''package a''\<rparr>"

definition file_b :: metadata_file where
  "file_b = \<lparr>mf_filename = u ''b.gno'', mf_content = []\<rparr>"

lemma sample_files_storable: "file_storable file_a" "file_storable file_b"
  by (simp_all add: file_storable_def file_a_def file_b_def scalar_def utf8_char_length)

theorem fingerprint_unambiguous_witness:
  "fingerprint_input [file_a, file_b] = fingerprint_input [file_b, file_a] \<and> fingerprint_input [file_a] \<noteq> fingerprint_input [file_b]"
  using fingerprint_unambiguous [of "[file_a, file_b]" "[file_b, file_a]"] fingerprint_unambiguous [of "[file_a]" "[file_b]"] sample_files_storable
  by (simp add: file_a_def file_b_def)

end
