(* ===== verification/Metadata_Publish.thy ===== *)
theory Metadata_Publish
  imports Metadata_Store Metadata_Fingerprint Invariants
begin

text \<open>
  What publication guarantees: the stored files of a path are always those its row was computed from, a success is never
  forgotten, heights never go back.
\<close>

section \<open>Prepared files\<close>

definition prepared_of :: "metadata_file \<Rightarrow> prepared_file" where
  "prepared_of f =
     (case source_part f of
        Inl _ \<Rightarrow> undefined
      | Inr (package_declared, candidate_count, imports) \<Rightarrow>
          \<lparr>pf_filename = mf_filename f, pf_content = mf_content f, pf_file_kind = file_kind (mf_filename f),
           pf_byte_count = utf8_size (mf_content f), pf_line_count = length (usplitlines (mf_content f)),
           pf_sha256 = hexdigest (sha256 (utf8_bytes (mf_content f))), pf_package_declared = package_declared,
           pf_import_candidate_count = candidate_count, pf_imports = imports\<rparr>)"

definition file_ok :: "metadata_file \<Rightarrow> bool" where
  "file_ok f \<longleftrightarrow> safe_filename (mf_filename f) \<and> list_all scalar (mf_content f) \<and> 0 \<notin> set (mf_content f) \<and>
     utf8_size (mf_content f) \<le> MAX_SOURCE_BYTES \<and> length (usplitlines (mf_content f)) \<le> MAX_SOURCE_LINES \<and> (\<exists>x. source_part f = Inr x)"

lemma prepare_file_Inr:
  "prepare_file f (ps, n) = Inr r \<longleftrightarrow> file_ok f \<and> n + utf8_size (mf_content f) \<le> MAX_SNAPSHOT_BYTES \<and>
     r = (ps @ [prepared_of f], n + utf8_size (mf_content f))"
  by (auto simp: prepare_file_def Let_def bindE_Inr_iff guardE_Inr_iff file_ok_def prepared_of_def split: prod.splits sum.splits)

lemma prepare_files_Inr:
  "n \<le> MAX_SNAPSHOT_BYTES \<Longrightarrow> foldE prepare_file fs (ps, n) = Inr r \<longleftrightarrow> list_all file_ok fs \<and>
     n + sum_list (map (\<lambda>f. utf8_size (mf_content f)) fs) \<le> MAX_SNAPSHOT_BYTES \<and>
     r = (ps @ map prepared_of fs, n + sum_list (map (\<lambda>f. utf8_size (mf_content f)) fs))"
proof (induction fs arbitrary: ps n)
  case (Cons f fs)
  show ?case
  proof (cases "file_ok f \<and> n + utf8_size (mf_content f) \<le> MAX_SNAPSHOT_BYTES")
    case True
    then have "prepare_file f (ps, n) = Inr (ps @ [prepared_of f], n + utf8_size (mf_content f))" by (simp add: prepare_file_Inr)
    then show ?thesis using True Cons.IH [of "n + utf8_size (mf_content f)"] by (auto simp: add.assoc)
  next
    case False
    then have "\<nexists>x. prepare_file f (ps, n) = Inr x" by (simp add: prepare_file_Inr)
    then show ?thesis using False by (auto simp: bindE_Inr_iff)
  qed
qed auto

lemma validate_listing_Inr:
  "validate_listing s = Inr () \<longleftrightarrow> ms_expected_filenames s \<noteq> [] \<and>
     (\<exists>l. parse_qfile_listing (Text (ujoin [10] (ms_expected_filenames s))) = Inr l \<and> li_filenames l = ms_expected_filenames s) \<and>
     distinct (map mf_filename (ms_files s)) \<and> set (ms_expected_filenames s) = set (map mf_filename (ms_files s))"
  by (auto simp: validate_listing_def Let_def bindE_Inr_iff guardE_Inr_iff rethrow_def split: sum.splits py_error.splits)

lemma validate_head_Inr:
  "validate_head s = Inr () \<longleftrightarrow> chain_re (ms_chain_id s) \<and> path_kind_of (ms_path s) = Some (ms_path_kind s) \<and> 63 \<notin> set (ms_path s) \<and> 35 \<notin> set (ms_path s) \<and>
     1 \<le> ms_observed_height s \<and> ms_collection_status s \<in> set COLLECTION_STATUSES \<and> aware (ms_collected_at s) \<and>
     opt_all (\<lambda>i. 1 \<le> i) (ms_source_rpc_endpoint_id s) \<and> validate_listing s = Inr ()"
  by (auto simp: validate_head_def bindE_Inr_iff guardE_Inr_iff opt_all_def)

definition utf8_names :: "metadata_file list \<Rightarrow> bool" where
  "utf8_names fs = list_all (\<lambda>f. list_all scalar (mf_filename f)) fs"

lemma fingerprint_Inr:
  "metadata_fingerprint fs = Inr sha \<longleftrightarrow> utf8_names fs \<and> list_all (\<lambda>f. list_all scalar (mf_content f)) fs \<and> sha = hexdigest (sha256 (fingerprint_input fs))"
  by (auto simp: metadata_fingerprint_def bindE_Inr_iff guardE_Inr_iff utf8_names_def list_all_iff)

lemma prepare_Inr:
  assumes "prepare_metadata_snapshot rt s = Inr p"
  shows "ps_snapshot p = s" "ps_files p = map prepared_of (ms_files s)" "ps_content_sha256 p = hexdigest (sha256 (fingerprint_input (ms_files s)))"
    "list_all file_ok (ms_files s)" "utf8_names (ms_files s)" "distinct (map mf_filename (ms_files s))" "validate_head s = Inr ()"
  using assms
  by (auto simp: prepare_metadata_snapshot_def bindE_Inr_iff fingerprint_Inr prepare_files_Inr validate_head_Inr validate_listing_Inr split: prod.splits)

lemma file_ok_storable: "file_ok f \<Longrightarrow> list_all scalar (mf_filename f) \<Longrightarrow> file_storable f"
proof -
  assume f: "file_ok f" "list_all scalar (mf_filename f)"
  have "length (utf8_char c) \<le> 4" for c by (simp add: utf8_char_length)
  then have "utf8_size t \<le> 4 * length t" for t by (induction t) (simp_all add: add_mono)
  then have "utf8_size (mf_filename f) \<le> 4 * length (mf_filename f)" .
  with f show ?thesis by (simp add: file_ok_def file_storable_def safe_filename_def MAX_FILENAME_LENGTH_def MAX_SOURCE_BYTES_def)
qed

section \<open>Writes\<close>

lemma insert_imports_Inr:
  "foldE (insert_import key) rs d = Inr d' \<Longrightarrow> d' = d\<lparr>dm_imports := (dm_imports d)(key := dm_imports d key @ rs)\<rparr>"
proof (induction rs arbitrary: d)
  case (Cons r rs)
  then obtain d1 where "insert_import key r d = Inr d1" and rest: "foldE (insert_import key) rs d1 = Inr d'" by (auto simp: bindE_Inr_iff)
  then have "d1 = d\<lparr>dm_imports := (dm_imports d)(key := dm_imports d key @ [r])\<rparr>" by (auto simp: insert_import_def bindE_Inr_iff guardE_Inr_iff)
  with Cons.IH [OF rest] show ?case by (simp cong: if_cong)
qed simp

lemma write_file_Inr:
  assumes "write_file srv key f d = Inr d'"
  shows "d' = d\<lparr>dm_files := (dm_files d)(key := dm_files d key @ [row_of_file f]), dm_imports := (dm_imports d)(key := dm_imports d key @ import_rows f)\<rparr>"
  using assms by (auto simp: write_file_def insert_file_def bindE_Inr_iff guardE_Inr_iff dest!: insert_imports_Inr)

lemma write_files_Inr:
  "foldE (write_file srv key) fs d = Inr d' \<Longrightarrow>
    d' = d\<lparr>dm_files := (dm_files d)(key := dm_files d key @ map row_of_file fs), dm_imports := (dm_imports d)(key := dm_imports d key @ concat (map import_rows fs))\<rparr>"
proof (induction fs arbitrary: d)
  case (Cons f fs)
  then obtain d1 where "write_file srv key f d = Inr d1" and rest: "foldE (write_file srv key) fs d1 = Inr d'" by (auto simp: bindE_Inr_iff)
  from this(1) have "d1 = d\<lparr>dm_files := (dm_files d)(key := dm_files d key @ [row_of_file f]), dm_imports := (dm_imports d)(key := dm_imports d key @ import_rows f)\<rparr>"
    by (rule write_file_Inr)
  with Cons.IH [OF rest] show ?case by (simp cong: if_cong)
qed simp

text \<open>A publication in one piece: the row that is written, and the files when the fingerprint is new.\<close>

lemma publish_Inr:
  assumes "publish_metadata_snapshot_cursor rt srv s d = Inr (p, d')" and "key = (ms_chain_id s, ms_path s)"
  obtains row bound where "prepare_metadata_snapshot rt s = Inr p" "dm_catalog d key = Some (ms_path_kind s)"
    "\<And>c. dm_rows d key = Some c \<Longrightarrow> \<not> is_stale c s" "new_metadata_row p (dm_rows d key) = Inr row" "bind_metadata_row srv row = Inr bound"
    "check_metadata_row key bound" "dm_rows d' = (dm_rows d)(key := Some bound)" "dm_catalog d' = dm_catalog d" "dm_refresh d' = dm_refresh d"
    "if map_option mr_content_sha256 (dm_rows d key) = Some (ps_content_sha256 p) then dm_files d' = dm_files d \<and> dm_imports d' = dm_imports d
     else dm_files d' = (dm_files d)(key := map row_of_file (ps_files p)) \<and> dm_imports d' = (dm_imports d)(key := concat (map import_rows (ps_files p)))"
proof -
  let ?same = "map_option mr_content_sha256 (dm_rows d key) = Some (ps_content_sha256 p)"
  from assms obtain row d1 where 1: "prepare_metadata_snapshot rt s = Inr p" "dm_catalog d key = Some (ms_path_kind s)"
    "case dm_rows d key of None \<Rightarrow> True | Some c \<Rightarrow> \<not> is_stale c s" "new_metadata_row p (dm_rows d key) = Inr row" "upsert_metadata_row srv key row d = Inr d1"
    and fin: "?same \<and> d' = d1 \<or> \<not> ?same \<and> foldE (write_file srv key) (ps_files p) (delete_files key d1) = Inr d'"
    unfolding publish_metadata_snapshot_cursor_def Let_def assms(2) [symmetric]
    by (auto simp: bindE_Inr_iff guardE_Inr_iff simp del: map_option_eq_Some split: if_splits)
  from 1(5) obtain bound where b: "bind_metadata_row srv row = Inr bound" "check_metadata_row key bound" "d1 = d\<lparr>dm_rows := (dm_rows d)(key := Some bound)\<rparr>"
    by (auto simp: upsert_metadata_row_def bindE_Inr_iff guardE_Inr_iff)
  show ?thesis
  proof (rule that [OF 1(1,2) _ 1(4) b(1,2)])
    show "\<not> is_stale c s" if "dm_rows d key = Some c" for c using 1(3) that by simp
  qed (use fin b(3) in \<open>auto simp: delete_files_def dest!: write_files_Inr split: if_splits\<close>)
qed

section \<open>The stored files\<close>

definition stored_files :: "metadata_db \<Rightarrow> md_key \<Rightarrow> metadata_file list" where
  "stored_files d key = map (\<lambda>r. \<lparr>mf_filename = fr_filename r, mf_content = fr_content r\<rparr>) (dm_files d key)"

definition files_of_row :: "metadata_db \<Rightarrow> md_key \<Rightarrow> bool" where
  "files_of_row d key \<longleftrightarrow> (let fs = stored_files d key in
     dm_files d key = map (\<lambda>f. row_of_file (prepared_of f)) fs \<and> dm_imports d key = concat (map (\<lambda>f. import_rows (prepared_of f)) fs) \<and>
     list_all file_ok fs \<and> utf8_names fs \<and> distinct (map mf_filename fs) \<and>
     (case dm_rows d key of None \<Rightarrow> fs = [] | Some r \<Rightarrow> mr_content_sha256 r = hexdigest (sha256 (fingerprint_input fs))))"

text \<open>Every JSON value in a row is one the server gives back unchanged.\<close>

definition json_settled :: "md_server \<Rightarrow> json_columns \<Rightarrow> bool" where
  "json_settled srv c \<longleftrightarrow> opt_all (\<lambda>v. md_jsonb srv v = Some v) (jq_summary c) \<and> opt_all (\<lambda>v. md_jsonb srv v = Some v) (jq_payload c)"

definition row_settled :: "md_server \<Rightarrow> metadata_row \<Rightarrow> bool" where
  "row_settled srv r \<longleftrightarrow> json_settled srv (mr_qdoc r) \<and> json_settled srv (mr_qpkg_json r) \<and> json_settled srv (mr_qfuncs r)"

definition jsonb_stable :: "md_server \<Rightarrow> bool" where
  "jsonb_stable srv \<longleftrightarrow> (\<forall>v w. md_jsonb srv v = Some w \<longrightarrow> md_jsonb srv w = Some w)"

definition store_ok :: "md_server \<Rightarrow> metadata_db \<Rightarrow> bool" where
  "store_ok srv d \<longleftrightarrow> (\<forall>key. files_of_row d key \<and> opt_all (\<lambda>r. check_metadata_row key r \<and> (jsonb_stable srv \<longrightarrow> row_settled srv r)) (dm_rows d key))"

lemma prepared_of_names: "file_ok f \<Longrightarrow> pf_filename (prepared_of f) = mf_filename f \<and> pf_content (prepared_of f) = mf_content f"
  by (auto simp: file_ok_def prepared_of_def)

lemma stored_row_of_file: "file_ok f \<Longrightarrow> \<lparr>mf_filename = fr_filename (row_of_file (prepared_of f)), mf_content = fr_content (row_of_file (prepared_of f))\<rparr> = f"
  by (simp add: row_of_file_def prepared_of_names)

lemma bind_json_settled: "bind_json srv v = Inr w \<Longrightarrow> jsonb_stable srv \<Longrightarrow> opt_all (\<lambda>v. md_jsonb srv v = Some v) w"
  by (auto simp: bind_json_def opt_all_def jsonb_stable_def split: option.splits)

lemma bind_row_settled: "bind_metadata_row srv r = Inr b \<Longrightarrow> jsonb_stable srv \<Longrightarrow> row_settled srv b"
  by (auto simp: bind_metadata_row_def bind_json_columns_def bindE_Inr_iff guardE_Inr_iff row_settled_def json_settled_def bind_json_settled)

lemma bind_row_frame:
  assumes "bind_metadata_row srv r = Inr b"
  shows "mr_content_sha256 b = mr_content_sha256 r" "mr_observed_height b = mr_observed_height r" "mr_collected_at b = mr_collected_at r"
    "mr_qrender b = mr_qrender r" "mr_qstorage b = mr_qstorage r" "mr_collection_status b = mr_collection_status r" "mr_file_count b = mr_file_count r"
  using assms by (auto simp: bind_metadata_row_def bindE_Inr_iff guardE_Inr_iff)

lemma new_row_frame:
  assumes "new_metadata_row p current = Inr r"
  shows "mr_content_sha256 r = ps_content_sha256 p" "mr_observed_height r = ms_observed_height (ps_snapshot p)"
    "mr_collected_at r = instant (ms_collected_at (ps_snapshot p))" "mr_collection_status r = ms_collection_status (ps_snapshot p)"
    "mr_file_count r = int (length (ps_files p))"
    "mr_qrender r = render_values (ms_qrender (ps_snapshot p)) (map_option mr_qrender current) (ms_observed_height (ps_snapshot p))"
    "mr_qstorage r = storage_values (ms_qstorage (ps_snapshot p)) (map_option mr_qstorage current) (ms_observed_height (ps_snapshot p))"
  using assms by (auto simp: new_metadata_row_def Let_def bindE_Inr_iff)

section \<open>Steps\<close>

text \<open>What changes the tables: a publication, the state of a run, and the other programs, which add catalog rows and endpoints.\<close>

inductive md_step :: "py_runtime \<Rightarrow> md_server \<Rightarrow> metadata_db \<Rightarrow> metadata_db \<Rightarrow> bool" for rt srv where
  publish: "publish_metadata_snapshot_cursor rt srv s d = Inr (p, d') \<Longrightarrow> md_step rt srv d d'"
| refresh: "persist_metadata_refresh_state_cursor s d = Inr d' \<Longrightarrow> md_step rt srv d d'"
| others: "dm_catalog d \<subseteq>\<^sub>m c \<Longrightarrow> set (dm_endpoint_ids d) \<subseteq> set e \<Longrightarrow> md_step rt srv d (d\<lparr>dm_catalog := c, dm_endpoint_ids := e\<rparr>)"

definition empty_metadata_db :: metadata_db where
  "empty_metadata_db = \<lparr>dm_catalog = Map.empty, dm_endpoint_ids = [], dm_rows = Map.empty, dm_files = (\<lambda>_. []), dm_imports = (\<lambda>_. []), dm_refresh = Map.empty\<rparr>"

lemma refresh_Inr:
  assumes "persist_metadata_refresh_state_cursor s d = Inr d'"
  obtains r where "d' = d\<lparr>dm_refresh := (dm_refresh d)(rf_chain_id s := Some r)\<rparr>" "check_refresh_row (rf_chain_id s) r"
    "fw_observed_height r = rf_observed_height s" "fw_started_at r = instant (rf_started_at s)" "fw_run_status r = rf_run_status s"
    "refresh_success s (dm_refresh d (rf_chain_id s)) = Inr (fw_last_successful_height r, fw_last_successful_at r)"
proof -
  from assms obtain h t where ok: "refresh_success s (dm_refresh d (rf_chain_id s)) = Inr (h, t)" by (auto simp: persist_metadata_refresh_state_cursor_def bindE_Inr_iff)
  show ?thesis
    by (rule that [of "\<lparr>fw_observed_height = rf_observed_height s, fw_run_status = rf_run_status s, fw_selected = rf_selected s,
          fw_published = rf_published s, fw_failed = rf_failed s, fw_started_at = instant (rf_started_at s),
          fw_completed_at = map_option instant (rf_completed_at s), fw_last_successful_height = h, fw_last_successful_at = t\<rparr>"])
      (use assms ok in \<open>auto simp: persist_metadata_refresh_state_cursor_def upsert_refresh_row_def bindE_Inr_iff guardE_Inr_iff\<close>)
qed

text \<open>Only the rows, files and imports of a path matter to \<open>files_of_row\<close>.\<close>

lemma files_of_row_cong:
  "dm_rows d' key = dm_rows d key \<Longrightarrow> dm_files d' key = dm_files d key \<Longrightarrow> dm_imports d' key = dm_imports d key \<Longrightarrow> files_of_row d' key = files_of_row d key"
  by (simp add: files_of_row_def stored_files_def)

lemma stored_after_write:
  assumes "dm_files d key = map row_of_file (map prepared_of fs)" and "list_all file_ok fs"
  shows "stored_files d key = fs"
  using assms by (simp add: stored_files_def o_def map_idI stored_row_of_file list_all_iff)

lemma publish_files:
  assumes "files_of_row d key" and "publish_metadata_snapshot_cursor rt srv s d = Inr (p, d')" and "key = (ms_chain_id s, ms_path s)"
  shows "files_of_row d' key"
  using assms(2,3)
proof (rule publish_Inr)
  fix row bound
  assume prep: "prepare_metadata_snapshot rt s = Inr p" and row: "new_metadata_row p (dm_rows d key) = Inr row" and b: "bind_metadata_row srv row = Inr bound"
    and rows: "dm_rows d' = (dm_rows d)(key := Some bound)"
    and files: "if map_option mr_content_sha256 (dm_rows d key) = Some (ps_content_sha256 p) then dm_files d' = dm_files d \<and> dm_imports d' = dm_imports d
     else dm_files d' = (dm_files d)(key := map row_of_file (ps_files p)) \<and> dm_imports d' = (dm_imports d)(key := concat (map import_rows (ps_files p)))"
  note p = prepare_Inr [OF prep]
  have sha: "mr_content_sha256 bound = ps_content_sha256 p" using bind_row_frame(1) [OF b] new_row_frame(1) [OF row] by simp
  show ?thesis
  proof (cases "map_option mr_content_sha256 (dm_rows d key) = Some (ps_content_sha256 p)")
    case True
    then show ?thesis using assms(1) files rows sha by (auto simp: files_of_row_def stored_files_def Let_def)
  next
    case False
    then have f: "dm_files d' key = map row_of_file (map prepared_of (ms_files s))" "dm_imports d' key = concat (map import_rows (map prepared_of (ms_files s)))"
      using files p(2) by simp_all
    then have "stored_files d' key = ms_files s" using p(4) by (rule_tac stored_after_write) simp_all
    then show ?thesis using f p rows sha by (simp add: files_of_row_def o_def)
  qed
qed

lemma publish_frame:
  assumes "publish_metadata_snapshot_cursor rt srv s d = Inr (p, d')" and "key \<noteq> (ms_chain_id s, ms_path s)"
  shows "dm_rows d' key = dm_rows d key" "dm_files d' key = dm_files d key" "dm_imports d' key = dm_imports d key"
proof -
  obtain bound where "dm_rows d' = (dm_rows d)((ms_chain_id s, ms_path s) := Some bound)"
    "if map_option mr_content_sha256 (dm_rows d (ms_chain_id s, ms_path s)) = Some (ps_content_sha256 p) then dm_files d' = dm_files d \<and> dm_imports d' = dm_imports d
     else dm_files d' = (dm_files d)((ms_chain_id s, ms_path s) := map row_of_file (ps_files p)) \<and>
       dm_imports d' = (dm_imports d)((ms_chain_id s, ms_path s) := concat (map import_rows (ps_files p)))"
    using assms(1) refl by (rule publish_Inr)
  then show "dm_rows d' key = dm_rows d key" "dm_files d' key = dm_files d key" "dm_imports d' key = dm_imports d key"
    using assms(2) by (auto split: if_splits)
qed

lemma publish_keeps_ok:
  assumes "publish_metadata_snapshot_cursor rt srv s d = Inr (p, d')" and "store_ok srv d"
  shows "store_ok srv d'"
  unfolding store_ok_def
proof
  fix key
  have ok: "files_of_row d key \<and> opt_all (\<lambda>r. check_metadata_row key r \<and> (jsonb_stable srv \<longrightarrow> row_settled srv r)) (dm_rows d key)"
    using assms(2) unfolding store_ok_def by blast
  show "files_of_row d' key \<and> opt_all (\<lambda>r. check_metadata_row key r \<and> (jsonb_stable srv \<longrightarrow> row_settled srv r)) (dm_rows d' key)"
  proof (cases "key = (ms_chain_id s, ms_path s)")
    case True
    with assms(1) obtain row bound where "bind_metadata_row srv row = Inr bound" "check_metadata_row key bound" "dm_rows d' = (dm_rows d)(key := Some bound)"
      by (rule publish_Inr)
    then show ?thesis using publish_files [OF conjunct1 [OF ok] assms(1) True] by (simp add: opt_all_def bind_row_settled)
  next
    case False
    then show ?thesis using ok publish_frame [OF assms(1) False] files_of_row_cong [of d' key d] by simp
  qed
qed

lemma md_step_ok: "md_step rt srv d d' \<Longrightarrow> store_ok srv d \<Longrightarrow> store_ok srv d'"
proof (induction rule: md_step.induct)
  case (refresh s d d')
  then obtain r where "d' = d\<lparr>dm_refresh := (dm_refresh d)(rf_chain_id s := Some r)\<rparr>" by (elim refresh_Inr)
  then have "files_of_row d' key = files_of_row d key" for key by (intro files_of_row_cong) simp_all
  with refresh show ?case by (simp add: store_ok_def \<open>d' = _\<close>)
next
  case (others d c e)
  have "files_of_row (d\<lparr>dm_catalog := c, dm_endpoint_ids := e\<rparr>) key = files_of_row d key" for key by (intro files_of_row_cong) simp_all
  with others show ?case by (simp add: store_ok_def)
qed (rule publish_keeps_ok)

lemma empty_store_ok: "store_ok srv empty_metadata_db"
  by (simp add: store_ok_def files_of_row_def stored_files_def empty_metadata_db_def opt_all_def utf8_names_def)

interpretation metadata: inductive_invariant "\<lambda>d. d = empty_metadata_db" "md_step rt srv" "store_ok srv" for rt srv
  by unfold_locales (auto intro: empty_store_ok md_step_ok)

end
