(* ===== verification/Metadata_Collector.thy ===== *)
theory Metadata_Collector
  imports Metadata_Publish
begin

text \<open>
  \<open>indexer/realm_metadata_collector.py\<close>: the collection of one path at a fixed height. The client and the number of requests made
  are as in \<open>Governance_Discovery\<close>; \<open>now\<close> is the reading of the clock for \<open>collected_at\<close>.
\<close>

record collection_request =
  cq_chain_id :: string
  cq_path :: ustr
  cq_path_kind :: string
  cq_observed_height :: int
  cq_source_rpc_endpoint_id :: "int option"

record path_result =
  px_path :: ustr
  px_path_kind :: string
  px_observed_height :: int
  px_status :: string
  px_snapshot :: "metadata_snapshot option"
  px_failure_code :: "string option"

definition rpc_status :: "py_error \<Rightarrow> string" where
  "rpc_status e =
     (case e of
        RpcError message \<Rightarrow>
          if message = ''ABCI query returned an application error'' then ''application_error''
          else if message \<in> {''Malformed ABCI response'', ''Malformed or oversized ABCI response data'', ''Malformed ABCI response data'',
            ''ABCI response exceeds size limit'', ''ABCI response data is not UTF-8''} then ''invalid_response''
          else ''rpc_error''
      | _ \<Rightarrow> ''rpc_error'')"

text \<open>The two \<open>except\<close> clauses of a capability: its status, or \<open>None\<close> when the exception is not caught.\<close>

definition failure_status :: "py_error \<Rightarrow> string option" where
  "failure_status e =
     (case e of
        MetadataParseError _ \<Rightarrow> Some ''invalid_response''
      | _ \<Rightarrow> if e = encode_error then Some ''invalid_response'' else if is_RpcError e then Some (rpc_status e) else None)"

definition capability_of :: "(string \<Rightarrow> 'a) \<Rightarrow> (nat, 'a) act \<Rightarrow> (nat, 'a) act" where
  "capability_of failed body n =
     (case body n of
        (Inl e, n') \<Rightarrow> (case failure_status e of Some status \<Rightarrow> (Inr (failed status), n') | None \<Rightarrow> (Inl e, n'))
      | r \<Rightarrow> r)"

definition json_capability_of :: "qclient \<Rightarrow> string \<Rightarrow> ustr \<Rightarrow> int \<Rightarrow> (payload \<Rightarrow> ujson res) \<Rightarrow> (nat, json_capability) act" where
  "json_capability_of client rpc_path data height parser =
     capability_of (\<lambda>status. \<lparr>jc_status = status, jc_payload = None\<rparr>)
       (bindS (abci_query client rpc_path data height) (\<lambda>payload.
        bindS (liftS (parser (Text payload))) (\<lambda>_.
        retS \<lparr>jc_status = ''ok'', jc_payload = Some (Text payload)\<rparr>)))"

definition render_failed :: "string \<Rightarrow> render_capability" where
  "render_failed status = \<lparr>rc_status = status, rc_sha256 = None, rc_byte_count = None, rc_line_count = None, rc_non_empty = None\<rparr>"

definition render_capability_of :: "qclient \<Rightarrow> ustr \<Rightarrow> int \<Rightarrow> (nat, render_capability) act" where
  "render_capability_of client path height =
     capability_of render_failed
       (bindS (abci_query client ''vm/qrender'' (path @ u '':'') height) (\<lambda>payload.
        bindS (liftS (summarize_qrender (Text payload))) (\<lambda>summary.
        retS \<lparr>rc_status = ''ok'', rc_sha256 = Some (rn_sha256 summary), rc_byte_count = Some (int (rn_byte_count summary)),
              rc_line_count = Some (int (rn_line_count summary)), rc_non_empty = Some (rn_non_empty summary)\<rparr>)))"

definition storage_failed :: "string \<Rightarrow> storage_capability" where
  "storage_failed status = \<lparr>sc_status = status, sc_storage_bytes = None, sc_deposit_ugnot = None\<rparr>"

definition storage_capability_of :: "qclient \<Rightarrow> ustr \<Rightarrow> int \<Rightarrow> (nat, storage_capability) act" where
  "storage_capability_of client path height =
     capability_of storage_failed
       (bindS (abci_query client ''vm/qstorage'' path height) (\<lambda>payload.
        bindS (liftS (parse_qstorage (Text payload))) (\<lambda>(storage_bytes, deposit).
        retS \<lparr>sc_status = ''ok'', sc_storage_bytes = Some storage_bytes, sc_deposit_ugnot = Some deposit\<rparr>)))"

text \<open>The listing and the files: a parse or RPC error ends the collection as failed, as \<open>None\<close>.\<close>

definition or_failed :: "(nat, 'a) act \<Rightarrow> (nat, 'a option) act" where
  "or_failed body n =
     (case body n of
        (Inl e, n') \<Rightarrow> if failure_status e = None then (Inl e, n') else (Inr None, n')
      | (Inr x, n') \<Rightarrow> (Inr (Some x), n'))"

definition fetch_listing :: "qclient \<Rightarrow> collection_request \<Rightarrow> (nat, file_listing option) act" where
  "fetch_listing client rq =
     or_failed (bindS (abci_query client ''vm/qfile'' (cq_path rq) (cq_observed_height rq)) (\<lambda>payload.
       liftS (parse_qfile_listing (Text payload))))"

definition fetch_file :: "qclient \<Rightarrow> collection_request \<Rightarrow> ustr \<Rightarrow> (nat, metadata_file option) act" where
  "fetch_file client rq filename =
     or_failed (bindS (abci_query client ''vm/qfile'' (cq_path rq @ u ''/'' @ filename) (cq_observed_height rq)) (\<lambda>content.
       bindS (liftS (guardE (list_all scalar content) encode_error)) (\<lambda>_.
       retS \<lparr>mf_filename = filename, mf_content = content\<rparr>)))"

fun fetch_files :: "qclient \<Rightarrow> collection_request \<Rightarrow> ustr list \<Rightarrow> metadata_file list \<Rightarrow> (nat, metadata_file list option) act" where
  "fetch_files client rq [] files = retS (Some files)"
| "fetch_files client rq (name # names) files =
     bindS (fetch_file client rq name) (\<lambda>f.
     case f of None \<Rightarrow> retS None | Some file \<Rightarrow> fetch_files client rq names (files @ [file]))"

definition failed_result :: "collection_request \<Rightarrow> string \<Rightarrow> path_result" where
  "failed_result rq code =
     \<lparr>px_path = cq_path rq, px_path_kind = cq_path_kind rq, px_observed_height = cq_observed_height rq, px_status = ''failed'',
      px_snapshot = None, px_failure_code = Some code\<rparr>"

text \<open>The capabilities, in the order of their requests; those of a realm do not apply to a package.\<close>

definition realm_capabilities :: "qclient \<Rightarrow> collection_request \<Rightarrow> (nat, render_capability \<times> storage_capability) act" where
  "realm_capabilities client rq =
     (if cq_path_kind rq = ''realm'' then
        bindS (render_capability_of client (cq_path rq) (cq_observed_height rq)) (\<lambda>qrender.
        bindS (storage_capability_of client (cq_path rq) (cq_observed_height rq)) (\<lambda>qstorage.
        retS (qrender, qstorage)))
      else retS (render_failed ''not_applicable'', storage_failed ''not_applicable''))"

definition snapshot_of ::
  "py_runtime \<Rightarrow> qclient \<Rightarrow> collection_request \<Rightarrow> int \<Rightarrow> ustr list \<Rightarrow> metadata_file list \<Rightarrow> (nat, metadata_snapshot) act" where
  "snapshot_of rt client rq now filenames files =
     bindS (json_capability_of client ''vm/qdoc'' (cq_path rq) (cq_observed_height rq) (parse_capability rt ''qdoc'' (cq_path rq))) (\<lambda>qdoc.
     bindS (json_capability_of client ''vm/qpkg_json'' (cq_path rq) (cq_observed_height rq) (parse_capability rt ''qpkg_json'' (cq_path rq))) (\<lambda>qpkg.
     bindS (json_capability_of client ''vm/qfuncs'' (cq_path rq) (cq_observed_height rq) (parse_capability rt ''qfuncs'' (cq_path rq))) (\<lambda>qfuncs.
     bindS (realm_capabilities client rq) (\<lambda>(qrender, qstorage).
     let applicable = [jc_status qdoc, jc_status qpkg, jc_status qfuncs] @ (if cq_path_kind rq = ''realm'' then [rc_status qrender, sc_status qstorage] else []) in
     retS \<lparr>ms_chain_id = cq_chain_id rq, ms_path = cq_path rq, ms_path_kind = cq_path_kind rq, ms_observed_height = cq_observed_height rq,
           ms_collection_status = (if list_all (\<lambda>status. status = ''ok'') applicable then ''complete'' else ''partial''),
           ms_expected_filenames = filenames, ms_files = files, ms_collected_at = Aware now,
           ms_source_rpc_endpoint_id = cq_source_rpc_endpoint_id rq, ms_qdoc = qdoc, ms_qpkg_json = qpkg, ms_qfuncs = qfuncs,
           ms_qrender = qrender, ms_qstorage = qstorage\<rparr>))))"

definition collect_path_metadata :: "py_runtime \<Rightarrow> qclient \<Rightarrow> collection_request \<Rightarrow> int \<Rightarrow> (nat, path_result) act" where
  "collect_path_metadata rt client rq now =
     bindS (fetch_listing client rq) (\<lambda>listing.
     case listing of
       None \<Rightarrow> retS (failed_result rq ''qfile_listing'')
     | Some l \<Rightarrow>
         bindS (fetch_files client rq (li_filenames l) []) (\<lambda>fetched.
         case fetched of
           None \<Rightarrow> retS (failed_result rq ''qfile_file'')
         | Some files \<Rightarrow>
             bindS (snapshot_of rt client rq now (li_filenames l) files) (\<lambda>s.
             retS \<lparr>px_path = cq_path rq, px_path_kind = cq_path_kind rq, px_observed_height = cq_observed_height rq,
                   px_status = ms_collection_status s, px_snapshot = Some s, px_failure_code = None\<rparr>)))"

section \<open>Requests\<close>

definition adds :: "nat \<Rightarrow> (nat, 'a) act \<Rightarrow> bool" where
  "adds k m \<longleftrightarrow> (\<forall>n. n \<le> snd (m n) \<and> snd (m n) \<le> n + k)"

lemma adds_bind:
  assumes "adds j m" and "\<And>x n n'. m n = (Inr x, n') \<Longrightarrow> adds k (f x)" and "j + k \<le> l"
  shows "adds l (bindS m f)"
  unfolding adds_def
proof
  fix n
  obtain r n1 where m: "m n = (r, n1)" by fastforce
  then have n1: "n \<le> n1" "n1 \<le> n + j" using assms(1) by (auto simp: adds_def dest!: spec [of _ n])
  show "n \<le> snd (bindS m f n) \<and> snd (bindS m f n) \<le> n + l"
  proof (cases r)
    case (Inl e)
    then show ?thesis using n1 assms(3) by (simp add: bindS_def m)
  next
    case (Inr x)
    then have "n1 \<le> snd (f x n1)" "snd (f x n1) \<le> n1 + k" using assms(2) m by (auto simp: adds_def)
    then show ?thesis using Inr n1 assms(3) by (simp add: bindS_def m)
  qed
qed

lemma adds_simps [simp]: "adds k (retS x)" "adds k (liftS r)"
  by (simp_all add: adds_def retS_def liftS_def)

lemma adds_query: "adds 1 (abci_query client path data height)"
  by (simp add: adds_def abci_query_def)

lemma adds_handlers: "adds k m \<Longrightarrow> adds k (capability_of failed m)" "adds k m \<Longrightarrow> adds k (or_failed m)"
  by (auto simp: adds_def capability_of_def or_failed_def split: prod.splits sum.splits option.splits) (metis snd_conv)+

lemma adds_parts:
  "adds 1 (fetch_listing client rq)" "adds 1 (fetch_file client rq name)" "adds 1 (json_capability_of client path data height parser)"
  "adds 1 (render_capability_of client p height)" "adds 1 (storage_capability_of client p height)"
  unfolding fetch_listing_def fetch_file_def json_capability_of_def render_capability_of_def storage_capability_of_def
  by (intro adds_handlers adds_bind [OF adds_query, where k = 0] adds_bind [where j = 0 and k = 0]; simp split: prod.splits)+

lemma adds_realm: "adds 2 (realm_capabilities client rq)"
proof -
  have "adds 2 (bindS (render_capability_of client p h) (\<lambda>r. bindS (storage_capability_of client p h) (\<lambda>s. retS (r, s))))" for p h
    by (rule adds_bind [OF adds_parts(4), where k = 1], rule adds_bind [OF adds_parts(5), where k = 0]) simp_all
  then show ?thesis by (simp add: realm_capabilities_def)
qed

lemma adds_snapshot: "adds 5 (snapshot_of rt client rq now names files)"
  unfolding snapshot_of_def
  by (rule adds_bind [OF adds_parts(3), where k = 4], rule adds_bind [OF adds_parts(3), where k = 3], rule adds_bind [OF adds_parts(3), where k = 2], rule adds_bind [OF adds_realm, where k = 0])
    (simp_all split: prod.splits add: Let_def)

lemma adds_files: "adds (length names) (fetch_files client rq names files)"
proof (induction names arbitrary: files)
  case (Cons name names)
  show ?case unfolding fetch_files.simps
    by (rule adds_bind [OF adds_parts(2), where k = "length names"]) (auto simp: Cons.IH split: option.splits)
qed simp

lemma add_filenames: "foldE add_filename ls acc = Inr names \<Longrightarrow> distinct acc \<Longrightarrow> names = acc @ ls \<and> distinct names \<and> list_all safe_filename ls"
  by (induction ls arbitrary: acc) (fastforce simp: add_filename_def bindE_Inr_iff guardE_Inr_iff)+

lemma listing_Inr:
  assumes "parse_qfile_listing (Text t) = Inr l"
  shows "li_filenames l = usplitlines t" "distinct (usplitlines t)" "list_all safe_filename (usplitlines t)" "length (usplitlines t) \<le> 256"
    "list_all scalar t" "t \<noteq> []" "utf8_size t \<le> MAX_ABCI_RESPONSE_BYTES"
  using assms
  by (auto simp: parse_qfile_listing_def text_of_def Let_def bindE_Inr_iff guardE_Inr_iff listing_of_def MAX_FILES_def dest!: add_filenames)

lemma fetched_listing:
  assumes "fetch_listing client rq n = (Inr (Some l), n')"
  obtains t where "parse_qfile_listing (Text t) = Inr l"
  using assms by (auto simp: fetch_listing_def or_failed_def bindS_def liftS_def split: prod.splits sum.splits if_splits)

text \<open>Every collection is bounded: whatever the endpoint answers, it makes at most 262 requests, one for the listing, one per file
  and one per capability.\<close>

theorem metadata_requests_bounded: "snd (collect_path_metadata rt client rq now 0) \<le> 262"
proof -
  have "adds 262 (collect_path_metadata rt client rq now)"
    unfolding collect_path_metadata_def
  proof (rule adds_bind [OF adds_parts(1), where k = 261])
    fix listing n n'
    assume f: "fetch_listing client rq n = (Inr listing, n')"
    show "adds 261 (case listing of None \<Rightarrow> retS (failed_result rq ''qfile_listing'')
       | Some l \<Rightarrow> bindS (fetch_files client rq (li_filenames l) []) (\<lambda>fetched. case fetched of None \<Rightarrow> retS (failed_result rq ''qfile_file'')
         | Some files \<Rightarrow> bindS (snapshot_of rt client rq now (li_filenames l) files) (\<lambda>s.
             retS \<lparr>px_path = cq_path rq, px_path_kind = cq_path_kind rq, px_observed_height = cq_observed_height rq,
                   px_status = ms_collection_status s, px_snapshot = Some s, px_failure_code = None\<rparr>)))"
    proof (cases listing)
      case (Some l)
      then obtain t where "parse_qfile_listing (Text t) = Inr l" using f by (auto elim: fetched_listing)
      then have "length (li_filenames l) \<le> 256" using listing_Inr(1,4) by simp
      moreover have "adds 5 (case fetched of None \<Rightarrow> retS (failed_result rq ''qfile_file'')
         | Some files \<Rightarrow> bindS (snapshot_of rt client rq now (li_filenames l) files) (\<lambda>s.
             retS \<lparr>px_path = cq_path rq, px_path_kind = cq_path_kind rq, px_observed_height = cq_observed_height rq,
                   px_status = ms_collection_status s, px_snapshot = Some s, px_failure_code = None\<rparr>))" for fetched
        by (cases fetched) (auto intro: adds_bind [OF adds_snapshot, where k = 0])
      ultimately show ?thesis unfolding Some option.case by (intro adds_bind [OF adds_files, where k = 5]) auto
    qed simp
  qed simp
  then show ?thesis by (auto simp: adds_def dest!: spec [of _ 0])
qed

end
