(* ===== verification/Metadata_History.thy ===== *)
theory Metadata_History
  imports Metadata_Publish
begin

text \<open>
  The properties of the metadata tables: the stored files are those their row describes, a publication stores its snapshot,
  failures of a capability keep its last success, and no sequence of writes goes back to an earlier height.
\<close>

section \<open>Digests\<close>

lemma lower_upper_hex: "is_upper_hex c \<Longrightarrow> upper_char (lower_char c) = c"
  by (auto simp: is_upper_hex_def lower_char_def upper_char_def Let_def of_char_of take_bit_nat_eq_self)

lemma hexdigest_inj: "hexdigest a = hexdigest b \<Longrightarrow> a = b"
proof -
  have "py_upper (hexdigest m) = hex_upper m" for m
    using hex_upper_alphabet [of m] by (auto simp: hexdigest_def py_upper_def py_lower_def list_all_iff lower_upper_hex intro: map_idI)
  then show "hexdigest a = hexdigest b \<Longrightarrow> a = b" by (metis hex_upper_inj)
qed

lemma lower_upper_hex_digit: "is_upper_hex c \<Longrightarrow> is_lower_hex (lower_char c)"
  by (auto simp: is_upper_hex_def is_lower_hex_def lower_char_def Let_def of_char_of take_bit_nat_eq_self)

lemma lower_sha_digest: "lower_sha (hexdigest (sha256 m))"
  using hex_upper_alphabet [of "sha256 m"] by (auto simp: lower_sha_def hexdigest_def py_lower_def list_all_iff lower_upper_hex_digit)

section \<open>Properties\<close>

text \<open>In every database the writers can reach, the metadata row, the files and the imports of a path belong together: the files and
  imports are exactly what preparing the stored contents yields, names are distinct and safe, the fingerprint in the row is
  that of the stored files, and the row satisfies the constraints of its table.\<close>

theorem metadata_store_consistent:
  assumes "(md_step rt srv)\<^sup>*\<^sup>* empty_metadata_db d"
  shows "files_of_row d key \<and> opt_all (check_metadata_row key) (dm_rows d key)"
proof -
  have "store_ok srv d" by (rule metadata.reachable_inv [OF refl assms])
  then have "files_of_row d key" "opt_all (\<lambda>r. check_metadata_row key r \<and> (jsonb_stable srv \<longrightarrow> row_settled srv r)) (dm_rows d key)"
    unfolding store_ok_def by blast+
  then show ?thesis by (simp add: opt_all_def split: option.splits)
qed

lemma stored_snapshot_files:
  assumes "files_of_row d' key" and "mset (stored_files d' key) = mset (ms_files s)"
  shows "mset (dm_files d' key) = mset (map row_of_file (map prepared_of (ms_files s)))"
    "mset (dm_imports d' key) = mset (concat (map import_rows (map prepared_of (ms_files s))))"
proof -
  have f: "dm_files d' key = map (\<lambda>f. row_of_file (prepared_of f)) (stored_files d' key)"
    "dm_imports d' key = concat (map (\<lambda>f. import_rows (prepared_of f)) (stored_files d' key))"
    using assms(1) by (simp_all add: files_of_row_def Let_def)
  have "image_mset (\<lambda>f. row_of_file (prepared_of f)) (mset (stored_files d' key)) = image_mset (\<lambda>f. row_of_file (prepared_of f)) (mset (ms_files s))"
    by (simp only: assms(2))
  then show "mset (dm_files d' key) = mset (map row_of_file (map prepared_of (ms_files s)))" by (simp add: f(1) o_def)
  have "sum_mset (image_mset (\<lambda>f. mset (import_rows (prepared_of f))) (mset (stored_files d' key))) =
      sum_mset (image_mset (\<lambda>f. mset (import_rows (prepared_of f))) (mset (ms_files s)))" by (simp only: assms(2))
  then show "mset (dm_imports d' key) = mset (concat (map import_rows (map prepared_of (ms_files s))))"
    by (simp add: f(2) mset_concat o_def sum_mset_sum_list [symmetric])
qed

text \<open>
  The row of a snapshot, written out over the files and imports stored for its path and over what the snapshot holds for each
  capability: a success is stored with the height, a failure keeps what the row had before.
\<close>

definition describes_files :: "metadata_row \<Rightarrow> file_row list \<Rightarrow> import_row list \<Rightarrow> bool" where
  "describes_files r files imports \<longleftrightarrow>
     mr_file_count r = int (length files) \<and>
     mr_gno_file_count r = int (length (filter (\<lambda>f. fr_file_kind f = ''gno_source'' \<or> fr_file_kind f = ''gno_test'') files)) \<and>
     mr_test_file_count r = int (length (filter (\<lambda>f. fr_file_kind f = ''gno_test'') files)) \<and>
     (mr_has_gnomod r \<longleftrightarrow> ''gnomod'' \<in> fr_file_kind ` set files) \<and>
     mr_total_file_bytes r = sum_list (map fr_byte_count files) \<and> mr_total_file_lines r = sum_list (map fr_line_count files) \<and>
     mr_dependency_count r = int (card (ir_imported_path ` set imports))"

definition json_stored :: "py_runtime \<Rightarrow> md_server \<Rightarrow> string \<Rightarrow> metadata_snapshot \<Rightarrow> json_capability \<Rightarrow> json_columns option \<Rightarrow> json_columns \<Rightarrow> bool" where
  "json_stored rt srv name s capability old c \<longleftrightarrow> jq_status c = jc_status capability \<and>
     (if jc_status capability = ''ok'' then
        (\<exists>text summary payload n. jc_payload capability = Some text \<and> parse_capability rt name (ms_path s) text = Inr summary \<and>
           load_json (pt_limit rt) text = Inr (payload, n) \<and> jq_summary c = md_jsonb srv summary \<and> jq_payload c = md_jsonb srv payload) \<and>
        jq_summary c \<noteq> None \<and> jq_payload c \<noteq> None \<and> jq_last c = Some (ms_observed_height s)
      else case old of
             None \<Rightarrow> jq_summary c = None \<and> jq_payload c = None \<and> jq_last c = None
           | Some kept \<Rightarrow> jq_summary c = Option.bind (jq_summary kept) (md_jsonb srv) \<and>
               jq_payload c = Option.bind (jq_payload kept) (md_jsonb srv) \<and> jq_last c = jq_last kept)"

definition render_stored :: "metadata_snapshot \<Rightarrow> render_columns option \<Rightarrow> render_columns \<Rightarrow> bool" where
  "render_stored s old c \<longleftrightarrow> rq_status c = rc_status (ms_qrender s) \<and>
     (if rc_status (ms_qrender s) = ''ok'' then
        rq_sha256 c = rc_sha256 (ms_qrender s) \<and> rq_byte_count c = rc_byte_count (ms_qrender s) \<and> rq_line_count c = rc_line_count (ms_qrender s) \<and>
        rq_non_empty c = rc_non_empty (ms_qrender s) \<and> rq_last c = Some (ms_observed_height s)
      else case old of
             None \<Rightarrow> rq_sha256 c = None \<and> rq_byte_count c = None \<and> rq_line_count c = None \<and> rq_non_empty c = None \<and> rq_last c = None
           | Some kept \<Rightarrow> rq_sha256 c = rq_sha256 kept \<and> rq_byte_count c = rq_byte_count kept \<and> rq_line_count c = rq_line_count kept \<and>
               rq_non_empty c = rq_non_empty kept \<and> rq_last c = rq_last kept)"

definition storage_stored :: "metadata_snapshot \<Rightarrow> storage_columns option \<Rightarrow> storage_columns \<Rightarrow> bool" where
  "storage_stored s old c \<longleftrightarrow> sq_status c = sc_status (ms_qstorage s) \<and>
     (if sc_status (ms_qstorage s) = ''ok'' then
        sq_bytes c = sc_storage_bytes (ms_qstorage s) \<and> sq_deposit c = sc_deposit_ugnot (ms_qstorage s) \<and> sq_last c = Some (ms_observed_height s)
      else case old of
             None \<Rightarrow> sq_bytes c = None \<and> sq_deposit c = None \<and> sq_last c = None
           | Some kept \<Rightarrow> sq_bytes c = sq_bytes kept \<and> sq_deposit c = sq_deposit kept \<and> sq_last c = sq_last kept)"

lemma describes_files_perm:
  assumes "describes_files r files imports" and "mset files = mset files'" and "mset imports = mset imports'"
  shows "describes_files r files' imports'"
proof -
  have "length (filter P files) = length (filter P files')" for P using arg_cong [OF assms(2), of "\<lambda>m. size (filter_mset P m)"] by (simp flip: mset_filter)
  moreover have "sum_list (map g files) = sum_list (map g files')" for g :: "file_row \<Rightarrow> int"
    using arg_cong [OF assms(2), of "\<lambda>m. sum_mset (image_mset g m)"] by (simp flip: sum_mset_sum_list)
  moreover have "length files = length files'" using arg_cong [OF assms(2), of size] by simp
  ultimately show ?thesis
    using assms(1) mset_eq_setD [OF assms(2)] mset_eq_setD [OF assms(3)] by (simp add: describes_files_def)
qed

lemma new_row_describes:
  assumes "prepare_metadata_snapshot rt s = Inr p" and "new_metadata_row p current = Inr row" and "bind_metadata_row srv row = Inr r"
  shows "describes_files r (map row_of_file (ps_files p)) (concat (map import_rows (ps_files p)))"
proof -
  have bytes: "ps_total_file_bytes p = sum_list (map pf_byte_count (ps_files p))"
  proof -
    have "map pf_byte_count (ps_files p) = map (\<lambda>f. utf8_size (mf_content f)) (ms_files s)"
      using prepare_Inr(2,4) [OF assms(1)] by (auto simp: file_ok_def prepared_of_def list_all_iff)
    then show ?thesis using assms(1) by (auto simp: prepare_metadata_snapshot_def bindE_Inr_iff prepare_files_Inr split: prod.splits)
  qed
  have counts: "ps_gno_file_count p = length (filter (\<lambda>f. pf_file_kind f \<in> {''gno_source'', ''gno_test''}) (ps_files p))"
    "ps_test_file_count p = length (filter (\<lambda>f. pf_file_kind f = ''gno_test'') (ps_files p))"
    "ps_has_gnomod p = list_ex (\<lambda>f. pf_file_kind f = ''gnomod'') (ps_files p)" "ps_total_file_lines p = sum_list (map pf_line_count (ps_files p))"
    "ps_dependency_count p = length (remdups (map fst (concat (map pf_imports (ps_files p)))))"
    using assms(1) by (auto simp: prepare_metadata_snapshot_def bindE_Inr_iff split: prod.splits)
  have sums: "sum_list (map (\<lambda>f. int (g f)) fs) = int (sum_list (map g fs))" for g :: "prepared_file \<Rightarrow> nat" and fs by (induction fs) simp_all
  have paths: "ir_imported_path ` set (concat (map import_rows fs)) = set (map fst (concat (map pf_imports fs)))" for fs
    by (force simp: import_rows_def image_iff)
  have row: "mr_file_count r = int (length (ps_files p))" "mr_gno_file_count r = int (ps_gno_file_count p)" "mr_test_file_count r = int (ps_test_file_count p)"
    "mr_has_gnomod r = ps_has_gnomod p" "mr_total_file_bytes r = int (ps_total_file_bytes p)" "mr_total_file_lines r = int (ps_total_file_lines p)"
    "mr_dependency_count r = int (ps_dependency_count p)"
    using assms(2,3) by (auto simp: new_metadata_row_def bind_metadata_row_def Let_def bindE_Inr_iff guardE_Inr_iff)
  show ?thesis
    unfolding describes_files_def row bytes counts paths length_remdups_card_conv
    by (auto simp: row_of_file_def filter_map o_def sums list_ex_iff image_image intro: rev_image_eqI)
qed

lemma bind_columns_Inr:
  "bind_json_columns srv c = Inr b \<Longrightarrow> jq_status b = jq_status c \<and> jq_last b = jq_last c \<and> jq_summary b = Option.bind (jq_summary c) (md_jsonb srv) \<and>
     jq_payload b = Option.bind (jq_payload c) (md_jsonb srv) \<and> (jq_summary b = None) = (jq_summary c = None) \<and> (jq_payload b = None) = (jq_payload c = None)"
  by (auto simp: bind_json_columns_def bind_json_def bindE_Inr_iff split: option.splits)

lemma json_values_Inr:
  "json_values q old height = Inr c \<Longrightarrow> jq_status c = pj_status q \<and> (jq_summary c, jq_payload c, jq_last c) = json_success_values q old height"
  by (auto simp: json_values_def json_parameter_def bindE_Inr_iff split: prod.splits option.splits if_splits)

lemma rethrow_Inr [simp]: "rethrow code r = Inr x \<longleftrightarrow> r = Inr x"
  by (auto simp: rethrow_def split: sum.splits py_error.splits)

lemma prepare_json_ok:
  assumes "prepare_json_capability rt name capability path = Inr q"
  shows "pj_status q = jc_status capability"
    and "jc_status capability = ''ok'' \<Longrightarrow> \<exists>text summary payload n. jc_payload capability = Some text \<and> parse_capability rt name path text = Inr summary \<and>
      load_json (pt_limit rt) text = Inr (payload, n) \<and> pj_summary q = Some summary \<and> pj_payload q = Some payload"
  using assms by (auto simp: prepare_json_capability_def bindE_Inr_iff split: if_splits option.splits prod.splits)

lemma json_values_stored:
  assumes "prepare_json_capability rt name capability (ms_path s) = Inr q" and "json_values q old (ms_observed_height s) = Inr c" and "bind_json_columns srv c = Inr b"
  shows "json_stored rt srv name s capability old b"
proof (cases "jc_status capability = ''ok''")
  case True
  then show ?thesis
    using prepare_json_ok [OF assms(1)] json_values_Inr [OF assms(2)] bind_columns_Inr [OF assms(3)]
    by (auto simp: json_stored_def json_success_values_def dest!: sym [of "Some _"])
next
  case False
  then show ?thesis
    using prepare_json_ok(1) [OF assms(1)] json_values_Inr [OF assms(2)] bind_columns_Inr [OF assms(3)]
    by (auto simp: json_stored_def json_success_values_def split: option.splits)
qed

lemma new_row_capabilities:
  assumes "prepare_metadata_snapshot rt s = Inr p" and "new_metadata_row p current = Inr row" and "bind_metadata_row srv row = Inr r"
  shows "json_stored rt srv ''qdoc'' s (ms_qdoc s) (map_option mr_qdoc current) (mr_qdoc r)"
    "json_stored rt srv ''qpkg_json'' s (ms_qpkg_json s) (map_option mr_qpkg_json current) (mr_qpkg_json r)"
    "json_stored rt srv ''qfuncs'' s (ms_qfuncs s) (map_option mr_qfuncs current) (mr_qfuncs r)"
    "render_stored s (map_option mr_qrender current) (mr_qrender r)" "storage_stored s (map_option mr_qstorage current) (mr_qstorage r)"
    "mr_path_kind r = ms_path_kind s" "mr_source_rpc_endpoint_id r = ms_source_rpc_endpoint_id s"
proof -
  have s: "ps_snapshot p = s" by (rule prepare_Inr(1) [OF assms(1)])
  have q: "prepare_json_capability rt ''qdoc'' (ms_qdoc s) (ms_path s) = Inr (ps_qdoc p)" "prepare_json_capability rt ''qpkg_json'' (ms_qpkg_json s) (ms_path s) = Inr (ps_qpkg_json p)"
    "prepare_json_capability rt ''qfuncs'' (ms_qfuncs s) (ms_path s) = Inr (ps_qfuncs p)"
    using assms(1) by (auto simp: prepare_metadata_snapshot_def bindE_Inr_iff split: prod.splits)
  have row: "json_values (ps_qdoc p) (map_option mr_qdoc current) (ms_observed_height s) = Inr (mr_qdoc row)"
    "json_values (ps_qpkg_json p) (map_option mr_qpkg_json current) (ms_observed_height s) = Inr (mr_qpkg_json row)"
    "json_values (ps_qfuncs p) (map_option mr_qfuncs current) (ms_observed_height s) = Inr (mr_qfuncs row)"
    "mr_path_kind row = ms_path_kind s" "mr_source_rpc_endpoint_id row = ms_source_rpc_endpoint_id s"
    using assms(2) s by (auto simp: new_metadata_row_def Let_def bindE_Inr_iff)
  have b: "bind_json_columns srv (mr_qdoc row) = Inr (mr_qdoc r)" "bind_json_columns srv (mr_qpkg_json row) = Inr (mr_qpkg_json r)"
    "bind_json_columns srv (mr_qfuncs row) = Inr (mr_qfuncs r)" "mr_path_kind r = mr_path_kind row" "mr_source_rpc_endpoint_id r = mr_source_rpc_endpoint_id row"
    using assms(3) by (auto simp: bind_metadata_row_def bindE_Inr_iff guardE_Inr_iff)
  show "json_stored rt srv ''qdoc'' s (ms_qdoc s) (map_option mr_qdoc current) (mr_qdoc r)"
    "json_stored rt srv ''qpkg_json'' s (ms_qpkg_json s) (map_option mr_qpkg_json current) (mr_qpkg_json r)"
    "json_stored rt srv ''qfuncs'' s (ms_qfuncs s) (map_option mr_qfuncs current) (mr_qfuncs r)"
    by (rule json_values_stored [OF q(1) row(1) b(1)], rule json_values_stored [OF q(2) row(2) b(2)], rule json_values_stored [OF q(3) row(3) b(3)])
  show "render_stored s (map_option mr_qrender current) (mr_qrender r)" "storage_stored s (map_option mr_qstorage current) (mr_qstorage r)"
    unfolding bind_row_frame(4,5) [OF assms(3)] new_row_frame(6,7) [OF assms(2)] s
    by (auto simp: render_stored_def storage_stored_def render_values_def storage_values_def split: option.splits)
  show "mr_path_kind r = ms_path_kind s" "mr_source_rpc_endpoint_id r = ms_source_rpc_endpoint_id s" by (simp_all add: b(4,5) row(4,5))
qed

text \<open>C35: A successful publication leaves exactly the snapshot. Its files are stored with the columns and the imports computed from
  their contents; every column of its row is that of the snapshot: kind, height, status, fingerprint, endpoint and time, the
  counts and sums of the files and imports that are stored, and for each of the five capabilities the value of a success with
  this height, or beside a failure what the row had before. Nothing of any other path is touched. The code skips the rewrite
  of the files when the fingerprint is unchanged, so this assumes that the stored files and the new ones do not collide under
  SHA-256.\<close>

theorem published_snapshot_stored:
  assumes "(md_step rt srv)\<^sup>*\<^sup>* empty_metadata_db d" and "publish_metadata_snapshot_cursor rt srv s d = Inr (p, d')"
    and "key = (ms_chain_id s, ms_path s)"
    and "sha256 (fingerprint_input (stored_files d key)) = sha256 (fingerprint_input (ms_files s)) \<Longrightarrow>
      fingerprint_input (stored_files d key) = fingerprint_input (ms_files s)"
  shows "mset (stored_files d' key) = mset (ms_files s) \<and>
    mset (dm_files d' key) = mset (map (\<lambda>f. row_of_file (prepared_of f)) (ms_files s)) \<and>
    mset (dm_imports d' key) = mset (concat (map (\<lambda>f. import_rows (prepared_of f)) (ms_files s))) \<and>
    (\<exists>r. dm_rows d' key = Some r \<and> mr_path_kind r = ms_path_kind s \<and> mr_observed_height r = ms_observed_height s \<and>
       mr_collection_status r = ms_collection_status s \<and> mr_content_sha256 r = hexdigest (sha256 (fingerprint_input (ms_files s))) \<and>
       describes_files r (dm_files d' key) (dm_imports d' key) \<and> mr_source_rpc_endpoint_id r = ms_source_rpc_endpoint_id s \<and>
       json_stored rt srv ''qdoc'' s (ms_qdoc s) (map_option mr_qdoc (dm_rows d key)) (mr_qdoc r) \<and>
       json_stored rt srv ''qpkg_json'' s (ms_qpkg_json s) (map_option mr_qpkg_json (dm_rows d key)) (mr_qpkg_json r) \<and>
       json_stored rt srv ''qfuncs'' s (ms_qfuncs s) (map_option mr_qfuncs (dm_rows d key)) (mr_qfuncs r) \<and>
       render_stored s (map_option mr_qrender (dm_rows d key)) (mr_qrender r) \<and>
       storage_stored s (map_option mr_qstorage (dm_rows d key)) (mr_qstorage r) \<and> mr_collected_at r = instant (ms_collected_at s)) \<and>
    (\<forall>k. k \<noteq> key \<longrightarrow> dm_rows d' k = dm_rows d k \<and> dm_files d' k = dm_files d k \<and> dm_imports d' k = dm_imports d k)"
proof -
  have ok: "store_ok srv d" by (rule metadata.reachable_inv [OF refl assms(1)])
  then have old: "files_of_row d key" unfolding store_ok_def by blast
  have new: "files_of_row d' key" by (rule publish_files [OF old assms(2,3)])
  from assms(2,3) obtain row bound where prep: "prepare_metadata_snapshot rt s = Inr p" and row: "new_metadata_row p (dm_rows d key) = Inr row"
    and b: "bind_metadata_row srv row = Inr bound" and rows: "dm_rows d' = (dm_rows d)(key := Some bound)"
    and files: "if map_option mr_content_sha256 (dm_rows d key) = Some (ps_content_sha256 p) then dm_files d' = dm_files d \<and> dm_imports d' = dm_imports d
     else dm_files d' = (dm_files d)(key := map row_of_file (ps_files p)) \<and> dm_imports d' = (dm_imports d)(key := concat (map import_rows (ps_files p)))"
    by (rule publish_Inr)
  note p = prepare_Inr [OF prep]
  have stored: "mset (stored_files d' key) = mset (ms_files s)"
  proof (cases "map_option mr_content_sha256 (dm_rows d key) = Some (ps_content_sha256 p)")
    case True
    then have "hexdigest (sha256 (fingerprint_input (stored_files d key))) = hexdigest (sha256 (fingerprint_input (ms_files s)))"
      using old p(3) by (auto simp: files_of_row_def Let_def)
    then have "fingerprint_input (stored_files d key) = fingerprint_input (ms_files s)" by (intro assms(4) hexdigest_inj)
    moreover have "list_all file_storable fs" if "list_all file_ok fs" "utf8_names fs" for fs
      using that by (auto simp: list_all_iff utf8_names_def intro: file_ok_storable)
    ultimately have "mset (stored_files d key) = mset (ms_files s)"
      using old p(4,5) by (intro fingerprint_input_inj) (auto simp: files_of_row_def Let_def)
    then show ?thesis using True files by (simp add: stored_files_def)
  next
    case False
    then have "dm_files d' key = map row_of_file (map prepared_of (ms_files s))" using files p(2) by simp
    then show ?thesis using stored_after_write [OF _ p(4)] by simp
  qed
  note files' = stored_snapshot_files [OF new stored]
  have "describes_files bound (dm_files d' key) (dm_imports d' key)"
    using new_row_describes [OF prep row b] by (rule describes_files_perm) (simp_all only: p(2) files')
  then show ?thesis
    using stored files' rows publish_frame [OF assms(2)] p(1,3) bind_row_frame(1-3,6) [OF b] new_row_frame(1-4) [OF row] new_row_capabilities [OF prep row b] assms(3)
    by (simp add: o_def)
qed

section \<open>Failures keep the last success\<close>

lemma json_values_kept:
  assumes "json_values prepared current height = Inr c" and "bind_json_columns srv c = Inr b" and "current = Some old" and "json_settled srv old"
    and "jq_status b \<noteq> ''ok''"
  shows "b = old\<lparr>jq_status := jq_status b\<rparr>"
  using assms
  by (auto simp: json_values_def json_success_values_def json_parameter_def bind_json_columns_def bind_json_def json_settled_def opt_all_def bindE_Inr_iff
      split: option.splits if_splits)

text \<open>C36: A capability that failed in a collection keeps the value, the counts and the height of its last success: only its status changes.
  (PostgreSQL gives a stored \<open>jsonb\<close> value back as one it stores unchanged.)\<close>

theorem failed_capability_kept:
  assumes "(md_step rt srv)\<^sup>*\<^sup>* empty_metadata_db d" and "jsonb_stable srv" and "publish_metadata_snapshot_cursor rt srv s d = Inr (p, d')"
    and "dm_rows d (ms_chain_id s, ms_path s) = Some c" and "dm_rows d' (ms_chain_id s, ms_path s) = Some r"
  shows "(jq_status (mr_qdoc r) \<noteq> ''ok'' \<longrightarrow> mr_qdoc r = (mr_qdoc c)\<lparr>jq_status := jq_status (mr_qdoc r)\<rparr>) \<and>
    (jq_status (mr_qpkg_json r) \<noteq> ''ok'' \<longrightarrow> mr_qpkg_json r = (mr_qpkg_json c)\<lparr>jq_status := jq_status (mr_qpkg_json r)\<rparr>) \<and>
    (jq_status (mr_qfuncs r) \<noteq> ''ok'' \<longrightarrow> mr_qfuncs r = (mr_qfuncs c)\<lparr>jq_status := jq_status (mr_qfuncs r)\<rparr>) \<and>
    (rq_status (mr_qrender r) \<noteq> ''ok'' \<longrightarrow> mr_qrender r = (mr_qrender c)\<lparr>rq_status := rq_status (mr_qrender r)\<rparr>) \<and>
    (sq_status (mr_qstorage r) \<noteq> ''ok'' \<longrightarrow> mr_qstorage r = (mr_qstorage c)\<lparr>sq_status := sq_status (mr_qstorage r)\<rparr>)"
proof -
  let ?key = "(ms_chain_id s, ms_path s)"
  have "store_ok srv d" by (rule metadata.reachable_inv [OF refl assms(1)])
  then have "opt_all (\<lambda>r. check_metadata_row ?key r \<and> (jsonb_stable srv \<longrightarrow> row_settled srv r)) (dm_rows d ?key)" unfolding store_ok_def by blast
  then have settled: "json_settled srv (mr_qdoc c)" "json_settled srv (mr_qpkg_json c)" "json_settled srv (mr_qfuncs c)"
    using assms(2,4) by (simp_all add: opt_all_def row_settled_def)
  from assms(3) refl obtain row where row: "new_metadata_row p (dm_rows d ?key) = Inr row" and b: "bind_metadata_row srv row = Inr r"
    using assms(5) by (elim publish_Inr) auto
  obtain q1 q2 q3 where q: "json_values (ps_qdoc p) (Some (mr_qdoc c)) (ms_observed_height (ps_snapshot p)) = Inr q1"
    "json_values (ps_qpkg_json p) (Some (mr_qpkg_json c)) (ms_observed_height (ps_snapshot p)) = Inr q2"
    "json_values (ps_qfuncs p) (Some (mr_qfuncs c)) (ms_observed_height (ps_snapshot p)) = Inr q3"
    "mr_qdoc row = q1" "mr_qpkg_json row = q2" "mr_qfuncs row = q3"
    using row assms(4) by (auto simp: new_metadata_row_def Let_def bindE_Inr_iff)
  have j: "bind_json_columns srv q1 = Inr (mr_qdoc r)" "bind_json_columns srv q2 = Inr (mr_qpkg_json r)" "bind_json_columns srv q3 = Inr (mr_qfuncs r)"
    using b q(4-6) by (auto simp: bind_metadata_row_def bindE_Inr_iff guardE_Inr_iff)
  show ?thesis
    using json_values_kept [OF q(1) j(1) refl settled(1)] json_values_kept [OF q(2) j(2) refl settled(2)] json_values_kept [OF q(3) j(3) refl settled(3)]
      bind_row_frame(4,5) [OF b] new_row_frame(6,7) [OF row] assms(4)
    by (auto simp: render_values_def storage_values_def split: if_splits)
qed

section \<open>No way back\<close>

definition not_before :: "int \<Rightarrow> int \<Rightarrow> int \<Rightarrow> int \<Rightarrow> bool" where
  "not_before h t h' t' \<longleftrightarrow> h < h' \<or> (h = h' \<and> t \<le> t')"

definition last_le :: "int option \<Rightarrow> int option \<Rightarrow> bool" where
  "last_le a b \<longleftrightarrow> (\<forall>h. a = Some h \<longrightarrow> (\<exists>h'. b = Some h' \<and> h \<le> h'))"

definition row_le :: "metadata_row \<Rightarrow> metadata_row \<Rightarrow> bool" where
  "row_le c r \<longleftrightarrow> not_before (mr_observed_height c) (mr_collected_at c) (mr_observed_height r) (mr_collected_at r) \<and>
     last_le (jq_last (mr_qdoc c)) (jq_last (mr_qdoc r)) \<and> last_le (jq_last (mr_qpkg_json c)) (jq_last (mr_qpkg_json r)) \<and>
     last_le (jq_last (mr_qfuncs c)) (jq_last (mr_qfuncs r)) \<and> last_le (rq_last (mr_qrender c)) (rq_last (mr_qrender r)) \<and>
     last_le (sq_last (mr_qstorage c)) (sq_last (mr_qstorage r))"

definition refresh_le :: "refresh_row \<Rightarrow> refresh_row \<Rightarrow> bool" where
  "refresh_le c r \<longleftrightarrow> not_before (fw_observed_height c) (fw_started_at c) (fw_observed_height r) (fw_started_at r) \<and>
     last_le (fw_last_successful_height c) (fw_last_successful_height r) \<and>
     (fw_observed_height r = fw_observed_height c \<and> fw_started_at r = fw_started_at c \<and> fw_run_status c \<noteq> ''running'' \<longrightarrow> fw_run_status r \<noteq> ''running'')"

definition md_le :: "metadata_db \<Rightarrow> metadata_db \<Rightarrow> bool" where
  "md_le d d' \<longleftrightarrow> (\<forall>key c. dm_rows d key = Some c \<longrightarrow> (\<exists>r. dm_rows d' key = Some r \<and> row_le c r)) \<and>
     (\<forall>chain c. dm_refresh d chain = Some c \<longrightarrow> (\<exists>r. dm_refresh d' chain = Some r \<and> refresh_le c r))"

lemma last_le_trans: "last_le a b \<Longrightarrow> last_le b c \<Longrightarrow> last_le a c"
  unfolding last_le_def by fastforce

lemma last_le_refl [simp]: "last_le a a"
  by (simp add: last_le_def)

lemma not_before_trans: "not_before h t h' t' \<Longrightarrow> not_before h' t' h'' t'' \<Longrightarrow> not_before h t h'' t''"
  by (auto simp: not_before_def)

lemma row_le_trans: "row_le a b \<Longrightarrow> row_le b c \<Longrightarrow> row_le a c"
  unfolding row_le_def by (blast intro: last_le_trans not_before_trans)

lemma refresh_le_trans: "refresh_le a b \<Longrightarrow> refresh_le b c \<Longrightarrow> refresh_le a c"
proof -
  assume a: "refresh_le a b" and b: "refresh_le b c"
  have before: "not_before (fw_observed_height a) (fw_started_at a) (fw_observed_height b) (fw_started_at b)"
    "not_before (fw_observed_height b) (fw_started_at b) (fw_observed_height c) (fw_started_at c)"
    using a b unfolding refresh_le_def by blast+
  have "fw_run_status c \<noteq> ''running''" if "fw_observed_height c = fw_observed_height a" "fw_started_at c = fw_started_at a" "fw_run_status a \<noteq> ''running''"
  proof -
    have "fw_observed_height b = fw_observed_height a" "fw_started_at b = fw_started_at a"
      using before that(1,2) unfolding not_before_def by linarith+
    then show ?thesis using a b that unfolding refresh_le_def by metis
  qed
  moreover have "not_before (fw_observed_height a) (fw_started_at a) (fw_observed_height c) (fw_started_at c)"
    "last_le (fw_last_successful_height a) (fw_last_successful_height c)"
    using a b unfolding refresh_le_def by (blast intro: last_le_trans not_before_trans)+
  ultimately show ?thesis unfolding refresh_le_def by blast
qed

interpretation metadata_order: store_order md_le
proof
  show "md_le d d" for d by (simp add: md_le_def row_le_def refresh_le_def not_before_def)
  show "md_le a c" if "md_le a b" "md_le b c" for a b c using that unfolding md_le_def by (meson row_le_trans refresh_le_trans)
qed

lemma json_values_last:
  assumes "json_values prepared (Some old) height = Inr c" and "bind_json_columns srv c = Inr b" and "check_last h0 st (jq_last old)" and "h0 \<le> height"
  shows "last_le (jq_last old) (jq_last b)"
  using assms
  by (auto simp: json_values_def json_success_values_def json_parameter_def bind_json_columns_def bindE_Inr_iff last_le_def check_last_def opt_all_def
      split: option.splits if_splits)

lemma publish_row_le:
  assumes "publish_metadata_snapshot_cursor rt srv s d = Inr (p, d')" and "dm_rows d (ms_chain_id s, ms_path s) = Some c"
    and "check_metadata_row (ms_chain_id s, ms_path s) c"
  shows "\<exists>r. dm_rows d' (ms_chain_id s, ms_path s) = Some r \<and> row_le c r"
proof -
  let ?key = "(ms_chain_id s, ms_path s)"
  from assms(1) refl obtain row r where prep: "prepare_metadata_snapshot rt s = Inr p" and stale: "\<not> is_stale c s"
    and row: "new_metadata_row p (dm_rows d ?key) = Inr row" and b: "bind_metadata_row srv row = Inr r" and rows: "dm_rows d' = (dm_rows d)(?key := Some r)"
    by (rule publish_Inr) (use assms(2) in blast)
  have s: "ps_snapshot p = s" by (rule prepare_Inr(1) [OF prep])
  have h: "mr_observed_height c \<le> ms_observed_height s" using stale by (simp add: is_stale_def)
  obtain q1 q2 q3 where q: "json_values (ps_qdoc p) (Some (mr_qdoc c)) (ms_observed_height s) = Inr q1"
    "json_values (ps_qpkg_json p) (Some (mr_qpkg_json c)) (ms_observed_height s) = Inr q2"
    "json_values (ps_qfuncs p) (Some (mr_qfuncs c)) (ms_observed_height s) = Inr q3"
    "mr_qdoc row = q1" "mr_qpkg_json row = q2" "mr_qfuncs row = q3"
    using row assms(2) s by (auto simp: new_metadata_row_def Let_def bindE_Inr_iff)
  have j: "bind_json_columns srv q1 = Inr (mr_qdoc r)" "bind_json_columns srv q2 = Inr (mr_qpkg_json r)" "bind_json_columns srv q3 = Inr (mr_qfuncs r)"
    using b q(4-6) by (auto simp: bind_metadata_row_def bindE_Inr_iff guardE_Inr_iff)
  have check: "check_last (mr_observed_height c) (jq_status (mr_qdoc c)) (jq_last (mr_qdoc c))"
    "check_last (mr_observed_height c) (jq_status (mr_qpkg_json c)) (jq_last (mr_qpkg_json c))"
    "check_last (mr_observed_height c) (jq_status (mr_qfuncs c)) (jq_last (mr_qfuncs c))"
    "check_last (mr_observed_height c) (rq_status (mr_qrender c)) (rq_last (mr_qrender c))"
    "check_last (mr_observed_height c) (sq_status (mr_qstorage c)) (sq_last (mr_qstorage c))"
    using assms(3) by (simp_all add: check_metadata_row_def check_json_columns_def check_render_columns_def check_storage_columns_def)
  have "last_le (rq_last (mr_qrender c)) (rq_last (mr_qrender r))" "last_le (sq_last (mr_qstorage c)) (sq_last (mr_qstorage r))"
    using check(4,5) h assms(2)
    by (auto simp: bind_row_frame(4,5) [OF b] new_row_frame(6,7) [OF row] s render_values_def storage_values_def last_le_def check_last_def opt_all_def split: option.splits)
  moreover have "not_before (mr_observed_height c) (mr_collected_at c) (mr_observed_height r) (mr_collected_at r)"
    using stale by (auto simp: is_stale_def not_before_def bind_row_frame(2,3) [OF b] new_row_frame(2,3) [OF row] s)
  ultimately have "row_le c r"
    using json_values_last [OF q(1) j(1) check(1) h] json_values_last [OF q(2) j(2) check(2) h] json_values_last [OF q(3) j(3) check(3) h] by (simp add: row_le_def)
  with rows show ?thesis by simp
qed

lemma refresh_row_le:
  assumes "persist_metadata_refresh_state_cursor s d = Inr d'" and "dm_refresh d (rf_chain_id s) = Some c"
  shows "\<exists>r. dm_refresh d' (rf_chain_id s) = Some r \<and> refresh_le c r"
  using assms(1)
proof (rule refresh_Inr)
  fix r
  assume d': "d' = d\<lparr>dm_refresh := (dm_refresh d)(rf_chain_id s := Some r)\<rparr>" and r: "fw_observed_height r = rf_observed_height s"
    "fw_started_at r = instant (rf_started_at s)" "fw_run_status r = rf_run_status s"
    and ok: "refresh_success s (dm_refresh d (rf_chain_id s)) = Inr (fw_last_successful_height r, fw_last_successful_at r)"
  have "\<not> rf_observed_height s < fw_observed_height c" "\<not> (fw_observed_height c = rf_observed_height s \<and> instant (rf_started_at s) < fw_started_at c)"
    "\<not> (fw_observed_height c = rf_observed_height s \<and> fw_started_at c = instant (rf_started_at s) \<and> fw_run_status c \<noteq> ''running'' \<and> rf_run_status s = ''running'')"
    using ok assms(2) by (auto simp: refresh_success_def Let_def bindE_Inr_iff guardE_Inr_iff)
  moreover have "last_le (fw_last_successful_height c) (fw_last_successful_height r)"
  proof (cases "rf_last_successful_height s")
    case None
    then show ?thesis using ok assms(2) by (simp add: refresh_success_def bindE_Inr_iff guardE_Inr_iff)
  next
    case (Some h)
    then have "fw_last_successful_height r = Some h" "opt_all (\<lambda>h'. h' \<le> h) (fw_last_successful_height c)"
      using ok assms(2) by (simp_all add: refresh_success_def bindE_Inr_iff guardE_Inr_iff)
    then show ?thesis by (auto simp: last_le_def opt_all_def)
  qed
  ultimately have "refresh_le c r" using r by (auto simp: refresh_le_def not_before_def)
  with d' show ?thesis by simp
qed

lemma md_step_le:
  assumes "md_step rt srv d d'" and "store_ok srv d"
  shows "md_le d d'"
  using assms
proof (induction rule: md_step.induct)
  case (publish s d p d')
  have "\<exists>r. dm_rows d' key = Some r \<and> row_le c r" if c: "dm_rows d key = Some c" for key c
  proof (cases "key = (ms_chain_id s, ms_path s)")
    case True
    have "opt_all (\<lambda>r. check_metadata_row key r \<and> (jsonb_stable srv \<longrightarrow> row_settled srv r)) (dm_rows d key)" using publish.prems unfolding store_ok_def by blast
    then show ?thesis using publish_row_le [OF publish.hyps] c True by (simp add: opt_all_def)
  next
    case False
    then show ?thesis using publish_frame(1) [OF publish.hyps False] c by (simp add: row_le_def not_before_def)
  qed
  moreover have "dm_refresh d' = dm_refresh d" using publish.hyps refl by (rule publish_Inr)
  ultimately show ?case by (simp add: md_le_def refresh_le_def not_before_def)
next
  case (refresh s d d')
  then obtain r where d': "d' = d\<lparr>dm_refresh := (dm_refresh d)(rf_chain_id s := Some r)\<rparr>" by (elim refresh_Inr)
  have "\<exists>r. dm_refresh d' chain = Some r \<and> refresh_le c r" if "dm_refresh d chain = Some c" for chain c
    using refresh_row_le [OF refresh.hyps] that d' by (cases "chain = rf_chain_id s") (auto simp: refresh_le_def not_before_def)
  then show ?case using d' by (simp add: md_le_def row_le_def not_before_def)
next
  case (others d c e)
  show ?case using metadata_order.le_refl [of d] by (simp add: md_le_def)
qed

lemma md_steps_le:
  assumes "(md_step rt srv)\<^sup>*\<^sup>* d d'" and "store_ok srv d"
  shows "md_le d d' \<and> store_ok srv d'"
  using assms
proof (induction rule: rtranclp_induct)
  case base
  then show ?case using metadata_order.le_refl by blast
next
  case (step b c)
  then show ?case using md_step_le [of rt srv b c] md_step_ok [of rt srv b c] metadata_order.le_trans [of d b c] by blast
qed

text \<open>Over any sequence of publications and run records, of any number of collectors, no height goes back: a published path stays
  published, its height never decreases, nor does its collection time as long as the height stays the same; the height of the
  last success of every capability never decreases and is never lost. The same holds for the refresh state of a chain and the
  start of its run, where a finished run is not running again.\<close>

theorem metadata_history_monotone:
  assumes "(md_step rt srv)\<^sup>*\<^sup>* empty_metadata_db d" and "(md_step rt srv)\<^sup>*\<^sup>* d d'"
  shows "(\<forall>key c. dm_rows d key = Some c \<longrightarrow> (\<exists>r. dm_rows d' key = Some r \<and> row_le c r)) \<and>
    (\<forall>chain c. dm_refresh d chain = Some c \<longrightarrow> (\<exists>r. dm_refresh d' chain = Some r \<and> refresh_le c r))"
  using md_steps_le [OF assms(2) metadata.reachable_inv [OF refl assms(1)]] by (simp add: md_le_def)

section \<open>A path published twice\<close>

definition md_runtime :: py_runtime where
  "md_runtime = \<lparr>pt_limit = 100, pt_printable = (\<lambda>_. True)\<rparr>"

definition md_postgres :: md_server where
  "md_postgres = \<lparr>md_jsonb = Some, md_cntrl = (\<lambda>c. c < 32)\<rparr>"

definition md_failed :: json_capability where
  "md_failed = \<lparr>jc_status = ''rpc_error'', jc_payload = None\<rparr>"

definition md_file :: metadata_file where
  "md_file = \<lparr>mf_filename = u ''gnomod.toml'', mf_content = []\<rparr>"

definition md_sample :: "int \<Rightarrow> metadata_snapshot" where
  "md_sample height = \<lparr>ms_chain_id = ''c'', ms_path = u ''gno.land/r/a'', ms_path_kind = ''realm'', ms_observed_height = height,
     ms_collection_status = ''partial'', ms_expected_filenames = [u ''gnomod.toml''], ms_files = [md_file], ms_collected_at = Aware 7,
     ms_source_rpc_endpoint_id = None, ms_qdoc = md_failed, ms_qpkg_json = md_failed, ms_qfuncs = md_failed,
     ms_qrender = \<lparr>rc_status = ''rpc_error'', rc_sha256 = None, rc_byte_count = None, rc_line_count = None, rc_non_empty = None\<rparr>,
     ms_qstorage = (if height = 5 then \<lparr>sc_status = ''ok'', sc_storage_bytes = Some 10, sc_deposit_ugnot = Some 20\<rparr>
       else \<lparr>sc_status = ''rpc_error'', sc_storage_bytes = None, sc_deposit_ugnot = None\<rparr>)\<rparr>"

lemma md_file_ok: "file_ok md_file" "prepared_of md_file = \<lparr>pf_filename = u ''gnomod.toml'', pf_content = [], pf_file_kind = ''gnomod'', pf_byte_count = 0,
    pf_line_count = 0, pf_sha256 = hexdigest (sha256 []), pf_package_declared = False, pf_import_candidate_count = 0, pf_imports = []\<rparr>"
  by (auto simp: file_ok_def prepared_of_def md_file_def safe_filename_def MAX_FILENAME_LENGTH_def drive_prefix_def ascii_letter_def source_part_def ends_with_def
     usplitlines_def file_kind_def utf8_bytes_def)

lemma md_listing: "validate_listing (md_sample h) = Inr ()"
  using md_file_ok(1)
  by (auto simp: validate_listing_Inr md_sample_def md_file_def file_ok_def parse_qfile_listing_def text_of_def scalar_def MAX_ABCI_RESPONSE_BYTES_def utf8_char_length guardE_def
      usplitlines_def uline_break_def MAX_FILES_def add_filename_def listing_of_def Let_def)

lemma md_head: "1 \<le> h \<Longrightarrow> validate_head (md_sample h) = Inr ()"
  using md_listing [of h] by (simp add: validate_head_Inr) (simp add: md_sample_def chain_re_def path_kind_of_def path_part_def COLLECTION_STATUSES_def aware_def opt_all_def)

lemma md_sample_fields:
  "ms_chain_id (md_sample h) = ''c''" "ms_path (md_sample h) = u ''gno.land/r/a''" "ms_path_kind (md_sample h) = ''realm''" "ms_observed_height (md_sample h) = h"
  "ms_collection_status (md_sample h) = ''partial''" "ms_files (md_sample h) = [md_file]" "ms_collected_at (md_sample h) = Aware 7"
  "ms_source_rpc_endpoint_id (md_sample h) = None" "ms_qdoc (md_sample h) = md_failed" "ms_qpkg_json (md_sample h) = md_failed" "ms_qfuncs (md_sample h) = md_failed"
  "ms_qrender (md_sample h) = \<lparr>rc_status = ''rpc_error'', rc_sha256 = None, rc_byte_count = None, rc_line_count = None, rc_non_empty = None\<rparr>"
  "ms_qstorage (md_sample h) = (if h = 5 then \<lparr>sc_status = ''ok'', sc_storage_bytes = Some 10, sc_deposit_ugnot = Some 20\<rparr>
     else \<lparr>sc_status = ''rpc_error'', sc_storage_bytes = None, sc_deposit_ugnot = None\<rparr>)"
  by (simp_all add: md_sample_def)

lemma md_sample_checks:
  "prepare_json_capability rt name md_failed path = Inr \<lparr>pj_status = ''rpc_error'', pj_summary = None, pj_payload = None\<rparr>"
  "validate_render_capability (ms_qrender (md_sample h)) = Inr ()" "validate_storage (ms_qstorage (md_sample h)) = Inr ()"
  "metadata_fingerprint [md_file] = Inr (hexdigest (sha256 (fingerprint_input [md_file])))"
  using md_file_ok(1)
  by (simp_all add: md_sample_fields md_failed_def prepare_json_capability_def validate_render_capability_def validate_storage_def CAPABILITY_STATUSES_def int_within_def
      guardE_def fingerprint_Inr utf8_names_def) (simp_all add: md_file_def scalar_def)

lemma md_sample_files: "foldE prepare_file [md_file] ([], 0) = Inr ([prepared_of md_file], 0)"
  using md_file_ok(1) by (simp add: prepare_files_Inr MAX_SNAPSHOT_BYTES_def del: foldE.simps) (simp add: md_file_def)

definition md_prepared :: "int \<Rightarrow> prepared_snapshot" where
  "md_prepared h = \<lparr>ps_snapshot = md_sample h, ps_files = [prepared_of md_file], ps_content_sha256 = hexdigest (sha256 (fingerprint_input [md_file])),
     ps_gno_file_count = 0, ps_test_file_count = 0, ps_has_gnomod = True, ps_total_file_bytes = 0, ps_total_file_lines = 0, ps_dependency_count = 0,
     ps_qdoc = \<lparr>pj_status = ''rpc_error'', pj_summary = None, pj_payload = None\<rparr>, ps_qpkg_json = \<lparr>pj_status = ''rpc_error'', pj_summary = None, pj_payload = None\<rparr>,
     ps_qfuncs = \<lparr>pj_status = ''rpc_error'', pj_summary = None, pj_payload = None\<rparr>\<rparr>"

lemma md_sample_prepared: "1 \<le> h \<Longrightarrow> prepare_metadata_snapshot md_runtime (md_sample h) = Inr (md_prepared h)"
  using md_sample_checks(2,3) [of h]
  by (simp add: prepare_metadata_snapshot_def md_head md_sample_fields(3,6,9-11) md_sample_checks(1,4) md_sample_files md_prepared_def guardE_def del: foldE.simps)
    (simp add: md_file_ok(2))

definition md_row :: "int \<Rightarrow> metadata_row" where
  "md_row h = \<lparr>mr_path_kind = ''realm'', mr_observed_height = h, mr_collection_status = ''partial'',
     mr_content_sha256 = hexdigest (sha256 (fingerprint_input [md_file])), mr_file_count = 1, mr_gno_file_count = 0, mr_test_file_count = 0,
     mr_has_gnomod = True, mr_total_file_bytes = 0, mr_total_file_lines = 0, mr_dependency_count = 0, mr_source_rpc_endpoint_id = None,
     mr_qdoc = \<lparr>jq_status = ''rpc_error'', jq_summary = None, jq_payload = None, jq_last = None\<rparr>,
     mr_qpkg_json = \<lparr>jq_status = ''rpc_error'', jq_summary = None, jq_payload = None, jq_last = None\<rparr>,
     mr_qfuncs = \<lparr>jq_status = ''rpc_error'', jq_summary = None, jq_payload = None, jq_last = None\<rparr>,
     mr_qrender = \<lparr>rq_status = ''rpc_error'', rq_sha256 = None, rq_byte_count = None, rq_line_count = None, rq_non_empty = None, rq_last = None\<rparr>,
     mr_qstorage = \<lparr>sq_status = (if h = 5 then ''ok'' else ''rpc_error''), sq_bytes = Some 10, sq_deposit = Some 20, sq_last = Some 5\<rparr>, mr_collected_at = 7\<rparr>"

definition md_key_a :: md_key where
  "md_key_a = (''c'', u ''gno.land/r/a'')"

definition md_start :: metadata_db where
  "md_start = empty_metadata_db\<lparr>dm_catalog := [md_key_a \<mapsto> ''realm''], dm_endpoint_ids := []\<rparr>"

definition md_first :: metadata_db where
  "md_first = md_start\<lparr>dm_rows := [md_key_a \<mapsto> md_row 5], dm_files := (\<lambda>_. [])(md_key_a := [row_of_file (prepared_of md_file)])\<rparr>"

definition md_second :: metadata_db where
  "md_second = md_first\<lparr>dm_rows := [md_key_a \<mapsto> md_row 6]\<rparr>"

lemma md_row_ok: "5 \<le> h \<Longrightarrow> check_metadata_row md_key_a (md_row h)"
  by (simp add: check_metadata_row_def md_row_def md_key_a_def check_path_def path_kind_of_def path_part_def COLLECTION_STATUSES_def lower_sha_digest
      check_json_columns_def check_render_columns_def check_storage_columns_def CAPABILITY_STATUSES_def opt_all_def check_last_def int_within_def)

lemma md_new_row:
  "new_metadata_row (md_prepared 5) None = Inr (md_row 5)" "new_metadata_row (md_prepared h) (Some (md_row k)) = Inr (md_row h)"
  by (simp_all add: new_metadata_row_def md_prepared_def md_sample_fields json_values_def json_success_values_def json_parameter_def render_values_def
      storage_values_def md_row_def instant_def)

lemma md_bound_row: "h < 2 ^ 63 \<Longrightarrow> bind_metadata_row srv (md_row h) = Inr (md_row h)"
  by (simp add: bind_metadata_row_def md_row_def opt_all_def bind_json_columns_def bind_json_def)

lemma md_write_file:
  "dm_rows d md_key_a \<noteq> None \<Longrightarrow> dm_files d md_key_a = [] \<Longrightarrow>
   foldE (write_file md_postgres md_key_a) [prepared_of md_file] d = Inr (d\<lparr>dm_files := (dm_files d)(md_key_a := [row_of_file (prepared_of md_file)])\<rparr>)"
  using md_file_ok(1)
  by (simp add: write_file_def insert_file_def row_of_file_def import_rows_def md_file_ok(2) guardE_def check_file_row_def md_postgres_def
      drive_prefix_def ascii_letter_def lower_sha_digest utf8_bytes_def)

lemma md_prepared_fields: "ps_content_sha256 (md_prepared h) = hexdigest (sha256 (fingerprint_input [md_file]))" "ps_files (md_prepared h) = [prepared_of md_file]"
  by (simp_all add: md_prepared_def)

lemma md_start_parts: "dm_rows md_start key = None" "dm_catalog md_start md_key_a = Some ''realm''"
  by (simp_all add: md_start_def empty_metadata_db_def)

lemma md_publish_first: "publish_metadata_snapshot_cursor md_runtime md_postgres (md_sample 5) md_start = Inr (md_prepared 5, md_first)"
proof -
  have key: "(ms_chain_id (md_sample h), ms_path (md_sample h)) = md_key_a" for h by (simp add: md_sample_fields md_key_a_def)
  have "upsert_metadata_row md_postgres md_key_a (md_row 5) md_start = Inr (md_start\<lparr>dm_rows := [md_key_a \<mapsto> md_row 5]\<rparr>)"
    by (simp add: upsert_metadata_row_def md_bound_row md_row_ok md_start_def empty_metadata_db_def guardE_def) (simp add: md_row_def opt_all_def)
  then show ?thesis
    unfolding publish_metadata_snapshot_cursor_def Let_def key
    by (simp add: md_sample_prepared md_sample_fields(3) md_new_row md_prepared_fields guardE_def md_start_parts md_write_file delete_files_def md_first_def
        md_start_def empty_metadata_db_def fun_upd_idem del: foldE.simps)
qed

lemma md_publish_second: "publish_metadata_snapshot_cursor md_runtime md_postgres (md_sample 6) md_first = Inr (md_prepared 6, md_second)"
proof -
  have key: "(ms_chain_id (md_sample h), ms_path (md_sample h)) = md_key_a" for h by (simp add: md_sample_fields md_key_a_def)
  have parts: "dm_rows md_first md_key_a = Some (md_row 5)" "dm_catalog md_first md_key_a = Some ''realm''" by (simp_all add: md_first_def md_start_def)
  have "\<not> is_stale (md_row 5) (md_sample 6)" "mr_content_sha256 (md_row 5) = ps_content_sha256 (md_prepared 6)"
    by (simp_all add: is_stale_def md_row_def md_sample_fields md_prepared_fields)
  moreover have "upsert_metadata_row md_postgres md_key_a (md_row 6) md_first = Inr md_second"
    by (simp add: upsert_metadata_row_def md_bound_row md_row_ok parts md_start_parts guardE_def md_second_def md_first_def) (simp add: md_row_def opt_all_def)
  ultimately show ?thesis
    unfolding publish_metadata_snapshot_cursor_def Let_def key
    by (simp add: md_sample_prepared md_sample_fields(3) md_new_row parts guardE_def)
qed

lemma md_reached: "(md_step md_runtime md_postgres)\<^sup>*\<^sup>* empty_metadata_db md_first"
proof -
  have "md_step md_runtime md_postgres empty_metadata_db md_start"
    unfolding md_start_def by (rule md_step.others) (simp_all add: empty_metadata_db_def)
  moreover have "md_step md_runtime md_postgres md_start md_first" by (rule md_step.publish [OF md_publish_first])
  ultimately show ?thesis by (meson rtranclp.simps)
qed

theorem metadata_store_consistent_witness:
  "dm_rows md_first md_key_a = Some (md_row 5) \<and> files_of_row md_first md_key_a \<and> check_metadata_row md_key_a (md_row 5)"
  using metadata_store_consistent [OF md_reached, of md_key_a] by (simp add: md_first_def opt_all_def)

theorem published_snapshot_stored_witness:
  "mset (stored_files md_second md_key_a) = {#md_file#} \<and> dm_rows md_second md_key_a = Some (md_row 6) \<and>
   describes_files (md_row 6) (dm_files md_second md_key_a) (dm_imports md_second md_key_a) \<and>
   storage_stored (md_sample 6) (Some (mr_qstorage (md_row 5))) (mr_qstorage (md_row 6)) \<and> sq_last (mr_qstorage (md_row 6)) = Some 5"
proof -
  have "stored_files md_first md_key_a = [md_file]" by (simp add: stored_files_def md_first_def row_of_file_def md_file_ok(2)) (simp add: md_file_def)
  moreover have "dm_rows md_first md_key_a = Some (md_row 5)" "dm_rows md_second md_key_a = Some (md_row 6)" by (simp_all add: md_first_def md_second_def)
  moreover have "sq_last (mr_qstorage (md_row 6)) = Some 5" by (simp add: md_row_def)
  moreover have "md_key_a = (ms_chain_id (md_sample 6), ms_path (md_sample 6))" by (simp add: md_sample_fields md_key_a_def)
  ultimately show ?thesis using published_snapshot_stored [OF md_reached md_publish_second, of md_key_a] by (auto simp: md_sample_fields(6))
qed

theorem failed_capability_kept_witness:
  "sq_status (mr_qstorage (md_row 5)) = ''ok'' \<and> sq_last (mr_qstorage (md_row 5)) = Some 5 \<and> sq_status (mr_qstorage (md_row 6)) = ''rpc_error'' \<and>
   mr_qstorage (md_row 6) = (mr_qstorage (md_row 5))\<lparr>sq_status := ''rpc_error''\<rparr>"
  using failed_capability_kept [OF md_reached _ md_publish_second, of "md_row 5" "md_row 6"]
  by (simp add: jsonb_stable_def md_postgres_def md_sample_fields(1,2) md_key_a_def [symmetric] md_first_def md_second_def) (simp add: md_row_def)

theorem metadata_history_monotone_witness: "\<exists>r. dm_rows md_second md_key_a = Some r \<and> row_le (md_row 5) r"
proof -
  have "(md_step md_runtime md_postgres)\<^sup>*\<^sup>* md_first md_second" using md_step.publish [OF md_publish_second] by blast
  moreover have "dm_rows md_first md_key_a = Some (md_row 5)" by (simp add: md_first_def)
  ultimately show ?thesis using metadata_history_monotone [OF md_reached] by blast
qed

end
