(* ===== verification/Metadata_Collected.thy ===== *)
theory Metadata_Collected
  imports Metadata_Collector Metadata_History Governance_Walk
begin

text \<open>
  What the collector hands to the persistence layer: a collected snapshot can only be refused for the contents of its files.
\<close>

section \<open>Lines\<close>

lemma utf8_size_rev [simp]: "utf8_size (rev s) = utf8_size s"
  by (induction s) simp_all

lemma ulines_acc_facts:
  "l \<in> set (ulines_acc acc s) \<Longrightarrow> list_all (\<lambda>c. \<not> uline_break c) acc \<Longrightarrow> list_all (\<lambda>c. \<not> uline_break c) l \<and> set l \<subseteq> set acc \<union> set s"
proof (induction acc s rule: ulines_acc.induct)
  case (2 acc c s)
  show ?case
  proof (cases "uline_break c")
    case True
    let ?s = "if c = 13 \<and> s \<noteq> [] \<and> hd s = 10 then tl s else s"
    have "set ?s \<subseteq> set s" by (cases s) auto
    moreover have "l = rev acc \<or> l \<in> set (ulines_acc [] ?s)" using "2.prems"(1) True by simp
    ultimately show ?thesis using "2.IH"(1) [OF True] "2.prems"(2) by fastforce
  next
    case False
    then show ?thesis using 2 by fastforce
  qed
qed (auto split: if_splits)

lemma usplitlines_facts: "l \<in> set (usplitlines s) \<Longrightarrow> list_all (\<lambda>c. \<not> uline_break c) l \<and> set l \<subseteq> set s"
  using ulines_acc_facts [of l "[]" s] by (simp add: usplitlines_def)

lemma ujoin_Cons: "ujoin sep (x # xs) = x @ (if xs = [] then [] else sep @ ujoin sep xs)"
  by (cases xs) simp_all

lemma utf8_char_pos: "1 \<le> length (utf8_char c)"
  by (simp add: utf8_char_length)

lemma ulines_acc_size: "utf8_size (ujoin [10] (ulines_acc acc s)) \<le> utf8_size acc + utf8_size s"
proof (induction acc s rule: ulines_acc.induct)
  case (2 acc c s)
  show ?case
  proof (cases "uline_break c")
    case True
    let ?s = "if c = 13 \<and> s \<noteq> [] \<and> hd s = 10 then tl s else s"
    have "utf8_size ?s \<le> utf8_size s" by (cases s) auto
    then have "1 + utf8_size (ujoin [10] (ulines_acc [] ?s)) \<le> length (utf8_char c) + utf8_size s"
      using "2.IH"(1) [OF True] utf8_char_pos [of c] by simp
    then show ?thesis using True by (simp add: ujoin_Cons utf8_char_length [of 10])
  next
    case False
    then show ?thesis using "2.IH"(2) by simp
  qed
qed simp

lemma ulines_acc_count: "length (ulines_acc acc s) \<le> length acc + length s"
proof (induction acc s rule: ulines_acc.induct)
  case (2 acc c s)
  let ?s = "if c = 13 \<and> s \<noteq> [] \<and> hd s = 10 then tl s else s"
  have "length ?s \<le> length s" by simp
  then show ?case using 2 by (cases "uline_break c") fastforce+
qed (simp add: Suc_le_eq)

lemma ulines_acc_Nil: "ulines_acc acc s = [] \<longleftrightarrow> acc = [] \<and> s = []"
  by (induction acc s rule: ulines_acc.induct) auto

lemma ulines_acc_last: "list_all (\<lambda>c. \<not> uline_break c) l \<Longrightarrow> ulines_acc acc l = (if rev acc @ l = [] then [] else [rev acc @ l])"
  by (induction l arbitrary: acc) auto

lemma usplitlines_join:
  "\<forall>x \<in> set xs. x \<noteq> [] \<and> list_all (\<lambda>c. \<not> uline_break c) x \<Longrightarrow> usplitlines (ujoin [10] xs) = xs"
proof (induction xs)
  case (Cons x xs)
  then show ?case by (auto simp: ujoin_Cons usplitlines_def ulines_acc_line ulines_acc_last)
qed (simp add: usplitlines_def)

lemma occurs_skip: "10 \<notin> set n \<Longrightarrow> occurs_in [10, 10] (n @ t) = occurs_in [10, 10] t"
  by (induction n) auto

lemma no_blank_line: "\<forall>x \<in> set xs. x \<noteq> [] \<and> 10 \<notin> set x \<Longrightarrow> \<not> occurs_in [10, 10] (ujoin [10] xs)"
proof (induction xs)
  case (Cons x xs)
  show ?case
  proof (cases xs)
    case Nil
    then show ?thesis using Cons.prems occurs_skip [of x "[]"] by simp
  next
    case (Cons y ys)
    then have "\<not> starts_with (ujoin [10] xs) [10]" using Cons.prems by (cases y) (auto simp: ujoin_Cons)
    then show ?thesis using Cons.prems Cons.IH Cons occurs_skip [of x "10 # ujoin [10] xs"] by (simp add: ujoin_Cons)
  qed
qed simp

lemma set_ujoin: "set (ujoin sep xs) \<subseteq> set sep \<union> (\<Union>x \<in> set xs. set x)"
  by (induction xs) (auto simp: ujoin_Cons)

section \<open>Listing\<close>

lemma add_filenames_ok: "distinct (acc @ ls) \<Longrightarrow> list_all safe_filename ls \<Longrightarrow> foldE add_filename ls acc = Inr (acc @ ls)"
  by (induction ls arbitrary: acc) (auto simp: add_filename_def guardE_def)

lemma listing_again:
  assumes "parse_qfile_listing (Text t) = Inr l"
  shows "li_filenames l \<noteq> [] \<and> (\<exists>l'. parse_qfile_listing (Text (ujoin [10] (li_filenames l))) = Inr l' \<and> li_filenames l' = li_filenames l)"
proof -
  note f = listing_Inr [OF assms]
  let ?ns = "usplitlines t"
  have ne: "?ns \<noteq> []" using f(6) by (simp add: usplitlines_def ulines_acc_Nil)
  have names: "x \<noteq> [] \<and> list_all (\<lambda>c. \<not> uline_break c) x \<and> 10 \<notin> set x \<and> 13 \<notin> set x \<and> set x \<subseteq> set t" if "x \<in> set ?ns" for x
    using usplitlines_facts [OF that] f(3) that by (auto simp: list_all_iff uline_break_def safe_filename_def)
  then have split: "usplitlines (ujoin [10] ?ns) = ?ns" by (intro usplitlines_join) blast
  have "13 \<notin> set (ujoin [10] ?ns)" using set_ujoin [of "[10]" ?ns] names by auto
  then have crlf: "\<not> occurs_in [13, 10, 13, 10] (ujoin [10] ?ns)" by (auto simp: occurs_in_iff)
  have blank: "\<not> occurs_in [10, 10] (ujoin [10] ?ns)" using names by (intro no_blank_line) blast
  have scalars: "list_all scalar (ujoin [10] ?ns)" using set_ujoin [of "[10]" ?ns] names f(5) by (fastforce simp: list_all_iff scalar_def)
  have size: "utf8_size (ujoin [10] ?ns) \<le> MAX_ABCI_RESPONSE_BYTES" using ulines_acc_size [of "[]" t] f(7) by (simp add: usplitlines_def)
  have "ujoin [10] ?ns \<noteq> []" using split ne by (auto simp: usplitlines_def)
  then have "parse_qfile_listing (Text (ujoin [10] ?ns)) = Inr (listing_of ?ns)"
    using split crlf blank scalars size f(2-4) add_filenames_ok [of "[]" ?ns]
    by (simp add: parse_qfile_listing_def text_of_def guardE_def MAX_FILES_def)
  then show ?thesis using f(1) ne by (simp add: listing_of_def Let_def)
qed

section \<open>What a query returns\<close>

lemma utf8_decode_size: "utf8_decode bs = Some s \<Longrightarrow> utf8_size s = length bs"
proof (induction bs arbitrary: s rule: utf8_decode.induct)
  case (2 b bs)
  from "2.prems" obtain k v lo t where lead: "utf8_lead (unat b) = Some (k, v, lo)" and k: "length (take k bs) = k" "list_all is_cont (take k bs)"
    "lo \<le> utf8_payload v (take k bs)" "scalar (utf8_payload v (take k bs))" and t: "utf8_decode (drop k bs) = Some t" "s = utf8_payload v (take k bs) # t"
    by (auto simp: Let_def split: option.splits if_splits)
  have "length (utf8_char (utf8_payload v (take k bs))) = Suc k"
    using lead k
    by (auto simp: utf8_lead_def utf8_char_length utf8_payload_def is_cont_def take_Suc_conv_app_nth numeral_2_eq_2 numeral_3_eq_3 length_Suc_conv
        simp del: length_take split: if_splits) linarith+
  moreover have "utf8_size t = length (drop k bs)" using "2.IH" [OF lead refl refl refl refl _ t(1)] k by simp
  ultimately show ?case using t(2) k(1) by simp
qed simp

lemma abci_query_text:
  assumes "abci_query client path data height n = (Inr t, n')"
  shows "list_all scalar t" "utf8_size t \<le> MAX_ABCI_RESPONSE_BYTES" "1 \<le> height"
proof -
  obtain j where "abci_text j = Inr t" "1 \<le> height" using assms by (auto simp: abci_query_def bindE_Inr_iff split: if_splits)
  then obtain b where "utf8_decode b = Some t" "length b \<le> MAX_ABCI_RESPONSE_BYTES"
    by (auto simp: abci_text_def bindE_def guardE_def split: sum.splits json.splits option.splits if_splits)
  then show "list_all scalar t" "utf8_size t \<le> MAX_ABCI_RESPONSE_BYTES" using utf8_decode_scalar utf8_decode_size by simp_all
  show "1 \<le> height" by fact
qed

lemma fetch_file_Some:
  assumes "fetch_file client rq name n = (Inr (Some f), n')"
  shows "mf_filename f = name" "list_all scalar (mf_content f)" "utf8_size (mf_content f) \<le> MAX_SOURCE_BYTES"
proof -
  obtain t n1 where "abci_query client ''vm/qfile'' (cq_path rq @ u ''/'' @ name) (cq_observed_height rq) n = (Inr t, n1)" "f = \<lparr>mf_filename = name, mf_content = t\<rparr>"
    using assms by (auto simp: fetch_file_def or_failed_def bindS_def liftS_def retS_def guardE_def split: prod.splits sum.splits if_splits)
  with abci_query_text show "mf_filename f = name" "list_all scalar (mf_content f)" "utf8_size (mf_content f) \<le> MAX_SOURCE_BYTES"
    by (auto simp: MAX_ABCI_RESPONSE_BYTES_def MAX_SOURCE_BYTES_def)
qed

definition fetched_ok :: "metadata_file \<Rightarrow> bool" where
  "fetched_ok f \<longleftrightarrow> list_all scalar (mf_content f) \<and> utf8_size (mf_content f) \<le> MAX_SOURCE_BYTES"

lemma fetch_files_Some:
  "fetch_files client rq names acc n = (Inr (Some fs), n') \<Longrightarrow> list_all fetched_ok acc \<Longrightarrow> map mf_filename fs = map mf_filename acc @ names \<and> list_all fetched_ok fs"
proof (induction names arbitrary: acc n)
  case (Cons name names)
  obtain f n1 where f: "fetch_file client rq name n = (Inr (Some f), n1)" and rest: "fetch_files client rq names (acc @ [f]) n1 = (Inr (Some fs), n')"
    using Cons.prems(1) by (auto simp: bindS_def retS_def split: prod.splits sum.splits option.splits)
  then show ?case using Cons.IH [OF rest] Cons.prems(2) fetch_file_Some [OF f] by (simp add: fetched_ok_def)
qed (simp add: retS_def)

section \<open>Capabilities\<close>

lemma failure_status_known: "failure_status e = Some st \<Longrightarrow> st \<in> set CAPABILITY_STATUSES \<and> st \<noteq> ''ok''"
  by (auto simp: failure_status_def rpc_status_def CAPABILITY_STATUSES_def split: py_error.splits if_splits)

lemma capability_Inr:
  assumes "capability_of failed body n = (Inr c, n')"
  shows "body n = (Inr c, n') \<or> (\<exists>st. c = failed st \<and> st \<in> set CAPABILITY_STATUSES \<and> st \<noteq> ''ok'')"
  using assms failure_status_known by (auto simp: capability_of_def split: prod.splits sum.splits option.splits)

lemma parsed_loads: "parse_capability rt name path p = Inr v \<Longrightarrow> \<exists>x. load_json (pt_limit rt) p = Inr x"
  by (auto simp: parse_capability_def parse_qdoc_def parse_qpkg_json_def parse_qfuncs_def bindE_Inr_iff split: if_splits)

lemma json_capability_prepared:
  assumes "json_capability_of client rpc_path data height (parse_capability rt name path) n = (Inr c, n')"
  shows "\<exists>x. prepare_json_capability rt name c path = Inr x"
proof -
  from capability_Inr [OF assms [unfolded json_capability_of_def]]
  consider t v where "c = \<lparr>jc_status = ''ok'', jc_payload = Some (Text t)\<rparr>" "parse_capability rt name path (Text t) = Inr v"
    | st where "c = \<lparr>jc_status = st, jc_payload = None\<rparr>" "st \<in> set CAPABILITY_STATUSES" "st \<noteq> ''ok''"
    by (auto simp: bindS_def liftS_def retS_def split: prod.splits sum.splits)
  then show ?thesis
  proof cases
    case 1
    with parsed_loads [OF 1(2)] show ?thesis by (auto simp: prepare_json_capability_def CAPABILITY_STATUSES_def rethrow_def guardE_def)
  next
    case 2
    then show ?thesis by (simp add: prepare_json_capability_def guardE_def)
  qed
qed

lemma render_capability_valid:
  assumes "render_capability_of client path height n = (Inr c, n')"
  shows "validate_render_capability c = Inr ()"
proof -
  from capability_Inr [OF assms [unfolded render_capability_of_def]]
  consider t s where "summarize_qrender (Text t) = Inr s" "c = \<lparr>rc_status = ''ok'', rc_sha256 = Some (rn_sha256 s), rc_byte_count = Some (int (rn_byte_count s)),
      rc_line_count = Some (int (rn_line_count s)), rc_non_empty = Some (rn_non_empty s)\<rparr>"
    | st where "c = render_failed st" "st \<in> set CAPABILITY_STATUSES" "st \<noteq> ''ok''"
    by (auto simp: bindS_def liftS_def retS_def split: prod.splits sum.splits)
  then show ?thesis
  proof cases
    case 1
    have "length (usplitlines t) \<le> utf8_size t" using ulines_acc_count [of "[]" t] length_le_utf8_size [of t] by (simp add: usplitlines_def)
    moreover have "utf8_size t = 0 \<longleftrightarrow> t = []" using utf8_char_pos by (cases t) (auto simp: Suc_le_eq)
    moreover have "utf8_size t \<le> MAX_ABCI_RESPONSE_BYTES" "s = \<lparr>rn_byte_count = utf8_size t, rn_line_count = length (usplitlines t),
        rn_non_empty = (ustrip t \<noteq> []), rn_sha256 = hexdigest (sha256 (utf8_bytes t))\<rparr>"
      using 1(1) by (simp_all add: summarize_qrender_def text_of_def bindE_Inr_iff guardE_Inr_iff)
    ultimately have "render_valid c" using 1(2) by (auto simp: render_valid_def lower_sha_digest int_within_def usplitlines_def ustrip_def)
    then show ?thesis using 1(2) by (simp add: validate_render_capability_def CAPABILITY_STATUSES_def guardE_def)
  next
    case 2
    then show ?thesis by (simp add: validate_render_capability_def render_failed_def guardE_def)
  qed
qed

lemma storage_digits_bound:
  assumes "list_all ascii_digit ds"
  shows "storage_int ds < 10 ^ length ds"
proof -
  have "foldl (\<lambda>a c. 10 * a + digit_val c) a (map char_of ds) < (a + 1) * 10 ^ length ds" for a
    using assms
  proof (induction ds arbitrary: a)
    case (Cons d ds)
    have "digit_val (char_of d) \<le> 9" using Cons.prems by (auto simp: digit_val_def ascii_digit_def of_char_of take_bit_nat_eq_self)
    then have "(10 * a + digit_val (char_of d) + 1) * 10 ^ length ds \<le> ((a + 1) * 10) * 10 ^ length ds" by (intro mult_right_mono) simp_all
    also have "\<dots> = (a + 1) * 10 ^ length (d # ds)" by (simp only: length_Cons power_Suc mult.assoc)
    finally have "(10 * a + digit_val (char_of d) + 1) * 10 ^ length ds \<le> (a + 1) * 10 ^ length (d # ds)" .
    moreover have "foldl (\<lambda>a c. 10 * a + digit_val c) (10 * a + digit_val (char_of d)) (map char_of ds) < (10 * a + digit_val (char_of d) + 1) * 10 ^ length ds"
      using Cons by simp
    ultimately show ?case by (simp only: list.map foldl.simps)
  qed simp
  from this [of 0] have "nat_of_digits (map char_of ds) < 10 ^ length ds" by (simp add: nat_of_digits_def)
  then show ?thesis unfolding storage_int_def by (metis of_nat_less_iff of_nat_numeral of_nat_power)
qed

lemma storage_capability_valid:
  assumes "storage_capability_of client path height n = (Inr c, n')"
  shows "validate_storage c = Inr ()"
proof -
  from capability_Inr [OF assms [unfolded storage_capability_of_def]]
  consider t a b where "parse_qstorage (Text t) = Inr (a, b)" "c = \<lparr>sc_status = ''ok'', sc_storage_bytes = Some a, sc_deposit_ugnot = Some b\<rparr>"
    | st where "c = storage_failed st" "st \<in> set CAPABILITY_STATUSES" "st \<noteq> ''ok''"
    by (auto simp: bindS_def liftS_def retS_def split: prod.splits sum.splits)
  then show ?thesis
  proof cases
    case 1
    then obtain x y where xy: "match_storage t = Some (x, y)" "length x \<le> 40" "length y \<le> 40" "a = storage_int x" "b = storage_int y"
      by (auto simp: parse_qstorage_def text_of_def bindE_Inr_iff guardE_Inr_iff MAX_STORAGE_DIGITS_def split: option.splits)
    then have "list_all ascii_digit x" "list_all ascii_digit y"
      by (auto simp: match_storage_def Let_def bind_eq_Some_conv list_all_iff dest: set_takeWhileD split: if_splits)
    then have "storage_int x < 10 ^ 40" "storage_int y < 10 ^ 40"
      using storage_digits_bound power_increasing [OF xy(2), of "10 :: int"] power_increasing [OF xy(3), of "10 :: int"] by fastforce+
    then show ?thesis using 1(2) xy by (simp add: validate_storage_def CAPABILITY_STATUSES_def int_within_def guardE_def storage_int_def)
  next
    case 2
    then show ?thesis by (simp add: validate_storage_def storage_failed_def guardE_def)
  qed
qed

section \<open>The snapshot\<close>

text \<open>What can still be wrong with a fetched file: a NUL character, too many lines, too many imports.\<close>

definition publishable :: "metadata_file \<Rightarrow> bool" where
  "publishable f \<longleftrightarrow> 0 \<notin> set (mf_content f) \<and> length (usplitlines (mf_content f)) \<le> MAX_SOURCE_LINES \<and>
     (ends_with (mf_filename f) (u ''.gno'') \<longrightarrow> (\<exists>c. import_candidates (mf_content f) = Inr c))"

lemma summarize_source_iff:
  assumes "safe_filename name" and "ends_with name (u ''.gno'')" and "list_all scalar t" and "utf8_size t \<le> MAX_SOURCE_BYTES" and "length (usplitlines t) \<le> MAX_SOURCE_LINES"
  shows "(\<exists>s. summarize_source_file name (Text t) = Inr s) \<longleftrightarrow> (\<exists>c. import_candidates t = Inr c)"
  using assms by (auto simp: summarize_source_file_def text_of_def guardE_def Let_def bindE_Inr_iff)

lemma file_ok_fetched:
  assumes "fetched_ok f" and "safe_filename (mf_filename f)"
  shows "file_ok f \<longleftrightarrow> publishable f"
proof -
  have "(\<exists>x. source_part f = Inr x) \<longleftrightarrow> (ends_with (mf_filename f) (u ''.gno'') \<longrightarrow> (\<exists>c. import_candidates (mf_content f) = Inr c))"
    if "length (usplitlines (mf_content f)) \<le> MAX_SOURCE_LINES"
    using summarize_source_iff [of "mf_filename f" "mf_content f"] that assms by (auto simp: source_part_def fetched_ok_def bindE_Inr_iff)
  then show ?thesis using assms by (auto simp: file_ok_def publishable_def fetched_ok_def)
qed

lemma snapshot_of_Inr:
  assumes "snapshot_of rt client rq now names files n = (Inr s, n')"
  shows "ms_chain_id s = cq_chain_id rq" "ms_path s = cq_path rq" "ms_path_kind s = cq_path_kind rq" "ms_observed_height s = cq_observed_height rq"
    "ms_collection_status s \<in> set COLLECTION_STATUSES" "ms_expected_filenames s = names" "ms_files s = files" "aware (ms_collected_at s)"
    "ms_source_rpc_endpoint_id s = cq_source_rpc_endpoint_id rq"
    "\<exists>x. prepare_json_capability rt ''qdoc'' (ms_qdoc s) (cq_path rq) = Inr x" "\<exists>x. prepare_json_capability rt ''qpkg_json'' (ms_qpkg_json s) (cq_path rq) = Inr x"
    "\<exists>x. prepare_json_capability rt ''qfuncs'' (ms_qfuncs s) (cq_path rq) = Inr x" "validate_render_capability (ms_qrender s) = Inr ()" "validate_storage (ms_qstorage s) = Inr ()"
    "cq_path_kind rq = ''package'' \<longrightarrow> rc_status (ms_qrender s) = ''not_applicable'' \<and> sc_status (ms_qstorage s) = ''not_applicable''"
proof -
  obtain q1 n1 q2 n2 q3 n3 r st n4 where q: "json_capability_of client ''vm/qdoc'' (cq_path rq) (cq_observed_height rq) (parse_capability rt ''qdoc'' (cq_path rq)) n = (Inr q1, n1)"
    "json_capability_of client ''vm/qpkg_json'' (cq_path rq) (cq_observed_height rq) (parse_capability rt ''qpkg_json'' (cq_path rq)) n1 = (Inr q2, n2)"
    "json_capability_of client ''vm/qfuncs'' (cq_path rq) (cq_observed_height rq) (parse_capability rt ''qfuncs'' (cq_path rq)) n2 = (Inr q3, n3)"
    "realm_capabilities client rq n3 = (Inr (r, st), n4)" "ms_qdoc s = q1" "ms_qpkg_json s = q2" "ms_qfuncs s = q3" "ms_qrender s = r" "ms_qstorage s = st"
    and f: "ms_chain_id s = cq_chain_id rq" "ms_path s = cq_path rq" "ms_path_kind s = cq_path_kind rq" "ms_observed_height s = cq_observed_height rq"
    "ms_collection_status s \<in> set COLLECTION_STATUSES" "ms_expected_filenames s = names" "ms_files s = files" "ms_collected_at s = Aware now"
    "ms_source_rpc_endpoint_id s = cq_source_rpc_endpoint_id rq"
    using assms by (auto simp: snapshot_of_def bindS_def retS_def Let_def COLLECTION_STATUSES_def split: prod.splits sum.splits)
  then show "ms_chain_id s = cq_chain_id rq" "ms_path s = cq_path rq" "ms_path_kind s = cq_path_kind rq" "ms_observed_height s = cq_observed_height rq"
    "ms_collection_status s \<in> set COLLECTION_STATUSES" "ms_expected_filenames s = names" "ms_files s = files" "aware (ms_collected_at s)"
    "ms_source_rpc_endpoint_id s = cq_source_rpc_endpoint_id rq" by (simp_all add: aware_def)
  show "\<exists>x. prepare_json_capability rt ''qdoc'' (ms_qdoc s) (cq_path rq) = Inr x" "\<exists>x. prepare_json_capability rt ''qpkg_json'' (ms_qpkg_json s) (cq_path rq) = Inr x"
    "\<exists>x. prepare_json_capability rt ''qfuncs'' (ms_qfuncs s) (cq_path rq) = Inr x"
    using q(5-7) json_capability_prepared [OF q(1)] json_capability_prepared [OF q(2)] json_capability_prepared [OF q(3)] by simp_all
  have na: "validate_render_capability (render_failed ''not_applicable'') = Inr ()" "validate_storage (storage_failed ''not_applicable'') = Inr ()"
    by (simp_all add: validate_render_capability_def validate_storage_def render_failed_def storage_failed_def CAPABILITY_STATUSES_def guardE_def)
  have "validate_render_capability r = Inr () \<and> validate_storage st = Inr () \<and>
      (cq_path_kind rq = ''package'' \<longrightarrow> rc_status r = ''not_applicable'' \<and> sc_status st = ''not_applicable'')"
    using q(4) na
    by (auto simp: realm_capabilities_def bindS_def retS_def render_failed_def storage_failed_def split: if_splits prod.splits sum.splits
        dest!: render_capability_valid storage_capability_valid)
  then show "validate_render_capability (ms_qrender s) = Inr ()" "validate_storage (ms_qstorage s) = Inr ()"
    "cq_path_kind rq = ''package'' \<longrightarrow> rc_status (ms_qrender s) = ''not_applicable'' \<and> sc_status (ms_qstorage s) = ''not_applicable''"
    unfolding q(8,9) by blast+
qed

definition request_ok :: "collection_request \<Rightarrow> bool" where
  "request_ok rq \<longleftrightarrow> chain_re (cq_chain_id rq) \<and> path_kind_of (cq_path rq) = Some (cq_path_kind rq) \<and> 63 \<notin> set (cq_path rq) \<and> 35 \<notin> set (cq_path rq) \<and>
     opt_all (\<lambda>i. 1 \<le> i) (cq_source_rpc_endpoint_id rq)"

lemma collected_Inr:
  assumes "collect_path_metadata rt client rq now n = (Inr r, n')" and "px_snapshot r = Some s"
  obtains t l files n1 n2 where "parse_qfile_listing (Text t) = Inr l" "fetch_files client rq (li_filenames l) [] n1 = (Inr (Some files), n2)"
    "snapshot_of rt client rq now (li_filenames l) files n2 = (Inr s, n')" "1 \<le> cq_observed_height rq"
proof -
  obtain l n1 files n2 where l: "fetch_listing client rq n = (Inr (Some l), n1)" and f: "fetch_files client rq (li_filenames l) [] n1 = (Inr (Some files), n2)"
    and s: "snapshot_of rt client rq now (li_filenames l) files n2 = (Inr s, n')"
    using assms by (auto simp: collect_path_metadata_def bindS_def retS_def failed_result_def split: prod.splits sum.splits option.splits)
  from l obtain t n3 where "abci_query client ''vm/qfile'' (cq_path rq) (cq_observed_height rq) n = (Inr t, n3)" "parse_qfile_listing (Text t) = Inr l"
    by (auto simp: fetch_listing_def or_failed_def bindS_def liftS_def split: prod.splits sum.splits if_splits)
  then show ?thesis using that f s abci_query_text(3) by blast
qed

text \<open>C37: Whatever the endpoint answers: a snapshot collected for a path of the catalog passes the validation of the persistence layer
  exactly when no file holds a NUL character, too many lines or too many imports and the contents fit into a snapshot together.
  None of the other two dozen checks can fail.\<close>

theorem collected_snapshot_prepared:
  assumes "collect_path_metadata rt client rq now n = (Inr r, n')" and "px_snapshot r = Some s" and "request_ok rq"
  shows "(\<exists>p. prepare_metadata_snapshot rt s = Inr p) \<longleftrightarrow>
    list_all publishable (ms_files s) \<and> sum_list (map (\<lambda>f. utf8_size (mf_content f)) (ms_files s)) \<le> MAX_SNAPSHOT_BYTES"
  using assms(1,2)
proof (rule collected_Inr)
  fix t l files n1 n2
  assume l: "parse_qfile_listing (Text t) = Inr l" and f: "fetch_files client rq (li_filenames l) [] n1 = (Inr (Some files), n2)"
    and s: "snapshot_of rt client rq now (li_filenames l) files n2 = (Inr s, n')" and h: "1 \<le> cq_observed_height rq"
  note s = snapshot_of_Inr [OF s] and l' = listing_Inr [OF l]
  have files: "map mf_filename files = li_filenames l" "list_all fetched_ok files" using fetch_files_Some [OF f] by simp_all
  have "validate_listing s = Inr ()" using listing_again [OF l] files l'(1,2) s(6,7) by (auto simp: validate_listing_Inr simp flip: set_map)
  then have head: "validate_head s = Inr ()" using s h assms(3) by (simp add: validate_head_Inr request_ok_def)
  have names: "list_all scalar (mf_filename f) \<and> safe_filename (mf_filename f)" if "f \<in> set files" for f
  proof -
    have "mf_filename f \<in> set (usplitlines t)" using that files(1) l'(1) by (metis imageI set_map)
    then show ?thesis using l'(3,5) usplitlines_facts [of "mf_filename f" t] by (auto simp: list_all_iff)
  qed
  have ok: "list_all file_ok files \<longleftrightarrow> list_all publishable files"
    using files(2) names file_ok_fetched by (auto simp: list_all_iff)
  have sha: "\<exists>sha. metadata_fingerprint files = Inr sha"
    using names files(2) by (auto simp: metadata_fingerprint_def guardE_def list_all_iff fetched_ok_def)
  have pkg: "ms_path_kind s = ''package'' \<longrightarrow> rc_status (ms_qrender s) = ''not_applicable'' \<and> sc_status (ms_qstorage s) = ''not_applicable''"
    using s(3,15) by simp
  show ?thesis using s(2,7,10-14) head ok sha pkg
    by (auto simp: prepare_metadata_snapshot_def bindE_Inr_iff guardE_Inr_iff prepare_files_Inr)
qed

section \<open>A collection\<close>

definition md_client :: qclient where
  "md_client n params = (if n = 0 then Inr (abci_reply (u ''gnomod.toml'')) else if n = 1 then Inr (abci_reply []) else Inl (RpcError ''down''))"

definition md_request :: collection_request where
  "md_request = \<lparr>cq_chain_id = ''c'', cq_path = u ''gno.land/r/a'', cq_path_kind = ''realm'', cq_observed_height = 5, cq_source_rpc_endpoint_id = None\<rparr>"

definition md_collected :: metadata_snapshot where
  "md_collected = (md_sample 5)\<lparr>ms_qstorage := storage_failed ''rpc_error''\<rparr>"

lemma md_queries:
  "1 \<le> h \<Longrightarrow> abci_query md_client (c # path) data h 0 = (Inr (u ''gnomod.toml''), 1)" "1 \<le> h \<Longrightarrow> abci_query md_client (c # path) data h 1 = (Inr [], 2)"
  "1 \<le> h \<Longrightarrow> 2 \<le> n \<Longrightarrow> abci_query md_client (c # path) data h n = (Inl (RpcError ''down''), Suc n)"
  using abci_reply_text [of "u ''gnomod.toml''"] abci_reply_text [of "[]"]
  by (simp_all add: abci_query_def md_client_def scalar_def MAX_ABCI_RESPONSE_BYTES_def utf8_char_length)

lemma md_listing_parsed: "parse_qfile_listing (Text (u ''gnomod.toml'')) = Inr (listing_of [u ''gnomod.toml''])"
  using md_file_ok(1)
  by (auto simp: md_file_def file_ok_def parse_qfile_listing_def text_of_def scalar_def MAX_ABCI_RESPONSE_BYTES_def utf8_char_length guardE_def
      usplitlines_def uline_break_def MAX_FILES_def add_filename_def Let_def)

lemma md_collection:
  "\<exists>r n'. collect_path_metadata md_runtime md_client md_request 7 0 = (Inr r, n') \<and> px_snapshot r = Some md_collected"
proof -
  have fail: "failure_status (RpcError ''down'') = Some ''rpc_error''" by (simp add: failure_status_def rpc_status_def)
  have listing: "fetch_listing md_client md_request 0 = (Inr (Some (listing_of [u ''gnomod.toml''])), 1)"
    by (simp add: fetch_listing_def or_failed_def bindS_def md_queries md_request_def md_listing_parsed liftS_def del: u_simps)
  have fetched: "fetch_files md_client md_request [u ''gnomod.toml''] [] 1 = (Inr (Some [md_file]), 2)"
    using md_queries(2) [of 5 "CHR ''v''" "''m/qfile''"]
    by (simp add: fetch_file_def or_failed_def bindS_def md_request_def liftS_def retS_def guardE_def md_file_def del: u_simps)
  have json: "json_capability_of md_client (c # path) data 5 parser n = (Inr md_failed, Suc n)" if "2 \<le> n" for c path data parser n
    using md_queries(3) [of 5 n c path data] that by (simp add: json_capability_of_def capability_of_def bindS_def fail md_failed_def)
  have render: "render_capability_of md_client p 5 n = (Inr (render_failed ''rpc_error''), Suc n)"
    "storage_capability_of md_client p 5 n = (Inr (storage_failed ''rpc_error''), Suc n)" if "2 \<le> n" for p n
    using md_queries(3) [of 5 n] that by (simp_all add: render_capability_of_def storage_capability_of_def capability_of_def bindS_def fail)
  have "snapshot_of md_runtime md_client md_request 7 [u ''gnomod.toml''] [md_file] 2 = (Inr md_collected, 7)"
    by (simp add: snapshot_of_def bindS_def json md_request_def realm_capabilities_def render retS_def md_collected_def md_sample_def
        md_failed_def render_failed_def del: u_simps)
  then show ?thesis using listing fetched by (simp add: collect_path_metadata_def bindS_def listing_of_def retS_def del: u_simps)
qed

theorem collected_snapshot_prepared_witness:
  "\<exists>r n'. collect_path_metadata md_runtime md_client md_request 7 0 = (Inr r, n') \<and> px_snapshot r = Some md_collected \<and>
     (\<exists>p. prepare_metadata_snapshot md_runtime md_collected = Inr p)"
proof -
  obtain r n' where r: "collect_path_metadata md_runtime md_client md_request 7 0 = (Inr r, n')" "px_snapshot r = Some md_collected" using md_collection by blast
  have "request_ok md_request" by (simp add: request_ok_def md_request_def chain_re_def path_kind_of_def path_part_def opt_all_def)
  moreover have "publishable md_file" by (simp add: publishable_def md_file_def usplitlines_def ends_with_def)
  ultimately show ?thesis using collected_snapshot_prepared [OF r] r by (simp add: md_collected_def md_sample_fields) (simp add: md_file_def)
qed

end
