(* ===== verification/Metadata_Refresh.thy ===== *)
theory Metadata_Refresh
  imports Metadata_Collected Indexer_World Indexer_Config
begin

text \<open>
  \<open>scripts/refresh_realm_metadata.py\<close>: one run over the paths of the catalog, with failover between endpoints, the publication
  of each snapshot and the record of the run. The answers of the endpoints, the faults of the server at each operation on a
  connection, interrupts from the keyboard and the readings of the clock are inputs. The catalog and the endpoint table are read
  only. The counters of \<open>main\<close> are part of the state, because its handlers read them. \<open>KeyboardInterrupt\<close> is no \<open>Exception\<close>, so
  that it passes every handler of the script; it may come in a database operation or in a collection, and at any other moment it
  has the effect of one before the next of these. Log lines and the argument parser are left out.
\<close>

section \<open>Selection\<close>

record catalog_selection =
  cl_observed_height :: int
  cl_paths :: "(string \<times> string) list"

text \<open>
  What the catalog holds beside the kinds of \<open>dm_catalog\<close>: the height in \<open>realm_catalog_state\<close> and the \<open>rpc_visible\<close> paths of a
  chain in the order of the paths.
\<close>

record catalog_tables =
  ct_height :: "string \<rightharpoonup> int"
  ct_visible :: "string \<Rightarrow> string list"

definition catalog_rows :: "catalog_tables \<Rightarrow> metadata_db \<Rightarrow> string \<Rightarrow> (int \<times> (string \<times> string) option) list" where
  "catalog_rows c d chain_id =
     (case ct_height c chain_id of
        None \<Rightarrow> []
      | Some h \<Rightarrow>
          (case List.map_filter (\<lambda>path. map_option (Pair path) (dm_catalog d (chain_id, u path))) (ct_visible c chain_id) of
             [] \<Rightarrow> [(h, None)]
           | rows \<Rightarrow> map (\<lambda>row. (h, Some row)) rows))"

definition select_requested :: "string list \<Rightarrow> (string \<times> string) list \<Rightarrow> (string \<times> string) list res" where
  "select_requested requested available =
     (if requested = [] then Inr available
      else let chosen = filter (\<lambda>item. fst item \<in> set requested) available in
        bindE (guardE (length chosen = length (remdups requested)) (RuntimeError ''requested_path_not_visible'')) (\<lambda>_. Inr chosen))"

definition select_catalog_paths :: "catalog_tables \<Rightarrow> metadata_db \<Rightarrow> string \<Rightarrow> string list \<Rightarrow> nat option \<Rightarrow> catalog_selection res" where
  "select_catalog_paths c d chain_id requested limit =
     bindE (guardE (list_all (\<lambda>path. path_kind (JStr path) \<noteq> None) requested) (RuntimeError ''invalid_requested_path'')) (\<lambda>_.
     case catalog_rows c d chain_id of
       [] \<Rightarrow> Inl (RuntimeError ''catalog_state_missing'')
     | row # rows \<Rightarrow>
         let height = fst row; available = List.map_filter snd (row # rows) in
         bindE (guardE (0 < height) (RuntimeError ''catalog_height_invalid'')) (\<lambda>_.
         bindE (guardE (list_all (\<lambda>r. fst r = height) (row # rows)) (RuntimeError ''inconsistent_catalog_height'')) (\<lambda>_.
         bindE (guardE (available \<noteq> []) (RuntimeError ''no_rpc_visible_paths'')) (\<lambda>_.
         bindE (guardE (list_all (\<lambda>(path, kind). path_kind (JStr path) = Some kind) available) (RuntimeError ''invalid_catalog_path'')) (\<lambda>_.
         bindE (select_requested requested available) (\<lambda>chosen.
         Inr \<lparr>cl_observed_height = height, cl_paths = (case limit of None \<Rightarrow> chosen | Some n \<Rightarrow> take n chosen)\<rparr>))))))"

section \<open>Inputs and state\<close>

record refresh_env =
  rv_runtime :: py_runtime
  rv_server :: md_server
  rv_catalog :: catalog_tables
  rv_tables :: db
  rv_lock_free :: bool
  rv_fault :: "nat \<Rightarrow> db_fault option"
  rv_interrupt :: "nat \<Rightarrow> bool"
  rv_interrupt_collection :: "nat \<Rightarrow> bool"
  rv_reply :: "nat \<Rightarrow> jobj res"
  rv_dur :: "nat \<Rightarrow> pyfloat"
  rv_client :: "nat \<Rightarrow> string \<Rightarrow> qclient"
  rv_clock :: "nat \<Rightarrow> int"

record refresh_world =
  rw_db :: metadata_db
  rw_ops :: nat
  rw_ticks :: nat
  rw_collections :: nat
  rw_published :: nat
  rw_failed :: nat
  rw_locked :: bool

definition new_refresh_world :: "metadata_db \<Rightarrow> refresh_world" where
  "new_refresh_world d = \<lparr>rw_db = d, rw_ops = 0, rw_ticks = 0, rw_collections = 0, rw_published = 0, rw_failed = 0, rw_locked = False\<rparr>"

text \<open>
  One operation on a connection, with the transaction around it. An operation that is interrupted from the keyboard ends like one
  that fails: before it began, rolled back, or committed.
\<close>

definition fault_error :: "refresh_env \<Rightarrow> nat \<Rightarrow> py_error" where
  "fault_error en n = (if rv_interrupt en n then KeyboardInterrupt else OperationalError)"

definition md_transact :: "refresh_env \<Rightarrow> (metadata_db \<Rightarrow> ('a \<times> metadata_db) res) \<Rightarrow> (refresh_world, 'a) act" where
  "md_transact en f w =
     (let w1 = w\<lparr>rw_ops := rw_ops w + 1\<rparr>; fault = rv_fault en (rw_ops w) in
      if fault = Some Refused then (Inl (fault_error en (rw_ops w)), w1)
      else case f (rw_db w) of
             Inl e \<Rightarrow> (Inl e, w1)
           | Inr (x, d) \<Rightarrow>
               (case fault of
                  None \<Rightarrow> (Inr x, w1\<lparr>rw_db := d\<rparr>)
                | Some Rolled_Back \<Rightarrow> (Inl (fault_error en (rw_ops w)), w1)
                | _ \<Rightarrow> (Inl (fault_error en (rw_ops w)), w1\<lparr>rw_db := d\<rparr>)))"

definition md_read :: "refresh_env \<Rightarrow> (metadata_db \<Rightarrow> 'a res) \<Rightarrow> (refresh_world, 'a) act" where
  "md_read en f = md_transact en (\<lambda>d. bindE (f d) (\<lambda>x. Inr (x, d)))"

definition utc_now :: "refresh_env \<Rightarrow> (refresh_world, int) act" where
  "utc_now en w = (Inr (rv_clock en (rw_ticks w)), w\<lparr>rw_ticks := rw_ticks w + 1\<rparr>)"

definition persist_state :: "refresh_env \<Rightarrow> refresh_state \<Rightarrow> (refresh_world, unit) act" where
  "persist_state en s = md_transact en (\<lambda>d. bindE (persist_metadata_refresh_state_cursor s d) (\<lambda>d'. Inr ((), d')))"

definition publish_metadata_snapshot :: "refresh_env \<Rightarrow> metadata_snapshot \<Rightarrow> (refresh_world, prepared_snapshot) act" where
  "publish_metadata_snapshot en s = md_transact en (publish_metadata_snapshot_cursor (rv_runtime en) (rv_server en) s)"

section \<open>One path\<close>

definition collect_from :: "refresh_env \<Rightarrow> collection_request \<Rightarrow> string \<Rightarrow> (refresh_world, path_result) act" where
  "collect_from en rq target w =
     (if rv_interrupt_collection en (rw_collections w) then Inl KeyboardInterrupt
      else fst (collect_path_metadata (rv_runtime en) (rv_client en (rw_collections w) target) rq (rv_clock en (rw_ticks w)) 0),
      w\<lparr>rw_ticks := rw_ticks w + 1, rw_collections := rw_collections w + 1\<rparr>)"

text \<open>The candidates in order, until one collects a snapshot; every \<open>Exception\<close> ends the path.\<close>

fun collect_first :: "refresh_env \<Rightarrow> collection_request \<Rightarrow> (string \<times> int option) list \<Rightarrow> (refresh_world, metadata_snapshot option) act" where
  "collect_first en rq [] w = (Inr None, w)"
| "collect_first en rq ((target, endpoint_id) # candidates) w =
     (case collect_from en (rq\<lparr>cq_source_rpc_endpoint_id := endpoint_id\<rparr>) target w of
        (Inl e, w1) \<Rightarrow> (if e = KeyboardInterrupt then Inl e else Inr None, w1)
      | (Inr found, w1) \<Rightarrow>
          if px_snapshot found \<noteq> None then (Inr (px_snapshot found), w1)
          else if px_failure_code found \<notin> {Some ''qfile_listing'', Some ''qfile_file''} then (Inr None, w1)
          else collect_first en rq candidates w1)"

definition count_failed :: "(refresh_world, unit) act" where
  "count_failed = modifyS (\<lambda>w. w\<lparr>rw_failed := rw_failed w + 1\<rparr>)"

definition count_published :: "(refresh_world, unit) act" where
  "count_published = modifyS (\<lambda>w. w\<lparr>rw_published := rw_published w + 1\<rparr>)"

text \<open>\<open>StaleMetadataSnapshot\<close> is a subclass of \<open>MetadataPersistenceError\<close>.\<close>

definition is_persistence_error :: "py_error \<Rightarrow> bool" where
  "is_persistence_error e = (case e of MetadataPersistenceError _ \<Rightarrow> True | StaleMetadataSnapshot _ \<Rightarrow> True | _ \<Rightarrow> False)"

definition path_request :: "string \<Rightarrow> int \<Rightarrow> string \<times> string \<Rightarrow> collection_request" where
  "path_request chain_id height item =
     \<lparr>cq_chain_id = chain_id, cq_path = u (fst item), cq_path_kind = snd item, cq_observed_height = height, cq_source_rpc_endpoint_id = None\<rparr>"

definition refresh_path :: "refresh_env \<Rightarrow> string \<Rightarrow> int \<Rightarrow> (string \<times> int option) list \<Rightarrow> string \<times> string \<Rightarrow> (refresh_world, unit) act" where
  "refresh_path en chain_id height candidates item =
     bindS (collect_first en (path_request chain_id height item) candidates) (\<lambda>collected.
     case collected of
       None \<Rightarrow> count_failed
     | Some s \<Rightarrow> (\<lambda>w.
         case publish_metadata_snapshot en s w of
           (Inr _, w1) \<Rightarrow> count_published w1
         | (Inl e, w1) \<Rightarrow> if is_persistence_error e then count_failed w1 else (Inl e, w1)))"

fun refresh_paths :: "refresh_env \<Rightarrow> string \<Rightarrow> int \<Rightarrow> (string \<times> int option) list \<Rightarrow> (string \<times> string) list \<Rightarrow> (refresh_world, unit) act" where
  "refresh_paths en chain_id height candidates [] = retS ()"
| "refresh_paths en chain_id height candidates (item # items) =
     bindS (refresh_path en chain_id height candidates item) (\<lambda>_. refresh_paths en chain_id height candidates items)"

section \<open>The run\<close>

definition source_endpoint_id :: "db \<Rightarrow> string \<Rightarrow> string \<Rightarrow> int option" where
  "source_endpoint_id d chain_id target = map_option ep_id (find (\<lambda>r. ep_chain r = chain_id \<and> ep_url r = target) (endpoints d))"

definition probe_urls :: "string option \<Rightarrow> string list \<Rightarrow> string list" where
  "probe_urls preferred urls = (case preferred of None \<Rightarrow> [] | Some p \<Rightarrow> if p = [] then [] else [p]) @ filter (\<lambda>v. Some v \<noteq> preferred) urls"

definition serves :: "int \<Rightarrow> rpc_probe \<Rightarrow> bool" where
  "serves height probe = (case latest_height probe of None \<Rightarrow> False | Some h \<Rightarrow> height \<le> h)"

definition refresh_candidates :: "refresh_env \<Rightarrow> indexer_config \<Rightarrow> int \<Rightarrow> (refresh_world, (string \<times> int option) list) act" where
  "refresh_candidates en config height =
     bindS (md_read en (\<lambda>_. Inr (get_selected_rpc_url (rv_tables en) (ic_chain_id config)))) (\<lambda>preferred.
     bindS (liftS (probe_rpc_endpoints (rv_reply en) (rv_dur en) (probe_urls preferred (ic_rpc_urls config)) (ic_chain_id config)
              (ic_max_height_lag config))) (\<lambda>probes.
     let suitable = suitable_rpc_probes probes; candidates = filter (serves height) suitable in
     bindS (liftS (guardE (suitable \<noteq> []) (RuntimeError ''no_suitable_rpc''))) (\<lambda>_.
     bindS (liftS (guardE (candidates \<noteq> []) (RuntimeError ''rpc_cannot_serve_catalog_height''))) (\<lambda>_.
     md_read en (\<lambda>_. Inr (map (\<lambda>probe. (url probe, source_endpoint_id (rv_tables en) (ic_chain_id config) (url probe))) candidates))))))"

definition terminal_status :: "nat \<Rightarrow> nat \<Rightarrow> string" where
  "terminal_status published failed = (if failed = 0 then ''complete'' else if published \<noteq> 0 then ''partial'' else ''failed'')"

text \<open>The \<open>MetadataRefreshState\<close> of this run with the counters of \<open>main\<close>.\<close>

definition run_state :: "string \<Rightarrow> catalog_selection \<Rightarrow> string \<Rightarrow> int \<Rightarrow> int option \<Rightarrow> bool \<Rightarrow> refresh_world \<Rightarrow> refresh_state" where
  "run_state chain_id selection status started completed success w =
     \<lparr>rf_chain_id = chain_id, rf_observed_height = cl_observed_height selection, rf_run_status = status,
      rf_selected = int (length (cl_paths selection)), rf_published = int (rw_published w), rf_failed = int (rw_failed w),
      rf_started_at = Aware started, rf_completed_at = map_option Aware completed,
      rf_last_successful_height = (if success then Some (cl_observed_height selection) else None),
      rf_last_successful_at = (if success then map_option Aware completed else None)\<rparr>"

definition finish_refresh :: "refresh_env \<Rightarrow> string \<Rightarrow> catalog_selection \<Rightarrow> int \<Rightarrow> (refresh_world, int) act" where
  "finish_refresh en chain_id selection started =
     bindS (utc_now en) (\<lambda>completed w.
     let outcome = terminal_status (rw_published w) (rw_failed w) in
     bindS (persist_state en (run_state chain_id selection outcome started (Some completed) (outcome = ''complete'') w)) (\<lambda>_.
     retS (if outcome = ''complete'' then 0 else 2)) w)"

definition refresh_run :: "refresh_env \<Rightarrow> indexer_config \<Rightarrow> catalog_selection \<Rightarrow> int \<Rightarrow> (refresh_world, int) act" where
  "refresh_run en config selection started =
     bindS (\<lambda>w. persist_state en (run_state (ic_chain_id config) selection ''running'' started None False w) w) (\<lambda>_.
     bindS (refresh_candidates en config (cl_observed_height selection)) (\<lambda>candidates.
     bindS (refresh_paths en (ic_chain_id config) (cl_observed_height selection) candidates (cl_paths selection)) (\<lambda>_.
     finish_refresh en (ic_chain_id config) selection started)))"

text \<open>The handler of \<open>main\<close> once a run has started: the run is recorded as failed, if that succeeds.\<close>

definition record_failure :: "refresh_env \<Rightarrow> string \<Rightarrow> catalog_selection \<Rightarrow> int \<Rightarrow> (refresh_world, unit) act" where
  "record_failure en chain_id selection started =
     bindS (utc_now en) (\<lambda>now w. persist_state en (run_state chain_id selection ''failed'' started (Some now) False w) w)"

definition locked_run :: "refresh_env \<Rightarrow> indexer_config \<Rightarrow> string list \<Rightarrow> nat option \<Rightarrow> (refresh_world, int) act" where
  "locked_run en config requested limit w =
     (case bindS (md_read en (\<lambda>d. select_catalog_paths (rv_catalog en) d (ic_chain_id config) requested limit)) (\<lambda>selection.
           bindS (utc_now en) (\<lambda>started. retS (selection, started))) w of
        (Inl e, w1) \<Rightarrow> (if e = KeyboardInterrupt then Inl e else Inr 1, w1)
      | (Inr (selection, started), w1) \<Rightarrow>
          (case refresh_run en config selection started w1 of
             (Inr code, w2) \<Rightarrow> (Inr code, w2)
           | (Inl e, w2) \<Rightarrow>
               if e = KeyboardInterrupt then (Inl e, w2)
               else (case record_failure en (ic_chain_id config) selection started w2 of
                       (r, w3) \<Rightarrow> (if r = Inl KeyboardInterrupt then Inl KeyboardInterrupt else Inr 1, w3))))"

text \<open>\<open>pg_try_advisory_lock\<close> on the new connection. The lock belongs to the session: a lost answer does not give it back.\<close>

definition try_lock :: "refresh_env \<Rightarrow> (refresh_world, bool) act" where
  "try_lock en w =
     (let w1 = w\<lparr>rw_ops := rw_ops w + 1\<rparr>; fault = rv_fault en (rw_ops w) in
      if fault = Some Refused then (Inl (fault_error en (rw_ops w)), w1)
      else (if fault = None then Inr (rv_lock_free en) else Inl (fault_error en (rw_ops w)), w1\<lparr>rw_locked := rv_lock_free en\<rparr>))"

text \<open>
  The \<open>finally\<close> clause: closing the connection ends the session and with it the lock, also when the unlock fails. (An interrupt
  inside this clause ends the process, which ends the session as well.)
\<close>

definition close_connection :: "refresh_world \<Rightarrow> refresh_world" where
  "close_connection w = w\<lparr>rw_locked := False\<rparr>"

text \<open>The exit code of \<open>main\<close>, or the interrupt it lets through.\<close>

definition refresh_main :: "refresh_env \<Rightarrow> env \<Rightarrow> string list \<Rightarrow> nat option \<Rightarrow> (refresh_world, int) act" where
  "refresh_main en e requested limit w =
     (case load_config e of
        Inl _ \<Rightarrow> (Inr 1, w)
      | Inr config \<Rightarrow>
          (let (code, w') =
             (case try_lock en w of
                (Inl x, w1) \<Rightarrow> (if x = KeyboardInterrupt then Inl x else Inr 1, w1)
              | (Inr False, w1) \<Rightarrow> (Inr 1, w1)
              | (Inr True, w1) \<Rightarrow> locked_run en config requested limit w1)
           in (code, close_connection w')))"

end
