(* ===== verification/Metadata_Run.thy ===== *)
theory Metadata_Run
  imports Metadata_Refresh
begin

text \<open>
  The properties of a metadata refresh: whatever endpoints, clock and server do, the tables only move by the steps of
  \<open>Metadata_Publish\<close>; a run that reports a result accounts for every selected path; and it never leaves its record on running.
\<close>

section \<open>Steps of a run\<close>

definition run_le :: "refresh_env \<Rightarrow> refresh_world \<Rightarrow> refresh_world \<Rightarrow> bool" where
  "run_le en w w' \<longleftrightarrow> (md_step (rv_runtime en) (rv_server en))\<^sup>*\<^sup>* (rw_db w) (rw_db w') \<and> rw_ticks w \<le> rw_ticks w'"

interpretation run_order: store_order "run_le en" for en
  by unfold_locales (auto simp: run_le_def)

context store_order
begin

lemma bindS_le: "(\<And>w. le w (snd (m w))) \<Longrightarrow> (\<And>x w. le w (snd (f x w))) \<Longrightarrow> le w (snd (bindS m f w))"
  by (auto simp: bindS_def split: prod.splits sum.splits) (metis le_trans snd_conv)+

lemma liftS_le: "le w (snd (liftS r w))" "le w (snd (retS x w))"
  by (simp_all add: liftS_def retS_def le_refl)

end

lemma md_transact_db:
  assumes "md_transact en f w = (r, w')"
  shows "rw_ticks w' = rw_ticks w \<and> rw_published w' = rw_published w \<and> rw_failed w' = rw_failed w \<and> rw_locked w' = rw_locked w \<and>
    (rw_db w' = rw_db w \<or> (\<exists>x. f (rw_db w) = Inr (x, rw_db w')))"
    and "r = Inr x \<Longrightarrow> f (rw_db w) = Inr (x, rw_db w')"
    and "r = Inl e \<Longrightarrow> rv_fault en = (\<lambda>_. None) \<Longrightarrow> f (rw_db w) = Inl e \<and> rw_db w' = rw_db w"
  using assms by (auto simp: md_transact_def Let_def split: if_splits sum.splits prod.splits option.splits db_fault.splits)

lemma transact_le:
  assumes "\<And>d x d'. f d = Inr (x, d') \<Longrightarrow> (md_step (rv_runtime en) (rv_server en))\<^sup>*\<^sup>* d d'"
  shows "run_le en w (snd (md_transact en f w))"
proof -
  obtain r w' where "md_transact en f w = (r, w')" by fastforce
  then show ?thesis using md_transact_db(1) [of en f w r w'] assms by (auto simp: run_le_def)
qed

lemma step_le:
  "run_le en w (snd (md_read en r w))" "run_le en w (snd (utc_now en w))" "run_le en w (snd (persist_state en s w))"
  "run_le en w (snd (publish_metadata_snapshot en p w))" "run_le en w (snd (count_failed w))" "run_le en w (snd (count_published w))"
  "run_le en w (snd (collect_from en rq t w))"
proof -
  show "run_le en w (snd (md_read en r w))" "run_le en w (snd (persist_state en s w))" "run_le en w (snd (publish_metadata_snapshot en p w))"
    unfolding md_read_def persist_state_def publish_metadata_snapshot_def
    by (rule transact_le, auto simp: bindE_Inr_iff intro: md_step.publish md_step.refresh)+
qed (simp_all add: run_le_def utc_now_def count_failed_def count_published_def modifyS_def collect_from_def)

text \<open>Nothing stored or counted.\<close>

definition idle :: "refresh_world \<Rightarrow> refresh_world \<Rightarrow> bool" where
  "idle w w' \<longleftrightarrow> rw_db w' = rw_db w \<and> rw_published w' = rw_published w \<and> rw_failed w' = rw_failed w \<and> rw_ticks w \<le> rw_ticks w'"

interpretation idle_order: store_order idle
  by unfold_locales (auto simp: idle_def)

lemma idle_steps: "idle w (snd (md_read en r w))" "idle w (snd (utc_now en w))" "idle w (snd (collect_from en rq t w))"
proof -
  obtain x w' where "md_transact en (\<lambda>d. bindE (r d) (\<lambda>x. Inr (x, d))) w = (x, w')" by fastforce
  then show "idle w (snd (md_read en r w))" using md_transact_db(1) [of en "\<lambda>d. bindE (r d) (\<lambda>x. Inr (x, d))" w x w']
    by (auto simp: idle_def md_read_def bindE_Inr_iff)
qed (simp_all add: idle_def utc_now_def collect_from_def)

lemma candidates_idle: "idle w (snd (refresh_candidates en config h w))"
  unfolding refresh_candidates_def Let_def
  by (intro idle_order.bindS_le idle_order.liftS_le idle_steps)

lemma collect_first_idle: "idle w (snd (collect_first en rq cs w))"
proof (induction en rq cs w rule: collect_first.induct)
  case (2 en rq t i cs w)
  obtain r1 w1 where one: "collect_from en (rq\<lparr>cq_source_rpc_endpoint_id := i\<rparr>) t w = (r1, w1)" by fastforce
  then have w1: "idle w w1" using idle_steps(3) [of w en "rq\<lparr>cq_source_rpc_endpoint_id := i\<rparr>" t] by simp
  show ?case
  proof (cases r1)
    case (Inl e)
    then show ?thesis using one w1 by simp
  next
    case (Inr found)
    then show ?thesis using one w1 "2.IH" [OF one [unfolded Inr, symmetric] refl] by (auto intro: idle_order.le_trans)
  qed
qed (simp add: idle_order.le_refl)

lemma collect_first_Some:
  "collect_first en rq cs w = (Inr (Some s), w') \<Longrightarrow>
   ms_chain_id s = cq_chain_id rq \<and> ms_path s = cq_path rq \<and> ms_observed_height s = cq_observed_height rq"
proof (induction en rq cs w rule: collect_first.induct)
  case (2 en rq t i cs w)
  obtain r1 w1 where one: "collect_from en (rq\<lparr>cq_source_rpc_endpoint_id := i\<rparr>) t w = (r1, w1)" by fastforce
  show ?case
  proof (cases r1)
    case (Inl e)
    then show ?thesis using "2.prems" one by (simp split: if_splits)
  next
    case (Inr found)
    show ?thesis
    proof (cases "px_snapshot found = Some s")
      case True
      have "fst (collect_path_metadata (rv_runtime en) (rv_client en (rw_collections w) t) (rq\<lparr>cq_source_rpc_endpoint_id := i\<rparr>)
          (rv_clock en (rw_ticks w)) 0) = Inr found"
        using one Inr by (simp add: collect_from_def split: if_splits)
      then obtain n' where "collect_path_metadata (rv_runtime en) (rv_client en (rw_collections w) t) (rq\<lparr>cq_source_rpc_endpoint_id := i\<rparr>)
          (rv_clock en (rw_ticks w)) 0 = (Inr found, n')"
        by (metis prod.collapse)
      then show ?thesis using True
        by (rule collected_Inr) (use snapshot_of_Inr in fastforce)
    next
      case False
      then show ?thesis using "2.prems" one Inr "2.IH" [OF one [unfolded Inr, symmetric] refl] by (auto split: if_splits)
    qed
  qed
qed simp

section \<open>The paths\<close>

definition at_height :: "int \<Rightarrow> metadata_db \<Rightarrow> md_key \<Rightarrow> bool" where
  "at_height h d key \<longleftrightarrow> (\<exists>r. dm_rows d key = Some r \<and> mr_observed_height r = h)"

lemma publish_at_height:
  assumes "publish_metadata_snapshot_cursor rt srv s d = Inr (p, d')"
  shows "at_height (ms_observed_height s) d' (ms_chain_id s, ms_path s)" "at_height (ms_observed_height s) d key \<Longrightarrow> at_height (ms_observed_height s) d' key"
    "dm_refresh d' = dm_refresh d"
proof -
  from assms refl obtain row bound where "prepare_metadata_snapshot rt s = Inr p" "new_metadata_row p (dm_rows d (ms_chain_id s, ms_path s)) = Inr row"
    "bind_metadata_row srv row = Inr bound" "dm_rows d' = (dm_rows d)((ms_chain_id s, ms_path s) := Some bound)" and r: "dm_refresh d' = dm_refresh d"
    by (rule publish_Inr)
  then show "at_height (ms_observed_height s) d' (ms_chain_id s, ms_path s)" "at_height (ms_observed_height s) d key \<Longrightarrow> at_height (ms_observed_height s) d' key"
    using prepare_Inr(1) new_row_frame(2) bind_row_frame(2) by (auto simp: at_height_def)
  show "dm_refresh d' = dm_refresh d" by (rule r)
qed

text \<open>What the loop over the paths keeps and counts.\<close>

definition paths_step :: "int \<Rightarrow> refresh_world \<Rightarrow> refresh_world \<Rightarrow> bool" where
  "paths_step h w w' \<longleftrightarrow> dm_refresh (rw_db w') = dm_refresh (rw_db w) \<and> rw_ticks w \<le> rw_ticks w' \<and>
     rw_published w \<le> rw_published w' \<and> rw_failed w \<le> rw_failed w' \<and> (\<forall>key. at_height h (rw_db w) key \<longrightarrow> at_height h (rw_db w') key)"

interpretation paths_order: store_order "paths_step h" for h
  by unfold_locales (auto simp: paths_step_def)

lemma refresh_path_step:
  assumes "refresh_path en c h cs item w = (r, w')"
  shows "paths_step h w w' \<and> rw_published w' + rw_failed w' = rw_published w + rw_failed w + (if isl r then 0 else 1) \<and>
    (r = Inr () \<longrightarrow> rw_failed w' = rw_failed w \<longrightarrow> at_height h (rw_db w') (c, u (fst item)))"
proof -
  obtain x w1 where one: "collect_first en (path_request c h item) cs w = (x, w1)" by fastforce
  then have w1: "idle w w1" using collect_first_idle [of w en "path_request c h item" cs] by simp
  consider (raised) e where "x = Inl e" | (none) "x = Inr None" | (some) s where "x = Inr (Some s)" by (metis sum.exhaust option.exhaust)
  then show ?thesis
  proof cases
    case (raised e)
    then show ?thesis using assms one w1 by (auto simp: refresh_path_def bindS_def paths_step_def idle_def)
  next
    case none
    then show ?thesis using assms one w1 by (auto simp: refresh_path_def bindS_def count_failed_def modifyS_def paths_step_def idle_def)
  next
    case (some s)
    have s: "ms_chain_id s = c" "ms_path s = u (fst item)" "ms_observed_height s = h"
      using collect_first_Some [OF one [unfolded some]] by (simp_all add: path_request_def)
    obtain y w2 where two: "publish_metadata_snapshot en s w1 = (y, w2)" by fastforce
    note t = md_transact_db [OF two [unfolded publish_metadata_snapshot_def]]
    have step: "paths_step h w1 w2" using t(1) publish_at_height [of "rv_runtime en" "rv_server en" s "rw_db w1" _ "rw_db w2"] s(3) by (auto simp: paths_step_def)
    have stored: "at_height h (rw_db w2) (c, u (fst item))" if "y = Inr p" for p
      using publish_at_height(1) [OF t(2) [OF that]] s by simp
    show ?thesis using assms one some two step stored t(1) w1
      by (cases y) (auto simp: refresh_path_def bindS_def count_failed_def count_published_def modifyS_def paths_step_def idle_def split: if_splits)
  qed
qed

lemma refresh_paths_step:
  "refresh_paths en c h cs items w = (r, w') \<Longrightarrow>
   paths_step h w w' \<and> rw_published w' + rw_failed w' \<le> rw_published w + rw_failed w + length items \<and>
   (r = Inr () \<longrightarrow> rw_published w' + rw_failed w' = rw_published w + rw_failed w + length items \<and>
     (rw_failed w' = rw_failed w \<longrightarrow> (\<forall>item \<in> set items. at_height h (rw_db w') (c, u (fst item)))))"
proof (induction items arbitrary: w)
  case (Cons item items)
  obtain r1 w1 where one: "refresh_path en c h cs item w = (r1, w1)" by fastforce
  note f = refresh_path_step [OF one]
  show ?case
  proof (cases r1)
    case (Inl e)
    then show ?thesis using Cons.prems one f by (auto simp: bindS_def)
  next
    case (Inr v)
    then have rest: "refresh_paths en c h cs items w1 = (r, w')" using Cons.prems one by (simp add: bindS_def)
    have same: "rw_failed w1 = rw_failed w \<and> rw_failed w' = rw_failed w1" if "rw_failed w' = rw_failed w"
      using that f Cons.IH [OF rest] by (auto simp: paths_step_def)
    have "paths_step h w w'" using f Cons.IH [OF rest] by (meson paths_order.le_trans)
    then show ?thesis using Inr f Cons.IH [OF rest] same by (auto simp: paths_step_def)
  qed
qed (simp add: retS_def paths_order.le_refl)

lemma refresh_paths_le: "run_le en w (snd (refresh_paths en c h cs items w))"
proof (induction items arbitrary: w)
  case (Cons item items)
  have first: "run_le en w (snd (collect_first en rq cs w))" for rq w
    using collect_first_idle [of w en rq cs] by (auto simp: run_le_def idle_def)
  have "run_le en w (snd (case publish_metadata_snapshot en s w of (Inr _, w1) \<Rightarrow> count_published w1
        | (Inl e, w1) \<Rightarrow> if is_persistence_error e then count_failed w1 else (Inl e, w1)))" for s w
    using step_le(4) [of en w s] run_order.le_trans step_le(5,6) by (auto split: prod.splits sum.splits)
  then have "run_le en w (snd (refresh_path en c h cs item w))" for w
    unfolding refresh_path_def by (intro run_order.bindS_le first) (auto split: option.splits intro: step_le)
  then show ?case unfolding refresh_paths.simps by (intro run_order.bindS_le Cons.IH)
qed (simp add: retS_def run_order.le_refl)

section \<open>The record of a run\<close>

lemma persist_Inr:
  assumes "persist_metadata_refresh_state_cursor (run_state c sl status started completed success w) d = Inr d'"
  shows "\<exists>r. dm_refresh d' c = Some r \<and> fw_observed_height r = cl_observed_height sl \<and> fw_run_status r = status \<and>
      fw_selected r = int (length (cl_paths sl)) \<and> fw_published r = int (rw_published w) \<and> fw_failed r = int (rw_failed w) \<and>
      fw_started_at r = started \<and> (success \<longrightarrow> fw_last_successful_height r = Some (cl_observed_height sl)) \<and> check_refresh_row c r \<and>
      chain_re c \<and> cl_observed_height sl < 2 ^ 63 \<and> int (length (cl_paths sl)) < 2 ^ 31"
    and "\<forall>chain. chain \<noteq> c \<longrightarrow> dm_refresh d' chain = dm_refresh d chain" and "dm_rows d' = dm_rows d"
proof -
  let ?s = "run_state c sl status started completed success w"
  have fields: "rf_chain_id ?s = c" "rf_observed_height ?s = cl_observed_height sl" "rf_run_status ?s = status" "rf_selected ?s = int (length (cl_paths sl))"
    "rf_published ?s = int (rw_published w)" "rf_failed ?s = int (rw_failed w)" "instant (rf_started_at ?s) = started"
    "rf_last_successful_height ?s = (if success then Some (cl_observed_height sl) else None)"
    by (simp_all add: run_state_def instant_def)
  from assms obtain h t where valid: "refresh_valid ?s" and ok: "refresh_success ?s (dm_refresh d c) = Inr (h, t)"
    and up: "upsert_refresh_row c \<lparr>fw_observed_height = cl_observed_height sl, fw_run_status = status, fw_selected = int (length (cl_paths sl)),
        fw_published = int (rw_published w), fw_failed = int (rw_failed w), fw_started_at = started,
        fw_completed_at = map_option instant (rf_completed_at ?s), fw_last_successful_height = h, fw_last_successful_at = t\<rparr> d = Inr d'"
    unfolding persist_metadata_refresh_state_cursor_def fields by (auto simp: bindE_Inr_iff guardE_Inr_iff)
  have "chain_re c" using valid fields(1) by (simp add: refresh_valid_def)
  moreover have "success \<longrightarrow> h = Some (cl_observed_height sl)"
    using ok fields(8) by (auto simp: refresh_success_def Let_def bindE_Inr_iff split: option.splits)
  ultimately show "\<exists>r. dm_refresh d' c = Some r \<and> fw_observed_height r = cl_observed_height sl \<and> fw_run_status r = status \<and>
      fw_selected r = int (length (cl_paths sl)) \<and> fw_published r = int (rw_published w) \<and> fw_failed r = int (rw_failed w) \<and>
      fw_started_at r = started \<and> (success \<longrightarrow> fw_last_successful_height r = Some (cl_observed_height sl)) \<and> check_refresh_row c r \<and>
      chain_re c \<and> cl_observed_height sl < 2 ^ 63 \<and> int (length (cl_paths sl)) < 2 ^ 31"
    "\<forall>chain. chain \<noteq> c \<longrightarrow> dm_refresh d' chain = dm_refresh d chain" "dm_rows d' = dm_rows d"
    using up by (auto simp: upsert_refresh_row_def bindE_Inr_iff guardE_Inr_iff)
qed

text \<open>Once the running record is stored, the same run can always be recorded as failed.\<close>

lemma failure_recorded:
  assumes "persist_metadata_refresh_state_cursor (run_state c sl ''running'' started None False w0) d0 = Inr d1"
    and "dm_refresh d c = dm_refresh d1 c" and "rw_published w + rw_failed w \<le> length (cl_paths sl)" and "started \<le> now"
  shows "\<exists>d'. persist_metadata_refresh_state_cursor (run_state c sl ''failed'' started (Some now) False w) d = Inr d'"
proof -
  from persist_Inr(1) [OF assms(1)] obtain r where r: "dm_refresh d1 c = Some r" "fw_observed_height r = cl_observed_height sl" "fw_started_at r = started"
    "check_refresh_row c r" "chain_re c" "cl_observed_height sl < 2 ^ 63" "int (length (cl_paths sl)) < 2 ^ 31" by auto
  have success: "refresh_success (run_state c sl ''failed'' started (Some now) False w) (Some r) = Inr (fw_last_successful_height r, fw_last_successful_at r)"
    using r(2,3) by (simp add: refresh_success_def run_state_def instant_def guardE_def)
  have chain: "rf_chain_id (run_state c sl ''failed'' started (Some now) False w) = c" by (simp add: run_state_def)
  have "refresh_valid (run_state c sl ''failed'' started (Some now) False w)"
    using r assms(3,4) by (auto simp: refresh_valid_def run_state_def aware_def instant_def opt_all_def check_refresh_row_def)
  then show ?thesis
    using r assms(2-4)
    unfolding persist_metadata_refresh_state_cursor_def chain assms(2) r(1) success
    by (auto simp: guardE_def upsert_refresh_row_def check_refresh_row_def run_state_def instant_def opt_all_def)
qed

lemma persist_state_db:
  assumes "persist_state en s w = (r, w')"
  shows "rw_ticks w' = rw_ticks w \<and> rw_published w' = rw_published w \<and> rw_failed w' = rw_failed w"
    and "r = Inr x \<Longrightarrow> persist_metadata_refresh_state_cursor s (rw_db w) = Inr (rw_db w')"
    and "r = Inl e \<Longrightarrow> rv_fault en = (\<lambda>_. None) \<Longrightarrow> persist_metadata_refresh_state_cursor s (rw_db w) = Inl e \<and> rw_db w' = rw_db w"
  using md_transact_db [OF assms [unfolded persist_state_def]] by (auto simp: bindE_def split: sum.splits)

lemma run_state_cong:
  "rw_published w = rw_published w' \<Longrightarrow> rw_failed w = rw_failed w' \<Longrightarrow>
   run_state c sl status started completed success w = run_state c sl status started completed success w'"
  by (simp add: run_state_def)

lemma finish_refresh_db:
  assumes "finish_refresh en c sl started w = (r, w')"
  obtains completed w1 where "idle w w1"
    "bindS (persist_state en (run_state c sl (terminal_status (rw_published w) (rw_failed w)) started (Some completed)
        (terminal_status (rw_published w) (rw_failed w) = ''complete'') w))
      (\<lambda>_. retS (if terminal_status (rw_published w) (rw_failed w) = ''complete'' then 0 else 2)) w1 = (r, w')"
proof -
  let ?w = "w\<lparr>rw_ticks := rw_ticks w + 1\<rparr>"
  have state: "run_state c sl status started completed success ?w = run_state c sl status started completed success w" for status completed success
    by (rule run_state_cong) simp_all
  have counts: "rw_published ?w = rw_published w" "rw_failed ?w = rw_failed w" by simp_all
  have now: "utc_now en w = (Inr (rv_clock en (rw_ticks w)), ?w)" by (simp add: utc_now_def)
  show ?thesis
    by (rule that [of ?w "rv_clock en (rw_ticks w)"])
      (use assms in \<open>simp_all only: finish_refresh_def bindS_Inr [of "utc_now en", OF now] Let_def state counts, simp add: idle_def\<close>)
qed

lemma refresh_run_Inr:
  assumes "refresh_run en config sl started w = (Inr code, w')"
  obtains d completed where
    "persist_metadata_refresh_state_cursor (run_state (ic_chain_id config) sl (terminal_status (rw_published w') (rw_failed w')) started (Some completed)
       (terminal_status (rw_published w') (rw_failed w') = ''complete'') w') d = Inr (rw_db w')"
    "code = (if terminal_status (rw_published w') (rw_failed w') = ''complete'' then 0 else 2)"
    "rw_published w' + rw_failed w' = rw_published w + rw_failed w + length (cl_paths sl)"
    "rw_failed w' = rw_failed w \<Longrightarrow> item \<in> set (cl_paths sl) \<Longrightarrow> at_height (cl_observed_height sl) (rw_db w') (ic_chain_id config, u (fst item))"
proof -
  from assms obtain w1 cs w2 w3 where one: "persist_state en (run_state (ic_chain_id config) sl ''running'' started None False w) w = (Inr (), w1)"
    and two: "refresh_candidates en config (cl_observed_height sl) w1 = (Inr cs, w2)"
    and three: "refresh_paths en (ic_chain_id config) (cl_observed_height sl) cs (cl_paths sl) w2 = (Inr (), w3)"
    and four: "finish_refresh en (ic_chain_id config) sl started w3 = (Inr code, w')"
    unfolding refresh_run_def by (elim bindS_snd) auto
  have w2: "rw_published w2 = rw_published w" "rw_failed w2 = rw_failed w"
    using persist_state_db(1) [OF one] candidates_idle [of w1 en config "cl_observed_height sl"] two by (simp_all add: idle_def)
  note paths = refresh_paths_step [OF three]
  from four obtain completed w4 where w4: "idle w3 w4"
    "bindS (persist_state en (run_state (ic_chain_id config) sl (terminal_status (rw_published w3) (rw_failed w3)) started (Some completed)
        (terminal_status (rw_published w3) (rw_failed w3) = ''complete'') w3))
      (\<lambda>_. retS (if terminal_status (rw_published w3) (rw_failed w3) = ''complete'' then 0 else 2)) w4 = (Inr code, w')"
    by (rule finish_refresh_db)
  then have five: "persist_state en (run_state (ic_chain_id config) sl (terminal_status (rw_published w3) (rw_failed w3)) started (Some completed)
      (terminal_status (rw_published w3) (rw_failed w3) = ''complete'') w3) w4 = (Inr (), w')"
    and code: "code = (if terminal_status (rw_published w3) (rw_failed w3) = ''complete'' then 0 else 2)"
    by (auto elim!: bindS_snd simp: retS_def)
  have same: "rw_published w' = rw_published w3" "rw_failed w' = rw_failed w3" using persist_state_db(1) [OF five] w4(1) by (simp_all add: idle_def)
  note last = persist_state_db(2) [OF five refl]
  show ?thesis
  proof (rule that)
    show "persist_metadata_refresh_state_cursor (run_state (ic_chain_id config) sl (terminal_status (rw_published w') (rw_failed w')) started (Some completed)
       (terminal_status (rw_published w') (rw_failed w') = ''complete'') w') (rw_db w4) = Inr (rw_db w')"
      using last unfolding same run_state_cong [of w' w3, OF same] .
    show "at_height (cl_observed_height sl) (rw_db w') (ic_chain_id config, u (fst item))" if "rw_failed w' = rw_failed w" "item \<in> set (cl_paths sl)"
      using paths that same w2 persist_Inr(3) [OF last] w4(1) by (simp add: at_height_def idle_def)
  qed (use code paths same w2 in simp_all)
qed

text \<open>Without faults of the server, a run that raises either stored nothing of its record or left the running record.\<close>

lemma refresh_run_Inl:
  assumes "refresh_run en config sl started w = (Inl e, w')" and "rv_fault en = (\<lambda>_. None)"
  shows "rw_ticks w \<le> rw_ticks w' \<and> rw_published w' + rw_failed w' \<le> rw_published w + rw_failed w + length (cl_paths sl) \<and>
    (rw_db w' = rw_db w \<or> (\<exists>d1. persist_metadata_refresh_state_cursor (run_state (ic_chain_id config) sl ''running'' started None False w) (rw_db w) = Inr d1 \<and>
       dm_refresh (rw_db w') = dm_refresh d1))"
  using assms(1) unfolding refresh_run_def
proof (cases rule: bindS_snd)
  case (raised e')
  then show ?thesis using persist_state_db(1) [OF raised(1)] persist_state_db(3) [OF raised(1) refl assms(2)] by simp
next
  case (ran x w1)
  note one = persist_state_db(1) [OF ran(1)] persist_state_db(2) [OF ran(1), of x]
  from ran(2) have "idle w1 w' \<or> (\<exists>w3. paths_step (cl_observed_height sl) w1 w3 \<and>
      rw_published w3 + rw_failed w3 \<le> rw_published w1 + rw_failed w1 + length (cl_paths sl) \<and> idle w3 w')"
  proof (cases rule: bindS_snd)
    case (raised e')
    then show ?thesis using candidates_idle [of w1 en config "cl_observed_height sl"] by simp
  next
    case (ran cs w2)
    then have w2: "idle w1 w2" using candidates_idle [of w1 en config "cl_observed_height sl"] by simp
    from ran(2) show ?thesis
    proof (cases rule: bindS_snd)
      case (raised e')
      then show ?thesis using refresh_paths_step [OF raised(1)] w2 by (auto simp: paths_step_def idle_def)
    next
      case (ran y w3)
      from ran(2) obtain completed w4 where w4: "idle w3 w4"
        "bindS (persist_state en (run_state (ic_chain_id config) sl (terminal_status (rw_published w3) (rw_failed w3)) started (Some completed)
            (terminal_status (rw_published w3) (rw_failed w3) = ''complete'') w3))
          (\<lambda>_. retS (if terminal_status (rw_published w3) (rw_failed w3) = ''complete'' then 0 else (2::int))) w4 = (Inl e, w')"
        by (rule finish_refresh_db)
      then have "idle w4 w'" using persist_state_db(1,3) assms(2) by (auto elim!: bindS_snd simp: retS_def idle_def)
      then show ?thesis using refresh_paths_step [OF ran(1)] w2 w4(1) by (auto simp: paths_step_def idle_def)
    qed
  qed
  then show ?thesis using one by (auto simp: paths_step_def idle_def)
qed

section \<open>Properties\<close>

lemma refresh_run_le: "run_le en w (snd (refresh_run en config sl started w))"
proof -
  have cand: "run_le en w (snd (refresh_candidates en config h w))" for h w
    using candidates_idle [of w en config h] by (simp add: run_le_def idle_def)
  have finish: "run_le en w (snd (finish_refresh en c sl started w))" for c w
    unfolding finish_refresh_def Let_def by (intro run_order.bindS_le step_le run_order.liftS_le)
  show ?thesis unfolding refresh_run_def by (intro run_order.bindS_le step_le cand finish refresh_paths_le)
qed

lemma locked_run_le: "run_le en w (snd (locked_run en config requested limit w))"
proof -
  let ?pre = "bindS (md_read en (\<lambda>d. select_catalog_paths (rv_catalog en) d (ic_chain_id config) requested limit)) (\<lambda>selection.
           bindS (utc_now en) (\<lambda>started. retS (selection, started)))"
  have pre: "run_le en w (snd (?pre w))" by (intro run_order.bindS_le step_le run_order.liftS_le)
  have fail: "run_le en w (snd (record_failure en c sl started w))" for c sl started w
    unfolding record_failure_def by (intro run_order.bindS_le step_le)
  show ?thesis
    using pre refresh_run_le fail unfolding locked_run_def
    by (auto split: prod.splits sum.splits) (metis run_order.le_trans snd_conv)+
qed

lemma refresh_main_le: "run_le en w (snd (refresh_main en e requested limit w))"
proof -
  have lock: "run_le en w (snd (try_lock en w))" by (simp add: try_lock_def run_le_def Let_def)
  have close: "run_le en w w' \<Longrightarrow> run_le en w (close_connection w')" for w' by (simp add: run_le_def close_connection_def)
  show ?thesis
    using lock run_order.le_trans locked_run_le run_order.le_refl
    by (auto simp: refresh_main_def split: prod.splits sum.splits bool.splits intro!: close) (metis snd_conv)+
qed

text \<open>C34: However a refresh ends, by an interrupt from the keyboard too, and whatever endpoints, clock and server do, a consistent
  metadata store stays consistent and the session lock is given up. No path and no record of a run is lost, and none goes back to
  an earlier height: the collection time of a path and the start of a run only move forward as long as their height stays the
  same, and may be earlier again at a greater height. The height of the last success is never lost and never goes back; its time
  is not constrained.\<close>

theorem refresh_keeps_store:
  assumes "(md_step (rv_runtime en) (rv_server en))\<^sup>*\<^sup>* empty_metadata_db d"
    and "refresh_main en e requested limit (new_refresh_world d) = (outcome, w')"
  shows "store_ok (rv_server en) (rw_db w') \<and> md_le d (rw_db w') \<and> \<not> rw_locked w'"
proof -
  have "(md_step (rv_runtime en) (rv_server en))\<^sup>*\<^sup>* d (rw_db w')"
    using refresh_main_le [of en "new_refresh_world d" e requested limit] assms(2) by (simp add: run_le_def new_refresh_world_def)
  moreover have "\<not> rw_locked w'"
    using assms(2) by (auto simp: refresh_main_def new_refresh_world_def close_connection_def split: sum.splits prod.splits)
  ultimately show ?thesis using md_steps_le [OF _ metadata.reachable_inv [OF refl assms(1)]] by blast
qed

lemma locked_run_selected:
  assumes "locked_run en config requested limit w = (code, w')"
  obtains (unselected) "code = Inl KeyboardInterrupt \<or> code = Inr 1" "idle w w'"
    | (ran) sl w1 t where "select_catalog_paths (rv_catalog en) (rw_db w) (ic_chain_id config) requested limit = Inr sl" "idle w w1" "t < rw_ticks w1"
        "(case refresh_run en config sl (rv_clock en t) w1 of (Inr code, w2) \<Rightarrow> (Inr code, w2)
           | (Inl e, w2) \<Rightarrow>
               if e = KeyboardInterrupt then (Inl e, w2)
               else (case record_failure en (ic_chain_id config) sl (rv_clock en t) w2 of
                       (r, w3) \<Rightarrow> (if r = Inl KeyboardInterrupt then Inl KeyboardInterrupt else Inr 1, w3))) = (code, w')"
proof -
  let ?read = "\<lambda>d. select_catalog_paths (rv_catalog en) d (ic_chain_id config) requested limit"
  obtain r w1 where one: "md_read en ?read w = (r, w1)" by fastforce
  have w1: "idle w w1" using idle_steps(1) [of w en ?read] one by simp
  show ?thesis
  proof (cases r)
    case (Inl e)
    then show ?thesis using assms one w1 by (intro unselected) (auto simp: locked_run_def bindS_def split: if_splits)
  next
    case (Inr sl)
    then have "?read (rw_db w) = Inr sl"
      using md_transact_db(2) [OF one [unfolded md_read_def]] by (auto simp: bindE_Inr_iff)
    moreover have "idle w (w1\<lparr>rw_ticks := rw_ticks w1 + 1\<rparr>)" using w1 by (simp add: idle_def)
    ultimately show ?thesis
      by (rule ran [of sl _ "rw_ticks w1"]) (use assms one Inr in \<open>simp_all add: locked_run_def bindS_def utc_now_def retS_def\<close>)
  qed
qed

lemma refresh_main_cases:
  assumes "refresh_main en e requested limit (new_refresh_world d) = (code, w')"
  obtains (unlocked) "code = Inl KeyboardInterrupt \<or> code = Inr 1" "rw_db w' = d"
    | (locked) config w1 w2 where "load_config e = Inr config" "idle (new_refresh_world d) w1" "locked_run en config requested limit w1 = (code, w2)"
        "w' = close_connection w2"
proof (cases "load_config e")
  case (Inl x)
  then show ?thesis using assms by (intro unlocked) (auto simp: refresh_main_def new_refresh_world_def)
next
  case (Inr config)
  obtain r w1 where one: "try_lock en (new_refresh_world d) = (r, w1)" by fastforce
  then have w1: "idle (new_refresh_world d) w1" by (auto simp: try_lock_def idle_def Let_def split: if_splits)
  show ?thesis
  proof (cases "r = Inr True")
    case True
    obtain c2 w2 where "locked_run en config requested limit w1 = (c2, w2)" by fastforce
    then show ?thesis using assms Inr one True by (intro locked [OF Inr w1]) (auto simp: refresh_main_def)
  next
    case False
    then show ?thesis using assms Inr one w1
      by (intro unlocked) (auto simp: refresh_main_def close_connection_def idle_def new_refresh_world_def split: sum.splits bool.splits if_splits)
  qed
qed

lemma terminal_status_not_running: "terminal_status p f \<noteq> ''running''" "terminal_status p f = ''complete'' \<longleftrightarrow> f = 0"
  by (simp_all add: terminal_status_def)

text \<open>C32: A refresh that reports a result accounts for every selected path: each was published or has failed, the stored record of the
  run has exactly these counts and the status they imply. Only a run without failures ends with code 0; then every selected
  path is stored at the height of the catalog, which becomes the height of the last success.\<close>

theorem refresh_accounts_for_paths:
  assumes "refresh_main en e requested limit (new_refresh_world d) = (Inr code, w')" and "code \<noteq> 1"
  shows "\<exists>config selection r. load_config e = Inr config \<and>
    select_catalog_paths (rv_catalog en) d (ic_chain_id config) requested limit = Inr selection \<and>
    rw_published w' + rw_failed w' = length (cl_paths selection) \<and>
    dm_refresh (rw_db w') (ic_chain_id config) = Some r \<and> fw_observed_height r = cl_observed_height selection \<and>
    fw_run_status r = terminal_status (rw_published w') (rw_failed w') \<and> fw_selected r = int (length (cl_paths selection)) \<and>
    fw_published r = int (rw_published w') \<and> fw_failed r = int (rw_failed w') \<and> code = (if rw_failed w' = 0 then 0 else 2) \<and>
    (code = 0 \<longrightarrow> fw_last_successful_height r = Some (cl_observed_height selection) \<and>
       (\<forall>(path, kind) \<in> set (cl_paths selection).
          \<exists>m. dm_rows (rw_db w') (ic_chain_id config, u path) = Some m \<and> mr_observed_height m = cl_observed_height selection))"
  using assms(1)
proof (cases rule: refresh_main_cases)
  case (locked config w1 w2)
  from locked(3) show ?thesis
  proof (cases rule: locked_run_selected)
    case (ran sl w3 t)
    then obtain c2 w4 where run: "refresh_run en config sl (rv_clock en t) w3 = (Inr c2, w4)" and c2: "code = c2" "w2 = w4"
      using assms(2) by (auto split: prod.splits sum.splits if_splits)
    have db: "rw_db w1 = d" using locked(2) by (simp add: idle_def new_refresh_world_def)
    have zero: "rw_published w3 = 0" "rw_failed w3 = 0" using locked(2) ran(2) by (simp_all add: idle_def new_refresh_world_def)
    have same: "rw_db w' = rw_db w4" "rw_published w' = rw_published w4" "rw_failed w' = rw_failed w4" using locked(4) c2 by (simp_all add: close_connection_def)
    from run obtain d2 completed where last: "persist_metadata_refresh_state_cursor (run_state (ic_chain_id config) sl
        (terminal_status (rw_published w4) (rw_failed w4)) (rv_clock en t) (Some completed) (terminal_status (rw_published w4) (rw_failed w4) = ''complete'') w4) d2 = Inr (rw_db w4)"
      and code: "c2 = (if terminal_status (rw_published w4) (rw_failed w4) = ''complete'' then 0 else 2)"
      and counts: "rw_published w4 + rw_failed w4 = length (cl_paths sl)"
      by (rule refresh_run_Inr) (simp add: zero)
    have rows: "at_height (cl_observed_height sl) (rw_db w4) (ic_chain_id config, u (fst item))" if "item \<in> set (cl_paths sl)" "rw_failed w4 = 0" for item
      using run by (rule refresh_run_Inr [where item = item]) (use that zero in simp)
    from persist_Inr(1) [OF last] obtain r where r: "dm_refresh (rw_db w4) (ic_chain_id config) = Some r" "fw_observed_height r = cl_observed_height sl"
      "fw_run_status r = terminal_status (rw_published w4) (rw_failed w4)" "fw_selected r = int (length (cl_paths sl))"
      "fw_published r = int (rw_published w4)" "fw_failed r = int (rw_failed w4)"
      "rw_failed w4 = 0 \<longrightarrow> fw_last_successful_height r = Some (cl_observed_height sl)" by (auto simp: terminal_status_not_running)
    show ?thesis
      by (rule exI [of _ config], rule exI [of _ sl], rule exI [of _ r])
        (use locked(1) ran(1) db counts r code c2 rows in \<open>auto simp: same terminal_status_not_running at_height_def split: if_splits\<close>)
  qed (use assms(2) in simp)
qed (use assms(2) in simp)

text \<open>The records of other chains are not touched.\<close>

definition others_kept :: "string \<Rightarrow> refresh_world \<Rightarrow> refresh_world \<Rightarrow> bool" where
  "others_kept c w w' \<longleftrightarrow> (\<forall>chain. chain \<noteq> c \<longrightarrow> dm_refresh (rw_db w') chain = dm_refresh (rw_db w) chain)"

interpretation others_order: store_order "others_kept c" for c
  by unfold_locales (auto simp: others_kept_def)

lemma persist_others: "others_kept c w (snd (persist_state en (run_state c sl status started completed success w0) w))"
proof -
  obtain r w' where "persist_state en (run_state c sl status started completed success w0) w = (r, w')" by fastforce
  then show ?thesis
    using md_transact_db(1) [of en _ w r w'] persist_Inr(2) by (fastforce simp: persist_state_def others_kept_def bindE_Inr_iff)
qed

lemma run_others:
  "others_kept (ic_chain_id config) w (snd (refresh_run en config sl started w))" "others_kept c w (snd (record_failure en c sl started w))"
proof -
  have idle: "idle w w' \<Longrightarrow> others_kept c w w'" for c w w' by (simp add: idle_def others_kept_def)
  have paths: "others_kept c w (snd (refresh_paths en c h cs items w))" for c h cs items w
    using refresh_paths_step [of en c h cs items w "fst (refresh_paths en c h cs items w)" "snd (refresh_paths en c h cs items w)"]
    by (simp add: paths_step_def others_kept_def)
  have finish: "others_kept c w (snd (finish_refresh en c sl started w))" for c w
    unfolding finish_refresh_def Let_def by (intro others_order.bindS_le others_order.liftS_le persist_others idle idle_steps)
  show "others_kept (ic_chain_id config) w (snd (refresh_run en config sl started w))"
    unfolding refresh_run_def by (intro others_order.bindS_le persist_others idle candidates_idle paths finish)
  show "others_kept c w (snd (record_failure en c sl started w))"
    unfolding record_failure_def by (intro others_order.bindS_le persist_others idle idle_steps)
qed

text \<open>After a failed run the handler stores the failure, or the record of the run was never stored.\<close>

lemma failed_run_settled:
  assumes "refresh_run en config sl started w = (Inl e, w')" and "record_failure en (ic_chain_id config) sl started w' = (x, w'')"
    and "rv_fault en = (\<lambda>_. None)" and "started \<le> rv_clock en (rw_ticks w')" and "rw_published w = 0" and "rw_failed w = 0"
    and "dm_refresh (rw_db w'') (ic_chain_id config) = Some r" and "fw_run_status r = ''running''"
  shows "rw_db w'' = rw_db w"
proof -
  let ?c = "ic_chain_id config" and ?w = "w'\<lparr>rw_ticks := rw_ticks w' + 1\<rparr>"
  let ?s = "run_state ?c sl ''failed'' started (Some (rv_clock en (rw_ticks w'))) False ?w"
  have two: "persist_state en ?s ?w = (x, w'')" using assms(2) by (simp add: record_failure_def bindS_def utc_now_def)
  have "\<not> (\<exists>y. x = Inr y)" using persist_Inr(1) [OF persist_state_db(2) [OF two]] assms(7,8) by auto
  then obtain e2 where e2: "x = Inl e2" by (cases x) auto
  have none: "persist_metadata_refresh_state_cursor ?s (rw_db w') = Inl e2" "rw_db w'' = rw_db w'"
    using persist_state_db(3) [OF two e2 assms(3)] by simp_all
  note run = refresh_run_Inl [OF assms(1,3)]
  have "rw_db w' = rw_db w"
  proof (rule ccontr)
    assume "rw_db w' \<noteq> rw_db w"
    then obtain d1 where d1: "persist_metadata_refresh_state_cursor (run_state ?c sl ''running'' started None False w) (rw_db w) = Inr d1"
      "dm_refresh (rw_db w') = dm_refresh d1" using run by blast
    have "\<exists>d'. persist_metadata_refresh_state_cursor ?s (rw_db w') = Inr d'"
      by (rule failure_recorded [OF d1(1)]) (use d1(2) run assms(4-6) in simp_all)
    then show False using none(1) by simp
  qed
  then show ?thesis using none(2) by simp
qed

lemma record_failure_ticks: "record_failure en c sl started w = (r, w') \<Longrightarrow> rw_ticks w' = rw_ticks w + 1"
  using persist_state_db(1) by (fastforce simp: record_failure_def bindS_def utc_now_def)

text \<open>C33: With a server that answers, a refresh that ends with an exit code (that is, without an interrupt from the keyboard) does not
  leave its own record on running: whatever the endpoints do, a record that says running after the run was there before, unless
  the clock was set back while the run read it.\<close>

theorem refresh_record_settled:
  assumes "refresh_main en e requested limit (new_refresh_world d) = (Inr code, w')" and "rv_fault en = (\<lambda>_. None)"
    and "dm_refresh (rw_db w') chain = Some r" and "fw_run_status r = ''running''"
  shows "dm_refresh d chain = Some r \<or> (\<exists>i j. i < j \<and> j < rw_ticks w' \<and> rv_clock en j < rv_clock en i)"
  using assms(1)
proof (cases rule: refresh_main_cases)
  case unlocked
  then show ?thesis using assms(3) by simp
next
  case (locked config w1 w2)
  let ?c = "ic_chain_id config"
  have d: "rw_db w1 = d" "rw_db w' = rw_db w2" "rw_ticks w' = rw_ticks w2" using locked(2,4) by (simp_all add: idle_def new_refresh_world_def close_connection_def)
  from locked(3) show ?thesis
  proof (cases rule: locked_run_selected)
    case unselected
    then show ?thesis using d assms(3) by (simp add: idle_def)
  next
    case (ran sl w3 t)
    have w3: "rw_db w3 = d" "rw_published w3 = 0" "rw_failed w3 = 0" using ran(2) locked(2) d by (simp_all add: idle_def new_refresh_world_def)
    obtain x w4 where run: "refresh_run en config sl (rv_clock en t) w3 = (x, w4)" by fastforce
    have o4: "others_kept ?c w3 w4" using run_others(1) [of config w3 en sl "rv_clock en t"] run by simp
    show ?thesis
    proof (cases x)
      case (Inl e1)
      obtain y w5 where fail: "record_failure en ?c sl (rv_clock en t) w4 = (y, w5)" by fastforce
      have w5: "w2 = w5" using ran(4) run Inl fail by (auto split: if_splits)
      have ticks: "t < rw_ticks w4" "rw_ticks w' = rw_ticks w4 + 1"
        using refresh_run_Inl [OF run [unfolded Inl] assms(2)] ran(3) record_failure_ticks [OF fail] d(3) w5 by simp_all
      note settled = failed_run_settled [OF run [unfolded Inl] fail assms(2) _ w3(2,3)]
      have "others_kept ?c w3 w5" using o4 run_others(2) [of ?c w4 en sl "rv_clock en t"] fail by (auto intro: others_order.le_trans)
      then have "dm_refresh d chain = Some r" if "rv_clock en t \<le> rv_clock en (rw_ticks w4)"
        using settled [OF that] assms(3,4) d(2) w5 w3(1) by (cases "chain = ?c") (auto simp: others_kept_def)
      then show ?thesis using ticks by (metis less_add_one not_le)
    next
      case (Inr c2)
      have w2: "w2 = w4" using ran(4) run Inr by simp
      have "chain \<noteq> ?c"
        using run [unfolded Inr] by (rule refresh_run_Inr) (use assms(3,4) d(2) w2 persist_Inr(1) terminal_status_not_running(1) in fastforce)
      then show ?thesis using o4 assms(3) d(2) w2 w3(1) by (simp add: others_kept_def)
    qed
  qed
qed

section \<open>A run\<close>

text \<open>One realm in the catalog, one suitable endpoint, which then refuses every query: the path fails and so does the run.\<close>

definition md_environment :: env where
  "md_environment = [''GNO_RPC_URLS'' \<mapsto> ''http://a,http://b'']"

definition md_refresh_env :: refresh_env where
  "md_refresh_env =
     \<lparr>rv_runtime = md_runtime, rv_server = md_postgres,
      rv_catalog = \<lparr>ct_height = [''pearl-1'' \<mapsto> 5], ct_visible = (\<lambda>_. [''gno.land/r/a''])\<rparr>,
      rv_tables = empty_db, rv_lock_free = True, rv_fault = (\<lambda>_. None), rv_interrupt = (\<lambda>_. False),
      rv_interrupt_collection = (\<lambda>_. False), rv_reply = demo_reply, rv_dur = demo_dur,
      rv_client = (\<lambda>_ _ _ _. Inl (RpcError ''down'')), rv_clock = int\<rparr>"

definition catalogued_db :: metadata_db where
  "catalogued_db = empty_metadata_db\<lparr>dm_catalog := [(''pearl-1'', u ''gno.land/r/a'') \<mapsto> ''realm'']\<rparr>"

definition md_config :: indexer_config where
  "md_config = \<lparr>ic_database_url = [], ic_rpc_urls = [''http://a'', ''http://b''], ic_chain_id = ''pearl-1'', ic_max_height_lag = 10, ic_hard_max_heights = 100\<rparr>"

definition md_selection :: catalog_selection where
  "md_selection = \<lparr>cl_observed_height = 5, cl_paths = [(''gno.land/r/a'', ''realm'')]\<rparr>"

lemma md_texts:
  "path_kind (JStr ''gno.land/r/a'') = Some ''realm''" "py_strip ''http://a'' = ''http://a''" "py_strip ''http://b'' = ''http://b''"
  "py_int_of_str (py_strip ''10'') = Some 10" "py_int_of_str (py_strip ''100'') = Some 100" "py_strip [] = []" "py_strip ''pearl-1'' = ''pearl-1''"
  by code_simp+

lemma md_config_loaded: "load_config md_environment = Inr md_config"
  by (simp add: load_config_def configured_max_height_lag_def configured_hard_max_heights_def configured_rpc_urls_def configured_chain_id_def
      md_environment_def env_get_def md_config_def guardE_def md_texts)

lemma md_selected: "select_catalog_paths (rv_catalog md_refresh_env) catalogued_db ''pearl-1'' [] None = Inr md_selection"
  by (simp add: select_catalog_paths_def md_refresh_env_def catalog_rows_def select_requested_def md_selection_def catalogued_db_def guardE_def map_filter_simps md_texts)

lemma md_candidates: "refresh_candidates md_refresh_env md_config 5 w = (Inr [(''http://a'', None)], w\<lparr>rw_ops := rw_ops w + 2\<rparr>)"
proof -
  have "suitable_rpc_probes [demo_probe, raw_probe demo_reply demo_dur ''pearl-1'' (Suc 0, ''http://b'')] = [demo_probe]"
    using demo_raw(2) by (simp add: suitable_rpc_probes_def enumerate_simps) (simp add: demo_probe_def is_suitable_def)
  then show ?thesis
  using demo_cycle
  by (simp add: refresh_candidates_def md_read_def md_transact_def md_refresh_env_def md_config_def bindS_def liftS_def probe_urls_def
      get_selected_rpc_url_def empty_db_def guardE_def serves_def source_endpoint_id_def) (simp add: demo_probe_def serves_def)
qed

lemma md_collect_fails:
  "collect_first md_refresh_env (path_request ''pearl-1'' 5 item) [(''http://a'', None)] w =
     (Inr None, w\<lparr>rw_ticks := rw_ticks w + 1, rw_collections := rw_collections w + 1\<rparr>)"
  by (simp add: collect_from_def collect_path_metadata_def fetch_listing_def or_failed_def bindS_def abci_query_def md_refresh_env_def path_request_def
      failure_status_def retS_def failed_result_def)

lemma md_env_fields:
  "rv_fault md_refresh_env n = None" "rv_lock_free md_refresh_env" "rv_clock md_refresh_env = int" "ic_chain_id md_config = ''pearl-1''" "cl_observed_height md_selection = 5"
  by (simp_all add: md_refresh_env_def md_config_def md_selection_def)

lemma md_running:
  "persist_metadata_refresh_state_cursor (run_state ''pearl-1'' md_selection ''running'' started None False (new_refresh_world d0)) catalogued_db =
     Inr (catalogued_db\<lparr>dm_refresh := [''pearl-1'' \<mapsto> \<lparr>fw_observed_height = 5, fw_run_status = ''running'', fw_selected = 1, fw_published = 0,
       fw_failed = 0, fw_started_at = started, fw_completed_at = None, fw_last_successful_height = None, fw_last_successful_at = None\<rparr>]\<rparr>)"
  by (simp add: persist_metadata_refresh_state_cursor_def run_state_def md_selection_def refresh_valid_def chain_re_def aware_def opt_all_def
      new_refresh_world_def refresh_success_def catalogued_db_def empty_metadata_db_def upsert_refresh_row_def check_refresh_row_def guardE_def instant_def)

lemma md_refresh_ends:
  "\<exists>w' r. refresh_main md_refresh_env md_environment [] None (new_refresh_world catalogued_db) = (Inr 2, w') \<and> dm_refresh (rw_db w') ''pearl-1'' = Some r"
proof -
  let ?w = "\<lambda>ops ticks d n f l. \<lparr>rw_db = d, rw_ops = ops, rw_ticks = ticks, rw_collections = n, rw_published = 0, rw_failed = f, rw_locked = l\<rparr>"
  let ?run = "catalogued_db\<lparr>dm_refresh := [''pearl-1'' \<mapsto> \<lparr>fw_observed_height = 5, fw_run_status = ''running'', fw_selected = 1, fw_published = 0,
       fw_failed = 0, fw_started_at = 0, fw_completed_at = None, fw_last_successful_height = None, fw_last_successful_at = None\<rparr>]\<rparr>"
  have running: "persist_state md_refresh_env (run_state ''pearl-1'' md_selection ''running'' 0 None False (?w 2 1 catalogued_db 0 0 True)) (?w 2 1 catalogued_db 0 0 True) =
      (Inr (), ?w 3 1 ?run 0 0 True)"
    using md_running [of 0 catalogued_db] by (simp add: persist_state_def md_transact_def md_env_fields run_state_def new_refresh_world_def)
  have paths: "refresh_paths md_refresh_env ''pearl-1'' 5 [(''http://a'', None)] (cl_paths md_selection) (?w 5 1 ?run 0 0 True) = (Inr (), ?w 5 2 ?run 1 1 True)"
    by (simp add: md_selection_def refresh_path_def bindS_def md_collect_fails count_failed_def modifyS_def retS_def del: collect_first.simps)
  obtain d' where last: "persist_metadata_refresh_state_cursor (run_state ''pearl-1'' md_selection ''failed'' 0 (Some 2) False (?w 5 2 ?run 1 1 True)) ?run = Inr d'"
    using failure_recorded [OF md_running, where d = ?run and w = "?w 5 2 ?run 1 1 True" and now = 2] by (auto simp: md_selection_def)
  then have finish: "finish_refresh md_refresh_env ''pearl-1'' md_selection 0 (?w 5 2 ?run 1 1 True) = (Inr 2, ?w 6 3 d' 1 1 True)"
    by (simp add: finish_refresh_def bindS_def utc_now_def md_refresh_env_def terminal_status_def persist_state_def md_transact_def retS_def run_state_def)
  have "refresh_run md_refresh_env md_config md_selection 0 (?w 2 1 catalogued_db 0 0 True) = (Inr 2, ?w 6 3 d' 1 1 True)"
    using running paths finish by (simp add: refresh_run_def bindS_def md_candidates md_env_fields)
  then have "locked_run md_refresh_env md_config [] None (?w 1 0 catalogued_db 0 0 True) = (Inr 2, ?w 6 3 d' 1 1 True)"
    using md_selected
    by (simp add: locked_run_def bindS_def md_read_def md_transact_def md_env_fields utc_now_def retS_def numeral_2_eq_2)
  moreover have "try_lock md_refresh_env (new_refresh_world catalogued_db) = (Inr True, ?w 1 0 catalogued_db 0 0 True)"
    by (simp add: try_lock_def new_refresh_world_def md_env_fields)
  moreover obtain r where "dm_refresh d' ''pearl-1'' = Some r" using persist_Inr(1) [OF last] by blast
  ultimately show ?thesis by (simp add: refresh_main_def md_config_loaded close_connection_def)
qed

theorem refresh_keeps_store_witness:
  "\<exists>w'. refresh_main md_refresh_env md_environment [] None (new_refresh_world catalogued_db) = (Inr 2, w') \<and>
     store_ok md_postgres (rw_db w') \<and> md_le catalogued_db (rw_db w') \<and> \<not> rw_locked w'"
proof -
  obtain w' where run: "refresh_main md_refresh_env md_environment [] None (new_refresh_world catalogued_db) = (Inr 2, w')" using md_refresh_ends by blast
  have "md_step md_runtime md_postgres empty_metadata_db (empty_metadata_db\<lparr>dm_catalog := [(''pearl-1'', u ''gno.land/r/a'') \<mapsto> ''realm''], dm_endpoint_ids := []\<rparr>)"
    by (rule md_step.others) (simp_all add: empty_metadata_db_def)
  then have "md_step (rv_runtime md_refresh_env) (rv_server md_refresh_env) empty_metadata_db catalogued_db"
    by (simp add: catalogued_db_def empty_metadata_db_def md_refresh_env_def)
  then show ?thesis using refresh_keeps_store [OF r_into_rtranclp run] run by (auto simp: md_refresh_env_def)
qed

theorem refresh_accounts_for_paths_witness:
  "\<exists>w' r. refresh_main md_refresh_env md_environment [] None (new_refresh_world catalogued_db) = (Inr 2, w') \<and>
     dm_refresh (rw_db w') ''pearl-1'' = Some r \<and> fw_selected r = 1 \<and> fw_published r + fw_failed r = 1"
proof -
  obtain w' where run: "refresh_main md_refresh_env md_environment [] None (new_refresh_world catalogued_db) = (Inr 2, w')" using md_refresh_ends by blast
  then show ?thesis
    using refresh_accounts_for_paths [OF run] md_config_loaded md_selected by (force simp: md_config_def md_selection_def)
qed

theorem refresh_record_settled_witness:
  "\<exists>w' r. refresh_main md_refresh_env md_environment [] None (new_refresh_world catalogued_db) = (Inr 2, w') \<and>
     dm_refresh (rw_db w') ''pearl-1'' = Some r \<and> fw_run_status r \<noteq> ''running''"
proof -
  obtain w' r where run: "refresh_main md_refresh_env md_environment [] None (new_refresh_world catalogued_db) = (Inr 2, w')"
    and r: "dm_refresh (rw_db w') ''pearl-1'' = Some r" using md_refresh_ends by blast
  moreover have "rv_clock md_refresh_env = int" "rv_fault md_refresh_env = (\<lambda>_. None)" by (simp_all add: md_refresh_env_def)
  ultimately show ?thesis using refresh_record_settled [OF run _ r] by (auto simp: catalogued_db_def empty_metadata_db_def)
qed

end
