(* ===== verification/Spec2Isabelle.thy ===== *)
theory Spec2Isabelle
  imports Rpc_Client Accounts Continuous_Run Execution_Backfill Valopers_Persistence Governance_Storable
    Governance_Run Metadata_Run
begin

text \<open>
  A model of the explorer's indexing side: the programs that fill the PostgreSQL database from the RPC endpoints of a
  Gno chain, and what they guarantee about it.

  \<^bold>\<open>The program.\<close> The continuous indexer (\<open>indexer/runner.py\<close>) probes the configured endpoints (\<open>indexer/rpc.py\<close>), keeps
  a preferred one by hysteresis, fetches the next heights from it with failover to the others, turns the payloads
  into rows (\<open>indexer/parsers.py\<close> over the payload parsers of \<open>scripts/inspect_rpc.py\<close>) and writes one height per
  transaction (\<open>indexer/database.py\<close>) under an advisory lock that excludes a second indexer. The bounded service
  (\<open>indexer/service.py\<close>) and the backfill of execution results use the same parts for a given range. Three collectors
  work beside it: the Valopers registry (parse, collect, replace), the governance snapshots (discover, validate, persist) and
  the metadata of realms and packages (collect, validate, publish).
  The HTTP API and the frontend only read what these programs write.

  \<^bold>\<open>Python in HOL.\<close> \<open>Prelude\<close> gives exceptions as values and the result type with its sequencing, \<open>Py_Effects\<close> computations
  whose effects survive an exception, \<open>Invariants\<close> the contract of a component with a step relation (a locale every such
  component interprets). \<open>Py_Float\<close> are binary64 floats as rationals with rounding, \<open>Py_Text\<close>, \<open>Py_Number\<close> and
  \<open>Py_Decimal\<close> texts and the numbers read from them, \<open>Py_Unicode\<close> texts over all code points with UTF-8, \<open>Py_Json\<close> the values of
  \<open>json.loads\<close>, \<open>Py_Json_Text\<close> its parser over Unicode texts, \<open>Hashes\<close> SHA-256 and BLAKE2b over machine words.
  Texts come in two kinds. What the three collectors parse and store (renders, descriptions, titles, sources, JSON payloads) is
  a list of code points, lone surrogates included, so that encodings that raise and characters PostgreSQL refuses are branches.
  The indexer itself (payloads of blocks, votes and results, configuration, summaries) works on \<open>string\<close>, whose characters
  are the code points up to 255: a payload with other characters is outside its model.

  \<^bold>\<open>Theories and code.\<close>
  \<^item> \<open>Inspect_Rpc\<close>, \<open>Rpc_Client\<close>: \<open>scripts/inspect_rpc.py\<close>. Payload parsers and the signing summary; the session pool as
    a step relation of interleaved threads.
  \<^item> \<open>Rpc\<close>: \<open>indexer/rpc.py\<close>. Probing, ranking, selection, parent continuity. The selected endpoint is healthy, within
    the lag bound and the best ranked, and one is selected whenever one is healthy.
  \<^item> \<open>Parsers\<close>: \<open>indexer/parsers.py\<close>. Votes are classified one per active validator, results correspond to
    transactions, an accepted height is consistent.
  \<^item> \<open>Tx_Summary\<close>, \<open>Accounts\<close>, \<open>Realm_Catalog\<close>: \<open>indexer/transaction_summary.py\<close>, \<open>api/network_profile.py\<close> with
    \<open>indexer/transaction_participants.py\<close>, \<open>indexer/realm_catalog.py\<close>. Limits of a summary, bech32 addresses, the
    aggregation of a block against a reference table.
  \<^item> \<open>Db_Tables\<close>, \<open>Db_Write\<close>, \<open>Db_Frames\<close>, \<open>Db_Finalized\<close>, \<open>Db_Reprocess\<close>, \<open>Db_Endpoints\<close>: the tables of
    \<open>database/schema.sql\<close> with their constraints and \<open>indexer/database.py\<close>. Finalized rows are kept, except that the derived
    summary of a transaction is written anew with its height; the checkpoint moves by one, reprocessing changes nothing, the endpoint tables refine an abstract selection.
  \<^item> \<open>Hysteresis\<close>, \<open>Indexer_World\<close>, \<open>Runner\<close>, \<open>Runner_Steps\<close>, \<open>Runner_Chain\<close>, \<open>Runner_Loop\<close>, \<open>Continuous_Run\<close>:
    \<open>indexer/runner.py\<close>. A cycle, whatever endpoints and server do, leaves a hash-linked chain; failover is exhaustive;
    the run ends after a stop signal, its sleeps are bounded, the lock is released.
  \<^item> \<open>Service\<close>, \<open>Execution_Backfill\<close>, \<open>Indexer_Config\<close>: \<open>indexer/service.py\<close>, \<open>indexer/execution_backfill.py\<close> with
    the loop of its script, \<open>indexer/config.py\<close>.
  \<^item> \<open>Valopers_Parser\<close>, \<open>Valopers_Source\<close>, \<open>Valopers_Snapshot\<close>, \<open>Valopers_Persistence\<close>: the four modules of the same
    names under \<open>indexer/\<close>. The parsers accept exactly the canonical documents, the collection is bounded, a stored
    snapshot is the collected one.
  \<^item> \<open>Governance_Types\<close>, \<open>Governance_Persistence\<close>, \<open>Governance_Store\<close>, \<open>Governance_Sync\<close>, \<open>Governance_Accept\<close>: the data of
    \<open>governance/gno.py\<close> and \<open>indexer/governance_persistence.py\<close>. Both writers meet one contract (a locale): the tables
    stay readable, proposals never disappear, statuses follow the permitted transitions; a full snapshot is stored
    exactly and accepted if and only if the driver can send its values and the server can index its keys.
  \<^item> \<open>Governance_Render\<close>, \<open>Governance_Discovery\<close>, \<open>Governance_Walk\<close>: the parsers of \<open>governance/gno.py\<close> and the discovery over
    \<open>abci_query\<close> of \<open>scripts/inspect_rpc.py\<close>. A complete list is the union of the reachable pages; the requests are bounded.
  \<^item> \<open>Governance_Valid\<close>, \<open>Governance_Storable\<close>: which discoveries the persistence layer accepts, across the two modules.
  \<^item> \<open>Governance_Updater\<close>, \<open>Governance_Run\<close>: \<open>indexer/governance_updater.py\<close> with its settings and the methods of
    \<open>PostgresDatabase\<close> it calls. The loop keeps the tables readable and the life cycle of proposals, fails over, waits
    within bounds and ends after a stop signal.
  \<^item> \<open>Realm_Metadata\<close>, \<open>Metadata_Snapshot\<close>, \<open>Metadata_Fingerprint\<close>, \<open>Metadata_Store\<close>, \<open>Metadata_Publish\<close>, \<open>Metadata_History\<close>:
    \<open>indexer/realm_metadata.py\<close> and \<open>indexer/realm_metadata_persistence.py\<close>. The JSON limits are exactly those of the size and
    depth of the value, the fingerprint determines the files, a publication stores its snapshot, failures keep the last
    success, and no sequence of writes goes back to an earlier height (times are compared at the same height only).
  \<^item> \<open>Metadata_Collector\<close>, \<open>Metadata_Collected\<close>: \<open>indexer/realm_metadata_collector.py\<close>. The requests are bounded; which
    collected snapshots the persistence layer accepts.
  \<^item> \<open>Metadata_Refresh\<close>, \<open>Metadata_Run\<close>: \<open>scripts/refresh_realm_metadata.py\<close>. A run accounts for every selected path, leaves a
    finished record unless the clock was set back or the run was interrupted from the keyboard, and keeps the tables consistent.

  \<^bold>\<open>Inputs.\<close> What is not computed by the program is an argument: the answers of the endpoints and their durations, the
  transaction decoder, the faults of the database server at each connection, the moment of the stop signal, keyboard interrupts of
  the metadata refresh, the readings of the clock, which votes' keys fit the index of PostgreSQL (\<open>gb_key_fits\<close>), the paths the catalog shows,
  how the driver binds a Python value (\<open>pg\<close>) and the server a \<open>jsonb\<close> value (\<open>md_server\<close>), the nesting limit of the
  interpreter (\<open>py_runtime\<close>), tables of the Unicode standard. The theorems hold for all of them, but for what their hypotheses name.

  \<^bold>\<open>Loops.\<close> Loops over data are structural. The loops of the continuous run take fuel, one unit per turn, with \<open>None\<close>
  for running out of it; after a stop signal the run returns with any fuel above the number of polls until the signal
  (\<open>stop_signal_ends_run\<close>), and with \<open>--once\<close> the first turn is enough (\<open>once_returns\<close>). The backfill loop is a partial
  function shown to return for every input (\<open>backfill_terminates\<close>). The walk over the list pages terminates by the pages left
  and the length of the queue; the loop of the governance updater takes fuel, one unit per turn, and returns with any fuel
  above the number of readings of the stop flag until the signal (\<open>stop_signal_ends_updater\<close>).

  \<^bold>\<open>Not modelled.\<close> The HTTP transport and the process of the transaction decoder (their results are inputs), log lines,
  columns set to \<open>now()\<close>, the read-only HTTP API with its Cosmos proxy, the refresh of the realm catalog,
  the network distribution collector, schema migrations, command line front ends and the JavaScript frontend.
\<close>

end
